(* ===== verification/Navit_Prelude.thy ===== *)
theory Navit_Prelude
  imports Main "HOL-Library.Monad_Syntax" "HOL-Library.Word"
begin

text \<open>
  Shared vocabulary of the development: the C integer types the sources use, truncating
  division, coordinates, and the generic lemmas on lists and options the components share.

  A C \<open>int\<close> is modelled as an \<open>int\<close>. Where the code computes with values that can come
  near the bounds of the type, the result is reduced with \<open>i32\<close>, the two's complement
  value a 32-bit machine computes.
\<close>

named_theorems c_arith \<open>evaluation of the C arithmetic of the prelude\<close>

section \<open>C integers\<close>

definition INT_MAX :: int where
  "INT_MAX = 2147483647"

definition i32 :: "int \<Rightarrow> int" where
  "i32 x = (x + 2147483648) mod 4294967296 - 2147483648"

definition in_i32 :: "int \<Rightarrow> bool" where
  "in_i32 x \<longleftrightarrow> - 2147483648 \<le> x \<and> x \<le> 2147483647"

lemma i32_id [simp]: "in_i32 x \<Longrightarrow> i32 x = x"
  by (simp add: i32_def in_i32_def)

lemma in_i32_i32 [simp]: "in_i32 (i32 x)"
  by (auto simp: i32_def in_i32_def)

lemma i32_range: "- 2147483648 \<le> i32 x" "i32 x \<le> INT_MAX"
  using in_i32_i32 [of x] by (auto simp: in_i32_def INT_MAX_def)

text \<open>C division rounds towards zero; a division by zero is excluded where it is used.\<close>

definition cdiv :: "int \<Rightarrow> int \<Rightarrow> int" where
  "cdiv a b = sgn a * sgn b * (\<bar>a\<bar> div \<bar>b\<bar>)"

definition cmod :: "int \<Rightarrow> int \<Rightarrow> int" where
  "cmod a b = a - b * cdiv a b"

lemma cdiv_nonneg [simp]: "0 \<le> a \<Longrightarrow> 0 < b \<Longrightarrow> cdiv a b = a div b"
  by (cases "a = 0") (auto simp: cdiv_def)

lemma cdiv_neg: "a \<le> 0 \<Longrightarrow> 0 < b \<Longrightarrow> cdiv a b = - ((- a) div b)"
  by (cases "a = 0") (auto simp: cdiv_def)

lemma cmod_nonneg [simp]: "0 \<le> a \<Longrightarrow> 0 < b \<Longrightarrow> cmod a b = a mod b"
  by (simp add: cmod_def minus_mult_div_eq_mod)

lemmas [c_arith] = INT_MAX_def in_i32_def i32_def cdiv_def cmod_def

section \<open>Coordinates\<close>

text \<open>\<open>struct coord\<close> of coord.h: two C \<open>int\<close>s.\<close>

record coord =
  cx :: int
  cy :: int

lemma coord_eq_iff: "c = d \<longleftrightarrow> cx c = cx d \<and> cy c = cy (d :: coord)"
  by auto

section \<open>Lists and options\<close>

definition hd_opt :: "'a list \<Rightarrow> 'a option" where
  "hd_opt xs = (case xs of [] \<Rightarrow> None | x # _ \<Rightarrow> Some x)"

definition last_opt :: "'a list \<Rightarrow> 'a option" where
  "last_opt xs = (if xs = [] then None else Some (last xs))"

lemma hd_opt_simps [simp]:
  "hd_opt [] = None" "hd_opt (x # xs) = Some x"
  by (simp_all add: hd_opt_def)

lemma hd_opt_append: "hd_opt (xs @ ys) = (if xs = [] then hd_opt ys else hd_opt xs)"
  by (cases xs) auto

lemma last_opt_simps [simp]:
  "last_opt [] = None" "last_opt (xs @ [x]) = Some x"
  "last_opt (x # xs) = (if xs = [] then Some x else last_opt xs)"
  by (simp_all add: last_opt_def)

lemma last_opt_append: "last_opt (xs @ ys) = (if ys = [] then last_opt xs else last_opt ys)"
  by (auto simp: last_opt_def)

lemma hd_opt_None [simp]: "hd_opt xs = None \<longleftrightarrow> xs = []"
  by (cases xs) auto

lemma last_opt_None [simp]: "last_opt xs = None \<longleftrightarrow> xs = []"
  by (simp add: last_opt_def)

lemma hd_opt_Some: "hd_opt xs = Some a \<longleftrightarrow> (\<exists>ys. xs = a # ys)"
  by (cases xs) auto

lemma last_opt_Some: "last_opt xs = Some a \<longleftrightarrow> (\<exists>ys. xs = ys @ [a])"
  by (cases xs rule: rev_cases) auto

lemma sum_list_map_remove1:
  "a \<in> set xs \<Longrightarrow> sum_list (map f (remove1 a xs)) = sum_list (map f xs) - (f a :: int)"
  by (induction xs) auto

text \<open>
  The iterator idiom of the sources: find the next element with a property after \<open>last\<close>, or the
  first one for NULL.
\<close>

fun scan_next :: "('a \<Rightarrow> bool) \<Rightarrow> 'a option \<Rightarrow> bool \<Rightarrow> 'a list \<Rightarrow> 'a option" where
  "scan_next P lst seen [] = None"
| "scan_next P lst seen (x # xs) =
     (if P x then
        if lst = None \<or> seen then Some x
        else scan_next P lst (if lst = Some x then True else seen) xs
      else scan_next P lst seen xs)"

lemma scan_next_first: "lst = None \<or> seen \<Longrightarrow> scan_next P lst seen xs = hd_opt (filter P xs)"
  by (induction xs) auto

lemma scan_next_Some:
  "distinct xs \<Longrightarrow> filter P xs = us @ a # vs \<Longrightarrow> scan_next P (Some a) False xs = hd_opt vs"
proof (induction xs arbitrary: us)
  case (Cons x xs)
  show ?case
  proof (cases "P x")
    case True
    show ?thesis
    proof (cases us)
      case Nil
      then show ?thesis using Cons.prems True by (simp add: scan_next_first)
    next
      case (Cons u us')
      then have f: "filter P xs = us' @ a # vs" using Cons.prems True by simp
      then have "a \<in> set (filter P xs)" by simp
      then have "x \<noteq> a" using Cons.prems by auto
      then show ?thesis using Cons.prems True f Cons.IH [of us'] by simp
    qed
  qed (use Cons in simp)
qed simp

text \<open>The iterator thus enumerates the elements with the property, in order.\<close>

lemma scan_next_enumerates:
  assumes "distinct xs" "i < length (filter P xs)"
  shows "scan_next P (Some (filter P xs ! i)) False xs
    = (if Suc i < length (filter P xs) then Some (filter P xs ! Suc i) else None)"
proof -
  let ?f = "filter P xs"
  have "?f = take i ?f @ ?f ! i # drop (Suc i) ?f" using assms(2) by (rule id_take_nth_drop)
  then have "scan_next P (Some (?f ! i)) False xs = hd_opt (drop (Suc i) ?f)"
    using scan_next_Some [OF assms(1)] by blast
  then show ?thesis by (auto simp: hd_opt_def Cons_nth_drop_Suc [symmetric])
qed

end
