(* ===== verification/Navit_Cache.thy ===== *)
theory Navit_Cache
  imports Navit_Prelude
begin

text \<open>
  The adaptive cache of cache.c, at the level of the code's linked lists.

  \<open>cache_entry\<close>, \<open>cache_entry_list\<close> and \<open>cache\<close> are the three structs. An entry's address is a
  natural number; \<open>c_mem\<close> holds the allocated slices, so that reading or writing a freed or
  never allocated entry has the result \<open>None\<close>. The four list heads \<open>t1\<close>, \<open>b1\<close>, \<open>t2\<close>, \<open>b2\<close> of the
  struct are the four values of \<open>c_list\<close>, and a pointer to one of them (\<open>where\<close>, \<open>insert\<close>) is
  its name. The glib hash table is a map from the id words to the entry. A data pointer the
  cache hands out is identified with the entry it belongs to (the code moves between the two by
  \<open>entry_size\<close> bytes); the data bytes are not modelled.
\<close>

section \<open>Data\<close>

datatype cache_where = T1 | B1 | T2 | B2

record cache_entry =
  ce_usage :: int
  ce_size :: int
  ce_where :: "cache_where option"
  ce_next :: "nat option"
  ce_prev :: "nat option"
  ce_id :: "int list"

record cache_entry_list =
  cl_first :: "nat option"
  cl_last :: "nat option"
  cl_size :: int

record cache =
  c_list :: "cache_where \<Rightarrow> cache_entry_list"
  c_insert :: "cache_where option"
  c_size :: int
  c_id_size :: int
  c_entry_size :: int
  c_t1_target :: int
  c_misses :: int
  c_hits :: int
  c_hash :: "int list \<rightharpoonup> nat"
  c_mem :: "nat \<rightharpoonup> cache_entry"
  c_brk :: nat

definition sizeof_cache_entry :: int where
  "sizeof_cache_entry = 32"

definition empty_list :: cache_entry_list where
  "empty_list = \<lparr>cl_first = None, cl_last = None, cl_size = 0\<rparr>"

text \<open>The hash and equality callbacks given to the hash table for the two id sizes.\<close>

definition cache_hash4 :: "32 word list \<Rightarrow> 32 word" where
  "cache_hash4 i = i ! 0"

definition cache_hash20 :: "32 word list \<Rightarrow> 32 word" where
  "cache_hash20 i = Bit_Operations.xor (Bit_Operations.xor (Bit_Operations.xor
     (Bit_Operations.xor (i ! 0) (i ! 1)) (i ! 2)) (i ! 3)) (i ! 4)"

definition cache_equal4 :: "32 word list \<Rightarrow> 32 word list \<Rightarrow> bool" where
  "cache_equal4 a b \<longleftrightarrow> a ! 0 = b ! 0"

definition cache_equal20 :: "32 word list \<Rightarrow> 32 word list \<Rightarrow> bool" where
  "cache_equal20 a b \<longleftrightarrow> a ! 0 = b ! 0 \<and> a ! 1 = b ! 1 \<and> a ! 2 = b ! 2 \<and> a ! 3 = b ! 3 \<and> a ! 4 = b ! 4"

section \<open>Operations\<close>

text \<open>Access through a pointer: \<open>None\<close> when the slice is not allocated.\<close>

definition upd_ent :: "nat \<Rightarrow> (cache_entry \<Rightarrow> cache_entry) \<Rightarrow> cache \<Rightarrow> cache option" where
  "upd_ent a f c = (case c_mem c a of None \<Rightarrow> None | Some e \<Rightarrow> Some (c\<lparr>c_mem := (c_mem c)(a \<mapsto> f e)\<rparr>))"

definition upd_list :: "cache_where \<Rightarrow> (cache_entry_list \<Rightarrow> cache_entry_list) \<Rightarrow> cache \<Rightarrow> cache" where
  "upd_list w f c = c\<lparr>c_list := (c_list c)(w := f (c_list c w))\<rparr>"

definition cache_new :: "int \<Rightarrow> int \<Rightarrow> cache option" where
  "cache_new id_size sz =
     (if id_size = 4 \<or> id_size = 20 then
        Some \<lparr>c_list = (\<lambda>_. empty_list), c_insert = None, c_size = sz,
          c_id_size = cdiv id_size 4, c_entry_size = cdiv id_size 4 * 4 + sizeof_cache_entry,
          c_t1_target = 0, c_misses = 0, c_hits = 0,
          c_hash = Map.empty, c_mem = Map.empty, c_brk = 0\<rparr>
      else None)"

definition cache_resize :: "cache \<Rightarrow> int \<Rightarrow> cache" where
  "cache_resize c sz = c\<lparr>c_size := sz\<rparr>"

definition cache_insert_mru :: "bool \<Rightarrow> cache_where \<Rightarrow> nat \<Rightarrow> cache \<Rightarrow> cache option" where
  "cache_insert_mru with_hash w a c = do {
     let first = cl_first (c_list c w);
     c \<leftarrow> upd_ent a (\<lambda>e. e\<lparr>ce_prev := None, ce_next := first, ce_where := Some w\<rparr>) c;
     c \<leftarrow> (case first of None \<Rightarrow> Some c | Some n \<Rightarrow> upd_ent n (\<lambda>e. e\<lparr>ce_prev := Some a\<rparr>) c);
     let c = upd_list w (\<lambda>l. l\<lparr>cl_first := Some a\<rparr>) c;
     let c = (if cl_last (c_list c w) = None then upd_list w (\<lambda>l. l\<lparr>cl_last := Some a\<rparr>) c else c);
     e \<leftarrow> c_mem c a;
     let c = upd_list w (\<lambda>l. l\<lparr>cl_size := cl_size l + ce_size e\<rparr>) c;
     Some (if with_hash then c\<lparr>c_hash := (c_hash c)(ce_id e \<mapsto> a)\<rparr> else c)
   }"

definition cache_remove_from_list :: "cache_where \<Rightarrow> nat \<Rightarrow> cache \<Rightarrow> cache option" where
  "cache_remove_from_list w a c = do {
     e \<leftarrow> c_mem c a;
     c \<leftarrow> (case ce_prev e of
            Some p \<Rightarrow> upd_ent p (\<lambda>x. x\<lparr>ce_next := ce_next e\<rparr>) c
          | None \<Rightarrow> Some (upd_list w (\<lambda>l. l\<lparr>cl_first := ce_next e\<rparr>) c));
     e \<leftarrow> c_mem c a;
     c \<leftarrow> (case ce_next e of
            Some n \<Rightarrow> upd_ent n (\<lambda>x. x\<lparr>ce_prev := ce_prev e\<rparr>) c
          | None \<Rightarrow> Some (upd_list w (\<lambda>l. l\<lparr>cl_last := ce_prev e\<rparr>) c));
     e \<leftarrow> c_mem c a;
     Some (upd_list w (\<lambda>l. l\<lparr>cl_size := cl_size l - ce_size e\<rparr>) c)
   }"

definition cache_remove :: "nat \<Rightarrow> cache \<Rightarrow> cache option" where
  "cache_remove a c = do {
     e \<leftarrow> c_mem c a;
     Some (c\<lparr>c_hash := (c_hash c)(ce_id e := None), c_mem := (c_mem c)(a := None)\<rparr>)
   }"

definition cache_remove_lru_helper :: "cache_where \<Rightarrow> cache \<Rightarrow> (nat option \<times> cache) option" where
  "cache_remove_lru_helper w c =
     (case cl_last (c_list c w) of
        None \<Rightarrow> Some (None, c)
      | Some lst \<Rightarrow> do {
          e \<leftarrow> c_mem c lst;
          let c = upd_list w (\<lambda>l. l\<lparr>cl_last := ce_prev e\<rparr>) c;
          c \<leftarrow> (case ce_prev e of
                 Some p \<Rightarrow> upd_ent p (\<lambda>x. x\<lparr>ce_next := None\<rparr>) c
               | None \<Rightarrow> Some (upd_list w (\<lambda>l. l\<lparr>cl_first := None\<rparr>) c));
          Some (Some lst, upd_list w (\<lambda>l. l\<lparr>cl_size := cl_size l - ce_size e\<rparr>) c)
        })"

text \<open>
  The loop of \<open>cache_remove_lru\<close> rotates entries in use to the front. It is written without a
  termination argument: \<open>None\<close> stands for a loop that never ends as well as for an access to
  an entry that is not allocated, and \<open>cache_remove_lru_spec\<close> below excludes both.
\<close>

partial_function (option) cache_remove_lru_loop ::
  "cache_where \<Rightarrow> int \<Rightarrow> cache \<Rightarrow> (int \<times> cache) option" where
  "cache_remove_lru_loop w seen c =
     (case cl_last (c_list c w) of
        None \<Rightarrow> Some (seen, c)
      | Some a \<Rightarrow> Option.bind (c_mem c a) (\<lambda>e.
          if ce_usage e \<noteq> 0 \<and> seen < cl_size (c_list c w) then
            Option.bind (cache_remove_lru_helper w c) (\<lambda>(r, c).
            Option.bind (cache_insert_mru False w a c) (\<lambda>c.
            Option.bind (c_mem c a) (\<lambda>e. cache_remove_lru_loop w (seen + ce_size e) c)))
          else Some (seen, c)))"

text \<open>\<open>cache_remove_lru (cache, list)\<close>: with a cache argument (\<open>free\<close>) the victim is freed and NULL returned.\<close>

definition cache_remove_lru :: "bool \<Rightarrow> cache_where \<Rightarrow> cache \<Rightarrow> (nat option \<times> cache) option" where
  "cache_remove_lru free w c = do {
     (seen, c) \<leftarrow> cache_remove_lru_loop w 0 c;
     case cl_last (c_list c w) of
       None \<Rightarrow> Some (None, c)
     | Some lst \<Rightarrow> do {
         e \<leftarrow> c_mem c lst;
         if ce_usage e \<noteq> 0 \<or> cl_size (c_list c w) \<le> seen then Some (None, c)
         else do {
           (_, c) \<leftarrow> cache_remove_lru_helper w c;
           if free then do { c \<leftarrow> cache_remove lst c; Some (None, c) }
           else Some (Some lst, c)
         }
       }
   }"

definition cache_entry_new :: "int list \<Rightarrow> int \<Rightarrow> cache \<Rightarrow> nat \<times> cache" where
  "cache_entry_new i sz c =
     (let sz = sz + c_entry_size c; a = c_brk c in
      (a, c\<lparr>c_misses := c_misses c + sz,
            c_mem := (c_mem c)(a \<mapsto> \<lparr>ce_usage = 1, ce_size = sz, ce_where = None,
               ce_next = None, ce_prev = None, ce_id = take (nat (c_id_size c)) i\<rparr>),
            c_brk := Suc a\<rparr>))"

definition cache_entry_destroy :: "nat \<Rightarrow> cache \<Rightarrow> cache option" where
  "cache_entry_destroy a c = upd_ent a (\<lambda>e. e\<lparr>ce_usage := ce_usage e - 1\<rparr>) c"

definition cache_trim :: "nat \<Rightarrow> cache \<Rightarrow> (nat \<times> cache) option" where
  "cache_trim a c = do {
     e \<leftarrow> c_mem c a;
     if c_entry_size c < ce_size e then
       (let c = c\<lparr>c_hash := (c_hash c)(ce_id e := None)\<rparr>;
            b = c_brk c;
            c = c\<lparr>c_mem := ((c_mem c)(b \<mapsto> e\<lparr>ce_size := c_entry_size c\<rparr>))(a := None), c_brk := Suc b\<rparr>
        in Some (b, c\<lparr>c_hash := (c_hash c)(ce_id e \<mapsto> b)\<rparr>))
     else Some (a, c)
   }"

definition cache_move :: "cache_where \<Rightarrow> cache_where \<Rightarrow> cache \<Rightarrow> (nat option \<times> cache) option" where
  "cache_move old new c = do {
     (r, c) \<leftarrow> cache_remove_lru False old c;
     case r of
       None \<Rightarrow> Some (None, c)
     | Some a \<Rightarrow> do {
         (b, c) \<leftarrow> cache_trim a c;
         c \<leftarrow> cache_insert_mru False new b c;
         Some (Some b, c)
       }
   }"

definition cache_replace :: "cache \<Rightarrow> cache option" where
  "cache_replace c =
     (if max 1 (c_t1_target c) \<le> cl_size (c_list c T1) then do {
        (r, c) \<leftarrow> cache_move T1 B1 c;
        (case r of None \<Rightarrow> do { (_, c) \<leftarrow> cache_move T2 B2 c; Some c } | Some _ \<Rightarrow> Some c)
      } else do {
        (r, c) \<leftarrow> cache_move T2 B2 c;
        (case r of None \<Rightarrow> do { (_, c) \<leftarrow> cache_move T1 B1 c; Some c } | Some _ \<Rightarrow> Some c)
      })"

definition cache_flush_data :: "nat \<Rightarrow> cache \<Rightarrow> cache option" where
  "cache_flush_data a c = do {
     e \<leftarrow> c_mem c a;
     w \<leftarrow> ce_where e;
     c \<leftarrow> cache_remove_from_list w a c;
     cache_remove a c
   }"

definition cache_flush :: "int list \<Rightarrow> cache \<Rightarrow> cache option" where
  "cache_flush i c =
     (case c_hash c i of
        None \<Rightarrow> Some c
      | Some a \<Rightarrow> do {
          e \<leftarrow> c_mem c a;
          w \<leftarrow> ce_where e;
          c \<leftarrow> cache_remove_from_list w a c;
          cache_remove a c
        })"

text \<open>
  \<open>cache_lookup\<close>: a hit moves the entry to the front of T2; a hit in a phantom list adapts the
  target size of T1 (a division by the size of that list, \<open>None\<close> if it were zero), makes room and
  forgets the phantom; a miss only sets where the next insertion goes.
\<close>

definition c_div :: "int \<Rightarrow> int \<Rightarrow> int option" where
  "c_div a b = (if b = 0 then None else Some (cdiv a b))"

definition cache_lookup :: "int list \<Rightarrow> cache \<Rightarrow> (nat option \<times> cache) option" where
  "cache_lookup i c =
     (case c_hash c i of
        None \<Rightarrow> Some (None, c\<lparr>c_insert := Some T1\<rparr>)
      | Some a \<Rightarrow> do {
          e \<leftarrow> c_mem c a;
          if ce_where e = Some T1 \<or> ce_where e = Some T2 then do {
            let c = c\<lparr>c_hits := c_hits c + ce_size e\<rparr>;
            w \<leftarrow> ce_where e;
            c \<leftarrow> cache_remove_from_list w a c;
            c \<leftarrow> cache_insert_mru False T2 a c;
            c \<leftarrow> upd_ent a (\<lambda>e. e\<lparr>ce_usage := ce_usage e + 1\<rparr>) c;
            Some (Some a, c)
          } else do {
            c \<leftarrow> (if ce_where e = Some B1 then do {
                   q \<leftarrow> c_div (cl_size (c_list c B2)) (cl_size (c_list c B1));
                   cache_remove_from_list B1 a
                     (c\<lparr>c_t1_target := min (c_t1_target c + max q 1) (c_size c)\<rparr>)
                 } else if ce_where e = Some B2 then do {
                   q \<leftarrow> c_div (cl_size (c_list c B1)) (cl_size (c_list c B2));
                   cache_remove_from_list B2 a
                     (c\<lparr>c_t1_target := max (c_t1_target c - max q 1) 0\<rparr>)
                 } else Some c);
            c \<leftarrow> cache_replace c;
            c \<leftarrow> cache_remove a c;
            Some (None, c\<lparr>c_insert := Some T2\<rparr>)
          }
        })"

definition cache_insert :: "nat \<Rightarrow> cache \<Rightarrow> cache option" where
  "cache_insert a c = do {
     let t1 = cl_size (c_list c T1);
     let b1 = cl_size (c_list c B1);
     let t2 = cl_size (c_list c T2);
     let b2 = cl_size (c_list c B2);
     c \<leftarrow> (if c_insert c = Some T1 then
            if c_size c \<le> t1 + b1 then
              if t1 < c_size c then do {
                (_, c) \<leftarrow> cache_remove_lru True B1 c;
                cache_replace c
              } else do { (_, c) \<leftarrow> cache_remove_lru True T1 c; Some c }
            else
              if c_size c \<le> t1 + t2 + b1 + b2 then do {
                c \<leftarrow> (if 2 * c_size c \<le> t1 + t2 + b1 + b2
                     then do { (_, c) \<leftarrow> cache_remove_lru True B2 c; Some c } else Some c);
                cache_replace c
              } else Some c
          else Some c);
     w \<leftarrow> c_insert c;
     cache_insert_mru True w a c
   }"

definition cache_insert_new :: "int list \<Rightarrow> int \<Rightarrow> cache \<Rightarrow> (nat \<times> cache) option" where
  "cache_insert_new i sz c = do {
     let (a, c) = cache_entry_new i sz c;
     c \<leftarrow> cache_insert a c;
     Some (a, c)
   }"

text \<open>\<open>cache_list_drain\<close> frees the entries from \<open>first\<close> on and empties the list head.\<close>

partial_function (option) cache_drain_entries :: "nat option \<Rightarrow> cache \<Rightarrow> cache option" where
  "cache_drain_entries p c =
     (case p of
        None \<Rightarrow> Some c
      | Some a \<Rightarrow> Option.bind (c_mem c a) (\<lambda>e.
          cache_drain_entries (ce_next e) (c\<lparr>c_mem := (c_mem c)(a := None)\<rparr>)))"

definition cache_list_drain :: "cache_where \<Rightarrow> cache \<Rightarrow> cache option" where
  "cache_list_drain w c = do {
     c \<leftarrow> cache_drain_entries (cl_first (c_list c w)) c;
     Some (upd_list w (\<lambda>_. empty_list) c)
   }"

text \<open>\<open>cache_destroy\<close>; the result is the memory the cache leaves allocated.\<close>

definition cache_destroy :: "cache \<Rightarrow> (nat \<rightharpoonup> cache_entry) option" where
  "cache_destroy c = do {
     c \<leftarrow> cache_list_drain T1 c;
     c \<leftarrow> cache_list_drain B1 c;
     c \<leftarrow> cache_list_drain T2 c;
     c \<leftarrow> cache_list_drain B2 c;
     Some (c_mem c)
   }"

end
