(* ===== verification/Cache_Lists.thy ===== *)
theory Cache_Lists
  imports Navit_Cache
begin

text \<open>
  The linked lists of the cache: a representation predicate that reads the four lists off the
  entries' \<open>next\<close> and \<open>prev\<close> pointers, and for each list operation of cache.c the lemma that it
  performs the list operation it stands for, without an access to an entry that is not allocated.
  The rotation loop of \<open>cache_remove_lru\<close> is shown to end and to pick the entry \<open>evict\<close> names.
\<close>

section \<open>Representation: the linked lists as lists of addresses\<close>

text \<open>
  \<open>chain m w p xs n\<close>: the addresses \<open>xs\<close> are allocated entries of list \<open>w\<close>, linked in this order,
  the first one's \<open>prev\<close> is \<open>p\<close> and the last one's \<open>next\<close> is \<open>n\<close>.
\<close>

fun chain :: "(nat \<rightharpoonup> cache_entry) \<Rightarrow> cache_where \<Rightarrow> nat option \<Rightarrow> nat list \<Rightarrow> nat option \<Rightarrow> bool" where
  "chain m w p [] n = True"
| "chain m w p (a # xs) n =
     (\<exists>e. m a = Some e \<and> ce_where e = Some w \<and> ce_prev e = p
        \<and> ce_next e = (case xs of [] \<Rightarrow> n | b # _ \<Rightarrow> Some b) \<and> chain m w (Some a) xs n)"

definition ent_size :: "(nat \<rightharpoonup> cache_entry) \<Rightarrow> nat \<Rightarrow> int" where
  "ent_size m a = (case m a of None \<Rightarrow> 0 | Some e \<Rightarrow> ce_size e)"

definition in_use :: "(nat \<rightharpoonup> cache_entry) \<Rightarrow> nat \<Rightarrow> bool" where
  "in_use m a \<longleftrightarrow> (\<exists>e. m a = Some e \<and> ce_usage e \<noteq> 0)"

definition list_rep :: "cache \<Rightarrow> cache_where \<Rightarrow> nat list \<Rightarrow> bool" where
  "list_rep c w xs \<longleftrightarrow> distinct xs \<and> chain (c_mem c) w None xs None
     \<and> c_list c w = \<lparr>cl_first = hd_opt xs, cl_last = last_opt xs,
                     cl_size = sum_list (map (ent_size (c_mem c)) xs)\<rparr>"

definition rep :: "cache \<Rightarrow> (cache_where \<Rightarrow> nat list) \<Rightarrow> bool" where
  "rep c L \<longleftrightarrow> (\<forall>w. list_rep c w (L w)) \<and> (\<forall>v w. v \<noteq> w \<longrightarrow> set (L v) \<inter> set (L w) = {})"

text \<open>
  What an operation on the lists leaves alone: everything but the links (\<open>next\<close>, \<open>prev\<close>,
  \<open>where\<close>) and the list heads.
\<close>

definition ent_data :: "cache_entry \<Rightarrow> int \<times> int \<times> int list" where
  "ent_data e = (ce_usage e, ce_size e, ce_id e)"

definition same_data :: "cache \<Rightarrow> cache \<Rightarrow> bool" where
  "same_data c d \<longleftrightarrow> (\<forall>x. map_option ent_data (c_mem d x) = map_option ent_data (c_mem c x))
     \<and> c_insert d = c_insert c \<and> c_size d = c_size c \<and> c_id_size d = c_id_size c
     \<and> c_entry_size d = c_entry_size c \<and> c_t1_target d = c_t1_target c \<and> c_misses d = c_misses c
     \<and> c_hits d = c_hits c \<and> c_hash d = c_hash c \<and> c_brk d = c_brk c"

definition frame :: "cache_where \<Rightarrow> nat set \<Rightarrow> cache \<Rightarrow> cache \<Rightarrow> bool" where
  "frame w A c d \<longleftrightarrow> same_data c d \<and> (\<forall>v. v \<noteq> w \<longrightarrow> c_list d v = c_list c v)
     \<and> (\<forall>x. x \<notin> A \<longrightarrow> c_mem d x = c_mem c x)"

lemma same_data_refl [simp]: "same_data c c"
  by (simp add: same_data_def)

lemma same_data_trans: "same_data c d \<Longrightarrow> same_data d e \<Longrightarrow> same_data c e"
  by (simp add: same_data_def)

lemma same_dataD:
  assumes "same_data c d"
  shows "ent_size (c_mem d) = ent_size (c_mem c)" "in_use (c_mem d) = in_use (c_mem c)"
    "dom (c_mem d) = dom (c_mem c)"
proof -
  have *: "map_option ent_data (c_mem d x) = map_option ent_data (c_mem c x)" for x
    using assms by (simp add: same_data_def)
  have "ent_size (c_mem d) x = ent_size (c_mem c) x \<and> in_use (c_mem d) x = in_use (c_mem c) x
      \<and> (x \<in> dom (c_mem d) \<longleftrightarrow> x \<in> dom (c_mem c))" for x
    using * [of x] by (cases "c_mem d x"; cases "c_mem c x") (simp_all add: ent_size_def in_use_def ent_data_def domIff)
  then show "ent_size (c_mem d) = ent_size (c_mem c)" "in_use (c_mem d) = in_use (c_mem c)"
    "dom (c_mem d) = dom (c_mem c)" by blast+
qed

lemma chain_cong:
  "(\<And>x. x \<in> set xs \<Longrightarrow> m' x = m x) \<Longrightarrow> chain m' w p xs n = chain m w p xs n"
  by (induction xs arbitrary: p) auto

lemma chain_upd [simp]: "a \<notin> set xs \<Longrightarrow> chain (m(a := v)) w p xs n = chain m w p xs n"
  by (rule chain_cong) auto

lemma chain_append:
  "chain m w p (xs @ ys) n \<longleftrightarrow>
     chain m w p xs (if ys = [] then n else hd_opt ys) \<and>
     chain m w (if xs = [] then p else last_opt xs) ys n"
proof (induction xs arbitrary: p)
  case Nil
  then show ?case by simp
next
  case (Cons a xs)
  show ?case
  proof (cases "xs = []")
    case True
    then show ?thesis by (cases ys) auto
  next
    case False
    then obtain b bs where "xs = b # bs" by (cases xs) auto
    then show ?thesis using Cons.IH [of "Some a"] by auto
  qed
qed

lemma chain_alloc: "chain m w p xs n \<Longrightarrow> a \<in> set xs \<Longrightarrow> \<exists>e. m a = Some e \<and> ce_where e = Some w"
  by (induction xs arbitrary: p) auto

lemma chain_cons_change_prev:
  assumes "chain m w p (a # xs) n" "a \<notin> set xs" "m a = Some e"
  shows "chain (m(a \<mapsto> e\<lparr>ce_prev := q\<rparr>)) w q (a # xs) n"
  using assms by auto

lemma chain_snoc_change_next:
  assumes "chain m w p (xs @ [a]) n" "a \<notin> set xs" "m a = Some e"
  shows "chain (m(a \<mapsto> e\<lparr>ce_next := q\<rparr>)) w p (xs @ [a]) q"
  using assms by (auto simp: chain_append)

lemma list_rep_frame:
  assumes "frame w A c d" "v \<noteq> w" "A \<inter> set xs = {}" "list_rep c v xs"
  shows "list_rep d v xs"
proof -
  have "chain (c_mem d) v None xs None = chain (c_mem c) v None xs None"
    using assms by (intro chain_cong) (auto simp: frame_def)
  moreover have "ent_size (c_mem d) = ent_size (c_mem c)"
    using assms(1) by (simp add: frame_def same_dataD)
  ultimately show ?thesis using assms by (simp add: list_rep_def frame_def)
qed

lemma rep_upd:
  assumes "rep c L" "frame w A c d" "list_rep d w xs"
    and "\<And>v. v \<noteq> w \<Longrightarrow> set (L v) \<inter> (A \<union> set xs) = {}"
  shows "rep d (L(w := xs))"
  unfolding rep_def
proof (intro conjI allI impI)
  fix v show "list_rep d v ((L(w := xs)) v)"
    using assms by (cases "v = w") (auto simp: rep_def intro!: list_rep_frame [OF assms(2)])
next
  fix u v assume "u \<noteq> (v :: cache_where)"
  then show "set ((L(w := xs)) u) \<inter> set ((L(w := xs)) v) = {}"
    using assms(1) assms(4) [of u] assms(4) [of v] by (auto simp: rep_def)
qed

section \<open>The list operations\<close>

lemma upd_ent_eq: "c_mem c a = Some e \<Longrightarrow> upd_ent a f c = Some (c\<lparr>c_mem := (c_mem c)(a \<mapsto> f e)\<rparr>)"
  by (simp add: upd_ent_def)

lemma ent_size_link [simp]:
  "m a = Some e \<Longrightarrow> ent_size (m(a \<mapsto> e\<lparr>ce_prev := p\<rparr>)) = ent_size m"
  "m a = Some e \<Longrightarrow> ent_size (m(a \<mapsto> e\<lparr>ce_next := p\<rparr>)) = ent_size m"
  "m a = Some e \<Longrightarrow> ent_size (m(a \<mapsto> e\<lparr>ce_prev := p, ce_next := n, ce_where := w\<rparr>)) = ent_size m"
  by (auto simp: ent_size_def fun_eq_iff)

lemma ent_size_Some [simp]: "m a = Some e \<Longrightarrow> ent_size m a = ce_size e"
  by (simp add: ent_size_def)

lemma frameI:
  assumes "d = c\<lparr>c_mem := m, c_list := (c_list c)(w := l)\<rparr>"
    and "\<And>x. map_option ent_data (m x) = map_option ent_data (c_mem c x)"
    and "\<And>x. x \<notin> A \<Longrightarrow> m x = c_mem c x"
  shows "frame w A c d"
  using assms by (simp add: frame_def same_data_def)

lemma list_repD:
  assumes "list_rep c w xs"
  shows "distinct xs" "chain (c_mem c) w None xs None" "cl_first (c_list c w) = hd_opt xs"
    "cl_last (c_list c w) = last_opt xs" "cl_size (c_list c w) = sum_list (map (ent_size (c_mem c)) xs)"
  using assms by (auto simp: list_rep_def)

lemma list_rep_head:
  "list_rep c w xs \<Longrightarrow> c_list c w = \<lparr>cl_first = hd_opt xs, cl_last = last_opt xs,
     cl_size = sum_list (map (ent_size (c_mem c)) xs)\<rparr>"
  by (simp add: list_rep_def)

lemma cache_insert_mru_eq:
  assumes "list_rep c w xs" "a \<notin> set xs" "c_mem c a = Some e"
  defines "e' \<equiv> e\<lparr>ce_prev := None, ce_next := hd_opt xs, ce_where := Some w\<rparr>"
  defines "m \<equiv> (case xs of [] \<Rightarrow> (c_mem c)(a \<mapsto> e')
      | b # _ \<Rightarrow> (c_mem c)(a \<mapsto> e', b \<mapsto> (the (c_mem c b))\<lparr>ce_prev := Some a\<rparr>))"
  shows "cache_insert_mru h w a c = Some (c\<lparr>c_mem := m,
      c_list := (c_list c)(w := \<lparr>cl_first = Some a, cl_last = last_opt (a # xs),
         cl_size = cl_size (c_list c w) + ce_size e\<rparr>),
      c_hash := (if h then (c_hash c)(ce_id e \<mapsto> a) else c_hash c)\<rparr>)"
proof (cases xs)
  case Nil
  with assms(1,3) show ?thesis
    by (simp add: cache_insert_mru_def upd_ent_def upd_list_def m_def e'_def Let_def list_rep_head [OF assms(1)])
next
  case (Cons b ys)
  with assms obtain f where f: "c_mem c b = Some f" and ab: "a \<noteq> b" by (auto simp: list_rep_def)
  with Cons assms(1,3) show ?thesis
    by (simp add: cache_insert_mru_def upd_ent_def upd_list_def m_def e'_def Let_def list_rep_head [OF assms(1)])
qed

lemma cache_insert_mru_list:
  assumes rep: "list_rep c w xs" and a: "a \<notin> set xs" and e: "c_mem c a = Some e"
  shows "\<exists>d. cache_insert_mru False w a c = Some d \<and> list_rep d w (a # xs) \<and> frame w (insert a (set xs)) c d
    \<and> cache_insert_mru True w a c = Some (d\<lparr>c_hash := (c_hash c)(ce_id e \<mapsto> a)\<rparr>)"
proof -
  let ?e = "e\<lparr>ce_prev := None, ce_next := hd_opt xs, ce_where := Some w\<rparr>"
  define m where "m = (case xs of [] \<Rightarrow> (c_mem c)(a \<mapsto> ?e)
      | b # _ \<Rightarrow> (c_mem c)(a \<mapsto> ?e, b \<mapsto> (the (c_mem c b))\<lparr>ce_prev := Some a\<rparr>))"
  define d where "d = c\<lparr>c_mem := m, c_list := (c_list c)(w := \<lparr>cl_first = Some a, cl_last = last_opt (a # xs),
         cl_size = cl_size (c_list c w) + ce_size e\<rparr>)\<rparr>"
  have eq: "cache_insert_mru h w a c = Some (d\<lparr>c_hash := (if h then (c_hash c)(ce_id e \<mapsto> a) else c_hash c)\<rparr>)" for h
    unfolding cache_insert_mru_eq [OF rep a e] d_def m_def by simp
  have data: "map_option ent_data (m x) = map_option ent_data (c_mem c x)" for x
    using rep e a by (cases xs) (auto simp: m_def ent_data_def list_rep_def)
  then have fr: "frame w (insert a (set xs)) c d"
    by (intro frameI [OF d_def]) (auto simp: m_def split: list.splits)
  have size: "ent_size m = ent_size (c_mem c)"
    using same_dataD(1) [of c d] fr by (simp add: frame_def d_def)
  have "chain m w None (a # xs) None"
    using rep a e by (cases xs) (auto simp: m_def list_rep_def)
  then have "list_rep d w (a # xs)"
    using rep a e by (simp add: list_rep_def d_def size)
  with eq [of False] eq [of True] fr show ?thesis by (auto simp: d_def)
qed


definition set_next :: "nat option \<Rightarrow> nat option \<Rightarrow> (nat \<rightharpoonup> cache_entry) \<Rightarrow> (nat \<rightharpoonup> cache_entry)" where
  "set_next p n m = (case p of None \<Rightarrow> m | Some x \<Rightarrow> m(x \<mapsto> (the (m x))\<lparr>ce_next := n\<rparr>))"

definition set_prev :: "nat option \<Rightarrow> nat option \<Rightarrow> (nat \<rightharpoonup> cache_entry) \<Rightarrow> (nat \<rightharpoonup> cache_entry)" where
  "set_prev n p m = (case n of None \<Rightarrow> m | Some x \<Rightarrow> m(x \<mapsto> (the (m x))\<lparr>ce_prev := p\<rparr>))"

lemma chain_unlink:
  assumes "chain m w p (xs @ a # ys) n" "distinct (xs @ a # ys)"
  shows "chain (set_prev (hd_opt ys) (if xs = [] then p else last_opt xs)
           (set_next (last_opt xs) (if ys = [] then n else hd_opt ys) m)) w p (xs @ ys) n"
  using assms
  by (cases xs rule: rev_cases; cases ys) (auto simp: set_next_def set_prev_def chain_append)

lemma chain_at:
  "chain m w p (xs @ a # ys) n \<Longrightarrow> \<exists>e. m a = Some e \<and> ce_where e = Some w
     \<and> ce_prev e = (if xs = [] then p else last_opt xs) \<and> ce_next e = (if ys = [] then n else hd_opt ys)"
proof -
  assume "chain m w p (xs @ a # ys) n"
  then have "chain m w (if xs = [] then p else last_opt xs) (a # ys) n"
    by (simp only: chain_append simp_thms)
  then obtain e where "m a = Some e" "ce_where e = Some w" "ce_prev e = (if xs = [] then p else last_opt xs)"
    "ce_next e = (case ys of [] \<Rightarrow> n | b # _ \<Rightarrow> Some b)"
    by (auto simp del: if_split)
  then show ?thesis by (cases ys) auto
qed

lemma chain_alloc_last: "chain m w p xs n \<Longrightarrow> last_opt xs = Some b \<Longrightarrow> \<exists>f. m b = Some f"
  by (metis chain_alloc last_in_set last_opt_def option.distinct(1) option.inject)

lemma chain_alloc_hd: "chain m w p xs n \<Longrightarrow> hd_opt xs = Some b \<Longrightarrow> \<exists>f. m b = Some f"
  by (auto simp: hd_opt_Some)

lemma cache_remove_from_list_eq:
  assumes "list_rep c w (xs @ a # ys)"
  shows "cache_remove_from_list w a c = Some (c\<lparr>
      c_mem := set_prev (hd_opt ys) (last_opt xs) (set_next (last_opt xs) (hd_opt ys) (c_mem c)),
      c_list := (c_list c)(w := \<lparr>cl_first = hd_opt (xs @ ys), cl_last = last_opt (xs @ ys),
         cl_size = cl_size (c_list c w) - ent_size (c_mem c) a\<rparr>)\<rparr>)"
proof -
  have ch: "chain (c_mem c) w None (xs @ a # ys) None" and dist: "distinct (xs @ a # ys)"
    using assms by (simp_all add: list_rep_def)
  obtain e where e: "c_mem c a = Some e" "ce_prev e = last_opt xs" "ce_next e = hd_opt ys"
    using chain_at [OF ch] by (auto split: if_splits)
  have p: "\<exists>f. c_mem c b = Some f \<and> b \<noteq> a \<and> b \<notin> set ys" if "last_opt xs = Some b" for b
    using ch dist that by (auto simp: last_opt_Some chain_append)
  have n: "\<exists>f. c_mem c b = Some f \<and> b \<noteq> a \<and> b \<notin> set xs" if "hd_opt ys = Some b" for b
    using ch dist that by (auto simp: hd_opt_Some chain_append)
  note defs = list_rep_head [OF assms] cache_remove_from_list_def upd_ent_def upd_list_def
    set_next_def set_prev_def hd_opt_append last_opt_append e
  show ?thesis
  proof (cases "last_opt xs"; cases "hd_opt ys")
    fix b d assume "last_opt xs = Some b" "hd_opt ys = Some d"
    moreover from this p n obtain f g where "c_mem c b = Some f" "c_mem c d = Some g" "b \<noteq> a" "d \<noteq> a" "b \<noteq> d"
      by (metis hd_opt_Some list.set_intros(1))
    ultimately show ?thesis by (simp add: defs) (auto simp: defs)
  qed (use p n in \<open>force simp: defs\<close>)+
qed

lemma cache_remove_lru_helper_eq:
  assumes "list_rep c w (xs @ [a])"
  shows "cache_remove_lru_helper w c = map_option (Pair (Some a)) (cache_remove_from_list w a c)"
  using assms chain_at [of "c_mem c" w None xs a "[]" None]
  by (cases xs rule: rev_cases)
    (auto simp: list_rep_head [OF assms] list_rep_def cache_remove_from_list_def cache_remove_lru_helper_def
      upd_ent_def upd_list_def Let_def chain_append hd_opt_append last_opt_append)

lemma cache_remove_from_list_list:
  assumes rep: "list_rep c w (xs @ a # ys)"
  shows "\<exists>d. cache_remove_from_list w a c = Some d \<and> list_rep d w (xs @ ys) \<and> frame w (set (xs @ ys)) c d"
proof -
  define m where "m = set_prev (hd_opt ys) (last_opt xs) (set_next (last_opt xs) (hd_opt ys) (c_mem c))"
  define d where "d = c\<lparr>c_mem := m, c_list := (c_list c)(w := \<lparr>cl_first = hd_opt (xs @ ys),
         cl_last = last_opt (xs @ ys), cl_size = cl_size (c_list c w) - ent_size (c_mem c) a\<rparr>)\<rparr>"
  have eq: "cache_remove_from_list w a c = Some d"
    unfolding d_def m_def by (rule cache_remove_from_list_eq [OF rep])
  have data: "map_option ent_data (m x) = map_option ent_data (c_mem c x)" for x
    using rep by (cases xs rule: rev_cases; cases ys)
      (auto simp: m_def set_next_def set_prev_def ent_data_def list_rep_def chain_append)
  then have fr: "frame w (set (xs @ ys)) c d"
    by (intro frameI [OF d_def]) (auto simp: m_def set_next_def set_prev_def hd_opt_def last_opt_def
        split: list.splits if_splits)
  have size: "ent_size m = ent_size (c_mem c)"
    using same_dataD(1) [of c d] fr by (simp add: frame_def d_def)
  have "chain m w None (xs @ ys) None"
    using chain_unlink [of "c_mem c" w None xs a ys None] rep
    by (cases "xs = []"; cases "ys = []") (auto simp: m_def list_rep_def)
  then have "list_rep d w (xs @ ys)"
    using rep by (simp add: list_rep_def d_def size)
  with eq fr show ?thesis by blast
qed

section \<open>The operations on the whole representation\<close>

lemma rep_listD: "rep c L \<Longrightarrow> list_rep c w (L w)"
  by (simp add: rep_def)

lemma rep_disjoint: "rep c L \<Longrightarrow> v \<noteq> w \<Longrightarrow> set (L v) \<inter> set (L w) = {}"
  by (simp add: rep_def)

lemma cache_insert_mru_rep:
  assumes "rep c L" "\<forall>v. a \<notin> set (L v)" "c_mem c a = Some e"
  shows "\<exists>d. cache_insert_mru False w a c = Some d \<and> rep d (L(w := a # L w)) \<and> same_data c d
    \<and> cache_insert_mru True w a c = Some (d\<lparr>c_hash := (c_hash c)(ce_id e \<mapsto> a)\<rparr>)"
proof -
  obtain d where d: "cache_insert_mru False w a c = Some d" "list_rep d w (a # L w)"
      "frame w (insert a (set (L w))) c d"
      "cache_insert_mru True w a c = Some (d\<lparr>c_hash := (c_hash c)(ce_id e \<mapsto> a)\<rparr>)"
    using cache_insert_mru_list [of c w "L w" a e] assms by (auto simp: rep_listD)
  have "rep d (L(w := a # L w))"
    using rep_upd [OF assms(1) d(3,2)] assms(1,2) by (auto simp: rep_def)
  with d show ?thesis by (auto simp: frame_def)
qed

lemma cache_remove_from_list_rep:
  assumes "rep c L" "L w = xs @ a # ys"
  shows "\<exists>d. cache_remove_from_list w a c = Some d \<and> rep d (L(w := xs @ ys)) \<and> same_data c d"
proof -
  obtain d where d: "cache_remove_from_list w a c = Some d" "list_rep d w (xs @ ys)"
      "frame w (set (xs @ ys)) c d"
    using cache_remove_from_list_list [of c w xs a ys] rep_listD [OF assms(1), of w] assms(2) by auto
  have "set (L v) \<inter> set (L w) = {}" if "v \<noteq> w" for v
    using rep_disjoint [OF assms(1) that] .
  then have "rep d (L(w := xs @ ys))"
    using rep_upd [OF assms(1) d(3,2)] assms(2) by auto
  with d show ?thesis by (auto simp: frame_def)
qed


lemma last_rep_cases:
  assumes "rep c L"
  shows "cl_last (c_list c w) = last_opt (L w)" "cl_size (c_list c w) = sum_list (map (ent_size (c_mem c)) (L w))"
  using rep_listD [OF assms, of w] by (auto simp: list_repD)

lemma same_data_usage:
  assumes "same_data c d" "c_mem c a = Some e"
  shows "\<exists>f. c_mem d a = Some f \<and> ce_usage f = ce_usage e \<and> ce_size f = ce_size e \<and> ce_id f = ce_id e"
proof -
  have "map_option ent_data (c_mem d a) = Some (ent_data e)"
    using assms by (simp add: same_data_def)
  then show ?thesis by (auto simp: ent_data_def)
qed

lemma rep_alloc: "rep c L \<Longrightarrow> a \<in> set (L w) \<Longrightarrow> \<exists>e. c_mem c a = Some e \<and> ce_where e = Some w"
  using rep_listD [of c L w] by (auto simp: list_rep_def dest: chain_alloc)

lemma sum_sizes_nonneg: "\<forall>x \<in> set xs. 0 < f x \<Longrightarrow> 0 \<le> sum_list (map f xs :: int list)"
  by (induction xs) auto

text \<open>One turn of the loop: the entry at the back goes to the front.\<close>

lemma rotate_step:
  assumes "rep c L" "L w = xs @ [a]"
  shows "\<exists>d1 d. cache_remove_lru_helper w c = Some (Some a, d1) \<and> cache_insert_mru False w a d1 = Some d
    \<and> rep d (L(w := a # xs)) \<and> same_data c d"
proof -
  obtain d1 where d1: "cache_remove_from_list w a c = Some d1" "rep d1 (L(w := xs))" "same_data c d1"
    using cache_remove_from_list_rep [OF assms(1), of w xs a "[]"] assms(2) by auto
  have h: "cache_remove_lru_helper w c = Some (Some a, d1)"
    using cache_remove_lru_helper_eq [of c w xs a] rep_listD [OF assms(1), of w] assms(2) d1(1) by simp
  obtain e where "c_mem c a = Some e" using rep_alloc [OF assms(1), of a w] assms(2) by auto
  then obtain f where f: "c_mem d1 a = Some f" using same_data_usage [OF d1(3)] by blast
  have "a \<notin> set xs" using rep_listD [OF assms(1), of w] assms(2) by (simp add: list_rep_def)
  then have "\<forall>v. a \<notin> set ((L(w := xs)) v)"
    using rep_disjoint [OF assms(1), of _ w] assms(2) by auto
  then obtain d where d: "cache_insert_mru False w a d1 = Some d" "rep d ((L(w := xs))(w := a # xs))" "same_data d1 d"
    using cache_insert_mru_rep [OF d1(2) _ f, of w] by auto
  then show ?thesis using h same_data_trans [OF d1(3) d(3)] by auto
qed

lemma cache_remove_lru_loop_spec:
  assumes "rep c L" "L w = us @ vs" "\<forall>x \<in> set (L w). 0 < ent_size (c_mem c) x"
  defines "s \<equiv> \<lambda>xs. sum_list (map (ent_size (c_mem c)) xs)"
  defines "zs \<equiv> rev (takeWhile (in_use (c_mem c)) (rev vs))"
  defines "ys \<equiv> rev (dropWhile (in_use (c_mem c)) (rev vs))"
  shows "\<exists>d. cache_remove_lru_loop w (s us) c = Some (s us + s zs, d) \<and> rep d (L(w := zs @ us @ ys)) \<and> same_data c d"
  using assms(1-3) unfolding s_def zs_def ys_def
proof (induction vs arbitrary: us c L rule: rev_induct)
  case Nil
  have "cache_remove_lru_loop w (sum_list (map (ent_size (c_mem c)) us)) c = Some (sum_list (map (ent_size (c_mem c)) us), c)"
  proof (cases "last_opt us")
    case None
    then show ?thesis using Nil by (simp add: cache_remove_lru_loop.simps last_rep_cases [OF Nil.prems(1)])
  next
    case (Some a)
    then have "a \<in> set (L w)" using Nil.prems(2) by (auto simp: last_opt_Some)
    then obtain e where "c_mem c a = Some e" using rep_alloc [OF Nil.prems(1)] by blast
    then show ?thesis
      using Some Nil.prems(2) by (simp add: cache_remove_lru_loop.simps last_rep_cases [OF Nil.prems(1)])
  qed
  moreover have "L(w := us) = L" using Nil.prems(2) by auto
  ultimately show ?case using Nil.prems by simp
next
  case (snoc a vs)
  let ?m = "c_mem c" and ?s = "\<lambda>xs. sum_list (map (ent_size (c_mem c)) xs)"
  have La: "L w = (us @ vs) @ [a]" using snoc.prems by simp
  then obtain e where e: "?m a = Some e" using rep_alloc [OF snoc.prems(1), of a w] by auto
  have last: "cl_last (c_list c w) = Some a" "cl_size (c_list c w) = ?s (L w)"
    using last_rep_cases [OF snoc.prems(1)] La by (simp_all add: last_opt_append)
  have pos: "0 < ent_size ?m a" "0 \<le> ?s us" "0 \<le> ?s vs"
    using snoc.prems(3) La sum_sizes_nonneg by (auto intro!: sum_sizes_nonneg)
  show ?case
  proof (cases "ce_usage e = 0")
    case True
    then have "cache_remove_lru_loop w (?s us) c = Some (?s us, c)"
      by (simp add: cache_remove_lru_loop.simps last e)
    moreover have "\<not> in_use ?m a" using True e by (simp add: in_use_def)
    moreover have "L(w := us @ vs @ [a]) = L" using snoc.prems(2) by auto
    ultimately show ?thesis using snoc.prems by simp
  next
    case False
    obtain d1 d where d: "cache_remove_lru_helper w c = Some (Some a, d1)" "cache_insert_mru False w a d1 = Some d"
      "rep d (L(w := a # us @ vs))" "same_data c d"
      using rotate_step [OF snoc.prems(1) La] by blast
    note mem = same_dataD [OF d(4)]
    obtain f where f: "c_mem d a = Some f" "ce_size f = ce_size e" using same_data_usage [OF d(4) e] by blast
    have "?s us < ?s (L w)" using La pos by simp
    then have step: "cache_remove_lru_loop w (?s us) c = cache_remove_lru_loop w (?s us + ce_size f) d"
      using False by (subst cache_remove_lru_loop.simps) (simp add: last e d f)
    have eq: "?s us + ce_size f = ?s (a # us)" using e f by simp
    have p1: "(L(w := a # us @ vs)) w = (a # us) @ vs" by simp
    have p2: "\<forall>x \<in> set ((L(w := a # us @ vs)) w). 0 < ent_size (c_mem d) x"
      using snoc.prems(3) La by (simp add: mem)
    let ?z = "rev (takeWhile (in_use ?m) (rev vs))"
    obtain d' where "cache_remove_lru_loop w (?s (a # us)) d = Some (?s (a # us) + ?s ?z, d')"
       "rep d' (L(w := ?z @ (a # us) @ rev (dropWhile (in_use ?m) (rev vs))))" "same_data d d'"
      using snoc.IH [OF d(3) p1 p2] by (auto simp only: mem fun_upd_upd)
    moreover have "in_use ?m a" using False e by (simp add: in_use_def)
    ultimately show ?thesis using same_data_trans [OF d(4)] unfolding step eq by (simp add: fun_upd_def)
  qed
qed

text \<open>The entry the cache evicts: the one nearest to the back that is not in use.\<close>

definition evict :: "('a \<Rightarrow> bool) \<Rightarrow> 'a list \<Rightarrow> 'a option \<times> 'a list" where
  "evict used xs = (case dropWhile used (rev xs) of
     [] \<Rightarrow> (None, xs)
   | a # r \<Rightarrow> (Some a, rev (takeWhile used (rev xs)) @ rev r))"

lemma cache_remove_lru_spec:
  assumes "rep c L" "\<forall>x \<in> set (L w). 0 < ent_size (c_mem c) x"
    and ev: "evict (in_use (c_mem c)) (L w) = (r, xs)"
  shows "\<exists>d. cache_remove_lru False w c = Some (r, d) \<and> rep d (L(w := xs)) \<and> same_data c d"
proof -
  let ?u = "in_use (c_mem c)" and ?s = "\<lambda>xs. sum_list (map (ent_size (c_mem c)) xs)"
  define zs where "zs = rev (takeWhile ?u (rev (L w)))"
  define ys where "ys = rev (dropWhile ?u (rev (L w)))"
  have L: "L w = ys @ zs" unfolding ys_def zs_def by (metis rev_append rev_rev_ident takeWhile_dropWhile_id)
  obtain d where d: "cache_remove_lru_loop w 0 c = Some (?s zs, d)" "rep d (L(w := zs @ ys))" "same_data c d"
    using cache_remove_lru_loop_spec [OF assms(1), of w "[]" "L w"] assms(2) unfolding zs_def ys_def by auto
  note mem = same_dataD [OF d(3)] and last = last_rep_cases [OF d(2), of w]
  have pos: "0 \<le> ?s ys" "0 \<le> ?s zs" using assms(2) L by (auto intro!: sum_sizes_nonneg)
  show ?thesis
  proof (cases ys rule: rev_cases)
    case Nil
    then have "dropWhile ?u (rev (L w)) = []" by (simp only: ys_def rev_is_Nil_conv)
    then have r: "r = None" "xs = L w" using ev by (simp_all add: evict_def del: dropWhile_eq_Nil_conv)
    have "cache_remove_lru False w c = Some (None, d)"
    proof (cases "last_opt zs")
      case None
      then show ?thesis using d(1) last Nil by (simp add: cache_remove_lru_def)
    next
      case (Some b)
      then obtain e where "c_mem d b = Some e"
        using rep_alloc [OF d(2), of b w] Nil by (auto simp: last_opt_Some)
      then show ?thesis using d(1) last Nil Some by (simp add: cache_remove_lru_def mem)
    qed
    then show ?thesis using d L Nil r by auto
  next
    case (snoc vs b)
    then have dw: "dropWhile ?u (rev (L w)) = b # rev vs" by (simp add: ys_def rev_swap)
    then have r: "r = Some b" "xs = zs @ vs" using ev by (auto simp: evict_def zs_def)
    have "\<not> ?u b" using dw by (metis hd_dropWhile list.distinct(1) list.sel(1))
    obtain e where e: "c_mem d b = Some e" using rep_alloc [OF d(2), of b w] snoc by auto
    have "\<not> in_use (c_mem d) b" using \<open>\<not> ?u b\<close> by (simp add: mem)
    then have u: "ce_usage e = 0" using e by (simp add: in_use_def)
    have "0 < ent_size (c_mem c) b" "0 \<le> ?s vs" using assms(2) L snoc by (auto intro!: sum_sizes_nonneg)
    then have lt: "?s zs < cl_size (c_list d w)" using last snoc by (simp add: mem)
    obtain d2 where d2: "cache_remove_from_list w b d = Some d2" "rep d2 (L(w := zs @ vs))" "same_data d d2"
      using cache_remove_from_list_rep [OF d(2), of w "zs @ vs" b "[]"] snoc by auto
    have "cache_remove_lru_helper w d = Some (Some b, d2)"
      using cache_remove_lru_helper_eq [of d w "zs @ vs" b] rep_listD [OF d(2), of w] snoc d2(1) by simp
    then have "cache_remove_lru False w c = Some (Some b, d2)"
      using d(1) last snoc e u lt by (simp add: cache_remove_lru_def last_opt_append)
    then show ?thesis using d2 r same_data_trans [OF d(3) d2(3)] by auto
  qed
qed

lemma cache_remove_lru_free:
  "cache_remove_lru True w c = do {
     (r, d) \<leftarrow> cache_remove_lru False w c;
     case r of None \<Rightarrow> Some (None, d) | Some a \<Rightarrow> do { d \<leftarrow> cache_remove a d; Some (None, d) } }"
  by (auto simp: cache_remove_lru_def split: option.splits Option.bind_splits if_splits)

end
