(* ===== verification/Cache_Refine.thy ===== *)
theory Cache_Refine
  imports Cache_Lists
begin

text \<open>
  The cache as a whole: the invariant that ties lists, hash table and allocated memory together,
  the abstract cache (four lists of entries, no pointers) and the proof that \<open>cache_lookup\<close> and
  \<open>cache_insert\<close> compute what the abstract operations say, free no entry in use and never touch
  memory that is not allocated.
\<close>

section \<open>Invariant\<close>

text \<open>
  \<open>cinv c L D\<close>: the lists are \<open>L\<close>; the entries of the lists and those of \<open>D\<close> (taken out of a list
  and not yet put back or freed) are exactly what the hash table finds, each under its own id;
  sizes are at least the positive entry size; no allocated address is handed out again.
\<close>

definition listed :: "(cache_where \<Rightarrow> nat list) \<Rightarrow> nat set" where
  "listed L = (\<Union>w. set (L w))"

definition cinv :: "cache \<Rightarrow> (cache_where \<Rightarrow> nat list) \<Rightarrow> nat set \<Rightarrow> bool" where
  "cinv c L D \<longleftrightarrow> rep c L \<and> D \<inter> listed L = {} \<and> D \<subseteq> dom (c_mem c)
     \<and> (\<forall>i a. c_hash c i = Some a \<longleftrightarrow> a \<in> listed L \<union> D \<and> map_option ce_id (c_mem c a) = Some i)
     \<and> 0 < c_entry_size c \<and> (\<forall>a \<in> listed L \<union> D. c_entry_size c \<le> ent_size (c_mem c) a)
     \<and> (\<forall>a \<in> dom (c_mem c). a < c_brk c)"

definition cache_inv :: "cache \<Rightarrow> bool" where
  "cache_inv c \<longleftrightarrow> (\<exists>L. cinv c L {})"

lemma listed_upd: "listed (L(w := xs)) \<subseteq> listed L \<union> set xs"
  by (auto simp: listed_def split: if_splits)

lemma listed_cons [simp]: "listed (L(w := a # L w)) = insert a (listed L)"
  by (auto simp: listed_def split: if_splits)

lemma listed_unlink:
  assumes "rep c L" "L w = xs @ a # ys"
  shows "listed (L(w := xs @ ys)) = listed L - {a}" "a \<in> listed L"
proof -
  have "distinct (L w)" using rep_listD [OF assms(1), of w] by (simp add: list_rep_def)
  moreover have "a \<notin> set (L v)" if "v \<noteq> w" for v
    using rep_disjoint [OF assms(1) that] assms(2) by auto
  ultimately show "listed (L(w := xs @ ys)) = listed L - {a}"
    using assms(2) by (auto simp: listed_def split: if_splits) (metis Un_iff insert_iff list.set(2) set_append)
  show "a \<in> listed L" unfolding listed_def using assms(2) by (auto intro!: exI [of _ w])
qed

lemma cinv_same_data:
  assumes "cinv c L D" "same_data c d" "rep d L'" "listed L' \<union> D' = listed L \<union> D" "D' \<inter> listed L' = {}"
    "D' \<subseteq> dom (c_mem c)"
  shows "cinv d L' D'"
proof -
  have ids: "map_option ce_id (c_mem d a) = map_option ce_id (c_mem c a)" for a
  proof -
    have "map_option ent_data (c_mem d a) = map_option ent_data (c_mem c a)"
      using assms(2) by (simp add: same_data_def)
    then show ?thesis by (cases "c_mem c a"; cases "c_mem d a") (auto simp: ent_data_def)
  qed
  have fields: "c_hash d = c_hash c" "c_entry_size d = c_entry_size c" "c_brk d = c_brk c"
    using assms(2) by (simp_all add: same_data_def)
  show ?thesis
    unfolding cinv_def fields same_dataD [OF assms(2)] ids assms(4)
    using assms(3,5,6) assms(1) [unfolded cinv_def] by blast
qed

lemma cinv_rep: "cinv c L D \<Longrightarrow> rep c L"
  by (simp add: cinv_def)

lemma cinv_pos: "cinv c L D \<Longrightarrow> a \<in> listed L \<union> D \<Longrightarrow> 0 < ent_size (c_mem c) a"
  unfolding cinv_def by (elim conjE) (drule (1) bspec, linarith)

lemma listedI [intro]: "a \<in> set (L w) \<Longrightarrow> a \<in> listed L"
  by (auto simp: listed_def)

lemma cinv_hash: "cinv c L D \<Longrightarrow> a \<in> listed L \<union> D \<Longrightarrow> c_mem c a = Some e \<Longrightarrow> c_hash c (ce_id e) = Some a"
  by (simp add: cinv_def)

lemma cinv_unlink:
  assumes "cinv c L D" "L w = xs @ a # ys"
  shows "\<exists>d. cache_remove_from_list w a c = Some d \<and> cinv d (L(w := xs @ ys)) (insert a D) \<and> same_data c d"
proof -
  obtain d where d: "cache_remove_from_list w a c = Some d" "rep d (L(w := xs @ ys))" "same_data c d"
    using cache_remove_from_list_rep [OF cinv_rep [OF assms(1)] assms(2)] by blast
  note L = listed_unlink [OF cinv_rep [OF assms(1)] assms(2)]
  obtain e where "c_mem c a = Some e" using rep_alloc [OF cinv_rep [OF assms(1)], of a w] assms(2) by auto
  then have "cinv d (L(w := xs @ ys)) (insert a D)"
    using L assms(1) by (intro cinv_same_data [OF assms(1) d(3,2)]) (auto simp: cinv_def)
  with d show ?thesis by blast
qed

lemma cinv_link:
  assumes "cinv c L D" "a \<in> D"
  shows "\<exists>d. cache_insert_mru False w a c = Some d \<and> cinv d (L(w := a # L w)) (D - {a}) \<and> same_data c d"
proof -
  obtain e where e: "c_mem c a = Some e" using assms by (auto simp: cinv_def)
  have "\<forall>v. a \<notin> set (L v)" using assms by (auto simp: cinv_def listed_def)
  then obtain d where d: "cache_insert_mru False w a c = Some d" "rep d (L(w := a # L w))" "same_data c d"
    using cache_insert_mru_rep [OF cinv_rep [OF assms(1)] _ e] by blast
  then have "cinv d (L(w := a # L w)) (D - {a})"
    using assms by (intro cinv_same_data [OF assms(1) d(3,2)]) (auto simp: cinv_def)
  with d show ?thesis by blast
qed

lemma rep_mem_cong:
  assumes "rep c L" "\<And>x. x \<in> listed L \<Longrightarrow> c_mem d x = c_mem c x" "c_list d = c_list c"
  shows "rep d L"
proof -
  have "list_rep d w (L w)" for w
  proof -
    have mem: "\<And>x. x \<in> set (L w) \<Longrightarrow> c_mem d x = c_mem c x" using assms(2) by (auto simp: listed_def)
    then have "chain (c_mem d) w None (L w) None = chain (c_mem c) w None (L w) None" by (intro chain_cong)
    moreover have sizes: "map (ent_size (c_mem d)) (L w) = map (ent_size (c_mem c)) (L w)"
      using mem by (auto simp: ent_size_def)
    ultimately show ?thesis
      using rep_listD [OF assms(1), of w] assms(3) unfolding list_rep_def sizes by simp
  qed
  then show ?thesis using assms(1) by (simp add: rep_def)
qed

lemma cinv_remove:
  assumes "cinv c L D" "a \<in> D"
  shows "\<exists>d e. c_mem c a = Some e \<and> cache_remove a c = Some d \<and> cinv d L (D - {a})
    \<and> d = c\<lparr>c_hash := (c_hash c)(ce_id e := None), c_mem := (c_mem c)(a := None)\<rparr>"
proof -
  obtain e where e: "c_mem c a = Some e" using assms by (auto simp: cinv_def)
  let ?d = "c\<lparr>c_hash := (c_hash c)(ce_id e := None), c_mem := (c_mem c)(a := None)\<rparr>"
  have a: "a \<notin> listed L" using assms by (auto simp: cinv_def)
  have "rep ?d L" by (rule rep_mem_cong [OF cinv_rep [OF assms(1)]]) (use a in auto)
  moreover have "c_hash ?d i = Some b \<longleftrightarrow> b \<in> listed L \<union> (D - {a}) \<and> map_option ce_id (c_mem ?d b) = Some i" for i b
  proof -
    have h: "c_hash c i = Some b \<longleftrightarrow> b \<in> listed L \<union> D \<and> map_option ce_id (c_mem c b) = Some i" for i b
      using assms(1) by (simp add: cinv_def)
    have "c_hash c (ce_id e) = Some a" using e assms(2) by (simp add: h)
    then show ?thesis using h [of i b] h [of "ce_id e" b] a by auto
  qed
  moreover have "c_entry_size c \<le> ent_size (c_mem ?d) b" if "b \<in> listed L \<union> (D - {a})" for b
    using that a assms(1) by (auto simp: cinv_def ent_size_def)
  ultimately have "cinv ?d L (D - {a})"
    using assms a by (auto simp: cinv_def)
  moreover have "cache_remove a c = Some ?d" using e by (simp add: cache_remove_def)
  ultimately show ?thesis using e by blast
qed


lemma evict_None: "evict u xs = (None, ys) \<Longrightarrow> ys = xs"
  by (auto simp: evict_def split: list.splits)

lemma evict_Some:
  assumes "evict u xs = (Some a, ys)"
  shows "\<not> u a \<and> (\<exists>us vs. xs = us @ a # vs \<and> ys = vs @ us)"
proof -
  obtain r where r: "dropWhile u (rev xs) = a # r" "ys = rev (takeWhile u (rev xs)) @ rev r"
    using assms by (auto simp: evict_def split: list.splits)
  have "rev xs = takeWhile u (rev xs) @ a # r" using r(1) by (metis takeWhile_dropWhile_id)
  then have "xs = rev r @ a # rev (takeWhile u (rev xs))"
    by (metis append.assoc append_Cons append_Nil rev.simps(2) rev_append rev_rev_ident)
  moreover have "\<not> u a" using r(1) by (metis hd_dropWhile list.distinct(1) list.sel(1))
  ultimately show ?thesis using r(2) by blast
qed

lemma takeWhile_cong_set: "(\<And>x. x \<in> set xs \<Longrightarrow> u (f x) = v x) \<Longrightarrow> takeWhile u (map f xs) = map f (takeWhile v xs)"
  by (induction xs) auto

lemma dropWhile_cong_set: "(\<And>x. x \<in> set xs \<Longrightarrow> u (f x) = v x) \<Longrightarrow> dropWhile u (map f xs) = map f (dropWhile v xs)"
  by (induction xs) auto

lemma evict_map:
  assumes "\<And>x. x \<in> set xs \<Longrightarrow> u (f x) = v x"
  shows "evict u (map f xs) = (map_option f (fst (evict v xs)), map f (snd (evict v xs)))"
  using takeWhile_cong_set [of "rev xs" u f v] dropWhile_cong_set [of "rev xs" u f v] assms
  by (cases "dropWhile v (rev xs)") (simp_all add: evict_def rev_map del: dropWhile_eq_Nil_conv)

lemma cinv_lru:
  assumes "cinv c L D" "evict (in_use (c_mem c)) (L w) = (r, xs)"
  shows "\<exists>d. cache_remove_lru False w c = Some (r, d) \<and> cinv d (L(w := xs)) (D \<union> set_option r) \<and> same_data c d"
proof -
  note rep = cinv_rep [OF assms(1)]
  have "\<forall>x \<in> set (L w). 0 < ent_size (c_mem c) x" using cinv_pos [OF assms(1)] by blast
  then obtain d where d: "cache_remove_lru False w c = Some (r, d)" "rep d (L(w := xs))" "same_data c d"
    using cache_remove_lru_spec [OF rep _ assms(2)] by blast
  have "cinv d (L(w := xs)) (D \<union> set_option r)"
  proof (cases r)
    case None
    then have "L(w := xs) = L" using evict_None assms(2) by force
    then show ?thesis
      using None assms(1) d(2) by (intro cinv_same_data [OF assms(1) d(3,2)]) (auto simp: cinv_def)
  next
    case (Some a)
    then obtain us vs where L: "L w = us @ a # vs" "xs = vs @ us" using evict_Some assms(2) by metis
    have "listed (L(w := xs)) = listed (L(w := us @ vs))" unfolding L(2) by (auto simp: listed_def split: if_splits)
    then have "listed (L(w := xs)) = listed L - {a}" "a \<in> listed L"
      using listed_unlink [OF rep L(1)] by simp_all
    moreover have "a \<in> dom (c_mem c)" using rep_alloc [OF rep, of a w] L by auto
    ultimately show ?thesis using assms(1) Some
      by (intro cinv_same_data [OF assms(1) d(3,2)]) (auto simp: cinv_def)
  qed
  with d show ?thesis by blast
qed

lemma cinv_trim:
  assumes "cinv c L D" "a \<in> D"
  shows "\<exists>b d e. c_mem c a = Some e \<and> cache_trim a c = Some (b, d) \<and> cinv d L (insert b (D - {a}))
    \<and> c_mem d b = Some (e\<lparr>ce_size := c_entry_size c\<rparr>) \<and> (b = a \<or> b = c_brk c) \<and> b \<notin> listed L
    \<and> (\<forall>x. x \<noteq> a \<and> x \<noteq> b \<longrightarrow> c_mem d x = c_mem c x) \<and> c_brk c \<le> c_brk d
    \<and> (\<exists>h m k. d = c\<lparr>c_hash := h, c_mem := m, c_brk := k\<rparr>)"
proof -
  obtain e where e: "c_mem c a = Some e" using assms by (auto simp: cinv_def)
  have a: "a \<notin> listed L" using assms by (auto simp: cinv_def)
  show ?thesis
  proof (cases "c_entry_size c < ce_size e")
    case False
    moreover have "c_entry_size c \<le> ce_size e" using assms e by (auto simp: cinv_def dest!: bspec [of _ _ a])
    ultimately have "ce_size e = c_entry_size c" by simp
    then have e': "e\<lparr>ce_size := c_entry_size c\<rparr> = e" by simp
    have "cache_trim a c = Some (a, c)" using e False by (simp add: cache_trim_def)
    moreover have "insert a (D - {a}) = D" using assms(2) by auto
    moreover have "\<exists>h m k. c = c\<lparr>c_hash := h, c_mem := m, c_brk := k\<rparr>"
      by (intro exI [of _ "c_hash c"] exI [of _ "c_mem c"] exI [of _ "c_brk c"]) simp
    moreover have "c_mem c a = Some (e\<lparr>ce_size := c_entry_size c\<rparr>)" using e e' by simp
    ultimately show ?thesis using assms(1) e a
      by (intro exI [of _ a] exI [of _ c] exI [of _ e]) (simp add: e')
  next
    case True
    let ?b = "c_brk c" and ?e = "e\<lparr>ce_size := c_entry_size c\<rparr>"
    let ?d = "c\<lparr>c_hash := (c_hash c)(ce_id e \<mapsto> ?b), c_mem := ((c_mem c)(?b \<mapsto> ?e))(a := None), c_brk := Suc ?b\<rparr>"
    have nb: "c_mem c ?b = None" using assms(1) by (auto simp: cinv_def dom_def)
    then have "?b \<notin> listed L" "?b \<notin> D" "a \<noteq> ?b"
      using assms(1) e rep_alloc [OF cinv_rep [OF assms(1)]] by (fastforce simp: cinv_def listed_def)+
    note b = this
    have tr: "cache_trim a c = Some (?b, ?d)" using e True by (simp add: cache_trim_def Let_def)
    have "rep ?d L" by (rule rep_mem_cong [OF cinv_rep [OF assms(1)]]) (use a b in auto)
    moreover have "c_hash ?d i = Some x \<longleftrightarrow> x \<in> listed L \<union> insert ?b (D - {a}) \<and> map_option ce_id (c_mem ?d x) = Some i" for i x
    proof -
      have h: "c_hash c i = Some x \<longleftrightarrow> x \<in> listed L \<union> D \<and> map_option ce_id (c_mem c x) = Some i" for i x
        using assms(1) by (simp add: cinv_def)
      have "c_hash c (ce_id e) = Some a" using e assms(2) by (simp add: h)
      then show ?thesis using h [of i x] h [of "ce_id e" x] a b by auto
    qed
    moreover have "c_entry_size c \<le> ent_size (c_mem ?d) x" if "x \<in> listed L \<union> insert ?b (D - {a})" for x
      using that a b assms(1) by (auto simp: cinv_def ent_size_def)
    moreover have "x < Suc ?b" if "x \<in> dom (c_mem ?d)" for x
      using that assms(1) by (auto simp: cinv_def dom_def less_Suc_eq split: if_splits)
    ultimately have "cinv ?d L (insert ?b (D - {a}))"
      using assms a b by (auto simp: cinv_def)
    then show ?thesis using tr e b by (intro exI [of _ ?b] exI [of _ ?d] exI [of _ e]) auto
  qed
qed

section \<open>The abstract cache\<close>

text \<open>
  What cache.c computes, without pointers: four lists of entries (usage, size, id), most recently
  used first.
\<close>

type_synonym aent = "int \<times> int \<times> int list"

record arc =
  a_list :: "cache_where \<Rightarrow> aent list"
  a_insert :: "cache_where option"
  a_size :: int
  a_entry :: int
  a_target :: int

abbreviation a_used :: "aent \<Rightarrow> bool" where
  "a_used e \<equiv> fst e \<noteq> 0"

abbreviation a_id :: "aent \<Rightarrow> int list" where
  "a_id e \<equiv> snd (snd e)"

definition a_sum :: "aent list \<Rightarrow> int" where
  "a_sum xs = sum_list (map (\<lambda>e. fst (snd e)) xs)"

definition a_put :: "cache_where \<Rightarrow> aent list \<Rightarrow> arc \<Rightarrow> arc" where
  "a_put w xs s = s\<lparr>a_list := (a_list s)(w := xs)\<rparr>"

definition a_evict :: "cache_where \<Rightarrow> arc \<Rightarrow> arc" where
  "a_evict w s = a_put w (snd (evict a_used (a_list s w))) s"

definition a_move :: "cache_where \<Rightarrow> cache_where \<Rightarrow> arc \<Rightarrow> bool \<times> arc" where
  "a_move old new s =
     (case evict a_used (a_list s old) of
        (None, xs) \<Rightarrow> (False, s)
      | (Some (u, _, i), xs) \<Rightarrow>
          (True, (let s' = a_put old xs s in a_put new ((u, a_entry s, i) # a_list s' new) s')))"

definition a_replace :: "arc \<Rightarrow> arc" where
  "a_replace s =
     (if max 1 (a_target s) \<le> a_sum (a_list s T1)
      then (case a_move T1 B1 s of (True, s') \<Rightarrow> s' | (False, s') \<Rightarrow> snd (a_move T2 B2 s'))
      else (case a_move T2 B2 s of (True, s') \<Rightarrow> s' | (False, s') \<Rightarrow> snd (a_move T1 B1 s')))"

definition a_forget :: "cache_where \<Rightarrow> int list \<Rightarrow> arc \<Rightarrow> arc" where
  "a_forget w i s = a_put w (filter (\<lambda>e. a_id e \<noteq> i) (a_list s w)) s"

definition a_has :: "arc \<Rightarrow> cache_where \<Rightarrow> int list \<Rightarrow> bool" where
  "a_has s w i \<longleftrightarrow> i \<in> a_id ` set (a_list s w)"

definition a_hit :: "cache_where \<Rightarrow> int list \<Rightarrow> arc \<Rightarrow> arc" where
  "a_hit w i s =
     (case filter (\<lambda>e. a_id e = i) (a_list s w) of
        [] \<Rightarrow> s
      | (u, z, _) # _ \<Rightarrow> (let s' = a_forget w i s in a_put T2 ((u + 1, z, i) # a_list s' T2) s'))"

definition a_lookup :: "int list \<Rightarrow> arc \<Rightarrow> bool \<times> arc" where
  "a_lookup i s =
     (let b1 = a_sum (a_list s B1); b2 = a_sum (a_list s B2) in
      if a_has s T1 i then (True, a_hit T1 i s)
      else if a_has s T2 i then (True, a_hit T2 i s)
      else if a_has s B1 i then
        (False, (a_replace (a_forget B1 i (s\<lparr>a_target := min (a_target s + max (b2 div b1) 1) (a_size s)\<rparr>)))
           \<lparr>a_insert := Some T2\<rparr>)
      else if a_has s B2 i then
        (False, (a_replace (a_forget B2 i (s\<lparr>a_target := max (a_target s - max (b1 div b2) 1) 0\<rparr>)))
           \<lparr>a_insert := Some T2\<rparr>)
      else (False, s\<lparr>a_insert := Some T1\<rparr>))"

definition a_make_room :: "arc \<Rightarrow> arc" where
  "a_make_room s =
     (let t1 = a_sum (a_list s T1); b1 = a_sum (a_list s B1); t2 = a_sum (a_list s T2);
          b2 = a_sum (a_list s B2) in
      if a_insert s = Some T1 then
        if a_size s \<le> t1 + b1 then
          if t1 < a_size s then a_replace (a_evict B1 s) else a_evict T1 s
        else if a_size s \<le> t1 + t2 + b1 + b2 then
          a_replace (if 2 * a_size s \<le> t1 + t2 + b1 + b2 then a_evict B2 s else s)
        else s
      else s)"

definition a_add :: "aent \<Rightarrow> cache_where \<Rightarrow> arc \<Rightarrow> arc" where
  "a_add e w s = (let s = a_make_room s in a_put w (e # a_list s w) s)"

section \<open>Refinement\<close>

definition aent_of :: "cache \<Rightarrow> nat \<Rightarrow> aent" where
  "aent_of c a = (case c_mem c a of None \<Rightarrow> (0, 0, []) | Some e \<Rightarrow> ent_data e)"

definition view :: "cache \<Rightarrow> (cache_where \<Rightarrow> nat list) \<Rightarrow> arc" where
  "view c L = \<lparr>a_list = (\<lambda>w. map (aent_of c) (L w)), a_insert = c_insert c, a_size = c_size c,
     a_entry = c_entry_size c, a_target = c_t1_target c\<rparr>"

text \<open>
  \<open>preserves c L d L'\<close>: going from \<open>c\<close> to \<open>d\<close>, no entry was freed or changed in usage, size or id,
  except entries of the lists that nobody uses; and no old entry came into a list.
\<close>

definition preserves :: "cache \<Rightarrow> (cache_where \<Rightarrow> nat list) \<Rightarrow> cache \<Rightarrow> (cache_where \<Rightarrow> nat list) \<Rightarrow> bool" where
  "preserves c L d L' \<longleftrightarrow>
     (\<forall>x e. c_mem c x = Some e \<longrightarrow> (x \<in> listed L \<longrightarrow> ce_usage e \<noteq> 0) \<longrightarrow> map_option ent_data (c_mem d x) = Some (ent_data e))
     \<and> (\<forall>x < c_brk c. x \<in> listed L' \<longrightarrow> x \<in> listed L) \<and> c_brk c \<le> c_brk d"

lemma view_simps [simp]:
  "a_list (view c L) w = map (aent_of c) (L w)" "a_insert (view c L) = c_insert c"
  "a_size (view c L) = c_size c" "a_entry (view c L) = c_entry_size c" "a_target (view c L) = c_t1_target c"
  by (simp_all add: view_def)

lemma aent_of_same: "same_data c d \<Longrightarrow> aent_of d = aent_of c"
proof
  fix a assume "same_data c d"
  then have "map_option ent_data (c_mem d a) = map_option ent_data (c_mem c a)" by (simp add: same_data_def)
  then show "aent_of d a = aent_of c a" by (cases "c_mem c a"; cases "c_mem d a") (auto simp: aent_of_def)
qed

lemma view_same: "same_data c d \<Longrightarrow> view d (L(w := xs)) = a_put w (map (aent_of c) xs) (view c L)"
  by (auto simp: view_def a_put_def aent_of_same fun_eq_iff) (simp_all add: same_data_def)

lemma view_cong:
  assumes "\<And>x. x \<in> listed L \<Longrightarrow> c_mem d x = c_mem c x" "c_insert d = c_insert c" "c_size d = c_size c"
    "c_entry_size d = c_entry_size c" "c_t1_target d = c_t1_target c"
  shows "view d L = view c L"
proof -
  have "map (aent_of d) (L w) = map (aent_of c) (L w)" for w
  proof (rule map_cong)
    fix x assume "x \<in> set (L w)"
    then have "c_mem d x = c_mem c x" using assms(1) by blast
    then show "aent_of d x = aent_of c x" by (simp add: aent_of_def)
  qed simp
  then have "(\<lambda>w. map (aent_of d) (L w)) = (\<lambda>w. map (aent_of c) (L w))" by blast
  then show ?thesis using assms(2-) by (simp only: view_def)
qed

lemma in_use_aent: "cinv c L D \<Longrightarrow> x \<in> set (L w) \<Longrightarrow> a_used (aent_of c x) = in_use (c_mem c) x"
  using rep_alloc [OF cinv_rep, of c L D x w] by (auto simp: aent_of_def in_use_def ent_data_def)

lemma evict_view:
  assumes "cinv c L D"
  shows "evict a_used (map (aent_of c) (L w)) =
    (map_option (aent_of c) (fst (evict (in_use (c_mem c)) (L w))), map (aent_of c) (snd (evict (in_use (c_mem c)) (L w))))"
  by (rule evict_map) (rule in_use_aent [OF assms])

lemma a_sum_view: "cinv c L D \<Longrightarrow> a_sum (map (aent_of c) (L w)) = cl_size (c_list c w)"
proof -
  assume i: "cinv c L D"
  have "map ((\<lambda>e. fst (snd e)) \<circ> aent_of c) (L w) = map (ent_size (c_mem c)) (L w)"
    using rep_alloc [OF cinv_rep [OF i]] by (fastforce simp: aent_of_def ent_data_def ent_size_def)
  then show ?thesis using last_rep_cases(2) [OF cinv_rep [OF i], of w] by (simp only: a_sum_def map_map)
qed

lemma preserves_refl: "preserves c L c L"
  by (simp add: preserves_def)

lemma preserves_same: "same_data c d \<Longrightarrow> listed L' \<subseteq> listed L \<Longrightarrow> preserves c L d L'"
  by (auto simp: preserves_def same_data_def)

lemma preserves_trans:
  assumes "preserves c L d L'" "preserves d L' e L''" "cinv c L D"
  shows "preserves c L e L''"
proof -
  have "map_option ent_data (c_mem e x) = Some (ent_data f)"
    if f: "c_mem c x = Some f" "x \<in> listed L \<longrightarrow> ce_usage f \<noteq> 0" for x f
  proof -
    obtain g where g: "c_mem d x = Some g" "ent_data g = ent_data f"
      using assms(1) f unfolding preserves_def by fastforce
    have "x < c_brk c" using assms(3) f(1) by (auto simp: cinv_def)
    then have "x \<in> listed L' \<longrightarrow> ce_usage g \<noteq> 0"
      using assms(1) f g by (auto simp: preserves_def ent_data_def)
    then show ?thesis using assms(2) g unfolding preserves_def by metis
  qed
  moreover have "x \<in> listed L" if "x < c_brk c" "x \<in> listed L''" for x
    using that assms(1,2) unfolding preserves_def by (meson order_less_le_trans)
  moreover have "c_brk c \<le> c_brk e" using assms(1,2) by (auto simp: preserves_def)
  ultimately show ?thesis by (simp add: preserves_def)
qed

text \<open>\<open>cache_move\<close> is the abstract move.\<close>

definition other_fields :: "cache \<Rightarrow> cache_where option \<times> int \<times> int \<times> int \<times> int \<times> int" where
  "other_fields c = (c_insert c, c_size c, c_id_size c, c_entry_size c, c_misses c, c_hits c)"

lemma same_data_other: "same_data c d \<Longrightarrow> other_fields d = other_fields c"
  by (simp add: same_data_def other_fields_def)

lemma cinv_move:
  assumes inv: "cinv c L D"
  shows "\<exists>r d L'. cache_move old new c = Some (r, d) \<and> cinv d L' D \<and> preserves c L d L'
    \<and> (r \<noteq> None, view d L') = a_move old new (view c L) \<and> other_fields d = other_fields c"
proof -
  obtain r xs where ev: "evict (in_use (c_mem c)) (L old) = (r, xs)" by force
  obtain d where d: "cache_remove_lru False old c = Some (r, d)" "cinv d (L(old := xs)) (D \<union> set_option r)" "same_data c d"
    using cinv_lru [OF inv ev] by blast
  have aev: "evict a_used (a_list (view c L) old) = (map_option (aent_of c) r, map (aent_of c) xs)"
    using evict_view [OF inv, of old] ev by simp
  show ?thesis
  proof (cases r)
    case None
    then have L: "L(old := xs) = L" using evict_None ev by force
    have "view d L = view c L" using view_same [OF d(3), of L old "L old"] by (simp add: a_put_def view_def fun_upd_idem)
    then show ?thesis
      using None d L aev preserves_same [OF d(3), of L L] same_data_other [OF d(3)]
      by (intro exI [of _ None] exI [of _ d] exI [of _ L]) (simp add: cache_move_def a_move_def)
  next
    case (Some a)
    obtain us vs where us: "\<not> in_use (c_mem c) a" "L old = us @ a # vs" "xs = vs @ us"
      using evict_Some [of _ "L old" a xs] ev Some by blast
    let ?L = "L(old := xs)"
    have aD0: "a \<in> D \<union> set_option r" using Some by simp
    obtain b d2 e where t: "c_mem d a = Some e" "cache_trim a d = Some (b, d2)" "cinv d2 ?L (insert b (D \<union> set_option r - {a}))"
      "c_mem d2 b = Some (e\<lparr>ce_size := c_entry_size d\<rparr>)" "b = a \<or> b = c_brk d" "b \<notin> listed ?L"
      "\<forall>x. x \<noteq> a \<and> x \<noteq> b \<longrightarrow> c_mem d2 x = c_mem d x" "c_brk d \<le> c_brk d2"
      "\<exists>h m k. d2 = d\<lparr>c_hash := h, c_mem := m, c_brk := k\<rparr>"
      using cinv_trim [OF d(2) aD0] by blast
    have aL: "a \<notin> listed ?L" "a \<in> listed L"
      using d(2) Some us(2) listedI [of a L old] by (auto simp: cinv_def)
    have aD: "a \<notin> D" using inv aL(2) by (auto simp: cinv_def)
    have "c_brk d \<notin> D"
    proof
      assume "c_brk d \<in> D"
      then have "c_brk d \<in> dom (c_mem d)" using d(2) by (auto simp: cinv_def)
      then show False using d(2) by (fastforce simp: cinv_def)
    qed
    then have bD: "b \<notin> D" using t(5) aD by blast
    obtain d3 where d3: "cache_insert_mru False new b d2 = Some d3" "same_data d2 d3"
      "cinv d3 (?L(new := b # ?L new)) (insert b (D \<union> set_option r - {a}) - {b})"
      using cinv_link [OF t(3), of b new] by blast
    let ?L' = "?L(new := b # ?L new)"
    have inv3: "cinv d3 ?L' D" using d3(3) aD bD Some by (simp add: insert_Diff_if)
    have mv: "cache_move old new c = Some (Some b, d3)" using d(1) Some t(2) d3(1) by (simp add: cache_move_def)
    have "view d2 ?L = view d ?L"
      using t(9) t(7) aL(1) t(6) by (intro view_cong) auto
    then have v2: "view d2 ?L = a_put old (map (aent_of c) xs) (view c L)" by (simp add: view_same [OF d(3)])
    obtain e0 where e0: "c_mem c a = Some e0" using rep_alloc [OF cinv_rep [OF inv], of a old] us(2) by auto
    then have ae: "aent_of c a = (ce_usage e, ce_size e, ce_id e)"
      using same_data_usage [OF d(3) e0] t(1) by (auto simp: aent_of_def ent_data_def)
    have "aent_of d2 b = (ce_usage e, c_entry_size c, ce_id e)"
      using t(4) d(3) by (simp add: aent_of_def ent_data_def same_data_def)
    moreover have "view d3 ?L' = a_put new (aent_of d2 b # a_list (view d2 ?L) new) (view d2 ?L)"
      using view_same [OF d3(2), of ?L new "b # ?L new"] by simp
    ultimately have "(True, view d3 ?L') = a_move old new (view c L)"
      unfolding v2 a_move_def aev unfolding Some option.map ae by (simp add: Let_def)
    moreover have "preserves c L d3 ?L'"
    proof -
      have "map_option ent_data (c_mem d3 x) = Some (ent_data f)"
        if "c_mem c x = Some f" "x \<in> listed L \<longrightarrow> ce_usage f \<noteq> 0" for x f
      proof -
        have "x < c_brk c" using inv that(1) by (auto simp: cinv_def)
        moreover have "x \<noteq> a" using that us(1) aL(2) by (auto simp: in_use_def)
        moreover have "c_brk d = c_brk c" using d(3) by (simp add: same_data_def)
        ultimately have "c_mem d2 x = c_mem d x" using t(5,7) by auto
        then show ?thesis using that(1) d(3) d3(2) by (simp add: same_data_def)
      qed
      moreover have "listed ?L' = insert b (listed ?L)" by (rule listed_cons)
      moreover have "listed ?L \<subseteq> listed L" using us by (auto simp: listed_def split: if_splits)
      moreover have "c_brk d = c_brk c" "c_brk d3 = c_brk d2" using d(3) d3(2) by (simp_all add: same_data_def)
      ultimately show ?thesis
        using t(5,8) aL(2) unfolding preserves_def by auto
    qed
    moreover have "other_fields d3 = other_fields c"
      using t(9) same_data_other [OF d(3)] same_data_other [OF d3(2)] by (auto simp: other_fields_def)
    ultimately show ?thesis using mv inv3 by (intro exI [of _ "Some b"] exI [of _ d3] exI [of _ ?L']) simp
  qed
qed


lemma cinv_replace:
  assumes inv: "cinv c L D"
  shows "\<exists>d L'. cache_replace c = Some d \<and> cinv d L' D \<and> preserves c L d L'
    \<and> view d L' = a_replace (view c L) \<and> other_fields d = other_fields c"
proof -
  have two: "\<exists>d L'. do { (r, c) \<leftarrow> cache_move o1 n1 c;
        (case r of None \<Rightarrow> do { (_, c) \<leftarrow> cache_move o2 n2 c; Some c } | Some _ \<Rightarrow> Some c) } = Some d
      \<and> cinv d L' D \<and> preserves c L d L'
      \<and> view d L' = (case a_move o1 n1 (view c L) of (True, s') \<Rightarrow> s' | (False, s') \<Rightarrow> snd (a_move o2 n2 s'))
      \<and> other_fields d = other_fields c" for o1 n1 o2 n2
  proof -
    obtain r d L1 where 1: "cache_move o1 n1 c = Some (r, d)" "cinv d L1 D" "preserves c L d L1"
      "(r \<noteq> None, view d L1) = a_move o1 n1 (view c L)" "other_fields d = other_fields c"
      using cinv_move [OF inv] by blast
    show ?thesis
    proof (cases r)
      case None
      obtain r' e L2 where 2: "cache_move o2 n2 d = Some (r', e)" "cinv e L2 D" "preserves d L1 e L2"
        "(r' \<noteq> None, view e L2) = a_move o2 n2 (view d L1)" "other_fields e = other_fields d"
        using cinv_move [OF 1(2)] by blast
      show ?thesis using None 1 2 preserves_trans [OF 1(3) 2(3) inv]
        by (intro exI [of _ e] exI [of _ L2]) (simp flip: 1(4) 2(4))
    next
      case (Some a)
      then show ?thesis using 1 by (intro exI [of _ d] exI [of _ L1]) (simp flip: 1(4))
    qed
  qed
  have sum: "cl_size (c_list c T1) = a_sum (a_list (view c L) T1)" using a_sum_view [OF inv, of T1] by simp
  show ?thesis
    unfolding cache_replace_def a_replace_def sum view_simps(5)
    by (cases "max 1 (c_t1_target c) \<le> a_sum (a_list (view c L) T1)") (simp_all only: if_True if_False two)
qed

lemma cinv_lru_free:
  assumes inv: "cinv c L D"
  shows "\<exists>d L'. cache_remove_lru True w c = Some (None, d) \<and> cinv d L' D \<and> preserves c L d L'
    \<and> view d L' = a_evict w (view c L) \<and> other_fields d = other_fields c"
proof -
  obtain r xs where ev: "evict (in_use (c_mem c)) (L w) = (r, xs)" by force
  obtain d where d: "cache_remove_lru False w c = Some (r, d)" "cinv d (L(w := xs)) (D \<union> set_option r)" "same_data c d"
    using cinv_lru [OF inv ev] by blast
  have v: "view d (L(w := xs)) = a_evict w (view c L)"
    using evict_view [OF inv, of w] ev by (simp add: view_same [OF d(3)] a_evict_def)
  show ?thesis
  proof (cases r)
    case None
    then have L: "L(w := xs) = L" using evict_None ev by force
    then show ?thesis
      using d v None preserves_same [OF d(3), of L L] same_data_other [OF d(3)]
      by (intro exI [of _ d] exI [of _ L]) (simp add: cache_remove_lru_free)
  next
    case (Some a)
    obtain us vs where us: "\<not> in_use (c_mem c) a" "L w = us @ a # vs" "xs = vs @ us"
      using evict_Some [of _ "L w" a xs] ev Some by blast
    let ?L = "L(w := xs)"
    have aD: "a \<in> D \<union> set_option r" using Some by simp
    have aL: "a \<notin> listed ?L" "a \<in> listed L"
      using d(2) aD us(2) listedI [of a L w] by (auto simp: cinv_def)
    have "a \<notin> D" using inv aL(2) by (auto simp: cinv_def)
    then have DD: "D \<union> set_option r - {a} = D" using Some by auto
    obtain d2 e where e: "c_mem d a = Some e" and d2: "cache_remove a d = Some d2" "cinv d2 ?L D"
      "d2 = d\<lparr>c_hash := (c_hash d)(ce_id e := None), c_mem := (c_mem d)(a := None)\<rparr>"
      using cinv_remove [OF d(2) aD] unfolding DD by blast
    have "view d2 ?L = view d ?L" using aL(1) d2(3) by (intro view_cong) auto
    moreover have "preserves c L d2 ?L"
    proof -
      have "map_option ent_data (c_mem d2 x) = Some (ent_data f)"
        if "c_mem c x = Some f" "x \<in> listed L \<longrightarrow> ce_usage f \<noteq> 0" for x f
      proof -
        have "x \<noteq> a" using that us(1) aL(2) by (auto simp: in_use_def)
        then show ?thesis using that(1) d(3) d2(3) by (simp add: same_data_def)
      qed
      moreover have "listed ?L \<subseteq> listed L" using us by (auto simp: listed_def split: if_splits)
      moreover have "c_brk d2 = c_brk c" using d(3) d2(3) by (simp add: same_data_def)
      ultimately show ?thesis unfolding preserves_def by auto
    qed
    moreover have "other_fields d2 = other_fields c"
      using d2(3) same_data_other [OF d(3)] by (simp add: other_fields_def)
    moreover have "cache_remove_lru True w c = Some (None, d2)"
      using d(1) d2(1) Some by (simp add: cache_remove_lru_free)
    ultimately show ?thesis using d2(2) v by (intro exI [of _ d2] exI [of _ ?L]) simp
  qed
qed


section \<open>Lookup and insertion\<close>

lemma a_has_iff: "cinv c L D \<Longrightarrow> a_has (view c L) w i \<longleftrightarrow> (\<exists>a \<in> set (L w). map_option ce_id (c_mem c a) = Some i)"
proof -
  assume inv: "cinv c L D"
  have "a_id (aent_of c a) = i \<longleftrightarrow> map_option ce_id (c_mem c a) = Some i" if "a \<in> set (L w)" for a
    using rep_alloc [OF cinv_rep [OF inv] that] by (auto simp: aent_of_def ent_data_def)
  then show ?thesis by (force simp: a_has_def)
qed

lemma hash_listed:
  assumes "cinv c L {}" "c_hash c i = Some a"
  shows "\<exists>e w us vs. c_mem c a = Some e \<and> ce_id e = i \<and> ce_where e = Some w \<and> L w = us @ a # vs"
proof -
  have "a \<in> listed L" "map_option ce_id (c_mem c a) = Some i" using assms by (auto simp: cinv_def)
  then obtain w e where "a \<in> set (L w)" "c_mem c a = Some e" "ce_id e = i" "ce_where e = Some w"
    using rep_alloc [OF cinv_rep [OF assms(1)]] by (fastforce simp: listed_def)
  then show ?thesis using split_list [of a "L w"] by blast
qed

lemma a_has_where:
  assumes "cinv c L {}" "c_hash c i = Some a" "c_mem c a = Some e" "ce_where e = Some w"
  shows "a_has (view c L) v i \<longleftrightarrow> v = w"
proof -
  obtain us vs where "L w = us @ a # vs" "ce_id e = i"
    using hash_listed [OF assms(1,2)] assms(3,4) by auto
  moreover have "b = a" if "b \<in> set (L v)" "map_option ce_id (c_mem c b) = Some i" for b v
  proof -
    have "c_hash c i = Some b" using assms(1) that listedI by (auto simp: cinv_def)
    then show ?thesis using assms(2) by simp
  qed
  moreover have "ce_where e = Some v" if "a \<in> set (L v)"
    using rep_alloc [OF cinv_rep [OF assms(1)] that] assms(3) by auto
  ultimately show ?thesis using assms by (auto simp: a_has_iff [OF assms(1)])
qed

lemma a_has_none:
  assumes "cinv c L {}" "c_hash c i = None"
  shows "\<not> a_has (view c L) w i"
proof
  assume "a_has (view c L) w i"
  then obtain a where "a \<in> set (L w)" "map_option ce_id (c_mem c a) = Some i"
    using a_has_iff [OF assms(1)] by blast
  then have "c_hash c i = Some a" using assms(1) listedI by (auto simp: cinv_def)
  then show False using assms(2) by simp
qed

text \<open>Taking an entry out by its address is filtering out its id.\<close>

lemma filter_id:
  assumes inv: "cinv c L {}" and L: "L w = us @ a # vs" and e: "c_mem c a = Some e"
  shows "filter (\<lambda>x. a_id x \<noteq> ce_id e) (a_list (view c L) w) = map (aent_of c) (us @ vs)"
    "filter (\<lambda>x. a_id x = ce_id e) (a_list (view c L) w) = [ent_data e]"
proof -
  have h: "c_hash c (ce_id e) = Some a" using cinv_hash [OF inv, of a e] L e listedI [of a L w] by simp
  have ne: "a_id (aent_of c b) \<noteq> ce_id e" if "b \<in> set us \<union> set vs" for b
  proof
    assume eq: "a_id (aent_of c b) = ce_id e"
    have b: "b \<in> set (L w)" using that L by auto
    then obtain f where f: "c_mem c b = Some f" using rep_alloc [OF cinv_rep [OF inv]] by blast
    then have "c_hash c (ce_id f) = Some b" using cinv_hash [OF inv, of b f] b listedI by blast
    then have "b = a" using eq f h by (simp add: aent_of_def ent_data_def)
    moreover have "distinct (L w)" using rep_listD [OF cinv_rep [OF inv], of w] by (simp add: list_rep_def)
    ultimately show False using that L by auto
  qed
  have a: "aent_of c a = ent_data e" "a_id (ent_data e) = ce_id e" using e by (simp_all add: aent_of_def ent_data_def)
  have "filter (\<lambda>x. a_id x \<noteq> ce_id e) (map (aent_of c) xs) = map (aent_of c) xs"
     "filter (\<lambda>x. a_id x = ce_id e) (map (aent_of c) xs) = []" if "set xs \<subseteq> set us \<union> set vs" for xs
    using ne that by (auto simp: filter_id_conv filter_empty_conv)
  then show "filter (\<lambda>x. a_id x \<noteq> ce_id e) (a_list (view c L) w) = map (aent_of c) (us @ vs)"
    "filter (\<lambda>x. a_id x = ce_id e) (a_list (view c L) w) = [ent_data e]"
    using L a by simp_all
qed


text \<open>No entry in use is freed, moved, or changed in size or id.\<close>

definition keeps :: "cache \<Rightarrow> cache \<Rightarrow> bool" where
  "keeps c d \<longleftrightarrow> (\<forall>x e. c_mem c x = Some e \<longrightarrow> 0 < ce_usage e \<longrightarrow>
     (\<exists>f. c_mem d x = Some f \<and> ce_id f = ce_id e \<and> ce_size f = ce_size e \<and> ce_usage e \<le> ce_usage f))"

definition ghosts_idle :: "arc \<Rightarrow> bool" where
  "ghosts_idle s \<longleftrightarrow> (\<forall>e \<in> set (a_list s B1) \<union> set (a_list s B2). \<not> a_used e)"

lemma preserves_keeps: "preserves c L d L' \<Longrightarrow> keeps c d"
  unfolding keeps_def preserves_def by (fastforce simp: ent_data_def)

text \<open>A change of one entry's usage is invisible to the invariant.\<close>

lemma cinv_usage:
  assumes "cinv c L D" "c_mem c a = Some e"
  shows "cinv (c\<lparr>c_mem := (c_mem c)(a \<mapsto> e\<lparr>ce_usage := n\<rparr>)\<rparr>) L D"
proof -
  let ?d = "c\<lparr>c_mem := (c_mem c)(a \<mapsto> e\<lparr>ce_usage := n\<rparr>)\<rparr>"
  have ch: "chain (c_mem ?d) w p xs q = chain (c_mem c) w p xs q" for w p xs q
    using assms(2) by (induction xs arbitrary: p) auto
  have sz: "ent_size (c_mem ?d) = ent_size (c_mem c)"
    using assms(2) by (auto simp: ent_size_def fun_eq_iff)
  have "rep ?d L" using cinv_rep [OF assms(1)] unfolding rep_def list_rep_def ch sz by simp
  moreover have "map_option ce_id (c_mem ?d x) = map_option ce_id (c_mem c x)" for x using assms(2) by simp
  moreover have "dom (c_mem ?d) = dom (c_mem c)" using assms(2) by auto
  ultimately show ?thesis using assms(1) unfolding cinv_def sz by simp
qed

lemma keeps_trans:
  assumes "keeps c d" "keeps d e"
  shows "keeps c e"
  unfolding keeps_def
proof (intro allI impI)
  fix x f assume f: "c_mem c x = Some f" "0 < ce_usage f"
  obtain g where g: "c_mem d x = Some g" "ce_id g = ce_id f" "ce_size g = ce_size f" "ce_usage f \<le> ce_usage g"
    using assms(1) f unfolding keeps_def by blast
  moreover have "0 < ce_usage g" using f(2) g(4) by simp
  ultimately obtain h where "c_mem e x = Some h" "ce_id h = ce_id g" "ce_size h = ce_size g" "ce_usage g \<le> ce_usage h"
    using assms(2) unfolding keeps_def by blast
  then show "\<exists>h. c_mem e x = Some h \<and> ce_id h = ce_id f \<and> ce_size h = ce_size f \<and> ce_usage f \<le> ce_usage h"
    using g by force
qed

lemma view_put:
  assumes "\<And>v. map (aent_of d) (L v) = map (aent_of c) (L v)"
    "c_insert d = c_insert c" "c_size d = c_size c" "c_entry_size d = c_entry_size c" "c_t1_target d = c_t1_target c"
  shows "view d (L(w := a # L w)) = a_put w (aent_of d a # map (aent_of c) (L w)) (view c (L(w := ys)))"
proof -
  have "(\<lambda>v. map (aent_of d) ((L(w := a # L w)) v)) =
      (\<lambda>v. map (aent_of c) ((L(w := ys)) v))(w := aent_of d a # map (aent_of c) (L w))"
    by (rule ext) (simp add: assms(1) del: map_eq_conv)
  then show ?thesis using assms(2-) by (simp add: view_def a_put_def del: map_eq_conv)
qed

lemma a_put_put: "a_put w xs (a_put w ys s) = a_put w xs s"
  by (simp add: a_put_def)

lemma cinv_hit:
  assumes inv: "cinv c L {}" and a: "c_hash c i = Some a" "c_mem c a = Some e" "ce_where e = Some w" "w = T1 \<or> w = T2"
  shows "\<exists>d L'. cache_lookup i c = Some (Some a, d) \<and> cinv d L' {} \<and> view d L' = a_hit w i (view c L) \<and> keeps c d
    \<and> (\<exists>f. c_mem d a = Some f \<and> ce_usage f = ce_usage e + 1)"
proof -
  obtain us vs where L: "L w = us @ a # vs" "ce_id e = i" using hash_listed [OF inv a(1)] a(2,3) by auto
  let ?c = "c\<lparr>c_hits := c_hits c + ce_size e\<rparr>"
  have inv': "cinv ?c L {}" using inv rep_mem_cong [OF cinv_rep [OF inv], of ?c] by (simp add: cinv_def)
  obtain d1 where d1: "cache_remove_from_list w a ?c = Some d1" "cinv d1 (L(w := us @ vs)) {a}" "same_data ?c d1"
    using cinv_unlink [OF inv' L(1)] by blast
  let ?L = "L(w := us @ vs)"
  obtain d2 where d2: "cache_insert_mru False T2 a d1 = Some d2" "cinv d2 (?L(T2 := a # ?L T2)) {}" "same_data d1 d2"
    using cinv_link [OF d1(2), of a T2] by auto
  let ?L2 = "?L(T2 := a # ?L T2)"
  obtain e1 where e1: "c_mem d1 a = Some e1" "ent_data e1 = ent_data e"
    using same_data_usage [OF d1(3), of a e] a(2) by (auto simp: ent_data_def)
  obtain e2 where e2: "c_mem d2 a = Some e2" "ent_data e2 = ent_data e"
    using same_data_usage [OF d2(3) e1(1)] e1(2) by (auto simp: ent_data_def)
  let ?d = "d2\<lparr>c_mem := (c_mem d2)(a \<mapsto> e2\<lparr>ce_usage := ce_usage e2 + 1\<rparr>)\<rparr>"
  have "cache_lookup i c = Some (Some a, ?d)"
    using a d1(1) d2(1) e2(1) by (auto simp: cache_lookup_def upd_ent_def Let_def)
  moreover have "cinv ?d ?L2 {}" by (rule cinv_usage [OF d2(2) e2(1)])
  moreover have "view ?d ?L2 = a_hit w i (view c L)"
  proof -
    have dist: "a \<notin> listed ?L" using d1(2) by (simp add: cinv_def)
    have v2: "view d2 ?L2 = a_put T2 (map (aent_of d1) (a # ?L T2)) (a_put w (map (aent_of ?c) (us @ vs)) (view ?c L))"
      unfolding view_same [OF d2(3)] view_same [OF d1(3)] ..
    have "aent_of ?c = aent_of c" "view ?c L = view c L" by (auto simp: aent_of_def view_def)
    moreover have "view ?d ?L2 = a_put T2 ((ce_usage e + 1, ce_size e, i) # map (aent_of d2) (?L T2)) (view d2 ?L2)"
    proof -
      have "aent_of ?d x = aent_of d2 x" if "x \<noteq> a" for x using that by (simp add: aent_of_def)
      moreover have "a \<notin> set (?L v)" for v using dist listedI by blast
      ultimately have "map (aent_of ?d) (?L v) = map (aent_of d2) (?L v)" for v
        by (intro map_cong refl) metis
      moreover have "aent_of ?d a = (ce_usage e + 1, ce_size e, i)"
        using e2 L(2) by (simp add: aent_of_def ent_data_def)
      ultimately show ?thesis using view_put [of ?d ?L d2 T2 a "a # ?L T2"] by simp
    qed
    moreover have "aent_of d2 = aent_of c" "aent_of d1 = aent_of c"
      using aent_of_same [OF d1(3)] aent_of_same [OF d2(3)] calculation(1) by simp_all
    ultimately have lhs: "view ?d ?L2 = a_put T2 ((ce_usage e + 1, ce_size e, i) # map (aent_of c) (?L T2))
        (a_put w (map (aent_of c) (us @ vs)) (view c L))"
      using v2 by (simp only: a_put_put)
    have "a_forget w i (view c L) = a_put w (map (aent_of c) (us @ vs)) (view c L)"
      using filter_id(1) [OF inv L(1) a(2)] L(2) by (simp only: a_forget_def)
    moreover have "a_list (a_put w (map (aent_of c) (us @ vs)) (view c L)) T2 = map (aent_of c) (?L T2)"
      by (simp add: a_put_def)
    ultimately show ?thesis
      using filter_id(2) [OF inv L(1) a(2)] L(2) unfolding lhs a_hit_def
      by (simp add: Let_def ent_data_def del: view_simps)
  qed
  moreover have "keeps c ?d"
    unfolding keeps_def
  proof (intro allI impI)
    fix x f assume f: "c_mem c x = Some f" "0 < ce_usage f"
    obtain g where "c_mem d2 x = Some g" "ent_data g = ent_data f"
      using same_data_usage [OF same_data_trans [OF d1(3) d2(3)], of x f] f by (auto simp: ent_data_def)
    then show "\<exists>g. c_mem ?d x = Some g \<and> ce_id g = ce_id f \<and> ce_size g = ce_size f \<and> ce_usage f \<le> ce_usage g"
      using e2(1) by (cases "x = a") (auto simp: ent_data_def)
  qed
  ultimately show ?thesis using e2 by (intro exI [of _ ?d] exI [of _ ?L2]) (auto simp: ent_data_def)
qed


lemma keeps_remove:
  assumes "keeps c d" "c_mem c a = Some e" "ce_usage e = 0"
  shows "keeps c (d\<lparr>c_hash := h, c_mem := (c_mem d)(a := None), c_insert := k\<rparr>)"
  using assms unfolding keeps_def by auto

lemma cinv_ghost:
  assumes inv: "cinv c L {}" and a: "c_hash c i = Some a" "c_mem c a = Some e" "ce_where e = Some w" "w = B1 \<or> w = B2"
  shows "\<exists>d L'. cache_lookup i c = Some (None, d) \<and> cinv d L' {} \<and> (False, view d L') = a_lookup i (view c L)
    \<and> (ce_usage e = 0 \<longrightarrow> keeps c d)"
proof -
  obtain us vs where L: "L w = us @ a # vs" "ce_id e = i" using hash_listed [OF inv a(1)] a(2,3) by auto
  let ?b1 = "cl_size (c_list c B1)" and ?b2 = "cl_size (c_list c B2)"
  let ?t = "if w = B1 then min (c_t1_target c + max (?b2 div ?b1) 1) (c_size c)
            else max (c_t1_target c - max (?b1 div ?b2) 1) 0"
  let ?c = "c\<lparr>c_t1_target := ?t\<rparr>"
  have nn: "0 \<le> cl_size (c_list c v)" for v
    using last_rep_cases(2) [OF cinv_rep [OF inv], of v] cinv_pos [OF inv]
    by (auto intro!: sum_sizes_nonneg)
  have pos: "0 < cl_size (c_list c w)"
  proof -
    have "0 < ent_size (c_mem c) a" using cinv_pos [OF inv, of a] L(1) listedI [of a L w] by simp
    moreover have "0 \<le> sum_list (map (ent_size (c_mem c)) us)" "0 \<le> sum_list (map (ent_size (c_mem c)) vs)"
      using cinv_pos [OF inv] L(1) listedI [of _ L w] by (auto intro!: sum_sizes_nonneg)
    ultimately show ?thesis using last_rep_cases(2) [OF cinv_rep [OF inv], of w] L(1) by simp
  qed
  have inv': "cinv ?c L {}" using inv rep_mem_cong [OF cinv_rep [OF inv], of ?c] by (simp add: cinv_def)
  obtain d1 where d1: "cache_remove_from_list w a ?c = Some d1" "cinv d1 (L(w := us @ vs)) {a}" "same_data ?c d1"
    using cinv_unlink [OF inv' L(1)] by blast
  let ?L = "L(w := us @ vs)"
  obtain d2 L2 where d2: "cache_replace d1 = Some d2" "cinv d2 L2 {a}" "preserves d1 ?L d2 L2"
    "view d2 L2 = a_replace (view d1 ?L)" "other_fields d2 = other_fields d1"
    using cinv_replace [OF d1(2)] by blast
  obtain d3 f where f: "c_mem d2 a = Some f" and d3: "cache_remove a d2 = Some d3" "cinv d3 L2 {}"
    "d3 = d2\<lparr>c_hash := (c_hash d2)(ce_id f := None), c_mem := (c_mem d2)(a := None)\<rparr>"
    using cinv_remove [OF d2(2), of a] by auto
  let ?d = "d3\<lparr>c_insert := Some T2\<rparr>"
  have div: "c_div x (cl_size (c_list c w)) = Some (x div cl_size (c_list c w))" if "0 \<le> x" for x
    using pos that by (simp add: c_div_def)
  have "cache_lookup i c = Some (None, ?d)"
    using a d1(1) d2(1) d3(1) div [OF nn] by (auto simp: cache_lookup_def)
  moreover have "cinv ?d L2 {}" using d3(2) rep_mem_cong [OF cinv_rep [OF d3(2)], of ?d] by (simp add: cinv_def)
  moreover have "(False, view ?d L2) = a_lookup i (view c L)"
  proof -
    have "a \<notin> listed L2" using d2(2) by (simp add: cinv_def)
    then have "view d3 L2 = view d2 L2" using d3(3) by (intro view_cong) auto
    moreover have "view ?d L2 = (view d3 L2)\<lparr>a_insert := Some T2\<rparr>" by (auto simp: view_def aent_of_def)
    moreover have "view d1 ?L = a_forget w i ((view c L)\<lparr>a_target := ?t\<rparr>)"
    proof -
      have "view ?c L = (view c L)\<lparr>a_target := ?t\<rparr>" "aent_of ?c = aent_of c" by (auto simp: view_def aent_of_def)
      then show ?thesis
        using filter_id(1) [OF inv L(1) a(2)] L(2) by (simp add: view_same [OF d1(3)] a_forget_def)
    qed
    moreover have "a_has (view c L) v i \<longleftrightarrow> v = w" for v by (rule a_has_where [OF inv a(1-3)])
    moreover have "a_sum (a_list (view c L) v) = cl_size (c_list c v)" for v using a_sum_view [OF inv] by simp
    ultimately show ?thesis using d2(4) a(4) unfolding a_lookup_def Let_def by auto
  qed
  moreover have "keeps c ?d" if "ce_usage e = 0"
  proof -
    have "keeps c d1" using preserves_keeps [OF preserves_same [OF d1(3), of L L]] by (simp add: keeps_def)
    moreover have "keeps d1 d2" by (rule preserves_keeps [OF d2(3)])
    ultimately have "keeps c d2" by (rule keeps_trans)
    then show ?thesis using keeps_remove [OF _ a(2) that] unfolding d3(3) by simp
  qed
  ultimately show ?thesis by (intro exI [of _ ?d] exI [of _ L2]) simp
qed

lemma cache_lookup_refines:
  assumes inv: "cinv c L {}"
  shows "\<exists>r d L'. cache_lookup i c = Some (r, d) \<and> cinv d L' {} \<and> (r \<noteq> None, view d L') = a_lookup i (view c L)
    \<and> (ghosts_idle (view c L) \<longrightarrow> keeps c d) \<and> (\<forall>a. r = Some a \<longrightarrow> c_hash c i = Some a)"
proof (cases "c_hash c i")
  case None
  let ?d = "c\<lparr>c_insert := Some T1\<rparr>"
  have "cinv ?d L {}" using inv rep_mem_cong [OF cinv_rep [OF inv], of ?d] by (simp add: cinv_def)
  moreover have "(False, view ?d L) = a_lookup i (view c L)"
    using a_has_none [OF inv None] by (simp add: a_lookup_def Let_def view_def aent_of_def fun_eq_iff)
  moreover have "keeps c ?d" by (simp add: keeps_def)
  ultimately show ?thesis using None
    by (intro exI [of _ None] exI [of _ ?d] exI [of _ L]) (simp add: cache_lookup_def)
next
  case (Some a)
  obtain e w us vs where e: "c_mem c a = Some e" "ce_where e = Some w" "L w = us @ a # vs"
    using hash_listed [OF inv Some] by blast
  note has = a_has_where [OF inv Some e(1,2)]
  show ?thesis
  proof (cases "w = T1 \<or> w = T2")
    case True
    obtain d L' where "cache_lookup i c = Some (Some a, d)" "cinv d L' {}" "view d L' = a_hit w i (view c L)" "keeps c d"
      using cinv_hit [OF inv Some e(1,2) True] by blast
    moreover have "a_lookup i (view c L) = (True, a_hit w i (view c L))"
      using has True by (auto simp: a_lookup_def Let_def)
    ultimately show ?thesis using Some by (intro exI [of _ "Some a"] exI [of _ d] exI [of _ L']) simp
  next
    case False
    then have w: "w = B1 \<or> w = B2" by (cases w) auto
    obtain d L' where d: "cache_lookup i c = Some (None, d)" "cinv d L' {}"
      "(False, view d L') = a_lookup i (view c L)" "ce_usage e = 0 \<longrightarrow> keeps c d"
      using cinv_ghost [OF inv Some e(1,2) w] by blast
    have "ghosts_idle (view c L) \<longrightarrow> ce_usage e = 0"
      using w e by (auto simp: ghosts_idle_def aent_of_def ent_data_def)
    then show ?thesis using d by (intro exI [of _ None] exI [of _ d] exI [of _ L']) simp
  qed
qed


text \<open>Making room never brings in an id.\<close>

definition a_ids :: "arc \<Rightarrow> int list set" where
  "a_ids s = (\<Union>w. a_id ` set (a_list s w))"

lemma evict_sets: "set (snd (evict u xs)) \<subseteq> set xs" "set_option (fst (evict u xs)) \<subseteq> set xs"
proof -
  obtain r ys where ev: "evict u xs = (r, ys)" by force
  then show "set (snd (evict u xs)) \<subseteq> set xs" "set_option (fst (evict u xs)) \<subseteq> set xs"
    using evict_None [of u xs ys] evict_Some [of u xs _ ys] by (cases r; fastforce)+
qed

lemma a_ids_put:
  assumes "a_id ` set xs \<subseteq> A" "a_ids s \<subseteq> A"
  shows "a_ids (a_put w xs s) \<subseteq> A"
  unfolding a_ids_def
proof (rule UN_least)
  fix v show "a_id ` set (a_list (a_put w xs s) v) \<subseteq> A"
    using assms by (cases "v = w") (simp_all add: a_put_def a_ids_def UN_subset_iff)
qed

lemma a_ids_list: "a_id ` set (a_list s w) \<subseteq> a_ids s"
  unfolding a_ids_def by (rule UN_upper) simp

lemma a_ids_evict: "a_ids (a_evict w s) \<subseteq> a_ids s"
proof -
  have "a_id ` set (snd (evict a_used (a_list s w))) \<subseteq> a_id ` set (a_list s w)"
    using evict_sets(1) by (rule image_mono)
  then show ?thesis unfolding a_evict_def using a_ids_list [of s w] by (intro a_ids_put order_refl) (rule order_trans)
qed

lemma a_ids_move: "a_ids (snd (a_move old new s)) \<subseteq> a_ids s"
proof (cases "evict a_used (a_list s old)")
  case (Pair r xs)
  show ?thesis
  proof (cases r)
    case None
    with Pair show ?thesis by (simp add: a_move_def)
  next
    case (Some e)
    obtain u z i where e: "e = (u, z, i)" by (cases e) auto
    have 1: "e \<in> set (a_list s old)" "set xs \<subseteq> set (a_list s old)"
      using evict_sets [of a_used "a_list s old"] Pair Some by simp_all
    then have i: "i \<in> a_ids s" using a_ids_list [of s old] e by force
    let ?s = "a_put old xs s"
    have 2: "a_ids ?s \<subseteq> a_ids s" using image_mono [OF 1(2)] a_ids_list [of s old] by (intro a_ids_put order_refl) (rule order_trans)
    have "a_id ` set ((u, a_entry s, i) # a_list ?s new) \<subseteq> a_ids s"
      using i 2 a_ids_list [of ?s new] by auto
    then have "a_ids (a_put new ((u, a_entry s, i) # a_list ?s new) ?s) \<subseteq> a_ids s" by (rule a_ids_put) (rule 2)
    then show ?thesis using Pair Some e by (simp add: a_move_def Let_def)
  qed
qed

lemma a_ids_replace: "a_ids (a_replace s) \<subseteq> a_ids s"
proof -
  have "a_ids (case a_move o1 n1 s of (True, s') \<Rightarrow> s' | (False, s') \<Rightarrow> snd (a_move o2 n2 s')) \<subseteq> a_ids s" for o1 n1 o2 n2
    using a_ids_move [of o1 n1 s] a_ids_move [of o2 n2 "snd (a_move o1 n1 s)"]
    by (cases "a_move o1 n1 s"; cases "fst (a_move o1 n1 s)") auto
  then show ?thesis by (simp add: a_replace_def)
qed

lemma a_ids_make_room: "a_ids (a_make_room s) \<subseteq> a_ids s"
  using a_ids_replace [of s] a_ids_replace [of "a_evict B1 s"] a_ids_replace [of "a_evict B2 s"]
    a_ids_evict [of B1 s] a_ids_evict [of T1 s] a_ids_evict [of B2 s]
  by (auto simp: a_make_room_def Let_def split: if_splits)

lemma a_ids_view: "cinv c L {} \<Longrightarrow> i \<in> a_ids (view c L) \<longleftrightarrow> c_hash c i \<noteq> None"
proof -
  assume inv: "cinv c L {}"
  have "i \<in> a_ids (view c L) \<longleftrightarrow> (\<exists>w. a_has (view c L) w i)" by (auto simp: a_ids_def a_has_def)
  then show ?thesis using a_has_none [OF inv, of i] hash_listed [OF inv, of i] a_has_where [OF inv, of i]
    by (metis option.exhaust)
qed

lemma cinv_add:
  assumes inv: "cinv c L {}" and a: "a \<notin> listed L" "c_mem c a = Some e" "c_hash c (ce_id e) = None"
    and size: "c_entry_size c \<le> ce_size e"
  shows "\<exists>d. cache_insert_mru True w a c = Some d \<and> cinv d (L(w := a # L w)) {} \<and> keeps c d
    \<and> view d (L(w := a # L w)) = a_put w (ent_data e # a_list (view c L) w) (view c L)
    \<and> c_hash d (ce_id e) = Some a"
proof -
  obtain d where d: "rep d (L(w := a # L w))" "same_data c d"
    "cache_insert_mru True w a c = Some (d\<lparr>c_hash := (c_hash c)(ce_id e \<mapsto> a)\<rparr>)"
    using cache_insert_mru_rep [OF cinv_rep [OF inv] _ a(2), of w] a(1) by (auto simp: listed_def)
  let ?d = "d\<lparr>c_hash := (c_hash c)(ce_id e \<mapsto> a)\<rparr>" and ?L = "L(w := a # L w)"
  have ids: "map_option ce_id (c_mem d x) = map_option ce_id (c_mem c x)" for x
    using d(2) by (cases "c_mem c x"; cases "c_mem d x") (auto simp: same_data_def ent_data_def dest!: spec [of _ x])
  have "rep ?d ?L" using d(1) by (rule rep_mem_cong) auto
  moreover have "c_hash ?d i = Some x \<longleftrightarrow> x \<in> insert a (listed L) \<and> map_option ce_id (c_mem c x) = Some i" for i x
  proof -
    have h: "c_hash c i = Some x \<longleftrightarrow> x \<in> listed L \<and> map_option ce_id (c_mem c x) = Some i" for i x
      using inv by (simp add: cinv_def)
    show ?thesis using a h [of i x] h [of "ce_id e" x] by auto
  qed
  moreover have "c_entry_size c \<le> ent_size (c_mem c) x" if "x \<in> insert a (listed L)" for x
    using that inv a(2) size by (auto simp: cinv_def)
  ultimately have "cinv ?d ?L {}"
    using inv same_dataD [OF d(2)] d(2) unfolding cinv_def listed_cons
    by (simp add: ids same_data_def)
  moreover have "view ?d ?L = view d ?L" by (auto simp: view_def aent_of_def)
  moreover have "view d ?L = a_put w (ent_data e # a_list (view c L) w) (view c L)"
    using view_same [OF d(2), of L w "a # L w"] a(2) by (simp add: aent_of_def)
  moreover have "keeps c ?d" using preserves_keeps [OF preserves_same [OF d(2), of L L]] by (simp add: keeps_def)
  ultimately show ?thesis using d(3) by (intro exI [of _ ?d]) simp
qed

definition make_room :: "cache \<Rightarrow> cache option" where
  "make_room c = (let t1 = cl_size (c_list c T1); b1 = cl_size (c_list c B1);
     t2 = cl_size (c_list c T2); b2 = cl_size (c_list c B2) in
     if c_insert c = Some T1 then
       if c_size c \<le> t1 + b1 then
         if t1 < c_size c then do { (_, c) \<leftarrow> cache_remove_lru True B1 c; cache_replace c }
         else do { (_, c) \<leftarrow> cache_remove_lru True T1 c; Some c }
       else
         if c_size c \<le> t1 + t2 + b1 + b2 then do {
           c \<leftarrow> (if 2 * c_size c \<le> t1 + t2 + b1 + b2
                then do { (_, c) \<leftarrow> cache_remove_lru True B2 c; Some c } else Some c);
           cache_replace c
         } else Some c
     else Some c)"

lemma cache_insert_make_room:
  "cache_insert a c = do { c \<leftarrow> make_room c; w \<leftarrow> c_insert c; cache_insert_mru True w a c }"
  by (simp add: cache_insert_def make_room_def Let_def)

lemma make_room_refines:
  assumes inv: "cinv c L {}"
  shows "\<exists>d L'. make_room c = Some d \<and> cinv d L' {} \<and> preserves c L d L'
    \<and> view d L' = a_make_room (view c L) \<and> other_fields d = other_fields c"
proof -
  have evict_replace: "\<exists>d L'. do { (_, c) \<leftarrow> cache_remove_lru True w c; cache_replace c } = Some d \<and> cinv d L' {}
     \<and> preserves c L d L' \<and> view d L' = a_replace (a_evict w (view c L)) \<and> other_fields d = other_fields c" for w
  proof -
    obtain d L1 where 1: "cache_remove_lru True w c = Some (None, d)" "cinv d L1 {}" "preserves c L d L1"
      "view d L1 = a_evict w (view c L)" "other_fields d = other_fields c"
      using cinv_lru_free [OF inv] by blast
    obtain e L2 where 2: "cache_replace d = Some e" "cinv e L2 {}" "preserves d L1 e L2"
      "view e L2 = a_replace (view d L1)" "other_fields e = other_fields d"
      using cinv_replace [OF 1(2)] by blast
    show ?thesis using 1 2 preserves_trans [OF 1(3) 2(3) inv] by (intro exI [of _ e] exI [of _ L2]) simp
  qed
  have evict_replace': "do { c \<leftarrow> do { (_, c) \<leftarrow> cache_remove_lru True w c; Some c }; cache_replace c }
      = do { (_, c) \<leftarrow> cache_remove_lru True w c; cache_replace c }" for w
    by (cases "cache_remove_lru True w c") auto
  have evict: "\<exists>d L'. do { (_, c) \<leftarrow> cache_remove_lru True w c; Some c } = Some d \<and> cinv d L' {}
     \<and> preserves c L d L' \<and> view d L' = a_evict w (view c L) \<and> other_fields d = other_fields c" for w
    using cinv_lru_free [OF inv, of w] by auto
  have same: "\<exists>d L'. Some c = Some d \<and> cinv d L' {} \<and> preserves c L d L' \<and> view d L' = view c L
      \<and> other_fields d = other_fields c"
    using inv preserves_refl by blast
  have sums: "a_sum (a_list (view c L) w) = cl_size (c_list c w)" for w using a_sum_view [OF inv] by simp
  show ?thesis
    unfolding make_room_def a_make_room_def sums view_simps(2,3) Let_def
    by (cases "c_insert c = Some T1"; cases "c_size c \<le> cl_size (c_list c T1) + cl_size (c_list c B1)";
        cases "cl_size (c_list c T1) < c_size c";
        cases "c_size c \<le> cl_size (c_list c T1) + cl_size (c_list c T2) + cl_size (c_list c B1) + cl_size (c_list c B2)";
        cases "2 * c_size c \<le> cl_size (c_list c T1) + cl_size (c_list c T2) + cl_size (c_list c B1) + cl_size (c_list c B2)")
      (simp_all only: if_True if_False evict_replace' evict_replace evict cinv_replace [OF inv] same bind.bind_lunit simp_thms)
qed

theorem cache_insert_refines:
  assumes inv: "cinv c L {}" and a: "a \<notin> listed L" "c_mem c a = Some e" "c_hash c (ce_id e) = None"
    and size: "c_entry_size c \<le> ce_size e" and w: "c_insert c = Some w"
  shows "\<exists>d L'. cache_insert a c = Some d \<and> cinv d L' {} \<and> keeps c d
    \<and> view d L' = a_add (ent_data e) w (view c L) \<and> c_hash d (ce_id e) = Some a \<and> c_insert d = Some w"
proof -
  obtain d L1 where 1: "make_room c = Some d" "cinv d L1 {}" "preserves c L d L1"
    "view d L1 = a_make_room (view c L)" "other_fields d = other_fields c"
    using make_room_refines [OF inv] by blast
  obtain f where f: "c_mem d a = Some f" "ent_data f = ent_data e"
    using 1(3) a(1,2) unfolding preserves_def by fastforce
  have "a < c_brk c" using inv a(2) by (auto simp: cinv_def)
  then have "a \<notin> listed L1" using 1(3) a(1) by (auto simp: preserves_def)
  moreover have "c_hash d (ce_id f) = None"
    using a_ids_view [OF 1(2)] a_ids_view [OF inv] a_ids_make_room [of "view c L"] 1(4) a(3) f(2)
    by (metis ent_data_def prod.inject subsetD)
  moreover have "c_entry_size d \<le> ce_size f" using size f(2) 1(5) by (simp add: other_fields_def ent_data_def)
  ultimately obtain d2 where d2: "cache_insert_mru True w a d = Some d2" "cinv d2 (L1(w := a # L1 w)) {}" "keeps d d2"
    "view d2 (L1(w := a # L1 w)) = a_put w (ent_data f # a_list (view d L1) w) (view d L1)" "c_hash d2 (ce_id f) = Some a"
    using cinv_add [OF 1(2) _ f(1)] by blast
  have "c_insert d = Some w" using w 1(5) by (simp add: other_fields_def)
  moreover have "c_insert d2 = c_insert d"
    using arg_cong [OF d2(4), of a_insert] by (simp add: a_put_def)
  moreover have "keeps c d2" by (rule keeps_trans [OF preserves_keeps [OF 1(3)] d2(3)])
  ultimately show ?thesis using 1 d2 f(2)
    by (intro exI [of _ d2] exI [of _ "L1(w := a # L1 w)"]) (simp add: cache_insert_make_room a_add_def ent_data_def Let_def)
qed

end
