(* ===== verification/Cache_Spec.thy ===== *)
theory Cache_Spec
  imports Cache_Refine
begin

text \<open>
  What the users of the cache may rely on: every state reached through the interface satisfies the
  invariant, operations return, entries in use stay where they are, what was inserted is found
  again, flushed ids are gone, and destroying the cache frees all its entries.
\<close>

section \<open>Allocation, flush and destruction\<close>

definition cache_abs :: "cache \<Rightarrow> arc \<Rightarrow> bool" where
  "cache_abs c s \<longleftrightarrow> (\<exists>L. cinv c L {} \<and> view c L = s)"

lemma cinv_alloc:
  assumes inv: "cinv c L {}"
  shows "cinv (c\<lparr>c_misses := n, c_mem := (c_mem c)(c_brk c \<mapsto> e), c_brk := Suc (c_brk c)\<rparr>) L {}"
    "c_brk c \<notin> listed L"
proof -
  let ?d = "c\<lparr>c_misses := n, c_mem := (c_mem c)(c_brk c \<mapsto> e), c_brk := Suc (c_brk c)\<rparr>"
  have none: "c_mem c (c_brk c) = None" using inv by (auto simp: cinv_def dom_def)
  then show nl: "c_brk c \<notin> listed L"
    using rep_alloc [OF cinv_rep [OF inv]] by (fastforce simp: listed_def)
  have "rep ?d L" by (rule rep_mem_cong [OF cinv_rep [OF inv]]) (use nl in auto)
  moreover have "c_hash c i = Some a \<longleftrightarrow> a \<in> listed L \<and> map_option ce_id (c_mem ?d a) = Some i" for i a
    using inv nl by (auto simp: cinv_def)
  moreover have "ent_size (c_mem ?d) a = ent_size (c_mem c) a" if "a \<in> listed L" for a
    using that nl by (auto simp: ent_size_def)
  ultimately show "cinv ?d L {}"
    using inv unfolding cinv_def by (auto simp: dom_def less_Suc_eq)
qed

lemma view_alloc:
  assumes inv: "cinv c L {}"
  shows "view (c\<lparr>c_misses := n, c_mem := (c_mem c)(c_brk c \<mapsto> e), c_brk := Suc (c_brk c)\<rparr>) L = view c L"
  using cinv_alloc(2) [OF inv] by (intro view_cong) auto

lemma insert_new_refines:
  assumes inv: "cinv c L {}" and i: "length i = nat (c_id_size c)" "c_hash c i = None" "0 \<le> sz" "c_insert c = Some w"
  shows "\<exists>a d L'. cache_insert_new i sz c = Some (a, d) \<and> cinv d L' {} \<and> keeps c d
    \<and> view d L' = a_add (1, sz + c_entry_size c, i) w (view c L) \<and> c_hash d i = Some a \<and> c_insert d = Some w
    \<and> c_mem c a = None"
proof -
  let ?e = "\<lparr>ce_usage = 1, ce_size = sz + c_entry_size c, ce_where = None, ce_next = None, ce_prev = None, ce_id = i\<rparr>"
  let ?c = "c\<lparr>c_misses := c_misses c + (sz + c_entry_size c), c_mem := (c_mem c)(c_brk c \<mapsto> ?e), c_brk := Suc (c_brk c)\<rparr>"
  have none: "c_mem c (c_brk c) = None" using inv by (auto simp: cinv_def dom_def)
  have new: "cache_entry_new i sz c = (c_brk c, ?c)" using i(1) by (simp add: cache_entry_new_def Let_def)
  have inv': "cinv ?c L {}" by (rule cinv_alloc(1) [OF inv])
  obtain d L' where d: "cache_insert (c_brk c) ?c = Some d" "cinv d L' {}" "keeps ?c d"
    "view d L' = a_add (ent_data ?e) w (view ?c L)" "c_hash d i = Some (c_brk c)" "c_insert d = Some w"
    using cache_insert_refines [OF inv' cinv_alloc(2) [OF inv], of ?e w] i by auto
  have "keeps c ?c" using none by (auto simp: keeps_def)
  then have "keeps c d" using d(3) by (rule keeps_trans)
  then show ?thesis using d new none view_alloc [OF inv]
    by (intro exI [of _ "c_brk c"] exI [of _ d] exI [of _ L']) (simp add: cache_insert_new_def ent_data_def)
qed

lemma a_lookup_miss_ids:
  assumes "\<And>v w. a_has s v i \<Longrightarrow> a_has s w i \<Longrightarrow> v = w" "\<not> fst (a_lookup i s)"
  shows "i \<notin> a_ids (snd (a_lookup i s))"
proof -
  have ids: "i \<in> a_ids t \<longleftrightarrow> (\<exists>w. a_has t w i)" for t by (auto simp: a_ids_def a_has_def)
  have "i \<notin> a_ids (a_forget w i (s\<lparr>a_target := t\<rparr>))" if "a_has s w i" for w t
  proof -
    have "\<not> a_has (a_forget w i (s\<lparr>a_target := t\<rparr>)) v i" for v
      using assms(1) [OF that, of v] by (cases "v = w") (auto simp: a_has_def a_forget_def a_put_def)
    then show ?thesis by (simp add: ids)
  qed
  moreover have "a_ids (x\<lparr>a_insert := k\<rparr>) = a_ids x" for x k by (simp add: a_ids_def)
  ultimately have forget: "i \<notin> a_ids ((a_replace (a_forget w i (s\<lparr>a_target := t\<rparr>)))\<lparr>a_insert := k\<rparr>)"
    if "a_has s w i" for w t k
    using that a_ids_replace by (metis subsetD)
  have t: "\<not> a_has s T1 i" "\<not> a_has s T2 i" using assms(2) by (auto simp: a_lookup_def Let_def split: if_splits)
  show ?thesis
  proof (cases "a_has s B1 i \<or> a_has s B2 i")
    case True
    then show ?thesis using t forget by (auto simp: a_lookup_def Let_def)
  next
    case False
    then have "\<not> a_has s w i" for w using t by (cases w) auto
    then show ?thesis using False t ids by (simp add: a_lookup_def Let_def a_ids_def a_has_def)
  qed
qed

lemma a_has_unique:
  assumes inv: "cinv c L {}" and "a_has (view c L) v i" "a_has (view c L) w i"
  shows "v = w"
proof -
  obtain a where a: "c_hash c i = Some a" using a_has_none [OF inv] assms(2) by fastforce
  then obtain e u where "c_mem c a = Some e" "ce_where e = Some u" using hash_listed [OF inv] by blast
  then show ?thesis using a_has_where [OF inv a] assms(2,3) by metis
qed

lemma lookup_miss_hash:
  assumes inv: "cinv c L {}" and "cache_lookup i c = Some (None, d)"
  shows "c_hash d i = None"
proof -
  obtain L' where L': "cinv d L' {}" "(False, view d L') = a_lookup i (view c L)"
    using cache_lookup_refines [OF inv, of i] assms(2) by auto
  then have "\<not> fst (a_lookup i (view c L))" "view d L' = snd (a_lookup i (view c L))" by (metis fst_conv, metis snd_conv)
  then have "i \<notin> a_ids (view d L')" using a_lookup_miss_ids a_has_unique [OF inv] by metis
  then show ?thesis using a_ids_view [OF L'(1)] by simp
qed

lemma cache_flush_spec:
  assumes inv: "cinv c L {}"
  shows "\<exists>d L'. cache_flush i c = Some d \<and> cinv d L' {} \<and> c_hash d i = None
    \<and> a_list (view d L') = (\<lambda>w. filter (\<lambda>e. a_id e \<noteq> i) (a_list (view c L) w))
    \<and> other_fields d = other_fields c \<and> c_t1_target d = c_t1_target c"
proof (cases "c_hash c i")
  case None
  then have "filter (\<lambda>e. a_id e \<noteq> i) (a_list (view c L) w) = a_list (view c L) w" for w
    using a_has_none [OF inv None, of w] by (auto simp: a_has_def filter_id_conv)
  then show ?thesis using None inv by (intro exI [of _ c] exI [of _ L]) (simp add: cache_flush_def del: view_simps)
next
  case (Some a)
  obtain e w us vs where e: "c_mem c a = Some e" "ce_id e = i" "ce_where e = Some w" "L w = us @ a # vs"
    using hash_listed [OF inv Some] by blast
  obtain d where d: "cache_remove_from_list w a c = Some d" "cinv d (L(w := us @ vs)) {a}" "same_data c d"
    using cinv_unlink [OF inv e(4)] by blast
  let ?L = "L(w := us @ vs)"
  obtain d2 f where f: "c_mem d a = Some f" and d2: "cache_remove a d = Some d2" "cinv d2 ?L {}"
    "d2 = d\<lparr>c_hash := (c_hash d)(ce_id f := None), c_mem := (c_mem d)(a := None)\<rparr>"
    using cinv_remove [OF d(2), of a] by auto
  have fi: "ce_id f = i" using same_data_usage [OF d(3) e(1)] f e(2) by auto
  have "view d2 ?L = view d ?L" using d2(2,3) d(2) by (intro view_cong) (auto simp: cinv_def)
  then have "view d2 ?L = a_put w (filter (\<lambda>e. a_id e \<noteq> i) (a_list (view c L) w)) (view c L)"
    using filter_id(1) [OF inv e(4,1)] e(2) by (simp add: view_same [OF d(3)] del: view_simps)
  moreover have "filter (\<lambda>e. a_id e \<noteq> i) (a_list (view c L) v) = a_list (view c L) v" if "v \<noteq> w" for v
    using a_has_where [OF inv Some e(1,3), of v] that by (auto simp: a_has_def filter_id_conv)
  ultimately have "a_list (view d2 ?L) = (\<lambda>w. filter (\<lambda>e. a_id e \<noteq> i) (a_list (view c L) w))"
    by (auto simp: a_put_def simp del: view_simps)
  moreover have "cache_flush i c = Some d2" using Some e d(1) d2(1) by (simp add: cache_flush_def)
  moreover have "c_hash d2 i = None" using d2(3) fi by simp
  moreover have "other_fields d2 = other_fields c" "c_t1_target d2 = c_t1_target c"
    using d2(3) same_data_other [OF d(3)] d(3) by (simp_all add: other_fields_def same_data_def)
  ultimately show ?thesis using d2(2) by blast
qed

lemma drain_chain:
  "chain (c_mem c) w p xs None \<Longrightarrow> distinct xs \<Longrightarrow>
     cache_drain_entries (hd_opt xs) c = Some (c\<lparr>c_mem := (c_mem c) |` (- set xs)\<rparr>)"
proof (induction xs arbitrary: c p)
  case Nil
  then show ?case by (simp add: cache_drain_entries.simps)
next
  case (Cons a xs)
  then obtain e where e: "c_mem c a = Some e" "ce_next e = hd_opt xs" by (cases xs) auto
  let ?c = "c\<lparr>c_mem := (c_mem c)(a := None)\<rparr>"
  have ch: "chain (c_mem ?c) w (Some a) xs None" using Cons.prems by auto
  have "cache_drain_entries (hd_opt xs) ?c = Some (?c\<lparr>c_mem := (c_mem ?c) |` (- set xs)\<rparr>)"
    by (rule Cons.IH [OF ch]) (use Cons.prems(2) in simp)
  moreover have "((c_mem c)(a := None)) |` (- set xs) = (c_mem c) |` (- set (a # xs))"
    by (auto simp: restrict_map_def)
  ultimately show ?case using e by (simp add: cache_drain_entries.simps [of "Some a"])
qed

lemma cache_list_drain_eq:
  "list_rep c w xs \<Longrightarrow> cache_list_drain w c =
     Some (upd_list w (\<lambda>_. empty_list) (c\<lparr>c_mem := (c_mem c) |` (- set xs)\<rparr>))"
  using drain_chain [of c w None xs] by (simp add: cache_list_drain_def list_rep_def)

lemma list_rep_restrict:
  assumes "list_rep c v xs" "v \<noteq> w" "set xs \<inter> set ys = {}"
  shows "list_rep (upd_list w f (c\<lparr>c_mem := (c_mem c) |` (- set ys)\<rparr>)) v xs"
proof -
  let ?m = "(c_mem c) |` (- set ys)"
  have eq: "\<And>x. x \<in> set xs \<Longrightarrow> ?m x = c_mem c x" using assms(3) by (auto simp: restrict_map_def)
  then have "chain ?m v None xs None = chain (c_mem c) v None xs None" by (intro chain_cong)
  moreover have sz: "map (ent_size ?m) xs = map (ent_size (c_mem c)) xs" using eq by (auto simp: ent_size_def)
  ultimately show ?thesis using assms(1,2) unfolding list_rep_def by (simp add: upd_list_def sz del: map_eq_conv)
qed

lemma cache_destroy_spec:
  assumes "cinv c L {}"
  shows "cache_destroy c = Some ((c_mem c) |` (- listed L))"
proof -
  note rep = cinv_rep [OF assms]
  let ?d = "\<lambda>w ys c. upd_list w (\<lambda>_. empty_list) (c\<lparr>c_mem := (c_mem c) |` (- set ys)\<rparr>)"
  define c1 where "c1 = ?d T1 (L T1) c"
  define c2 where "c2 = ?d B1 (L B1) c1"
  define c3 where "c3 = ?d T2 (L T2) c2"
  have dis: "set (L v) \<inter> set (L w) = {}" if "v \<noteq> w" for v w using rep_disjoint [OF rep that] .
  have l1: "list_rep c1 v (L v)" if "v \<noteq> T1" for v
    unfolding c1_def by (rule list_rep_restrict [OF rep_listD [OF rep] that dis [OF that]])
  have l2: "list_rep c2 v (L v)" if "v \<noteq> T1" "v \<noteq> B1" for v
    unfolding c2_def by (rule list_rep_restrict [OF l1 [OF that(1)] that(2) dis [OF that(2)]])
  have l3: "list_rep c3 v (L v)" if "v \<noteq> T1" "v \<noteq> B1" "v \<noteq> T2" for v
    unfolding c3_def by (rule list_rep_restrict [OF l2 [OF that(1,2)] that(3) dis [OF that(3)]])
  have "cache_list_drain T1 c = Some c1" unfolding c1_def by (rule cache_list_drain_eq [OF rep_listD [OF rep]])
  moreover have "cache_list_drain B1 c1 = Some c2" unfolding c2_def by (rule cache_list_drain_eq [OF l1]) simp
  moreover have "cache_list_drain T2 c2 = Some c3" unfolding c3_def by (rule cache_list_drain_eq [OF l2]) simp_all
  moreover have "cache_list_drain B2 c3 = Some (?d B2 (L B2) c3)" by (rule cache_list_drain_eq [OF l3]) simp_all
  moreover have "c_mem (?d B2 (L B2) c3) = (c_mem c) |` (- listed L)"
  proof -
    have "listed L = set (L T1) \<union> set (L B1) \<union> set (L T2) \<union> set (L B2)"
      unfolding listed_def by (auto; metis cache_where.exhaust)
    then show ?thesis by (simp add: c1_def c2_def c3_def upd_list_def Int_ac)
  qed
  ultimately show ?thesis by (simp add: cache_destroy_def)
qed


section \<open>Reachable states\<close>

text \<open>
  The states a user of the cache can bring about. A user inserts a new entry after the lookup of
  its id has missed (that is how binfile.c uses the cache), and gives back (\<open>cache_entry_destroy\<close>)
  only an entry it holds.
\<close>

inductive cache_reach :: "cache \<Rightarrow> bool" where
  new: "cache_new k sz = Some c \<Longrightarrow> 0 \<le> sz \<Longrightarrow> cache_reach c"
| lookup: "cache_reach c \<Longrightarrow> cache_lookup i c = Some (r, d) \<Longrightarrow> cache_reach d"
| insert: "cache_reach c \<Longrightarrow> length i = nat (c_id_size d) \<Longrightarrow> 0 \<le> sz \<Longrightarrow>
    cache_lookup i c = Some (None, d) \<Longrightarrow> cache_insert_new i sz d = Some (a, e) \<Longrightarrow> cache_reach e"
| destroy: "cache_reach c \<Longrightarrow> c_mem c a = Some e \<Longrightarrow> 0 < ce_usage e \<Longrightarrow>
    cache_entry_destroy a c = Some d \<Longrightarrow> cache_reach d"
| flush: "cache_reach c \<Longrightarrow> cache_flush i c = Some d \<Longrightarrow> cache_reach d"
| resize: "cache_reach c \<Longrightarrow> 0 \<le> n \<Longrightarrow> cache_reach (cache_resize c n)"

lemma ghosts_move:
  assumes "ghosts_idle s" "old \<in> {T1, T2}"
  shows "ghosts_idle (snd (a_move old new s))"
proof (cases "evict a_used (a_list s old)")
  case (Pair r xs)
  show ?thesis
  proof (cases r)
    case None
    then show ?thesis using assms Pair by (simp add: a_move_def)
  next
    case (Some e)
    obtain u z i where e: "e = (u, z, i)" by (cases e) auto
    have "u = 0" using evict_Some [of a_used "a_list s old" e xs] Pair Some e by simp
    then show ?thesis using assms Pair Some e
      by (auto simp: a_move_def ghosts_idle_def a_put_def Let_def)
  qed
qed

lemma ghosts_replace: "ghosts_idle s \<Longrightarrow> ghosts_idle (a_replace s)"
  unfolding a_replace_def
  by (cases "a_move T1 B1 s"; cases "a_move T2 B2 s"; cases "fst (a_move T1 B1 s)"; cases "fst (a_move T2 B2 s)")
    (use ghosts_move [of s T1 B1] ghosts_move [of s T2 B2] ghosts_move [of "snd (a_move T1 B1 s)" T2 B2]
      ghosts_move [of "snd (a_move T2 B2 s)" T1 B1] in auto)

lemma ghosts_put:
  "ghosts_idle s \<Longrightarrow> w \<in> {T1, T2} \<or> (\<forall>e \<in> set xs. \<not> a_used e) \<Longrightarrow> ghosts_idle (a_put w xs s)"
  by (auto simp: ghosts_idle_def a_put_def)

lemma ghosts_sub: "ghosts_idle s \<Longrightarrow> set xs \<subseteq> set (a_list s w) \<Longrightarrow> ghosts_idle (a_put w xs s)"
  by (auto simp: ghosts_idle_def a_put_def split: if_splits)

lemma ghosts_evict: "ghosts_idle s \<Longrightarrow> ghosts_idle (a_evict w s)"
  unfolding a_evict_def by (erule ghosts_sub) (rule evict_sets)

lemma ghosts_forget: "ghosts_idle s \<Longrightarrow> ghosts_idle (a_forget w i s)"
  unfolding a_forget_def by (rule ghosts_sub) auto

lemma ghosts_target [simp]:
  "ghosts_idle (s\<lparr>a_target := t\<rparr>) = ghosts_idle s" "ghosts_idle (s\<lparr>a_insert := k\<rparr>) = ghosts_idle s"
  by (simp_all add: ghosts_idle_def)

lemma ghosts_hit: "ghosts_idle s \<Longrightarrow> ghosts_idle (a_hit w i s)"
  unfolding a_hit_def by (auto simp: Let_def split: list.splits intro!: ghosts_put ghosts_forget)

lemma ghosts_lookup: "ghosts_idle s \<Longrightarrow> ghosts_idle (snd (a_lookup i s))"
  unfolding a_lookup_def Let_def by (auto intro!: ghosts_hit ghosts_replace ghosts_forget)

lemma ghosts_make_room: "ghosts_idle s \<Longrightarrow> ghosts_idle (a_make_room s)"
  unfolding a_make_room_def Let_def by (auto intro!: ghosts_replace ghosts_evict)

lemma ghosts_add: "ghosts_idle s \<Longrightarrow> w \<in> {T1, T2} \<Longrightarrow> ghosts_idle (a_add e w s)"
  unfolding a_add_def Let_def by (auto intro!: ghosts_put ghosts_make_room)

lemma target_move [simp]: "a_target (snd (a_move o1 n s)) = a_target s" "a_insert (snd (a_move o1 n s)) = a_insert s"
  "a_size (snd (a_move o1 n s)) = a_size s"
  by (auto simp: a_move_def a_put_def Let_def split: prod.splits option.splits)

lemma target_replace [simp]: "a_target (a_replace s) = a_target s" "a_insert (a_replace s) = a_insert s"
  "a_size (a_replace s) = a_size s"
  unfolding a_replace_def
  by (auto split: prod.splits bool.splits) (metis snd_conv target_move)+

lemma target_small [simp]:
  "a_target (a_put w xs s) = a_target s" "a_target (a_evict w s) = a_target s" "a_target (a_forget w i s) = a_target s"
  "a_insert (a_put w xs s) = a_insert s" "a_insert (a_evict w s) = a_insert s" "a_insert (a_forget w i s) = a_insert s"
  "a_size (a_put w xs s) = a_size s" "a_size (a_evict w s) = a_size s" "a_size (a_forget w i s) = a_size s"
  by (simp_all add: a_put_def a_evict_def a_forget_def)

lemma target_make_room [simp]: "a_target (a_make_room s) = a_target s" "a_insert (a_make_room s) = a_insert s"
  "a_size (a_make_room s) = a_size s"
  by (auto simp: a_make_room_def Let_def)

lemma target_hit [simp]: "a_target (a_hit w i s) = a_target s" "a_insert (a_hit w i s) = a_insert s"
  "a_size (a_hit w i s) = a_size s"
  by (auto simp: a_hit_def Let_def split: list.splits)

lemma target_lookup:
  assumes "0 \<le> a_target s" "0 \<le> a_size s"
  shows "0 \<le> a_target (snd (a_lookup i s))" "a_size (snd (a_lookup i s)) = a_size s"
  using assms by (auto simp: a_lookup_def Let_def)

lemma insert_lookup: "\<not> fst (a_lookup i s) \<Longrightarrow> a_insert (snd (a_lookup i s)) \<in> {Some T1, Some T2}"
  by (auto simp: a_lookup_def Let_def split: if_splits)

text \<open>What holds in every reachable state.\<close>

definition cache_good :: "cache \<Rightarrow> bool" where
  "cache_good c \<longleftrightarrow> (\<exists>L. cinv c L {} \<and> ghosts_idle (view c L)) \<and> 0 \<le> c_t1_target c \<and> 0 \<le> c_size c"


lemma cache_good_new:
  assumes "cache_new k sz = Some c" "0 \<le> sz"
  shows "cache_good c"
proof -
  have c: "c_list c = (\<lambda>_. empty_list)" "c_hash c = Map.empty" "c_mem c = Map.empty" "c_t1_target c = 0"
    "c_size c = sz" "0 < c_entry_size c"
    using assms(1) by (auto simp: cache_new_def cdiv_def sizeof_cache_entry_def split: if_splits)
  have "cinv c (\<lambda>_. []) {}"
    using c by (simp add: cinv_def rep_def list_rep_def empty_list_def listed_def)
  moreover have "ghosts_idle (view c (\<lambda>_. []))" by (simp add: ghosts_idle_def)
  ultimately show ?thesis using c assms(2) by (auto simp: cache_good_def)
qed

lemma cache_good_lookup:
  assumes "cache_good c" "cache_lookup i c = Some (r, d)"
  shows "cache_good d \<and> keeps c d \<and> (r = None \<longrightarrow> c_insert d \<in> {Some T1, Some T2} \<and> c_hash d i = None)"
proof -
  obtain L where L: "cinv c L {}" "ghosts_idle (view c L)" "0 \<le> c_t1_target c" "0 \<le> c_size c"
    using assms(1) by (auto simp: cache_good_def)
  obtain L' where L': "cinv d L' {}" "(r \<noteq> None, view d L') = a_lookup i (view c L)" "keeps c d"
    using cache_lookup_refines [OF L(1), of i] L(2) assms(2) by auto
  have v: "fst (a_lookup i (view c L)) = (r \<noteq> None)" "snd (a_lookup i (view c L)) = view d L'"
    by (simp_all flip: L'(2))
  have "ghosts_idle (view d L')" using ghosts_lookup [OF L(2), of i] v by simp
  moreover have "0 \<le> c_t1_target d" "0 \<le> c_size d" using target_lookup [of "view c L" i] L v by simp_all
  moreover have "r = None \<longrightarrow> c_insert d \<in> {Some T1, Some T2}" using insert_lookup [of i "view c L"] v by auto
  ultimately show ?thesis using L' L(4) lookup_miss_hash [OF L(1), of i d] assms(2)
    by (auto simp: cache_good_def)
qed


lemma cache_good_insert_new:
  assumes "cache_good c" "length i = nat (c_id_size c)" "c_hash c i = None" "0 \<le> sz" "c_insert c = Some w" "w \<in> {T1, T2}"
  shows "\<exists>a d. cache_insert_new i sz c = Some (a, d) \<and> cache_good d \<and> keeps c d \<and> c_hash d i = Some a \<and> c_mem c a = None"
proof -
  obtain L where L: "cinv c L {}" "ghosts_idle (view c L)" "0 \<le> c_t1_target c" "0 \<le> c_size c"
    using assms(1) by (auto simp: cache_good_def)
  obtain a d L' where d: "cache_insert_new i sz c = Some (a, d)" "cinv d L' {}" "keeps c d"
    "view d L' = a_add (1, sz + c_entry_size c, i) w (view c L)" "c_hash d i = Some a" "c_mem c a = None"
    using insert_new_refines [OF L(1) assms(2-5)] by blast
  have "ghosts_idle (view d L')" unfolding d(4) by (rule ghosts_add [OF L(2) assms(6)])
  moreover have "c_t1_target d = c_t1_target c" "c_size d = c_size c"
    using arg_cong [OF d(4), of a_target] arg_cong [OF d(4), of a_size] by (simp_all add: a_add_def Let_def)
  ultimately show ?thesis using d L(3,4) by (auto simp: cache_good_def)
qed

lemma cache_good_destroy:
  assumes "cache_good c" "c_mem c a = Some e" "0 < ce_usage e" "cache_entry_destroy a c = Some d"
  shows "cache_good d"
proof -
  obtain L where L: "cinv c L {}" "ghosts_idle (view c L)" "0 \<le> c_t1_target c" "0 \<le> c_size c"
    using assms(1) by (auto simp: cache_good_def)
  have d: "d = c\<lparr>c_mem := (c_mem c)(a \<mapsto> e\<lparr>ce_usage := ce_usage e - 1\<rparr>)\<rparr>"
    using assms(2,4) by (simp add: cache_entry_destroy_def upd_ent_def)
  have "aent_of d x = aent_of c x" if "x \<in> set (L w)" "w \<in> {B1, B2}" for x w
  proof -
    have "\<not> a_used (aent_of c x)" using L(2) that by (auto simp: ghosts_idle_def)
    then have "x \<noteq> a" using assms(2,3) by (auto simp: aent_of_def ent_data_def)
    then show ?thesis by (simp add: d aent_of_def)
  qed
  then have "ghosts_idle (view d L)" using L(2) by (auto simp: ghosts_idle_def)
  moreover have "cinv d L {}" unfolding d by (rule cinv_usage [OF L(1) assms(2)])
  ultimately show ?thesis using L(3,4) by (auto simp: cache_good_def d)
qed

lemma cache_good_flush:
  assumes "cache_good c" "cache_flush i c = Some d"
  shows "cache_good d"
proof -
  obtain L where L: "cinv c L {}" "ghosts_idle (view c L)" "0 \<le> c_t1_target c" "0 \<le> c_size c"
    using assms(1) by (auto simp: cache_good_def)
  obtain L' where L': "cinv d L' {}" "a_list (view d L') = (\<lambda>w. filter (\<lambda>e. a_id e \<noteq> i) (a_list (view c L) w))"
    "other_fields d = other_fields c" "c_t1_target d = c_t1_target c"
    using cache_flush_spec [OF L(1), of i] assms(2) by auto
  have "ghosts_idle (view d L')" using L(2) unfolding ghosts_idle_def L'(2) by auto
  then show ?thesis using L' L(3,4) by (auto simp: cache_good_def other_fields_def)
qed

lemma cache_reach_good: "cache_reach c \<Longrightarrow> cache_good c"
proof (induction rule: cache_reach.induct)
  case (insert c i d sz a e)
  then have "cache_good d" "c_insert d \<in> {Some T1, Some T2}" "c_hash d i = None"
    using cache_good_lookup by blast+
  then show ?case using cache_good_insert_new [of d i sz] insert by fastforce
next
  case (resize c n)
  then obtain L where "cinv c L {}" "ghosts_idle (view c L)" "0 \<le> c_t1_target c" by (auto simp: cache_good_def)
  then have "cinv (cache_resize c n) L {}" "ghosts_idle (view (cache_resize c n) L)" "0 \<le> c_t1_target (cache_resize c n)"
    using rep_mem_cong [OF cinv_rep, of c L "{}" "cache_resize c n"]
    by (auto simp: cache_resize_def cinv_def ghosts_idle_def aent_of_def)
  then show ?case using resize by (auto simp: cache_good_def cache_resize_def)
qed (auto dest: cache_good_new cache_good_lookup cache_good_destroy cache_good_flush)


section \<open>Properties\<close>

text \<open>A small cache for the witnesses: 4-byte ids, 100 bytes, and one entry (id 7) in use.\<close>

definition cache_example0 :: cache where
  "cache_example0 = \<lparr>c_list = (\<lambda>_. empty_list), c_insert = None, c_size = 100, c_id_size = 1,
     c_entry_size = 36, c_t1_target = 0, c_misses = 0, c_hits = 0, c_hash = Map.empty, c_mem = Map.empty, c_brk = 0\<rparr>"

definition cache_example1 :: cache where
  "cache_example1 = \<lparr>c_list = (\<lambda>_. empty_list)(T1 := \<lparr>cl_first = Some 0, cl_last = Some 0, cl_size = 46\<rparr>),
     c_insert = Some T1, c_size = 100, c_id_size = 1, c_entry_size = 36, c_t1_target = 0, c_misses = 46, c_hits = 0,
     c_hash = [[7] \<mapsto> 0],
     c_mem = [0 \<mapsto> \<lparr>ce_usage = 1, ce_size = 46, ce_where = Some T1, ce_next = None, ce_prev = None, ce_id = [7]\<rparr>],
     c_brk = 1\<rparr>"

lemma cache_example_new: "cache_new 4 100 = Some cache_example0"
  by (simp add: cache_new_def cache_example0_def cdiv_def sizeof_cache_entry_def)

lemma cache_example_miss: "cache_lookup [7] cache_example0 = Some (None, cache_example0\<lparr>c_insert := Some T1\<rparr>)"
  by (simp add: cache_lookup_def cache_example0_def)

lemma cache_example_insert:
  "cache_insert_new [7] 10 (cache_example0\<lparr>c_insert := Some T1\<rparr>) = Some (0, cache_example1)"
  by (simp add: cache_insert_new_def cache_insert_def cache_entry_new_def cache_example0_def cache_example1_def Let_def
      empty_list_def cache_insert_mru_def upd_ent_def upd_list_def)

lemma cache_example_reach: "cache_reach cache_example0" "cache_reach cache_example1"
proof -
  show r: "cache_reach cache_example0" by (rule cache_reach.new [OF cache_example_new]) simp
  show "cache_reach cache_example1"
    by (rule cache_reach.insert [OF r _ _ cache_example_miss cache_example_insert]) (simp_all add: cache_example0_def)
qed

lemma cache_example_abs:
  "cache_abs cache_example1 \<lparr>a_list = (\<lambda>_. [])(T1 := [(1, 46, [7])]), a_insert = Some T1, a_size = 100, a_entry = 36, a_target = 0\<rparr>"
proof -
  let ?L = "(\<lambda>_. [])(T1 := [0 :: nat])"
  have "listed ?L = {0}" by (auto simp: listed_def)
  then have "cinv cache_example1 ?L {}"
    by (auto simp: cinv_def rep_def list_rep_def cache_example1_def empty_list_def ent_size_def)
  moreover have "view cache_example1 ?L = \<lparr>a_list = (\<lambda>_. [])(T1 := [(1, 46, [7])]), a_insert = Some T1, a_size = 100, a_entry = 36, a_target = 0\<rparr>"
    by (auto simp: view_def cache_example1_def aent_of_def ent_data_def)
  ultimately show ?thesis by (auto simp: cache_abs_def)
qed


text \<open>C20: \<open>cache_lookup\<close> never touches memory that is not allocated, ends, and computes what the
  abstract cache says: a hit in T1 or T2 moves the entry to the front of T2, a hit in a phantom list
  adapts the target size, makes room and forgets the phantom, and anything else is a plain miss.\<close>

theorem cache_lookup_refinement:
  assumes "cache_abs c s"
  shows "\<exists>r d. cache_lookup i c = Some (r, d) \<and> cache_abs d (snd (a_lookup i s)) \<and> (r \<noteq> None \<longleftrightarrow> fst (a_lookup i s))"
proof -
  obtain L where L: "cinv c L {}" "view c L = s" using assms by (auto simp: cache_abs_def)
  obtain r d L' where "cache_lookup i c = Some (r, d)" "cinv d L' {}" "(r \<noteq> None, view d L') = a_lookup i s"
    using cache_lookup_refines [OF L(1), of i] L(2) by auto
  then show ?thesis by (intro exI [of _ r] exI [of _ d]) (auto simp: cache_abs_def simp flip: \<open>_ = a_lookup i s\<close>)
qed

theorem cache_lookup_refinement_witness:
  "\<exists>r d. cache_lookup [7] cache_example1 = Some (r, d) \<and> r \<noteq> None"
  using cache_lookup_refinement [OF cache_example_abs, of "[7]"] by (auto simp: a_lookup_def a_has_def Let_def)



text \<open>C33: an entry somebody holds (\<open>usage > 0\<close>) keeps its address, size and id through any lookup and
  through the insertion that follows a miss: the cache never frees or moves data in use.\<close>

theorem cache_in_use_safe:
  assumes "cache_reach c" and "c_mem c x = Some e" and "0 < ce_usage e"
    and "cache_lookup i c = Some (r, d)"
  shows "(\<exists>f. c_mem d x = Some f \<and> ce_id f = ce_id e \<and> ce_size f = ce_size e \<and> ce_usage e \<le> ce_usage f)
    \<and> (r = None \<and> length i = nat (c_id_size d) \<and> 0 \<le> sz \<longrightarrow>
         (\<exists>a d' f. cache_insert_new i sz d = Some (a, d') \<and> a \<noteq> x \<and> c_mem d' x = Some f
            \<and> ce_id f = ce_id e \<and> ce_size f = ce_size e \<and> ce_usage e \<le> ce_usage f))"
proof -
  note d = cache_good_lookup [OF cache_reach_good [OF assms(1)] assms(4)]
  obtain f where f: "c_mem d x = Some f" "ce_id f = ce_id e" "ce_size f = ce_size e" "ce_usage e \<le> ce_usage f"
    using d assms(2,3) unfolding keeps_def by blast
  have "\<exists>a d' g. cache_insert_new i sz d = Some (a, d') \<and> a \<noteq> x \<and> c_mem d' x = Some g
      \<and> ce_id g = ce_id e \<and> ce_size g = ce_size e \<and> ce_usage e \<le> ce_usage g"
    if "r = None" "length i = nat (c_id_size d)" "0 \<le> sz"
  proof -
    note t = that
    have "cache_good d" "c_insert d \<in> {Some T1, Some T2}" "c_hash d i = None" using d t(1) by auto
    then obtain a d' where "cache_insert_new i sz d = Some (a, d')" "keeps d d'" "c_mem d a = None"
      using cache_good_insert_new [of d i sz] t(2,3) by fastforce
    moreover from this obtain g where "c_mem d' x = Some g" "ce_id g = ce_id f" "ce_size g = ce_size f" "ce_usage f \<le> ce_usage g"
      using f assms(3) unfolding keeps_def by fastforce
    ultimately show ?thesis using f by force
  qed
  with f show ?thesis by blast
qed

theorem cache_in_use_safe_witness:
  "\<exists>f. c_mem (snd (the (cache_lookup [8] cache_example1))) 0 = Some f \<and> ce_id f = [7]"
proof -
  have l: "cache_lookup [8] cache_example1 = Some (None, cache_example1)"
    by (simp add: cache_lookup_def cache_example1_def)
  have "c_mem cache_example1 0 = Some \<lparr>ce_usage = 1, ce_size = 46, ce_where = Some T1, ce_next = None, ce_prev = None, ce_id = [7]\<rparr>"
    by (simp add: cache_example1_def)
  from cache_in_use_safe [OF cache_example_reach(2) this _ l, of 0] show ?thesis by (auto simp add: l)
qed

text \<open>After a miss, the inserted entry is found again at the address \<open>cache_insert_new\<close> returned.\<close>

theorem cache_insert_then_lookup:
  assumes "cache_reach c" and "cache_lookup i c = Some (None, d)" and "length i = nat (c_id_size d)" and "0 \<le> sz"
  shows "\<exists>a e f. cache_insert_new i sz d = Some (a, e) \<and> cache_lookup i e = Some (Some a, f)"
proof -
  note d = cache_good_lookup [OF cache_reach_good [OF assms(1)] assms(2)]
  then obtain w L where w: "c_insert d = Some w" "w \<in> {T1, T2}" "c_hash d i = None" and L: "cinv d L {}"
    by (auto simp: cache_good_def)
  obtain a e L' where e: "cache_insert_new i sz d = Some (a, e)" "cinv e L' {}" "c_hash e i = Some a"
    "view e L' = a_add (1, sz + c_entry_size d, i) w (view d L)"
    using insert_new_refines [OF L assms(3) w(3) assms(4) w(1)] by blast
  obtain g v where g: "c_mem e a = Some g" "ce_where g = Some v" using hash_listed [OF e(2,3)] by blast
  have "a_has (view e L') w i" unfolding e(4) by (simp add: a_has_def a_add_def a_put_def Let_def)
  then have "v = w" using a_has_where [OF e(2,3) g] by simp
  then obtain f where "cache_lookup i e = Some (Some a, f)" using cinv_hit [OF e(2,3) g] w(2) by blast
  with e(1) show ?thesis by blast
qed

theorem cache_insert_then_lookup_witness:
  "\<exists>a e f. cache_insert_new [7] 10 (cache_example0\<lparr>c_insert := Some T1\<rparr>) = Some (a, e) \<and> cache_lookup [7] e = Some (Some a, f)"
  by (rule cache_insert_then_lookup [OF cache_example_reach(1) cache_example_miss]) (simp_all add: cache_example0_def)

text \<open>Flushing an id removes it and nothing else, and the next lookup of it is a plain miss;
  destroying the cache frees exactly the entries its lists hold.\<close>

theorem cache_flush_destroy:
  assumes "cache_abs c s"
  shows "\<exists>d. cache_flush i c = Some d \<and> cache_lookup i d = Some (None, d\<lparr>c_insert := Some T1\<rparr>)
      \<and> (\<exists>t. cache_abs d t \<and> (\<forall>w. a_list t w = filter (\<lambda>e. a_id e \<noteq> i) (a_list s w)))
    \<and> (\<exists>m. cache_destroy c = Some m \<and> (\<forall>x j. c_hash c j = Some x \<longrightarrow> m x = None)
         \<and> (\<forall>x. (\<forall>j. c_hash c j \<noteq> Some x) \<longrightarrow> m x = c_mem c x))"
proof -
  obtain L where L: "cinv c L {}" "view c L = s" using assms by (auto simp: cache_abs_def)
  obtain d L' where d: "cache_flush i c = Some d" "cinv d L' {}" "c_hash d i = None"
    "a_list (view d L') = (\<lambda>w. filter (\<lambda>e. a_id e \<noteq> i) (a_list s w))"
    using cache_flush_spec [OF L(1), of i] L(2) by auto
  have "cache_abs d (view d L') \<and> (\<forall>w. a_list (view d L') w = filter (\<lambda>e. a_id e \<noteq> i) (a_list s w))"
    using d(2,4) by (auto simp: cache_abs_def simp del: view_simps)
  moreover have "cache_lookup i d = Some (None, d\<lparr>c_insert := Some T1\<rparr>)" using d(3) by (simp add: cache_lookup_def)
  moreover have "x \<in> listed L \<longleftrightarrow> (\<exists>j. c_hash c j = Some x)" for x
  proof
    assume x: "x \<in> listed L"
    obtain e where "c_mem c x = Some e" using rep_alloc [OF cinv_rep [OF L(1)]] x by (auto simp: listed_def)
    then show "\<exists>j. c_hash c j = Some x" using cinv_hash [OF L(1), of x e] x by blast
  qed (use L(1) in \<open>auto simp: cinv_def\<close>)
  ultimately show ?thesis
    using d(1) cache_destroy_spec [OF L(1)] by (auto simp: restrict_map_def)
qed

theorem cache_flush_destroy_witness:
  "\<exists>d. cache_flush [7] cache_example1 = Some d \<and> cache_lookup [7] d = Some (None, d\<lparr>c_insert := Some T1\<rparr>)"
  using cache_flush_destroy [OF cache_example_abs, of "[7]"] by blast

text \<open>C19: from \<open>cache_new\<close> on, whatever the sequence of lookups, insertions after a miss, releases,
  flushes and resizes, the lists, the hash table and the allocated memory stay consistent, phantom
  entries are never in use and the target size never gets negative.\<close>

theorem cache_reachable_invariant:
  assumes "cache_reach c"
  shows "cache_inv c \<and> 0 \<le> c_t1_target c
    \<and> (\<forall>i a e. c_hash c i = Some a \<longrightarrow> c_mem c a = Some e \<longrightarrow> ce_where e \<in> {Some B1, Some B2} \<longrightarrow> ce_usage e = 0)"
proof -
  obtain L where L: "cinv c L {}" "ghosts_idle (view c L)" "0 \<le> c_t1_target c"
    using cache_reach_good [OF assms] by (auto simp: cache_good_def)
  have "ce_usage e = 0" if "c_hash c i = Some a" "c_mem c a = Some e" "ce_where e = Some w" "w = B1 \<or> w = B2" for i a e w
  proof -
    note t = that
    obtain us vs where "L w = us @ a # vs" using hash_listed [OF L(1) t(1)] t(2,3) by auto
    then have "ent_data e \<in> set (a_list (view c L) w)" using t(2) by (simp add: aent_of_def)
    then have "\<not> a_used (ent_data e)" using L(2) t(4) by (auto simp only: ghosts_idle_def)
    then show ?thesis by (simp add: ent_data_def)
  qed
  then show ?thesis using L by (auto simp: cache_inv_def)
qed

theorem cache_reachable_invariant_witness: "cache_inv cache_example1"
  using cache_reachable_invariant [OF cache_example_reach(2)] by blast

end
