(* ===== verification/C_Double.thy ===== *)
theory C_Double
  imports Complex_Main Navit_Prelude
begin

text \<open>
  The C \<open>double\<close> arithmetic the routing costs use: values are rationals, every operation of the
  code is the exact operation followed by \<open>dround\<close>, the IEEE 754 rounding to 53 significant bits
  (to nearest, ties to even), and a conversion to \<open>int\<close> truncates. Overflow to infinity and
  subnormal numbers are outside the model: the sources stay far from both.
\<close>

section \<open>Exponents\<close>

function ilog2 :: "int \<Rightarrow> int" where
  "ilog2 n = (if n < 2 then 0 else 1 + ilog2 (n div 2))"
  by pat_completeness auto
termination by (relation "measure nat") auto

declare ilog2.simps [simp del]

lemma ilog2_bounds: "0 < n \<Longrightarrow> 0 \<le> ilog2 n \<and> 2 ^ nat (ilog2 n) \<le> n \<and> n < 2 ^ Suc (nat (ilog2 n))"
proof (induction n rule: ilog2.induct)
  case (1 n)
  show ?case
  proof (cases "n < 2")
    case False
    then have ih: "0 \<le> ilog2 (n div 2)" "2 ^ nat (ilog2 (n div 2)) \<le> n div 2" "n div 2 < 2 ^ Suc (nat (ilog2 (n div 2)))"
      using 1 by simp_all
    moreover have "ilog2 n = 1 + ilog2 (n div 2)" using False by (subst ilog2.simps) simp
    moreover from this ih have "nat (ilog2 n) = Suc (nat (ilog2 (n div 2)))" by (simp add: nat_add_distrib)
    moreover have "2 * (n div 2) \<le> n" "n < 2 * (n div 2) + 2" by auto
    ultimately show ?thesis by simp
  qed (use 1 in \<open>simp add: ilog2.simps\<close>)
qed

definition flog2 :: "rat \<Rightarrow> int" where
  "flog2 x = (let (n, d) = quotient_of x; e = ilog2 n - ilog2 d
              in if x < 2 powi e then e - 1 else e)"

lemma flog2_bounds:
  assumes "0 < x"
  shows "2 powi flog2 x \<le> x" "x < 2 powi (flog2 x + 1)"
proof -
  obtain n d where q: "quotient_of x = (n, d)" by force
  have d: "0 < d" and x: "x = of_int n / of_int d"
    using quotient_of_denom_pos [OF q] quotient_of_div [OF q] by auto
  have n: "0 < n" using assms d unfolding x by (simp add: zero_less_divide_iff)
  let ?a = "nat (ilog2 n)" and ?b = "nat (ilog2 d)"
  have n2: "2 ^ ?a \<le> n" "n < 2 ^ Suc ?a" and d2: "2 ^ ?b \<le> d" "d < 2 ^ Suc ?b"
    and pos: "0 \<le> ilog2 n" "0 \<le> ilog2 d"
    using ilog2_bounds [OF n] ilog2_bounds [OF d] by auto
  have le: "(2 :: rat) ^ k \<le> of_int m \<longleftrightarrow> 2 ^ k \<le> m" "of_int m < (2 :: rat) ^ k \<longleftrightarrow> m < 2 ^ k" for k m
    by (metis of_int_le_iff of_int_numeral of_int_power, metis of_int_less_iff of_int_numeral of_int_power)
  have nr: "(2 :: rat) ^ ?a \<le> of_int n" "of_int n < (2 :: rat) ^ Suc ?a" using n2 by (simp_all only: le)
  have dr: "(2 :: rat) ^ ?b \<le> of_int d" "of_int d < (2 :: rat) ^ Suc ?b" using d2 by (simp_all only: le)
  define e where "e = ilog2 n - ilog2 d"
  have pw: "(2 :: rat) powi e = 2 ^ ?a / 2 ^ ?b"
    unfolding e_def using pos power_int_diff [of "2 :: rat" "ilog2 n" "ilog2 d"] by (simp add: power_int_def)
  have hi: "x < 2 powi (e + 1)"
  proof -
    have "x < 2 ^ Suc ?a / 2 ^ ?b" unfolding x
      by (rule frac_less) (use nr dr n in auto)
    then show ?thesis by (simp add: pw power_int_add mult.commute)
  qed
  have lo: "2 powi (e - 1) \<le> x"
  proof -
    have "2 ^ ?a / 2 ^ Suc ?b \<le> x" unfolding x
      by (rule frac_le) (use nr dr n d in auto)
    then show ?thesis by (simp add: pw power_int_diff field_simps)
  qed
  have f: "flog2 x = (if x < 2 powi e then e - 1 else e)"
    by (simp add: flog2_def q e_def Let_def)
  show "2 powi flog2 x \<le> x" using lo by (simp add: f)
  show "x < 2 powi (flog2 x + 1)" using hi by (simp add: f)
qed

lemma flog2_mono:
  assumes "0 < x" "x \<le> y" shows "flog2 x \<le> flog2 y"
proof (rule ccontr)
  assume "\<not> ?thesis"
  then have "(2 :: rat) powi (flog2 y + 1) \<le> 2 powi flog2 x"
    by (intro power_int_increasing) auto
  then show False using flog2_bounds [of x] flog2_bounds [of y] assms by linarith
qed

section \<open>Rounding\<close>

definition rne :: "rat \<Rightarrow> int" where
  "rne y = (let f = \<lfloor>y\<rfloor>; r = y - of_int f in
     if r < 1 / 2 then f else if 1 / 2 < r then f + 1 else if even f then f else f + 1)"

definition dround :: "rat \<Rightarrow> rat" where
  "dround x = (if x = 0 then 0 else
     let u = 2 powi (flog2 \<bar>x\<bar> - 52) in of_int (rne (x / u)) * u)"

lemma rne_bounds: "\<lfloor>y\<rfloor> \<le> rne y" "rne y \<le> \<lfloor>y\<rfloor> + 1"
  by (auto simp: rne_def Let_def)

lemma rne_int [simp]: "rne (of_int k) = k"
  by (simp add: rne_def)

lemma rne_mono:
  assumes "x \<le> y" shows "rne x \<le> rne y"
proof (cases "\<lfloor>x\<rfloor> = \<lfloor>y\<rfloor>")
  case True
  then show ?thesis using assms by (auto simp: rne_def Let_def)
next
  case False
  then have "\<lfloor>x\<rfloor> + 1 \<le> \<lfloor>y\<rfloor>" using floor_mono [OF assms] by linarith
  then show ?thesis using rne_bounds [of x] rne_bounds [of y] by linarith
qed

lemma rne_close: "\<bar>of_int (rne y) - y\<bar> \<le> 1 / 2"
  using floor_correct [of y] by (auto simp: rne_def Let_def abs_le_iff)

lemma dround_0 [simp]: "dround 0 = 0" by (simp add: dround_def)

lemma dround_pos_bounds:
  assumes "0 < x"
  shows "2 powi flog2 x \<le> dround x" "dround x \<le> 2 powi (flog2 x + 1)"
proof -
  let ?u = "(2 :: rat) powi (flog2 x - 52)"
  have u: "0 < ?u" by simp
  have pw: "(2 :: rat) powi k = of_int (2 ^ nat (k - flog2 x + 52)) * ?u" if "flog2 x - 52 \<le> k" for k
  proof -
    have "(2 :: rat) powi k = 2 powi (k - flog2 x + 52) * ?u"
      by (subst power_int_add [symmetric]) auto
    moreover have "(2 :: rat) powi (k - flog2 x + 52) = of_int (2 ^ nat (k - flog2 x + 52))"
      using that by (simp add: power_int_def)
    ultimately show ?thesis by simp
  qed
  have d: "dround x = of_int (rne (x / ?u)) * ?u" using assms by (simp add: dround_def Let_def)
  have "of_int (2 ^ 52) \<le> x / ?u"
    using flog2_bounds(1) [OF assms] pw [of "flog2 x"] u by (simp add: pos_le_divide_eq)
  then have "2 ^ 52 \<le> rne (x / ?u)" using rne_mono rne_int by metis
  then show "2 powi flog2 x \<le> dround x"
    unfolding d pw [of "flog2 x", simplified] using u by simp
  have "x / ?u \<le> of_int (2 ^ 53)"
    using flog2_bounds(2) [OF assms] pw [of "flog2 x + 1"] u by (simp add: pos_divide_le_eq)
  then have "rne (x / ?u) \<le> 2 ^ 53" using rne_mono rne_int by metis
  then show "dround x \<le> 2 powi (flog2 x + 1)"
    unfolding d using pw [of "flog2 x + 1"] u by simp
qed

lemma dround_pos: "0 < x \<Longrightarrow> 0 < dround x"
  using dround_pos_bounds(1) [of x] by (metis zero_less_power_int zero_less_numeral less_le_trans)

lemma dround_nonneg: "0 \<le> x \<Longrightarrow> 0 \<le> dround x"
  using dround_pos [of x] by (cases "x = 0") auto

lemma dround_mono:
  assumes "0 \<le> x" "x \<le> y" shows "dround x \<le> dround y"
proof (cases "x = 0")
  case True
  then show ?thesis using dround_nonneg assms by simp
next
  case False
  then have x: "0 < x" "0 < y" using assms by auto
  show ?thesis
  proof (cases "flog2 x = flog2 y")
    case True
    have "x / 2 powi (flog2 y - 52) \<le> y / 2 powi (flog2 y - 52)"
      using assms by (intro divide_right_mono) auto
    then show ?thesis using x True by (simp add: dround_def Let_def rne_mono mult_right_mono)
  next
    case False
    then have "flog2 x + 1 \<le> flog2 y" using flog2_mono [OF x(1) assms(2)] by linarith
    then have "(2 :: rat) powi (flog2 x + 1) \<le> 2 powi flog2 y" by (intro power_int_increasing) auto
    then show ?thesis using dround_pos_bounds [OF x(1)] dround_pos_bounds [OF x(2)] by linarith
  qed
qed

lemma dround_rel_error:
  assumes "0 \<le> x" shows "\<bar>dround x - x\<bar> \<le> x / 2 ^ 53"
proof (cases "x = 0")
  case False
  then have x: "0 < x" using assms by simp
  let ?u = "(2 :: rat) powi (flog2 x - 52)"
  have u: "0 < ?u" by simp
  have "dround x - x = (of_int (rne (x / ?u)) - x / ?u) * ?u"
    using x u by (simp add: dround_def Let_def left_diff_distrib)
  then have "\<bar>dround x - x\<bar> \<le> 1 / 2 * ?u"
    using rne_close [of "x / ?u"] u by (simp add: abs_mult mult_right_mono)
  also have "\<dots> = 2 powi flog2 x / 2 ^ 53"
    by (simp add: power_int_diff)
  also have "\<dots> \<le> x / 2 ^ 53" using flog2_bounds(1) [OF x] by (simp add: divide_right_mono)
  finally show ?thesis .
qed simp

lemma dround_int_exact:
  assumes "0 \<le> k" "k < 2 ^ 53" shows "dround (of_int k) = of_int k"
proof (cases "k = 0")
  case False
  then have k: "0 < k" using assms by simp
  let ?e = "flog2 (of_int k)"
  have kr: "0 < (of_int k :: rat)" using k by simp
  have "?e < 53"
  proof (rule ccontr)
    assume "\<not> ?thesis"
    then have "(2 :: rat) powi 53 \<le> 2 powi ?e" by (intro power_int_increasing) auto
    also have "\<dots> \<le> of_int k" by (rule flog2_bounds(1) [OF kr])
    finally have "(2 :: rat) ^ 53 \<le> of_int k" by (simp add: power_int_def)
    then have "(of_int (2 ^ 53) :: rat) \<le> of_int k" by simp
    then show False using assms(2) by (simp only: of_int_le_iff)
  qed
  define n where "n = nat (52 - ?e)"
  have u: "(2 :: rat) powi (?e - 52) = inverse (2 ^ n)"
    using \<open>?e < 53\<close> by (cases "?e = 52") (auto simp: power_int_def n_def power_one_over inverse_eq_divide)
  have "of_int k / 2 powi (?e - 52) = (of_int (k * 2 ^ n) :: rat)"
    by (simp add: u divide_inverse)
  then have "rne (of_int k / 2 powi (?e - 52)) = k * 2 ^ n" by (simp only: rne_int)
  moreover have "of_int (k * 2 ^ n) * (2 :: rat) powi (?e - 52) = of_int k"
    by (simp add: u)
  ultimately show ?thesis using kr by (simp add: dround_def Let_def)
qed simp

section \<open>Conversion to int\<close>

text \<open>Truncation; a value that does not fit gives the smallest integer, as the x86 instruction does.\<close>

definition d2i :: "rat \<Rightarrow> int" where
  "d2i x = (let t = (if 0 \<le> x then \<lfloor>x\<rfloor> else - \<lfloor>- x\<rfloor>) in if in_i32 t then t else - 2147483648)"

lemma d2i_nonneg: "0 \<le> x \<Longrightarrow> x < 2147483648 \<Longrightarrow> d2i x = \<lfloor>x\<rfloor>"
  by (auto simp: d2i_def in_i32_def Let_def floor_le_iff le_floor_iff)

lemma in_i32_d2i: "in_i32 (d2i x)"
  by (auto simp: d2i_def Let_def in_i32_def)

end
