(* ===== verification/Route_Graph.thy ===== *)
theory Route_Graph
  imports C_Double
begin

text \<open>
  The route graph of \<open>route.c\<close> and \<open>route_protected.h\<close>: points, segments, the hash table of
  points and the operations that build the graph. A pointer to a point or a segment is the index of
  its slot; \<open>g_pt\<close> and \<open>g_seg\<close> hold the structs, and a linked list of the code
  (\<open>start\<close>, \<open>end\<close>, the hash chains, \<open>route_segments\<close>) is the list of the slots
  it links, newest first as the code prepends.
\<close>

unbundle bit_operations_syntax

section \<open>Access flags and item types\<close>

named_theorems af_defs \<open>values of the access flags, point flags and item types\<close>

definition AF_ONEWAY :: "32 word" where [af_defs]: "AF_ONEWAY = 1"
definition AF_ONEWAYREV :: "32 word" where [af_defs]: "AF_ONEWAYREV = 2"
definition AF_ONEWAYMASK :: "32 word" where [af_defs]: "AF_ONEWAYMASK = 3"
definition AF_SEGMENTED :: "32 word" where [af_defs]: "AF_SEGMENTED = 4"
definition AF_ROUNDABOUT :: "32 word" where [af_defs]: "AF_ROUNDABOUT = 8"
definition AF_ROUNDABOUT_VALID :: "32 word" where [af_defs]: "AF_ROUNDABOUT_VALID = 16"
definition AF_SPEED_LIMIT :: "32 word" where [af_defs]: "AF_SPEED_LIMIT = 64"
definition AF_SIZE_OR_WEIGHT_LIMIT :: "32 word" where [af_defs]: "AF_SIZE_OR_WEIGHT_LIMIT = 256"
definition AF_THROUGH_TRAFFIC_LIMIT :: "32 word" where [af_defs]: "AF_THROUGH_TRAFFIC_LIMIT = 512"
definition AF_DANGEROUS_GOODS :: "32 word" where [af_defs]: "AF_DANGEROUS_GOODS = 0x80000"
definition AF_ALL :: "32 word" where [af_defs]: "AF_ALL = 0xFFF00000"
definition AF_DISTORTIONMASK :: "32 word" where [af_defs]: "AF_DISTORTIONMASK = 0xFFF00003"

definition RP_TRAFFIC_DISTORTION :: "32 word" where [af_defs]: "RP_TRAFFIC_DISTORTION = 1"
definition RP_TURN_RESTRICTION :: "32 word" where [af_defs]: "RP_TURN_RESTRICTION = 2"
definition RP_TURN_RESTRICTION_RESOLVED :: "32 word" where [af_defs]: "RP_TURN_RESTRICTION_RESOLVED = 4"

abbreviation has_flag :: "32 word \<Rightarrow> 32 word \<Rightarrow> bool" where
  "has_flag w f \<equiv> w AND f \<noteq> 0"

definition type_none :: int where [af_defs]: "type_none = 0"
definition route_item_first :: int where [af_defs]: "route_item_first = 0x80000007"
definition route_item_last :: int where [af_defs]: "route_item_last = 0x80000052"
definition type_street_turn_restriction_no :: int where
  [af_defs]: "type_street_turn_restriction_no = 0x80000071"
definition type_street_turn_restriction_only :: int where
  [af_defs]: "type_street_turn_restriction_only = 0x80000072"
definition type_traffic_distortion :: int where
  [af_defs]: "type_traffic_distortion = 0x80000076"

record item =
  it_type :: int
  it_id_hi :: int
  it_id_lo :: int
  it_map :: nat

definition item_is_equal :: "item \<Rightarrow> item \<Rightarrow> bool" where
  "item_is_equal a b \<longleftrightarrow> it_id_hi a = it_id_hi b \<and> it_id_lo a = it_id_lo b \<and> it_map a = it_map b"

lemma item_is_equal_refl [simp]: "item_is_equal a a" by (simp add: item_is_equal_def)

lemma item_is_equal_sym: "item_is_equal a b \<Longrightarrow> item_is_equal b a" by (simp add: item_is_equal_def)

lemma item_is_equal_trans: "item_is_equal a b \<Longrightarrow> item_is_equal b c \<Longrightarrow> item_is_equal a c"
  by (simp add: item_is_equal_def)

section \<open>Data\<close>

record size_weight_limit =
  sw_width :: int
  sw_length :: int
  sw_height :: int
  sw_weight :: int
  sw_axle_weight :: int

text \<open>
  \<open>struct route_segment_data\<close>; the optional fields that follow the struct in memory are the
  words of \<open>sd_tail\<close>.
\<close>

record route_segment_data =
  sd_item :: item
  sd_flags :: "32 word"
  sd_len :: int
  sd_score :: int
  sd_tail :: "int list"

record route_graph_segment_data =
  gd_item :: item
  gd_offset :: int
  gd_flags :: "32 word"
  gd_len :: int
  gd_maxspeed :: int
  gd_size_weight :: size_weight_limit
  gd_dangerous_goods :: int
  gd_score :: int

record route_graph_segment =
  sg_start :: nat
  sg_end :: nat
  sg_data :: route_segment_data

record route_graph_point =
  pt_start :: "nat list"
  pt_end :: "nat list"
  pt_seg :: "nat option"
  pt_el :: "nat option"
  pt_value :: int
  pt_rhs :: int
  pt_dst_val :: int
  pt_dst_seg :: "nat option"
  pt_c :: coord
  pt_flags :: "32 word"

text \<open>
  The Fibonacci heap of \<open>support/fib\<close> is a list of entries (handle, key, point) and the next
  free handle; which of several entries of least key it extracts is a parameter of the operations.
\<close>

record fibheap =
  fh_entries :: "(nat \<times> int \<times> nat) list"
  fh_next :: nat

record route_graph =
  g_pt :: "nat \<Rightarrow> route_graph_point"
  g_np :: nat
  g_seg :: "nat \<Rightarrow> route_graph_segment"
  g_ns :: nat
  g_hash :: "int \<Rightarrow> nat list"
  g_route_segments :: "nat list"
  g_avoid_seg :: "nat option"
  g_heap :: fibheap
  g_busy :: bool

abbreviation seg_item :: "route_graph \<Rightarrow> nat \<Rightarrow> item" where
  "seg_item g s \<equiv> sd_item (sg_data (g_seg g s))"

abbreviation seg_flags :: "route_graph \<Rightarrow> nat \<Rightarrow> 32 word" where
  "seg_flags g s \<equiv> sd_flags (sg_data (g_seg g s))"

abbreviation seg_start :: "route_graph \<Rightarrow> nat \<Rightarrow> nat" where
  "seg_start g s \<equiv> sg_start (g_seg g s)"

abbreviation seg_end :: "route_graph \<Rightarrow> nat \<Rightarrow> nat" where
  "seg_end g s \<equiv> sg_end (g_seg g s)"

section \<open>The optional fields of a segment\<close>

text \<open>\<open>sizeof\<close> of the structs on a 64-bit machine, and of an \<open>int\<close>.\<close>

definition sizeof_route_segment_data :: nat where "sizeof_route_segment_data = 56"

datatype attr_type = attr_maxspeed | attr_offset | attr_vehicle_width | attr_vehicle_dangerous_goods
  | attr_flags | attr_delay | attr_vehicle_height | attr_vehicle_length | attr_vehicle_weight | attr_vehicle_axle_weight

definition route_segment_data_field_pos :: "32 word \<Rightarrow> attr_type \<Rightarrow> nat option" where
  "route_segment_data_field_pos flags t =
     (let p0 = sizeof_route_segment_data;
          p1 = (if has_flag flags AF_SPEED_LIMIT then p0 + 4 else p0);
          p2 = (if has_flag flags AF_SEGMENTED then p1 + 4 else p1);
          p3 = (if has_flag flags AF_SIZE_OR_WEIGHT_LIMIT then p2 + 20 else p2)
      in if has_flag flags AF_SPEED_LIMIT \<and> t = attr_maxspeed then Some p0
         else if has_flag flags AF_SEGMENTED \<and> t = attr_offset then Some p1
         else if has_flag flags AF_SIZE_OR_WEIGHT_LIMIT \<and> t = attr_vehicle_width then Some p2
         else if has_flag flags AF_DANGEROUS_GOODS \<and> t = attr_vehicle_dangerous_goods then Some p3
         else None)"

definition route_segment_data_size :: "32 word \<Rightarrow> nat" where
  "route_segment_data_size flags = sizeof_route_segment_data
     + (if has_flag flags AF_SPEED_LIMIT then 4 else 0)
     + (if has_flag flags AF_SEGMENTED then 4 else 0)
     + (if has_flag flags AF_SIZE_OR_WEIGHT_LIMIT then 20 else 0)
     + (if has_flag flags AF_DANGEROUS_GOODS then 4 else 0)"

text \<open>Reading and writing \<open>n\<close> words at a field; \<open>None\<close> for a NULL position or one outside the segment.\<close>

definition rsd_read :: "nat \<Rightarrow> attr_type \<Rightarrow> route_segment_data \<Rightarrow> int list option" where
  "rsd_read n t d = (case route_segment_data_field_pos (sd_flags d) t of
       None \<Rightarrow> None
     | Some p \<Rightarrow> (let i = (p - sizeof_route_segment_data) div 4 in
         if i + n \<le> length (sd_tail d) then Some (take n (drop i (sd_tail d))) else None))"

definition rsd_write :: "attr_type \<Rightarrow> int list \<Rightarrow> route_segment_data \<Rightarrow> route_segment_data option" where
  "rsd_write t ws d = (case route_segment_data_field_pos (sd_flags d) t of
       None \<Rightarrow> None
     | Some p \<Rightarrow> (let i = (p - sizeof_route_segment_data) div 4 in
         if i + length ws \<le> length (sd_tail d)
         then Some (d\<lparr>sd_tail := take i (sd_tail d) @ ws @ drop (i + length ws) (sd_tail d)\<rparr>) else None))"

definition RSD_MAXSPEED :: "route_segment_data \<Rightarrow> int option" where
  "RSD_MAXSPEED d = map_option hd (rsd_read 1 attr_maxspeed d)"

definition RSD_OFFSET :: "route_segment_data \<Rightarrow> int option" where
  "RSD_OFFSET d = map_option hd (rsd_read 1 attr_offset d)"

definition RSD_DANGEROUS_GOODS :: "route_segment_data \<Rightarrow> int option" where
  "RSD_DANGEROUS_GOODS d = map_option hd (rsd_read 1 attr_vehicle_dangerous_goods d)"

definition RSD_SIZE_WEIGHT :: "route_segment_data \<Rightarrow> size_weight_limit option" where
  "RSD_SIZE_WEIGHT d = map_option (\<lambda>w. \<lparr>sw_width = w ! 0, sw_length = w ! 1, sw_height = w ! 2,
     sw_weight = w ! 3, sw_axle_weight = w ! 4\<rparr>) (rsd_read 5 attr_vehicle_width d)"

definition size_weight_words :: "size_weight_limit \<Rightarrow> int list" where
  "size_weight_words l = [sw_width l, sw_length l, sw_height l, sw_weight l, sw_axle_weight l]"

text \<open>
  The data part of a new segment: \<open>g_slice_alloc0\<close> gives \<open>route_segment_data_size\<close> zero
  bytes, then the fields the flags announce are written.
\<close>

definition new_segment_data :: "route_graph_segment_data \<Rightarrow> route_segment_data option" where
  "new_segment_data data = do {
     let f = gd_flags data;
     let d = \<lparr>sd_item = gd_item data, sd_flags = f, sd_len = gd_len data, sd_score = gd_score data,
              sd_tail = replicate ((route_segment_data_size f - sizeof_route_segment_data) div 4) 0\<rparr>;
     d \<leftarrow> (if has_flag f AF_SPEED_LIMIT then rsd_write attr_maxspeed [gd_maxspeed data] d else Some d);
     d \<leftarrow> (if has_flag f AF_SEGMENTED then rsd_write attr_offset [gd_offset data] d else Some d);
     d \<leftarrow> (if has_flag f AF_SIZE_OR_WEIGHT_LIMIT
          then rsd_write attr_vehicle_width (size_weight_words (gd_size_weight data)) d else Some d);
     (if has_flag f AF_DANGEROUS_GOODS
      then rsd_write attr_vehicle_dangerous_goods [gd_dangerous_goods data] d else Some d)
   }"

definition tail_of :: "route_graph_segment_data \<Rightarrow> int list" where
  "tail_of data = (let f = gd_flags data in
     (if has_flag f AF_SPEED_LIMIT then [gd_maxspeed data] else [])
     @ (if has_flag f AF_SEGMENTED then [gd_offset data] else [])
     @ (if has_flag f AF_SIZE_OR_WEIGHT_LIMIT then size_weight_words (gd_size_weight data) else [])
     @ (if has_flag f AF_DANGEROUS_GOODS then [gd_dangerous_goods data] else []))"

lemma replicate_eqs:
  "replicate 5 x = [x, x, x, x, x]" "replicate 6 x = [x, x, x, x, x, x]"
  "replicate 7 x = [x, x, x, x, x, x, x]" "replicate 8 x = [x, x, x, x, x, x, x, x]"
  "replicate 2 x = [x, x]" "replicate 3 x = [x, x, x]"
  by (simp_all add: numeral_eq_Suc)

lemma new_segment_data_eq:
  "new_segment_data data = Some \<lparr>sd_item = gd_item data, sd_flags = gd_flags data, sd_len = gd_len data,
     sd_score = gd_score data, sd_tail = tail_of data\<rparr>"
  by (cases "gd_flags data AND AF_SPEED_LIMIT = 0"; cases "gd_flags data AND AF_SEGMENTED = 0";
      cases "gd_flags data AND AF_SIZE_OR_WEIGHT_LIMIT = 0"; cases "gd_flags data AND AF_DANGEROUS_GOODS = 0";
      simp add: new_segment_data_def rsd_write_def route_segment_data_field_pos_def tail_of_def Let_def
        route_segment_data_size_def size_weight_words_def replicate_eqs)

section \<open>Iterating over the segments of a point\<close>

text \<open>\<open>struct route_graph_point_iterator\<close>: \<open>next\<close> is what is left of the list it points into.\<close>

record rp_iterator =
  rpi_p :: nat
  rpi_end :: bool
  rpi_next :: "nat list"

definition rp_iterator_new :: "route_graph \<Rightarrow> nat \<Rightarrow> rp_iterator" where
  "rp_iterator_new g p = (if pt_start (g_pt g p) \<noteq> []
     then \<lparr>rpi_p = p, rpi_end = False, rpi_next = pt_start (g_pt g p)\<rparr>
     else \<lparr>rpi_p = p, rpi_end = True, rpi_next = pt_end (g_pt g p)\<rparr>)"

definition rp_iterator_next :: "route_graph \<Rightarrow> rp_iterator \<Rightarrow> nat option \<times> rp_iterator" where
  "rp_iterator_next g it = (case rpi_next it of
       [] \<Rightarrow> (None, it)
     | s # rest \<Rightarrow> (Some s,
         if \<not> rpi_end it then
           if rest \<noteq> [] then it\<lparr>rpi_next := rest\<rparr>
           else it\<lparr>rpi_next := pt_end (g_pt g (rpi_p it)), rpi_end := True\<rparr>
         else it\<lparr>rpi_next := rest\<rparr>))"

definition rp_iterator_end :: "route_graph \<Rightarrow> rp_iterator \<Rightarrow> bool" where
  "rp_iterator_end g it \<longleftrightarrow> rpi_end it \<and> rpi_next it \<noteq> pt_end (g_pt g (rpi_p it))"

section \<open>Points\<close>

definition HASH_SIZE :: int where "HASH_SIZE = 8192"

definition HASHCOORD :: "coord \<Rightarrow> int" where
  "HASHCOORD c = (i32 (cx c + cy c) * 2654435761) mod 18446744073709551616 mod HASH_SIZE"

definition same_coord :: "coord \<Rightarrow> coord \<Rightarrow> bool" where
  "same_coord a b \<longleftrightarrow> cx a = cx b \<and> cy a = cy b"

lemma same_coord_eq [simp]: "same_coord a b \<longleftrightarrow> a = b"
  by (simp add: same_coord_def coord_eq_iff)

definition route_graph_get_point_next :: "route_graph \<Rightarrow> coord \<Rightarrow> nat option \<Rightarrow> nat option" where
  "route_graph_get_point_next g c lst =
     scan_next (\<lambda>p. same_coord (pt_c (g_pt g p)) c) lst False (g_hash g (HASHCOORD c))"

definition route_graph_get_point :: "route_graph \<Rightarrow> coord \<Rightarrow> nat option" where
  "route_graph_get_point g c = route_graph_get_point_next g c None"

fun last_match :: "('a \<Rightarrow> bool) \<Rightarrow> 'a option \<Rightarrow> 'a list \<Rightarrow> 'a option" where
  "last_match P r [] = r"
| "last_match P r (x # xs) = last_match P (if P x then Some x else r) xs"

definition route_graph_get_point_last :: "route_graph \<Rightarrow> coord \<Rightarrow> nat option" where
  "route_graph_get_point_last g c =
     last_match (\<lambda>p. same_coord (pt_c (g_pt g p)) c) None (g_hash g (HASHCOORD c))"

text \<open>All points at a coordinate, in the order the loops over \<open>route_graph_get_point_next\<close> see them.\<close>

definition points_at :: "route_graph \<Rightarrow> coord \<Rightarrow> nat list" where
  "points_at g c = filter (\<lambda>p. same_coord (pt_c (g_pt g p)) c) (g_hash g (HASHCOORD c))"

definition route_graph_point_new :: "coord \<Rightarrow> route_graph \<Rightarrow> nat \<times> route_graph" where
  "route_graph_point_new f g = (let h = HASHCOORD f; p = g_np g in
     (p, g\<lparr>g_np := Suc p, g_hash := (g_hash g)(h := p # g_hash g h),
           g_pt := (g_pt g)(p := \<lparr>pt_start = [], pt_end = [], pt_seg = None, pt_el = None,
             pt_value = INT_MAX, pt_rhs = 0, pt_dst_val = INT_MAX, pt_dst_seg = None,
             pt_c = f, pt_flags = 0\<rparr>)\<rparr>))"

definition route_graph_add_point :: "coord \<Rightarrow> route_graph \<Rightarrow> nat \<times> route_graph" where
  "route_graph_add_point f g = (case route_graph_get_point g f of
     Some p \<Rightarrow> (p, g) | None \<Rightarrow> route_graph_point_new f g)"

text \<open>Freeing the points leaves every chain empty; freeing the segments empties their list.\<close>

definition route_graph_free_points :: "route_graph \<Rightarrow> route_graph" where
  "route_graph_free_points g = g\<lparr>g_hash := (\<lambda>i. if 0 \<le> i \<and> i < HASH_SIZE then [] else g_hash g i)\<rparr>"

definition route_graph_free_segments :: "route_graph \<Rightarrow> route_graph" where
  "route_graph_free_segments g = g\<lparr>g_route_segments := []\<rparr>"

definition route_graph_count_points :: "route_graph \<Rightarrow> nat" where
  "route_graph_count_points g = (\<Sum>i\<leftarrow>[0..HASH_SIZE - 1]. length (g_hash g i))"

definition upd_pt :: "nat \<Rightarrow> (route_graph_point \<Rightarrow> route_graph_point) \<Rightarrow> route_graph \<Rightarrow> route_graph" where
  "upd_pt p f g = g\<lparr>g_pt := (g_pt g)(p := f (g_pt g p))\<rparr>"

definition upd_seg_data :: "nat \<Rightarrow> (route_segment_data \<Rightarrow> route_segment_data) \<Rightarrow> route_graph \<Rightarrow> route_graph" where
  "upd_seg_data s f g = g\<lparr>g_seg := (g_seg g)(s := (g_seg g s)\<lparr>sg_data := f (sg_data (g_seg g s))\<rparr>)\<rparr>"

section \<open>Segments\<close>

text \<open>
  \<open>None\<close> is the NULL dereference of \<open>RSD_OFFSET\<close> on a segment of the item that is not segmented.
\<close>

fun dup_scan :: "route_graph \<Rightarrow> route_graph_segment_data \<Rightarrow> nat list \<Rightarrow> bool option" where
  "dup_scan g data [] = Some False"
| "dup_scan g data (s # ss) =
     (if item_is_equal (gd_item data) (seg_item g s) then
        if has_flag (gd_flags data) AF_SEGMENTED then
          (case RSD_OFFSET (sg_data (g_seg g s)) of
             None \<Rightarrow> None
           | Some off \<Rightarrow> if off = gd_offset data then Some True else dup_scan g data ss)
        else Some True
      else dup_scan g data ss)"

definition route_graph_segment_is_duplicate ::
  "route_graph \<Rightarrow> nat \<Rightarrow> route_graph_segment_data \<Rightarrow> bool option" where
  "route_graph_segment_is_duplicate g start data = dup_scan g data (pt_start (g_pt g start))"

text \<open>\<open>None\<close> is the failed assertion \<open>data->len >= 0\<close>.\<close>

definition route_graph_add_segment ::
  "nat \<Rightarrow> nat \<Rightarrow> route_graph_segment_data \<Rightarrow> route_graph \<Rightarrow> route_graph option" where
  "route_graph_add_segment start en data g = do {
     let s = g_ns g;
     let g = upd_pt start (\<lambda>p. p\<lparr>pt_start := s # pt_start p\<rparr>) g;
     let g = upd_pt en (\<lambda>p. p\<lparr>pt_end := s # pt_end p\<rparr>) g;
     if gd_len data < 0 then None else do {
       d \<leftarrow> new_segment_data data;
       Some (g\<lparr>g_seg := (g_seg g)(s := \<lparr>sg_start = start, sg_end = en, sg_data = d\<rparr>),
               g_ns := Suc s, g_route_segments := s # g_route_segments g\<rparr>)
     }
   }"

end
