(* ===== verification/Route_Cost.thy ===== *)
theory Route_Cost
  imports Route_Graph
begin

text \<open>
  The cost of a segment: vehicle and road profiles (\<open>vehicleprofile.h\<close>, \<open>roadprofile.h\<close>),
  the speed and time of a segment, traffic distortions and the value of a segment as the path search
  of \<open>route.c\<close> uses it.
\<close>

section \<open>Profiles\<close>

record roadprofile =
  rp_speed :: int
  rp_maxspeed :: int

record vehicleprofile =
  vp_mode :: int
  vp_flags_forward_mask :: "32 word"
  vp_flags_reverse_mask :: "32 word"
  vp_flags :: "32 word"
  vp_width :: int
  vp_height :: int
  vp_length :: int
  vp_weight :: int
  vp_axle_weight :: int
  vp_dangerous_goods :: int
  vp_through_traffic_penalty :: int
  vp_roadprofile_hash :: "int \<rightharpoonup> roadprofile"
  vp_turn_around_penalty :: int
  vp_turn_around_penalty2 :: int

definition vehicleprofile_get_roadprofile :: "vehicleprofile \<Rightarrow> int \<Rightarrow> roadprofile option" where
  "vehicleprofile_get_roadprofile this t = vp_roadprofile_hash this t"

record route_traffic_distortion =
  td_maxspeed :: int
  td_delay :: int

section \<open>Speed and time\<close>

text \<open>
  The optional fields are read under their flag only; \<open>rsd_wf\<close> below says that the read then
  stays inside the segment.
\<close>

definition over_limit :: "int \<Rightarrow> int \<Rightarrow> bool" where
  "over_limit lmt veh \<longleftrightarrow> lmt \<noteq> -1 \<and> veh \<noteq> -1 \<and> lmt < veh"

definition route_seg_speed ::
  "vehicleprofile \<Rightarrow> route_segment_data \<Rightarrow> route_traffic_distortion option \<Rightarrow> int" where
  "route_seg_speed profile over dst =
     (let vrp = vehicleprofile_get_roadprofile profile (it_type (sd_item over));
          vehiclemaxspeed = (case vrp of Some r \<Rightarrow> if rp_speed r \<noteq> 0 then rp_speed r else INT_MAX | None \<Rightarrow> INT_MAX);
          roadmaxspeed = (if has_flag (sd_flags over) AF_SPEED_LIMIT then the (RSD_MAXSPEED over)
             else (case vrp of Some r \<Rightarrow> if rp_maxspeed r \<noteq> 0 then rp_maxspeed r else INT_MAX | None \<Rightarrow> INT_MAX));
          roadmaxspeed = (case dst of Some d \<Rightarrow> if td_maxspeed d < roadmaxspeed then td_maxspeed d else roadmaxspeed
             | None \<Rightarrow> roadmaxspeed);
          usable = \<not> (has_flag (sd_flags over) AF_DANGEROUS_GOODS
             \<and> vp_dangerous_goods profile AND the (RSD_DANGEROUS_GOODS over) \<noteq> 0);
          usable = (usable \<and> \<not> (has_flag (sd_flags over) AF_SIZE_OR_WEIGHT_LIMIT
             \<and> (let l = the (RSD_SIZE_WEIGHT over) in
                 over_limit (sw_width l) (vp_width profile) \<or> over_limit (sw_height l) (vp_height profile)
                 \<or> over_limit (sw_length l) (vp_length profile) \<or> over_limit (sw_weight l) (vp_weight profile)
                 \<or> over_limit (sw_axle_weight l) (vp_axle_weight profile))))
      in if usable then min roadmaxspeed vehiclemaxspeed else 0)"

definition MPS_TO_KPH :: rat where "MPS_TO_KPH = dround (36 / 10)"

definition route_time_seg ::
  "vehicleprofile \<Rightarrow> route_segment_data \<Rightarrow> route_traffic_distortion option \<Rightarrow> int" where
  "route_time_seg profile over dst =
     (let speed = route_seg_speed profile over dst;
          delay = (case dst of Some d \<Rightarrow> td_delay d | None \<Rightarrow> 0);
          time = (if speed \<noteq> 0 then
             d2i (dround (dround (dround (dround (of_int (sd_len over) * MPS_TO_KPH) * 10) / of_int speed) + of_int delay))
             else INT_MAX)
      in if time = 0 then 1 else time)"

section \<open>Traffic distortions\<close>

text \<open>One step of the two loops: the distortion \<open>tmp\<close> raises the delay and lowers the speed found so far.\<close>

definition td_step ::
  "route_graph \<Rightarrow> 32 word \<Rightarrow> vehicleprofile \<Rightarrow> (nat \<Rightarrow> bool) \<Rightarrow> nat \<Rightarrow> bool \<times> route_traffic_distortion
   \<Rightarrow> bool \<times> route_traffic_distortion" where
  "td_step g fmask profile here tmp acc = (let (found, r) = acc; d = sg_data (g_seg g tmp) in
     if it_type (sd_item d) = type_traffic_distortion \<and> here tmp then
       if sd_flags d AND fmask \<noteq> vp_flags profile then (found, r)
       else (let r = (if td_delay r < sd_len d then r\<lparr>td_delay := sd_len d\<rparr> else r);
                 r = (if has_flag (sd_flags d) AF_SPEED_LIMIT \<and> the (RSD_MAXSPEED d) < td_maxspeed r
                      then r\<lparr>td_maxspeed := the (RSD_MAXSPEED d)\<rparr> else r)
             in (True, r))
     else (found, r))"

definition route_get_traffic_distortion ::
  "route_graph \<Rightarrow> nat \<Rightarrow> int \<Rightarrow> vehicleprofile \<Rightarrow> route_traffic_distortion option" where
  "route_get_traffic_distortion g seg dir profile =
     (let start = seg_start g seg; en = seg_end g seg;
          dir = (if dir = 0 then 1 else dir);
          fwd = vp_flags_forward_mask profile; rev = vp_flags_reverse_mask profile;
          acc = (False, \<lparr>td_maxspeed = INT_MAX, td_delay = 0\<rparr>);
          acc = fold (td_step g (if dir > 0 then fwd else rev) profile
                  (\<lambda>t. seg_start g t = start \<and> seg_end g t = en)) (pt_start (g_pt g start)) acc;
          acc = fold (td_step g (if dir < 0 then fwd else rev) profile
                  (\<lambda>t. seg_end g t = start \<and> seg_start g t = en)) (pt_end (g_pt g start)) acc
      in if fst acc then Some (snd acc) else None)"

section \<open>The value of a segment\<close>

definition route_through_traffic_allowed :: "vehicleprofile \<Rightarrow> route_graph \<Rightarrow> nat \<Rightarrow> bool" where
  "route_through_traffic_allowed profile g seg \<longleftrightarrow> seg_flags g seg AND AF_THROUGH_TRAFFIC_LIMIT = 0"

definition route_value_seg :: "vehicleprofile \<Rightarrow> route_graph \<Rightarrow> nat option \<Rightarrow> nat \<Rightarrow> int \<Rightarrow> int" where
  "route_value_seg profile g from over dir =
     (let dir = (if dir = 0 then 1 else dir);
          s = seg_start g over; e = seg_end g over; d = sg_data (g_seg g over);
          from_seg = (case from of None \<Rightarrow> None | Some p \<Rightarrow> pt_seg (g_pt g p))
      in if from \<noteq> None \<and> s = e then INT_MAX
         else if sd_flags d AND (if dir \<ge> 0 then vp_flags_forward_mask profile else vp_flags_reverse_mask profile)
                 \<noteq> vp_flags profile then INT_MAX
         else if dir > 0 \<and> has_flag (pt_flags (g_pt g s)) RP_TURN_RESTRICTION then INT_MAX
         else if dir < 0 \<and> has_flag (pt_flags (g_pt g e)) RP_TURN_RESTRICTION then INT_MAX
         else if from_seg = Some over then INT_MAX
         else if it_type (sd_item d) = type_traffic_distortion then INT_MAX
         else (let dst = (if has_flag (pt_flags (g_pt g s)) RP_TRAFFIC_DISTORTION
                            \<and> has_flag (pt_flags (g_pt g e)) RP_TRAFFIC_DISTORTION
                          then case route_get_traffic_distortion g over dir profile of
                                 None \<Rightarrow> None
                               | Some t \<Rightarrow> if dir \<noteq> 2 \<and> dir \<noteq> -2 then Some t else None
                          else None);
                   ret = route_time_seg profile d dst
               in if ret = INT_MAX then ret
                  else if \<not> route_through_traffic_allowed profile g over
                          \<and> (case from_seg of None \<Rightarrow> False | Some fs \<Rightarrow> route_through_traffic_allowed profile g fs)
                       then i32 (ret + vp_through_traffic_penalty profile)
                  else ret))"

definition route_graph_segment_match :: "route_graph \<Rightarrow> nat option \<Rightarrow> nat option \<Rightarrow> bool" where
  "route_graph_segment_match g s1 s2 = (case (s1, s2) of
       (Some a, Some b) \<Rightarrow> same_coord (pt_c (g_pt g (seg_start g a))) (pt_c (g_pt g (seg_start g b)))
         \<and> same_coord (pt_c (g_pt g (seg_end g a))) (pt_c (g_pt g (seg_end g b)))
     | _ \<Rightarrow> False)"

definition route_value_add :: "int \<Rightarrow> int \<Rightarrow> int" where
  "route_value_add val1 val2 =
     (if val1 = INT_MAX then INT_MAX else if val2 = INT_MAX then INT_MAX else i32 (val1 + val2))"

section \<open>Lemmas\<close>

text \<open>A segment whose tail has the length its flags ask for: every guarded read is inside.\<close>

definition rsd_wf :: "route_segment_data \<Rightarrow> bool" where
  "rsd_wf d \<longleftrightarrow> length (sd_tail d) * 4 + sizeof_route_segment_data = route_segment_data_size (sd_flags d)"

lemma new_segment_data_wf: "new_segment_data data = Some d \<Longrightarrow> rsd_wf d"
  by (auto simp: new_segment_data_eq rsd_wf_def tail_of_def route_segment_data_size_def Let_def size_weight_words_def)

lemma new_segment_data_fields:
  assumes "new_segment_data data = Some d"
  shows "RSD_MAXSPEED d = (if has_flag (gd_flags data) AF_SPEED_LIMIT then Some (gd_maxspeed data) else None)"
    "RSD_OFFSET d = (if has_flag (gd_flags data) AF_SEGMENTED then Some (gd_offset data) else None)"
    "RSD_SIZE_WEIGHT d = (if has_flag (gd_flags data) AF_SIZE_OR_WEIGHT_LIMIT then Some (gd_size_weight data) else None)"
    "RSD_DANGEROUS_GOODS d = (if has_flag (gd_flags data) AF_DANGEROUS_GOODS then Some (gd_dangerous_goods data) else None)"
proof -
  have d: "d = \<lparr>sd_item = gd_item data, sd_flags = gd_flags data, sd_len = gd_len data,
     sd_score = gd_score data, sd_tail = tail_of data\<rparr>" using assms by (simp add: new_segment_data_eq)
  note defs = RSD_MAXSPEED_def RSD_OFFSET_def RSD_SIZE_WEIGHT_def RSD_DANGEROUS_GOODS_def rsd_read_def
    route_segment_data_field_pos_def tail_of_def Let_def size_weight_words_def
  show "RSD_MAXSPEED d = (if has_flag (gd_flags data) AF_SPEED_LIMIT then Some (gd_maxspeed data) else None)"
    "RSD_OFFSET d = (if has_flag (gd_flags data) AF_SEGMENTED then Some (gd_offset data) else None)"
    "RSD_SIZE_WEIGHT d = (if has_flag (gd_flags data) AF_SIZE_OR_WEIGHT_LIMIT then Some (gd_size_weight data) else None)"
    "RSD_DANGEROUS_GOODS d = (if has_flag (gd_flags data) AF_DANGEROUS_GOODS then Some (gd_dangerous_goods data) else None)"
    unfolding d
    by (cases "gd_flags data AND AF_SPEED_LIMIT = 0"; cases "gd_flags data AND AF_SEGMENTED = 0";
      cases "gd_flags data AND AF_SIZE_OR_WEIGHT_LIMIT = 0"; cases "gd_flags data AND AF_DANGEROUS_GOODS = 0";
      simp add: defs)+
qed

lemma MPS_TO_KPH_pos: "0 < MPS_TO_KPH"
  by (simp add: MPS_TO_KPH_def dround_pos)

text \<open>Times are monotone: a longer segment never takes less time, a higher speed never more.\<close>

lemma d2i_mono:
  assumes "0 \<le> x" "x \<le> y" "y < 2147483648" shows "d2i x \<le> d2i y"
  using assms by (simp add: d2i_nonneg floor_mono)

definition time_of :: "int \<Rightarrow> int \<Rightarrow> int \<Rightarrow> rat" where
  "time_of len speed delay =
     dround (dround (dround (dround (of_int len * MPS_TO_KPH) * 10) / of_int speed) + of_int delay)"

lemma time_of_nonneg: "0 \<le> len \<Longrightarrow> 0 < speed \<Longrightarrow> 0 \<le> delay \<Longrightarrow> 0 \<le> time_of len speed delay"
  using MPS_TO_KPH_pos unfolding time_of_def
  by (intro dround_nonneg add_nonneg_nonneg divide_nonneg_pos mult_nonneg_nonneg) auto

lemma time_of_mono:
  assumes "0 \<le> len" "len \<le> len'" "0 < speed'" "speed' \<le> speed" "0 \<le> delay" "delay \<le> delay'"
  shows "time_of len speed delay \<le> time_of len' speed' delay'"
proof -
  let ?d = "\<lambda>l. dround (dround (of_int l * MPS_TO_KPH) * 10)"
  have 1: "0 \<le> ?d len" "?d len \<le> ?d len'"
    using assms MPS_TO_KPH_pos by (auto intro!: dround_nonneg dround_mono mult_nonneg_nonneg mult_right_mono)
  have 2: "?d len / of_int speed \<le> ?d len' / of_int speed'"
    using 1 assms by (intro frac_le) auto
  have 3: "0 \<le> ?d len / of_int speed" using 1 assms by auto
  show ?thesis unfolding time_of_def
    using assms 2 3 by (intro dround_mono add_mono add_nonneg_nonneg dround_nonneg) (auto intro!: dround_mono)
qed

end
