(* ===== verification/Route_Heap.thy ===== *)
theory Route_Heap
  imports Route_Graph
begin

text \<open>
  The priority queue of the path search: the interface the search relies on as a locale, and the
  Fibonacci heap of \<open>support/fib\<close> as its provider. The code keeps the handle of an entry and
  deletes through it, so the interface speaks of entries (handle, key, point).
\<close>

section \<open>The interface\<close>

locale pqueue =
  fixes entries :: "'h \<Rightarrow> ('e \<times> int \<times> 'p) set"
    and wf :: "'h \<Rightarrow> bool"
    and insertkey :: "'h \<Rightarrow> int \<Rightarrow> 'p \<Rightarrow> 'e \<times> 'h"
    and delete :: "'h \<Rightarrow> 'e \<Rightarrow> 'h option"
    and extractmin :: "'h \<Rightarrow> ('p \<times> 'h) option"
  assumes insert_spec: "wf h \<Longrightarrow> insertkey h k p = (e, h') \<Longrightarrow>
      wf h' \<and> entries h' = insert (e, k, p) (entries h) \<and> e \<notin> fst ` entries h"
    and delete_spec: "wf h \<Longrightarrow> (e, k, p) \<in> entries h \<Longrightarrow>
      \<exists>h'. delete h e = Some h' \<and> wf h' \<and> entries h' = entries h - {(e, k, p)}"
    and extract_spec: "wf h \<Longrightarrow> extractmin h = Some (p, h') \<Longrightarrow>
      \<exists>e k. (e, k, p) \<in> entries h \<and> (\<forall>e' k' p'. (e', k', p') \<in> entries h \<longrightarrow> k \<le> k')
        \<and> wf h' \<and> entries h' = entries h - {(e, k, p)}"
    and extract_None: "wf h \<Longrightarrow> extractmin h = None \<longleftrightarrow> entries h = {}"
    and handles: "wf h \<Longrightarrow> (e, k, p) \<in> entries h \<Longrightarrow> (e, k', p') \<in> entries h \<Longrightarrow> k' = k \<and> p' = p"
    and finite_entries: "wf h \<Longrightarrow> finite (entries h)"
begin

text \<open>What the search does for each point: delete the old entry, if any, and insert a new one.\<close>

definition drop_entry :: "'h \<Rightarrow> 'e option \<Rightarrow> 'h option" where
  "drop_entry h el = (case el of None \<Rightarrow> Some h | Some e \<Rightarrow> delete h e)"

lemma drop_entry_spec:
  assumes "wf h" "\<And>e. el = Some e \<Longrightarrow> \<exists>k p. (e, k, p) \<in> entries h"
  shows "\<exists>h'. drop_entry h el = Some h' \<and> wf h'
    \<and> entries h' = {x \<in> entries h. Some (fst x) \<noteq> el}"
proof (cases el)
  case None
  then show ?thesis using assms by (auto simp: drop_entry_def)
next
  case (Some e)
  obtain k p where m: "(e, k, p) \<in> entries h" using assms Some by blast
  have "x = (e, k, p)" if "x \<in> entries h" "fst x = e" for x
    using handles [OF assms(1) m, of "fst (snd x)" "snd (snd x)"] that by (cases x) auto
  then have eq: "entries h - {(e, k, p)} = {x \<in> entries h. Some (fst x) \<noteq> el}"
    using prod.sel(1) [of e "(k, p)"] unfolding Some by blast
  show ?thesis using delete_spec [OF assms(1) m] unfolding eq by (simp add: drop_entry_def Some)
qed

lemma extract_card:
  assumes "wf h" "extractmin h = Some (p, h')" shows "card (entries h') < card (entries h)"
proof -
  obtain e k where m: "(e, k, p) \<in> entries h" and h': "entries h' = entries h - {(e, k, p)}"
    using extract_spec [OF assms] by blast
  show ?thesis unfolding h' by (rule card_Diff1_less [OF finite_entries [OF assms(1)] m])
qed

end

section \<open>The heap of the model\<close>

definition fh_makekeyheap :: fibheap where
  "fh_makekeyheap = \<lparr>fh_entries = [], fh_next = 0\<rparr>"

definition fh_insertkey :: "fibheap \<Rightarrow> int \<Rightarrow> nat \<Rightarrow> nat \<times> fibheap" where
  "fh_insertkey h k p = (fh_next h, h\<lparr>fh_entries := (fh_next h, k, p) # fh_entries h, fh_next := Suc (fh_next h)\<rparr>)"

text \<open>\<open>None\<close>: the handle is not in the heap, the code would use a freed element.\<close>

definition fh_delete :: "fibheap \<Rightarrow> nat \<Rightarrow> fibheap option" where
  "fh_delete h el = (if el \<in> fst ` set (fh_entries h)
     then Some (h\<lparr>fh_entries := filter (\<lambda>x. fst x \<noteq> el) (fh_entries h)\<rparr>) else None)"

definition fh_extractmin :: "((nat \<times> int \<times> nat) list \<Rightarrow> nat) \<Rightarrow> fibheap \<Rightarrow> (nat \<times> fibheap) option" where
  "fh_extractmin pick h = (if fh_entries h = [] then None
     else let i = pick (fh_entries h) in
       Some (snd (snd (fh_entries h ! i)),
             h\<lparr>fh_entries := take i (fh_entries h) @ drop (Suc i) (fh_entries h)\<rparr>))"

definition fh_min :: "((nat \<times> int \<times> nat) list \<Rightarrow> nat) \<Rightarrow> fibheap \<Rightarrow> nat option" where
  "fh_min pick h = map_option fst (fh_extractmin pick h)"

definition fh_wf :: "fibheap \<Rightarrow> bool" where
  "fh_wf h \<longleftrightarrow> distinct (map fst (fh_entries h)) \<and> (\<forall>x\<in>set (fh_entries h). fst x < fh_next h)"

text \<open>The Fibonacci heap extracts some entry of least key; nothing else about its choice is used.\<close>

locale heap_pick =
  fixes pick :: "(nat \<times> int \<times> nat) list \<Rightarrow> nat"
  assumes pick_ok: "xs \<noteq> [] \<Longrightarrow> pick xs < length xs \<and> (\<forall>x\<in>set xs. fst (snd (xs ! pick xs)) \<le> fst (snd x))"

sublocale heap_pick \<subseteq> fib: pqueue "\<lambda>h. set (fh_entries h)" fh_wf fh_insertkey fh_delete "fh_extractmin pick"
proof unfold_locales
  fix h k p and e :: nat and h'
  assume "fh_wf h" "fh_insertkey h k p = (e, h')"
  then show "fh_wf h' \<and> set (fh_entries h') = insert (e, k, p) (set (fh_entries h)) \<and> e \<notin> fst ` set (fh_entries h)"
    by (force simp: fh_insertkey_def fh_wf_def)
next
  fix h p and e :: nat and k :: int
  assume h: "fh_wf h" and m: "(e, k, p) \<in> set (fh_entries h)"
  have "x = (e, k, p)" if "x \<in> set (fh_entries h)" "fst x = e" for x
    using eq_key_imp_eq_value [of "fh_entries h" e "snd x" "(k, p)"] h that m
    by (cases x) (auto simp: fh_wf_def)
  then have "set (filter (\<lambda>x. fst x \<noteq> e) (fh_entries h)) = set (fh_entries h) - {(e, k, p)}"
    using prod.sel(1) [of e "(k, p)"] unfolding set_filter by blast
  moreover have "fh_wf (h\<lparr>fh_entries := filter (\<lambda>x. fst x \<noteq> e) (fh_entries h)\<rparr>)"
    using h by (auto simp: fh_wf_def distinct_map_filter)
  ultimately show "\<exists>h'. fh_delete h e = Some h' \<and> fh_wf h' \<and> set (fh_entries h') = set (fh_entries h) - {(e, k, p)}"
    using m by (force simp: fh_delete_def)
next
  fix h p h'
  assume h: "fh_wf h" and x: "fh_extractmin pick h = Some (p, h')"
  let ?xs = "fh_entries h" and ?i = "pick (fh_entries h)"
  have ne: "?xs \<noteq> []" using x by (auto simp: fh_extractmin_def)
  note ok = pick_ok [OF ne]
  obtain e k where ek: "?xs ! ?i = (e, k, p)" and h': "h' = h\<lparr>fh_entries := take ?i ?xs @ drop (Suc ?i) ?xs\<rparr>"
    using x ne by (cases "?xs ! ?i") (auto simp: fh_extractmin_def Let_def)
  have split: "?xs = take ?i ?xs @ (e, k, p) # drop (Suc ?i) ?xs"
    using ok ek by (metis id_take_nth_drop)
  then have d: "distinct (take ?i ?xs @ (e, k, p) # drop (Suc ?i) ?xs)"
    using h by (metis distinct_map fh_wf_def)
  have "set (fh_entries h') = set ?xs - {(e, k, p)}"
    using d by (subst split) (auto simp: h')
  moreover have "fh_wf h'"
  proof -
    have "distinct (map fst (take ?i ?xs @ (e, k, p) # drop (Suc ?i) ?xs))"
      using h split by (metis fh_wf_def)
    moreover have "set (fh_entries h') \<subseteq> set ?xs" by (auto simp: h' dest: in_set_takeD in_set_dropD)
    ultimately show ?thesis using h by (auto simp: fh_wf_def h')
  qed
  moreover have "(e, k, p) \<in> set ?xs" using split by (metis in_set_conv_decomp)
  moreover have "\<forall>e' k' p'. (e', k', p') \<in> set ?xs \<longrightarrow> k \<le> k'" using ok ek by force
  ultimately show "\<exists>e k. (e, k, p) \<in> set ?xs \<and> (\<forall>e' k' p'. (e', k', p') \<in> set ?xs \<longrightarrow> k \<le> k')
      \<and> fh_wf h' \<and> set (fh_entries h') = set ?xs - {(e, k, p)}" by blast
next
  fix h show "fh_wf h \<Longrightarrow> (fh_extractmin pick h = None) = (set (fh_entries h) = {})"
    by (auto simp: fh_extractmin_def Let_def)
next
  fix h p k p' k' and e :: nat
  show "fh_wf h \<Longrightarrow> (e, k, p) \<in> set (fh_entries h) \<Longrightarrow> (e, k', p') \<in> set (fh_entries h) \<Longrightarrow> k' = k \<and> p' = p"
    by (auto simp: fh_wf_def dest: eq_key_imp_eq_value)
qed simp

text \<open>The first of the entries of least key.\<close>

fun first_min :: "(nat \<times> int \<times> nat) list \<Rightarrow> nat" where
  "first_min [] = 0"
| "first_min [x] = 0"
| "first_min (x # xs) = (let i = first_min xs in if fst (snd x) \<le> fst (snd (xs ! i)) then 0 else Suc i)"

lemma first_min_ok:
  "xs \<noteq> [] \<Longrightarrow> first_min xs < length xs \<and> (\<forall>x\<in>set xs. fst (snd (xs ! first_min xs)) \<le> fst (snd x))"
  by (induction xs rule: first_min.induct) (auto simp: Let_def)

interpretation fm: heap_pick first_min
  by unfold_locales (rule first_min_ok)

end
