(* ===== verification/Route_LPA.thy ===== *)
theory Route_LPA
  imports Route_Cost Route_Heap
begin

text \<open>
  The path search of \<open>route.c\<close>: the lookahead update of a point, the expansion loop of the
  modified LPA* algorithm, initialisation and reset. \<open>pick\<close> is the choice the Fibonacci heap
  makes between entries of equal key.
\<close>

section \<open>Operations\<close>

text \<open>
  One step of the loops of \<open>route_graph_point_update\<close>: \<open>dir\<close> is 1 for the segments that
  start at the point and -1 for those that end there; \<open>n\<close> is the other end.
\<close>

definition seg_other :: "route_graph \<Rightarrow> int \<Rightarrow> nat \<Rightarrow> nat" where
  "seg_other g dir s = (if dir > 0 then seg_end g s else seg_start g s)"

definition cand_val :: "vehicleprofile \<Rightarrow> route_graph \<Rightarrow> int \<Rightarrow> nat \<Rightarrow> int" where
  "cand_val profile g dir s =
     (let n = seg_other g dir s; val = route_value_seg profile g (Some n) s dir in
      if val \<noteq> INT_MAX \<and> (case pt_seg (g_pt g n) of None \<Rightarrow> False | Some ns \<Rightarrow> item_is_equal (seg_item g s) (seg_item g ns))
      then if vp_turn_around_penalty2 profile \<noteq> 0 then i32 (val + vp_turn_around_penalty2 profile) else INT_MAX
      else val)"

definition point_update_step :: "vehicleprofile \<Rightarrow> nat \<Rightarrow> int \<Rightarrow> nat \<Rightarrow> route_graph \<Rightarrow> route_graph" where
  "point_update_step profile p dir s g =
     (let val = cand_val profile g dir s in
      if val \<noteq> INT_MAX then
        let new = route_value_add val (pt_value (g_pt g (seg_other g dir s))) in
        if new < pt_rhs (g_pt g p) then upd_pt p (\<lambda>x. x\<lparr>pt_rhs := new, pt_seg := Some s\<rparr>) g else g
      else g)"

definition route_graph_point_update :: "vehicleprofile \<Rightarrow> nat \<Rightarrow> route_graph \<Rightarrow> route_graph option" where
  "route_graph_point_update profile p g = do {
     let g = upd_pt p (\<lambda>x. x\<lparr>pt_rhs := pt_dst_val x, pt_seg := pt_dst_seg x\<rparr>) g;
     let g = fold (point_update_step profile p 1) (pt_start (g_pt g p)) g;
     let g = fold (point_update_step profile p (-1)) (pt_end (g_pt g p)) g;
     g \<leftarrow> (case pt_el (g_pt g p) of
            None \<Rightarrow> Some g
          | Some el \<Rightarrow> do {
              h \<leftarrow> fh_delete (g_heap g) el;
              Some (upd_pt p (\<lambda>x. x\<lparr>pt_el := None\<rparr>) (g\<lparr>g_heap := h\<rparr>))
            });
     let x = g_pt g p;
     if pt_rhs x \<noteq> pt_value x then
       (let (el, h) = fh_insertkey (g_heap g) (min (pt_rhs x) (pt_value x)) p
        in Some (upd_pt p (\<lambda>x. x\<lparr>pt_el := Some el\<rparr>) (g\<lparr>g_heap := h\<rparr>)))
     else Some g
   }"

definition route_graph_is_path_computed ::
  "((nat \<times> int \<times> nat) list \<Rightarrow> nat) \<Rightarrow> route_graph \<Rightarrow> bool" where
  "route_graph_is_path_computed pick g \<longleftrightarrow> fh_min pick (g_heap g) = None"

text \<open>
  The expansion of the extracted point: its value is settled or reset, then every point from which it
  can be reached is updated (the guard of the two loops is \<open>relaxable\<close>).
\<close>

definition relaxable :: "vehicleprofile \<Rightarrow> route_graph \<Rightarrow> int \<Rightarrow> nat \<Rightarrow> bool" where
  "relaxable profile g dir s \<longleftrightarrow>
     \<not> (seg_start g s = seg_end g s \<or> it_type (seg_item g s) < route_item_first \<or> route_item_last < it_type (seg_item g s))
     \<and> route_value_seg profile g None s dir \<noteq> INT_MAX"

fun relax_all :: "vehicleprofile \<Rightarrow> int \<Rightarrow> nat list \<Rightarrow> route_graph \<Rightarrow> route_graph option" where
  "relax_all profile dir [] g = Some g"
| "relax_all profile dir (s # ss) g =
     (if relaxable profile g (- 2 * dir) s
      then Option.bind (route_graph_point_update profile (seg_other g dir s) g) (relax_all profile dir ss)
      else relax_all profile dir ss g)"

definition expand_point :: "vehicleprofile \<Rightarrow> nat \<Rightarrow> route_graph \<Rightarrow> route_graph option" where
  "expand_point profile p g = do {
     let g = upd_pt p (\<lambda>x. x\<lparr>pt_el := None\<rparr>) g;
     g \<leftarrow> (if pt_rhs (g_pt g p) < pt_value (g_pt g p)
          then Some (upd_pt p (\<lambda>x. x\<lparr>pt_value := pt_rhs x\<rparr>) g)
          else route_graph_point_update profile p (upd_pt p (\<lambda>x. x\<lparr>pt_value := INT_MAX\<rparr>) g));
     g \<leftarrow> relax_all profile 1 (pt_start (g_pt g p)) g;
     relax_all profile (-1) (pt_end (g_pt g p)) g
   }"

partial_function (option) route_graph_compute_shortest_path ::
  "((nat \<times> int \<times> nat) list \<Rightarrow> nat) \<Rightarrow> vehicleprofile \<Rightarrow> route_graph \<Rightarrow> route_graph option" where
  "route_graph_compute_shortest_path pick profile g =
     (if route_graph_is_path_computed pick g then Some g
      else (case fh_extractmin pick (g_heap g) of
              None \<Rightarrow> Some g
            | Some (p, h) \<Rightarrow> Option.bind (expand_point profile p (g\<lparr>g_heap := h\<rparr>))
                (\<lambda>g. route_graph_compute_shortest_path pick profile g)))"

text \<open>
  \<open>route_graph_get_segment\<close> scans the segments that start at any point with the first coordinate of
  the street; \<open>route_graph_init\<close> runs through all of them.
\<close>

record street_data =
  st_item :: item
  st_flags :: "32 word"
  st_maxspeed :: int
  st_c :: "coord list"

definition street_segments :: "route_graph \<Rightarrow> street_data \<Rightarrow> nat list" where
  "street_segments g sd = concat (map (\<lambda>p. pt_start (g_pt g p)) (points_at g (st_c sd ! 0)))"

definition route_graph_get_segment :: "route_graph \<Rightarrow> street_data \<Rightarrow> nat option \<Rightarrow> nat option" where
  "route_graph_get_segment g sd lst =
     scan_next (\<lambda>s. item_is_equal (st_item sd) (seg_item g s)) lst False (street_segments g sd)"

definition all_segments_of :: "route_graph \<Rightarrow> street_data \<Rightarrow> nat list" where
  "all_segments_of g sd = filter (\<lambda>s. item_is_equal (st_item sd) (seg_item g s)) (street_segments g sd)"

text \<open>\<open>percent\<close> is how far along its street the destination lies.\<close>

definition init_point :: "nat \<Rightarrow> nat \<Rightarrow> int \<Rightarrow> route_graph \<Rightarrow> route_graph" where
  "init_point p s val g =
     (let g = upd_pt p (\<lambda>x. x\<lparr>pt_seg := Some s, pt_dst_seg := Some s, pt_rhs := val, pt_dst_val := val\<rparr>) g;
          (el, h) = fh_insertkey (g_heap g) (min (pt_rhs (g_pt g p)) (pt_value (g_pt g p))) p
      in upd_pt p (\<lambda>x. x\<lparr>pt_el := Some el\<rparr>) (g\<lparr>g_heap := h\<rparr>))"

definition init_segment :: "vehicleprofile \<Rightarrow> int \<Rightarrow> nat \<Rightarrow> route_graph \<Rightarrow> route_graph" where
  "init_segment profile percent s g =
     (let val = route_value_seg profile g None s (-1);
          g = (if val \<noteq> INT_MAX then init_point (seg_end g s) s (cdiv (i32 (val * (100 - percent))) 100) g else g);
          val = route_value_seg profile g None s 1
      in if val \<noteq> INT_MAX then init_point (seg_start g s) s (cdiv (i32 (val * percent)) 100) g else g)"

definition route_graph_init :: "vehicleprofile \<Rightarrow> street_data \<Rightarrow> int \<Rightarrow> route_graph \<Rightarrow> route_graph" where
  "route_graph_init profile street percent g = fold (init_segment profile percent) (all_segments_of g street) g"

definition reset_point :: "route_graph_point \<Rightarrow> route_graph_point" where
  "reset_point x = x\<lparr>pt_value := INT_MAX, pt_dst_val := INT_MAX, pt_rhs := INT_MAX, pt_seg := None,
     pt_dst_seg := None, pt_el := None\<rparr>"

definition hashed_points :: "route_graph \<Rightarrow> nat list" where
  "hashed_points g = concat (map (g_hash g) [0..HASH_SIZE - 1])"

definition route_graph_reset :: "route_graph \<Rightarrow> route_graph" where
  "route_graph_reset g =
     (let g = fold (\<lambda>p. upd_pt p reset_point) (hashed_points g) g
      in g\<lparr>g_heap := (g_heap g)\<lparr>fh_entries := []\<rparr>\<rparr>)"

section \<open>Access lemmas\<close>

lemma g_upd_pt [simp]:
  "g_np (upd_pt p f g) = g_np g" "g_seg (upd_pt p f g) = g_seg g" "g_ns (upd_pt p f g) = g_ns g"
  "g_hash (upd_pt p f g) = g_hash g" "g_route_segments (upd_pt p f g) = g_route_segments g"
  "g_avoid_seg (upd_pt p f g) = g_avoid_seg g" "g_heap (upd_pt p f g) = g_heap g" "g_busy (upd_pt p f g) = g_busy g"
  "g_pt (upd_pt p f g) q = (if q = p then f (g_pt g p) else g_pt g q)"
  by (simp_all add: upd_pt_def)

text \<open>The part of the graph the search never changes.\<close>

definition pt_static :: "route_graph_point \<Rightarrow> nat list \<times> nat list \<times> coord \<times> 32 word \<times> int \<times> nat option" where
  "pt_static x = (pt_start x, pt_end x, pt_c x, pt_flags x, pt_dst_val x, pt_dst_seg x)"

definition same_static :: "route_graph \<Rightarrow> route_graph \<Rightarrow> bool" where
  "same_static g g' \<longleftrightarrow> g_seg g' = g_seg g \<and> (\<forall>q. pt_static (g_pt g' q) = pt_static (g_pt g q))
     \<and> g_np g' = g_np g \<and> g_ns g' = g_ns g \<and> g_hash g' = g_hash g \<and> g_route_segments g' = g_route_segments g
     \<and> g_avoid_seg g' = g_avoid_seg g \<and> g_busy g' = g_busy g"

lemma same_static_refl [simp]: "same_static g g" by (simp add: same_static_def)

lemma same_static_trans: "same_static a b \<Longrightarrow> same_static b c \<Longrightarrow> same_static a c"
  by (simp add: same_static_def)

lemma same_static_heap [simp]: "same_static g (g\<lparr>g_heap := h\<rparr>)"
  by (simp add: same_static_def)

lemma same_static_upd_pt: "pt_static (f (g_pt g p)) = pt_static (g_pt g p) \<Longrightarrow> same_static g (upd_pt p f g)"
  by (simp add: same_static_def)

lemma same_staticD:
  assumes "same_static g g'"
  shows "g_seg g' = g_seg g" "pt_start (g_pt g' q) = pt_start (g_pt g q)" "pt_end (g_pt g' q) = pt_end (g_pt g q)"
    "pt_c (g_pt g' q) = pt_c (g_pt g q)" "pt_flags (g_pt g' q) = pt_flags (g_pt g q)"
    "pt_dst_val (g_pt g' q) = pt_dst_val (g_pt g q)" "pt_dst_seg (g_pt g' q) = pt_dst_seg (g_pt g q)"
    "g_np g' = g_np g" "g_ns g' = g_ns g" "g_hash g' = g_hash g"
  using assms by (auto simp: same_static_def pt_static_def)

lemma distortion_static:
  assumes "same_static g g'"
  shows "route_get_traffic_distortion g' s d profile = route_get_traffic_distortion g s d profile"
proof -
  have "td_step g' = td_step g"
    by (intro ext) (simp add: td_step_def same_staticD [OF assms])
  then show ?thesis by (simp add: route_get_traffic_distortion_def same_staticD [OF assms])
qed

lemma value_seg_static:
  assumes "same_static g g'" "\<And>n. fr = Some n \<Longrightarrow> pt_seg (g_pt g' n) = pt_seg (g_pt g n) \<or> seg_start g s = seg_end g s"
  shows "route_value_seg profile g' fr s d = route_value_seg profile g fr s d"
proof (cases "fr \<noteq> None \<and> seg_start g s = seg_end g s")
  case True
  then show ?thesis by (simp add: route_value_seg_def Let_def same_staticD [OF assms(1)])
next
  case False
  then have f: "(case fr of None \<Rightarrow> None | Some p \<Rightarrow> pt_seg (g_pt g' p)) = (case fr of None \<Rightarrow> None | Some p \<Rightarrow> pt_seg (g_pt g p))"
    using assms(2) by (cases fr) auto
  have t: "route_through_traffic_allowed profile g' = route_through_traffic_allowed profile g"
    by (intro ext) (simp add: route_through_traffic_allowed_def same_staticD [OF assms(1)])
  show ?thesis
    unfolding route_value_seg_def Let_def f t same_staticD(1,5) [OF assms(1)] distortion_static [OF assms(1)] by (rule refl)
qed

lemma cand_val_static:
  assumes "same_static g g'" "pt_seg (g_pt g' (seg_other g dir s)) = pt_seg (g_pt g (seg_other g dir s)) \<or> seg_start g s = seg_end g s"
  shows "cand_val profile g' dir s = cand_val profile g dir s"
proof (cases "seg_start g s = seg_end g s")
  case True
  then have "cand_val profile h dir s = INT_MAX" if "same_static g h" for h
    by (simp add: cand_val_def Let_def route_value_seg_def same_staticD [OF that])
  then show ?thesis using assms(1) by simp
next
  case False
  then have *: "pt_seg (g_pt g' (seg_other g dir s)) = pt_seg (g_pt g (seg_other g dir s))" using assms(2) by simp
  have o: "seg_other g' dir s = seg_other g dir s" by (simp add: seg_other_def same_staticD [OF assms(1)])
  have "route_value_seg profile g' (Some (seg_other g dir s)) s dir = route_value_seg profile g (Some (seg_other g dir s)) s dir"
    by (rule value_seg_static [OF assms(1)]) (use * in simp)
  then show ?thesis by (auto simp: cand_val_def Let_def o * same_staticD [OF assms(1)] split: option.splits)
qed

section \<open>The lookahead value\<close>

text \<open>
  \<open>cand\<close> is the cost at which the destination can be reached over a segment, if the segment may
  be used; \<open>lookahead\<close> is the least of these costs and of the direct one, with the segment that
  gives it.
\<close>

definition cand :: "vehicleprofile \<Rightarrow> route_graph \<Rightarrow> int \<times> nat \<Rightarrow> int option" where
  "cand profile g ds = (let val = cand_val profile g (fst ds) (snd ds) in
     if val = INT_MAX then None
     else Some (route_value_add val (pt_value (g_pt g (seg_other g (fst ds) (snd ds))))))"

definition la_step :: "vehicleprofile \<Rightarrow> route_graph \<Rightarrow> int \<times> nat \<Rightarrow> int \<times> nat option \<Rightarrow> int \<times> nat option" where
  "la_step profile g ds acc = (case cand profile g ds of
       None \<Rightarrow> acc | Some v \<Rightarrow> if v < fst acc then (v, Some (snd ds)) else acc)"

definition incident :: "route_graph \<Rightarrow> nat \<Rightarrow> (int \<times> nat) list" where
  "incident g p = map (Pair 1) (pt_start (g_pt g p)) @ map (Pair (-1)) (pt_end (g_pt g p))"

definition lookahead :: "vehicleprofile \<Rightarrow> route_graph \<Rightarrow> nat \<Rightarrow> int \<times> nat option" where
  "lookahead profile g p = fold (la_step profile g) (incident g p) (pt_dst_val (g_pt g p), pt_dst_seg (g_pt g p))"

text \<open>Segments are linked at both of their ends, and nowhere else.\<close>

definition adj_wf :: "route_graph \<Rightarrow> bool" where
  "adj_wf g \<longleftrightarrow> (\<forall>p. distinct (pt_start (g_pt g p)) \<and> distinct (pt_end (g_pt g p))
     \<and> set (pt_start (g_pt g p)) = {s. s < g_ns g \<and> seg_start g s = p}
     \<and> set (pt_end (g_pt g p)) = {s. s < g_ns g \<and> seg_end g s = p})"

lemma adj_wf_static: "same_static g g' \<Longrightarrow> adj_wf g' = adj_wf g"
  by (simp add: adj_wf_def same_staticD)

lemma incident_static: "same_static g g' \<Longrightarrow> incident g' p = incident g p"
  by (simp add: incident_def same_staticD)

lemma incident_other:
  assumes "adj_wf g" "ds \<in> set (incident g p)" "seg_other g (fst ds) (snd ds) = p"
  shows "seg_start g (snd ds) = seg_end g (snd ds)"
  using assms by (auto simp: incident_def adj_wf_def seg_other_def)

abbreviation set_rs :: "nat \<Rightarrow> int \<times> nat option \<Rightarrow> route_graph \<Rightarrow> route_graph" where
  "set_rs p a g \<equiv> upd_pt p (\<lambda>x. x\<lparr>pt_rhs := fst a, pt_seg := snd a\<rparr>) g"

lemma same_static_set_rs [simp]: "same_static g (set_rs p a g)"
  by (rule same_static_upd_pt) (simp add: pt_static_def)

lemma set_rs_twice [simp]: "set_rs p a (set_rs p b g) = set_rs p a g"
  by (simp add: upd_pt_def)

lemma point_update_step_eq:
  assumes wf: "adj_wf g" and m: "(dir, s) \<in> set (incident g p)"
  shows "point_update_step profile p dir s (set_rs p a g) = set_rs p (la_step profile g (dir, s) a) g"
proof -
  let ?g = "set_rs p a g" and ?n = "seg_other g dir s"
  have n: "?n = p \<Longrightarrow> seg_start g s = seg_end g s" using incident_other [OF wf m] by simp
  have cv: "cand_val profile ?g dir s = cand_val profile g dir s"
    by (rule cand_val_static) (use n in auto)
  have "cand_val profile g dir s = INT_MAX" if "?n = p"
    using n [OF that] that by (simp add: cand_val_def Let_def route_value_seg_def)
  moreover have "upd_pt p (\<lambda>x. x\<lparr>pt_rhs := v, pt_seg := w\<rparr>) (set_rs p a g) = set_rs p (v, w) g" for v w
    by (simp add: upd_pt_def)
  ultimately show ?thesis
    by (auto simp: point_update_step_def Let_def cv la_step_def cand_def seg_other_def)
qed

lemma point_update_steps:
  assumes wf: "adj_wf g" and m: "set (map (Pair dir) ss) \<subseteq> set (incident g p)"
  shows "fold (point_update_step profile p dir) ss (set_rs p a g)
    = set_rs p (fold (la_step profile g) (map (Pair dir) ss) a) g"
  using m by (induction ss arbitrary: a) (auto simp: point_update_step_eq [OF wf])

text \<open>\<open>relink\<close> is the second half of the update: the entry of the point in the heap.\<close>

definition relink :: "nat \<Rightarrow> route_graph \<Rightarrow> route_graph option" where
  "relink p g = do {
     g \<leftarrow> (case pt_el (g_pt g p) of
            None \<Rightarrow> Some g
          | Some el \<Rightarrow> do {
              h \<leftarrow> fh_delete (g_heap g) el;
              Some (upd_pt p (\<lambda>x. x\<lparr>pt_el := None\<rparr>) (g\<lparr>g_heap := h\<rparr>))
            });
     let x = g_pt g p;
     if pt_rhs x \<noteq> pt_value x then
       (let (el, h) = fh_insertkey (g_heap g) (min (pt_rhs x) (pt_value x)) p
        in Some (upd_pt p (\<lambda>x. x\<lparr>pt_el := Some el\<rparr>) (g\<lparr>g_heap := h\<rparr>)))
     else Some g
   }"

lemma point_update_eq:
  assumes wf: "adj_wf g"
  shows "route_graph_point_update profile p g = relink p (set_rs p (lookahead profile g p) g)"
proof -
  let ?x = "g_pt g p"
  let ?g0 = "upd_pt p (\<lambda>x. x\<lparr>pt_rhs := pt_dst_val x, pt_seg := pt_dst_seg x\<rparr>) g"
  have 0: "?g0 = set_rs p (pt_dst_val ?x, pt_dst_seg ?x) g" by (simp add: upd_pt_def)
  let ?a1 = "fold (la_step profile g) (map (Pair 1) (pt_start ?x)) (pt_dst_val ?x, pt_dst_seg ?x)"
  have lists: "pt_start (g_pt (set_rs p a g) p) = pt_start ?x" "pt_end (g_pt (set_rs p a g) p) = pt_end ?x" for a
    by simp_all
  have 1: "fold (point_update_step profile p 1) (pt_start ?x) (set_rs p (pt_dst_val ?x, pt_dst_seg ?x) g) = set_rs p ?a1 g"
    by (rule point_update_steps [OF wf]) (auto simp: incident_def)
  have 2: "fold (point_update_step profile p (-1)) (pt_end ?x) (set_rs p ?a1 g) = set_rs p (lookahead profile g p) g"
    unfolding lookahead_def incident_def fold_append o_apply
    by (rule point_update_steps [OF wf]) (auto simp: incident_def)
  show ?thesis unfolding route_graph_point_update_def Let_def 0 lists 1 2 relink_def ..
qed

end
