(* ===== verification/Route_LPA_Heap.thy ===== *)
theory Route_LPA_Heap
  imports Route_LPA
begin

text \<open>
  The heap side of the path search: the handles the points keep are always live, an update leaves a
  point queued exactly when it is inconsistent, and the expansion loop keeps both.
\<close>

section \<open>Queue membership\<close>

abbreviation queue :: "route_graph \<Rightarrow> (nat \<times> int \<times> nat) set" where
  "queue g \<equiv> set (fh_entries (g_heap g))"

text \<open>Every handle a point keeps is an entry of the heap for that point.\<close>

definition heap_ok :: "route_graph \<Rightarrow> bool" where
  "heap_ok g \<longleftrightarrow> fh_wf (g_heap g) \<and> (\<forall>p e. pt_el (g_pt g p) = Some e \<longrightarrow> (\<exists>k. (e, k, p) \<in> queue g))"

definition queued :: "route_graph \<Rightarrow> nat \<Rightarrow> bool" where
  "queued g p \<longleftrightarrow> (\<exists>e k. (e, k, p) \<in> queue g)"

definition consistent :: "route_graph \<Rightarrow> nat \<Rightarrow> bool" where
  "consistent g p \<longleftrightarrow> pt_rhs (g_pt g p) = pt_value (g_pt g p)"

definition search_data :: "route_graph_point \<Rightarrow> int \<times> int \<times> nat option" where
  "search_data x = (pt_value x, pt_rhs x, pt_seg x)"

lemma relink_drop:
  assumes "heap_ok g"
  shows "\<exists>g1. (case pt_el (g_pt g p) of None \<Rightarrow> Some g
          | Some el \<Rightarrow> do { h \<leftarrow> fh_delete (g_heap g) el; Some (upd_pt p (\<lambda>x. x\<lparr>pt_el := None\<rparr>) (g\<lparr>g_heap := h\<rparr>)) }) = Some g1
    \<and> heap_ok g1 \<and> same_static g g1 \<and> (\<forall>q. q \<noteq> p \<longrightarrow> g_pt g1 q = g_pt g q)
    \<and> search_data (g_pt g1 p) = search_data (g_pt g p) \<and> pt_el (g_pt g1 p) = None
    \<and> queue g1 = {x \<in> queue g. Some (fst x) \<noteq> pt_el (g_pt g p)}"
proof (cases "pt_el (g_pt g p)")
  case None
  then show ?thesis using assms by auto
next
  case (Some e)
  have "\<exists>h'. fh_delete (g_heap g) e = Some h' \<and> fh_wf h' \<and> set (fh_entries h') = {x \<in> queue g. Some (fst x) \<noteq> Some e}"
  proof -
    obtain k0 where "(e, k0, p) \<in> queue g" using assms Some unfolding heap_ok_def by blast
    then show ?thesis using fm.fib.drop_entry_spec [of "g_heap g" "Some e"] assms
      by (auto simp: heap_ok_def fm.fib.drop_entry_def)
  qed
  then obtain h' where h': "fh_delete (g_heap g) e = Some h'" "fh_wf h'"
    "set (fh_entries h') = {x \<in> queue g. Some (fst x) \<noteq> Some e}" by blast
  let ?g1 = "upd_pt p (\<lambda>x. x\<lparr>pt_el := None\<rparr>) (g\<lparr>g_heap := h'\<rparr>)"
  have other: "e' \<noteq> e" if "q \<noteq> p" "pt_el (g_pt g q) = Some e'" for q e'
  proof
    note t = that
    assume "e' = e"
    obtain k where k: "(e, k, q) \<in> queue g" using assms t(2) \<open>e' = e\<close> by (auto simp: heap_ok_def)
    moreover obtain k' where "(e, k', p) \<in> queue g" using assms Some by (auto simp: heap_ok_def)
    ultimately have "(e, k, q) \<in> queue g" "(e, k', p) \<in> queue g" by auto
    then show False using fm.fib.handles [of "g_heap g" e k q k' p] assms t(1) by (auto simp: heap_ok_def)
  qed
  have ok: "heap_ok ?g1"
    using assms h' other by (auto simp: heap_ok_def)
  have "same_static g ?g1"
    using same_static_trans [OF same_static_heap same_static_upd_pt] by (simp add: pt_static_def)
  then show ?thesis using ok h' Some by (auto simp: search_data_def)
qed

lemma relink_spec:
  assumes "heap_ok g"
  obtains g' where "relink p g = Some g'" "heap_ok g'" "same_static g g'"
    "\<And>q. q \<noteq> p \<Longrightarrow> g_pt g' q = g_pt g q" "search_data (g_pt g' p) = search_data (g_pt g p)"
    "if consistent g p then pt_el (g_pt g' p) = None \<and> queue g' = {x \<in> queue g. Some (fst x) \<noteq> pt_el (g_pt g p)}
     else \<exists>e. pt_el (g_pt g' p) = Some e \<and> e \<notin> fst ` {x \<in> queue g. Some (fst x) \<noteq> pt_el (g_pt g p)} \<and>
       queue g' = insert (e, min (pt_rhs (g_pt g p)) (pt_value (g_pt g p)), p) {x \<in> queue g. Some (fst x) \<noteq> pt_el (g_pt g p)}"
proof -
  obtain g1 where g1: "(case pt_el (g_pt g p) of None \<Rightarrow> Some g
          | Some el \<Rightarrow> do { h \<leftarrow> fh_delete (g_heap g) el; Some (upd_pt p (\<lambda>x. x\<lparr>pt_el := None\<rparr>) (g\<lparr>g_heap := h\<rparr>)) }) = Some g1"
    and ok: "heap_ok g1" and st: "same_static g g1" and oth: "\<And>q. q \<noteq> p \<Longrightarrow> g_pt g1 q = g_pt g q"
    and sd: "search_data (g_pt g1 p) = search_data (g_pt g p)" and el: "pt_el (g_pt g1 p) = None"
    and qu: "queue g1 = {x \<in> queue g. Some (fst x) \<noteq> pt_el (g_pt g p)}"
    using relink_drop [OF assms, of p] by blast
  have rv: "pt_rhs (g_pt g1 p) = pt_rhs (g_pt g p)" "pt_value (g_pt g1 p) = pt_value (g_pt g p)"
    using sd by (auto simp: search_data_def)
  show ?thesis
  proof (cases "consistent g p")
    case True
    then have "relink p g = Some g1" unfolding relink_def g1 by (simp add: rv consistent_def)
    then show ?thesis using that [OF _ ok st oth sd] el qu True by simp
  next
    case False
    let ?k = "min (pt_rhs (g_pt g p)) (pt_value (g_pt g p))"
    obtain e h where eh: "fh_insertkey (g_heap g1) ?k p = (e, h)" by force
    note ins = fm.fib.insert_spec [OF _ eh]
    let ?g' = "upd_pt p (\<lambda>x. x\<lparr>pt_el := Some e\<rparr>) (g1\<lparr>g_heap := h\<rparr>)"
    have "relink p g = Some ?g'"
      using False unfolding relink_def g1 by (simp add: rv consistent_def eh)
    moreover have "heap_ok ?g'" unfolding heap_ok_def
    proof (intro conjI allI impI)
      show "fh_wf (g_heap ?g')" using ins ok by (simp add: heap_ok_def)
      fix q e' assume "pt_el (g_pt ?g' q) = Some e'"
      then have "(\<exists>k. (e', k, q) \<in> queue g1) \<or> q = p \<and> e' = e"
        using ok by (auto simp: heap_ok_def split: if_splits)
      then show "\<exists>k. (e', k, q) \<in> queue ?g'" using ins ok by (auto simp: heap_ok_def)
    qed
    moreover have "same_static g ?g'"
      by (rule same_static_trans [OF st same_static_trans [OF same_static_heap same_static_upd_pt]]) (simp add: pt_static_def)
    moreover have "queue ?g' = insert (e, ?k, p) (queue g1)" "e \<notin> fst ` queue g1"
      using ins ok by (auto simp: heap_ok_def)
    ultimately have *: "relink p g = Some ?g'" "heap_ok ?g'" "same_static g ?g'" "queue ?g' = insert (e, ?k, p) (queue g1)"
      "e \<notin> fst ` queue g1" by blast+
    show ?thesis
    proof (rule that [OF *(1-3)])
      show "if consistent g p then pt_el (g_pt ?g' p) = None \<and> queue ?g' = {x \<in> queue g. Some (fst x) \<noteq> pt_el (g_pt g p)}
       else \<exists>e. pt_el (g_pt ?g' p) = Some e \<and> e \<notin> fst ` {x \<in> queue g. Some (fst x) \<noteq> pt_el (g_pt g p)} \<and>
         queue ?g' = insert (e, ?k, p) {x \<in> queue g. Some (fst x) \<noteq> pt_el (g_pt g p)}"
        using *(4,5) False unfolding qu by simp
    qed (use oth sd in \<open>auto simp: search_data_def\<close>)
  qed
qed

lemma heap_ok_set_rs [simp]: "heap_ok (set_rs p a g) = heap_ok g"
  by (auto simp: heap_ok_def)

text \<open>What \<open>route_graph_point_update\<close> does, on any graph with live handles.\<close>

lemma point_update_spec:
  assumes wf: "adj_wf g" and ok: "heap_ok g"
  obtains g' where "route_graph_point_update profile p g = Some g'" "heap_ok g'" "same_static g g'"
    "\<And>q. q \<noteq> p \<Longrightarrow> g_pt g' q = g_pt g q" "pt_value (g_pt g' p) = pt_value (g_pt g p)"
    "(pt_rhs (g_pt g' p), pt_seg (g_pt g' p)) = lookahead profile g p"
    "pt_el (g_pt g' p) \<noteq> None \<longleftrightarrow> \<not> consistent g' p"
    "\<And>e. pt_el (g_pt g' p) = Some e \<Longrightarrow> queue g' = insert (e, min (pt_rhs (g_pt g' p)) (pt_value (g_pt g' p)), p)
        {x \<in> queue g. Some (fst x) \<noteq> pt_el (g_pt g p)}"
    "pt_el (g_pt g' p) = None \<Longrightarrow> queue g' = {x \<in> queue g. Some (fst x) \<noteq> pt_el (g_pt g p)}"
proof -
  let ?g = "set_rs p (lookahead profile g p) g"
  have "heap_ok ?g" using ok by simp
  from relink_spec [OF this, of p] obtain g' where g': "relink p ?g = Some g'" "heap_ok g'" "same_static ?g g'"
    "\<And>q. q \<noteq> p \<Longrightarrow> g_pt g' q = g_pt ?g q" "search_data (g_pt g' p) = search_data (g_pt ?g p)"
    "if consistent ?g p then pt_el (g_pt g' p) = None \<and> queue g' = {x \<in> queue ?g. Some (fst x) \<noteq> pt_el (g_pt ?g p)}
     else \<exists>e. pt_el (g_pt g' p) = Some e \<and> e \<notin> fst ` {x \<in> queue ?g. Some (fst x) \<noteq> pt_el (g_pt ?g p)} \<and>
       queue g' = insert (e, min (pt_rhs (g_pt ?g p)) (pt_value (g_pt ?g p)), p) {x \<in> queue ?g. Some (fst x) \<noteq> pt_el (g_pt ?g p)}"
    by blast
  have la: "pt_rhs (g_pt g' p) = fst (lookahead profile g p)" "pt_value (g_pt g' p) = pt_value (g_pt g p)"
    "pt_seg (g_pt g' p) = snd (lookahead profile g p)" using arg_cong [OF g'(5), of fst] arg_cong [OF g'(5), of "\<lambda>x. fst (snd x)"] arg_cong [OF g'(5), of "\<lambda>x. snd (snd x)"]
    unfolding search_data_def by auto
  have c: "consistent ?g p = consistent g' p" by (simp add: consistent_def la)
  show ?thesis
  proof (rule that [of g'])
    show "same_static g g'" by (rule same_static_trans [OF same_static_set_rs g'(3)])
  qed (use g' c la point_update_eq [OF wf] in \<open>auto split: if_splits\<close>)
qed

section \<open>The expansion loop keeps the queue\<close>

text \<open>The points of \<open>T\<close> (those the search has evaluated) are queued while they are inconsistent.\<close>

definition search_inv :: "nat set \<Rightarrow> route_graph \<Rightarrow> bool" where
  "search_inv T g \<longleftrightarrow> adj_wf g \<and> heap_ok g \<and> (\<forall>p\<in>T. consistent g p \<or> queued g p)"

lemma point_update_inv:
  assumes inv: "adj_wf g" "heap_ok g" "\<forall>q\<in>T - {p}. consistent g q \<or> queued g q"
  obtains g' where "route_graph_point_update profile p g = Some g'" "search_inv (insert p T) g'" "same_static g g'"
proof -
  obtain g' where g': "route_graph_point_update profile p g = Some g'" "heap_ok g'" "same_static g g'"
    "\<And>q. q \<noteq> p \<Longrightarrow> g_pt g' q = g_pt g q" "pt_value (g_pt g' p) = pt_value (g_pt g p)"
    "(pt_rhs (g_pt g' p), pt_seg (g_pt g' p)) = lookahead profile g p"
    "pt_el (g_pt g' p) \<noteq> None \<longleftrightarrow> \<not> consistent g' p"
    "\<And>e. pt_el (g_pt g' p) = Some e \<Longrightarrow> queue g' = insert (e, min (pt_rhs (g_pt g' p)) (pt_value (g_pt g' p)), p)
        {x \<in> queue g. Some (fst x) \<noteq> pt_el (g_pt g p)}"
    "pt_el (g_pt g' p) = None \<Longrightarrow> queue g' = {x \<in> queue g. Some (fst x) \<noteq> pt_el (g_pt g p)}"
    by (rule point_update_spec [OF inv(1,2), of profile p]) (rule that)
  have sub: "{x \<in> queue g. Some (fst x) \<noteq> pt_el (g_pt g p)} \<subseteq> queue g'"
    using g'(8,9) by (cases "pt_el (g_pt g' p)") auto
  have "queued g' q" if "queued g q" "q \<noteq> p" for q
  proof -
    note t = that
    obtain e k where e: "(e, k, q) \<in> queue g" using t(1) by (auto simp: queued_def)
    have "Some e \<noteq> pt_el (g_pt g p)"
    proof
      assume "Some e = pt_el (g_pt g p)"
      then obtain k' where "(e, k', p) \<in> queue g" using inv(2) unfolding heap_ok_def by metis
      then show False using fm.fib.handles [OF _ e, of k' p] inv(2) t(2) by (auto simp: heap_ok_def)
    qed
    then have "(e, k, q) \<in> queue g'" using subsetD [OF sub] e by simp
    then show ?thesis by (auto simp: queued_def)
  qed
  moreover have "consistent g' q = consistent g q" if "q \<noteq> p" for q
    using g'(4) [OF that] by (simp add: consistent_def)
  moreover have "consistent g' p \<or> queued g' p"
    using g'(7,8) unfolding queued_def by (cases "pt_el (g_pt g' p)") auto
  ultimately have "\<forall>q\<in>insert p T. consistent g' q \<or> queued g' q" using inv(3) by (metis Diff_iff empty_iff insert_iff)
  then have "search_inv (insert p T) g'"
    using inv g'(2) adj_wf_static [OF g'(3)] by (simp add: search_inv_def)
  then show ?thesis using that g' by blast
qed

lemma search_inv_mono: "search_inv T g \<Longrightarrow> S \<subseteq> T \<Longrightarrow> search_inv S g"
  by (auto simp: search_inv_def)

lemma relax_all_inv:
  assumes "search_inv T g"
  shows "\<exists>g'. relax_all profile dir ss g = Some g' \<and> search_inv T g' \<and> same_static g g'"
  using assms
proof (induction ss arbitrary: g)
  case (Cons s ss)
  show ?case
  proof (cases "relaxable profile g (- 2 * dir) s")
    case True
    have "adj_wf g" "heap_ok g" "\<forall>q\<in>T - {seg_other g dir s}. consistent g q \<or> queued g q"
      using Cons.prems by (auto simp: search_inv_def)
    from point_update_inv [OF this, of profile] obtain g1 where
      g1: "route_graph_point_update profile (seg_other g dir s) g = Some g1" "search_inv T g1" "same_static g g1"
      using search_inv_mono by (metis subset_insertI)
    with Cons.IH [OF g1(2)] True show ?thesis by (auto intro: same_static_trans)
  qed (use Cons in auto)
qed auto

lemma same_static_extract:
  "same_static g (upd_pt p (\<lambda>x. x\<lparr>pt_el := None\<rparr>) (g\<lparr>g_heap := h\<rparr>))"
  by (rule same_static_trans [OF same_static_heap same_static_upd_pt]) (simp add: pt_static_def)

lemma search_induct:
  assumes "route_graph_compute_shortest_path pick profile g = Some g'" "I g"
    and step: "\<And>g p h g1. I g \<Longrightarrow> fh_extractmin pick (g_heap g) = Some (p, h) \<Longrightarrow>
       expand_point profile p (g\<lparr>g_heap := h\<rparr>) = Some g1 \<Longrightarrow> I g1"
  shows "I g' \<and> fh_extractmin pick (g_heap g') = None"
proof -
  have "pick = pick \<longrightarrow> profile = profile \<longrightarrow> I g \<longrightarrow> I g' \<and> fh_extractmin pick (g_heap g') = None"
  proof (rule route_graph_compute_shortest_path.raw_induct [OF _ assms(1), where
        P = "\<lambda>pk pr g g'. pk = pick \<longrightarrow> pr = profile \<longrightarrow> I g \<longrightarrow> I g' \<and> fh_extractmin pick (g_heap g') = None"], intro impI)
    fix f pk pr g r
    assume IH: "\<And>pk pr g r. f pk pr g = Some r \<Longrightarrow> pk = pick \<longrightarrow> pr = profile \<longrightarrow> I g \<longrightarrow> I r \<and> fh_extractmin pick (g_heap r) = None"
      and body: "(if route_graph_is_path_computed pk g then Some g
      else (case fh_extractmin pk (g_heap g) of
              None \<Rightarrow> Some g
            | Some (p, h) \<Rightarrow> Option.bind (expand_point pr p (g\<lparr>g_heap := h\<rparr>)) (\<lambda>g. f pk pr g))) = Some r"
      and eq: "pk = pick" "pr = profile" "I g"
    show "I r \<and> fh_extractmin pick (g_heap r) = None"
    proof (cases "fh_extractmin pick (g_heap g)")
      case None
      then show ?thesis using body eq by (auto split: if_splits)
    next
      case (Some ph)
      obtain p h where ph: "ph = (p, h)" by force
      obtain g1 where "expand_point profile p (g\<lparr>g_heap := h\<rparr>) = Some g1" "f pick profile g1 = Some r"
        using body eq Some ph by (auto simp: route_graph_is_path_computed_def fh_min_def bind_eq_Some_conv)
      then show ?thesis using IH step [OF eq(3)] Some ph by blast
    qed
  qed
  then show ?thesis using assms(2) by simp
qed

context heap_pick
begin

lemma extract_inv:
  assumes inv: "search_inv T g" and ext: "fh_extractmin pick (g_heap g) = Some (p, h)"
  defines "g1 \<equiv> upd_pt p (\<lambda>x. x\<lparr>pt_el := None\<rparr>) (g\<lparr>g_heap := h\<rparr>)"
  shows "adj_wf g1" "heap_ok g1" "\<forall>q\<in>T - {p}. consistent g1 q \<or> queued g1 q"
proof -
  have wf: "fh_wf (g_heap g)" using inv by (simp add: search_inv_def heap_ok_def)
  obtain e k where e: "(e, k, p) \<in> queue g" "fh_wf h" "set (fh_entries h) = queue g - {(e, k, p)}"
    using fib.extract_spec [OF wf ext] by blast
  show "adj_wf g1" using inv adj_wf_static [OF same_static_extract] by (simp add: g1_def search_inv_def)
  have keep: "(e', k', q) \<in> set (fh_entries h)" if "(e', k', q) \<in> queue g" "q \<noteq> p" for e' k' q
    using that e(3) by auto
  show "heap_ok g1" unfolding heap_ok_def
  proof (intro conjI allI impI)
    show "fh_wf (g_heap g1)" using e(2) by (simp add: g1_def)
    fix q e' assume "pt_el (g_pt g1 q) = Some e'"
    then have q: "q \<noteq> p" "pt_el (g_pt g q) = Some e'" by (auto simp: g1_def split: if_splits)
    moreover have "heap_ok g" using inv by (simp add: search_inv_def)
    ultimately obtain k' where "(e', k', q) \<in> queue g" unfolding heap_ok_def by metis
    then have "(e', k', q) \<in> queue g1" using keep q(1) by (simp add: g1_def)
    then show "\<exists>k'. (e', k', q) \<in> queue g1" ..
  qed
  show "\<forall>q\<in>T - {p}. consistent g1 q \<or> queued g1 q"
  proof
    fix q assume q: "q \<in> T - {p}"
    then have "consistent g q \<or> queued g q" using inv by (simp add: search_inv_def)
    then show "consistent g1 q \<or> queued g1 q"
    proof
      assume "queued g q"
      then obtain e' k' where "(e', k', q) \<in> queue g" by (auto simp: queued_def)
      then have "(e', k', q) \<in> queue g1" using keep q by (simp add: g1_def)
      then show ?thesis by (auto simp: queued_def)
    qed (use q in \<open>simp add: consistent_def g1_def\<close>)
  qed
qed

lemma upd_value_keeps:
  fixes f :: "route_graph_point \<Rightarrow> int"
  assumes "adj_wf g" "heap_ok g" "\<forall>q\<in>T - {p}. consistent g q \<or> queued g q"
  defines "h \<equiv> upd_pt p (\<lambda>x. x\<lparr>pt_value := f x\<rparr>) g"
  shows "adj_wf h" "heap_ok h" "\<forall>q\<in>T - {p}. consistent h q \<or> queued h q" "same_static g h"
proof -
  show st: "same_static g h" unfolding h_def by (rule same_static_upd_pt) (simp add: pt_static_def)
  show "adj_wf h" using assms(1) adj_wf_static [OF st] by simp
  show "heap_ok h" using assms(2) by (simp add: heap_ok_def h_def)
  show "\<forall>q\<in>T - {p}. consistent h q \<or> queued h q"
    using assms(3) by (simp add: consistent_def queued_def h_def)
qed

lemma expand_point_inv:
  assumes inv: "search_inv T g" and ext: "fh_extractmin pick (g_heap g) = Some (p, h)"
  shows "\<exists>g'. expand_point profile p (g\<lparr>g_heap := h\<rparr>) = Some g' \<and> search_inv T g' \<and> same_static g g'"
proof -
  let ?g1 = "upd_pt p (\<lambda>x. x\<lparr>pt_el := None\<rparr>) (g\<lparr>g_heap := h\<rparr>)"
  note g1 = extract_inv [OF inv ext]
  have st: "same_static g ?g1" by (rule same_static_extract)
  have "\<exists>g2. (if pt_rhs (g_pt ?g1 p) < pt_value (g_pt ?g1 p)
          then Some (upd_pt p (\<lambda>x. x\<lparr>pt_value := pt_rhs x\<rparr>) ?g1)
          else route_graph_point_update profile p (upd_pt p (\<lambda>x. x\<lparr>pt_value := INT_MAX\<rparr>) ?g1)) = Some g2
      \<and> search_inv T g2 \<and> same_static g g2"
  proof (cases "pt_rhs (g_pt ?g1 p) < pt_value (g_pt ?g1 p)")
    case True
    let ?g2 = "upd_pt p (\<lambda>x. x\<lparr>pt_value := pt_rhs x\<rparr>) ?g1"
    note k = upd_value_keeps [OF g1, of pt_rhs]
    have "consistent ?g2 p" by (simp add: consistent_def)
    then have "search_inv T ?g2" using k(1-3) unfolding search_inv_def by blast
    then show ?thesis using True same_static_trans [OF st k(4)] by simp
  next
    case False
    let ?g2 = "upd_pt p (\<lambda>x. x\<lparr>pt_value := INT_MAX\<rparr>) ?g1"
    note k = upd_value_keeps [OF g1, of "\<lambda>_. INT_MAX"]
    obtain g3 where g3: "route_graph_point_update profile p ?g2 = Some g3" "search_inv (insert p T) g3" "same_static ?g2 g3"
      by (rule point_update_inv [OF k(1-3)])
    then have "search_inv T g3" "same_static g g3"
      using search_inv_mono [OF g3(2), of T] same_static_trans [OF same_static_trans [OF st k(4)] g3(3)] by blast+
    then show ?thesis using False g3(1) by simp
  qed
  then obtain g2 where g2: "(if pt_rhs (g_pt ?g1 p) < pt_value (g_pt ?g1 p)
          then Some (upd_pt p (\<lambda>x. x\<lparr>pt_value := pt_rhs x\<rparr>) ?g1)
          else route_graph_point_update profile p (upd_pt p (\<lambda>x. x\<lparr>pt_value := INT_MAX\<rparr>) ?g1)) = Some g2"
      "search_inv T g2" "same_static g g2" by blast
  obtain g3 where g3: "relax_all profile 1 (pt_start (g_pt g2 p)) g2 = Some g3" "search_inv T g3" "same_static g2 g3"
    using relax_all_inv [OF g2(2)] by blast
  obtain g4 where g4: "relax_all profile (-1) (pt_end (g_pt g3 p)) g3 = Some g4" "search_inv T g4" "same_static g3 g4"
    using relax_all_inv [OF g3(2)] by blast
  have "expand_point profile p (g\<lparr>g_heap := h\<rparr>) = Some g4"
    unfolding expand_point_def Let_def g2(1) by (simp add: g3(1) g4(1))
  then show ?thesis using g4 same_static_trans g2(3) g3(3) by blast
qed

lemma computed_iff: "fh_wf (g_heap g) \<Longrightarrow> route_graph_is_path_computed pick g \<longleftrightarrow> queue g = {}"
  using fib.extract_None [of "g_heap g"] by (auto simp: route_graph_is_path_computed_def fh_min_def)

lemma search_ends_consistent:
  assumes "search_inv T g" "route_graph_compute_shortest_path pick profile g = Some g'"
  shows "search_inv T g' \<and> same_static g g' \<and> queue g' = {} \<and> (\<forall>p\<in>T. consistent g' p)"
proof -
  have "(search_inv T g' \<and> same_static g g') \<and> fh_extractmin pick (g_heap g') = None"
  proof (rule search_induct [OF assms(2), where I = "\<lambda>h. search_inv T h \<and> same_static g h"])
    show "search_inv T g \<and> same_static g g" using assms(1) by simp
    fix g1 p h g2 assume "search_inv T g1 \<and> same_static g g1" "fh_extractmin pick (g_heap g1) = Some (p, h)"
      "expand_point profile p (g1\<lparr>g_heap := h\<rparr>) = Some g2"
    then show "search_inv T g2 \<and> same_static g g2"
      using expand_point_inv [of T g1 p h profile] same_static_trans by fastforce
  qed
  moreover from this have "queue g' = {}"
    using fib.extract_None [of "g_heap g'"] by (simp add: search_inv_def heap_ok_def)
  ultimately show ?thesis by (auto simp: search_inv_def queued_def)
qed

end

end
