(* ===== verification/Route_Dijkstra.thy ===== *)
theory Route_Dijkstra
  imports Route_LPA_Heap
begin

text \<open>
  Correctness of the path search on a graph that has not been flooded: the expansion loop ends and
  gives every point the cost of a cheapest way to the destination. The conditions (\<open>regular\<close>)
  exclude what makes the cost of a segment depend on the way taken after it: through traffic
  penalties and turning around on a segment of the same street.
\<close>

section \<open>First minimum of a list\<close>

definition amin :: "('a \<Rightarrow> int) \<Rightarrow> ('a \<Rightarrow> 'b) \<Rightarrow> 'a list \<Rightarrow> int \<times> 'b option \<Rightarrow> int \<times> 'b option" where
  "amin f h xs a = fold (\<lambda>x acc. if f x < fst acc then (f x, Some (h x)) else acc) xs a"

lemma amin_simps [simp]:
  "amin f h [] a = a"
  "amin f h (x # xs) a = amin f h xs (if f x < fst a then (f x, Some (h x)) else a)"
  by (simp_all add: amin_def)

lemma amin_le: "fst (amin f h xs a) \<le> fst a \<and> (\<forall>x\<in>set xs. fst (amin f h xs a) \<le> f x)"
proof (induction xs arbitrary: a)
  case (Cons x xs)
  show ?case using Cons.IH [of "if f x < fst a then (f x, Some (h x)) else a"] by (auto split: if_splits)
qed simp

lemma amin_cases: "amin f h xs a = a \<or> (\<exists>x\<in>set xs. amin f h xs a = (f x, Some (h x)) \<and> f x < fst a)"
proof (induction xs arbitrary: a)
  case (Cons x xs)
  show ?case using Cons.IH [of "if f x < fst a then (f x, Some (h x)) else a"] by (auto split: if_splits)
qed simp

lemma amin_ge: "m \<le> fst a \<Longrightarrow> (\<And>x. x \<in> set xs \<Longrightarrow> m \<le> f x) \<Longrightarrow> m \<le> fst (amin f h xs a)"
  by (induction xs arbitrary: a) auto

lemma amin_cong: "(\<And>x. x \<in> set xs \<Longrightarrow> f x = f' x) \<Longrightarrow> amin f h xs a = amin f' h xs a"
  by (induction xs arbitrary: a) auto

lemma amin_stable_aux:
  assumes "\<And>x. x \<in> set xs \<Longrightarrow> f' x = f x \<or> m < f' x \<and> m < f x"
    and "fst (amin f h xs a) = m" "a' = a \<or> m < fst a \<and> m < fst a'"
  shows "amin f' h xs a' = amin f h xs a"
  using assms
proof (induction xs arbitrary: a a')
  case (Cons x xs)
  let ?s = "\<lambda>f a. if f x < fst a then (f x, Some (h x)) else a"
  have m: "m \<le> fst a" "m \<le> f x" using amin_le [of f h "x # xs" a] Cons.prems(2) by auto
  have "?s f' a' = ?s f a \<or> m < fst (?s f a) \<and> m < fst (?s f' a')"
    using Cons.prems(1) [of x] Cons.prems(3) m by auto
  then show ?case using Cons.IH [of "?s f a" "?s f' a'"] Cons.prems(1,2) by simp
qed auto

lemma amin_stable:
  assumes "\<And>x. x \<in> set xs \<Longrightarrow> f' x = f x \<or> fst (amin f h xs a) < f' x \<and> fst (amin f h xs a) < f x"
  shows "amin f' h xs a = amin f h xs a"
  by (rule amin_stable_aux [where m = "fst (amin f h xs a)"]) (use assms in auto)

section \<open>Weights\<close>

text \<open>The cost of a segment in a direction, without regard to what follows.\<close>

definition weight :: "vehicleprofile \<Rightarrow> route_graph \<Rightarrow> int \<times> nat \<Rightarrow> int" where
  "weight profile g ds = (if seg_start g (snd ds) = seg_end g (snd ds) then INT_MAX
     else route_value_seg profile g None (snd ds) (fst ds))"

abbreviation other :: "route_graph \<Rightarrow> int \<times> nat \<Rightarrow> nat" where
  "other g ds \<equiv> seg_other g (fst ds) (snd ds)"

definition usable :: "vehicleprofile \<Rightarrow> route_graph \<Rightarrow> nat \<Rightarrow> bool" where
  "usable profile g s \<longleftrightarrow> s < g_ns g \<and> (weight profile g (1, s) \<noteq> INT_MAX \<or> weight profile g (-1, s) \<noteq> INT_MAX)"

text \<open>The ways to the destination: the costs at which it can be reached from a point.\<close>

inductive drive :: "vehicleprofile \<Rightarrow> route_graph \<Rightarrow> nat \<Rightarrow> int \<Rightarrow> bool" for profile g where
  drive_dst: "pt_dst_val (g_pt g p) \<noteq> INT_MAX \<Longrightarrow> drive profile g p (pt_dst_val (g_pt g p))"
| drive_step: "ds \<in> set (incident g p) \<Longrightarrow> weight profile g ds \<noteq> INT_MAX \<Longrightarrow>
    drive profile g (other g ds) v \<Longrightarrow> drive profile g p (weight profile g ds + v)"

definition regular :: "vehicleprofile \<Rightarrow> route_graph \<Rightarrow> int \<Rightarrow> bool" where
  "regular profile g W \<longleftrightarrow> adj_wf g \<and> 0 \<le> W \<and> (int (g_np g) + 1) * W < INT_MAX
   \<and> (\<forall>s<g_ns g. seg_start g s < g_np g \<and> seg_end g s < g_np g)
   \<and> (\<forall>s<g_ns g. \<forall>dir\<in>{1, -1}. weight profile g (dir, s) \<noteq> INT_MAX \<longrightarrow>
        0 < weight profile g (dir, s) \<and> weight profile g (dir, s) \<le> W
        \<and> relaxable profile g (2 * dir) s \<and> route_through_traffic_allowed profile g s)
   \<and> (\<forall>s t. usable profile g s \<longrightarrow> usable profile g t \<longrightarrow> item_is_equal (seg_item g s) (seg_item g t) \<longrightarrow> s = t)
   \<and> (\<forall>p. if pt_dst_val (g_pt g p) = INT_MAX then pt_dst_seg (g_pt g p) = None
          else p < g_np g \<and> 0 \<le> pt_dst_val (g_pt g p) \<and> pt_dst_val (g_pt g p) \<le> W
            \<and> (\<exists>s. pt_dst_seg (g_pt g p) = Some s \<and> usable profile g s))
   \<and> (\<forall>p. \<forall>ds\<in>set (incident g p). weight profile g ds \<noteq> INT_MAX \<longrightarrow>
        pt_dst_seg (g_pt g (other g ds)) = Some (snd ds) \<longrightarrow>
        pt_dst_val (g_pt g p) \<le> weight profile g ds + pt_dst_val (g_pt g (other g ds)))"

lemma value_seg_None_static:
  "same_static g g' \<Longrightarrow> route_value_seg profile g' None s d = route_value_seg profile g None s d"
  by (rule value_seg_static) auto

lemma weight_static: "same_static g g' \<Longrightarrow> weight profile g' ds = weight profile g ds"
  by (simp add: weight_def value_seg_None_static same_staticD(1))

lemma relaxable_static: "same_static g g' \<Longrightarrow> relaxable profile g' d s = relaxable profile g d s"
  by (simp add: relaxable_def value_seg_None_static same_staticD(1))

lemma other_static: "same_static g g' \<Longrightarrow> other g' ds = other g ds"
  by (simp add: seg_other_def same_staticD)

lemma usable_static: "same_static g g' \<Longrightarrow> usable profile g' s = usable profile g s"
  by (simp add: usable_def weight_static same_staticD)

text \<open>The cost a segment contributes to the lookahead value, INT_MAX for none.\<close>

definition eff :: "vehicleprofile \<Rightarrow> route_graph \<Rightarrow> int \<times> nat \<Rightarrow> int" where
  "eff profile g ds = (case cand profile g ds of None \<Rightarrow> INT_MAX | Some v \<Rightarrow> v)"

lemma route_value_add_le: "route_value_add a b \<le> INT_MAX"
  using i32_range(2) by (simp add: route_value_add_def)

lemma eff_le: "eff profile g ds \<le> INT_MAX"
  by (auto simp: eff_def cand_def Let_def route_value_add_le split: option.splits)

lemma lookahead_amin:
  assumes "pt_dst_val (g_pt g p) \<le> INT_MAX"
  shows "lookahead profile g p = amin (eff profile g) snd (incident g p) (pt_dst_val (g_pt g p), pt_dst_seg (g_pt g p))"
proof -
  have "fold (la_step profile g) xs a = amin (eff profile g) snd xs a" if "fst a \<le> INT_MAX" for xs a
    using that
  proof (induction xs arbitrary: a)
    case (Cons x xs)
    have "la_step profile g x a = (if eff profile g x < fst a then (eff profile g x, Some (snd x)) else a)"
      using Cons.prems by (auto simp: la_step_def eff_def split: option.splits)
    then show ?case using Cons.IH Cons.prems eff_le [of profile g x] by simp
  qed simp
  then show ?thesis using assms by (simp add: lookahead_def)
qed

section \<open>The cost of a neighbour\<close>

text \<open>Every segment a point keeps as its next one is usable.\<close>

definition segs_ok :: "vehicleprofile \<Rightarrow> route_graph \<Rightarrow> bool" where
  "segs_ok profile g \<longleftrightarrow> (\<forall>p s. pt_seg (g_pt g p) = Some s \<longrightarrow> usable profile g s)"

lemma incident_cases:
  assumes "ds \<in> set (incident g p)" "adj_wf g"
  shows "fst ds \<in> {1, -1}" "snd ds < g_ns g" "p = (if fst ds = 1 then seg_start g (snd ds) else seg_end g (snd ds))"
  using assms by (auto simp: incident_def adj_wf_def)

lemma regularD:
  assumes "regular profile g W" "ds \<in> set (incident g p)" "weight profile g ds \<noteq> INT_MAX"
  shows "0 < weight profile g ds" "weight profile g ds \<le> W" "relaxable profile g (2 * fst ds) (snd ds)"
    "route_through_traffic_allowed profile g (snd ds)" "usable profile g (snd ds)" "p < g_np g" "other g ds < g_np g"
    "other g ds \<noteq> p"
proof -
  have wf: "adj_wf g" using assms(1) by (simp add: regular_def)
  note c = incident_cases [OF assms(2) wf]
  have all: "\<forall>s<g_ns g. \<forall>dir\<in>{1, -1}. weight profile g (dir, s) \<noteq> INT_MAX \<longrightarrow>
        0 < weight profile g (dir, s) \<and> weight profile g (dir, s) \<le> W
        \<and> relaxable profile g (2 * dir) s \<and> route_through_traffic_allowed profile g s"
    and b: "\<forall>s<g_ns g. seg_start g s < g_np g \<and> seg_end g s < g_np g"
    using assms(1) unfolding regular_def by blast+
  have x: "0 < weight profile g (fst ds, snd ds) \<and> weight profile g (fst ds, snd ds) \<le> W
        \<and> relaxable profile g (2 * fst ds) (snd ds) \<and> route_through_traffic_allowed profile g (snd ds)"
    using all c(1,2) assms(3) by (metis prod.collapse)
  then show "0 < weight profile g ds" "weight profile g ds \<le> W" "relaxable profile g (2 * fst ds) (snd ds)"
    "route_through_traffic_allowed profile g (snd ds)" by simp_all
  show "usable profile g (snd ds)" using c(1,2) assms(3) unfolding usable_def by (metis insertE singletonD prod.collapse)
  show "p < g_np g" "other g ds < g_np g" using b c by (auto simp: seg_other_def)
  show "other g ds \<noteq> p" using assms(3) c by (auto simp: weight_def seg_other_def split: if_splits)
qed

lemma cand_eq:
  assumes reg: "regular profile g W" and segs: "segs_ok profile g" and ds: "ds \<in> set (incident g p)"
  shows "cand profile g ds = (if weight profile g ds = INT_MAX \<or> pt_seg (g_pt g (other g ds)) = Some (snd ds) then None
     else Some (route_value_add (weight profile g ds) (pt_value (g_pt g (other g ds)))))"
proof (cases "seg_start g (snd ds) = seg_end g (snd ds)")
  case True
  then show ?thesis by (simp add: cand_def cand_val_def Let_def route_value_seg_def weight_def)
next
  case False
  obtain dir s where dss: "ds = (dir, s)" by force
  let ?n = "seg_other g dir s" and ?w = "route_value_seg profile g None s dir"
  have w: "weight profile g ds = ?w" using False by (simp add: weight_def dss)
  have d: "dir \<noteq> 0" using incident_cases(1) [OF ds] reg by (auto simp: dss regular_def)
  show ?thesis
  proof (cases "pt_seg (g_pt g ?n) = Some s")
    case True
    then have "route_value_seg profile g (Some ?n) s dir = INT_MAX"
      by (simp add: route_value_seg_def Let_def)
    then show ?thesis using True by (simp add: cand_def cand_val_def Let_def dss)
  next
    case ns: False
    show ?thesis
    proof (cases "?w = INT_MAX")
      case True
      have "route_value_seg profile g (Some ?n) s dir = INT_MAX"
      proof (rule ccontr)
        assume *: "route_value_seg profile g (Some ?n) s dir \<noteq> INT_MAX"
        then show False using True False ns dss by (auto simp: route_value_seg_def Let_def split: if_splits)
      qed
      then show ?thesis using True w by (simp add: cand_def cand_val_def Let_def dss)
    next
      case wn: False
      have al: "route_through_traffic_allowed profile g s" using regularD(4) [OF reg ds] wn w dss by simp
      have v: "route_value_seg profile g (Some ?n) s dir = ?w"
        using wn ns False al dss by (auto simp: route_value_seg_def Let_def split: if_splits)
      have "\<not> item_is_equal (seg_item g s) (seg_item g t)" if "pt_seg (g_pt g ?n) = Some t" for t
      proof -
        have "usable profile g t" using segs that by (simp add: segs_ok_def)
        moreover have "usable profile g s" using regularD(5) [OF reg ds] wn w dss by simp
        moreover have "t \<noteq> s" using that ns by simp
        ultimately show ?thesis using reg unfolding regular_def by blast
      qed
      then have "cand_val profile g dir s = ?w"
        by (auto simp: cand_val_def Let_def v split: option.splits)
      then show ?thesis using ns wn w by (simp add: cand_def dss)
    qed
  qed
qed

text \<open>The lookahead value of a point depends on the settled neighbours only.\<close>

lemma eff_eq:
  assumes reg: "regular profile g W" and segs: "segs_ok profile g" and ds: "ds \<in> set (incident g p)"
  shows "eff profile g ds = (if weight profile g ds = INT_MAX \<or> pt_seg (g_pt g (other g ds)) = Some (snd ds)
       \<or> pt_value (g_pt g (other g ds)) = INT_MAX then INT_MAX
     else i32 (weight profile g ds + pt_value (g_pt g (other g ds))))"
  by (simp add: eff_def cand_eq [OF reg segs ds] route_value_add_def)

lemma regular_static: "same_static g g' \<Longrightarrow> regular profile g' W = regular profile g W"
  by (simp add: regular_def adj_wf_static weight_static relaxable_static usable_static other_static incident_static
      same_staticD route_through_traffic_allowed_def)

lemma regular_dst:
  assumes "regular profile g W" shows "pt_dst_val (g_pt g p) \<le> INT_MAX"
proof -
  have "(int (g_np g) + 1) * W < INT_MAX" "0 \<le> W"
    "if pt_dst_val (g_pt g p) = INT_MAX then pt_dst_seg (g_pt g p) = None
          else p < g_np g \<and> 0 \<le> pt_dst_val (g_pt g p) \<and> pt_dst_val (g_pt g p) \<le> W
            \<and> (\<exists>s. pt_dst_seg (g_pt g p) = Some s \<and> usable profile g s)"
    using assms unfolding regular_def by blast+
  moreover have "W \<le> (int (g_np g) + 1) * W" using \<open>0 \<le> W\<close> by (simp add: distrib_right)
  ultimately show ?thesis by (auto split: if_splits)
qed

lemma lookahead_eq:
  assumes "regular profile g W"
  shows "lookahead profile g p = amin (eff profile g) snd (incident g p) (pt_dst_val (g_pt g p), pt_dst_seg (g_pt g p))"
  by (rule lookahead_amin [OF regular_dst [OF assms]])

lemma lookahead_static:
  assumes reg: "regular profile g W" and segs: "segs_ok profile g" "segs_ok profile g'" and st: "same_static g g'"
    and eq: "\<And>q. pt_value (g_pt g' q) = pt_value (g_pt g q)"
    "\<And>q. pt_value (g_pt g q) \<noteq> INT_MAX \<Longrightarrow> pt_seg (g_pt g' q) = pt_seg (g_pt g q)"
  shows "lookahead profile g' p = lookahead profile g p"
proof -
  have reg': "regular profile g' W" using reg regular_static [OF st] by simp
  have "eff profile g' ds = eff profile g ds" if "ds \<in> set (incident g p)" for ds
  proof -
    have "ds \<in> set (incident g' p)" using that incident_static [OF st] by simp
    then show ?thesis
      unfolding eff_eq [OF reg segs(1) that] eff_eq [OF reg' segs(2) \<open>ds \<in> set (incident g' p)\<close>]
        other_static [OF st] weight_static [OF st] eq(1)
      by (cases "pt_value (g_pt g (other g ds)) = INT_MAX") (auto simp: eq(2))
  qed
  then show ?thesis
    unfolding lookahead_eq [OF reg] lookahead_eq [OF reg'] incident_static [OF st] same_staticD(6,7) [OF st]
    by (intro amin_cong) simp
qed

lemma lookahead_seg_usable:
  assumes reg: "regular profile g W" and segs: "segs_ok profile g" and "snd (lookahead profile g p) = Some s"
  shows "usable profile g s"
proof -
  have dst: "if pt_dst_val (g_pt g p) = INT_MAX then pt_dst_seg (g_pt g p) = None
          else p < g_np g \<and> 0 \<le> pt_dst_val (g_pt g p) \<and> pt_dst_val (g_pt g p) \<le> W
            \<and> (\<exists>s. pt_dst_seg (g_pt g p) = Some s \<and> usable profile g s)"
    using reg unfolding regular_def by blast
  from amin_cases [of "eff profile g" snd "incident g p" "(pt_dst_val (g_pt g p), pt_dst_seg (g_pt g p))"]
  show ?thesis
  proof
    assume "amin (eff profile g) snd (incident g p) (pt_dst_val (g_pt g p), pt_dst_seg (g_pt g p)) = (pt_dst_val (g_pt g p), pt_dst_seg (g_pt g p))"
    then show ?thesis using assms(3) dst by (auto simp: lookahead_eq [OF reg] split: if_splits)
  next
    assume "\<exists>x\<in>set (incident g p). amin (eff profile g) snd (incident g p) (pt_dst_val (g_pt g p), pt_dst_seg (g_pt g p))
      = (eff profile g x, Some (snd x)) \<and> eff profile g x < fst (pt_dst_val (g_pt g p), pt_dst_seg (g_pt g p))"
    then obtain x where x: "x \<in> set (incident g p)" "snd x = s" "eff profile g x < pt_dst_val (g_pt g p)"
      using assms(3) by (auto simp: lookahead_eq [OF reg])
    then have "weight profile g x \<noteq> INT_MAX"
      using regular_dst [OF reg, of p] by (auto simp: eff_eq [OF reg segs] split: if_splits)
    then show ?thesis using regularD(5) [OF reg x(1)] x(2) by simp
  qed
qed

section \<open>The queue during the search\<close>

text \<open>Each entry is the one its point keeps the handle of.\<close>

definition heap_exact :: "route_graph \<Rightarrow> bool" where
  "heap_exact g \<longleftrightarrow> heap_ok g \<and> (\<forall>e k p. (e, k, p) \<in> queue g \<longrightarrow> pt_el (g_pt g p) = Some e)"

text \<open>A point that is not settled is queued under its lookahead value \<open>la\<close>, if that is finite.\<close>

definition entry_ok :: "(nat \<Rightarrow> int \<times> nat option) \<Rightarrow> route_graph \<Rightarrow> nat \<Rightarrow> bool" where
  "entry_ok la g q \<longleftrightarrow> (if fst (la q) = INT_MAX then pt_el (g_pt g q) = None
     else (pt_rhs (g_pt g q), pt_seg (g_pt g q)) = la q
       \<and> (\<exists>e. pt_el (g_pt g q) = Some e \<and> (e, fst (la q), q) \<in> queue g))"

text \<open>
  The state of the two loops that update the neighbours of the point just settled: \<open>la\<close> is the
  lookahead value to reach, \<open>F\<close> the settled points, \<open>S\<close> the points already brought up to date.
\<close>

definition relax_inv ::
  "vehicleprofile \<Rightarrow> route_graph \<Rightarrow> nat set \<Rightarrow> (nat \<Rightarrow> int \<times> nat option) \<Rightarrow> nat set \<Rightarrow> route_graph \<Rightarrow> bool" where
  "relax_inv profile g0 F la S g \<longleftrightarrow> same_static g0 g \<and> heap_exact g \<and> segs_ok profile g
     \<and> (\<forall>q. lookahead profile g q = la q)
     \<and> (\<forall>q. pt_value (g_pt g q) = (if q \<in> F then fst (la q) else INT_MAX))
     \<and> (\<forall>q\<in>F. (pt_rhs (g_pt g q), pt_seg (g_pt g q)) = la q \<and> pt_el (g_pt g q) = None)
     \<and> (\<forall>q\<in>S - F. entry_ok la g q)"

lemma relax_inv_update:
  assumes reg: "regular profile g0 W" and inv: "relax_inv profile g0 F la S g"
  shows "\<exists>g'. route_graph_point_update profile p g = Some g' \<and> relax_inv profile g0 F la (insert p S) g'"
proof -
  have st: "same_static g0 g" and ex: "heap_exact g" and segs: "segs_ok profile g"
    and la: "\<And>q. lookahead profile g q = la q"
    and val: "\<And>q. pt_value (g_pt g q) = (if q \<in> F then fst (la q) else INT_MAX)"
    and F: "\<And>q. q \<in> F \<Longrightarrow> (pt_rhs (g_pt g q), pt_seg (g_pt g q)) = la q \<and> pt_el (g_pt g q) = None"
    and S: "\<And>q. q \<in> S - F \<Longrightarrow> entry_ok la g q"
    using inv unfolding relax_inv_def by blast+
  have regg: "regular profile g W" using reg regular_static [OF st] by simp
  have wf: "adj_wf g" and ok: "heap_ok g" using regg ex unfolding regular_def heap_exact_def by blast+
  obtain g' where g': "route_graph_point_update profile p g = Some g'" "heap_ok g'" "same_static g g'"
    "\<And>q. q \<noteq> p \<Longrightarrow> g_pt g' q = g_pt g q" "pt_value (g_pt g' p) = pt_value (g_pt g p)"
    "(pt_rhs (g_pt g' p), pt_seg (g_pt g' p)) = lookahead profile g p"
    "pt_el (g_pt g' p) \<noteq> None \<longleftrightarrow> \<not> consistent g' p"
    "\<And>e. pt_el (g_pt g' p) = Some e \<Longrightarrow> queue g' = insert (e, min (pt_rhs (g_pt g' p)) (pt_value (g_pt g' p)), p)
        {x \<in> queue g. Some (fst x) \<noteq> pt_el (g_pt g p)}"
    "pt_el (g_pt g' p) = None \<Longrightarrow> queue g' = {x \<in> queue g. Some (fst x) \<noteq> pt_el (g_pt g p)}"
    by (rule point_update_spec [OF wf ok, of profile p]) (rule that)
  have rs: "pt_rhs (g_pt g' p) = fst (la p)" "pt_seg (g_pt g' p) = snd (la p)"
    using arg_cong [OF g'(6), of fst] arg_cong [OF g'(6), of snd] la by simp_all
  have vals: "pt_value (g_pt g' q) = pt_value (g_pt g q)" for q using g'(4,5) by (cases "q = p") auto
  have qu: "x \<in> queue g' \<longleftrightarrow> x \<in> queue g" if "snd (snd x) \<noteq> p" for x
  proof -
    note t = that
    have "Some (fst x) \<noteq> pt_el (g_pt g p)" if m: "x \<in> queue g"
    proof
      assume a: "Some (fst x) = pt_el (g_pt g p)"
      obtain e k q where xe: "x = (e, k, q)" by (cases x) auto
      obtain k' where "(e, k', p) \<in> queue g" using a ok xe unfolding heap_ok_def by (metis fst_conv)
      then show False using fm.fib.handles [of "g_heap g" e k q k' p] m xe ok t by (auto simp: heap_ok_def)
    qed
    then show ?thesis using g'(8,9) that by (cases "pt_el (g_pt g' p)") auto
  qed
  have exg: "heap_exact g'" unfolding heap_exact_def
  proof (intro conjI allI impI)
    show "heap_ok g'" by (rule g'(2))
    fix e k q assume m: "(e, k, q) \<in> queue g'"
    show "pt_el (g_pt g' q) = Some e"
    proof (cases "q = p")
      case False
      then show ?thesis using qu [of "(e, k, q)"] m ex g'(4) by (auto simp: heap_exact_def)
    next
      case True
      have "(e, k, p) \<notin> {x \<in> queue g. Some (fst x) \<noteq> pt_el (g_pt g p)}" using ex by (auto simp: heap_exact_def)
      then show ?thesis using m True g'(8,9) by (cases "pt_el (g_pt g' p)") auto
    qed
  qed
  have segsg: "segs_ok profile g'" unfolding segs_ok_def
  proof (intro allI impI)
    fix q s assume "pt_seg (g_pt g' q) = Some s"
    then have "usable profile g s"
      using segs g'(4) rs(2) lookahead_seg_usable [OF regg segs, of p s] la by (cases "q = p") (auto simp: segs_ok_def)
    then show "usable profile g' s" using usable_static [OF g'(3)] by simp
  qed
  have el_F: "pt_el (g_pt g' p) = None" if "p \<in> F"
    using g'(7) that by (simp add: consistent_def rs vals val)
  have "(pt_rhs (g_pt g' q), pt_seg (g_pt g' q)) = la q" if "q \<in> F" for q
    using F [OF that] g'(4) rs by (cases "q = p") auto
  moreover have "pt_el (g_pt g' q) = None" if "q \<in> F" for q
    using F [OF that] g'(4) el_F that by (cases "q = p") auto
  moreover have "entry_ok la g' q" if "q \<in> insert p S - F" for q
  proof (cases "q = p")
    case False
    then have "entry_ok la g q" using S that by blast
    then show ?thesis using g'(4) [OF False] qu False by (auto simp: entry_ok_def)
  next
    case True
    then have v: "pt_value (g_pt g' p) = INT_MAX" using that vals val by simp
    show ?thesis
    proof (cases "fst (la p) = INT_MAX")
      case t: True
      then show ?thesis using g'(7) v rs True by (auto simp: entry_ok_def consistent_def)
    next
      case f: False
      then obtain e where e: "pt_el (g_pt g' p) = Some e" using g'(7) v rs by (auto simp: consistent_def)
      have "fst (la p) \<le> INT_MAX"
        using amin_le [of "eff profile g" snd "incident g p" "(pt_dst_val (g_pt g p), pt_dst_seg (g_pt g p))"]
          regular_dst [OF regg, of p] la [of p] by (simp add: lookahead_eq [OF regg])
      then have "(e, fst (la p), p) \<in> queue g'" using g'(8) [OF e] v rs by simp
      then show ?thesis using f True e rs by (simp add: entry_ok_def)
    qed
  qed
  moreover have "lookahead profile g' q = la q" for q
    using lookahead_static [OF regg segs segsg g'(3) vals, of q] la g'(4) F rs val
    by (metis snd_conv)
  ultimately have "relax_inv profile g0 F la (insert p S) g'"
    unfolding relax_inv_def using same_static_trans [OF st g'(3)] exg segsg vals val by simp
  then show ?thesis using g'(1) by blast
qed

lemma relax_inv_all:
  assumes reg: "regular profile g0 W" and inv: "relax_inv profile g0 F la S g"
  shows "\<exists>g'. relax_all profile dir ss g = Some g'
    \<and> relax_inv profile g0 F la (S \<union> {seg_other g0 dir s | s. s \<in> set ss \<and> relaxable profile g0 (- 2 * dir) s}) g'"
  using inv
proof (induction ss arbitrary: g S)
  case (Cons s ss)
  have st: "same_static g0 g" using Cons.prems by (simp add: relax_inv_def)
  have ot: "seg_other g dir s = seg_other g0 dir s" using other_static [OF st, of "(dir, s)"] by simp
  show ?case
  proof (cases "relaxable profile g0 (- 2 * dir) s")
    case True
    obtain g1 where g1: "route_graph_point_update profile (seg_other g dir s) g = Some g1"
      "relax_inv profile g0 F la (insert (seg_other g dir s) S) g1"
      using relax_inv_update [OF reg Cons.prems] by blast
    obtain g2 where g2: "relax_all profile dir ss g1 = Some g2" "relax_inv profile g0 F la
       (insert (seg_other g dir s) S \<union> {seg_other g0 dir s | s. s \<in> set ss \<and> relaxable profile g0 (- 2 * dir) s}) g2"
      using Cons.IH [OF g1(2)] by blast
    have "insert (seg_other g dir s) S \<union> {seg_other g0 dir s | s. s \<in> set ss \<and> relaxable profile g0 (- 2 * dir) s}
      = S \<union> {seg_other g0 dir t | t. t \<in> set (s # ss) \<and> relaxable profile g0 (- 2 * dir) t}"
      using True ot by auto
    then show ?thesis using g1(1) g2 True relaxable_static [OF st, of profile] by simp
  next
    case False
    have "{seg_other g0 dir s | s. s \<in> set ss \<and> relaxable profile g0 (- 2 * dir) s}
      = {seg_other g0 dir t | t. t \<in> set (s # ss) \<and> relaxable profile g0 (- 2 * dir) t}"
      using False by auto
    then show ?thesis using Cons.IH [OF Cons.prems] False relaxable_static [OF st, of profile] by simp
  qed
qed simp

section \<open>Settling a point\<close>

text \<open>
  \<open>settled\<close>: the points of \<open>F\<close> have their final value, no other point has one, and no
  point outside can get a lower one.
\<close>

definition settled :: "vehicleprofile \<Rightarrow> route_graph \<Rightarrow> int \<Rightarrow> nat set \<Rightarrow> route_graph \<Rightarrow> bool" where
  "settled profile g0 W F g \<longleftrightarrow> F \<subseteq> {..<g_np g0}
     \<and> relax_inv profile g0 F (lookahead profile g) UNIV g
     \<and> (\<forall>p\<in>F. 0 \<le> fst (lookahead profile g p) \<and> fst (lookahead profile g p) \<le> int (card F) * W
          \<and> fst (lookahead profile g p) < INT_MAX
          \<and> (\<forall>q. q \<notin> F \<longrightarrow> fst (lookahead profile g p) \<le> fst (lookahead profile g q)))"

lemma bounded_sum:
  assumes "regular profile g W" "F \<subseteq> {..<g_np g}"
  shows "(int (card F) + 1) * W < INT_MAX" "0 \<le> W"
proof -
  have "card F \<le> g_np g" using card_mono [OF _ assms(2)] by simp
  moreover have W: "0 \<le> W" "(int (g_np g) + 1) * W < INT_MAX" using assms(1) unfolding regular_def by blast+
  ultimately have "(int (card F) + 1) * W \<le> (int (g_np g) + 1) * W" by (intro mult_right_mono) auto
  then show "(int (card F) + 1) * W < INT_MAX" "0 \<le> W" using W by auto
qed

lemma i32_small: "0 \<le> x \<Longrightarrow> x < INT_MAX \<Longrightarrow> i32 x = x"
  by (simp add: in_i32_def INT_MAX_def)

text \<open>What a neighbour contributes, when settled values are bounded.\<close>

lemma eff_settled:
  assumes reg: "regular profile g W" and segs: "segs_ok profile g" and ds: "ds \<in> set (incident g p)"
    and b: "pt_value (g_pt g (other g ds)) = INT_MAX \<or>
      0 \<le> pt_value (g_pt g (other g ds)) \<and> W + pt_value (g_pt g (other g ds)) < INT_MAX"
  shows "eff profile g ds = (if weight profile g ds = INT_MAX \<or> pt_seg (g_pt g (other g ds)) = Some (snd ds)
       \<or> pt_value (g_pt g (other g ds)) = INT_MAX then INT_MAX
     else weight profile g ds + pt_value (g_pt g (other g ds)))"
proof (cases "weight profile g ds = INT_MAX")
  case False
  note r = regularD [OF reg ds False]
  show ?thesis using eff_eq [OF reg segs ds] b r(1,2) i32_small [of "weight profile g ds + pt_value (g_pt g (other g ds))"]
    by auto
qed (simp add: eff_eq [OF reg segs ds])

lemma settled_bounds:
  assumes reg: "regular profile g0 W" and s: "settled profile g0 W F g"
  shows "pt_value (g_pt g q) = INT_MAX \<or> 0 \<le> pt_value (g_pt g q) \<and> W + pt_value (g_pt g q) < INT_MAX"
    "0 \<le> fst (lookahead profile g q)"
    "fst (lookahead profile g q) = INT_MAX \<or> fst (lookahead profile g q) \<le> (int (card F) + 1) * W \<and> q < g_np g0"
proof -
  let ?la = "lookahead profile g"
  have F: "F \<subseteq> {..<g_np g0}" and st: "same_static g0 g" and segs: "segs_ok profile g"
    and val: "\<And>q. pt_value (g_pt g q) = (if q \<in> F then fst (?la q) else INT_MAX)"
    and b: "\<And>p. p \<in> F \<Longrightarrow> 0 \<le> fst (?la p) \<and> fst (?la p) \<le> int (card F) * W \<and> fst (?la p) < INT_MAX"
    using s unfolding settled_def relax_inv_def by blast+
  note bs = bounded_sum [OF reg F]
  have regg: "regular profile g W" using reg regular_static [OF st] by simp
  have vb: "pt_value (g_pt g q) = INT_MAX \<or> 0 \<le> pt_value (g_pt g q) \<and> pt_value (g_pt g q) \<le> int (card F) * W
      \<and> W + pt_value (g_pt g q) < INT_MAX" for q
    using b [of q] bs by (auto simp: val distrib_right)
  then show "pt_value (g_pt g q) = INT_MAX \<or> 0 \<le> pt_value (g_pt g q) \<and> W + pt_value (g_pt g q) < INT_MAX" by blast
  have dst: "if pt_dst_val (g_pt g q) = INT_MAX then pt_dst_seg (g_pt g q) = None
          else q < g_np g \<and> 0 \<le> pt_dst_val (g_pt g q) \<and> pt_dst_val (g_pt g q) \<le> W
            \<and> (\<exists>s. pt_dst_seg (g_pt g q) = Some s \<and> usable profile g s)"
    using regg unfolding regular_def by blast
  have e: "eff profile g ds = INT_MAX \<or> 0 \<le> eff profile g ds \<and> eff profile g ds \<le> (int (card F) + 1) * W \<and> q < g_np g0"
    if ds: "ds \<in> set (incident g q)" for ds
  proof (cases "weight profile g ds = INT_MAX")
    case False
    note r = regularD [OF regg ds False]
    show ?thesis using vb [of "other g ds"] r(1,2,6) same_staticD(8) [OF st]
        eff_settled [OF regg segs ds] by (auto simp: distrib_right)
  qed (simp add: eff_eq [OF regg segs ds])
  have m: "(0 :: int) \<le> INT_MAX" by (simp add: INT_MAX_def)
  show "0 \<le> fst (?la q)" unfolding lookahead_eq [OF regg]
    by (rule amin_ge) (use dst e m in \<open>fastforce split: if_splits\<close>)+
  have WW: "W \<le> (int (card F) + 1) * W" using bs(2) by (simp add: distrib_right)
  from amin_cases [of "eff profile g" snd "incident g q" "(pt_dst_val (g_pt g q), pt_dst_seg (g_pt g q))"]
  show "fst (?la q) = INT_MAX \<or> fst (?la q) \<le> (int (card F) + 1) * W \<and> q < g_np g0"
  proof
    assume "amin (eff profile g) snd (incident g q) (pt_dst_val (g_pt g q), pt_dst_seg (g_pt g q)) = (pt_dst_val (g_pt g q), pt_dst_seg (g_pt g q))"
    then have "fst (?la q) = pt_dst_val (g_pt g q)" by (simp add: lookahead_eq [OF regg])
    then show ?thesis using dst WW same_staticD(8) [OF st] by (auto split: if_splits)
  next
    assume "\<exists>x\<in>set (incident g q). amin (eff profile g) snd (incident g q) (pt_dst_val (g_pt g q), pt_dst_seg (g_pt g q))
      = (eff profile g x, Some (snd x)) \<and> eff profile g x < fst (pt_dst_val (g_pt g q), pt_dst_seg (g_pt g q))"
    then obtain x where x: "x \<in> set (incident g q)" "fst (?la q) = eff profile g x"
      by (auto simp: lookahead_eq [OF regg])
    show ?thesis unfolding x(2) using e [OF x(1)] by blast
  qed
qed

text \<open>Extracting the point of least key settles it; the update of its neighbours restores the invariant.\<close>

lemma settle_lookahead:
  assumes reg: "regular profile g0 W" and s: "settled profile g0 W F g" and p: "p \<notin> F"
    and k: "k = fst (lookahead profile g p)" "k < INT_MAX"
    and least: "\<And>q. q \<notin> F \<Longrightarrow> k \<le> fst (lookahead profile g q)"
    and g2: "same_static g g2" "segs_ok profile g2" "\<And>q. pt_seg (g_pt g2 q) = pt_seg (g_pt g q)"
    "\<And>q. pt_value (g_pt g2 q) = (if q = p then k else pt_value (g_pt g q))"
  shows "q \<in> insert p F \<Longrightarrow> lookahead profile g2 q = lookahead profile g q"
    "k \<le> fst (lookahead profile g2 q) \<or> q \<in> F"
    "(\<nexists>ds. ds \<in> set (incident g q) \<and> other g ds = p \<and> weight profile g ds \<noteq> INT_MAX) \<Longrightarrow>
      lookahead profile g2 q = lookahead profile g q"
proof -
  let ?la = "lookahead profile g"
  have F: "F \<subseteq> {..<g_np g0}" and st: "same_static g0 g" and segs: "segs_ok profile g"
    and val: "\<And>q. pt_value (g_pt g q) = (if q \<in> F then fst (?la q) else INT_MAX)"
    and b: "\<And>p q. p \<in> F \<Longrightarrow> q \<notin> F \<Longrightarrow> fst (?la p) \<le> fst (?la q)"
    using s unfolding settled_def relax_inv_def by blast+
  have regg: "regular profile g W" using reg regular_static [OF st] by simp
  have reg2: "regular profile g2 W" using regg regular_static [OF g2(1)] by simp
  note bnd = settled_bounds [OF reg s]
  have k0: "0 \<le> k" using bnd(2) [of p] k(1) by simp
  have kW: "W + k < INT_MAX"
  proof -
    have "F \<subset> insert p F" "insert p F \<subseteq> {..<g_np g0}"
      using p F bnd(3) [of p] k by auto
    then have "card (insert p F) = Suc (card F)" "(int (card (insert p F)) + 1) * W < INT_MAX"
      using p finite_subset [OF F] bounded_sum [OF reg, of "insert p F"] by auto
    then show ?thesis using bnd(3) [of p] k by (simp add: distrib_right)
  qed
  have e1: "eff profile g2 ds = eff profile g ds" if "ds \<in> set (incident g q)" "other g ds \<noteq> p \<or> weight profile g ds = INT_MAX" for ds q
  proof -
    have "ds \<in> set (incident g2 q)" using that incident_static [OF g2(1)] by simp
    then show ?thesis
      unfolding eff_eq [OF regg segs that(1)] eff_eq [OF reg2 g2(2) \<open>ds \<in> set (incident g2 q)\<close>]
        other_static [OF g2(1)] weight_static [OF g2(1)] g2(3,4) using that(2) by auto
  qed
  have e2: "eff profile g ds = INT_MAX \<and> k < eff profile g2 ds" if "ds \<in> set (incident g q)" "other g ds = p" for ds q
  proof -
    have i2: "ds \<in> set (incident g2 q)" using that incident_static [OF g2(1)] by simp
    have "pt_value (g_pt g2 (other g2 ds)) = k" using that(2) by (simp add: other_static [OF g2(1)] g2(4))
    then have "eff profile g2 ds = INT_MAX \<or> weight profile g ds \<noteq> INT_MAX \<and> eff profile g2 ds = weight profile g ds + k"
      using eff_settled [OF reg2 g2(2) i2] k0 kW by (auto simp: weight_static [OF g2(1)])
    moreover have "0 < weight profile g ds" if "weight profile g ds \<noteq> INT_MAX"
      using regularD(1) [OF regg \<open>ds \<in> set (incident g q)\<close> that] .
    moreover have "eff profile g ds = INT_MAX"
      using that p val by (simp add: eff_eq [OF regg segs that(1)])
    ultimately show ?thesis using k by auto
  qed
  have la2: "lookahead profile g2 q = amin (eff profile g2) snd (incident g q) (pt_dst_val (g_pt g q), pt_dst_seg (g_pt g q))" for q
    unfolding lookahead_eq [OF reg2] incident_static [OF g2(1)] same_staticD(6,7) [OF g2(1)] ..
  show "lookahead profile g2 q = ?la q" if "q \<in> insert p F"
  proof -
    have "fst (?la q) \<le> k" using that b [OF _ p, of q] k(1) by auto
    then show ?thesis unfolding la2 lookahead_eq [OF regg]
      using e1 [of _ q] e2 [of _ q] k(2)
      by (intro amin_stable) (fastforce simp: lookahead_eq [OF regg])
  qed
  show "k \<le> fst (lookahead profile g2 q) \<or> q \<in> F"
  proof (cases "q \<in> F")
    case False
    have kq: "k \<le> fst (?la q)" by (rule least [OF False])
    note le = amin_le [of "eff profile g" snd "incident g q" "(pt_dst_val (g_pt g q), pt_dst_seg (g_pt g q))", folded lookahead_eq [OF regg]]
    have "k \<le> fst (lookahead profile g2 q)" unfolding la2
    proof (rule amin_ge)
      show "k \<le> fst (pt_dst_val (g_pt g q), pt_dst_seg (g_pt g q))" using le kq by simp
      fix x assume x: "x \<in> set (incident g q)"
      then show "k \<le> eff profile g2 x" using le kq e1 [OF x] e2 [OF x] by (cases "other g x = p") fastforce+
    qed
    then show ?thesis ..
  qed simp
  show "lookahead profile g2 q = ?la q"
    if "\<nexists>ds. ds \<in> set (incident g q) \<and> other g ds = p \<and> weight profile g ds \<noteq> INT_MAX"
    unfolding la2 lookahead_eq [OF regg] using e1 that by (intro amin_cong) blast
qed

lemma lookahead_le:
  assumes "regular profile g W" shows "fst (lookahead profile g q) \<le> INT_MAX"
  using amin_le [of "eff profile g" snd "incident g q" "(pt_dst_val (g_pt g q), pt_dst_seg (g_pt g q))"]
    regular_dst [OF assms, of q] by (simp add: lookahead_eq [OF assms])

lemma relaxed_points:
  assumes reg: "regular profile g W" and ds: "ds \<in> set (incident g q)" "other g ds = p" "weight profile g ds \<noteq> INT_MAX"
  shows "q \<in> {seg_other g 1 s | s. s \<in> set (pt_start (g_pt g p)) \<and> relaxable profile g (- 2 * 1) s}
    \<union> {seg_other g (-1) s | s. s \<in> set (pt_end (g_pt g p)) \<and> relaxable profile g (- 2 * -1) s}"
proof -
  have wf: "adj_wf g" using reg unfolding regular_def by blast
  obtain dir s where d: "ds = (dir, s)" by force
  note r = regularD(3) [OF reg ds(1,3)]
  have "dir = 1 \<and> s \<in> set (pt_end (g_pt g p)) \<and> q = seg_start g s
    \<or> dir = -1 \<and> s \<in> set (pt_start (g_pt g p)) \<and> q = seg_end g s"
    using ds wf by (auto simp: d incident_def adj_wf_def seg_other_def)
  then show ?thesis using r by (fastforce simp: d seg_other_def)
qed

context heap_pick
begin

lemma settled_extract:
  assumes reg: "regular profile g0 W" and s: "settled profile g0 W F g"
    and ext: "fh_extractmin pick (g_heap g) = Some (p, h)"
  shows "p \<notin> F" "fst (lookahead profile g p) < INT_MAX" "fh_wf h"
    "pt_rhs (g_pt g p) = fst (lookahead profile g p)" "pt_seg (g_pt g p) = snd (lookahead profile g p)"
    "set (fh_entries h) = {x \<in> queue g. snd (snd x) \<noteq> p}"
    "\<And>q. q \<notin> F \<Longrightarrow> fst (lookahead profile g p) \<le> fst (lookahead profile g q)"
proof -
  let ?la = "lookahead profile g"
  have st: "same_static g0 g" and ex: "heap_exact g"
    and F: "\<And>q. q \<in> F \<Longrightarrow> pt_el (g_pt g q) = None"
    and S: "\<And>q. q \<notin> F \<Longrightarrow> entry_ok ?la g q"
    using s unfolding settled_def relax_inv_def by blast+
  have regg: "regular profile g W" using reg regular_static [OF st] by simp
  have wf: "fh_wf (g_heap g)" using ex by (simp add: heap_exact_def heap_ok_def)
  obtain e k where e: "(e, k, p) \<in> queue g" "\<forall>e' k' p'. (e', k', p') \<in> queue g \<longrightarrow> k \<le> k'"
    "fh_wf h" "set (fh_entries h) = queue g - {(e, k, p)}"
    using fib.extract_spec [OF wf ext] by blast
  have el: "pt_el (g_pt g p) = Some e" using ex e(1) by (auto simp: heap_exact_def)
  show pF: "p \<notin> F" using F [of p] el by auto
  have ne: "fst (?la p) \<noteq> INT_MAX" using S [OF pF] el by (auto simp: entry_ok_def split: if_splits)
  then have rs: "(pt_rhs (g_pt g p), pt_seg (g_pt g p)) = ?la p" "(e, fst (?la p), p) \<in> queue g"
    using S [OF pF] el by (auto simp: entry_ok_def)
  have k: "k = fst (?la p)" using fib.handles [OF wf e(1) rs(2)] by simp
  show "fst (?la p) < INT_MAX" using ne lookahead_le [OF regg, of p] by simp
  show "fh_wf h" by (rule e(3))
  show "pt_rhs (g_pt g p) = fst (?la p)" "pt_seg (g_pt g p) = snd (?la p)"
    using arg_cong [OF rs(1), of fst] arg_cong [OF rs(1), of snd] by simp_all
  have uniq: "x = (e, k, p)" if "x \<in> queue g" "snd (snd x) = p" for x
  proof -
    have "pt_el (g_pt g p) = Some (fst x)" using ex that by (cases x) (auto simp: heap_exact_def)
    then show ?thesis using fib.handles [OF wf e(1), of "fst (snd x)" p] that el by (cases x) auto
  qed
  show "set (fh_entries h) = {x \<in> queue g. snd (snd x) \<noteq> p}"
    unfolding e(4)
  proof (intro set_eqI iffI)
    fix x assume "x \<in> queue g - {(e, k, p)}"
    then show "x \<in> {x \<in> queue g. snd (snd x) \<noteq> p}" using uniq [of x] by blast
  qed auto
  fix q assume qF: "q \<notin> F"
  show "fst (?la p) \<le> fst (?la q)"
  proof (cases "fst (?la q) = INT_MAX")
    case False
    then obtain e' where "(e', fst (?la q), q) \<in> queue g" using S [OF qF] by (auto simp: entry_ok_def)
    then show ?thesis using e(2) k by blast
  qed (use lookahead_le [OF regg, of p] in simp)
qed

lemma settled_step:
  assumes reg: "regular profile g0 W" and s: "settled profile g0 W F g"
    and ext: "fh_extractmin pick (g_heap g) = Some (p, h)"
  shows "\<exists>g'. expand_point profile p (g\<lparr>g_heap := h\<rparr>) = Some g' \<and> settled profile g0 W (insert p F) g' \<and> p \<notin> F \<and> p < g_np g0"
proof -
  let ?la = "lookahead profile g" and ?k = "fst (lookahead profile g p)"
  note x = settled_extract [OF reg s ext]
  have F: "F \<subseteq> {..<g_np g0}" and st: "same_static g0 g" and segs: "segs_ok profile g" and ex: "heap_exact g"
    and val: "\<And>q. pt_value (g_pt g q) = (if q \<in> F then fst (?la q) else INT_MAX)"
    and rF: "\<And>q. q \<in> F \<Longrightarrow> (pt_rhs (g_pt g q), pt_seg (g_pt g q)) = ?la q \<and> pt_el (g_pt g q) = None"
    and S: "\<And>q. q \<notin> F \<Longrightarrow> entry_ok ?la g q"
    and b: "\<And>p. p \<in> F \<Longrightarrow> 0 \<le> fst (?la p) \<and> fst (?la p) \<le> int (card F) * W \<and> fst (?la p) < INT_MAX
        \<and> (\<forall>q. q \<notin> F \<longrightarrow> fst (?la p) \<le> fst (?la q))"
    using s unfolding settled_def relax_inv_def by blast+
  have regg: "regular profile g W" using reg regular_static [OF st] by simp
  let ?g1 = "upd_pt p (\<lambda>x. x\<lparr>pt_el := None\<rparr>) (g\<lparr>g_heap := h\<rparr>)"
  let ?g2 = "upd_pt p (\<lambda>x. x\<lparr>pt_value := pt_rhs x\<rparr>) ?g1"
  have st2: "same_static g ?g2"
    by (rule same_static_trans [OF same_static_extract same_static_upd_pt]) (simp add: pt_static_def)
  have segs2: "segs_ok profile ?g2"
    using segs usable_static [OF st2, of profile] by (simp add: segs_ok_def)
  have v2: "pt_value (g_pt ?g2 q) = (if q = p then ?k else pt_value (g_pt g q))" for q using x(4) by simp
  note la2 = settle_lookahead [OF reg s x(1) refl x(2,7) st2 segs2 _ v2]
  let ?la2 = "lookahead profile ?g2"
  have l1: "?la2 q = ?la q" if "q \<in> insert p F" for q using la2(1) that by simp
  have l2: "?k \<le> fst (?la2 q)" if "q \<notin> F" for q using la2(2) [of q] that by simp
  have l3: "?la2 q = ?la q" if "\<nexists>ds. ds \<in> set (incident g q) \<and> other g ds = p \<and> weight profile g ds \<noteq> INT_MAX" for q
    using la2(3) [of q] that by simp
  have wf: "fh_wf (g_heap g)" using ex by (simp add: heap_exact_def heap_ok_def)
  have ex2: "heap_exact ?g2" unfolding heap_exact_def heap_ok_def
  proof (intro conjI allI impI)
    show "fh_wf (g_heap ?g2)" using x(3) by simp
    fix q e assume "pt_el (g_pt ?g2 q) = Some e"
    then have q: "q \<noteq> p" "pt_el (g_pt g q) = Some e" by (auto split: if_splits)
    then obtain k where "(e, k, q) \<in> queue g" using ex unfolding heap_exact_def heap_ok_def by metis
    then show "\<exists>k. (e, k, q) \<in> queue ?g2" using q x(6) by auto
  next
    fix e k q assume "(e, k, q) \<in> queue ?g2"
    then have "(e, k, q) \<in> queue g" "q \<noteq> p" using x(6) by auto
    then show "pt_el (g_pt ?g2 q) = Some e" using ex by (simp add: heap_exact_def)
  qed
  let ?S0 = "{q. ?la2 q = ?la q}"
  have inv0: "relax_inv profile g0 (insert p F) ?la2 ?S0 ?g2"
    unfolding relax_inv_def
  proof (intro conjI allI ballI)
    show "same_static g0 ?g2" by (rule same_static_trans [OF st st2])
    show "pt_value (g_pt ?g2 q) = (if q \<in> insert p F then fst (?la2 q) else INT_MAX)" for q
      using v2 [of q] val l1 by auto
    fix q assume q: "q \<in> insert p F"
    show "(pt_rhs (g_pt ?g2 q), pt_seg (g_pt ?g2 q)) = ?la2 q" using l1 [OF q] q rF x(4,5) by auto
    show "pt_el (g_pt ?g2 q) = None" using q rF by auto
  next
    fix q assume q: "q \<in> ?S0 - insert p F"
    then have "entry_ok ?la g q" using S by simp
    then show "entry_ok ?la2 ?g2 q" using q x(6) by (auto simp: entry_ok_def)
  qed (use ex2 segs2 in simp_all)
  obtain g3 where g3: "relax_all profile 1 (pt_start (g_pt ?g2 p)) ?g2 = Some g3"
    "relax_inv profile g0 (insert p F) ?la2 (?S0 \<union> {seg_other g0 1 s | s. s \<in> set (pt_start (g_pt ?g2 p)) \<and> relaxable profile g0 (- 2 * 1) s}) g3"
    using relax_inv_all [OF reg inv0] by blast
  have st3: "same_static g0 g3" using g3(2) unfolding relax_inv_def by blast
  obtain g4 where g4: "relax_all profile (-1) (pt_end (g_pt g3 p)) g3 = Some g4"
    "relax_inv profile g0 (insert p F) ?la2 ((?S0 \<union> {seg_other g0 1 s | s. s \<in> set (pt_start (g_pt ?g2 p)) \<and> relaxable profile g0 (- 2 * 1) s})
      \<union> {seg_other g0 (-1) s | s. s \<in> set (pt_end (g_pt g3 p)) \<and> relaxable profile g0 (- 2 * -1) s}) g4"
    using relax_inv_all [OF reg g3(2)] by blast
  have all: "(?S0 \<union> {seg_other g0 1 s | s. s \<in> set (pt_start (g_pt ?g2 p)) \<and> relaxable profile g0 (- 2 * 1) s})
      \<union> {seg_other g0 (-1) s | s. s \<in> set (pt_end (g_pt g3 p)) \<and> relaxable profile g0 (- 2 * -1) s} = UNIV"
  proof (intro equalityI subsetI UNIV_I)
    fix q
    show "q \<in> (?S0 \<union> {seg_other g0 1 s | s. s \<in> set (pt_start (g_pt ?g2 p)) \<and> relaxable profile g0 (- 2 * 1) s})
      \<union> {seg_other g0 (-1) s | s. s \<in> set (pt_end (g_pt g3 p)) \<and> relaxable profile g0 (- 2 * -1) s}"
    proof (cases "\<exists>ds. ds \<in> set (incident g q) \<and> other g ds = p \<and> weight profile g ds \<noteq> INT_MAX")
      case True
      then obtain ds where ds: "ds \<in> set (incident g0 q)" "other g0 ds = p" "weight profile g0 ds \<noteq> INT_MAX"
        using incident_static [OF st] other_static [OF st] weight_static [OF st] by metis
      show ?thesis using relaxed_points [OF reg ds]
        same_staticD(2,3) [OF st] same_staticD(3) [OF st3] by auto
    next
      case False
      then have "?la2 q = ?la q" by (rule l3)
      then show ?thesis by blast
    qed
  qed
  have "expand_point profile p (g\<lparr>g_heap := h\<rparr>) = Some g4"
    unfolding expand_point_def Let_def using x(1,2,4) val [of p] g3(1) g4(1) by simp
  moreover have "settled profile g0 W (insert p F) g4"
  proof -
    have inv4: "relax_inv profile g0 (insert p F) ?la2 UNIV g4" using g4(2) unfolding all .
    then have "lookahead profile g4 q = ?la2 q" for q unfolding relax_inv_def by (elim conjE allE)
    then have la4: "lookahead profile g4 = ?la2" by (rule HOL.ext)
    note bnd = settled_bounds [OF reg s, of p]
    have pn: "p < g_np g0" "?k \<le> (int (card F) + 1) * W" "0 \<le> ?k" using bnd(2,3) x(2) by auto
    have card: "int (card (insert p F)) = int (card F) + 1"
      using x(1) finite_subset [OF F] by simp
    have W: "0 \<le> W" using bounded_sum [OF reg F] by simp
    have "0 \<le> fst (?la2 q) \<and> fst (?la2 q) \<le> int (card (insert p F)) * W \<and> fst (?la2 q) < INT_MAX
          \<and> (\<forall>r. r \<notin> insert p F \<longrightarrow> fst (?la2 q) \<le> fst (?la2 r))" if q: "q \<in> insert p F" for q
    proof (cases "q = p")
      case True
      then show ?thesis using l1 [OF q] l2 pn x(2) card by auto
    next
      case False
      then have qF: "q \<in> F" using q by simp
      have qk: "fst (?la q) \<le> ?k" using b [OF qF] x(1) by blast
      have cW: "int (card F) * W \<le> int (card (insert p F)) * W" using W card by (simp add: distrib_right)
      have eq: "fst (?la2 q) = fst (?la q)" using l1 [OF q] by simp
      have kr: "?k \<le> fst (?la2 r)" if "r \<notin> insert p F" for r using l2 that by simp
      have bq: "0 \<le> fst (?la q)" "fst (?la q) \<le> int (card F) * W" "fst (?la q) < INT_MAX" using b [OF qF] by blast+
      show ?thesis unfolding eq using bq order_trans [OF bq(2) cW] order_trans [OF qk kr] by blast
    qed
    then show ?thesis unfolding settled_def la4 using inv4 F pn(1) by simp
  qed
  moreover have "p < g_np g0" using settled_bounds(3) [OF reg s, of p] x(2) by auto
  ultimately show ?thesis using x(1) by blast
qed

lemma settled_search:
  assumes reg: "regular profile g0 W" and s: "settled profile g0 W F g"
  shows "\<exists>g' F'. route_graph_compute_shortest_path pick profile g = Some g' \<and> settled profile g0 W F' g' \<and> queue g' = {}"
  using s
proof (induction "g_np g0 - card F" arbitrary: F g rule: less_induct)
  case less
  have wf: "fh_wf (g_heap g)" using less.prems unfolding settled_def relax_inv_def heap_exact_def heap_ok_def by blast
  show ?case
  proof (cases "fh_extractmin pick (g_heap g)")
    case None
    then have "route_graph_compute_shortest_path pick profile g = Some g"
      by (subst route_graph_compute_shortest_path.simps) (simp add: route_graph_is_path_computed_def fh_min_def)
    moreover have "queue g = {}" using None fib.extract_None [OF wf] by simp
    ultimately show ?thesis using less.prems by blast
  next
    case (Some ph)
    obtain p h where ph: "fh_extractmin pick (g_heap g) = Some (p, h)" using Some by (cases ph) auto
    obtain g1 where g1: "expand_point profile p (g\<lparr>g_heap := h\<rparr>) = Some g1" "settled profile g0 W (insert p F) g1"
      "p \<notin> F" "p < g_np g0"
      using settled_step [OF reg less.prems ph] by blast
    have fin: "finite F" "insert p F \<subseteq> {..<g_np g0}"
      using less.prems g1(2) finite_subset [of F "{..<g_np g0}"] by (auto simp: settled_def)
    have "card (insert p F) \<le> g_np g0" using card_mono [OF _ fin(2)] by simp
    then have "g_np g0 - card (insert p F) < g_np g0 - card F" using g1(3) fin(1) by simp
    from less.hyps [OF this g1(2)]
    obtain g' F' where "route_graph_compute_shortest_path pick profile g1 = Some g'" "settled profile g0 W F' g'" "queue g' = {}"
      by blast
    moreover have "route_graph_compute_shortest_path pick profile g = route_graph_compute_shortest_path pick profile g1"
      using ph g1(1) by (subst route_graph_compute_shortest_path.simps) (simp add: route_graph_is_path_computed_def fh_min_def)
    ultimately show ?thesis by auto
  qed
qed

end

end
