(* ===== verification/Route_Search.thy ===== *)
theory Route_Search
  imports Route_Dijkstra
begin

text \<open>
  The outcome of the path search: least costs and next segments, from the initialisation of the
  destination points on.
\<close>

section \<open>The settled values are least costs\<close>

lemma settled_next:
  assumes reg: "regular profile g0 W" and s: "settled profile g0 W F g" and p: "p \<in> F"
  shows "lookahead profile g p = (pt_dst_val (g_pt g p), pt_dst_seg (g_pt g p)) \<and> pt_dst_val (g_pt g p) \<noteq> INT_MAX
    \<or> (\<exists>ds\<in>set (incident g p). weight profile g ds \<noteq> INT_MAX \<and> other g ds \<in> F
        \<and> lookahead profile g p = (weight profile g ds + pt_value (g_pt g (other g ds)), Some (snd ds)))"
proof -
  have st: "same_static g0 g" and segs: "segs_ok profile g"
    and val: "\<And>q. pt_value (g_pt g q) = (if q \<in> F then fst (lookahead profile g q) else INT_MAX)"
    and b: "fst (lookahead profile g p) < INT_MAX"
    using s p unfolding settled_def relax_inv_def by blast+
  have regg: "regular profile g W" using reg regular_static [OF st] by simp
  from amin_cases [of "eff profile g" snd "incident g p" "(pt_dst_val (g_pt g p), pt_dst_seg (g_pt g p))"]
  show ?thesis
  proof
    assume "amin (eff profile g) snd (incident g p) (pt_dst_val (g_pt g p), pt_dst_seg (g_pt g p)) = (pt_dst_val (g_pt g p), pt_dst_seg (g_pt g p))"
    then show ?thesis using b by (simp add: lookahead_eq [OF regg])
  next
    assume "\<exists>x\<in>set (incident g p). amin (eff profile g) snd (incident g p) (pt_dst_val (g_pt g p), pt_dst_seg (g_pt g p))
      = (eff profile g x, Some (snd x)) \<and> eff profile g x < fst (pt_dst_val (g_pt g p), pt_dst_seg (g_pt g p))"
    then obtain x where x: "x \<in> set (incident g p)" "lookahead profile g p = (eff profile g x, Some (snd x))"
      by (auto simp: lookahead_eq [OF regg])
    then have e: "eff profile g x \<noteq> INT_MAX" using b by simp
    note es = eff_settled [OF regg segs x(1) settled_bounds(1) [OF reg s]]
    then have "weight profile g x \<noteq> INT_MAX" "pt_value (g_pt g (other g x)) \<noteq> INT_MAX"
      "eff profile g x = weight profile g x + pt_value (g_pt g (other g x))"
      using e by (auto split: if_splits)
    then show ?thesis using x val by (metis (no_types, lifting))
  qed
qed

lemma drive_static:
  assumes "drive profile g p v" "same_static g g'" shows "drive profile g' p v"
  using assms(1)
proof induction
  case (drive_dst p)
  then show ?case using drive.drive_dst [of g' p profile] same_staticD(6) [OF assms(2)] by simp
next
  case (drive_step ds p v)
  then show ?case
    using drive.drive_step [of ds g' p profile v] incident_static [OF assms(2)] weight_static [OF assms(2)]
      other_static [OF assms(2)] by simp
qed

lemma settled_drive:
  assumes reg: "regular profile g0 W" and s: "settled profile g0 W F g" and "p \<in> F"
  shows "drive profile g p (pt_value (g_pt g p))"
  using assms(3)
proof (induction "nat (pt_value (g_pt g p))" arbitrary: p rule: less_induct)
  case less
  have val: "\<And>q. pt_value (g_pt g q) = (if q \<in> F then fst (lookahead profile g q) else INT_MAX)"
    and b: "\<And>q. q \<in> F \<Longrightarrow> 0 \<le> fst (lookahead profile g q)" and st: "same_static g0 g"
    using s unfolding settled_def relax_inv_def by blast+
  have regg: "regular profile g W" using reg regular_static [OF st] by simp
  have v: "pt_value (g_pt g p) = fst (lookahead profile g p)" using val less.prems by simp
  from settled_next [OF reg s less.prems] show ?case
  proof
    assume "lookahead profile g p = (pt_dst_val (g_pt g p), pt_dst_seg (g_pt g p)) \<and> pt_dst_val (g_pt g p) \<noteq> INT_MAX"
    then show ?thesis using drive_dst [of g p profile] v by simp
  next
    assume "\<exists>ds\<in>set (incident g p). weight profile g ds \<noteq> INT_MAX \<and> other g ds \<in> F
        \<and> lookahead profile g p = (weight profile g ds + pt_value (g_pt g (other g ds)), Some (snd ds))"
    then obtain ds where ds: "ds \<in> set (incident g p)" "weight profile g ds \<noteq> INT_MAX" "other g ds \<in> F"
      "pt_value (g_pt g p) = weight profile g ds + pt_value (g_pt g (other g ds))" using v by auto
    have "0 < weight profile g ds" "0 \<le> pt_value (g_pt g (other g ds))"
      using regularD(1) [OF regg ds(1,2)] val b ds(3) by auto
    then have "drive profile g (other g ds) (pt_value (g_pt g (other g ds)))"
      using less.hyps ds(3,4) by simp
    then show ?thesis using drive_step [OF ds(1,2)] ds(4) by simp
  qed
qed

lemma settled_least:
  assumes reg: "regular profile g0 W" and s: "settled profile g0 W F g" and e: "queue g = {}" and "drive profile g p v"
  shows "p \<in> F \<and> pt_value (g_pt g p) \<le> v"
  using assms(4)
proof induction
  have st: "same_static g0 g" and segs: "segs_ok profile g"
    and val: "\<And>q. pt_value (g_pt g q) = (if q \<in> F then fst (lookahead profile g q) else INT_MAX)"
    and ent: "\<And>q. q \<notin> F \<Longrightarrow> entry_ok (lookahead profile g) g q"
    and rs: "\<And>q. q \<in> F \<Longrightarrow> (pt_rhs (g_pt g q), pt_seg (g_pt g q)) = lookahead profile g q"
    and b: "\<And>q. q \<in> F \<Longrightarrow> 0 \<le> fst (lookahead profile g q)"
    using s unfolding settled_def relax_inv_def by blast+
  have regg: "regular profile g W" using reg regular_static [OF st] by simp
  have fin: "p \<in> F \<and> pt_value (g_pt g p) \<le> x" if "fst (lookahead profile g p) \<le> x" "fst (lookahead profile g p) \<noteq> INT_MAX" for p x
    using ent [of p] e that val [of p] by (auto simp: entry_ok_def split: if_splits)
  have le: "fst (lookahead profile g p) \<le> pt_dst_val (g_pt g p)"
    "ds \<in> set (incident g p) \<Longrightarrow> fst (lookahead profile g p) \<le> eff profile g ds" for p ds
    using amin_le [of "eff profile g" snd "incident g p" "(pt_dst_val (g_pt g p), pt_dst_seg (g_pt g p))"]
    by (auto simp: lookahead_eq [OF regg])
  {
    case (drive_dst p)
    then show ?case using fin [OF le(1)] le(1) [of p] regular_dst [OF regg, of p] by force
  next
    case (drive_step ds p v)
    let ?n = "other g ds" and ?w = "weight profile g ds"
    note r = regularD [OF regg drive_step(1,2)]
    have n: "?n \<in> F" "pt_value (g_pt g ?n) \<le> v" using drive_step.IH by auto
    have vn: "pt_value (g_pt g ?n) \<noteq> INT_MAX" "0 \<le> pt_value (g_pt g ?n)" "?w + pt_value (g_pt g ?n) < INT_MAX"
      using settled_bounds(1) [OF reg s, of ?n] n(1) val s r(2) unfolding settled_def by fastforce+
    show ?case
    proof (cases "pt_seg (g_pt g ?n) = Some (snd ds)")
      case False
      have "eff profile g ds = ?w + pt_value (g_pt g ?n)"
        using eff_settled [OF regg segs drive_step(1) settled_bounds(1) [OF reg s]] False drive_step(2) vn(1) by simp
      then have "fst (lookahead profile g p) \<le> ?w + pt_value (g_pt g ?n)" using le(2) [OF drive_step(1)] by simp
      then show ?thesis using fin [of p "?w + v"] n(2) vn(3) by auto
    next
      case True
      then have sg: "snd (lookahead profile g ?n) = Some (snd ds)" using arg_cong [OF rs [OF n(1)], of snd] by simp
      from settled_next [OF reg s n(1)] show ?thesis
      proof
        assume d: "lookahead profile g ?n = (pt_dst_val (g_pt g ?n), pt_dst_seg (g_pt g ?n)) \<and> pt_dst_val (g_pt g ?n) \<noteq> INT_MAX"
        then have "pt_dst_seg (g_pt g ?n) = Some (snd ds)" using sg by simp
        then have "pt_dst_val (g_pt g p) \<le> ?w + pt_dst_val (g_pt g ?n)"
          using regg drive_step(1,2) unfolding regular_def by blast
        then have "fst (lookahead profile g p) \<le> ?w + pt_value (g_pt g ?n)" using le(1) [of p] d val n(1) by simp
        then show ?thesis using fin [of p "?w + v"] n(2) vn(3) by auto
      next
        assume "\<exists>es\<in>set (incident g ?n). weight profile g es \<noteq> INT_MAX \<and> other g es \<in> F
          \<and> lookahead profile g ?n = (weight profile g es + pt_value (g_pt g (other g es)), Some (snd es))"
        then obtain es where es: "es \<in> set (incident g ?n)" "weight profile g es \<noteq> INT_MAX" "other g es \<in> F"
          "pt_value (g_pt g ?n) = weight profile g es + pt_value (g_pt g (other g es))" "snd es = snd ds"
          using sg val [of ?n] n(1) by auto
        note r' = regularD [OF regg es(1,2)]
        have wfg: "adj_wf g" using regg unfolding regular_def by blast
        note c = incident_cases [OF drive_step(1) wfg] and c' = incident_cases [OF es(1) wfg]
        have "other g es = p"
        proof (cases "fst ds = 1")
          case True
          then show ?thesis using c c' es(5) r'(8) by (cases "fst es = 1") (simp_all add: seg_other_def)
        next
          case False
          then have "fst ds = -1" using c by simp
          then show ?thesis using c c' es(5) r'(8) by (cases "fst es = 1") (simp_all add: seg_other_def)
        qed
        then show ?thesis using es(3,4) r(1) r'(1) n(2) by auto
      qed
    qed
  }
qed

section \<open>From the initialisation on\<close>

text \<open>A graph as it is built, or after \<open>route_graph_reset\<close>: nothing is flooded or queued.\<close>

definition fresh_pt :: "route_graph_point \<Rightarrow> bool" where
  "fresh_pt x \<longleftrightarrow> pt_value x = INT_MAX \<and> pt_dst_val x = INT_MAX \<and> pt_seg x = None \<and> pt_dst_seg x = None \<and> pt_el x = None"

definition fresh :: "route_graph \<Rightarrow> bool" where
  "fresh g \<longleftrightarrow> fh_entries (g_heap g) = [] \<and> (\<forall>p. fresh_pt (g_pt g p))"

text \<open>The cost of a segment looks at the lists and flags of the points only.\<close>

definition same_struct :: "route_graph \<Rightarrow> route_graph \<Rightarrow> bool" where
  "same_struct g g' \<longleftrightarrow> g_seg g' = g_seg g \<and> g_ns g' = g_ns g \<and> g_np g' = g_np g
     \<and> (\<forall>q. pt_start (g_pt g' q) = pt_start (g_pt g q) \<and> pt_end (g_pt g' q) = pt_end (g_pt g q)
          \<and> pt_flags (g_pt g' q) = pt_flags (g_pt g q))"

lemma value_seg_struct:
  assumes "same_struct g g'"
  shows "route_value_seg profile g' None s d = route_value_seg profile g None s d"
proof -
  have e: "g_seg g' = g_seg g" "\<And>q. pt_start (g_pt g' q) = pt_start (g_pt g q)"
    "\<And>q. pt_end (g_pt g' q) = pt_end (g_pt g q)" "\<And>q. pt_flags (g_pt g' q) = pt_flags (g_pt g q)"
    using assms by (auto simp: same_struct_def)
  have td: "td_step g' = td_step g" by (intro ext) (simp add: td_step_def e)
  have "route_get_traffic_distortion g' s d profile = route_get_traffic_distortion g s d profile" for d
    by (simp add: route_get_traffic_distortion_def e td)
  moreover have "route_through_traffic_allowed profile g' = route_through_traffic_allowed profile g"
    by (intro ext) (simp add: route_through_traffic_allowed_def e)
  ultimately show ?thesis unfolding route_value_seg_def Let_def by (simp add: e)
qed

lemma struct_facts:
  assumes "same_struct g g'"
  shows "weight profile g' ds = weight profile g ds" "relaxable profile g' d s = relaxable profile g d s"
    "other g' ds = other g ds" "usable profile g' s = usable profile g s" "incident g' p = incident g p"
    "adj_wf g' = adj_wf g" "route_through_traffic_allowed profile g' s = route_through_traffic_allowed profile g s"
proof -
  have e: "g_seg g' = g_seg g" "g_ns g' = g_ns g" "\<And>q. pt_start (g_pt g' q) = pt_start (g_pt g q)"
    "\<And>q. pt_end (g_pt g' q) = pt_end (g_pt g q)"
    using assms by (auto simp: same_struct_def)
  show w: "weight profile g' ds = weight profile g ds" for ds by (simp add: weight_def e value_seg_struct [OF assms])
  show "relaxable profile g' d s = relaxable profile g d s"
    by (simp add: relaxable_def e value_seg_struct [OF assms])
  show "other g' ds = other g ds" by (simp add: seg_other_def e)
  show "usable profile g' s = usable profile g s" by (simp add: usable_def e w)
  show "incident g' p = incident g p" by (simp add: incident_def e)
  show "adj_wf g' = adj_wf g" by (simp add: adj_wf_def e)
  show "route_through_traffic_allowed profile g' s = route_through_traffic_allowed profile g s"
    by (simp add: route_through_traffic_allowed_def e)
qed

text \<open>
  The state after the destination points are initialised: \<open>dv\<close> gives the points their direct
  cost over the segment \<open>s\<close>.
\<close>

definition init_state :: "nat \<Rightarrow> (nat \<rightharpoonup> int) \<Rightarrow> route_graph \<Rightarrow> route_graph \<Rightarrow> bool" where
  "init_state s dv g0 g \<longleftrightarrow> same_struct g0 g \<and> heap_exact g
     \<and> (\<forall>q. pt_value (g_pt g q) = INT_MAX
        \<and> (case dv q of None \<Rightarrow> fresh_pt (g_pt g q)
           | Some v \<Rightarrow> pt_dst_val (g_pt g q) = v \<and> pt_rhs (g_pt g q) = v \<and> pt_seg (g_pt g q) = Some s
               \<and> pt_dst_seg (g_pt g q) = Some s
               \<and> (\<exists>e. pt_el (g_pt g q) = Some e \<and> (e, v, q) \<in> queue g)))"

lemma init_state_fresh: "fresh g \<Longrightarrow> init_state s Map.empty g g"
  by (auto simp: init_state_def same_struct_def heap_exact_def heap_ok_def fh_wf_def fresh_def fresh_pt_def)

lemma init_state_point:
  assumes i: "init_state s dv g0 g" and p: "dv p = None" and v: "v \<le> INT_MAX"
  shows "init_state s (dv(p \<mapsto> v)) g0 (init_point p s v g)"
proof -
  let ?g1 = "upd_pt p (\<lambda>x. x\<lparr>pt_seg := Some s, pt_dst_seg := Some s, pt_rhs := v, pt_dst_val := v\<rparr>) g"
  have all: "\<forall>q. pt_value (g_pt g q) = INT_MAX
        \<and> (case dv q of None \<Rightarrow> fresh_pt (g_pt g q)
           | Some v \<Rightarrow> pt_dst_val (g_pt g q) = v \<and> pt_rhs (g_pt g q) = v \<and> pt_seg (g_pt g q) = Some s
               \<and> pt_dst_seg (g_pt g q) = Some s
               \<and> (\<exists>e. pt_el (g_pt g q) = Some e \<and> (e, v, q) \<in> queue g))" using i unfolding init_state_def by blast
  have fr: "fresh_pt (g_pt g p)" using spec [OF all, of p] p by simp
  have ex: "heap_exact g" using i by (simp add: init_state_def)
  have wf: "fh_wf (g_heap g)" using ex by (simp add: heap_exact_def heap_ok_def)
  have vp: "pt_value (g_pt g p) = INT_MAX" using fr by (simp add: fresh_pt_def)
  obtain e h where eh: "fh_insertkey (g_heap g) v p = (e, h)" by force
  note ins = fm.fib.insert_spec [OF wf eh]
  have eq: "init_point p s v g = upd_pt p (\<lambda>x. x\<lparr>pt_el := Some e\<rparr>) (?g1\<lparr>g_heap := h\<rparr>)"
    using v vp eh by (simp add: init_point_def Let_def)
  let ?g' = "upd_pt p (\<lambda>x. x\<lparr>pt_el := Some e\<rparr>) (?g1\<lparr>g_heap := h\<rparr>)"
  have "heap_exact ?g'" unfolding heap_exact_def heap_ok_def
  proof (intro conjI allI impI)
    show "fh_wf (g_heap ?g')" using ins by simp
    fix q e' assume "pt_el (g_pt ?g' q) = Some e'"
    then have "q = p \<and> e' = e \<or> pt_el (g_pt g q) = Some e'" by (auto split: if_splits)
    moreover have "\<exists>k. (e', k, q) \<in> queue g" if "pt_el (g_pt g q) = Some e'"
      using ex that unfolding heap_exact_def heap_ok_def by blast
    ultimately show "\<exists>k. (e', k, q) \<in> queue ?g'" using ins by auto
  next
    fix e' k q assume "(e', k, q) \<in> queue ?g'"
    then have "e' = e \<and> q = p \<or> (e', k, q) \<in> queue g" using ins by auto
    then show "pt_el (g_pt ?g' q) = Some e'"
      using ex fr by (cases "q = p") (auto simp: heap_exact_def fresh_pt_def)
  qed
  moreover have "same_struct g0 ?g'" using i by (auto simp: init_state_def same_struct_def)
  moreover have "pt_value (g_pt ?g' q) = INT_MAX
        \<and> (case (dv(p \<mapsto> v)) q of None \<Rightarrow> fresh_pt (g_pt ?g' q)
           | Some v \<Rightarrow> pt_dst_val (g_pt ?g' q) = v \<and> pt_rhs (g_pt ?g' q) = v \<and> pt_seg (g_pt ?g' q) = Some s
               \<and> pt_dst_seg (g_pt ?g' q) = Some s
               \<and> (\<exists>e. pt_el (g_pt ?g' q) = Some e \<and> (e, v, q) \<in> queue ?g'))" for q
  proof (cases "q = p")
    case True
    then show ?thesis using ins vp by simp
  next
    case False
    then show ?thesis using spec [OF all, of q] ins by (cases "dv q") auto
  qed
  ultimately show ?thesis unfolding eq init_state_def by blast
qed

text \<open>The direct costs: the part of the street between the point and the destination.\<close>

definition dst_costs :: "vehicleprofile \<Rightarrow> route_graph \<Rightarrow> int \<Rightarrow> nat \<Rightarrow> nat \<rightharpoonup> int" where
  "dst_costs profile g percent s =
     (let w1 = route_value_seg profile g None s (-1); w2 = route_value_seg profile g None s 1;
          d = (if w1 \<noteq> INT_MAX then [seg_end g s \<mapsto> w1 * (100 - percent) div 100] else Map.empty)
      in if w2 \<noteq> INT_MAX then d(seg_start g s \<mapsto> w2 * percent div 100) else d)"

lemma percent_bounds:
  assumes "0 \<le> w" "100 * w \<le> INT_MAX" "0 \<le> c" "c \<le> 100"
  shows "cdiv (i32 (w * c)) 100 = w * c div 100" "w * c div 100 \<le> w" "0 \<le> w * c div 100" "w * c div 100 \<le> INT_MAX"
proof -
  have le: "w * c \<le> w * 100" using assms by (intro mult_left_mono) auto
  then have "i32 (w * c) = w * c" using assms by (intro i32_id) (auto simp: in_i32_def INT_MAX_def intro: order_trans [of _ 0])
  then show "cdiv (i32 (w * c)) 100 = w * c div 100" using assms by simp
  show "w * c div 100 \<le> w" using le assms by (simp add: div_le_mono2 mult.commute zdiv_mono1 [THEN order_trans])
  show "0 \<le> w * c div 100" using assms by (simp add: pos_imp_zdiv_nonneg_iff)
  then show "w * c div 100 \<le> INT_MAX" using \<open>w * c div 100 \<le> w\<close> assms by linarith
qed

lemma init_segment_state:
  assumes f: "fresh g" and ne: "seg_start g s \<noteq> seg_end g s" and pc: "0 \<le> percent" "percent \<le> 100"
    and w: "\<And>dir. dir \<in> {1, -1} \<Longrightarrow> route_value_seg profile g None s dir \<noteq> INT_MAX \<Longrightarrow>
       0 \<le> route_value_seg profile g None s dir \<and> 100 * route_value_seg profile g None s dir \<le> INT_MAX"
  shows "init_state s (dst_costs profile g percent s) g (init_segment profile percent s g)"
proof -
  let ?w1 = "route_value_seg profile g None s (-1)" and ?w2 = "route_value_seg profile g None s 1"
  let ?d = "if ?w1 \<noteq> INT_MAX then [seg_end g s \<mapsto> ?w1 * (100 - percent) div 100] else Map.empty"
  let ?g1 = "if ?w1 \<noteq> INT_MAX then init_point (seg_end g s) s (cdiv (i32 (?w1 * (100 - percent))) 100) g else g"
  have 1: "init_state s ?d g ?g1"
    using init_state_point [OF init_state_fresh [OF f], where p = "seg_end g s" and v = "?w1 * (100 - percent) div 100" and s = s]
      percent_bounds [of ?w1 "100 - percent"] w [of "-1"] pc init_state_fresh [OF f] by auto
  then have st: "same_struct g ?g1" by (simp only: init_state_def)
  have segs: "g_seg ?g1 = g_seg g" using st by (simp only: same_struct_def)
  have eq: "init_segment profile percent s g =
     (if ?w2 \<noteq> INT_MAX then init_point (seg_start g s) s (cdiv (i32 (?w2 * percent)) 100) ?g1 else ?g1)"
    unfolding init_segment_def Let_def value_seg_struct [OF st] segs ..
  show ?thesis
  proof (cases "?w2 = INT_MAX")
    case True
    then show ?thesis using 1 unfolding eq dst_costs_def Let_def by simp
  next
    case False
    have "?d (seg_start g s) = None" using ne by simp
    from init_state_point [OF 1 this, where v = "?w2 * percent div 100"] show ?thesis
      using False percent_bounds [of ?w2 percent] w [of 1] pc unfolding eq dst_costs_def Let_def by simp
  qed
qed

lemma dst_costs_cases:
  assumes "dst_costs profile g percent s q = Some v" "seg_start g s \<noteq> seg_end g s"
  shows "q = seg_end g s \<and> weight profile g (-1, s) \<noteq> INT_MAX \<and> v = weight profile g (-1, s) * (100 - percent) div 100
    \<or> q = seg_start g s \<and> weight profile g (1, s) \<noteq> INT_MAX \<and> v = weight profile g (1, s) * percent div 100"
  using assms by (auto simp: dst_costs_def Let_def weight_def split: if_splits)

lemma dst_costs_start: "seg_start g s \<noteq> seg_end g s \<Longrightarrow> weight profile g (1, s) \<noteq> INT_MAX \<Longrightarrow>
    dst_costs profile g percent s (seg_start g s) = Some (weight profile g (1, s) * percent div 100)"
  by (auto simp: dst_costs_def Let_def weight_def)

lemma dst_costs_end: "seg_start g s \<noteq> seg_end g s \<Longrightarrow> weight profile g (-1, s) \<noteq> INT_MAX \<Longrightarrow>
    dst_costs profile g percent s (seg_end g s) = Some (weight profile g (-1, s) * (100 - percent) div 100)"
  by (auto simp: dst_costs_def Let_def weight_def)

lemma init_state_cases:
  assumes "init_state s dv g0 g"
  shows "dv q = None \<Longrightarrow> fresh_pt (g_pt g q)"
    "dv q = Some v \<Longrightarrow> pt_dst_val (g_pt g q) = v \<and> pt_rhs (g_pt g q) = v \<and> pt_seg (g_pt g q) = Some s
       \<and> pt_dst_seg (g_pt g q) = Some s \<and> (\<exists>e. pt_el (g_pt g q) = Some e \<and> (e, v, q) \<in> queue g)"
    "pt_value (g_pt g q) = INT_MAX"
proof -
  have "\<forall>q. pt_value (g_pt g q) = INT_MAX
        \<and> (case dv q of None \<Rightarrow> fresh_pt (g_pt g q)
           | Some v \<Rightarrow> pt_dst_val (g_pt g q) = v \<and> pt_rhs (g_pt g q) = v \<and> pt_seg (g_pt g q) = Some s
               \<and> pt_dst_seg (g_pt g q) = Some s
               \<and> (\<exists>e. pt_el (g_pt g q) = Some e \<and> (e, v, q) \<in> queue g))" using assms unfolding init_state_def by blast
  from spec [OF this, of q] show "dv q = None \<Longrightarrow> fresh_pt (g_pt g q)"
    "dv q = Some v \<Longrightarrow> pt_dst_val (g_pt g q) = v \<and> pt_rhs (g_pt g q) = v \<and> pt_seg (g_pt g q) = Some s
       \<and> pt_dst_seg (g_pt g q) = Some s \<and> (\<exists>e. pt_el (g_pt g q) = Some e \<and> (e, v, q) \<in> queue g)"
    "pt_value (g_pt g q) = INT_MAX" by simp_all
qed

lemma init_regular:
  assumes reg: "regular profile g0 W" and s: "s < g_ns g0" "seg_start g0 s \<noteq> seg_end g0 s"
    and pc: "0 \<le> percent" "percent \<le> 100" and W: "100 * W \<le> INT_MAX"
    and i: "init_state s (dst_costs profile g0 percent s) g0 g"
  shows "regular profile g W"
proof -
  have st: "same_struct g0 g" using i by (simp add: init_state_def)
  note sf = struct_facts [OF st] and ic = init_state_cases [OF i]
  have e: "g_seg g = g_seg g0" "g_ns g = g_ns g0" "g_np g = g_np g0" using st by (auto simp: same_struct_def)
  have wf: "adj_wf g0" and W0: "0 \<le> W" and np: "\<forall>s<g_ns g0. seg_start g0 s < g_np g0 \<and> seg_end g0 s < g_np g0"
    and ws: "\<forall>s<g_ns g0. \<forall>dir\<in>{1, -1}. weight profile g0 (dir, s) \<noteq> INT_MAX \<longrightarrow>
        0 < weight profile g0 (dir, s) \<and> weight profile g0 (dir, s) \<le> W
        \<and> relaxable profile g0 (2 * dir) s \<and> route_through_traffic_allowed profile g0 s"
    using reg unfolding regular_def by blast+
  have w: "0 \<le> weight profile g0 (dir, s) \<and> weight profile g0 (dir, s) \<le> W \<and> 100 * weight profile g0 (dir, s) \<le> INT_MAX"
    if "dir \<in> {1, -1}" "weight profile g0 (dir, s) \<noteq> INT_MAX" for dir
    using ws s(1) that W by fastforce
  have dv: "q < g_np g0 \<and> 0 \<le> v \<and> v \<le> W \<and> usable profile g0 s"
    if d: "dst_costs profile g0 percent s q = Some v" for q v
    using dst_costs_cases [OF d s(2)]
  proof (elim disjE conjE)
    assume a: "q = seg_end g0 s" "weight profile g0 (-1, s) \<noteq> INT_MAX" "v = weight profile g0 (-1, s) * (100 - percent) div 100"
    then show ?thesis using w [of "-1"] percent_bounds [of "weight profile g0 (-1, s)" "100 - percent"] pc np s(1)
      by (auto simp: usable_def)
  next
    assume a: "q = seg_start g0 s" "weight profile g0 (1, s) \<noteq> INT_MAX" "v = weight profile g0 (1, s) * percent div 100"
    then show ?thesis using w [of 1] percent_bounds [of "weight profile g0 (1, s)" percent] pc np s(1)
      by (auto simp: usable_def)
  qed
  have dst: "if pt_dst_val (g_pt g p) = INT_MAX then pt_dst_seg (g_pt g p) = None
          else p < g_np g \<and> 0 \<le> pt_dst_val (g_pt g p) \<and> pt_dst_val (g_pt g p) \<le> W
            \<and> (\<exists>s. pt_dst_seg (g_pt g p) = Some s \<and> usable profile g s)" for p
  proof (cases "dst_costs profile g0 percent s p")
    case None
    then show ?thesis using ic(1) [of p] by (simp add: fresh_pt_def)
  next
    case (Some v)
    have "v \<noteq> INT_MAX" using dv [OF Some] W by (auto simp: INT_MAX_def)
    then show ?thesis using ic(2) [OF Some] dv [OF Some] by (simp add: sf e)
  qed
  have ex: "pt_dst_val (g_pt g p) \<le> weight profile g0 ds + pt_dst_val (g_pt g (other g0 ds))"
    if ds: "ds \<in> set (incident g0 p)" "weight profile g0 ds \<noteq> INT_MAX" "pt_dst_seg (g_pt g (other g0 ds)) = Some (snd ds)" for p ds
  proof -
    have "dst_costs profile g0 percent s (other g0 ds) \<noteq> None"
      using ic(1) [of "other g0 ds"] ds(3) by (auto simp: fresh_pt_def)
    then obtain v where v: "dst_costs profile g0 percent s (other g0 ds) = Some v" by blast
    then have sd: "snd ds = s" and dvn: "pt_dst_val (g_pt g (other g0 ds)) = v" "0 \<le> v"
      using ic(2) [OF v] ds(3) dv [OF v] by auto
    note c = incident_cases [OF ds(1) wf]
    have "dst_costs profile g0 percent s p = Some (weight profile g0 ds * (if fst ds = 1 then percent else 100 - percent) div 100)"
      using c sd ds(2) dst_costs_start [OF s(2), of profile percent] dst_costs_end [OF s(2), of profile percent]
      by (cases ds) auto
    from ic(2) [OF this] have "pt_dst_val (g_pt g p) \<le> weight profile g0 ds"
      using percent_bounds(2) [of "weight profile g0 ds"] w [of "fst ds"] c(1) ds(2) sd pc by (cases ds) auto
    then show ?thesis using dvn by simp
  qed
  show ?thesis using reg dst ex unfolding regular_def sf e by blast
qed

lemma init_settled:
  assumes reg: "regular profile g W" and i: "init_state s dv g0 g"
    and u: "\<And>q v. dv q = Some v \<Longrightarrow> usable profile g s"
  shows "settled profile g W {} g"
proof -
  note ic = init_state_cases [OF i]
  have ex: "heap_exact g" using i by (simp add: init_state_def)
  have segs: "segs_ok profile g" unfolding segs_ok_def
  proof (intro allI impI)
    fix p t assume t: "pt_seg (g_pt g p) = Some t"
    then obtain v where v: "dv p = Some v" using ic(1) [of p] by (cases "dv p") (auto simp: fresh_pt_def)
    then show "usable profile g t" using ic(2) [OF v] u [OF v] t by simp
  qed
  have la: "lookahead profile g q = (pt_dst_val (g_pt g q), pt_dst_seg (g_pt g q))" for q
  proof -
    have "eff profile g ds = INT_MAX" if "ds \<in> set (incident g q)" for ds
      using eff_eq [OF reg segs that] ic(3) by simp
    then show ?thesis
      using amin_cases [of "eff profile g" snd "incident g q" "(pt_dst_val (g_pt g q), pt_dst_seg (g_pt g q))"]
        regular_dst [OF reg, of q] by (auto simp: lookahead_eq [OF reg])
  qed
  have dst: "if pt_dst_val (g_pt g p) = INT_MAX then pt_dst_seg (g_pt g p) = None
          else p < g_np g \<and> 0 \<le> pt_dst_val (g_pt g p) \<and> pt_dst_val (g_pt g p) \<le> W
            \<and> (\<exists>s. pt_dst_seg (g_pt g p) = Some s \<and> usable profile g s)" for p
    using reg unfolding regular_def by blast
  have "entry_ok (lookahead profile g) g q" for q
  proof (cases "dv q")
    case None
    then show ?thesis using ic(1) [OF None] by (simp add: entry_ok_def la fresh_pt_def)
  next
    case (Some v)
    have "pt_dst_val (g_pt g q) \<noteq> INT_MAX" using dst [of q] ic(2) [OF Some] by (auto split: if_splits)
    then show ?thesis using ic(2) [OF Some] by (auto simp: entry_ok_def la)
  qed
  then show ?thesis using ex segs ic(3) by (simp add: settled_def relax_inv_def)
qed

text \<open>
  The whole search: initialise, expand, and every point has the least cost of all ways to the
  destination, \<open>INT_MAX\<close> where there is none, and its next segment is the first of a cheapest way.
\<close>

definition search_result :: "vehicleprofile \<Rightarrow> route_graph \<Rightarrow> route_graph \<Rightarrow> bool" where
  "search_result profile g0 g \<longleftrightarrow> same_static g0 g \<and> (\<forall>p.
     if pt_value (g_pt g p) = INT_MAX then \<not> (\<exists>v. drive profile g0 p v)
     else pt_value (g_pt g p) < INT_MAX \<and> drive profile g0 p (pt_value (g_pt g p)) \<and> (\<forall>v. drive profile g0 p v \<longrightarrow> pt_value (g_pt g p) \<le> v)
       \<and> (pt_value (g_pt g p) = pt_dst_val (g_pt g0 p) \<and> pt_seg (g_pt g p) = pt_dst_seg (g_pt g0 p)
          \<or> (\<exists>ds\<in>set (incident g0 p). pt_seg (g_pt g p) = Some (snd ds) \<and> weight profile g0 ds \<noteq> INT_MAX
               \<and> pt_value (g_pt g (other g0 ds)) < pt_value (g_pt g p)
               \<and> pt_value (g_pt g p) = weight profile g0 ds + pt_value (g_pt g (other g0 ds)))))"

lemma settled_result:
  assumes reg: "regular profile g0 W" and s: "settled profile g0 W F g" and e: "queue g = {}"
  shows "search_result profile g0 g"
proof -
  have st: "same_static g0 g"
    and val: "\<And>q. pt_value (g_pt g q) = (if q \<in> F then fst (lookahead profile g q) else INT_MAX)"
    and rs: "\<And>q. q \<in> F \<Longrightarrow> (pt_rhs (g_pt g q), pt_seg (g_pt g q)) = lookahead profile g q"
    and b: "\<And>q. q \<in> F \<Longrightarrow> fst (lookahead profile g q) < INT_MAX"
    using s unfolding settled_def relax_inv_def by blast+
  have regg: "regular profile g W" using reg regular_static [OF st] by simp
  have ts: "same_static g g0" using st by (simp add: same_static_def)
  have dr: "drive profile g p v = drive profile g0 p v" for p v
    using drive_static [OF _ st] drive_static [OF _ ts] by blast
  have inF: "p \<in> F \<longleftrightarrow> pt_value (g_pt g p) \<noteq> INT_MAX" for p using val [of p] b [of p] by auto
  have nxt: "pt_value (g_pt g p) = pt_dst_val (g_pt g0 p) \<and> pt_seg (g_pt g p) = pt_dst_seg (g_pt g0 p)
          \<or> (\<exists>ds\<in>set (incident g0 p). pt_seg (g_pt g p) = Some (snd ds) \<and> weight profile g0 ds \<noteq> INT_MAX
               \<and> pt_value (g_pt g (other g0 ds)) < pt_value (g_pt g p)
               \<and> pt_value (g_pt g p) = weight profile g0 ds + pt_value (g_pt g (other g0 ds)))" if p: "p \<in> F" for p
  proof -
    have vs: "pt_value (g_pt g p) = fst (lookahead profile g p)" "pt_seg (g_pt g p) = snd (lookahead profile g p)"
      using val p arg_cong [OF rs [OF p], of snd] by simp_all
    from settled_next [OF reg s p] show ?thesis
    proof
      assume "lookahead profile g p = (pt_dst_val (g_pt g p), pt_dst_seg (g_pt g p)) \<and> pt_dst_val (g_pt g p) \<noteq> INT_MAX"
      then show ?thesis using vs same_staticD(6,7) [OF st] by simp
    next
      assume "\<exists>ds\<in>set (incident g p). weight profile g ds \<noteq> INT_MAX \<and> other g ds \<in> F
          \<and> lookahead profile g p = (weight profile g ds + pt_value (g_pt g (other g ds)), Some (snd ds))"
      then obtain ds where ds: "ds \<in> set (incident g p)" "weight profile g ds \<noteq> INT_MAX"
        "lookahead profile g p = (weight profile g ds + pt_value (g_pt g (other g ds)), Some (snd ds))" by blast
      have "0 < weight profile g ds" by (rule regularD(1) [OF regg ds(1,2)])
      then show ?thesis using ds vs incident_static [OF st] weight_static [OF st] other_static [OF st]
        by (intro disjI2 bexI [of _ ds]) auto
    qed
  qed
  show ?thesis unfolding search_result_def
  proof (intro conjI allI)
    fix p
    show "if pt_value (g_pt g p) = INT_MAX then \<not> (\<exists>v. drive profile g0 p v)
     else pt_value (g_pt g p) < INT_MAX \<and> drive profile g0 p (pt_value (g_pt g p)) \<and> (\<forall>v. drive profile g0 p v \<longrightarrow> pt_value (g_pt g p) \<le> v)
       \<and> (pt_value (g_pt g p) = pt_dst_val (g_pt g0 p) \<and> pt_seg (g_pt g p) = pt_dst_seg (g_pt g0 p)
          \<or> (\<exists>ds\<in>set (incident g0 p). pt_seg (g_pt g p) = Some (snd ds) \<and> weight profile g0 ds \<noteq> INT_MAX
               \<and> pt_value (g_pt g (other g0 ds)) < pt_value (g_pt g p)
               \<and> pt_value (g_pt g p) = weight profile g0 ds + pt_value (g_pt g (other g0 ds))))"
    proof (cases "p \<in> F")
      case True
      have "pt_value (g_pt g p) \<noteq> INT_MAX" "pt_value (g_pt g p) < INT_MAX"
        using val [of p] b [OF True] True by simp_all
      moreover have "drive profile g0 p (pt_value (g_pt g p))" using settled_drive [OF reg s True] dr by simp
      moreover have "\<forall>v. drive profile g0 p v \<longrightarrow> pt_value (g_pt g p) \<le> v"
        using settled_least [OF reg s e] dr by blast
      ultimately show ?thesis using nxt [OF True] by simp
    next
      case False
      then have "\<not> (\<exists>v. drive profile g0 p v)" using settled_least [OF reg s e] dr by blast
      moreover have "pt_value (g_pt g p) = INT_MAX" using inF False by simp
      ultimately show ?thesis by simp
    qed
  qed (rule st)
qed

lemma init_ready:
  assumes reg: "regular profile g W" and f: "fresh g" and W: "100 * W \<le> INT_MAX"
    and segs: "all_segments_of g street = [s]" and s: "s < g_ns g" "seg_start g s \<noteq> seg_end g s"
    and pc: "0 \<le> percent" "percent \<le> 100"
  shows "init_state s (dst_costs profile g percent s) g (route_graph_init profile street percent g)"
    "regular profile (route_graph_init profile street percent g) W"
proof -
  let ?gi = "route_graph_init profile street percent g"
  have eq: "?gi = init_segment profile percent s g" by (simp add: route_graph_init_def segs)
  have ws: "\<forall>s<g_ns g. \<forall>dir\<in>{1, -1}. weight profile g (dir, s) \<noteq> INT_MAX \<longrightarrow>
        0 < weight profile g (dir, s) \<and> weight profile g (dir, s) \<le> W
        \<and> relaxable profile g (2 * dir) s \<and> route_through_traffic_allowed profile g s"
    using reg unfolding regular_def by blast
  have wd: "weight profile g (dir, s) = route_value_seg profile g None s dir" for dir
    using s(2) by (simp add: weight_def)
  have w: "0 \<le> route_value_seg profile g None s dir \<and> 100 * route_value_seg profile g None s dir \<le> INT_MAX"
    if d: "dir \<in> {1, -1}" "route_value_seg profile g None s dir \<noteq> INT_MAX" for dir
  proof -
    have "weight profile g (dir, s) \<noteq> INT_MAX" using d(2) wd by simp
    then have "0 < weight profile g (dir, s) \<and> weight profile g (dir, s) \<le> W" using ws s(1) d(1) by blast
    then have "0 < route_value_seg profile g None s dir" "route_value_seg profile g None s dir \<le> W"
      unfolding wd by simp_all
    then show ?thesis using W by (intro conjI) linarith+
  qed
  show i: "init_state s (dst_costs profile g percent s) g ?gi"
    unfolding eq by (rule init_segment_state [OF f s(2) pc]) (rule w)
  show "regular profile ?gi W" by (rule init_regular [OF reg s pc W i])
qed

context heap_pick
begin

lemma search_correct:
  assumes reg: "regular profile g W" and f: "fresh g" and W: "100 * W \<le> INT_MAX"
    and segs: "all_segments_of g street = [s]" and s: "s < g_ns g" "seg_start g s \<noteq> seg_end g s"
    and pc: "0 \<le> percent" "percent \<le> 100"
  shows "\<exists>g'. route_graph_compute_shortest_path pick profile (route_graph_init profile street percent g) = Some g'
    \<and> search_result profile (route_graph_init profile street percent g) g' \<and> queue g' = {}"
proof -
  let ?gi = "route_graph_init profile street percent g"
  note i = init_ready(1) [OF assms] and regi = init_ready(2) [OF assms]
  have st: "same_struct g ?gi" using i by (simp add: init_state_def)
  have "usable profile ?gi s" if "dst_costs profile g percent s q = Some v" for q v
    using dst_costs_cases [OF that s(2)] s(1) st by (auto simp: struct_facts [OF st] usable_def same_struct_def)
  then have "settled profile ?gi W {} ?gi" by (rule init_settled [OF regi i])
  then obtain g' F' where "route_graph_compute_shortest_path pick profile ?gi = Some g'" "settled profile ?gi W F' g'" "queue g' = {}"
    using settled_search [OF regi] by blast
  then show ?thesis using settled_result [OF regi] by blast
qed

end

end
