(* ===== verification/Route_Build.thy ===== *)
theory Route_Build
  imports Route_LPA
begin

text \<open>
  Building and changing the route graph from map items: traffic distortions, turn restrictions,
  streets, and the resolution of the turn restrictions into one-way copies of the segments.
  \<open>None\<close> is a failed assertion or a read of a field a segment does not have.
\<close>

section \<open>Map items\<close>

text \<open>
  What a map driver returns for an item: its coordinates, each with the answer of
  \<open>item_coord_is_node\<close> before it is read, and its attributes.
\<close>

record map_item =
  mi_item :: item
  mi_coords :: "(coord \<times> bool) list"
  mi_attr :: "attr_type \<Rightarrow> int option"

definition default_flags2 :: "(int \<times> 32 word) list" where
  "default_flags2 =
    [(0x80000006, 0xE0000000), (0x80000007, 0xFFF00000), (0x80000008, 0xFFF00000), (0x80000009, 0xFFF00000),
     (0x8000000A, 0xFFF00000), (0x8000000B, 0xFFF00000), (0x8000000C, 0x0FF00000), (0x8000000D, 0xFFF00000),
     (0x8000000E, 0xFFF00000), (0x8000000F, 0xFFF00000), (0x80000010, 0xFFF00000), (0x80000011, 0x0FF00000),
     (0x80000012, 0x0FF00000), (0x80000013, 0x0FF00000), (0x80000014, 0xFFF00000), (0x80000015, 0xFFF00000),
     (0x8000002E, 0xE0000000), (0x80000031, 0xFFF00000), (0x80000032, 0xFFF00000), (0x80000033, 0xFFF00000),
     (0x80000034, 0xFFF00000), (0x80000035, 0xFFF00000), (0x8000002F, 0xE0000000), (0x80000041, 0xFFF00000),
     (0x80000028, 0xFFF00000), (0x80000052, 0xFFF00000), (0x8000002D, 0xE0000000), (0x8000004B, 0xE0000000),
     (0x80000030, 0xE0000000), (0x8000002A, 0xE0000000), (0x8000004D, 0x80000000), (0x8000004E, 0x80000000),
     (0x8000004C, 0x80000000), (0x8000004F, 0x80000000), (0x80000050, 0x80000000), (0x80000051, 0x80000000)]"

definition item_get_default_flags :: "int \<Rightarrow> (32 word) option" where
  "item_get_default_flags t = map_of default_flags2 t"

section \<open>Traffic distortions\<close>

text \<open>\<open>stk\<close> stands for the uninitialised stack memory the code leaves in unused fields of \<open>data\<close>.\<close>

definition empty_item :: "int \<Rightarrow> item" where
  "empty_item t = \<lparr>it_type = t, it_id_hi = 0, it_id_lo = 0, it_map = 0\<rparr>"

fun set_td_segments :: "nat \<Rightarrow> int \<Rightarrow> nat list \<Rightarrow> route_graph \<Rightarrow> route_graph option" where
  "set_td_segments seg delay [] g = Some g"
| "set_td_segments seg delay (s # ss) g =
     (if route_graph_segment_match g (Some s) (Some seg) then
        if it_type (seg_item g s) \<noteq> type_none \<and> it_type (seg_item g s) \<noteq> type_traffic_distortion \<and> delay \<noteq> 0 then
          (let data = \<lparr>gd_item = empty_item type_traffic_distortion, gd_offset = 0,
                 gd_flags = seg_flags g seg AND AF_DISTORTIONMASK, gd_len = delay, gd_maxspeed = 0,
                 gd_size_weight = \<lparr>sw_width = 0, sw_length = 0, sw_height = 0, sw_weight = 0, sw_axle_weight = 0\<rparr>,
                 gd_dangerous_goods = 0, gd_score = 0\<rparr>;
               a = seg_start g s; b = seg_end g s;
               g = upd_pt a (\<lambda>p. p\<lparr>pt_flags := pt_flags p OR RP_TRAFFIC_DISTORTION\<rparr>) g;
               g = upd_pt b (\<lambda>p. p\<lparr>pt_flags := pt_flags p OR RP_TRAFFIC_DISTORTION\<rparr>) g
           in Option.bind (route_graph_add_segment a b data g) (set_td_segments seg delay ss))
        else if it_type (seg_item g s) = type_traffic_distortion \<and> delay = 0 then
          set_td_segments seg delay ss
            (upd_seg_data s (\<lambda>d. d\<lparr>sd_item := (sd_item d)\<lparr>it_type := type_none\<rparr>\<rparr>) g)
        else set_td_segments seg delay ss g
      else set_td_segments seg delay ss g)"

fun set_td_points :: "nat \<Rightarrow> int \<Rightarrow> nat list \<Rightarrow> route_graph \<Rightarrow> route_graph option" where
  "set_td_points seg delay [] g = Some g"
| "set_td_points seg delay (p # ps) g =
     Option.bind (set_td_segments seg delay (pt_start (g_pt g p)) g) (set_td_points seg delay ps)"

definition route_graph_set_traffic_distortion :: "nat \<Rightarrow> int \<Rightarrow> route_graph \<Rightarrow> route_graph option" where
  "route_graph_set_traffic_distortion seg delay g =
     set_td_points seg delay (points_at g (pt_c (g_pt g (seg_start g seg)))) g"

definition td_item_data :: "route_graph_segment_data \<Rightarrow> map_item \<Rightarrow> route_graph_segment_data" where
  "td_item_data stk it =
     (let data = stk\<lparr>gd_item := mi_item it, gd_len := 0, gd_offset := 1, gd_maxspeed := INT_MAX,
            gd_flags := (case mi_attr it attr_flags of
               Some f \<Rightarrow> word_of_int f AND AF_DISTORTIONMASK | None \<Rightarrow> 0)\<rparr>;
          data = (case mi_attr it attr_maxspeed of
             Some m \<Rightarrow> data\<lparr>gd_flags := gd_flags data OR AF_SPEED_LIMIT, gd_maxspeed := m\<rparr> | None \<Rightarrow> data)
      in case mi_attr it attr_delay of Some d \<Rightarrow> data\<lparr>gd_len := d\<rparr> | None \<Rightarrow> data)"

definition route_graph_add_traffic_distortion ::
  "route_graph_segment_data \<Rightarrow> vehicleprofile \<Rightarrow> map_item \<Rightarrow> bool \<Rightarrow> route_graph \<Rightarrow> route_graph option" where
  "route_graph_add_traffic_distortion stk profile it update g =
     (case map fst (mi_coords it) of
        [] \<Rightarrow> Some g
      | l # rest \<Rightarrow> do {
          let (s_pnt, g) = route_graph_add_point l g;
          let (e_pnt, g) = route_graph_add_point (last (l # rest)) g;
          let g = upd_pt s_pnt (\<lambda>p. p\<lparr>pt_flags := pt_flags p OR RP_TRAFFIC_DISTORTION\<rparr>) g;
          let g = upd_pt e_pnt (\<lambda>p. p\<lparr>pt_flags := pt_flags p OR RP_TRAFFIC_DISTORTION\<rparr>) g;
          let data = td_item_data stk it;
          g \<leftarrow> route_graph_add_segment s_pnt e_pnt data g;
          g \<leftarrow> (if update \<and> \<not> has_flag (gd_flags data) AF_ONEWAYREV
               then route_graph_point_update profile s_pnt g else Some g);
          (if update \<and> \<not> has_flag (gd_flags data) AF_ONEWAY
           then route_graph_point_update profile e_pnt g else Some g)
        })"

text \<open>The loops of \<open>route_graph_remove_traffic_distortion\<close> over the segments of the two points.\<close>

definition td_clear_start :: "nat \<Rightarrow> nat \<Rightarrow> item \<Rightarrow> nat \<Rightarrow> route_graph \<Rightarrow> route_graph" where
  "td_clear_start s_pnt e_pnt it cur g =
     (if seg_end g cur = e_pnt \<and> item_is_equal (seg_item g cur) it
      then upd_seg_data cur (\<lambda>d. d\<lparr>sd_item := (sd_item d)\<lparr>it_type := type_none\<rparr>\<rparr>) g
      else if it_type (seg_item g cur) = type_traffic_distortion
      then upd_pt s_pnt (\<lambda>p. p\<lparr>pt_flags := pt_flags p OR RP_TRAFFIC_DISTORTION\<rparr>) g else g)"

definition td_clear_end :: "nat \<Rightarrow> nat \<Rightarrow> route_graph \<Rightarrow> route_graph" where
  "td_clear_end e_pnt cur g =
     (if it_type (seg_item g cur) = type_traffic_distortion
      then upd_pt e_pnt (\<lambda>p. p\<lparr>pt_flags := pt_flags p OR RP_TRAFFIC_DISTORTION\<rparr>) g else g)"

definition route_graph_remove_traffic_distortion ::
  "vehicleprofile \<Rightarrow> map_item \<Rightarrow> route_graph \<Rightarrow> route_graph option" where
  "route_graph_remove_traffic_distortion profile it g =
     (case map fst (mi_coords it) of
        [] \<Rightarrow> Some g
      | l # rest \<Rightarrow>
          (case (route_graph_get_point g l, route_graph_get_point g (last (l # rest))) of
             (Some s_pnt, Some e_pnt) \<Rightarrow> do {
               let g = upd_pt s_pnt (\<lambda>p. p\<lparr>pt_flags := pt_flags p AND NOT RP_TRAFFIC_DISTORTION\<rparr>) g;
               let g = fold (td_clear_start s_pnt e_pnt (mi_item it)) (pt_start (g_pt g s_pnt)) g;
               let g = upd_pt e_pnt (\<lambda>p. p\<lparr>pt_flags := pt_flags p AND NOT RP_TRAFFIC_DISTORTION\<rparr>) g;
               let g = fold (td_clear_end e_pnt) (pt_end (g_pt g e_pnt)) g;
               g \<leftarrow> route_graph_point_update profile s_pnt g;
               route_graph_point_update profile e_pnt g
             }
           | _ \<Rightarrow> Some g))"

definition route_graph_change_traffic_distortion ::
  "route_graph_segment_data \<Rightarrow> vehicleprofile \<Rightarrow> map_item \<Rightarrow> route_graph \<Rightarrow> route_graph option" where
  "route_graph_change_traffic_distortion stk profile it g = do {
     g \<leftarrow> route_graph_remove_traffic_distortion profile it g;
     route_graph_add_traffic_distortion stk profile it True g
   }"

section \<open>Turn restrictions and streets\<close>

definition route_graph_add_turn_restriction ::
  "route_graph_segment_data \<Rightarrow> map_item \<Rightarrow> route_graph \<Rightarrow> route_graph option" where
  "route_graph_add_turn_restriction stk it g =
     (case take 5 (map fst (mi_coords it)) of
        [a, b, c] \<Rightarrow> do {
          let (p0, g) = route_graph_add_point a g;
          let (p1, g) = route_graph_add_point b g;
          let (p2, g) = route_graph_add_point c g;
          let data = stk\<lparr>gd_item := mi_item it, gd_flags := 0, gd_len := 0, gd_score := 0\<rparr>;
          g \<leftarrow> route_graph_add_segment p0 p1 data g;
          g \<leftarrow> route_graph_add_segment p1 p2 data g;
          Some (upd_pt p1 (\<lambda>p. p\<lparr>pt_flags := pt_flags p OR RP_TURN_RESTRICTION\<rparr>) g)
        }
      | _ \<Rightarrow> Some g)"

definition add_street_segment ::
  "nat \<Rightarrow> nat \<Rightarrow> route_graph_segment_data \<Rightarrow> route_graph \<Rightarrow> route_graph option" where
  "add_street_segment s_pnt e_pnt data g = do {
     dup \<leftarrow> route_graph_segment_is_duplicate g s_pnt data;
     if dup then Some g else route_graph_add_segment s_pnt e_pnt data g
   }"

text \<open>
  \<open>tdist\<close> is \<open>transform_distance\<close> in the projection of the map; lengths are summed up in
  double precision.
\<close>

fun street_len :: "(coord \<Rightarrow> coord \<Rightarrow> rat) \<Rightarrow> coord \<Rightarrow> rat \<Rightarrow> coord list \<Rightarrow> rat \<times> coord" where
  "street_len tdist l len [] = (len, l)"
| "street_len tdist l len (c # cs) = street_len tdist c (dround (len + tdist l c)) cs"

fun add_street_segmented ::
  "(coord \<Rightarrow> coord \<Rightarrow> rat) \<Rightarrow> route_graph_segment_data \<Rightarrow> coord \<Rightarrow> rat \<Rightarrow> nat \<Rightarrow> (coord \<times> bool) list
   \<Rightarrow> route_graph \<Rightarrow> route_graph option" where
  "add_street_segmented tdist data l len s_pnt [] g =
     (let (e_pnt, g) = route_graph_add_point l g in
      if len < 0 then None else add_street_segment s_pnt e_pnt (data\<lparr>gd_len := d2i len\<rparr>) g)"
| "add_street_segmented tdist data l len s_pnt ((c, isseg) # cs) g =
     (let len = dround (len + tdist l c) in
      if isseg then
        (let (e_pnt, g) = route_graph_add_point c g; data = data\<lparr>gd_len := d2i len\<rparr> in
         Option.bind (add_street_segment s_pnt e_pnt data g) (\<lambda>g.
           let data = data\<lparr>gd_offset := gd_offset data + 1\<rparr>; (s_pnt, g) = route_graph_add_point c g
           in add_street_segmented tdist data c 0 s_pnt cs g))
      else add_street_segmented tdist data c len s_pnt cs g)"

definition attr_or :: "map_item \<Rightarrow> attr_type \<Rightarrow> int \<Rightarrow> int" where
  "attr_or it a d = (case mi_attr it a of Some v \<Rightarrow> v | None \<Rightarrow> d)"

definition street_item_data :: "route_graph_segment_data \<Rightarrow> map_item \<Rightarrow> route_graph_segment_data" where
  "street_item_data stk it =
     (let data = stk\<lparr>gd_flags := 0, gd_offset := 1, gd_maxspeed := -1, gd_item := mi_item it\<rparr>;
          default_flags = (case item_get_default_flags (it_type (mi_item it)) of Some f \<Rightarrow> f | None \<Rightarrow> AF_ALL);
          data = data\<lparr>gd_flags := (case mi_attr it attr_flags of Some f \<Rightarrow> word_of_int f | None \<Rightarrow> default_flags)\<rparr>;
          data = (if has_flag (gd_flags data) AF_SPEED_LIMIT
             then (case mi_attr it attr_maxspeed of Some m \<Rightarrow> data\<lparr>gd_maxspeed := m\<rparr> | None \<Rightarrow> data) else data);
          data = (if has_flag (gd_flags data) AF_DANGEROUS_GOODS
             then (case mi_attr it attr_vehicle_dangerous_goods of
                 Some v \<Rightarrow> data\<lparr>gd_dangerous_goods := v\<rparr>
               | None \<Rightarrow> data\<lparr>gd_flags := gd_flags data AND NOT AF_DANGEROUS_GOODS\<rparr>) else data)
      in if has_flag (gd_flags data) AF_SIZE_OR_WEIGHT_LIMIT
         then data\<lparr>gd_size_weight := \<lparr>sw_width = attr_or it attr_vehicle_width (-1),
                sw_length = attr_or it attr_vehicle_length (-1), sw_height = attr_or it attr_vehicle_height (-1),
                sw_weight = attr_or it attr_vehicle_weight (-1),
                sw_axle_weight = attr_or it attr_vehicle_axle_weight (-1)\<rparr>\<rparr>
         else data)"

definition route_graph_add_street ::
  "(coord \<Rightarrow> coord \<Rightarrow> rat) \<Rightarrow> route_graph_segment_data \<Rightarrow> vehicleprofile \<Rightarrow> map_item \<Rightarrow> route_graph \<Rightarrow> route_graph option" where
  "route_graph_add_street tdist stk profile it g =
     (if vehicleprofile_get_roadprofile profile (it_type (mi_item it)) = None then Some g
      else case mi_coords it of
        [] \<Rightarrow> Some g
      | (l, _) # cs \<Rightarrow>
          (let data = street_item_data stk it;
               segmented = (case mi_attr it attr_flags of Some f \<Rightarrow> has_flag (word_of_int f) AF_SEGMENTED | None \<Rightarrow> False);
               (s_pnt, g) = route_graph_add_point l g
           in if \<not> segmented then
                (let (len, l) = street_len tdist l 0 (map fst cs); (e_pnt, g) = route_graph_add_point l g
                 in if len < 0 then None else add_street_segment s_pnt e_pnt (data\<lparr>gd_len := d2i len\<rparr>) g)
              else add_street_segmented tdist data l 0 s_pnt cs g))"

section \<open>Resolving turn restrictions\<close>

definition is_restriction :: "int \<Rightarrow> bool" where
  "is_restriction t \<longleftrightarrow> t = type_street_turn_restriction_no \<or> t = type_street_turn_restriction_only"

fun turn_scan :: "route_graph \<Rightarrow> nat \<Rightarrow> coord \<Rightarrow> coord \<Rightarrow> nat list \<Rightarrow> bool" where
  "turn_scan g p prev next [] = True"
| "turn_scan g p prev next (t1 # ts) =
     (if same_coord (pt_c (g_pt g (seg_start g t1))) prev \<and> is_restriction (it_type (seg_item g t1)) then
        (let tmp2 = scan_next (\<lambda>t2. item_is_equal (seg_item g t1) (seg_item g t2)) None False (pt_start (g_pt g p)) in
         if it_type (seg_item g t1) = type_street_turn_restriction_no
            \<and> (case tmp2 of None \<Rightarrow> False | Some t2 \<Rightarrow> same_coord (pt_c (g_pt g (seg_end g t2))) next) then False
         else if it_type (seg_item g t1) = type_street_turn_restriction_only
            \<and> (case tmp2 of None \<Rightarrow> False | Some t2 \<Rightarrow> \<not> same_coord (pt_c (g_pt g (seg_end g t2))) next) then False
         else turn_scan g p prev next ts)
      else turn_scan g p prev next ts)"

definition is_turn_allowed :: "route_graph \<Rightarrow> nat \<Rightarrow> nat \<Rightarrow> nat \<Rightarrow> bool" where
  "is_turn_allowed g p fr to =
     (if item_is_equal (seg_item g fr) (seg_item g to) then False
      else (let prev = (if seg_start g fr = p then seg_end g fr else seg_start g fr);
                next = (if seg_start g to = p then seg_end g to else seg_start g to)
            in turn_scan g p (pt_c (g_pt g prev)) (pt_c (g_pt g next)) (pt_end (g_pt g p))))"

definition route_graph_clone_segment ::
  "route_graph_segment_data \<Rightarrow> nat \<Rightarrow> nat \<Rightarrow> nat \<Rightarrow> 32 word \<Rightarrow> route_graph \<Rightarrow> route_graph option" where
  "route_graph_clone_segment stk s start en flags g =
     (let d = sg_data (g_seg g s);
          data = stk\<lparr>gd_item := sd_item d, gd_offset := 1, gd_flags := sd_flags d OR flags, gd_len := sd_len d + 1,
             gd_maxspeed := -1, gd_dangerous_goods := 0, gd_score := sd_score d\<rparr>;
          data = (if has_flag (sd_flags d) AF_SPEED_LIMIT then data\<lparr>gd_maxspeed := the (RSD_MAXSPEED d)\<rparr> else data);
          data = (if has_flag (sd_flags d) AF_SEGMENTED then data\<lparr>gd_offset := the (RSD_OFFSET d)\<rparr> else data)
      in route_graph_add_segment start en data g)"

text \<open>Copying the segments leading away from the point (\<open>dir\<close> 1), then those leading to it (-1).\<close>

fun clone_turns ::
  "route_graph_segment_data \<Rightarrow> nat \<Rightarrow> nat \<Rightarrow> nat \<Rightarrow> int \<Rightarrow> nat list \<Rightarrow> route_graph \<Rightarrow> route_graph option" where
  "clone_turns stk p s pn dir [] g = Some g"
| "clone_turns stk p s pn dir (tmp # ts) g =
     (if tmp \<noteq> s \<and> \<not> is_restriction (it_type (seg_item g tmp))
         \<and> \<not> has_flag (seg_flags g tmp) (if dir > 0 then AF_ONEWAYREV else AF_ONEWAY)
         \<and> is_turn_allowed g p s tmp
      then Option.bind (if dir > 0 then route_graph_clone_segment stk tmp pn (seg_end g tmp) AF_ONEWAY g
                        else route_graph_clone_segment stk tmp (seg_start g tmp) pn AF_ONEWAYREV g)
             (clone_turns stk p s pn dir ts)
      else clone_turns stk p s pn dir ts g)"

definition route_graph_process_restriction_segment ::
  "route_graph_segment_data \<Rightarrow> nat \<Rightarrow> nat \<Rightarrow> int \<Rightarrow> route_graph \<Rightarrow> route_graph option" where
  "route_graph_process_restriction_segment stk p s dir g =
     (let (pn, g) = route_graph_point_new (pt_c (g_pt g p)) g in
      if has_flag (seg_flags g s) (if dir > 0 then AF_ONEWAY else AF_ONEWAYREV) then Some g
      else do {
        g \<leftarrow> (if dir > 0 then route_graph_clone_segment stk s pn (seg_end g s) AF_ONEWAYREV g
             else route_graph_clone_segment stk s (seg_start g s) pn AF_ONEWAY g);
        g \<leftarrow> clone_turns stk p s pn 1 (pt_start (g_pt g p)) g;
        clone_turns stk p s pn (-1) (pt_end (g_pt g p)) g
      })"

fun process_segments ::
  "route_graph_segment_data \<Rightarrow> nat \<Rightarrow> int \<Rightarrow> nat list \<Rightarrow> route_graph \<Rightarrow> route_graph option" where
  "process_segments stk p dir [] g = Some g"
| "process_segments stk p dir (s # ss) g =
     (if \<not> is_restriction (it_type (seg_item g s))
      then Option.bind (route_graph_process_restriction_segment stk p s dir g) (process_segments stk p dir ss)
      else process_segments stk p dir ss g)"

definition route_graph_process_restriction_point ::
  "route_graph_segment_data \<Rightarrow> nat \<Rightarrow> route_graph \<Rightarrow> route_graph option" where
  "route_graph_process_restriction_point stk p g = do {
     g \<leftarrow> process_segments stk p 1 (pt_start (g_pt g p)) g;
     g \<leftarrow> process_segments stk p (-1) (pt_end (g_pt g p)) g;
     Some (upd_pt p (\<lambda>x. x\<lparr>pt_flags := pt_flags x OR RP_TURN_RESTRICTION_RESOLVED\<rparr>) g)
   }"

fun process_points :: "route_graph_segment_data \<Rightarrow> nat list \<Rightarrow> route_graph \<Rightarrow> route_graph option" where
  "process_points stk [] g = Some g"
| "process_points stk (p # ps) g =
     (if has_flag (pt_flags (g_pt g p)) RP_TURN_RESTRICTION
      then Option.bind (route_graph_process_restriction_point stk p g) (process_points stk ps)
      else process_points stk ps g)"

definition route_graph_process_restrictions ::
  "route_graph_segment_data \<Rightarrow> route_graph \<Rightarrow> route_graph option" where
  "route_graph_process_restrictions stk g = process_points stk (hashed_points g) g"

section \<open>Reading the maps\<close>

text \<open>
  The items still to come are a list; \<open>route_graph_build_idle\<close> handles up to 1000 of them per
  call, and resolves the restrictions when there are none left.
\<close>

definition route_graph_add_item ::
  "(coord \<Rightarrow> coord \<Rightarrow> rat) \<Rightarrow> route_graph_segment_data \<Rightarrow> vehicleprofile \<Rightarrow> map_item \<Rightarrow> route_graph \<Rightarrow> route_graph option" where
  "route_graph_add_item tdist stk profile it g =
     (let t = it_type (mi_item it) in
      if t = type_traffic_distortion then route_graph_add_traffic_distortion stk profile it False g
      else if is_restriction t then route_graph_add_turn_restriction stk it g
      else route_graph_add_street tdist stk profile it g)"

definition route_graph_build_done ::
  "route_graph_segment_data \<Rightarrow> bool \<Rightarrow> route_graph \<Rightarrow> route_graph option" where
  "route_graph_build_done stk cancel g = do {
     g \<leftarrow> (if \<not> cancel then route_graph_process_restrictions stk g else Some g);
     Some (g\<lparr>g_busy := False\<rparr>)
   }"

fun build_loop ::
  "(coord \<Rightarrow> coord \<Rightarrow> rat) \<Rightarrow> route_graph_segment_data \<Rightarrow> vehicleprofile \<Rightarrow> nat \<Rightarrow> map_item list \<Rightarrow> route_graph
   \<Rightarrow> (map_item list \<times> route_graph) option" where
  "build_loop tdist stk profile 0 items g = Some (items, g)"
| "build_loop tdist stk profile (Suc n) [] g = map_option (Pair []) (route_graph_build_done stk False g)"
| "build_loop tdist stk profile (Suc n) (it # items) g =
     Option.bind (route_graph_add_item tdist stk profile it g) (build_loop tdist stk profile n items)"

definition route_graph_build_idle ::
  "(coord \<Rightarrow> coord \<Rightarrow> rat) \<Rightarrow> route_graph_segment_data \<Rightarrow> vehicleprofile \<Rightarrow> map_item list \<Rightarrow> route_graph
   \<Rightarrow> (map_item list \<times> route_graph) option" where
  "route_graph_build_idle tdist stk profile items g = build_loop tdist stk profile 1000 items g"

end
