(* ===== verification/Route_Build_Inv.thy ===== *)
theory Route_Build_Inv
  imports Route_Build Route_LPA_Heap
begin

text \<open>
  The shape of the route graph: segments are linked at both ends, points are in the hash chain of
  their coordinates, segments hold the fields their flags announce. Every operation that builds or
  changes the graph keeps it.
\<close>

section \<open>The shape invariant\<close>

definition hash_wf :: "route_graph \<Rightarrow> bool" where
  "hash_wf g \<longleftrightarrow> (\<forall>h. distinct (g_hash g h)
     \<and> set (g_hash g h) = {p. p < g_np g \<and> HASHCOORD (pt_c (g_pt g p)) = h})"

definition seg_wf :: "route_graph \<Rightarrow> bool" where
  "seg_wf g \<longleftrightarrow> (\<forall>s<g_ns g. seg_start g s < g_np g \<and> seg_end g s < g_np g \<and> rsd_wf (sg_data (g_seg g s))
     \<and> 0 \<le> sd_len (sg_data (g_seg g s)))"

definition graph_wf :: "route_graph \<Rightarrow> bool" where
  "graph_wf g \<longleftrightarrow> adj_wf g \<and> hash_wf g \<and> seg_wf g"

text \<open>Growth: points keep their coordinates, segments their ends, and the lists only get longer.\<close>

definition grows :: "route_graph \<Rightarrow> route_graph \<Rightarrow> bool" where
  "grows g g' \<longleftrightarrow> g_np g \<le> g_np g' \<and> g_ns g \<le> g_ns g'
     \<and> (\<forall>p<g_np g. pt_c (g_pt g' p) = pt_c (g_pt g p))
     \<and> (\<forall>s<g_ns g. seg_start g' s = seg_start g s \<and> seg_end g' s = seg_end g s)"

lemma grows_refl [simp]: "grows g g" by (simp add: grows_def)

lemma grows_trans: "grows a b \<Longrightarrow> grows b c \<Longrightarrow> grows a c"
  by (auto simp: grows_def)

lemma HASHCOORD_range: "0 \<le> HASHCOORD c" "HASHCOORD c < HASH_SIZE"
  by (simp_all add: HASHCOORD_def HASH_SIZE_def)

lemma points_at_set:
  assumes "graph_wf g" shows "set (points_at g c) = {p. p < g_np g \<and> pt_c (g_pt g p) = c}" "distinct (points_at g c)"
  using assms by (auto simp: points_at_def graph_wf_def hash_wf_def)

lemma get_point_Some:
  assumes "graph_wf g" "route_graph_get_point g c = Some p" shows "p < g_np g" "pt_c (g_pt g p) = c"
proof -
  have "hd_opt (points_at g c) = Some p"
    using assms(2) by (simp add: route_graph_get_point_def route_graph_get_point_next_def points_at_def scan_next_first)
  then have "p \<in> set (points_at g c)" by (auto simp: hd_opt_Some)
  then show "p < g_np g" "pt_c (g_pt g p) = c" using points_at_set [OF assms(1)] by auto
qed

lemma get_point_None:
  assumes "graph_wf g" "route_graph_get_point g c = None" "p < g_np g" shows "pt_c (g_pt g p) \<noteq> c"
proof -
  have "points_at g c = []"
    using assms(2) by (simp add: route_graph_get_point_def route_graph_get_point_next_def points_at_def scan_next_first)
  then show ?thesis using points_at_set(1) [OF assms(1), of c] assms(3) by auto
qed

lemma point_new_wf:
  assumes wf: "graph_wf g" and eq: "route_graph_point_new c g = (p, g')"
  shows "graph_wf g'" "grows g g'" "p = g_np g" "g_np g' = Suc p" "g_ns g' = g_ns g" "g_seg g' = g_seg g"
    "pt_c (g_pt g' p) = c" "pt_start (g_pt g' p) = []" "pt_end (g_pt g' p) = []"
    "\<And>q. q \<noteq> p \<Longrightarrow> g_pt g' q = g_pt g q" "g_heap g' = g_heap g" "pt_flags (g_pt g' p) = 0" "pt_el (g_pt g' p) = None"
proof -
  have g': "p = g_np g" "g' = snd (route_graph_point_new c g)"
    using eq by (auto simp: route_graph_point_new_def Let_def)
  have fields: "g_np g' = Suc (g_np g)" "g_ns g' = g_ns g" "g_seg g' = g_seg g"
    "g_hash g' = (g_hash g)(HASHCOORD c := p # g_hash g (HASHCOORD c))"
    "pt_c (g_pt g' p) = c" "pt_start (g_pt g' p) = []" "pt_end (g_pt g' p) = []"
    "\<And>q. q \<noteq> p \<Longrightarrow> g_pt g' q = g_pt g q" "g_heap g' = g_heap g"
    "pt_flags (g_pt g' p) = 0" "pt_el (g_pt g' p) = None"
    by (auto simp: g' route_graph_point_new_def Let_def)
  show "p = g_np g" "g_np g' = Suc p" "g_ns g' = g_ns g" "g_seg g' = g_seg g"
    "pt_c (g_pt g' p) = c" "pt_start (g_pt g' p) = []" "pt_end (g_pt g' p) = []"
    "\<And>q. q \<noteq> p \<Longrightarrow> g_pt g' q = g_pt g q" "g_heap g' = g_heap g" "pt_flags (g_pt g' p) = 0" "pt_el (g_pt g' p) = None"
    using fields g'(1) by auto
  show "grows g g'" using fields g'(1) by (auto simp: grows_def)
  have sw: "\<And>s. s < g_ns g \<Longrightarrow> seg_start g s < p \<and> seg_end g s < p" using wf g'(1) by (simp add: graph_wf_def seg_wf_def)
  have adj: "adj_wf g'" unfolding adj_wf_def
  proof
    fix q
    show "distinct (pt_start (g_pt g' q)) \<and> distinct (pt_end (g_pt g' q))
     \<and> set (pt_start (g_pt g' q)) = {s. s < g_ns g' \<and> seg_start g' s = q}
     \<and> set (pt_end (g_pt g' q)) = {s. s < g_ns g' \<and> seg_end g' s = q}"
    proof (cases "q = p")
      case True
      then show ?thesis using fields sw by fastforce
    next
      case False
      then show ?thesis using wf fields by (simp add: graph_wf_def adj_wf_def)
    qed
  qed
  have "hash_wf g'" unfolding hash_wf_def
  proof (intro allI conjI)
    fix h
    have h: "distinct (g_hash g h)" "set (g_hash g h) = {p. p < g_np g \<and> HASHCOORD (pt_c (g_pt g p)) = h}"
      using wf by (auto simp: graph_wf_def hash_wf_def)
    show "distinct (g_hash g' h)" using h g'(1) by (auto simp: fields)
    have "{q. q < g_np g' \<and> HASHCOORD (pt_c (g_pt g' q)) = h}
      = {q. q < p \<and> HASHCOORD (pt_c (g_pt g q)) = h} \<union> (if HASHCOORD c = h then {p} else {})"
      using fields g'(1) by (auto simp: less_Suc_eq)
    then show "set (g_hash g' h) = {q. q < g_np g' \<and> HASHCOORD (pt_c (g_pt g' q)) = h}"
      using h g'(1) by (auto simp: fields)
  qed
  moreover have "seg_wf g'" using wf sw by (simp add: graph_wf_def seg_wf_def fields g'(1) less_SucI)
  ultimately show "graph_wf g'" using adj by (simp add: graph_wf_def)
qed

lemma add_point_wf:
  assumes wf: "graph_wf g" and eq: "route_graph_add_point c g = (p, g')"
  shows "graph_wf g'" "grows g g'" "p < g_np g'" "pt_c (g_pt g' p) = c" "g_ns g' = g_ns g"
    "\<And>q. q < g_np g \<Longrightarrow> g_pt g' q = g_pt g q" "g_heap g' = g_heap g"
    "g_np g' = g_np g \<and> g' = g \<or> p = g_np g \<and> g_np g' = Suc p \<and> (\<forall>q<g_np g. pt_c (g_pt g q) \<noteq> c)"
  using eq point_new_wf [OF wf, of c p g'] get_point_Some [OF wf, of c p] get_point_None [OF wf, of c] wf
  by (auto simp: route_graph_add_point_def split: option.splits)

lemma add_segment_wf:
  assumes wf: "graph_wf g" and eq: "route_graph_add_segment a b data g = Some g'"
    and ab: "a < g_np g" "b < g_np g"
  shows "graph_wf g'" "grows g g'" "g_ns g' = Suc (g_ns g)" "g_np g' = g_np g" "g_heap g' = g_heap g"
    "\<And>q. pt_c (g_pt g' q) = pt_c (g_pt g q) \<and> pt_flags (g_pt g' q) = pt_flags (g_pt g q)"
    "\<And>s. s \<noteq> g_ns g \<Longrightarrow> g_seg g' s = g_seg g s" "seg_start g' (g_ns g) = a" "seg_end g' (g_ns g) = b"
    "seg_item g' (g_ns g) = gd_item data" "seg_flags g' (g_ns g) = gd_flags data"
    "sd_len (sg_data (g_seg g' (g_ns g))) = gd_len data"
    "\<And>q. pt_start (g_pt g' q) = (if q = a then [g_ns g] else []) @ pt_start (g_pt g q)"
    "\<And>q. pt_end (g_pt g' q) = (if q = b then [g_ns g] else []) @ pt_end (g_pt g q)"
    "new_segment_data data = Some (sg_data (g_seg g' (g_ns g)))" "0 \<le> gd_len data"
proof -
  let ?n = "g_ns g"
  obtain d where d: "new_segment_data data = Some d" and len: "0 \<le> gd_len data"
    and g': "g' = (upd_pt b (\<lambda>p. p\<lparr>pt_end := ?n # pt_end p\<rparr>) (upd_pt a (\<lambda>p. p\<lparr>pt_start := ?n # pt_start p\<rparr>) g))
      \<lparr>g_seg := (g_seg g)(?n := \<lparr>sg_start = a, sg_end = b, sg_data = d\<rparr>), g_ns := Suc ?n,
       g_route_segments := ?n # g_route_segments g\<rparr>"
    using eq by (auto simp: route_graph_add_segment_def Let_def bind_eq_Some_conv split: if_splits)
  have dd: "sd_item d = gd_item data" "sd_flags d = gd_flags data" "sd_len d = gd_len data"
    using d by (auto simp: new_segment_data_eq)
  have fields: "g_ns g' = Suc ?n" "g_np g' = g_np g" "g_heap g' = g_heap g" "g_hash g' = g_hash g"
    "g_seg g' = (g_seg g)(?n := \<lparr>sg_start = a, sg_end = b, sg_data = d\<rparr>)"
    "\<And>q. pt_c (g_pt g' q) = pt_c (g_pt g q)" "\<And>q. pt_flags (g_pt g' q) = pt_flags (g_pt g q)"
    "\<And>q. pt_start (g_pt g' q) = (if q = a then [?n] else []) @ pt_start (g_pt g q)"
    "\<And>q. pt_end (g_pt g' q) = (if q = b then [?n] else []) @ pt_end (g_pt g q)"
    by (auto simp: g')
  show "grows g g'" by (simp add: grows_def fields)
  have "adj_wf g'" unfolding adj_wf_def
  proof (intro allI conjI)
    fix q
    have A: "distinct (pt_start (g_pt g q))" "distinct (pt_end (g_pt g q))"
      "set (pt_start (g_pt g q)) = {s. s < ?n \<and> seg_start g s = q}" "set (pt_end (g_pt g q)) = {s. s < ?n \<and> seg_end g s = q}"
      using wf by (auto simp: graph_wf_def adj_wf_def)
    show "distinct (pt_start (g_pt g' q))" "distinct (pt_end (g_pt g' q))" using A by (auto simp: fields)
    show "set (pt_start (g_pt g' q)) = {s. s < g_ns g' \<and> seg_start g' s = q}"
      "set (pt_end (g_pt g' q)) = {s. s < g_ns g' \<and> seg_end g' s = q}"
      using A by (auto simp: fields less_Suc_eq)
  qed
  moreover have "hash_wf g'" using wf by (simp add: graph_wf_def hash_wf_def fields)
  moreover have "seg_wf g'"
    using wf ab new_segment_data_wf [OF d] len by (auto simp: graph_wf_def seg_wf_def fields dd less_Suc_eq)
  ultimately show "graph_wf g'" by (simp add: graph_wf_def)
  show "g_ns g' = Suc (g_ns g)" "g_np g' = g_np g" "g_heap g' = g_heap g"
    "\<And>q. pt_c (g_pt g' q) = pt_c (g_pt g q) \<and> pt_flags (g_pt g' q) = pt_flags (g_pt g q)"
    "\<And>s. s \<noteq> g_ns g \<Longrightarrow> g_seg g' s = g_seg g s" "seg_start g' (g_ns g) = a" "seg_end g' (g_ns g) = b"
    "seg_item g' (g_ns g) = gd_item data" "seg_flags g' (g_ns g) = gd_flags data"
    "sd_len (sg_data (g_seg g' (g_ns g))) = gd_len data"
    "\<And>q. pt_start (g_pt g' q) = (if q = a then [g_ns g] else []) @ pt_start (g_pt g q)"
    "\<And>q. pt_end (g_pt g' q) = (if q = b then [g_ns g] else []) @ pt_end (g_pt g q)"
    "new_segment_data data = Some (sg_data (g_seg g' (g_ns g)))" "0 \<le> gd_len data"
    using d len by (simp_all add: fields dd)
qed

section \<open>Every operation keeps the shape\<close>

definition graph_ok :: "route_graph \<Rightarrow> bool" where
  "graph_ok g \<longleftrightarrow> graph_wf g \<and> heap_ok g"

definition keeps_ok :: "route_graph \<Rightarrow> route_graph option \<Rightarrow> bool" where
  "keeps_ok g r \<longleftrightarrow> (case r of None \<Rightarrow> True | Some g' \<Rightarrow> graph_ok g' \<and> grows g g')"

named_theorems graph_keep \<open>the operations on the graph keep its shape\<close>

lemma keeps_ok_Some [simp]: "keeps_ok g (Some g') \<longleftrightarrow> graph_ok g' \<and> grows g g'"
  and keeps_ok_None [simp]: "keeps_ok g None"
  by (simp_all add: keeps_ok_def)

lemma keeps_ok_bind:
  assumes "keeps_ok g r" "\<And>g'. r = Some g' \<Longrightarrow> graph_ok g' \<Longrightarrow> grows g g' \<Longrightarrow> keeps_ok g (f g')"
  shows "keeps_ok g (Option.bind r f)"
  using assms by (cases r) auto

lemma keeps_ok_trans: "grows g h \<Longrightarrow> keeps_ok h r \<Longrightarrow> keeps_ok g r"
  by (cases r) (auto intro: grows_trans)

lemma heap_ok_points:
  assumes "heap_ok g" "g_heap g' = g_heap g" "\<And>q. pt_el (g_pt g' q) = pt_el (g_pt g q) \<or> pt_el (g_pt g' q) = None"
  shows "heap_ok g'"
  using assms unfolding heap_ok_def by (metis option.distinct(1))

lemma graph_ok_flags [simp]: "graph_ok (upd_pt p (\<lambda>x. x\<lparr>pt_flags := f x\<rparr>) g) \<longleftrightarrow> graph_ok g"
proof -
  let ?g = "upd_pt p (\<lambda>x. x\<lparr>pt_flags := f x\<rparr>) g"
  have e: "pt_start (g_pt ?g q) = pt_start (g_pt g q)" "pt_end (g_pt ?g q) = pt_end (g_pt g q)"
    "pt_c (g_pt ?g q) = pt_c (g_pt g q)" "pt_el (g_pt ?g q) = pt_el (g_pt g q)" for q by simp_all
  show ?thesis
    by (simp add: graph_ok_def graph_wf_def adj_wf_def hash_wf_def seg_wf_def heap_ok_def e del: g_upd_pt(9))
qed

lemma grows_flags [simp]: "grows g (upd_pt p (\<lambda>x. x\<lparr>pt_flags := f x\<rparr>) h) \<longleftrightarrow> grows g h"
  by (auto simp: grows_def)

lemma graph_ok_type:
  assumes "graph_ok g" shows "graph_ok (upd_seg_data s (\<lambda>d. d\<lparr>sd_item := f d\<rparr>) g)"
    "grows g (upd_seg_data s (\<lambda>d. d\<lparr>sd_item := f d\<rparr>) g)"
  using assms by (auto simp: graph_ok_def graph_wf_def adj_wf_def hash_wf_def seg_wf_def heap_ok_def upd_seg_data_def
      rsd_wf_def grows_def)

lemma add_point_ok:
  assumes ok: "graph_ok g" and eq: "route_graph_add_point c g = (p, g')"
  shows "graph_ok g'" "grows g g'" "p < g_np g'" "pt_c (g_pt g' p) = c"
proof -
  have wf: "graph_wf g" using ok by (simp add: graph_ok_def)
  note a = add_point_wf [OF wf eq]
  have "pt_el (g_pt g' q) = pt_el (g_pt g q) \<or> pt_el (g_pt g' q) = None" for q
    using eq point_new_wf(3,10,13) [OF wf, of c p g']
    by (cases "q = p") (auto simp: route_graph_add_point_def split: option.splits)
  then have "heap_ok g'" using heap_ok_points ok a(7) by (auto simp: graph_ok_def)
  then show "graph_ok g'" "grows g g'" "p < g_np g'" "pt_c (g_pt g' p) = c" using a by (auto simp: graph_ok_def)
qed

lemma point_new_ok:
  assumes ok: "graph_ok g" and eq: "route_graph_point_new c g = (p, g')"
  shows "graph_ok g'" "grows g g'" "p < g_np g'"
proof -
  have wf: "graph_wf g" using ok by (simp add: graph_ok_def)
  note a = point_new_wf [OF wf eq]
  have "pt_el (g_pt g' q) = pt_el (g_pt g q) \<or> pt_el (g_pt g' q) = None" for q
    using a by (cases "q = p") auto
  then have "heap_ok g'" using heap_ok_points ok a(11) by (auto simp: graph_ok_def)
  then show "graph_ok g'" "grows g g'" "p < g_np g'" using a by (auto simp: graph_ok_def)
qed

lemma add_segment_ok:
  assumes "graph_ok g" "a < g_np g" "b < g_np g" shows "keeps_ok g (route_graph_add_segment a b data g)"
proof (cases "route_graph_add_segment a b data g")
  case (Some g')
  have wf: "graph_wf g" using assms by (simp add: graph_ok_def)
  note s = add_segment_wf [OF wf Some assms(2,3)]
  have "pt_el (g_pt g' q) = pt_el (g_pt g q)" for q
    using Some by (auto simp: route_graph_add_segment_def Let_def bind_eq_Some_conv split: if_splits)
  then have "heap_ok g'" using assms(1) s(5) heap_ok_points [of g g'] by (auto simp: graph_ok_def)
  then show ?thesis using Some s(1,2) by (simp add: graph_ok_def)
qed simp

lemma same_static_ok:
  assumes "graph_ok g" "same_static g g'" "heap_ok g'" shows "graph_ok g'" "grows g g'"
  using assms adj_wf_static [OF assms(2)]
  by (auto simp: graph_ok_def graph_wf_def hash_wf_def seg_wf_def grows_def same_staticD)

lemma point_update_ok:
  assumes ok: "graph_ok g"
  obtains g' where "route_graph_point_update profile p g = Some g'" "graph_ok g'" "grows g g'" "same_static g g'"
proof -
  have wf: "adj_wf g" "heap_ok g" using ok by (auto simp: graph_ok_def graph_wf_def)
  obtain g' where g': "route_graph_point_update profile p g = Some g'" "heap_ok g'" "same_static g g'"
    by (rule point_update_spec [OF wf, of profile p]) (rule that)
  then show ?thesis using that same_static_ok [OF ok g'(3,2)] by blast
qed

lemma point_update_keeps: "graph_ok g \<Longrightarrow> keeps_ok g (route_graph_point_update profile p g)"
  by (erule point_update_ok [of g profile p]) simp

lemma seg_ends: "graph_ok g \<Longrightarrow> s < g_ns g \<Longrightarrow> seg_start g s < g_np g \<and> seg_end g s < g_np g"
  by (simp add: graph_ok_def graph_wf_def seg_wf_def)

lemma in_lists_ns:
  "graph_ok g \<Longrightarrow> s \<in> set (pt_start (g_pt g p)) \<Longrightarrow> s < g_ns g \<and> seg_start g s = p"
  "graph_ok g \<Longrightarrow> s \<in> set (pt_end (g_pt g p)) \<Longrightarrow> s < g_ns g \<and> seg_end g s = p"
  by (auto simp: graph_ok_def graph_wf_def adj_wf_def)

lemma set_td_segments_ok:
  "graph_ok g \<Longrightarrow> set ss \<subseteq> {..<g_ns g} \<Longrightarrow> keeps_ok g (set_td_segments seg delay ss g)"
proof (induction ss arbitrary: g)
  case (Cons s ss)
  have step: "keeps_ok g (set_td_segments seg delay ss h)" if "graph_ok h" "grows g h" for h
  proof (rule keeps_ok_trans [OF that(2) Cons.IH [OF that(1)]])
    show "set ss \<subseteq> {..<g_ns h}" using Cons.prems(2) that(2) by (auto simp: grows_def)
  qed
  have ends: "seg_start g s < g_np g \<and> seg_end g s < g_np g" using seg_ends Cons.prems by simp
  show ?case
    using ends step [OF graph_ok_type [OF Cons.prems(1)]] step [OF Cons.prems(1)] Cons.prems(1)
    by (auto simp: Let_def intro!: keeps_ok_bind step keeps_ok_trans [OF _ add_segment_ok])
qed simp

lemma set_td_points_ok: "graph_ok g \<Longrightarrow> keeps_ok g (set_td_points seg delay ps g)"
proof (induction ps arbitrary: g)
  case (Cons p ps)
  have "keeps_ok g (set_td_segments seg delay (pt_start (g_pt g p)) g)"
    using in_lists_ns(1) [OF Cons.prems] by (intro set_td_segments_ok Cons.prems) auto
  then show ?case by (auto intro!: keeps_ok_bind intro: keeps_ok_trans Cons.IH)
qed simp

lemma set_td_ok: "graph_ok g \<Longrightarrow> keeps_ok g (route_graph_set_traffic_distortion seg delay g)"
  by (simp add: route_graph_set_traffic_distortion_def set_td_points_ok)

lemma add_td_ok:
  assumes ok: "graph_ok g" shows "keeps_ok g (route_graph_add_traffic_distortion stk profile it update g)"
proof (cases "map fst (mi_coords it)")
  case (Cons l rest)
  obtain p g1 where p: "route_graph_add_point l g = (p, g1)" by force
  obtain q g2 where q: "route_graph_add_point (last (l # rest)) g1 = (q, g2)" by force
  note a = add_point_ok [OF ok p] and b = add_point_ok [OF add_point_ok(1) [OF ok p] q]
  let ?f = "\<lambda>p :: route_graph_point. p\<lparr>pt_flags := pt_flags p OR RP_TRAFFIC_DISTORTION\<rparr>"
  let ?g3 = "upd_pt q ?f (upd_pt p ?f g2)" and ?d = "td_item_data stk it"
  have 3: "graph_ok ?g3" "grows g ?g3" "p < g_np ?g3" "q < g_np ?g3"
    using a b grows_trans [OF a(2) b(2)] by (auto simp: grows_def)
  have upd: "keeps_ok h (if c then route_graph_point_update profile r h else Some h)" if "graph_ok h" for h c r
    using point_update_keeps that by simp
  have "keeps_ok ?g3 (do {
      g \<leftarrow> route_graph_add_segment p q ?d ?g3;
      g \<leftarrow> (if update \<and> \<not> has_flag (gd_flags ?d) AF_ONEWAYREV then route_graph_point_update profile p g else Some g);
      (if update \<and> \<not> has_flag (gd_flags ?d) AF_ONEWAY then route_graph_point_update profile q g else Some g) })"
    by (intro keeps_ok_bind add_segment_ok [OF 3(1,3,4)] keeps_ok_trans [OF _ upd]) (auto intro: grows_trans)
  then show ?thesis
    unfolding route_graph_add_traffic_distortion_def Let_def Cons list.case p prod.case q
    by (rule keeps_ok_trans [OF 3(2)])
qed (simp add: route_graph_add_traffic_distortion_def ok)

lemma td_clear_ok:
  "graph_ok g \<Longrightarrow> graph_ok (fold (td_clear_start p q it) ss g) \<and> grows g (fold (td_clear_start p q it) ss g)"
  "graph_ok g \<Longrightarrow> graph_ok (fold (td_clear_end q) ss g) \<and> grows g (fold (td_clear_end q) ss g)"
proof (induction ss arbitrary: g)
  case (Cons s ss)
  { case 1
    have "graph_ok (td_clear_start p q it s g) \<and> grows g (td_clear_start p q it s g)"
      using 1 graph_ok_type [OF 1] by (auto simp: td_clear_start_def)
    then show ?case using Cons.IH(1) grows_trans by fastforce
  next
    case 2
    have "graph_ok (td_clear_end q s g) \<and> grows g (td_clear_end q s g)"
      using 2 by (auto simp: td_clear_end_def)
    then show ?case using Cons.IH(2) grows_trans by fastforce }
qed auto

lemma remove_td_ok:
  assumes ok: "graph_ok g"
  shows "\<exists>g'. route_graph_remove_traffic_distortion profile it g = Some g' \<and> graph_ok g' \<and> grows g g'"
proof -
  { fix s_pnt e_pnt
    let ?g1 = "upd_pt s_pnt (\<lambda>p. p\<lparr>pt_flags := pt_flags p AND NOT RP_TRAFFIC_DISTORTION\<rparr>) g"
    let ?g2 = "fold (td_clear_start s_pnt e_pnt (mi_item it)) (pt_start (g_pt ?g1 s_pnt)) ?g1"
    let ?g3 = "upd_pt e_pnt (\<lambda>p. p\<lparr>pt_flags := pt_flags p AND NOT RP_TRAFFIC_DISTORTION\<rparr>) ?g2"
    let ?g4 = "fold (td_clear_end e_pnt) (pt_end (g_pt ?g3 e_pnt)) ?g3"
    have 1: "graph_ok ?g1" "grows g ?g1" using ok by simp_all
    have 2: "graph_ok ?g2" "grows g ?g2" using td_clear_ok(1) [OF 1(1)] grows_trans [OF 1(2)] by blast+
    have 3: "graph_ok ?g3" "grows g ?g3" using 2 by simp_all
    have 4: "graph_ok ?g4" "grows g ?g4" using td_clear_ok(2) [OF 3(1)] grows_trans [OF 3(2)] by blast+
    obtain g5 where 5: "route_graph_point_update profile s_pnt ?g4 = Some g5" "graph_ok g5" "grows ?g4 g5" "same_static ?g4 g5"
      by (rule point_update_ok [OF 4(1)])
    obtain g6 where 6: "route_graph_point_update profile e_pnt g5 = Some g6" "graph_ok g6" "grows g5 g6" "same_static g5 g6"
      by (rule point_update_ok [OF 5(2)])
    have "\<exists>g'. (do {
               let g = ?g1;
               let g = fold (td_clear_start s_pnt e_pnt (mi_item it)) (pt_start (g_pt g s_pnt)) g;
               let g = upd_pt e_pnt (\<lambda>p. p\<lparr>pt_flags := pt_flags p AND NOT RP_TRAFFIC_DISTORTION\<rparr>) g;
               let g = fold (td_clear_end e_pnt) (pt_end (g_pt g e_pnt)) g;
               g \<leftarrow> route_graph_point_update profile s_pnt g;
               route_graph_point_update profile e_pnt g
             }) = Some g' \<and> graph_ok g' \<and> grows g g'"
      unfolding Let_def 5(1) using 6(1,2) grows_trans [OF 4(2) grows_trans [OF 5(3) 6(3)]] by simp }
  then show ?thesis using ok
    by (auto simp: route_graph_remove_traffic_distortion_def split: list.splits option.splits)
qed

lemma change_td_ok: "graph_ok g \<Longrightarrow> keeps_ok g (route_graph_change_traffic_distortion stk profile it g)"
  using remove_td_ok [of g profile it] add_td_ok keeps_ok_trans
  by (fastforce simp: route_graph_change_traffic_distortion_def)

lemma turn_restriction_ok:
  assumes ok: "graph_ok g"
  shows "\<exists>g'. route_graph_add_turn_restriction stk it g = Some g' \<and> graph_ok g' \<and> grows g g'"
proof -
  { fix a b c
    obtain p0 g1 where 0: "route_graph_add_point a g = (p0, g1)" by force
    obtain p1 g2 where 1: "route_graph_add_point b g1 = (p1, g2)" by force
    obtain p2 g3 where 2: "route_graph_add_point c g2 = (p2, g3)" by force
    note a = add_point_ok [OF ok 0]
    note b = add_point_ok [OF a(1) 1]
    note c = add_point_ok [OF b(1) 2]
    have np: "p0 < g_np g3" "p1 < g_np g3" "p2 < g_np g3" using a b c by (auto simp: grows_def)
    let ?d = "stk\<lparr>gd_item := mi_item it, gd_flags := 0, gd_len := 0, gd_score := 0\<rparr>"
    have total: "\<exists>g'. route_graph_add_segment x y ?d h = Some g'" for x y h
      by (simp add: route_graph_add_segment_def new_segment_data_eq Let_def)
    obtain g4 where 4: "route_graph_add_segment p0 p1 ?d g3 = Some g4" using total by blast
    have ok4: "graph_ok g4" "grows g3 g4" using add_segment_ok [OF c(1) np(1,2), of ?d] 4 by simp_all
    obtain g5 where 5: "route_graph_add_segment p1 p2 ?d g4 = Some g5" using total by blast
    have "graph_ok g5" "grows g4 g5"
      using add_segment_ok [OF ok4(1), of p1 p2 ?d] 5 np ok4(2) by (auto simp: grows_def)
    then have "\<exists>g'. (do {
          let (p0, g) = route_graph_add_point a g;
          let (p1, g) = route_graph_add_point b g;
          let (p2, g) = route_graph_add_point c g;
          let data = ?d;
          g \<leftarrow> route_graph_add_segment p0 p1 data g;
          g \<leftarrow> route_graph_add_segment p1 p2 data g;
          Some (upd_pt p1 (\<lambda>p. p\<lparr>pt_flags := pt_flags p OR RP_TURN_RESTRICTION\<rparr>) g)
        }) = Some g' \<and> graph_ok g' \<and> grows g g'"
      using a(2) b(2) c(2) ok4(2) by (simp add: 0 1 2 4 5 Let_def) (blast intro: grows_trans) }
  then show ?thesis using ok
    unfolding route_graph_add_turn_restriction_def by (fastforce split: list.splits)
qed

lemma add_street_segment_ok:
  "graph_ok g \<Longrightarrow> a < g_np g \<Longrightarrow> b < g_np g \<Longrightarrow> keeps_ok g (add_street_segment a b data g)"
  using add_segment_ok [of g a b data]
  by (cases "route_graph_segment_is_duplicate g a data") (auto simp: add_street_segment_def)

lemma add_street_segmented_ok:
  "graph_ok g \<Longrightarrow> s < g_np g \<Longrightarrow> keeps_ok g (add_street_segmented tdist data l len s cs g)"
proof (induction tdist data l len s cs g rule: add_street_segmented.induct)
  case (1 tdist data l len s g)
  obtain q g1 where q: "route_graph_add_point l g = (q, g1)" by force
  note a = add_point_ok [OF 1(1) q]
  have "s < g_np g1" using a(2) 1(2) by (simp add: grows_def)
  then show ?case using a by (auto simp: q intro!: keeps_ok_trans [OF a(2) add_street_segment_ok])
next
  case (2 tdist data l len s c isseg cs g)
  let ?len = "dround (len + tdist l c)"
  show ?case
  proof (cases isseg)
    case True
    obtain q g1 where q: "route_graph_add_point c g = (q, g1)" by force
    note a = add_point_ok [OF 2(3) q]
    have s1: "s < g_np g1" using a(2) 2(4) by (simp add: grows_def)
    let ?data = "data\<lparr>gd_len := d2i ?len\<rparr>"
    have "keeps_ok g1 (Option.bind (add_street_segment s q ?data g1) (\<lambda>g.
           let data = ?data\<lparr>gd_offset := gd_offset ?data + 1\<rparr>; (s_pnt, g) = route_graph_add_point c g
           in add_street_segmented tdist data c 0 s_pnt cs g))"
    proof (rule keeps_ok_bind [OF add_street_segment_ok [OF a(1) s1 a(3)]])
      fix g2 assume g2: "add_street_segment s q ?data g1 = Some g2" "graph_ok g2" "grows g1 g2"
      obtain r g3 where r: "route_graph_add_point c g2 = (r, g3)" by force
      note b = add_point_ok [OF g2(2) r]
      have "keeps_ok g3 (add_street_segmented tdist (?data\<lparr>gd_offset := gd_offset ?data + 1\<rparr>) c 0 r cs g3)"
        using 2(1) [OF refl True refl q [symmetric] refl g2(1) refl refl r [symmetric]] b by simp
      then show "keeps_ok g1 (let data = ?data\<lparr>gd_offset := gd_offset ?data + 1\<rparr>; (s_pnt, g) = route_graph_add_point c g2
           in add_street_segmented tdist data c 0 s_pnt cs g)"
        using keeps_ok_trans [OF grows_trans [OF g2(3) b(2)]] by (simp add: r)
    qed
    then show ?thesis using True keeps_ok_trans [OF a(2)] by (simp add: q Let_def)
  next
    case False
    then show ?thesis using 2(2) [OF refl False 2(3,4)] by simp
  qed
qed

lemma add_street_ok:
  assumes ok: "graph_ok g" shows "keeps_ok g (route_graph_add_street tdist stk profile it g)"
proof (cases "mi_coords it")
  case (Cons lb cs)
  obtain l bb where lb: "lb = (l, bb)" by force
  obtain p g1 where p: "route_graph_add_point l g = (p, g1)" by force
  note a = add_point_ok [OF ok p]
  obtain len m where m: "street_len tdist l 0 (map fst cs) = (len, m)" by force
  obtain q g2 where q: "route_graph_add_point m g1 = (q, g2)" by force
  note b = add_point_ok [OF a(1) q]
  have p2: "p < g_np g2" using a(3) b(2) by (simp add: grows_def)
  have 1: "keeps_ok g (add_street_segment p q data g2)" for data
    by (rule keeps_ok_trans [OF grows_trans [OF a(2) b(2)] add_street_segment_ok [OF b(1) p2 b(3)]])
  have 2: "keeps_ok g (add_street_segmented tdist data l 0 p cs g1)" for data
    by (rule keeps_ok_trans [OF a(2) add_street_segmented_ok [OF a(1,3)]])
  show ?thesis using 1 2 ok by (simp add: route_graph_add_street_def Cons lb p m q Let_def)
qed (simp add: route_graph_add_street_def ok)

section \<open>Resolving the restrictions keeps the shape, and always succeeds\<close>

text \<open>The result is there and in shape: the form in which total operations compose.\<close>

definition total_ok :: "route_graph \<Rightarrow> route_graph option \<Rightarrow> bool" where
  "total_ok g r \<longleftrightarrow> (\<exists>g'. r = Some g' \<and> graph_ok g' \<and> grows g g')"

lemma total_ok_Some [simp]: "total_ok g (Some g') \<longleftrightarrow> graph_ok g' \<and> grows g g'"
  by (simp add: total_ok_def)

lemma total_ok_bind:
  assumes "total_ok g r" "\<And>g'. r = Some g' \<Longrightarrow> graph_ok g' \<Longrightarrow> grows g g' \<Longrightarrow> total_ok g' (f g')"
  shows "total_ok g (Option.bind r f)"
proof -
  obtain g' where g': "r = Some g'" "graph_ok g'" "grows g g'" using assms(1) by (auto simp: total_ok_def)
  from assms(2) [OF this] show ?thesis using g' grows_trans by (auto simp: total_ok_def)
qed

lemma total_ok_trans: "grows g h \<Longrightarrow> total_ok h r \<Longrightarrow> total_ok g r"
  by (auto simp: total_ok_def intro: grows_trans)

lemma clone_ok:
  assumes ok: "graph_ok g" and s: "s < g_ns g" and ab: "a < g_np g" "b < g_np g"
  shows "total_ok g (route_graph_clone_segment stk s a b f g)"
proof -
  have "0 \<le> sd_len (sg_data (g_seg g s))" using ok s by (simp add: graph_ok_def graph_wf_def seg_wf_def)
  then have "\<exists>g'. route_graph_clone_segment stk s a b f g = Some g'"
    by (simp add: route_graph_clone_segment_def Let_def route_graph_add_segment_def new_segment_data_eq)
  moreover have "keeps_ok g (route_graph_clone_segment stk s a b f g)"
    unfolding route_graph_clone_segment_def Let_def by (rule add_segment_ok [OF ok ab])
  ultimately show ?thesis by (auto simp: total_ok_def)
qed

lemma clone_turns_ok:
  "graph_ok g \<Longrightarrow> set ts \<subseteq> {..<g_ns g} \<Longrightarrow> pn < g_np g \<Longrightarrow> total_ok g (clone_turns stk p s pn dir ts g)"
proof (induction ts arbitrary: g)
  case (Cons t ts)
  have t: "t < g_ns g" "seg_start g t < g_np g" "seg_end g t < g_np g" using Cons.prems seg_ends [of g t] by auto
  have step: "total_ok h (clone_turns stk p s pn dir ts h)" if "graph_ok h" "grows g h" for h
    using Cons.prems that by (intro Cons.IH) (auto simp: grows_def)
  show ?case using t step Cons.prems
    by (auto intro!: total_ok_bind clone_ok)
qed simp

lemma process_segment_ok:
  assumes ok: "graph_ok g" and s: "s < g_ns g"
  shows "total_ok g (route_graph_process_restriction_segment stk p s dir g)"
proof -
  obtain pn g1 where pn: "route_graph_point_new (pt_c (g_pt g p)) g = (pn, g1)" by force
  note a = point_new_ok [OF ok pn]
  have s1: "s < g_ns g1" using a(2) s by (simp add: grows_def)
  have c: "total_ok g1 (if dir > 0 then route_graph_clone_segment stk s pn (seg_end g1 s) AF_ONEWAYREV g1
             else route_graph_clone_segment stk s (seg_start g1 s) pn AF_ONEWAY g1)"
    using clone_ok [OF a(1) s1] seg_ends [OF a(1) s1] a(3) by simp
  have "total_ok g1 (do {
        g \<leftarrow> (if dir > 0 then route_graph_clone_segment stk s pn (seg_end g1 s) AF_ONEWAYREV g1
             else route_graph_clone_segment stk s (seg_start g1 s) pn AF_ONEWAY g1);
        g \<leftarrow> clone_turns stk p s pn 1 (pt_start (g_pt g p)) g;
        clone_turns stk p s pn (-1) (pt_end (g_pt g p)) g })"
  proof (intro total_ok_bind c)
    fix g2 assume g2: "graph_ok g2" "grows g1 g2"
    then show "total_ok g2 (clone_turns stk p s pn 1 (pt_start (g_pt g2 p)) g2)"
      using a(3) in_lists_ns(1) [OF g2(1)] by (intro clone_turns_ok) (auto simp: grows_def)
    fix g3 assume g3: "graph_ok g3" "grows g2 g3"
    then show "total_ok g3 (clone_turns stk p s pn (- 1) (pt_end (g_pt g3 p)) g3)"
      using a(3) g2(2) in_lists_ns(2) [OF g3(1)] by (intro clone_turns_ok) (auto simp: grows_def)
  qed
  then show ?thesis using total_ok_trans [OF a(2)] a(1,2)
    by (simp add: route_graph_process_restriction_segment_def pn Let_def)
qed

lemma process_segments_ok:
  "graph_ok g \<Longrightarrow> set ss \<subseteq> {..<g_ns g} \<Longrightarrow> total_ok g (process_segments stk p dir ss g)"
proof (induction ss arbitrary: g)
  case (Cons s ss)
  have step: "total_ok h (process_segments stk p dir ss h)" if "graph_ok h" "grows g h" for h
    using Cons.prems that by (intro Cons.IH) (auto simp: grows_def)
  show ?case using step Cons.prems by (auto intro!: total_ok_bind process_segment_ok)
qed simp

lemma process_point_ok:
  assumes ok: "graph_ok g" shows "total_ok g (route_graph_process_restriction_point stk p g)"
  unfolding route_graph_process_restriction_point_def
proof (intro total_ok_bind)
  show "total_ok g (process_segments stk p 1 (pt_start (g_pt g p)) g)"
    using in_lists_ns(1) [OF ok] by (intro process_segments_ok [OF ok]) auto
  fix g2 assume g2: "graph_ok g2" "grows g g2"
  show "total_ok g2 (process_segments stk p (-1) (pt_end (g_pt g2 p)) g2)"
    using in_lists_ns(2) [OF g2(1)] by (intro process_segments_ok [OF g2(1)]) auto
qed simp

lemma process_points_ok: "graph_ok g \<Longrightarrow> total_ok g (process_points stk ps g)"
  by (induction ps arbitrary: g) (auto intro!: total_ok_bind process_point_ok)

lemma process_restrictions_ok: "graph_ok g \<Longrightarrow> total_ok g (route_graph_process_restrictions stk g)"
  by (simp add: route_graph_process_restrictions_def process_points_ok)

lemma graph_ok_busy [simp]: "graph_ok (g\<lparr>g_busy := b\<rparr>) = graph_ok g" "grows g (h\<lparr>g_busy := b\<rparr>) = grows g h"
  by (simp_all add: graph_ok_def graph_wf_def adj_wf_def hash_wf_def seg_wf_def heap_ok_def grows_def)

lemma build_done_ok: "graph_ok g \<Longrightarrow> total_ok g (route_graph_build_done stk cancel g)"
  by (auto simp: route_graph_build_done_def intro!: total_ok_bind process_restrictions_ok)

lemma add_item_ok: "graph_ok g \<Longrightarrow> keeps_ok g (route_graph_add_item tdist stk profile it g)"
  using turn_restriction_ok [of g stk it]
  by (auto simp: route_graph_add_item_def Let_def intro: add_td_ok add_street_ok)

lemma build_loop_ok:
  "graph_ok g \<Longrightarrow> build_loop tdist stk profile n items g = Some (rest, g') \<Longrightarrow> graph_ok g' \<and> grows g g'"
proof (induction tdist stk profile n items g rule: build_loop.induct)
  case (2 tdist stk profile n g)
  then show ?case using build_done_ok [OF 2(1), of stk False] by (auto simp: total_ok_def)
next
  case (3 tdist stk profile n it items g)
  obtain g1 where g1: "route_graph_add_item tdist stk profile it g = Some g1"
    "build_loop tdist stk profile n items g1 = Some (rest, g')"
    using 3(3) by (auto simp: bind_eq_Some_conv)
  have "graph_ok g1 \<and> grows g g1" using add_item_ok [OF 3(2), of tdist stk profile it] g1(1) by simp
  then show ?case using 3(1) [OF g1(1)] g1(2) grows_trans by blast
qed simp

end
