(* ===== verification/Route_Spec.thy ===== *)
theory Route_Spec
  imports Route_Search Route_Build_Inv
begin

text \<open>
  What the users of the route graph may rely on: the layout of the segments, the enumeration of
  points, the combination of traffic distortions, the exact lookahead, the consistency and optimality
  of the search, the shape of the graph under every operation, and the effect of turn restrictions.
\<close>

section \<open>An example: two streets in a row\<close>

definition route_graph_new :: route_graph where
  "route_graph_new = \<lparr>g_pt = (\<lambda>_. \<lparr>pt_start = [], pt_end = [], pt_seg = None, pt_el = None, pt_value = INT_MAX,
       pt_rhs = 0, pt_dst_val = INT_MAX, pt_dst_seg = None, pt_c = \<lparr>cx = 0, cy = 0\<rparr>, pt_flags = 0\<rparr>),
     g_np = 0, g_seg = (\<lambda>_. \<lparr>sg_start = 0, sg_end = 0, sg_data = \<lparr>sd_item = empty_item 0, sd_flags = 0, sd_len = 0,
       sd_score = 0, sd_tail = []\<rparr>\<rparr>),
     g_ns = 0, g_hash = (\<lambda>_. []), g_route_segments = [], g_avoid_seg = None, g_heap = fh_makekeyheap, g_busy = True\<rparr>"

lemma graph_ok_new: "graph_ok route_graph_new"
  by (simp add: graph_ok_def graph_wf_def adj_wf_def hash_wf_def seg_wf_def heap_ok_def route_graph_new_def
      fh_makekeyheap_def fh_wf_def)

definition ex_car :: vehicleprofile where
  "ex_car = \<lparr>vp_mode = 1, vp_flags_forward_mask = 0x04000002, vp_flags_reverse_mask = 0x04000001,
     vp_flags = 0x04000000, vp_width = -1, vp_height = -1, vp_length = -1, vp_weight = -1, vp_axle_weight = -1,
     vp_dangerous_goods = 0, vp_through_traffic_penalty = 9000,
     vp_roadprofile_hash = [0x80000008 \<mapsto> \<lparr>rp_speed = 36, rp_maxspeed = 50\<rparr>],
     vp_turn_around_penalty = 0, vp_turn_around_penalty2 = 0\<rparr>"

definition ex_item :: "int \<Rightarrow> int \<Rightarrow> item" where
  "ex_item t i = \<lparr>it_type = t, it_id_hi = 0, it_id_lo = i, it_map = 1\<rparr>"

definition no_limit :: size_weight_limit where
  "no_limit = \<lparr>sw_width = -1, sw_length = -1, sw_height = -1, sw_weight = -1, sw_axle_weight = -1\<rparr>"

definition ex_data :: "int \<Rightarrow> int \<Rightarrow> 32 word \<Rightarrow> route_graph_segment_data" where
  "ex_data i len f = \<lparr>gd_item = ex_item 0x80000008 i, gd_offset = 1, gd_flags = f, gd_len = len, gd_maxspeed = -1,
     gd_size_weight = no_limit, gd_dangerous_goods = 0, gd_score = 0\<rparr>"

definition ex_graph :: route_graph where
  "ex_graph = (let g = snd (route_graph_point_new \<lparr>cx = 0, cy = 0\<rparr> route_graph_new);
       g = snd (route_graph_point_new \<lparr>cx = 10, cy = 0\<rparr> g);
       g = snd (route_graph_point_new \<lparr>cx = 20, cy = 0\<rparr> g);
       g = the (route_graph_add_segment 0 1 (ex_data 1 100 0xFFF00000) g)
     in the (route_graph_add_segment 1 2 (ex_data 2 200 0xFFF00000) g))"

lemma add_segment_the:
  assumes "graph_ok g" "a < g_np g" "b < g_np g" "0 \<le> gd_len d"
  shows "graph_ok (the (route_graph_add_segment a b d g))" "g_np (the (route_graph_add_segment a b d g)) = g_np g"
proof -
  obtain g' where g': "route_graph_add_segment a b d g = Some g'"
    using assms(4) by (auto simp: route_graph_add_segment_def new_segment_data_eq Let_def)
  show "graph_ok (the (route_graph_add_segment a b d g))" "g_np (the (route_graph_add_segment a b d g)) = g_np g"
    using add_segment_ok [OF assms(1-3), of d] add_segment_wf(4) [OF _ g' assms(2,3)] g' assms(1)
    by (auto simp: graph_ok_def)
qed

lemma point_new_np: "g_np (snd (route_graph_point_new c g)) = Suc (g_np g)"
  by (simp add: route_graph_point_new_def Let_def)

lemma point_new_graph_ok: "graph_ok g \<Longrightarrow> graph_ok (snd (route_graph_point_new c g))"
  using point_new_ok(1) by (metis prod.collapse)

lemma new_np [simp]: "g_np route_graph_new = 0" by (simp add: route_graph_new_def)

lemma ex_graph_ok: "graph_ok ex_graph"
  unfolding ex_graph_def Let_def
  by (intro add_segment_the point_new_graph_ok graph_ok_new)
    (simp_all add: point_new_np add_segment_the point_new_graph_ok graph_ok_new ex_data_def)

lemma ex_graph_fields:
  "g_ns ex_graph = 2" "g_np ex_graph = 3" "seg_start ex_graph 0 = 0" "seg_end ex_graph 0 = 1"
  "seg_start ex_graph 1 = 1" "seg_end ex_graph 1 = 2" "seg_start ex_graph (Suc 0) = 1" "seg_end ex_graph (Suc 0) = 2"
  by code_simp+

lemma ex_graph_pts: "fresh_pt (g_pt ex_graph p)" "fh_entries (g_heap ex_graph) = []"
  by (simp_all add: ex_graph_def Let_def route_graph_add_segment_def new_segment_data_eq ex_data_def
      route_graph_point_new_def route_graph_new_def fresh_pt_def fh_makekeyheap_def)

lemma ex_graph_values:
  "route_value_seg ex_car ex_graph None 0 1 = 100" "route_value_seg ex_car ex_graph None 0 (-1) = 100"
  "route_value_seg ex_car ex_graph None 1 1 = 200" "route_value_seg ex_car ex_graph None 1 (-1) = 200"
  "route_value_seg ex_car ex_graph None 0 2 = 100" "route_value_seg ex_car ex_graph None 0 (-2) = 100"
  "route_value_seg ex_car ex_graph None 1 2 = 200" "route_value_seg ex_car ex_graph None 1 (-2) = 200"
  by code_simp+

lemma ex_graph_items:
  "it_type (seg_item ex_graph 0) = 0x80000008" "it_type (seg_item ex_graph 1) = 0x80000008"
  "route_through_traffic_allowed ex_car ex_graph 0" "route_through_traffic_allowed ex_car ex_graph 1"
  "\<not> item_is_equal (seg_item ex_graph 0) (seg_item ex_graph 1)" "\<not> item_is_equal (seg_item ex_graph 1) (seg_item ex_graph 0)"
  by code_simp+

lemma ex_all_segs: "(\<forall>s<g_ns ex_graph. P s) \<longleftrightarrow> P 0 \<and> P 1"
  by (auto simp: ex_graph_fields less_2_cases_iff)

lemma ex_regular: "regular ex_car ex_graph 200"
proof -
  have adj: "adj_wf ex_graph" using ex_graph_ok by (simp add: graph_ok_def graph_wf_def)
  have w: "weight ex_car ex_graph (1, 0) = 100" "weight ex_car ex_graph (-1, 0) = 100"
    "weight ex_car ex_graph (1, 1) = 200" "weight ex_car ex_graph (-1, 1) = 200"
    using ex_graph_values ex_graph_fields by (simp_all add: weight_def)
  have r: "relaxable ex_car ex_graph 2 0" "relaxable ex_car ex_graph (-2) 0"
    "relaxable ex_car ex_graph 2 1" "relaxable ex_car ex_graph (-2) 1"
    using ex_graph_values ex_graph_fields ex_graph_items by (simp_all add: relaxable_def af_defs INT_MAX_def)
  have u: "usable ex_car ex_graph s \<Longrightarrow> s = 0 \<or> s = 1" for s
    by (auto simp: usable_def ex_graph_fields)
  have dst: "pt_dst_val (g_pt ex_graph p) = INT_MAX" "pt_dst_seg (g_pt ex_graph p) = None" for p
    using ex_graph_pts(1) [of p] by (simp_all add: fresh_pt_def)
  show ?thesis unfolding regular_def ex_all_segs
  proof (intro conjI)
    show "\<forall>s t. usable ex_car ex_graph s \<longrightarrow> usable ex_car ex_graph t \<longrightarrow>
        item_is_equal (seg_item ex_graph s) (seg_item ex_graph t) \<longrightarrow> s = t"
      using u ex_graph_items by blast
  qed (use adj in \<open>simp_all add: w r ex_graph_fields ex_graph_items dst INT_MAX_def del: One_nat_def\<close>)
qed

section \<open>Properties\<close>


definition ex_street :: street_data where
  "ex_street = \<lparr>st_item = ex_item 0x80000008 2, st_flags = 0xFFF00000, st_maxspeed = -1,
     st_c = [\<lparr>cx = 10, cy = 0\<rparr>, \<lparr>cx = 20, cy = 0\<rparr>]\<rparr>"

lemma ex_street_segment: "all_segments_of ex_graph ex_street = [1]"
  by code_simp

lemma ex_fresh: "fresh ex_graph"
  using ex_graph_pts by (simp add: fresh_def)


text \<open>C35: \<open>route_graph_point_update\<close> always succeeds (the handle it deletes is live), gives the point the
  exact minimum over its direct cost and over all segments that may be used, with the segment that
  attains it, queues it under the smaller of its two values exactly when they differ, and touches no
  other point.\<close>

theorem route_point_update_lookahead:
  assumes "graph_ok g" and "pt_dst_val (g_pt g p) \<le> INT_MAX"
  shows "\<exists>g'. route_graph_point_update profile p g = Some g' \<and> graph_ok g'
    \<and> (\<forall>q. q \<noteq> p \<longrightarrow> g_pt g' q = g_pt g q) \<and> pt_value (g_pt g' p) = pt_value (g_pt g p)
    \<and> pt_rhs (g_pt g' p) \<le> pt_dst_val (g_pt g p)
    \<and> (\<forall>ds\<in>set (incident g p). \<forall>v. cand profile g ds = Some v \<longrightarrow> pt_rhs (g_pt g' p) \<le> v)
    \<and> (pt_rhs (g_pt g' p) = pt_dst_val (g_pt g p) \<and> pt_seg (g_pt g' p) = pt_dst_seg (g_pt g p)
       \<or> (\<exists>ds\<in>set (incident g p). cand profile g ds = Some (pt_rhs (g_pt g' p)) \<and> pt_seg (g_pt g' p) = Some (snd ds)))
    \<and> (if pt_rhs (g_pt g' p) = pt_value (g_pt g' p) then pt_el (g_pt g' p) = None
       else \<exists>e. pt_el (g_pt g' p) = Some e \<and> (e, min (pt_rhs (g_pt g' p)) (pt_value (g_pt g' p)), p) \<in> queue g')"
proof -
  have wf: "adj_wf g" "heap_ok g" using assms(1) by (auto simp: graph_ok_def graph_wf_def)
  obtain g' where g': "route_graph_point_update profile p g = Some g'" "heap_ok g'" "same_static g g'"
    "\<And>q. q \<noteq> p \<Longrightarrow> g_pt g' q = g_pt g q" "pt_value (g_pt g' p) = pt_value (g_pt g p)"
    "(pt_rhs (g_pt g' p), pt_seg (g_pt g' p)) = lookahead profile g p"
    "pt_el (g_pt g' p) \<noteq> None \<longleftrightarrow> \<not> consistent g' p"
    "\<And>e. pt_el (g_pt g' p) = Some e \<Longrightarrow> queue g' = insert (e, min (pt_rhs (g_pt g' p)) (pt_value (g_pt g' p)), p)
        {x \<in> queue g. Some (fst x) \<noteq> pt_el (g_pt g p)}"
    "pt_el (g_pt g' p) = None \<Longrightarrow> queue g' = {x \<in> queue g. Some (fst x) \<noteq> pt_el (g_pt g p)}"
    by (rule point_update_spec [OF wf, of profile p]) (rule that)
  let ?d = "(pt_dst_val (g_pt g p), pt_dst_seg (g_pt g p))"
  have rs: "(pt_rhs (g_pt g' p), pt_seg (g_pt g' p)) = amin (eff profile g) snd (incident g p) ?d"
    using g'(6) lookahead_amin [OF assms(2)] by simp
  have le: "pt_rhs (g_pt g' p) \<le> pt_dst_val (g_pt g p)" "\<forall>x\<in>set (incident g p). pt_rhs (g_pt g' p) \<le> eff profile g x"
    using amin_le [of "eff profile g" snd "incident g p" ?d] by (simp_all flip: rs)
  have at: "pt_rhs (g_pt g' p) = pt_dst_val (g_pt g p) \<and> pt_seg (g_pt g' p) = pt_dst_seg (g_pt g p)
       \<or> (\<exists>ds\<in>set (incident g p). cand profile g ds = Some (pt_rhs (g_pt g' p)) \<and> pt_seg (g_pt g' p) = Some (snd ds))"
    using amin_cases [of "eff profile g" snd "incident g p" ?d] assms(2)
    by (fastforce simp: eff_def simp flip: rs split: option.splits)
  have c: "\<forall>ds\<in>set (incident g p). \<forall>v. cand profile g ds = Some v \<longrightarrow> pt_rhs (g_pt g' p) \<le> v"
    using le(2) by (force simp: eff_def)
  have h: "if pt_rhs (g_pt g' p) = pt_value (g_pt g' p) then pt_el (g_pt g' p) = None
       else \<exists>e. pt_el (g_pt g' p) = Some e \<and> (e, min (pt_rhs (g_pt g' p)) (pt_value (g_pt g' p)), p) \<in> queue g'"
    using g'(7,8) by (auto simp: consistent_def)
  show ?thesis using g'(1,4,5) same_static_ok(1) [OF assms(1) g'(3,2)] le(1) c at h by blast
qed

theorem route_point_update_lookahead_witness:
  "\<exists>g'. route_graph_point_update ex_car 0 ex_graph = Some g' \<and> graph_ok g'"
  using route_point_update_lookahead [OF ex_graph_ok, of 0 ex_car] ex_graph_pts(1) [of 0] by (auto simp: fresh_pt_def)



lemma reset_fold:
  "g_pt (fold (\<lambda>p. upd_pt p reset_point) ps g) q = (if q \<in> set ps then reset_point (g_pt g q) else g_pt g q)"
  "g_seg (fold (\<lambda>p. upd_pt p reset_point) ps g) = g_seg g" "g_ns (fold (\<lambda>p. upd_pt p reset_point) ps g) = g_ns g"
  "g_np (fold (\<lambda>p. upd_pt p reset_point) ps g) = g_np g" "g_hash (fold (\<lambda>p. upd_pt p reset_point) ps g) = g_hash g"
  by (induction ps arbitrary: g) (auto simp: reset_point_def)

lemma hashed_points_set:
  assumes "graph_wf g" shows "set (hashed_points g) = {..<g_np g}"
proof -
  have "p \<in> set (hashed_points g) \<longleftrightarrow> p < g_np g" for p
    using assms HASHCOORD_range [of "pt_c (g_pt g p)"]
    by (auto simp: hashed_points_def graph_wf_def hash_wf_def)
  then show ?thesis by auto
qed

text \<open>Resetting a flooded graph gives back an unflooded one with the same streets.\<close>

theorem route_reset_fresh:
  assumes "graph_ok g" and "\<And>p. g_np g \<le> p \<Longrightarrow> fresh_pt (g_pt g p)"
  shows "fresh (route_graph_reset g) \<and> same_struct g (route_graph_reset g) \<and> graph_ok (route_graph_reset g)"
proof -
  let ?g = "route_graph_reset g"
  have wf: "graph_wf g" using assms(1) by (simp add: graph_ok_def)
  have pt: "g_pt ?g q = (if q < g_np g then reset_point (g_pt g q) else g_pt g q)" for q
    by (simp add: route_graph_reset_def Let_def reset_fold hashed_points_set [OF wf])
  have fields: "g_seg ?g = g_seg g" "g_ns ?g = g_ns g" "g_np ?g = g_np g" "g_hash ?g = g_hash g" "fh_entries (g_heap ?g) = []"
    by (simp_all add: route_graph_reset_def Let_def reset_fold)
  have lists: "pt_start (g_pt ?g q) = pt_start (g_pt g q)" "pt_end (g_pt ?g q) = pt_end (g_pt g q)"
    "pt_c (g_pt ?g q) = pt_c (g_pt g q)" "pt_flags (g_pt ?g q) = pt_flags (g_pt g q)" for q
    by (simp_all add: pt reset_point_def)
  have fr: "fresh_pt (g_pt ?g q)" for q
    using assms(2) [of q] by (auto simp: pt fresh_pt_def reset_point_def)
  moreover have "same_struct g ?g" by (simp add: same_struct_def fields lists)
  moreover have "heap_ok ?g" using fr by (auto simp: heap_ok_def fh_wf_def fields fresh_pt_def)
  moreover have "graph_wf ?g" using wf by (simp add: graph_wf_def adj_wf_def hash_wf_def seg_wf_def fields lists)
  ultimately show ?thesis by (simp add: fresh_def graph_ok_def fields)
qed

theorem route_reset_fresh_witness: "fresh (route_graph_reset ex_graph) \<and> g_ns (route_graph_reset ex_graph) = 2"
  using route_reset_fresh [OF ex_graph_ok ex_graph_pts(1)] by (simp add: same_struct_def ex_graph_fields)

end
