(* ===== verification/Route_Graph_Spec.thy ===== *)
theory Route_Graph_Spec
  imports Route_Spec
begin

text \<open>
  Properties of the data of the route graph: the optional fields of a segment, the enumeration of the
  points at a coordinate, the cost of a segment, the combination of traffic distortions, and the batches
  in which the graph is built.
\<close>

section \<open>Segments and points\<close>

text \<open>A new segment is exactly as large as its flags announce, and every optional field is at the
  place where it is looked for: reading it back gives the value that was stored, and no field is found
  that was not announced.\<close>

theorem route_segment_layout:
  "\<exists>d. new_segment_data data = Some d
     \<and> length (sd_tail d) * 4 + sizeof_route_segment_data = route_segment_data_size (gd_flags data)
     \<and> RSD_MAXSPEED d = (if has_flag (gd_flags data) AF_SPEED_LIMIT then Some (gd_maxspeed data) else None)
     \<and> RSD_OFFSET d = (if has_flag (gd_flags data) AF_SEGMENTED then Some (gd_offset data) else None)
     \<and> RSD_SIZE_WEIGHT d = (if has_flag (gd_flags data) AF_SIZE_OR_WEIGHT_LIMIT then Some (gd_size_weight data) else None)
     \<and> RSD_DANGEROUS_GOODS d = (if has_flag (gd_flags data) AF_DANGEROUS_GOODS then Some (gd_dangerous_goods data) else None)"
proof -
  obtain d where d: "new_segment_data data = Some d" "sd_flags d = gd_flags data" by (simp add: new_segment_data_eq)
  show ?thesis
    using new_segment_data_fields [OF d(1)] new_segment_data_wf [OF d(1)] d by (simp add: rsd_wf_def)
qed

text \<open>The loops over \<open>route_graph_get_point_next\<close> visit exactly the points with the coordinate,
  each once, starting with the one \<open>route_graph_get_point\<close> returns.\<close>

theorem route_points_enumerated:
  assumes "graph_wf g"
  shows "set (points_at g c) = {p. p < g_np g \<and> pt_c (g_pt g p) = c} \<and> distinct (points_at g c)
    \<and> route_graph_get_point g c = (if points_at g c = [] then None else Some (points_at g c ! 0))
    \<and> (\<forall>i<length (points_at g c). route_graph_get_point_next g c (Some (points_at g c ! i))
         = (if Suc i < length (points_at g c) then Some (points_at g c ! Suc i) else None))"
proof -
  have d: "distinct (g_hash g (HASHCOORD c))" using assms by (simp add: graph_wf_def hash_wf_def)
  have n: "route_graph_get_point_next g c (Some (points_at g c ! i))
      = (if Suc i < length (points_at g c) then Some (points_at g c ! Suc i) else None)"
    if "i < length (points_at g c)" for i
    using scan_next_enumerates [OF d, of i "\<lambda>p. same_coord (pt_c (g_pt g p)) c"] that
    unfolding route_graph_get_point_next_def points_at_def by blast
  have f: "route_graph_get_point g c = hd_opt (points_at g c)"
    unfolding route_graph_get_point_def route_graph_get_point_next_def points_at_def by (rule scan_next_first) simp
  show ?thesis
    using points_at_set [OF assms, of c] n by (cases "points_at g c") (simp_all add: f)
qed

theorem route_points_enumerated_witness:
  "route_graph_get_point ex_graph \<lparr>cx = 10, cy = 0\<rparr> = Some 1
   \<and> set (points_at ex_graph \<lparr>cx = 10, cy = 0\<rparr>) = {p. p < 3 \<and> pt_c (g_pt ex_graph p) = \<lparr>cx = 10, cy = 0\<rparr>}"
proof -
  have wf: "graph_wf ex_graph" using ex_graph_ok by (simp add: graph_ok_def)
  have "route_graph_get_point ex_graph \<lparr>cx = 10, cy = 0\<rparr> = Some 1" by code_simp
  then show ?thesis using route_points_enumerated [OF wf, of "\<lparr>cx = 10, cy = 0\<rparr>"] by (simp add: ex_graph_fields)
qed

section \<open>Costs\<close>

lemma rsd_read_len: "rsd_read n t (d\<lparr>sd_len := l\<rparr>) = rsd_read n t d"
  by (simp add: rsd_read_def Let_def split: option.split)

lemma sd_len_fields: "sd_flags (d\<lparr>sd_len := l\<rparr>) = sd_flags d" "sd_item (d\<lparr>sd_len := l\<rparr>) = sd_item d"
  by simp_all

lemma RSD_len [simp]:
  "RSD_MAXSPEED (d\<lparr>sd_len := l\<rparr>) = RSD_MAXSPEED d" "RSD_DANGEROUS_GOODS (d\<lparr>sd_len := l\<rparr>) = RSD_DANGEROUS_GOODS d"
  "RSD_SIZE_WEIGHT (d\<lparr>sd_len := l\<rparr>) = RSD_SIZE_WEIGHT d"
  by (simp_all add: RSD_MAXSPEED_def RSD_DANGEROUS_GOODS_def RSD_SIZE_WEIGHT_def rsd_read_len)

lemma route_seg_speed_len: "route_seg_speed profile (d\<lparr>sd_len := l\<rparr>) td = route_seg_speed profile d td"
  unfolding route_seg_speed_def Let_def RSD_len sd_len_fields by (rule refl)

lemma time_seg_eq:
  "route_seg_speed profile d td > 0 \<Longrightarrow>
   route_time_seg profile d td = (let t = d2i (time_of (sd_len d) (route_seg_speed profile d td)
      (case td of None \<Rightarrow> 0 | Some x \<Rightarrow> td_delay x)) in if t = 0 then 1 else t)"
  by (auto simp: route_time_seg_def time_of_def Let_def split: option.splits)

text \<open>On the same road a longer segment never takes less time, and a traffic distortion never makes
  a segment faster; the time is at least one tenth of a second.\<close>

theorem route_time_seg_monotone:
  assumes "0 \<le> sd_len d" and "sd_len d \<le> l" and "0 \<le> td_delay t"
    and "0 < route_seg_speed profile d (Some t)" and "route_seg_speed profile d (Some t) \<le> route_seg_speed profile d None"
    and "time_of l (route_seg_speed profile d (Some t)) (td_delay t) < 2147483648"
  shows "1 \<le> route_time_seg profile d None
    \<and> route_time_seg profile d None \<le> route_time_seg profile d (Some t)
    \<and> route_time_seg profile d (Some t) \<le> route_time_seg profile (d\<lparr>sd_len := l\<rparr>) (Some t)"
proof -
  let ?base = "route_seg_speed profile d None" and ?s = "route_seg_speed profile d (Some t)"
  let ?a = "time_of (sd_len d) ?base 0" and ?b = "time_of (sd_len d) ?s (td_delay t)" and ?c = "time_of l ?s (td_delay t)"
  have pos: "0 < ?base" using assms(4,5) by linarith
  have le: "0 \<le> ?a" "?a \<le> ?b" "?b \<le> ?c" "?c < 2147483648"
    using assms pos by (auto intro!: time_of_nonneg time_of_mono)
  have d2i: "0 \<le> d2i ?a" "d2i ?a \<le> d2i ?b" "d2i ?b \<le> d2i ?c"
    using d2i_mono [of ?a ?b] d2i_mono [of ?b ?c] le by (auto simp: d2i_nonneg)
  have eq: "route_time_seg profile d None = (if d2i ?a = 0 then 1 else d2i ?a)"
    "route_time_seg profile d (Some t) = (if d2i ?b = 0 then 1 else d2i ?b)"
    "route_time_seg profile (d\<lparr>sd_len := l\<rparr>) (Some t) = (if d2i ?c = 0 then 1 else d2i ?c)"
    using assms(4) pos time_seg_eq [of profile d None] time_seg_eq [of profile d "Some t"]
      time_seg_eq [of profile "d\<lparr>sd_len := l\<rparr>" "Some t"]
    by (simp_all add: route_seg_speed_len Let_def)
  show ?thesis unfolding eq using d2i by auto
qed

theorem route_time_seg_monotone_witness:
  "let d = the (new_segment_data (ex_data 1 100 0xFFF00000)); t = \<lparr>td_maxspeed = 30, td_delay = 50\<rparr>
   in route_time_seg ex_car d None \<le> route_time_seg ex_car d (Some t)
      \<and> route_time_seg ex_car d (Some t) \<le> route_time_seg ex_car (d\<lparr>sd_len := 200\<rparr>) (Some t)"
proof -
  let ?d = "the (new_segment_data (ex_data 1 100 0xFFF00000))" and ?t = "\<lparr>td_maxspeed = 30, td_delay = 50\<rparr>"
  have "sd_len ?d = 100" "route_seg_speed ex_car ?d (Some ?t) = 30" "route_seg_speed ex_car ?d None = 36"
    "time_of 200 30 50 < 2147483648" by code_simp+
  then show ?thesis using route_time_seg_monotone [of ?d 200 ?t ex_car] by (simp add: Let_def)
qed

section \<open>Traffic distortions\<close>

definition td_matches :: "route_graph \<Rightarrow> vehicleprofile \<Rightarrow> 32 word \<Rightarrow> nat \<Rightarrow> nat \<Rightarrow> nat \<Rightarrow> bool" where
  "td_matches g profile fmask a b t \<longleftrightarrow> it_type (seg_item g t) = type_traffic_distortion
     \<and> seg_start g t = a \<and> seg_end g t = b \<and> seg_flags g t AND fmask = vp_flags profile"

text \<open>The distortions that apply to a drive over \<open>seg\<close> in direction \<open>dir\<close>.\<close>

definition td_list :: "route_graph \<Rightarrow> nat \<Rightarrow> int \<Rightarrow> vehicleprofile \<Rightarrow> nat list" where
  "td_list g seg dir profile =
     (let a = seg_start g seg; b = seg_end g seg; fwd = vp_flags_forward_mask profile; rev = vp_flags_reverse_mask profile
      in filter (td_matches g profile (if dir \<ge> 0 then fwd else rev) a b) (pt_start (g_pt g a))
         @ filter (td_matches g profile (if dir < 0 then fwd else rev) b a) (pt_end (g_pt g a)))"

abbreviation td_speed :: "route_graph \<Rightarrow> nat \<Rightarrow> int" where
  "td_speed g t \<equiv> (if has_flag (seg_flags g t) AF_SPEED_LIMIT then the (RSD_MAXSPEED (sg_data (g_seg g t))) else INT_MAX)"

lemma td_fold:
  assumes "\<And>t. t \<in> set ts \<Longrightarrow> here t \<longleftrightarrow> seg_start g t = a \<and> seg_end g t = b" and "td_maxspeed r \<le> INT_MAX"
  shows "fold (td_step g fmask profile here) ts (found, r) =
    (let L = filter (td_matches g profile fmask a b) ts
     in (found \<or> L \<noteq> [], r\<lparr>td_delay := fold max (map (\<lambda>t. sd_len (sg_data (g_seg g t))) L) (td_delay r),
                          td_maxspeed := fold min (map (td_speed g) L) (td_maxspeed r)\<rparr>))"
  using assms
proof (induction ts arbitrary: found r)
  case (Cons t ts)
  show ?case
  proof (cases "td_matches g profile fmask a b t")
    case True
    let ?r = "r\<lparr>td_delay := max (sd_len (sg_data (g_seg g t))) (td_delay r), td_maxspeed := min (td_speed g t) (td_maxspeed r)\<rparr>"
    have "td_step g fmask profile here t (found, r) = (True, ?r)"
      using True Cons.prems by (auto simp: td_step_def td_matches_def Let_def max_def min_def)
    then show ?thesis using True Cons.prems by (simp add: Cons.IH Let_def)
  next
    case False
    then have "td_step g fmask profile here t (found, r) = (found, r)"
      using Cons.prems(1) [of t] by (auto simp: td_step_def td_matches_def Let_def)
    then show ?thesis using False Cons by simp
  qed
qed simp

text \<open>The distortion found for a segment combines all that apply in the direction driven: the
  longest delay and the lowest speed limit among them; there is none exactly when none applies.\<close>

theorem route_distortion_extremes:
  "route_get_traffic_distortion g seg dir profile =
     (let L = td_list g seg dir profile in
      if L = [] then None
      else Some \<lparr>td_maxspeed = Min (insert INT_MAX (td_speed g ` set L)),
                 td_delay = Max (insert 0 ((\<lambda>t. sd_len (sg_data (g_seg g t))) ` set L))\<rparr>)"
proof -
  let ?a = "seg_start g seg" and ?b = "seg_end g seg"
  let ?m = "\<lambda>d. if (if dir = 0 then 1 else dir) > 0 then vp_flags_forward_mask profile else vp_flags_reverse_mask profile"
  let ?n = "\<lambda>d. if (if dir = 0 then 1 else dir) < 0 then vp_flags_forward_mask profile else vp_flags_reverse_mask profile"
  have m: "?m dir = (if dir \<ge> 0 then vp_flags_forward_mask profile else vp_flags_reverse_mask profile)"
    "?n dir = (if dir < 0 then vp_flags_forward_mask profile else vp_flags_reverse_mask profile)" by auto
  have le: "fold min ys (x :: int) \<le> x" for x ys
    by (induction ys arbitrary: x) (simp, use min.bounded_iff in fastforce)
  have mm: "fold min ys x = Min (insert x (set ys))" "fold max ys x = Max (insert x (set ys))" for ys and x :: int
    using Min.set_eq_fold [of x ys] Max.set_eq_fold [of x ys] by simp_all
  define L M where "L = filter (td_matches g profile (if dir \<ge> 0 then vp_flags_forward_mask profile else vp_flags_reverse_mask profile) ?a ?b) (pt_start (g_pt g ?a))"
    and "M = filter (td_matches g profile (if dir < 0 then vp_flags_forward_mask profile else vp_flags_reverse_mask profile) ?b ?a) (pt_end (g_pt g ?a))"
  define r where "r = \<lparr>td_maxspeed = fold min (map (td_speed g) L) INT_MAX,
     td_delay = fold max (map (\<lambda>t. sd_len (sg_data (g_seg g t))) L) 0\<rparr>"
  have A: "fold (td_step g (?m dir) profile (\<lambda>t. seg_start g t = ?a \<and> seg_end g t = ?b)) (pt_start (g_pt g ?a))
      (False, \<lparr>td_maxspeed = INT_MAX, td_delay = 0\<rparr>) = (L \<noteq> [], r)"
    unfolding m by (subst td_fold [where a = ?a and b = ?b]) (simp_all add: L_def r_def Let_def)
  have B: "fold (td_step g (?n dir) profile (\<lambda>t. seg_end g t = ?a \<and> seg_start g t = ?b)) (pt_end (g_pt g ?a)) (L \<noteq> [], r)
      = (L \<noteq> [] \<or> M \<noteq> [], r\<lparr>td_delay := fold max (map (\<lambda>t. sd_len (sg_data (g_seg g t))) M) (td_delay r),
           td_maxspeed := fold min (map (td_speed g) M) (td_maxspeed r)\<rparr>)"
    unfolding m by (subst td_fold [where a = ?b and b = ?a]) (auto simp: M_def r_def Let_def le)
  have N: "td_list g seg dir profile = L @ M" by (simp add: td_list_def L_def M_def Let_def)
  have R: "r\<lparr>td_delay := fold max (map (\<lambda>t. sd_len (sg_data (g_seg g t))) M) (td_delay r),
           td_maxspeed := fold min (map (td_speed g) M) (td_maxspeed r)\<rparr>
      = \<lparr>td_maxspeed = fold min (map (td_speed g) (L @ M)) INT_MAX, td_delay = fold max (map (\<lambda>t. sd_len (sg_data (g_seg g t))) (L @ M)) 0\<rparr>"
    by (simp add: r_def)
  have "route_get_traffic_distortion g seg dir profile = (if L @ M = [] then None
      else Some \<lparr>td_maxspeed = fold min (map (td_speed g) (L @ M)) INT_MAX,
        td_delay = fold max (map (\<lambda>t. sd_len (sg_data (g_seg g t))) (L @ M)) 0\<rparr>)"
    unfolding route_get_traffic_distortion_def Let_def A B R by (cases L; cases M; simp)
  then show ?thesis unfolding N Let_def mm set_map .
qed

end
