(* ===== verification/Route_Build_Spec.thy ===== *)
theory Route_Build_Spec
  imports Route_Graph_Spec
begin

text \<open>
  Properties of the operations that build and change the route graph: what removing a traffic distortion
  does to the marks of its ends, the batches of the idle callback, the shape of the graph.
\<close>

unbundle bit_operations_syntax

section \<open>Removing a distortion\<close>

lemma has_td_bit: "has_flag w RP_TRAFFIC_DISTORTION \<longleftrightarrow> bit w 0"
  by (auto simp: af_defs and_one_eq odd_iff_mod_2_eq_one bit_0)

lemma RP_TRAFFIC_DISTORTION_nz [simp]: "RP_TRAFFIC_DISTORTION \<noteq> 0"
  by (simp add: af_defs)

lemma has_td [simp]:
  "has_flag (w OR RP_TRAFFIC_DISTORTION) RP_TRAFFIC_DISTORTION"
  "\<not> has_flag (w AND NOT RP_TRAFFIC_DISTORTION) RP_TRAFFIC_DISTORTION"
  unfolding has_td_bit by (simp_all add: af_defs bit_simps)

text \<open>The effect of the two clearing loops.\<close>

lemma td_clear_start_fold:
  defines "hit g s e it x \<equiv> seg_end g x = e \<and> item_is_equal (seg_item g x) it"
  shows "let g' = fold (td_clear_start s e it) xs g in
    (\<forall>x. g_seg g' x = (if x \<in> set xs \<and> hit g s e it x
       then (g_seg g x)\<lparr>sg_data := (sg_data (g_seg g x))\<lparr>sd_item := (seg_item g x)\<lparr>it_type := type_none\<rparr>\<rparr>\<rparr> else g_seg g x))
    \<and> (\<forall>p. pt_start (g_pt g' p) = pt_start (g_pt g p) \<and> pt_end (g_pt g' p) = pt_end (g_pt g p))
    \<and> (\<forall>p. p \<noteq> s \<longrightarrow> g_pt g' p = g_pt g p)
    \<and> (has_flag (pt_flags (g_pt g' s)) RP_TRAFFIC_DISTORTION \<longleftrightarrow> has_flag (pt_flags (g_pt g s)) RP_TRAFFIC_DISTORTION
        \<or> (\<exists>x\<in>set xs. it_type (seg_item g x) = type_traffic_distortion \<and> \<not> hit g s e it x))"
proof (induction xs arbitrary: g)
  case (Cons x xs)
  let ?h = "td_clear_start s e it x g"
  have seg: "g_seg ?h y = (if y = x \<and> hit g s e it x
       then (g_seg g x)\<lparr>sg_data := (sg_data (g_seg g x))\<lparr>sd_item := (seg_item g x)\<lparr>it_type := type_none\<rparr>\<rparr>\<rparr> else g_seg g y)" for y
    by (auto simp: td_clear_start_def hit_def upd_seg_data_def)
  have hit: "hit ?h s e it y = hit g s e it y" for y
    by (auto simp: hit_def seg item_is_equal_def)
  have pt: "pt_start (g_pt ?h p) = pt_start (g_pt g p)" "pt_end (g_pt ?h p) = pt_end (g_pt g p)"
    "p \<noteq> s \<Longrightarrow> g_pt ?h p = g_pt g p" for p
    by (auto simp: td_clear_start_def upd_seg_data_def)
  have fl: "has_flag (pt_flags (g_pt ?h s)) RP_TRAFFIC_DISTORTION \<longleftrightarrow> has_flag (pt_flags (g_pt g s)) RP_TRAFFIC_DISTORTION
      \<or> it_type (seg_item g x) = type_traffic_distortion \<and> \<not> hit g s e it x"
    by (auto simp: td_clear_start_def hit_def upd_seg_data_def)
  have ty: "it_type (seg_item ?h y) = type_traffic_distortion \<and> \<not> hit g s e it y \<longleftrightarrow>
      it_type (seg_item g y) = type_traffic_distortion \<and> \<not> hit g s e it y" for y
    using seg [of y] by auto
  show ?case
    using Cons.IH [of ?h] unfolding Let_def hit ty by (auto simp: seg pt fl)
qed simp

lemma td_clear_end_fold:
  "let g' = fold (td_clear_end e) xs g in
    g_seg g' = g_seg g \<and> (\<forall>p. pt_start (g_pt g' p) = pt_start (g_pt g p) \<and> pt_end (g_pt g' p) = pt_end (g_pt g p))
    \<and> (\<forall>p. p \<noteq> e \<longrightarrow> g_pt g' p = g_pt g p)
    \<and> (has_flag (pt_flags (g_pt g' e)) RP_TRAFFIC_DISTORTION \<longleftrightarrow> has_flag (pt_flags (g_pt g e)) RP_TRAFFIC_DISTORTION
        \<or> (\<exists>x\<in>set xs. it_type (seg_item g x) = type_traffic_distortion))"
proof (induction xs arbitrary: g)
  case (Cons x xs)
  let ?h = "td_clear_end e x g"
  have "g_seg ?h = g_seg g" "\<And>p. pt_start (g_pt ?h p) = pt_start (g_pt g p)" "\<And>p. pt_end (g_pt ?h p) = pt_end (g_pt g p)"
    "\<And>p. p \<noteq> e \<Longrightarrow> g_pt ?h p = g_pt g p"
    "has_flag (pt_flags (g_pt ?h e)) RP_TRAFFIC_DISTORTION \<longleftrightarrow> has_flag (pt_flags (g_pt g e)) RP_TRAFFIC_DISTORTION
      \<or> it_type (seg_item g x) = type_traffic_distortion"
    by (auto simp: td_clear_end_def)
  then show ?case using Cons.IH [of ?h] by (auto simp: Let_def)
qed simp

text \<open>Removing a distortion turns exactly its own segment into nothing and then recomputes the
  distortion marks of its two ends: the mark of the start from the segments that start there only, the
  mark of the end from those that end there only. Another distortion that ends where the removed one
  started, or starts where it ended, therefore loses its mark and no longer counts.\<close>

theorem route_remove_distortion_marks:
  assumes "graph_ok g" and "mi_coords it \<noteq> []" and "s \<noteq> e"
    and "route_graph_get_point g (fst (mi_coords it ! 0)) = Some s"
    and "route_graph_get_point g (fst (last (mi_coords it))) = Some e"
  shows "\<exists>g'. route_graph_remove_traffic_distortion profile it g = Some g' \<and> graph_ok g'
    \<and> (\<forall>x. seg_item g' x = (if x \<in> set (pt_start (g_pt g s)) \<and> seg_end g x = e \<and> item_is_equal (seg_item g x) (mi_item it)
          then (seg_item g x)\<lparr>it_type := type_none\<rparr> else seg_item g x))
    \<and> (has_flag (pt_flags (g_pt g' s)) RP_TRAFFIC_DISTORTION
        \<longleftrightarrow> (\<exists>x\<in>set (pt_start (g_pt g s)). it_type (seg_item g' x) = type_traffic_distortion))
    \<and> (has_flag (pt_flags (g_pt g' e)) RP_TRAFFIC_DISTORTION
        \<longleftrightarrow> (\<exists>x\<in>set (pt_end (g_pt g e)). it_type (seg_item g' x) = type_traffic_distortion))
    \<and> (\<forall>p. p \<noteq> s \<and> p \<noteq> e \<longrightarrow> pt_flags (g_pt g' p) = pt_flags (g_pt g p))"
proof -
  let ?unmark = "\<lambda>p :: route_graph_point. p\<lparr>pt_flags := pt_flags p AND NOT RP_TRAFFIC_DISTORTION\<rparr>"
  define g1 where "g1 = upd_pt s ?unmark g"
  define g2 where "g2 = fold (td_clear_start s e (mi_item it)) (pt_start (g_pt g1 s)) g1"
  define g3 where "g3 = upd_pt e ?unmark g2"
  define g4 where "g4 = fold (td_clear_end e) (pt_end (g_pt g3 e)) g3"
  have 2: "graph_ok g2" unfolding g2_def using td_clear_ok(1) [of g1] assms(1) by (simp add: g1_def)
  have 4: "graph_ok g4" unfolding g4_def using td_clear_ok(2) [of g3] 2 by (simp add: g3_def)
  obtain g5 where 5: "route_graph_point_update profile s g4 = Some g5" "graph_ok g5" "grows g4 g5" "same_static g4 g5"
    by (rule point_update_ok [OF 4])
  obtain g6 where 6: "route_graph_point_update profile e g5 = Some g6" "graph_ok g6" "grows g5 g6" "same_static g5 g6"
    by (rule point_update_ok [OF 5(2)])
  obtain l rest where c: "mi_coords it = l # rest" using assms(2) by (cases "mi_coords it") auto
  have "fst (last (l # rest)) = last (map fst (l # rest))" by (rule last_map [symmetric]) simp
  then have run: "route_graph_remove_traffic_distortion profile it g = Some g6"
    using 5(1) 6(1) assms(4,5) unfolding g4_def g3_def g2_def g1_def
    by (simp add: route_graph_remove_traffic_distortion_def Let_def c)
  note st = same_staticD [OF same_static_trans [OF 5(4) 6(4)]]
  note f2 = td_clear_start_fold [of s e "mi_item it" "pt_start (g_pt g1 s)" g1, folded g2_def, unfolded Let_def]
  note f4 = td_clear_end_fold [of e "pt_end (g_pt g3 e)" g3, folded g4_def, unfolded Let_def]
  have seg: "seg_item g6 x = (if x \<in> set (pt_start (g_pt g s)) \<and> seg_end g x = e \<and> item_is_equal (seg_item g x) (mi_item it)
          then (seg_item g x)\<lparr>it_type := type_none\<rparr> else seg_item g x)" for x
    using f2 f4 by (auto simp: st g3_def g1_def)
  have ends: "pt_end (g_pt g2 e) = pt_end (g_pt g e)" using f2 by (simp add: g1_def)
  have td: "type_none \<noteq> type_traffic_distortion" by (simp add: af_defs)
  have s: "has_flag (pt_flags (g_pt g6 s)) RP_TRAFFIC_DISTORTION
      \<longleftrightarrow> (\<exists>x\<in>set (pt_start (g_pt g s)). it_type (seg_item g6 x) = type_traffic_distortion)"
    using f2 f4 assms(3) td by (auto simp: st seg g3_def g1_def)
  have e: "has_flag (pt_flags (g_pt g6 e)) RP_TRAFFIC_DISTORTION
      \<longleftrightarrow> (\<exists>x\<in>set (pt_end (g_pt g e)). it_type (seg_item g6 x) = type_traffic_distortion)"
    using f4 by (auto simp: st ends g3_def)
  have o: "pt_flags (g_pt g6 p) = pt_flags (g_pt g p)" if "p \<noteq> s" "p \<noteq> e" for p
    using f2 f4 that by (auto simp: st g3_def g1_def)
  show ?thesis using run 6(2) seg s e o by blast
qed

definition ex_distortion :: "int \<Rightarrow> int \<Rightarrow> int \<Rightarrow> map_item" where
  "ex_distortion i a b = \<lparr>mi_item = ex_item type_traffic_distortion i, mi_coords = [(\<lparr>cx = a, cy = 0\<rparr>, True), (\<lparr>cx = b, cy = 0\<rparr>, True)],
     mi_attr = [attr_delay \<mapsto> 500, attr_flags \<mapsto> 0x04000000]\<rparr>"

definition ex_distorted :: route_graph where
  "ex_distorted = the (route_graph_add_segment 1 2 (td_item_data (ex_data 0 0 0) (ex_distortion 8 10 20))
     (the (route_graph_add_segment 0 1 (td_item_data (ex_data 0 0 0) (ex_distortion 7 0 10)) ex_graph)))"

text \<open>The distortion 7 ends at the point 1; removing 8, which starts there, leaves 7 in the graph and 1 without mark.\<close>

theorem route_remove_distortion_marks_witness:
  "\<exists>g'. route_graph_remove_traffic_distortion ex_car (ex_distortion 8 10 20) ex_distorted = Some g'
     \<and> it_type (seg_item g' 2) = type_traffic_distortion \<and> seg_end ex_distorted 2 = 1
     \<and> \<not> has_flag (pt_flags (g_pt g' 1)) RP_TRAFFIC_DISTORTION"
proof -
  have ok: "graph_ok ex_distorted"
    unfolding ex_distorted_def
    by (intro add_segment_the) (simp_all add: add_segment_the ex_graph_ok ex_graph_fields td_item_data_def ex_distortion_def Let_def)
  have f: "route_graph_get_point ex_distorted \<lparr>cx = 10, cy = 0\<rparr> = Some 1"
    "route_graph_get_point ex_distorted \<lparr>cx = 20, cy = 0\<rparr> = Some 2" by code_simp+
  have s: "pt_start (g_pt ex_distorted 1) = [3, 1]" "seg_end ex_distorted 3 = 2" "seg_end ex_distorted 2 = 1"
    "item_is_equal (seg_item ex_distorted 3) (mi_item (ex_distortion 8 10 20))"
    "\<not> item_is_equal (seg_item ex_distorted 1) (mi_item (ex_distortion 8 10 20))"
    "it_type (seg_item ex_distorted 1) \<noteq> type_traffic_distortion" "it_type (seg_item ex_distorted 2) = type_traffic_distortion"
    by code_simp+
  have td: "type_none \<noteq> type_traffic_distortion" by (simp add: af_defs)
  have c: "mi_coords (ex_distortion 8 10 20) = [(\<lparr>cx = 10, cy = 0\<rparr>, True), (\<lparr>cx = 20, cy = 0\<rparr>, True)]"
    by (simp add: ex_distortion_def)
  obtain g' where g': "route_graph_remove_traffic_distortion ex_car (ex_distortion 8 10 20) ex_distorted = Some g'"
    "\<And>x. seg_item g' x = (if x \<in> set (pt_start (g_pt ex_distorted 1)) \<and> seg_end ex_distorted x = 2
          \<and> item_is_equal (seg_item ex_distorted x) (mi_item (ex_distortion 8 10 20))
          then (seg_item ex_distorted x)\<lparr>it_type := type_none\<rparr> else seg_item ex_distorted x)"
    "has_flag (pt_flags (g_pt g' 1)) RP_TRAFFIC_DISTORTION
        \<longleftrightarrow> (\<exists>x\<in>set (pt_start (g_pt ex_distorted 1)). it_type (seg_item g' x) = type_traffic_distortion)"
    using route_remove_distortion_marks [OF ok, of "ex_distortion 8 10 20" 1 2 ex_car] f c
    by (fastforce simp del: One_nat_def)
  have "it_type (seg_item g' 1) \<noteq> type_traffic_distortion" "it_type (seg_item g' 3) \<noteq> type_traffic_distortion"
    "it_type (seg_item g' 2) = type_traffic_distortion"
    using s td unfolding g'(2) by (simp_all del: One_nat_def)
  then show ?thesis using g'(1,3) s(1,3) by auto
qed

section \<open>Building in batches\<close>

text \<open>The whole work on a list of items, without batches.\<close>

fun add_items ::
  "(coord \<Rightarrow> coord \<Rightarrow> rat) \<Rightarrow> route_graph_segment_data \<Rightarrow> vehicleprofile \<Rightarrow> map_item list \<Rightarrow> route_graph \<Rightarrow> route_graph option" where
  "add_items tdist stk profile [] g = Some g"
| "add_items tdist stk profile (it # items) g =
     Option.bind (route_graph_add_item tdist stk profile it g) (add_items tdist stk profile items)"

lemma add_items_append:
  "add_items tdist stk profile (xs @ ys) g = Option.bind (add_items tdist stk profile xs g) (add_items tdist stk profile ys)"
  by (induction xs arbitrary: g) (auto split: Option.bind_splits)

lemma build_loop_eq:
  "build_loop tdist stk profile n items g =
     (if n \<le> length items then map_option (Pair (drop n items)) (add_items tdist stk profile (take n items) g)
      else Option.bind (add_items tdist stk profile items g) (\<lambda>g. map_option (Pair []) (route_graph_build_done stk False g)))"
proof (induction tdist stk profile n items g rule: build_loop.induct)
  case (3 tdist stk profile n it items g)
  then show ?case by (auto split: Option.bind_splits)
qed simp_all

text \<open>Idle calls one after the other until the graph is no longer busy: at most \<open>k\<close> of them.\<close>

fun build_calls ::
  "(coord \<Rightarrow> coord \<Rightarrow> rat) \<Rightarrow> route_graph_segment_data \<Rightarrow> vehicleprofile \<Rightarrow> nat \<Rightarrow> map_item list \<Rightarrow> route_graph
   \<Rightarrow> (map_item list \<times> route_graph) option" where
  "build_calls tdist stk profile 0 items g = Some (items, g)"
| "build_calls tdist stk profile (Suc k) items g =
     (if g_busy g then Option.bind (route_graph_build_idle tdist stk profile items g)
        (\<lambda>(items, g). build_calls tdist stk profile k items g)
      else Some (items, g))"

text \<open>Adding an item does not end the building.\<close>

lemma busy_point [simp]:
  "g_busy (snd (route_graph_point_new c g)) = g_busy g" "g_busy (snd (route_graph_add_point c g)) = g_busy g"
  by (simp_all add: route_graph_add_point_def route_graph_point_new_def Let_def split: option.split)

lemma busy_add_point: "route_graph_add_point c g = (p, g') \<Longrightarrow> g_busy g' = g_busy g"
  using busy_point(2) [of c g] by simp

lemma busy_add_segment: "route_graph_add_segment a b d g = Some g' \<Longrightarrow> g_busy g' = g_busy g"
  by (auto simp: route_graph_add_segment_def Let_def bind_eq_Some_conv split: if_splits)

lemma busy_street_segment: "add_street_segment a b d g = Some g' \<Longrightarrow> g_busy g' = g_busy g"
  by (auto simp: add_street_segment_def bind_eq_Some_conv split: if_splits dest: busy_add_segment)

lemma busy_street_segmented: "add_street_segmented tdist d l len s cs g = Some g' \<Longrightarrow> g_busy g' = g_busy g"
proof (induction cs arbitrary: d l len s g)
  case Nil
  then show ?case
    by (auto simp: Let_def split: prod.splits if_splits dest!: busy_add_point busy_street_segment)
next
  case (Cons a cs)
  obtain c isseg where a: "a = (c, isseg)" by force
  obtain q g1 where q: "route_graph_add_point c g = (q, g1)" by force
  show ?case
  proof (cases isseg)
    case True
    then obtain g2 where g2: "add_street_segment s q (d\<lparr>gd_len := d2i (dround (len + tdist l c))\<rparr>) g1 = Some g2"
      using Cons.prems by (auto simp: a q Let_def bind_eq_Some_conv)
    obtain r g3 where r: "route_graph_add_point c g2 = (r, g3)" by force
    have "\<exists>d. add_street_segmented tdist d c 0 r cs g3 = Some g'"
      using Cons.prems True g2 r by (auto simp: a q Let_def)
    then show ?thesis using Cons.IH busy_add_point [OF q] busy_street_segment [OF g2] busy_add_point [OF r] by metis
  next
    case False
    then have "\<exists>x. add_street_segmented tdist d c x s cs g = Some g'" using Cons.prems by (auto simp: a Let_def)
    then show ?thesis using Cons.IH by blast
  qed
qed

lemma busy_add_item:
  assumes "route_graph_add_item tdist stk profile it g = Some g'" shows "g_busy g' = g_busy g"
  using assms
  by (auto simp: route_graph_add_item_def route_graph_add_street_def route_graph_add_turn_restriction_def
      route_graph_add_traffic_distortion_def Let_def bind_eq_Some_conv
      split: if_splits list.splits prod.splits option.splits
      dest!: busy_add_point busy_street_segment busy_street_segmented busy_add_segment)

lemma busy_add_items: "add_items tdist stk profile items g = Some g' \<Longrightarrow> g_busy g' = g_busy g"
  by (induction items arbitrary: g) (auto simp: bind_eq_Some_conv dest!: busy_add_item)

lemma busy_build_done: "route_graph_build_done stk cancel g = Some g' \<Longrightarrow> \<not> g_busy g'"
  by (auto simp: route_graph_build_done_def bind_eq_Some_conv)

text \<open>C32: building in idle calls of at most 1000 items each ends after as many calls as there are full
  thousands of items, plus one, and does exactly what adding all items and resolving the restrictions in one go does.\<close>

theorem route_build_batches:
  assumes "g_busy g" and "length items div 1000 < k"
  shows "build_calls tdist stk profile k items g =
    Option.bind (add_items tdist stk profile items g) (\<lambda>g. map_option (Pair []) (route_graph_build_done stk False g))"
  using assms
proof (induction k arbitrary: items g)
  case (Suc k)
  have stop: "build_calls tdist stk profile k [] g' = Some ([], g')" if "\<not> g_busy g'" for g'
    using that by (cases k) auto
  show ?case
  proof (cases "1000 \<le> length items")
    case True
    have "build_calls tdist stk profile k (drop 1000 items) g' =
        Option.bind (add_items tdist stk profile (drop 1000 items) g') (\<lambda>g. map_option (Pair []) (route_graph_build_done stk False g))"
      if "add_items tdist stk profile (take 1000 items) g = Some g'" for g'
      using True Suc.prems busy_add_items [OF that] by (intro Suc.IH) auto
    then show ?thesis
      using True Suc.prems(1) add_items_append [of tdist stk profile "take 1000 items" "drop 1000 items" g]
      by (cases "add_items tdist stk profile (take 1000 items) g")
        (auto simp: route_graph_build_idle_def build_loop_eq)
  next
    case False
    then show ?thesis using Suc.prems(1) stop busy_build_done
      by (cases "add_items tdist stk profile items g")
        (auto simp: route_graph_build_idle_def build_loop_eq split: Option.bind_splits option.splits)
  qed
qed simp

theorem route_build_batches_witness:
  "build_calls (\<lambda>_ _. 0) (ex_data 0 0 0) ex_car 2 [ex_distortion 7 0 10] ex_graph =
    Option.bind (add_items (\<lambda>_ _. 0) (ex_data 0 0 0) ex_car [ex_distortion 7 0 10] ex_graph)
      (\<lambda>g. map_option (Pair []) (route_graph_build_done (ex_data 0 0 0) False g))"
proof (rule route_build_batches)
  show "g_busy ex_graph" by code_simp
qed simp



end
