(* ===== verification/Route_Path.thy ===== *)
theory Route_Path
  imports Route_Build_Inv
begin

text \<open>
  The route path of \<open>route.c\<close>: the roundabout check, the segments of the path with their
  coordinates, and the walk along the flooded graph from the position to the destination.
  \<open>None\<close> is a read outside the coordinates of a street or an endless recomputation.
\<close>

section \<open>Positions and paths\<close>

record route_info =
  ri_c :: coord
  ri_lp :: coord
  ri_pos :: int
  ri_lenpos :: int
  ri_lenneg :: int
  ri_lenextra :: int
  ri_percent :: int
  ri_street :: "street_data option"
  ri_street_direction :: int
  ri_dir :: int

record route_path_segment =
  ps_data :: route_segment_data
  ps_direction :: int
  ps_c :: "coord list"

text \<open>The hash table of a path: \<open>item_hash_*\<close> of \<open>item.c\<close>, keyed by map and id.\<close>

type_synonym item_hash = "(item \<times> route_path_segment) list"

definition item_hash_insert :: "item_hash \<Rightarrow> item \<Rightarrow> route_path_segment \<Rightarrow> item_hash" where
  "item_hash_insert h it v = (it, v) # filter (\<lambda>(k, _). \<not> item_is_equal k it) h"

definition item_hash_remove :: "item_hash \<Rightarrow> item \<Rightarrow> item_hash" where
  "item_hash_remove h it = filter (\<lambda>(k, _). \<not> item_is_equal k it) h"

definition item_hash_lookup :: "item_hash \<Rightarrow> item \<Rightarrow> route_path_segment option" where
  "item_hash_lookup h it = map_option snd (find (\<lambda>(k, _). item_is_equal k it) h)"

record route_path =
  pa_in_use :: int
  pa_updated :: bool
  pa_path :: "route_path_segment list"
  pa_hash :: item_hash

section \<open>Roundabouts\<close>

text \<open>
  The segments at a point as the iterator returns them, each with the answer of
  \<open>rp_iterator_end\<close> after it was returned.
\<close>

definition rp_items :: "route_graph \<Rightarrow> nat \<Rightarrow> (nat \<times> bool) list" where
  "rp_items g p = map (\<lambda>s. (s, False)) (pt_start (g_pt g p)) @ map (\<lambda>s. (s, True)) (pt_end (g_pt g p))"

definition set_roundabout :: "nat \<Rightarrow> route_graph \<Rightarrow> route_graph" where
  "set_roundabout s g = upd_seg_data s (\<lambda>d. d\<lparr>sd_flags := sd_flags d OR AF_ROUNDABOUT\<rparr>) g"

function (sequential) route_check_roundabout ::
    "nat \<Rightarrow> nat \<Rightarrow> bool \<Rightarrow> nat option \<Rightarrow> route_graph \<Rightarrow> bool \<times> route_graph"
  and roundabout_scan :: "nat \<Rightarrow> nat \<Rightarrow> nat \<Rightarrow> (nat \<times> bool) list \<Rightarrow> route_graph \<Rightarrow> bool \<times> route_graph" where
  "route_check_roundabout 0 seg direction origin g = (False, g)"
| "route_check_roundabout (Suc level) seg direction origin g =
     (if \<not> direction \<and> \<not> has_flag (seg_flags g seg) AF_ONEWAY then (False, g)
      else if direction \<and> \<not> has_flag (seg_flags g seg) AF_ONEWAYREV then (False, g)
      else if has_flag (seg_flags g seg) AF_ROUNDABOUT_VALID then (False, g)
      else (let origin = (case origin of None \<Rightarrow> seg | Some s \<Rightarrow> s);
                its = rp_items g (if \<not> direction then seg_end g seg else seg_start g seg)
            in if length its > 3 then (False, g) else roundabout_scan level seg origin its g))"
| "roundabout_scan level seg origin [] g = (False, g)"
| "roundabout_scan level seg origin ((s, e) # its) g =
     (if s = seg then roundabout_scan level seg origin its g
      else if it_type (seg_item g s) \<noteq> it_type (seg_item g origin) then roundabout_scan level seg origin its g
      else if s = origin then (True, set_roundabout seg g)
      else (case route_check_roundabout level s e (Some origin) g of
              (True, g) \<Rightarrow> (True, set_roundabout seg g)
            | (False, g) \<Rightarrow> roundabout_scan level seg origin its g))"
  by pat_completeness auto
termination
  by (relation "measures [case_sum (\<lambda>(l, _). l) (\<lambda>(l, _). l), case_sum (\<lambda>_. 0) (\<lambda>(_, _, _, its, _). Suc (length its))]") auto

section \<open>Adding a segment to the path\<close>

fun take_upto :: "int \<Rightarrow> coord \<Rightarrow> coord list \<Rightarrow> coord list" where
  "take_upto n b [] = []"
| "take_upto n b (c # cs) = (if n \<le> 0 then [] else c # (if same_coord c b then [] else take_upto (n - 1) b cs))"

definition item_coord_get_within_range :: "coord list \<Rightarrow> int \<Rightarrow> coord \<Rightarrow> coord \<Rightarrow> coord list" where
  "item_coord_get_within_range cs n a b = take_upto n b (dropWhile (\<lambda>c. \<not> same_coord c a) cs)"

definition seg_offset :: "route_segment_data \<Rightarrow> int" where
  "seg_offset d = (if has_flag (sd_flags d) AF_SEGMENTED then the (RSD_OFFSET d) else 1)"

fun extract_segment :: "item \<Rightarrow> int \<Rightarrow> route_path_segment list \<Rightarrow> (route_path_segment \<times> route_path_segment list) option" where
  "extract_segment it offset [] = None"
| "extract_segment it offset (s # ss) =
     (if item_is_equal (sd_item (ps_data s)) it \<and> seg_offset (ps_data s) = offset then Some (s, ss)
      else map_option (\<lambda>(x, ss). (x, s # ss)) (extract_segment it offset ss))"

definition route_extract_segment_from_path ::
  "route_path \<Rightarrow> item \<Rightarrow> int \<Rightarrow> route_path_segment option \<times> route_path" where
  "route_extract_segment_from_path path it offset = (case extract_segment it offset (pa_path path) of
       None \<Rightarrow> (None, path)
     | Some (s, ss) \<Rightarrow> (Some s, path\<lparr>pa_path := ss, pa_hash := item_hash_remove (pa_hash path) it\<rparr>))"

definition route_path_add_segment :: "route_path \<Rightarrow> route_path_segment \<Rightarrow> route_path" where
  "route_path_add_segment this segment = this\<lparr>pa_path := pa_path this @ [segment]\<rparr>"

definition route_path_add_line :: "route_path \<Rightarrow> coord \<Rightarrow> coord \<Rightarrow> int \<Rightarrow> route_path" where
  "route_path_add_line this start en len = route_path_add_segment this
     \<lparr>ps_data = \<lparr>sd_item = \<lparr>it_type = 0, it_id_hi = 0, it_id_lo = 0, it_map = 0\<rparr>, sd_flags = 0, sd_len = len,
        sd_score = 0, sd_tail = []\<rparr>,
      ps_direction = 0, ps_c = [start, en]\<rparr>"

text \<open>
  Which coordinates of which street the segment takes: direction, index of the first one, number,
  length; from the street of the position, of the destination or from the map (\<open>ca\<close>).
\<close>

record seg_range =
  sr_dir :: int
  sr_coords :: "coord list"
  sr_first :: int
  sr_count :: int
  sr_len :: int
  sr_extra :: int

definition path_range ::
  "(item \<Rightarrow> coord list) \<Rightarrow> route_graph \<Rightarrow> nat \<Rightarrow> int \<Rightarrow> route_info option \<Rightarrow> route_info option \<Rightarrow> seg_range" where
  "path_range coords_of g rgs dir pos dst = (case (pos, dst) of
       (Some p, Some d) \<Rightarrow>
         if ri_lenneg d \<ge> ri_lenneg p
         then \<lparr>sr_dir = 1, sr_coords = st_c (the (ri_street p)), sr_first = ri_pos p + 1, sr_count = ri_pos d - ri_pos p,
               sr_len = i32 (ri_lenneg d - ri_lenneg p), sr_extra = 2\<rparr>
         else \<lparr>sr_dir = -1, sr_coords = st_c (the (ri_street p)), sr_first = ri_pos d + 1, sr_count = ri_pos p - ri_pos d,
               sr_len = i32 (ri_lenneg p - ri_lenneg d), sr_extra = 2\<rparr>
     | (Some p, None) \<Rightarrow>
         if dir > 0
         then \<lparr>sr_dir = dir, sr_coords = st_c (the (ri_street p)), sr_first = ri_pos p + 1,
               sr_count = int (length (st_c (the (ri_street p)))) - ri_pos p - 1, sr_len = ri_lenpos p, sr_extra = 1\<rparr>
         else \<lparr>sr_dir = dir, sr_coords = st_c (the (ri_street p)), sr_first = 0, sr_count = ri_pos p + 1,
               sr_len = ri_lenneg p, sr_extra = 1\<rparr>
     | (None, Some d) \<Rightarrow>
         if dir > 0
         then \<lparr>sr_dir = dir, sr_coords = st_c (the (ri_street d)), sr_first = 0, sr_count = ri_pos d + 1,
               sr_len = ri_lenneg d, sr_extra = 1\<rparr>
         else \<lparr>sr_dir = dir, sr_coords = st_c (the (ri_street d)), sr_first = ri_pos d + 1,
               sr_count = int (length (st_c (the (ri_street d)))) - ri_pos d - 1, sr_len = ri_lenpos d, sr_extra = 1\<rparr>
     | (None, None) \<Rightarrow>
         (let ca = item_coord_get_within_range (coords_of (seg_item g rgs)) 2047
                (pt_c (g_pt g (seg_start g rgs))) (pt_c (g_pt g (seg_end g rgs)))
          in \<lparr>sr_dir = dir, sr_coords = ca, sr_first = 0, sr_count = int (length ca), sr_len = sd_len (sg_data (g_seg g rgs)),
              sr_extra = 0\<rparr>))"

text \<open>
  The coordinates written behind the new segment. Where nothing was written yet, \<open>cd[-1]\<close> is
  the pair of the fields \<open>direction\<close> and \<open>ncoords\<close> in front of the coordinates.
\<close>

definition path_coords :: "seg_range \<Rightarrow> route_info option \<Rightarrow> route_info option \<Rightarrow> coord list option" where
  "path_coords r pos dst = do {
     let cs = sr_coords r;
     u \<leftarrow> (if 0 \<le> sr_count r \<and> (sr_count r = 0 \<or> 0 \<le> sr_first r \<and> sr_first r + sr_count r \<le> int (length cs))
          then Some () else None);
     let taken = take (nat (sr_count r)) (drop (nat (sr_first r)) cs);
     out \<leftarrow> (case pos of
        None \<Rightarrow> Some []
      | Some p \<Rightarrow> if 0 \<le> sr_first r \<and> sr_first r < int (length cs)
                  then Some (if same_coord (cs ! nat (sr_first r)) (ri_lp p) then [] else [ri_lp p]) else None);
     let out = out @ (if sr_dir r < 0 then rev taken else taken);
     Some (case dst of
        None \<Rightarrow> out
      | Some d \<Rightarrow> if same_coord (if out = [] then \<lparr>cx = sr_dir r, cy = sr_count r\<rparr> else last out) (ri_lp d) then out
                  else out @ [ri_lp d])
   }"

record add_result =
  ar_ret :: bool
  ar_path :: route_path
  ar_old :: "route_path option"
  ar_dir :: int
  ar_graph :: route_graph

text \<open>The look into the old path: the segment to link, whether one was found, the old path without it.\<close>

definition take_old ::
  "route_path option \<Rightarrow> route_segment_data \<Rightarrow> int \<Rightarrow> route_path_segment option \<times> route_path option" where
  "take_old oldpath d dir = (case oldpath of
       None \<Rightarrow> (None, None)
     | Some old \<Rightarrow> (case item_hash_lookup (pa_hash old) (sd_item d) of
         None \<Rightarrow> (None, Some old)
       | Some x \<Rightarrow> if ps_direction x = dir
           then (let (s, old) = route_extract_segment_from_path old (sd_item d) (seg_offset d) in (s, Some old))
           else (None, Some old)))"

definition link_segment :: "route_path \<Rightarrow> item \<Rightarrow> int \<Rightarrow> route_path_segment \<Rightarrow> route_path" where
  "link_segment this it len segment =
     (let segment = segment\<lparr>ps_data := (ps_data segment)\<lparr>sd_len := len\<rparr>\<rparr>
      in route_path_add_segment (this\<lparr>pa_hash := item_hash_insert (pa_hash this) it segment\<rparr>) segment)"

definition route_path_add_item_from_graph ::
  "(item \<Rightarrow> coord list) \<Rightarrow> route_path \<Rightarrow> route_path option \<Rightarrow> nat \<Rightarrow> int \<Rightarrow> route_info option \<Rightarrow> route_info option
   \<Rightarrow> route_graph \<Rightarrow> add_result option" where
  "route_path_add_item_from_graph coords_of this oldpath rgs dir pos dst g =
     (let d = sg_data (g_seg g rgs); (old_seg, oldpath) = take_old oldpath d dir; ret = (old_seg \<noteq> None)
      in case (old_seg, pos) of
           (Some s, None) \<Rightarrow> Some \<lparr>ar_ret = True, ar_path = link_segment this (sd_item d) (sd_len d) s,
               ar_old = oldpath, ar_dir = 0, ar_graph = g\<rparr>
         | _ \<Rightarrow> do {
             let r = path_range coords_of g rgs dir pos dst;
             out \<leftarrow> path_coords r pos dst;
             if length out \<le> 1
             then Some \<lparr>ar_ret = True, ar_path = this, ar_old = oldpath, ar_dir = sr_dir r, ar_graph = g\<rparr>
             else do {
               let g = (if has_flag (sd_flags d) AF_ROUNDABOUT then g
                        else snd (route_check_roundabout 13 rgs (sr_dir r < 1) None g));
               let segment = \<lparr>ps_data = sg_data (g_seg g rgs), ps_direction = sr_dir r, ps_c = out\<rparr>;
               Some \<lparr>ar_ret = ret, ar_path = link_segment this (sd_item d) (sr_len r) segment,
                     ar_old = oldpath, ar_dir = sr_dir r, ar_graph = g\<rparr>
             }
           })"

section \<open>The path\<close>

definition route_path_empty :: route_path where
  "route_path_empty = \<lparr>pa_in_use = 1, pa_updated = True, pa_path = [], pa_hash = []\<rparr>"

definition route_path_new_offroad :: "route_info \<Rightarrow> route_info \<Rightarrow> route_path" where
  "route_path_new_offroad pos dst =
     route_path_add_line route_path_empty (ri_c pos) (ri_c dst) (i32 (ri_lenextra pos + ri_lenextra dst))"

text \<open>The cheapest ways to leave the street of the position over the end (1) and over the start (2).\<close>

definition path_cands ::
  "vehicleprofile \<Rightarrow> route_info \<Rightarrow> route_graph \<Rightarrow> nat \<Rightarrow> (int \<times> nat option) \<times> (int \<times> nat option)
   \<Rightarrow> (int \<times> nat option) \<times> (int \<times> nat option)" where
  "path_cands profile pos g s acc = (let ((val1, s1), (val2, s2)) = acc;
       avoid = (\<lambda>v c. if route_graph_segment_match g (Some s) (g_avoid_seg g) \<and> c then i32 (v + vp_turn_around_penalty profile) else v);
       v = route_value_seg profile g None s 2; e = pt_value (g_pt g (seg_end g s));
       (val1, s1) = (if v \<noteq> INT_MAX \<and> e \<noteq> INT_MAX then
          (let v = avoid (cdiv (i32 (v * (100 - ri_percent pos))) 100) (ri_street_direction pos < 0); n = i32 (e + v)
           in if n < val1 then (n, Some s) else (val1, s1)) else (val1, s1));
       v = route_value_seg profile g None s (-2); b = pt_value (g_pt g (seg_start g s));
       (val2, s2) = (if v \<noteq> INT_MAX \<and> b \<noteq> INT_MAX then
          (let v = avoid (cdiv (i32 (v * ri_percent pos)) 100) (ri_street_direction pos > 0); n = i32 (b + v)
           in if n < val2 then (n, Some s) else (val2, s2)) else (val2, s2))
     in ((val1, s1), (val2, s2)))"

text \<open>The walk along \<open>seg\<close>; \<open>left\<close> is \<open>max_segs - segs\<close>, the flag of the
  result is False after the abort.\<close>

record walk_state =
  ws_path :: route_path
  ws_old :: "route_path option"
  ws_pos :: "route_info option"
  ws_posdir :: int
  ws_graph :: route_graph

fun path_walk ::
  "(item \<Rightarrow> coord list) \<Rightarrow> route_info \<Rightarrow> nat \<Rightarrow> nat option \<Rightarrow> nat \<Rightarrow> bool \<Rightarrow> walk_state \<Rightarrow> (bool \<times> walk_state) option" where
  "path_walk coords_of dst left None start stop w = Some (True, w)"
| "path_walk coords_of dst left (Some s) start True w = Some (True, w)"
| "path_walk coords_of dst 0 (Some s) start False w = Some (False, w)"
| "path_walk coords_of dst (Suc left) (Some s) start False w =
     (let g = ws_graph w; fwd = (seg_start g s = start);
          nxt = (if fwd then seg_end g s else seg_start g s);
          final = (item_is_equal (seg_item g s) (st_item (the (ri_street dst)))
             \<and> (pt_seg (g_pt g nxt) = Some s \<or> ws_pos w = None))
      in Option.bind (route_path_add_item_from_graph coords_of (ws_path w) (ws_old w) s (if fwd then 1 else -1)
             (ws_pos w) (if final then Some dst else None) g)
           (\<lambda>r. let p = ar_path r; p = (if \<not> ar_ret r then p\<lparr>pa_updated := False\<rparr> else p)
                in path_walk coords_of dst left (pt_seg (g_pt (ar_graph r) nxt)) nxt final
                     \<lparr>ws_path = p, ws_old = ar_old r, ws_pos = None,
                      ws_posdir = (if ws_pos w = None then ws_posdir w else ar_dir r), ws_graph = ar_graph r\<rparr>))"

definition path_start ::
  "(int \<times> nat option) \<times> (int \<times> nat option) \<Rightarrow> route_graph \<Rightarrow> (nat \<times> nat \<times> int) option" where
  "path_start cands g = (let ((val1, s1), (val2, s2)) = cands;
       (val1, val2) = (if val1 = val2 then (pt_value (g_pt g (seg_end g (the s1))), pt_value (g_pt g (seg_start g (the s2))))
                       else (val1, val2))
     in if val1 < val2 then map_option (\<lambda>s. (s, seg_start g s, 1)) s1 else map_option (\<lambda>s. (s, seg_end g s, -1)) s2)"

definition path_walk_all ::
  "(item \<Rightarrow> coord list) \<Rightarrow> route_path option \<Rightarrow> route_info \<Rightarrow> route_info \<Rightarrow> nat \<Rightarrow> nat \<Rightarrow> route_graph
   \<Rightarrow> (route_path option \<times> route_path option \<times> int \<times> route_graph) option" where
  "path_walk_all coords_of oldpath pos dst s start g = do {
     let ret = (if ri_lenextra pos \<noteq> 0 then route_path_add_line route_path_empty (ri_c pos) (ri_lp pos) (ri_lenextra pos)
                else route_path_empty);
     (done, w) \<leftarrow> path_walk coords_of dst (route_graph_count_points g) (Some s) start False
        \<lparr>ws_path = ret, ws_old = oldpath, ws_pos = Some pos, ws_posdir = ri_dir pos, ws_graph = g\<rparr>;
     let ret = (if ri_lenextra dst \<noteq> 0 then route_path_add_line (ws_path w) (ri_lp dst) (ri_c dst) (ri_lenextra dst)
                else ws_path w);
     Some (if done then Some ret else None, ws_old w, ws_posdir w, ws_graph w)
   }"

text \<open>
  \<open>route_path_new\<close>: the path (or NULL), what is left of the old path, the direction stored in
  the position, and the graph. \<open>tdist\<close> is \<open>transform_distance\<close> in the projection of the street.
\<close>

partial_function (option) route_path_new ::
  "((nat \<times> int \<times> nat) list \<Rightarrow> nat) \<Rightarrow> (coord \<Rightarrow> coord \<Rightarrow> rat) \<Rightarrow> (item \<Rightarrow> coord list) \<Rightarrow> vehicleprofile \<Rightarrow>
   route_path option \<Rightarrow> route_info \<Rightarrow> route_info \<Rightarrow> route_graph
   \<Rightarrow> (route_path option \<times> route_path option \<times> int \<times> route_graph) option" where
  "route_path_new pick tdist coords_of profile oldpath pos dst g =
     (case (ri_street pos, ri_street dst) of
        (Some ps, Some ds) \<Rightarrow>
          if vp_mode profile = 2 \<or> vp_mode profile = 0
             \<and> tdist (ri_c pos) (ri_c dst) < of_int (i32 (ri_lenextra pos + ri_lenextra dst))
          then Some (Some (route_path_new_offroad pos dst), oldpath, ri_dir pos, g)
          else (let cands = fold (path_cands profile pos g) (all_segments_of g ps) ((INT_MAX, None), (INT_MAX, None)) in
            if fst (fst cands) = INT_MAX \<and> fst (snd cands) = INT_MAX then Some (None, oldpath, ri_dir pos, g)
            else (case path_start cands g of
              None \<Rightarrow> None
            | Some (s, start, dir) \<Rightarrow>
                if ri_street_direction pos \<noteq> 0 \<and> dir \<noteq> ri_street_direction pos \<and> vp_turn_around_penalty profile \<noteq> 0
                   \<and> \<not> route_graph_segment_match g (g_avoid_seg g) (Some s)
                then Option.bind (case g_avoid_seg g of None \<Rightarrow> Some g | Some a \<Rightarrow> route_graph_set_traffic_distortion a 0 g)
                  (\<lambda>g. Option.bind (route_graph_set_traffic_distortion s (vp_turn_around_penalty profile) (g\<lparr>g_avoid_seg := Some s\<rparr>))
                  (\<lambda>g. Option.bind (route_graph_compute_shortest_path pick profile
                          (route_graph_init profile ds (ri_percent dst) (route_graph_reset g)))
                  (\<lambda>g. route_path_new pick tdist coords_of profile oldpath pos dst g)))
                else path_walk_all coords_of oldpath pos dst s start g))
      | _ \<Rightarrow> Some (None, oldpath, ri_dir pos, g))"

end
