(* ===== verification/Route_Path_Inv.thy ===== *)
theory Route_Path_Inv
  imports Route_Path Route_Search
begin

text \<open>
  Lemmas on the route path: the roundabout check changes flags only and flags segments of directed
  cycles, positions inside their streets give coordinates, and the walk ends on a flooded graph.
\<close>

unbundle bit_operations_syntax

section \<open>The roundabout check changes flags only\<close>

definition same_links :: "route_graph \<Rightarrow> route_graph \<Rightarrow> bool" where
  "same_links g g' \<longleftrightarrow> g_pt g' = g_pt g \<and> g_np g' = g_np g \<and> g_ns g' = g_ns g \<and> g_hash g' = g_hash g
     \<and> (\<forall>s. seg_start g' s = seg_start g s \<and> seg_end g' s = seg_end g s \<and> seg_item g' s = seg_item g s
          \<and> sd_tail (sg_data (g_seg g' s)) = sd_tail (sg_data (g_seg g s))
          \<and> (seg_flags g' s = seg_flags g s \<or> seg_flags g' s = seg_flags g s OR AF_ROUNDABOUT))"

lemma same_links_refl [simp]: "same_links g g" by (simp add: same_links_def)

lemma same_links_trans: "same_links a b \<Longrightarrow> same_links b c \<Longrightarrow> same_links a c"
proof -
  have flags: "z = x \<or> z = x OR AF_ROUNDABOUT" if "y = x \<or> y = x OR AF_ROUNDABOUT" "z = y \<or> z = y OR AF_ROUNDABOUT" for x y z
  proof -
    have "(x OR AF_ROUNDABOUT) OR AF_ROUNDABOUT = x OR AF_ROUNDABOUT" by (simp only: or.assoc or.idem)
    then show ?thesis using that by metis
  qed
  assume ab: "same_links a b" and bc: "same_links b c"
  have "seg_flags c s = seg_flags a s \<or> seg_flags c s = seg_flags a s OR AF_ROUNDABOUT" for s
    by (rule flags [of "seg_flags b s"]) (use ab bc in \<open>unfold same_links_def, blast+\<close>)
  then show "same_links a c" using ab bc unfolding same_links_def by metis
qed

lemma same_links_set [simp]: "same_links g (set_roundabout s g)"
  by (simp add: same_links_def set_roundabout_def upd_seg_data_def)

lemma same_linksD:
  assumes "same_links g g'"
  shows "g_pt g' = g_pt g" "seg_start g' s = seg_start g s" "seg_end g' s = seg_end g s" "seg_item g' s = seg_item g s"
    "g_np g' = g_np g" "g_hash g' = g_hash g" "g_ns g' = g_ns g"
  using assms by (auto simp: same_links_def)

lemma check_roundabout_links:
  "same_links g (snd (route_check_roundabout level seg direction origin g))"
  "same_links g (snd (roundabout_scan level seg org its g))"
proof (induction level seg direction origin g and level seg org its g rule: route_check_roundabout_roundabout_scan.induct)
  case (2 level seg direction origin g)
  then show ?case by (cases direction) (auto simp: Let_def)
next
  case (4 level seg org s e its g)
  obtain r h where r: "route_check_roundabout level s e (Some org) g = (r, h)" by force
  show ?case
  proof (cases "s = seg \<or> it_type (seg_item g s) \<noteq> it_type (seg_item g org) \<or> s = org")
    case True
    then show ?thesis using 4(1,2) by auto
  next
    case False
    then have h: "same_links g h" using 4(3) r by simp
    show ?thesis
    proof (cases r)
      case True
      then show ?thesis using False r same_links_trans [OF h same_links_set] by simp
    next
      case c: False
      then have "same_links h (snd (roundabout_scan level seg org its h))" using 4(4) False r by simp
      then show ?thesis using False c r same_links_trans [OF h] by simp
    qed
  qed
qed (simp_all add: Let_def)

section \<open>The roundabout check finds directed cycles\<close>

text \<open>
  \<open>(t, e)\<close> follows \<open>(s, d)\<close>: the segment \<open>t\<close> meets the far end of \<open>s\<close> and has its type;
  \<open>d\<close> says that the segment is entered through its end.
\<close>

definition rnd_next :: "route_graph \<Rightarrow> nat \<times> bool \<Rightarrow> nat \<times> bool \<Rightarrow> bool" where
  "rnd_next g a b \<longleftrightarrow> b \<in> set (rp_items g (if \<not> snd a then seg_end g (fst a) else seg_start g (fst a))) \<and> fst b \<noteq> fst a
     \<and> length (rp_items g (if \<not> snd a then seg_end g (fst a) else seg_start g (fst a))) \<le> 3"

definition rnd_oneway :: "route_graph \<Rightarrow> nat \<times> bool \<Rightarrow> bool" where
  "rnd_oneway g a \<longleftrightarrow> has_flag (seg_flags g (fst a)) (if snd a then AF_ONEWAYREV else AF_ONEWAY)
     \<and> \<not> has_flag (seg_flags g (fst a)) AF_ROUNDABOUT_VALID"

text \<open>A chain of at most \<open>n\<close> one-way segments of one type from \<open>a\<close> back to the segment \<open>org\<close>.\<close>

inductive rnd_chain :: "route_graph \<Rightarrow> nat \<Rightarrow> nat \<Rightarrow> nat \<times> bool \<Rightarrow> bool" for g org where
  rnd_last: "rnd_oneway g a \<Longrightarrow> rnd_next g a (org, e) \<Longrightarrow> rnd_chain g org (Suc n) a"
| rnd_step: "rnd_oneway g a \<Longrightarrow> rnd_next g a b \<Longrightarrow> it_type (seg_item g (fst b)) = it_type (seg_item g org) \<Longrightarrow>
    rnd_chain g org n b \<Longrightarrow> rnd_chain g org (Suc n) a"

lemma has_flag_or_roundabout:
  "has_flag (w OR AF_ROUNDABOUT) AF_ONEWAY = has_flag w AF_ONEWAY"
  "has_flag (w OR AF_ROUNDABOUT) AF_ONEWAYREV = has_flag w AF_ONEWAYREV"
  "has_flag (w OR AF_ROUNDABOUT) AF_ROUNDABOUT_VALID = has_flag w AF_ROUNDABOUT_VALID"
  by (simp_all add: af_defs bit.conj_disj_distrib2)

lemma rnd_links:
  assumes "same_links g g'"
  shows "rnd_oneway g' a = rnd_oneway g a" "rnd_next g' a b = rnd_next g a b" "rp_items g' p = rp_items g p"
proof -
  have "seg_flags g' s = seg_flags g s \<or> seg_flags g' s = seg_flags g s OR AF_ROUNDABOUT" for s
    using assms by (simp add: same_links_def)
  then have "has_flag (seg_flags g' s) f = has_flag (seg_flags g s) f" if "f \<in> {AF_ONEWAY, AF_ONEWAYREV, AF_ROUNDABOUT_VALID}" for s f
    using that has_flag_or_roundabout by (metis empty_iff insert_iff)
  then show "rnd_oneway g' a = rnd_oneway g a" by (simp add: rnd_oneway_def)
  show p: "rp_items g' p = rp_items g p" for p by (simp add: rp_items_def same_linksD [OF assms])
  show "rnd_next g' a b = rnd_next g a b" unfolding rnd_next_def p same_linksD(2,3) [OF assms] by (rule refl)
qed

lemma set_roundabout_flag [simp]: "has_flag (seg_flags (set_roundabout s g) s) AF_ROUNDABOUT"
  by (simp add: set_roundabout_def upd_seg_data_def af_defs bit.conj_disj_distrib2)

inductive_cases rnd_chain_0: "rnd_chain g org 0 a"

lemma rnd_chain_unfold:
  "rnd_chain g org (Suc n) a \<longleftrightarrow> rnd_oneway g a \<and> (\<exists>b. rnd_next g a b
     \<and> it_type (seg_item g (fst b)) = it_type (seg_item g org) \<and> (fst b = org \<or> rnd_chain g org n b))"
proof
  assume "rnd_chain g org (Suc n) a"
  then show "rnd_oneway g a \<and> (\<exists>b. rnd_next g a b
     \<and> it_type (seg_item g (fst b)) = it_type (seg_item g org) \<and> (fst b = org \<or> rnd_chain g org n b))"
    by (cases rule: rnd_chain.cases) (force, blast)
next
  assume "rnd_oneway g a \<and> (\<exists>b. rnd_next g a b
     \<and> it_type (seg_item g (fst b)) = it_type (seg_item g org) \<and> (fst b = org \<or> rnd_chain g org n b))"
  then show "rnd_chain g org (Suc n) a"
    by (metis prod.collapse rnd_last rnd_step)
qed

lemma check_roundabout_chain:
  "(fst (route_check_roundabout level seg direction origin g)
       \<longleftrightarrow> rnd_chain g (case origin of None \<Rightarrow> seg | Some s \<Rightarrow> s) level (seg, direction))
     \<and> (if fst (route_check_roundabout level seg direction origin g)
        then has_flag (seg_flags (snd (route_check_roundabout level seg direction origin g)) seg) AF_ROUNDABOUT
        else snd (route_check_roundabout level seg direction origin g) = g)"
  "(fst (roundabout_scan level seg org its g)
       \<longleftrightarrow> (\<exists>b\<in>set its. fst b \<noteq> seg \<and> it_type (seg_item g (fst b)) = it_type (seg_item g org)
             \<and> (fst b = org \<or> rnd_chain g org level b)))
     \<and> (if fst (roundabout_scan level seg org its g)
        then has_flag (seg_flags (snd (roundabout_scan level seg org its g)) seg) AF_ROUNDABOUT
        else snd (roundabout_scan level seg org its g) = g)"
proof (induction level seg direction origin g and level seg org its g rule: route_check_roundabout_roundabout_scan.induct)
  case (1 seg direction origin g)
  then show ?case by (auto elim: rnd_chain_0)
next
  case (2 level seg direction origin g)
  let ?org = "case origin of None \<Rightarrow> seg | Some s \<Rightarrow> s"
  let ?its = "rp_items g (if \<not> direction then seg_end g seg else seg_start g seg)"
  show ?case
  proof (cases "rnd_oneway g (seg, direction) \<and> length ?its \<le> 3")
    case True
    then have eq: "route_check_roundabout (Suc level) seg direction origin g = roundabout_scan level seg ?org ?its g"
      by (cases direction) (auto simp: rnd_oneway_def Let_def)
    have IH: "(fst (roundabout_scan level seg ?org ?its g)
       \<longleftrightarrow> (\<exists>b\<in>set ?its. fst b \<noteq> seg \<and> it_type (seg_item g (fst b)) = it_type (seg_item g ?org)
             \<and> (fst b = ?org \<or> rnd_chain g ?org level b)))
     \<and> (if fst (roundabout_scan level seg ?org ?its g)
        then has_flag (seg_flags (snd (roundabout_scan level seg ?org ?its g)) seg) AF_ROUNDABOUT
        else snd (roundabout_scan level seg ?org ?its g) = g)"
      using True by (intro 2) (auto simp: rnd_oneway_def split: if_splits)
    have "(\<exists>b\<in>set ?its. fst b \<noteq> seg \<and> it_type (seg_item g (fst b)) = it_type (seg_item g ?org)
             \<and> (fst b = ?org \<or> rnd_chain g ?org level b)) \<longleftrightarrow> rnd_chain g ?org (Suc level) (seg, direction)"
      using True unfolding rnd_chain_unfold rnd_next_def fst_conv snd_conv by blast
    then show ?thesis using IH unfolding eq by blast
  next
    case False
    then have "route_check_roundabout (Suc level) seg direction origin g = (False, g)"
      by (cases direction) (auto simp: rnd_oneway_def Let_def)
    moreover have "\<not> rnd_chain g ?org (Suc level) (seg, direction)"
      using False unfolding rnd_chain_unfold rnd_next_def by auto
    ultimately show ?thesis by simp
  qed
next
  case (4 level seg org s e its g)
  obtain r h where r: "route_check_roundabout level s e (Some org) g = (r, h)" by force
  show ?case
  proof (cases "s = seg \<or> it_type (seg_item g s) \<noteq> it_type (seg_item g org) \<or> s = org")
    case True
    then show ?thesis using 4(1,2) by auto
  next
    case False
    then have c: "r = rnd_chain g org level (s, e)" "\<not> r \<Longrightarrow> h = g" using 4(3) r by auto
    show ?thesis
    proof (cases r)
      case True
      then show ?thesis using False r c by auto
    next
      case nr: False
      then have "h = g" using c by simp
      then show ?thesis using False nr c r 4(4) by auto
    qed
  qed
qed auto

section \<open>Coordinates\<close>

text \<open>A position on a street, not behind its last but one coordinate; two of them on one street, in order.\<close>

definition street_pos :: "route_info \<Rightarrow> bool" where
  "street_pos i \<longleftrightarrow> (\<exists>st. ri_street i = Some st \<and> 0 \<le> ri_pos i \<and> ri_pos i + 1 < int (length (st_c st)))"

definition street_ordered :: "route_info \<Rightarrow> route_info \<Rightarrow> bool" where
  "street_ordered p d \<longleftrightarrow> st_c (the (ri_street p)) = st_c (the (ri_street d))
     \<and> (if ri_lenneg p \<le> ri_lenneg d then ri_pos p \<le> ri_pos d else ri_pos d \<le> ri_pos p)"

lemma take_upto_length: "length (take_upto n b cs) \<le> nat n"
  by (induction n b cs rule: take_upto.induct) auto

lemma path_coords_Some:
  assumes "\<And>p. pos = Some p \<Longrightarrow> street_pos p" "\<And>d. dst = Some d \<Longrightarrow> street_pos d"
    and "\<And>p d. pos = Some p \<Longrightarrow> dst = Some d \<Longrightarrow> street_ordered p d"
  shows "\<exists>out. path_coords (path_range coords_of g s dir pos dst) pos dst = Some out"
  using assms
  by (cases pos; cases dst)
    (fastforce simp: path_coords_def path_range_def street_pos_def street_ordered_def Let_def)+

lemma add_item_Some:
  assumes "\<And>p. pos = Some p \<Longrightarrow> street_pos p" "\<And>d. dst = Some d \<Longrightarrow> street_pos d"
    and "\<And>p d. pos = Some p \<Longrightarrow> dst = Some d \<Longrightarrow> street_ordered p d"
  shows "\<exists>r. route_path_add_item_from_graph coords_of this oldpath s dir pos dst g = Some r \<and> same_links g (ar_graph r)"
proof -
  obtain out where out: "path_coords (path_range coords_of g s dir pos dst) pos dst = Some out"
    using path_coords_Some [OF assms] by blast
  obtain a b where t: "take_old oldpath (sg_data (g_seg g s)) dir = (a, b)" by force
  show ?thesis
    using out check_roundabout_links(1) [of g]
    by (cases a; cases pos) (auto simp: route_path_add_item_from_graph_def t Let_def)
qed

section \<open>The walk ends\<close>

lemma hash_points_count:
  assumes "graph_wf g" shows "route_graph_count_points g = g_np g"
proof -
  have "distinct (concat (map (g_hash g) is))" if "distinct is" for "is"
    using that assms by (induction "is") (auto simp: graph_wf_def hash_wf_def)
  then have d: "distinct (hashed_points g)" by (simp add: hashed_points_def)
  have "p \<in> set (hashed_points g) \<longleftrightarrow> p < g_np g" for p
    using assms HASHCOORD_range [of "pt_c (g_pt g p)"]
    by (auto simp: hashed_points_def graph_wf_def hash_wf_def)
  then have "set (hashed_points g) = {..<g_np g}" by auto
  then have "length (hashed_points g) = g_np g" using distinct_card [OF d] by simp
  moreover have "length (hashed_points g) = route_graph_count_points g"
    by (simp add: hashed_points_def route_graph_count_points_def length_concat o_def)
  ultimately show ?thesis by simp
qed

text \<open>What the walk needs of a flooded graph; \<open>search_result\<close> gives it.\<close>

definition walkable :: "route_graph \<Rightarrow> item \<Rightarrow> bool" where
  "walkable g it \<longleftrightarrow> (\<forall>p. pt_value (g_pt g p) \<noteq> INT_MAX \<longrightarrow> p < g_np g \<and> (\<exists>s. pt_seg (g_pt g p) = Some s
     \<and> (item_is_equal (seg_item g s) it
        \<or> (seg_start g s = p \<longrightarrow> pt_value (g_pt g (seg_end g s)) < pt_value (g_pt g p) \<and> pt_value (g_pt g (seg_end g s)) \<noteq> INT_MAX)
        \<and> (seg_start g s \<noteq> p \<longrightarrow> pt_value (g_pt g (seg_start g s)) < pt_value (g_pt g p) \<and> pt_value (g_pt g (seg_start g s)) \<noteq> INT_MAX))))"

text \<open>One step of the walk, on a graph that differs from \<open>g\<close> in roundabout flags only.\<close>

lemma walk_step:
  assumes "same_links g (ws_graph w)" and "\<And>p. ws_pos w = Some p \<Longrightarrow> street_pos p" and "street_pos dst"
    and "\<And>p. ws_pos w = Some p \<Longrightarrow> item_is_equal (seg_item g s) (st_item (the (ri_street dst))) \<Longrightarrow> street_ordered p dst"
    and "nxt = (if seg_start g s = p then seg_end g s else seg_start g s)"
    and "final = (item_is_equal (seg_item g s) (st_item (the (ri_street dst))) \<and> (pt_seg (g_pt g nxt) = Some s \<or> ws_pos w = None))"
  shows "\<exists>w1. path_walk coords_of dst (Suc left) (Some s) p False w
      = path_walk coords_of dst left (pt_seg (g_pt g nxt)) nxt final w1 \<and> same_links g (ws_graph w1) \<and> ws_pos w1 = None"
proof -
  note lk = same_linksD [OF assms(1)]
  have "\<exists>r. route_path_add_item_from_graph coords_of (ws_path w) (ws_old w) s (if seg_start g s = p then 1 else -1) (ws_pos w)
      (if final then Some dst else None) (ws_graph w) = Some r \<and> same_links (ws_graph w) (ar_graph r)"
    using assms(2-4,6) by (intro add_item_Some) (auto split: if_splits)
  then obtain r where r: "route_path_add_item_from_graph coords_of (ws_path w) (ws_old w) s (if seg_start g s = p then 1 else -1) (ws_pos w)
      (if final then Some dst else None) (ws_graph w) = Some r" "same_links (ws_graph w) (ar_graph r)" by blast
  have lr: "same_links g (ar_graph r)" by (rule same_links_trans [OF assms(1) r(2)])
  show ?thesis
    using r(1) lr assms(5,6) by (auto simp: lk same_linksD [OF lr] Let_def)
qed

lemma walk_rest:
  assumes w: "walkable g (st_item (the (ri_street dst)))" and d: "street_pos dst"
  shows "pt_value (g_pt g p) \<noteq> INT_MAX \<Longrightarrow> same_links g (ws_graph w) \<Longrightarrow> ws_pos w = None
    \<Longrightarrow> card {q. q < g_np g \<and> pt_value (g_pt g q) \<le> pt_value (g_pt g p)} \<le> left
    \<Longrightarrow> \<exists>w'. path_walk coords_of dst left (pt_seg (g_pt g p)) p False w = Some (True, w')"
proof (induction left arbitrary: p w)
  case 0
  then have "p \<in> {q. q < g_np g \<and> pt_value (g_pt g q) \<le> pt_value (g_pt g p)}" using w by (auto simp: walkable_def)
  moreover have "finite {q. q < g_np g \<and> pt_value (g_pt g q) \<le> pt_value (g_pt g p)}" by simp
  ultimately have "0 < card {q. q < g_np g \<and> pt_value (g_pt g q) \<le> pt_value (g_pt g p)}"
    by (metis card_gt_0_iff empty_iff)
  then show ?case using 0(4) by linarith
next
  case (Suc left)
  obtain s where p: "p < g_np g" and s: "pt_seg (g_pt g p) = Some s"
    and alt: "item_is_equal (seg_item g s) (st_item (the (ri_street dst)))
        \<or> (seg_start g s = p \<longrightarrow> pt_value (g_pt g (seg_end g s)) < pt_value (g_pt g p) \<and> pt_value (g_pt g (seg_end g s)) \<noteq> INT_MAX)
        \<and> (seg_start g s \<noteq> p \<longrightarrow> pt_value (g_pt g (seg_start g s)) < pt_value (g_pt g p) \<and> pt_value (g_pt g (seg_start g s)) \<noteq> INT_MAX)"
    using w Suc.prems(1) unfolding walkable_def by blast
  let ?nxt = "if seg_start g s = p then seg_end g s else seg_start g s"
  let ?final = "item_is_equal (seg_item g s) (st_item (the (ri_street dst)))"
  have step: "\<exists>w1. path_walk coords_of dst (Suc left) (pt_seg (g_pt g p)) p False w
      = path_walk coords_of dst left (pt_seg (g_pt g ?nxt)) ?nxt ?final w1 \<and> same_links g (ws_graph w1) \<and> ws_pos w1 = None"
    unfolding s by (rule walk_step [OF Suc.prems(2) _ d _ refl]) (use Suc.prems(3) in auto)
  show ?case
  proof (cases ?final)
    case True
    then show ?thesis using step by (cases "pt_seg (g_pt g ?nxt)") fastforce+
  next
    case False
    then have lt: "pt_value (g_pt g ?nxt) < pt_value (g_pt g p)" "pt_value (g_pt g ?nxt) \<noteq> INT_MAX" using alt by auto
    have "{q. q < g_np g \<and> pt_value (g_pt g q) \<le> pt_value (g_pt g ?nxt)} \<subset> {q. q < g_np g \<and> pt_value (g_pt g q) \<le> pt_value (g_pt g p)}"
    proof
      show "{q. q < g_np g \<and> pt_value (g_pt g q) \<le> pt_value (g_pt g ?nxt)} \<subseteq> {q. q < g_np g \<and> pt_value (g_pt g q) \<le> pt_value (g_pt g p)}"
        using lt(1) by auto
      have "p \<in> {q. q < g_np g \<and> pt_value (g_pt g q) \<le> pt_value (g_pt g p)}" using p by simp
      moreover have "p \<notin> {q. q < g_np g \<and> pt_value (g_pt g q) \<le> pt_value (g_pt g ?nxt)}" using lt(1) by simp
      ultimately show "{q. q < g_np g \<and> pt_value (g_pt g q) \<le> pt_value (g_pt g ?nxt)} \<noteq> {q. q < g_np g \<and> pt_value (g_pt g q) \<le> pt_value (g_pt g p)}"
        by blast
    qed
    then have "card {q. q < g_np g \<and> pt_value (g_pt g q) \<le> pt_value (g_pt g ?nxt)} < Suc left"
      using Suc.prems(4) by (intro order.strict_trans2 [OF psubset_card_mono]) auto
    then show ?thesis using step Suc.IH [OF lt(2)] False by fastforce
  qed
qed

lemma search_walkable:
  assumes r: "search_result profile g0 g" and reg: "regular profile g0 W"
    and it: "\<And>p s. pt_dst_seg (g_pt g0 p) = Some s \<Longrightarrow> item_is_equal (seg_item g0 s) it"
  shows "walkable g it"
  unfolding walkable_def
proof (intro allI impI)
  fix p assume v: "pt_value (g_pt g p) \<noteq> INT_MAX"
  have st: "same_static g0 g" using r by (simp add: search_result_def)
  note e = same_staticD [OF st]
  have "\<forall>p. if pt_value (g_pt g p) = INT_MAX then \<not> (\<exists>v. drive profile g0 p v)
     else pt_value (g_pt g p) < INT_MAX \<and> drive profile g0 p (pt_value (g_pt g p)) \<and> (\<forall>v. drive profile g0 p v \<longrightarrow> pt_value (g_pt g p) \<le> v)
       \<and> (pt_value (g_pt g p) = pt_dst_val (g_pt g0 p) \<and> pt_seg (g_pt g p) = pt_dst_seg (g_pt g0 p)
          \<or> (\<exists>ds\<in>set (incident g0 p). pt_seg (g_pt g p) = Some (snd ds) \<and> weight profile g0 ds \<noteq> INT_MAX
               \<and> pt_value (g_pt g (other g0 ds)) < pt_value (g_pt g p)
               \<and> pt_value (g_pt g p) = weight profile g0 ds + pt_value (g_pt g (other g0 ds))))"
    using r unfolding search_result_def by blast
  note rp = spec [OF this, of p, unfolded if_not_P [OF v]]
  have lt: "pt_value (g_pt g p) < INT_MAX" using rp by blast
  consider (dst) "pt_value (g_pt g p) = pt_dst_val (g_pt g0 p)" "pt_seg (g_pt g p) = pt_dst_seg (g_pt g0 p)"
    | (nxt) ds where "ds \<in> set (incident g0 p)" "pt_seg (g_pt g p) = Some (snd ds)" "weight profile g0 ds \<noteq> INT_MAX"
        "pt_value (g_pt g (other g0 ds)) < pt_value (g_pt g p)"
    using rp by blast
  then show "p < g_np g \<and> (\<exists>s. pt_seg (g_pt g p) = Some s
     \<and> (item_is_equal (seg_item g s) it
        \<or> (seg_start g s = p \<longrightarrow> pt_value (g_pt g (seg_end g s)) < pt_value (g_pt g p) \<and> pt_value (g_pt g (seg_end g s)) \<noteq> INT_MAX)
        \<and> (seg_start g s \<noteq> p \<longrightarrow> pt_value (g_pt g (seg_start g s)) < pt_value (g_pt g p) \<and> pt_value (g_pt g (seg_start g s)) \<noteq> INT_MAX)))"
  proof cases
    case dst
    have "\<forall>p. if pt_dst_val (g_pt g0 p) = INT_MAX then pt_dst_seg (g_pt g0 p) = None
          else p < g_np g0 \<and> 0 \<le> pt_dst_val (g_pt g0 p) \<and> pt_dst_val (g_pt g0 p) \<le> W
            \<and> (\<exists>s. pt_dst_seg (g_pt g0 p) = Some s \<and> usable profile g0 s)"
      using reg unfolding regular_def by blast
    then obtain s where "p < g_np g0" "pt_dst_seg (g_pt g0 p) = Some s" using v dst(1) by metis
    then show ?thesis using dst it by (auto simp: e)
  next
    case nxt
    have adj: "adj_wf g0" and ends: "\<forall>s<g_ns g0. seg_start g0 s < g_np g0 \<and> seg_end g0 s < g_np g0"
      using reg unfolding regular_def by blast+
    note c = incident_cases [OF nxt(1) adj]
    have ne: "seg_start g0 (snd ds) \<noteq> seg_end g0 (snd ds)" using nxt(3) by (auto simp: weight_def)
    show ?thesis using c ne ends nxt(2,4) lt by (auto simp: e seg_other_def)
  qed
qed

end
