(* ===== verification/Route_Path_Spec.thy ===== *)
theory Route_Path_Spec
  imports Route_Path_Inv Route_Spec
begin

text \<open>
  Properties of the route path: the walk along the flooded graph reaches the destination, the
  coordinates of a segment fit into the memory allocated for them, the roundabout check decides
  whether a segment lies on a short directed cycle, and two defects of the code on examples.
\<close>

section \<open>The walk\<close>

lemma count_points_init: "route_graph_count_points (route_graph_init profile street percent g) = route_graph_count_points g"
proof -
  have "g_hash (fold (init_segment profile percent) ss g) = g_hash g" for ss
    by (induction ss arbitrary: g) (auto simp: init_segment_def init_point_def Let_def split: prod.splits)
  then show ?thesis by (simp add: route_graph_count_points_def route_graph_init_def)
qed

lemma pipeline_walkable:
  assumes "heap_pick pick" and "regular profile g W" and "fresh g" and "100 * W \<le> INT_MAX"
    and "all_segments_of g street = [sd]" and "sd < g_ns g" and "seg_start g sd \<noteq> seg_end g sd"
    and "0 \<le> percent" and "percent \<le> 100"
    and "route_graph_compute_shortest_path pick profile (route_graph_init profile street percent g) = Some g'"
  shows "walkable g' (st_item street)" "g_np g' = g_np g" "route_graph_count_points g' = route_graph_count_points g"
    "seg_start g' s = seg_start g s" "seg_end g' s = seg_end g s" "seg_item g' s = seg_item g s"
proof -
  let ?gi = "route_graph_init profile street percent g"
  note i = init_ready(1) [OF assms(2-9)] and regi = init_ready(2) [OF assms(2-9)]
  have r: "search_result profile ?gi g'" using heap_pick.search_correct [OF assms(1-9)] assms(10) by auto
  have st: "same_static ?gi g'" using r by (simp add: search_result_def)
  have ss: "same_struct g ?gi" using i by (simp add: init_state_def)
  have "item_is_equal (st_item street) (seg_item g sd)"
  proof -
    have "sd \<in> set (all_segments_of g street)" by (simp add: assms(5))
    then show ?thesis by (simp add: all_segments_of_def)
  qed
  then have it: "item_is_equal (seg_item ?gi sd) (st_item street)"
    using ss item_is_equal_sym by (simp add: same_struct_def)
  have "s = sd" if "pt_dst_seg (g_pt ?gi p) = Some s" for p s
    using that i unfolding init_state_def
    by (cases "dst_costs profile g percent sd p") (auto simp: fresh_pt_def dest!: spec [of _ p])
  then show "walkable g' (st_item street)" using search_walkable [OF r regi] it by blast
  show "g_np g' = g_np g" "seg_start g' s = seg_start g s" "seg_end g' s = seg_end g s" "seg_item g' s = seg_item g s"
    using same_staticD [OF st] ss by (simp_all add: same_struct_def)
  show "route_graph_count_points g' = route_graph_count_points g"
    using count_points_init [of profile street percent g] same_staticD(10) [OF st] by (simp add: route_graph_count_points_def)
qed


definition ex_pos :: route_info where
  "ex_pos = \<lparr>ri_c = \<lparr>cx = 5, cy = 0\<rparr>, ri_lp = \<lparr>cx = 5, cy = 0\<rparr>, ri_pos = 0, ri_lenpos = 50, ri_lenneg = 50, ri_lenextra = 0,
     ri_percent = 50, ri_street = Some \<lparr>st_item = ex_item 0x80000008 1, st_flags = 0xFFF00000, st_maxspeed = -1,
       st_c = [\<lparr>cx = 0, cy = 0\<rparr>, \<lparr>cx = 10, cy = 0\<rparr>]\<rparr>, ri_street_direction = 0, ri_dir = 0\<rparr>"

definition ex_dst :: route_info where
  "ex_dst = \<lparr>ri_c = \<lparr>cx = 15, cy = 0\<rparr>, ri_lp = \<lparr>cx = 15, cy = 0\<rparr>, ri_pos = 0, ri_lenpos = 100, ri_lenneg = 100, ri_lenextra = 0,
     ri_percent = 50, ri_street = Some ex_street, ri_street_direction = 0, ri_dir = 0\<rparr>"

lemma ex_dst_costs: "dst_costs ex_car ex_graph 50 1 = [2 \<mapsto> 100, 1 \<mapsto> 100]"
  by (simp add: dst_costs_def ex_graph_values ex_graph_fields INT_MAX_def del: One_nat_def)

lemma ex_incident: "incident ex_graph 0 = [(1, 0)]"
  by code_simp

text \<open>After the search the point 1 is nearer to the destination than the point 0.\<close>

lemma ex_search:
  assumes "route_graph_compute_shortest_path first_min ex_car (route_graph_init ex_car ex_street 50 ex_graph) = Some g'"
  shows "pt_value (g_pt g' 1) \<noteq> INT_MAX" "pt_value (g_pt g' 1) < pt_value (g_pt g' 0)"
proof -
  let ?gi = "route_graph_init ex_car ex_street 50 ex_graph"
  have hyp: "regular ex_car ex_graph 200" "fresh ex_graph" "100 * 200 \<le> INT_MAX" "all_segments_of ex_graph ex_street = [1]"
    "1 < g_ns ex_graph" "seg_start ex_graph 1 \<noteq> seg_end ex_graph 1" "0 \<le> (50 :: int)" "(50 :: int) \<le> 100"
    using ex_regular ex_fresh ex_street_segment by (simp_all add: ex_graph_fields INT_MAX_def)
  have r: "search_result ex_car ?gi g'"
    using heap_pick.search_correct [OF fm.heap_pick_axioms hyp] assms by auto
  have i: "init_state 1 [2 \<mapsto> 100, 1 \<mapsto> 100] ex_graph ?gi"
    using init_ready(1) [OF hyp] unfolding ex_dst_costs .
  have d: "pt_dst_val (g_pt ?gi 1) = 100" "pt_dst_val (g_pt ?gi 0) = INT_MAX"
    using i unfolding init_state_def by (auto simp: fresh_pt_def dest: spec [of _ 1] spec [of _ 0])
  have ss: "same_struct ex_graph ?gi" using i by (simp add: init_state_def)
  have "other ex_graph (1, 0) = 1" by (simp add: seg_other_def ex_graph_fields)
  then have inc: "incident ?gi 0 = [(1, 0)]" "other ?gi (1, 0) = 1"
    using struct_facts(3) [OF ss, of "(1, 0)"] struct_facts(5) [OF ss, of 0] ex_incident by simp_all
  have "drive ex_car ?gi 1 100" using drive_dst [of ?gi 1 ex_car] d(1) by (simp add: INT_MAX_def)
  then show 1: "pt_value (g_pt g' 1) \<noteq> INT_MAX" using r unfolding search_result_def by metis
  then have lt: "pt_value (g_pt g' 1) < INT_MAX" using r unfolding search_result_def by metis
  show "pt_value (g_pt g' 1) < pt_value (g_pt g' 0)"
  proof (cases "pt_value (g_pt g' 0) = INT_MAX")
    case False
    then have "pt_value (g_pt g' 0) < INT_MAX \<and> (pt_value (g_pt g' 0) = pt_dst_val (g_pt ?gi 0)
        \<or> (\<exists>ds\<in>set (incident ?gi 0). pt_value (g_pt g' (other ?gi ds)) < pt_value (g_pt g' 0)))"
      using r unfolding search_result_def by metis
    then show ?thesis using d(2) inc by auto
  qed (use lt in simp)
qed


section \<open>The segments of the path\<close>

lemma path_coords_length:
  assumes "path_coords r pos dst = Some out"
  shows "int (length out) \<le> sr_count r + (if pos = None then 0 else 1) + (if dst = None then 0 else 1)"
proof -
  let ?t = "take (nat (sr_count r)) (drop (nat (sr_first r)) (sr_coords r))"
  have t: "int (length (if sr_dir r < 0 then rev ?t else ?t)) \<le> sr_count r" if "0 \<le> sr_count r" using that by auto
  show ?thesis
    using assms t unfolding path_coords_def Let_def
    by (cases pos; cases dst) (auto simp: bind_eq_Some_conv split: if_splits)
qed

lemma path_range_extra:
  "sr_extra (path_range coords_of g s dir pos dst) = (if pos = None then 0 else 1) + (if dst = None then 0 else 1)"
  by (cases pos; cases dst) (simp_all add: path_range_def Let_def)

lemma path_range_map: "sr_count (path_range coords_of g s dir None None) \<le> 2047"
proof -
  have "length (item_coord_get_within_range cs 2047 a b) \<le> nat 2047" for cs a b
    unfolding item_coord_get_within_range_def by (rule take_upto_length)
  then have "int (length (item_coord_get_within_range cs 2047 a b)) \<le> 2047" for cs a b by (simp add: le_nat_iff)
  then show ?thesis by (simp add: path_range_def Let_def)
qed

text \<open>A path segment never gets more coordinates than memory was allocated for: those taken from the
  street or the map, plus one for each of position and destination; from the map at most 2047.\<close>

theorem route_path_coords_bounds:
  "case path_coords (path_range coords_of g s dir pos dst) pos dst of
     None \<Rightarrow> True
   | Some out \<Rightarrow> int (length out) \<le> sr_count (path_range coords_of g s dir pos dst) + sr_extra (path_range coords_of g s dir pos dst)
       \<and> (pos = None \<and> dst = None \<longrightarrow> length out \<le> 2047)"
proof (cases "path_coords (path_range coords_of g s dir pos dst) pos dst")
  case (Some out)
  have "int (length out) \<le> sr_count (path_range coords_of g s dir pos dst) + sr_extra (path_range coords_of g s dir pos dst)"
    using path_coords_length [OF Some] unfolding path_range_extra by simp
  moreover have "length out \<le> 2047" if "pos = None" "dst = None"
    using path_coords_length [OF Some] path_range_map [of coords_of g s dir] that by simp
  ultimately show ?thesis using Some by simp
qed simp

theorem route_path_coords_bounds_witness:
  "case path_coords (path_range (\<lambda>_. [\<lparr>cx = 0, cy = 0\<rparr>, \<lparr>cx = 10, cy = 0\<rparr>]) ex_graph 0 1 None None) None None of
     None \<Rightarrow> True | Some out \<Rightarrow> length out \<le> 2047"
  using route_path_coords_bounds [of "\<lambda>_. [\<lparr>cx = 0, cy = 0\<rparr>, \<lparr>cx = 10, cy = 0\<rparr>]" ex_graph 0 1 None None]
  by (simp split: option.splits)

text \<open>The roundabout check answers yes exactly when the segment lies on a cycle of at most 13 segments
  that are all one-way in the direction driven, of the same type, not known to be no roundabout, and meet
  at points with at most three segments; it then marks the segment, otherwise it changes nothing.\<close>

theorem route_roundabout_cycle:
  "case route_check_roundabout 13 seg direction None g of (found, g') \<Rightarrow>
     found = rnd_chain g seg 13 (seg, direction) \<and> same_links g g'
     \<and> (if found then has_flag (seg_flags g' seg) AF_ROUNDABOUT else g' = g)"
  using check_roundabout_chain(1) [of 13 seg direction None g] check_roundabout_links(1) [of g 13 seg direction None]
  by (auto split: prod.split)

text \<open>The segments the iterator returns, with the answers of \<open>rp_iterator_end\<close>.\<close>

fun rp_collect :: "nat \<Rightarrow> route_graph \<Rightarrow> rp_iterator \<Rightarrow> (nat \<times> bool) list" where
  "rp_collect 0 g it = []"
| "rp_collect (Suc n) g it = (case rp_iterator_next g it of
     (None, it) \<Rightarrow> []
   | (Some s, it) \<Rightarrow> (s, rp_iterator_end g it) # rp_collect n g it)"

lemma rp_collect_end:
  "\<exists>us. pt_end (g_pt g p) = us @ ss \<Longrightarrow>
   rp_collect n g \<lparr>rpi_p = p, rpi_end = True, rpi_next = ss\<rparr> = take n (map (\<lambda>s. (s, True)) ss)"
proof (induction ss arbitrary: n)
  case Nil
  then show ?case by (cases n) (auto simp: rp_iterator_next_def)
next
  case (Cons s ss)
  then obtain us where us: "pt_end (g_pt g p) = us @ s # ss" by blast
  have "ss \<noteq> pt_end (g_pt g p)" unfolding us using arg_cong [of ss "us @ s # ss" length] by auto
  moreover have "rp_collect m g \<lparr>rpi_p = p, rpi_end = True, rpi_next = ss\<rparr> = take m (map (\<lambda>s. (s, True)) ss)" for m
    using us by (intro Cons.IH) (auto intro: exI [of _ "us @ [s]"])
  ultimately show ?case by (cases n) (auto simp: rp_iterator_next_def rp_iterator_end_def)
qed

lemma rp_collect_start:
  "ss \<noteq> [] \<Longrightarrow> rp_collect n g \<lparr>rpi_p = p, rpi_end = False, rpi_next = ss\<rparr>
     = take n (map (\<lambda>s. (s, False)) ss @ map (\<lambda>s. (s, True)) (pt_end (g_pt g p)))"
proof (induction ss arbitrary: n)
  case (Cons s ss)
  have e: "rp_collect m g \<lparr>rpi_p = p, rpi_end = True, rpi_next = pt_end (g_pt g p)\<rparr> = take m (map (\<lambda>s. (s, True)) (pt_end (g_pt g p)))" for m
    by (rule rp_collect_end) simp
  show ?case
    using Cons.IH by (cases n; cases ss) (auto simp: rp_iterator_next_def rp_iterator_end_def e)
qed simp

text \<open>The iterator returns the segments that start at the point, then those that end there, each once
  and told apart by \<open>rp_iterator_end\<close>, whichever of the two lists is empty.\<close>

theorem route_iterator_items:
  "rp_collect n g (rp_iterator_new g p) = take n (rp_items g p)"
  using rp_collect_start [of "pt_start (g_pt g p)" n g p] rp_collect_end [of g p "pt_end (g_pt g p)" n]
  by (auto simp: rp_iterator_new_def rp_items_def)

section \<open>Two defects\<close>

definition ex_old :: route_path where
  "ex_old = (let s = \<lparr>ps_data = (sg_data (g_seg ex_graph 1))\<lparr>sd_len := 100\<rparr>, ps_direction = 1,
       ps_c = [\<lparr>cx = 10, cy = 0\<rparr>, \<lparr>cx = 15, cy = 0\<rparr>]\<rparr>
     in \<lparr>pa_in_use = 1, pa_updated = True, pa_path = [s], pa_hash = [(ex_item 0x80000008 2, s)]\<rparr>)"

text \<open>When the last segment of a path is taken over from the old path its length is set to that of
  the whole street, while a newly made last segment has the length up to the destination only: the
  length of the path grows when the path is updated.\<close>

theorem route_path_old_length:
  "let add = (\<lambda>old. the (route_path_add_item_from_graph (\<lambda>_. []) route_path_empty old 1 1 None (Some ex_dst) ex_graph));
       seg = (\<lambda>r. last (pa_path (ar_path r)))
   in ps_c (seg (add None)) = [\<lparr>cx = 10, cy = 0\<rparr>, \<lparr>cx = 15, cy = 0\<rparr>] \<and> sd_len (ps_data (seg (add None))) = 100
    \<and> ps_c (seg (add (Some ex_old))) = [\<lparr>cx = 10, cy = 0\<rparr>, \<lparr>cx = 15, cy = 0\<rparr>] \<and> sd_len (ps_data (seg (add (Some ex_old)))) = 200"
  by code_simp

definition ring_data :: "int \<Rightarrow> route_graph_segment_data" where
  "ring_data i = ex_data i 100 0xFFF00001"

text \<open>Three points A, B, D and the one-way streets 1 from A to B, 2 from B to D, 3 from D to A, 4 from A to D, on
  which the destination is; flooded.\<close>

definition ex_ring0 :: route_graph where
  "ex_ring0 = (let g = snd (route_graph_point_new \<lparr>cx = 0, cy = 0\<rparr> route_graph_new);
       g = snd (route_graph_point_new \<lparr>cx = 10, cy = 0\<rparr> g);
       g = snd (route_graph_point_new \<lparr>cx = 10, cy = 10\<rparr> g);
       g = the (route_graph_add_segment 0 1 (ring_data 1) g);
       g = the (route_graph_add_segment 1 2 (ring_data 2) g);
       g = the (route_graph_add_segment 2 0 (ring_data 3) g)
     in the (route_graph_add_segment 0 2 (ring_data 4) g))"

definition ex_ring :: route_graph where
  "ex_ring = upd_pt 2 (\<lambda>p. p\<lparr>pt_value := 150, pt_seg := Some 2\<rparr>) (upd_pt 1 (\<lambda>p. p\<lparr>pt_value := 250, pt_seg := Some 1\<rparr>)
     (upd_pt 0 (\<lambda>p. p\<lparr>pt_value := 50, pt_seg := Some 3\<rparr>) ex_ring0))"

definition ring_street :: "int \<Rightarrow> coord \<Rightarrow> street_data" where
  "ring_street i c = \<lparr>st_item = ex_item 0x80000008 i, st_flags = 0xFFF00001, st_maxspeed = -1, st_c = [\<lparr>cx = 0, cy = 0\<rparr>, c]\<rparr>"

lemma ex_ring_wf: "graph_wf ex_ring" "g_np ex_ring = 3"
proof -
  have ok: "graph_ok ex_ring0 \<and> g_np ex_ring0 = 3"
    unfolding ex_ring0_def Let_def
    by (intro conjI add_segment_the point_new_graph_ok graph_ok_new)
      (simp_all add: point_new_np add_segment_the point_new_graph_ok graph_ok_new ex_data_def ring_data_def)
  then show "g_np ex_ring = 3" by (simp add: ex_ring_def)
  show "graph_wf ex_ring"
    using ok unfolding ex_ring_def graph_ok_def
    by (auto simp: graph_wf_def adj_wf_def hash_wf_def seg_wf_def)
qed

lemma ex_ring_segs:
  "seg_start ex_ring 0 = 0" "seg_end ex_ring 0 = 1" "seg_start ex_ring 1 = 1" "seg_end ex_ring 1 = 2"
  "seg_start ex_ring 2 = 2" "seg_end ex_ring 2 = 0" "seg_start ex_ring 3 = 0" "seg_end ex_ring 3 = 2"
  "item_is_equal (seg_item ex_ring 3) (st_item (ring_street 4 c))"
  by code_simp+

definition ring_pos :: route_info where
  "ring_pos = ex_pos\<lparr>ri_street := Some (ring_street 1 \<lparr>cx = 10, cy = 0\<rparr>)\<rparr>"

definition ring_dst :: route_info where
  "ring_dst = ex_dst\<lparr>ri_street := Some (ring_street 4 \<lparr>cx = 10, cy = 10\<rparr>)\<rparr>"

lemma ex_ring_points:
  "g_pt ex_ring p = (if p = 2 then (g_pt ex_ring0 2)\<lparr>pt_value := 150, pt_seg := Some 2\<rparr>
     else if p = 1 then (g_pt ex_ring0 1)\<lparr>pt_value := 250, pt_seg := Some 1\<rparr>
     else if p = 0 then (g_pt ex_ring0 0)\<lparr>pt_value := 50, pt_seg := Some 3\<rparr> else g_pt ex_ring0 p)"
  by (simp add: ex_ring_def)

lemma ex_ring0_far: "2 < p \<Longrightarrow> pt_value (g_pt ex_ring0 p) = INT_MAX"
  by (simp add: ex_ring0_def Let_def route_graph_add_segment_def new_segment_data_eq ring_data_def ex_data_def
      route_graph_point_new_def route_graph_new_def)

lemma ring_places: "street_pos ring_pos" "street_pos ring_dst"
  by (simp_all add: street_pos_def ring_pos_def ring_dst_def ex_pos_def ex_dst_def ring_street_def)

lemma ring_not_dst:
  "\<not> item_is_equal (seg_item ex_ring 0) (st_item (the (ri_street ring_dst)))"
  "\<not> item_is_equal (seg_item ex_ring 1) (st_item (the (ri_street ring_dst)))"
  "\<not> item_is_equal (seg_item ex_ring 2) (st_item (the (ri_street ring_dst)))"
  by code_simp+

lemma ex_ring_walk:
  assumes "ws_graph w = ex_ring" "ws_pos w = Some ring_pos"
  shows "\<exists>w'. path_walk coords_of ring_dst 3 (Some 0) 0 False w = Some (False, w')"
proof -
  have l0: "same_links ex_ring (ws_graph w)" using assms(1) by simp
  have "\<exists>w1. path_walk coords_of ring_dst (Suc 2) (Some 0) 0 False w
      = path_walk coords_of ring_dst 2 (pt_seg (g_pt ex_ring 1)) 1 False w1 \<and> same_links ex_ring (ws_graph w1) \<and> ws_pos w1 = None"
    by (rule walk_step [OF l0]) (use assms(2) ring_places ring_not_dst ex_ring_segs in auto)
  then obtain w1 where 1: "path_walk coords_of ring_dst (Suc 2) (Some 0) 0 False w
      = path_walk coords_of ring_dst 2 (pt_seg (g_pt ex_ring 1)) 1 False w1" "same_links ex_ring (ws_graph w1)" "ws_pos w1 = None"
    by blast
  have "\<exists>w2. path_walk coords_of ring_dst (Suc 1) (Some 1) 1 False w1
      = path_walk coords_of ring_dst 1 (pt_seg (g_pt ex_ring 2)) 2 False w2 \<and> same_links ex_ring (ws_graph w2) \<and> ws_pos w2 = None"
    by (rule walk_step [OF 1(2)]) (use 1(3) ring_places ring_not_dst ex_ring_segs in auto)
  then obtain w2 where 2: "path_walk coords_of ring_dst (Suc 1) (Some 1) 1 False w1
      = path_walk coords_of ring_dst 1 (pt_seg (g_pt ex_ring 2)) 2 False w2" "same_links ex_ring (ws_graph w2)" "ws_pos w2 = None"
    by blast
  have "\<exists>w3. path_walk coords_of ring_dst (Suc 0) (Some 2) 2 False w2
      = path_walk coords_of ring_dst 0 (pt_seg (g_pt ex_ring 0)) 0 False w3 \<and> same_links ex_ring (ws_graph w3) \<and> ws_pos w3 = None"
    by (rule walk_step [OF 2(2)]) (use 2(3) ring_places ring_not_dst ex_ring_segs in auto)
  then obtain w3 where 3: "path_walk coords_of ring_dst (Suc 0) (Some 2) 2 False w2
      = path_walk coords_of ring_dst 0 (pt_seg (g_pt ex_ring 0)) 0 False w3" by blast
  have "path_walk coords_of ring_dst (Suc 2) (Some 0) 0 False w = Some (False, w3)"
    using 1(1) 2(1) 3 by (simp add: ex_ring_points numeral_2_eq_2)
  then show ?thesis by (simp add: numeral_3_eq_3 numeral_2_eq_2)
qed

text \<open>The bound of the walk is one too low: with the streets A-B, B-D, D-A and A-D and a position
  on A-B the way to the destination on A-D takes four segments over three points, and the code gives up
  with NULL and a message that the chain is cyclic, though every point leads to the destination.\<close>

theorem route_path_aborts_early:
  "walkable ex_ring (st_item (the (ri_street ring_dst))) \<and> graph_wf ex_ring \<and> street_pos ring_pos \<and> street_pos ring_dst
   \<and> map (\<lambda>p. pt_seg (g_pt ex_ring p)) [1, 2, 0] = [Some 1, Some 2, Some 3]
   \<and> (\<exists>old dir g''. path_walk_all (\<lambda>_. []) None ring_pos ring_dst 0 0 ex_ring = Some (None, old, dir, g''))"
proof (intro conjI)
  show "walkable ex_ring (st_item (the (ri_street ring_dst)))"
    unfolding walkable_def
  proof (intro allI impI)
    fix p assume v: "pt_value (g_pt ex_ring p) \<noteq> INT_MAX"
    have "p \<in> {0, 1, 2}"
    proof (rule ccontr)
      assume "p \<notin> {0, 1, 2}"
      then have "2 < p" by auto
      then show False using v ex_ring0_far [of p] by (simp add: ex_ring_points)
    qed
    then consider "p = 0" | "p = 1" | "p = 2" by blast
    then show "p < g_np ex_ring \<and> (\<exists>s. pt_seg (g_pt ex_ring p) = Some s
     \<and> (item_is_equal (seg_item ex_ring s) (st_item (the (ri_street ring_dst)))
        \<or> (seg_start ex_ring s = p \<longrightarrow> pt_value (g_pt ex_ring (seg_end ex_ring s)) < pt_value (g_pt ex_ring p)
             \<and> pt_value (g_pt ex_ring (seg_end ex_ring s)) \<noteq> INT_MAX)
        \<and> (seg_start ex_ring s \<noteq> p \<longrightarrow> pt_value (g_pt ex_ring (seg_start ex_ring s)) < pt_value (g_pt ex_ring p)
             \<and> pt_value (g_pt ex_ring (seg_start ex_ring s)) \<noteq> INT_MAX)))"
      by cases (simp_all add: ex_ring_points ex_ring_wf ex_ring_segs [simplified] ring_dst_def INT_MAX_def)
  qed
  have n: "route_graph_count_points ex_ring = 3" using hash_points_count [OF ex_ring_wf(1)] ex_ring_wf(2) by simp
  let ?w = "\<lparr>ws_path = route_path_empty, ws_old = None, ws_pos = Some ring_pos, ws_posdir = ri_dir ring_pos, ws_graph = ex_ring\<rparr>"
  obtain w where "path_walk (\<lambda>_. []) ring_dst 3 (Some 0) 0 False ?w = Some (False, w)"
    using ex_ring_walk [of ?w "\<lambda>_. []"] by auto
  moreover have "ri_lenextra ring_pos = 0" by (simp add: ring_pos_def ex_pos_def)
  ultimately show "\<exists>old dir g''. path_walk_all (\<lambda>_. []) None ring_pos ring_dst 0 0 ex_ring = Some (None, old, dir, g'')"
    by (simp add: path_walk_all_def n)
qed (simp_all add: ex_ring_wf ex_ring_points ring_places)

end
