(* ===== verification/C_String.thy ===== *)
theory C_String
  imports Navit_Prelude
begin

text \<open>
  C strings and the string functions of the sources: a string is the list of its characters without
  the terminating NUL, a \<open>char *\<close> that can be NULL is an option. \<open>g_ascii_strcasecmp\<close>
  is the one of \<open>support/glib/gstrfuncs.c\<close>; \<open>atoi\<close> is the C library's, on a value that
  does not fit as a 32 bit machine computes it.
\<close>

section \<open>Strings\<close>

definition NUL :: char where "NUL = CHR 0x00"

definition c_string :: "string \<Rightarrow> bool" where
  "c_string s \<longleftrightarrow> NUL \<notin> set s"

lemma c_string_simps [simp]:
  "c_string []" "c_string (a # s) \<longleftrightarrow> a \<noteq> NUL \<and> c_string s" "c_string (s @ t) \<longleftrightarrow> c_string s \<and> c_string t"
  by (auto simp: c_string_def)

section \<open>Comparison without case\<close>

definition ISUPPER :: "char \<Rightarrow> bool" where
  "ISUPPER c \<longleftrightarrow> 65 \<le> (of_char c :: int) \<and> (of_char c :: int) \<le> 90"

definition TOLOWER :: "char \<Rightarrow> char" where
  "TOLOWER c = (if ISUPPER c then char_of ((of_char c :: int) - 65 + 97) else c)"

fun g_ascii_strcasecmp :: "string \<Rightarrow> string \<Rightarrow> int" where
  "g_ascii_strcasecmp (s # s1) (t # s2) =
     (let c1 = of_char (TOLOWER s); c2 = of_char (TOLOWER t)
      in if c1 \<noteq> c2 then c1 - c2 else g_ascii_strcasecmp s1 s2)"
| "g_ascii_strcasecmp (s # s1) [] = of_char s - of_char NUL"
| "g_ascii_strcasecmp [] (t # s2) = of_char NUL - of_char t"
| "g_ascii_strcasecmp [] [] = of_char NUL - of_char NUL"

lemma of_char_NUL [simp]: "of_char NUL = (0 :: int)"
  by (simp add: NUL_def)

lemma of_char_eq_0 [simp]: "of_char c = (0 :: int) \<longleftrightarrow> c = NUL"
  by (metis of_char_NUL of_char_eq_iff)

lemma of_char_TOLOWER: "of_char (TOLOWER c) = (if ISUPPER c then of_char c + 32 else of_char c :: int)"
  by (auto simp: TOLOWER_def ISUPPER_def of_char_of)

lemma TOLOWER_idem [simp]: "TOLOWER (TOLOWER c) = TOLOWER c"
  by (auto simp: TOLOWER_def [of "TOLOWER c"] ISUPPER_def of_char_TOLOWER)

lemma strcasecmp_zero:
  "c_string s \<Longrightarrow> c_string t \<Longrightarrow> g_ascii_strcasecmp s t = 0 \<longleftrightarrow> map TOLOWER s = map TOLOWER t"
  by (induction s t rule: g_ascii_strcasecmp.induct) auto

lemma strcasecmp_refl [simp]: "g_ascii_strcasecmp s s = 0"
  by (induction s) auto

lemma TOLOWER_eq_NUL [simp]: "TOLOWER c = NUL \<longleftrightarrow> c = NUL"
proof -
  have "TOLOWER c = NUL \<longleftrightarrow> of_char (TOLOWER c) = (0 :: int)" by (simp only: of_char_eq_0)
  also have "\<dots> \<longleftrightarrow> of_char c = (0 :: int)" by (auto simp only: of_char_TOLOWER ISUPPER_def split: if_splits)
  finally show ?thesis by (simp only: of_char_eq_0)
qed

lemma c_string_lower [simp]: "c_string (map TOLOWER s) \<longleftrightarrow> c_string s"
  by (induction s) auto

lemma strcasecmp_lower [simp]: "g_ascii_strcasecmp (map TOLOWER s) t = 0 \<longleftrightarrow> g_ascii_strcasecmp s t = 0"
  by (induction s t rule: g_ascii_strcasecmp.induct) auto

section \<open>Numbers\<close>

definition c_isspace :: "char \<Rightarrow> bool" where
  "c_isspace c \<longleftrightarrow> of_char c = (32 :: int) \<or> 9 \<le> (of_char c :: int) \<and> (of_char c :: int) \<le> 13"

definition c_isdigit :: "char \<Rightarrow> bool" where
  "c_isdigit c \<longleftrightarrow> 48 \<le> (of_char c :: int) \<and> (of_char c :: int) \<le> 57"

fun digits_value :: "int \<Rightarrow> string \<Rightarrow> int" where
  "digits_value acc [] = acc"
| "digits_value acc (c # s) = (if c_isdigit c then digits_value (10 * acc + (of_char c - 48)) s else acc)"

definition atoi :: "string \<Rightarrow> int" where
  "atoi s = (case dropWhile c_isspace s of
       [] \<Rightarrow> 0
     | c # t \<Rightarrow> i32 (if c = CHR ''-'' then - digits_value 0 t
         else if c = CHR ''+'' then digits_value 0 t else digits_value 0 (c # t)))"

lemma atoi_range: "in_i32 (atoi s)"
  by (auto simp: atoi_def in_i32_def split: list.splits)
     (use i32_range in \<open>auto simp: INT_MAX_def\<close>)

lemma atoi_examples:
  "atoi ''42'' = 42" "atoi '' -7km'' = -7" "atoi ''km'' = 0" "atoi '''' = 0"
  by code_simp+

end
