(* ===== verification/Text_Line.thy ===== *)
theory Text_Line
  imports C_String
begin

text \<open>
  Attributes in a line of the textfile format: \<open>attr_from_line\<close> of \<open>attr.c\<close> with the
  escaping functions \<open>str_escape\<close> and \<open>strncpy_unescape\<close> of \<open>util.c\<close>. The text
  from a pointer into a string to its NUL is the list of its characters. Writing outside a buffer is the
  result \<open>None\<close>.
\<close>

unbundle bit_operations_syntax

definition quot_char :: char where "quot_char = CHR 0x22"
definition apos_char :: char where "apos_char = CHR 0x27"
definition bslash :: char where "bslash = CHR 0x5C"
definition spc :: char where "spc = CHR 0x20"
definition eq_char :: char where "eq_char = CHR 0x3D"

lemmas char_defs = quot_char_def apos_char_def bslash_def spc_def eq_char_def NUL_def

lemma chars_distinct [simp]:
  "bslash \<noteq> spc" "bslash \<noteq> quot_char" "quot_char \<noteq> spc" "quot_char \<noteq> bslash" "spc \<noteq> quot_char" "spc \<noteq> bslash"
  "eq_char \<noteq> spc" "spc \<noteq> eq_char" "quot_char \<noteq> eq_char" "quot_char \<noteq> NUL" "bslash \<noteq> NUL" "spc \<noteq> NUL"
  by (simp_all add: char_defs)

section \<open>Escaping\<close>

definition escape_mode_none :: "32 word" where "escape_mode_none = 0"
definition escape_mode_string :: "32 word" where "escape_mode_string = 1"
definition escape_mode_quote :: "32 word" where "escape_mode_quote = 2"
definition escape_mode_html_amp :: "32 word" where "escape_mode_html_amp = 4"
definition escape_mode_html_quote :: "32 word" where "escape_mode_html_quote = 8"
definition escape_mode_html_apos :: "32 word" where "escape_mode_html_apos = 16"
definition escape_mode_html_lt :: "32 word" where "escape_mode_html_lt = 32"
definition escape_mode_html_gt :: "32 word" where "escape_mode_html_gt = 64"
definition escape_mode_html :: "32 word" where
  "escape_mode_html = escape_mode_html_amp OR escape_mode_html_quote OR escape_mode_html_apos
     OR escape_mode_html_lt OR escape_mode_html_gt"

lemmas escape_modes = escape_mode_none_def escape_mode_string_def escape_mode_quote_def escape_mode_html_amp_def
  escape_mode_html_quote_def escape_mode_html_apos_def escape_mode_html_lt_def escape_mode_html_gt_def
  escape_mode_html_def

definition mode_has :: "32 word \<Rightarrow> 32 word \<Rightarrow> bool" where
  "mode_has mode m \<longleftrightarrow> mode AND m \<noteq> 0"

text \<open>The bytes the first loop counts for a character, and those the second loop writes for it.\<close>

definition escape_len :: "32 word \<Rightarrow> char \<Rightarrow> nat" where
  "escape_len mode c =
     (if (c = quot_char \<or> c = bslash) \<and> mode_has mode (escape_mode_string OR escape_mode_quote) then 1 else 0)
     + (if c = quot_char \<and> mode = escape_mode_html_quote then length ''&quot;''
        else if c = apos_char \<and> mode = escape_mode_html_apos then length ''&apos;''
        else if c = CHR ''&'' \<and> mode = escape_mode_html_amp then length ''&amp;''
        else if c = CHR ''<'' \<and> mode = escape_mode_html_lt then length ''&lt;''
        else if c = CHR ''>'' \<and> mode = escape_mode_html_gt then length ''&gt;''
        else 1)"

definition escape_char :: "32 word \<Rightarrow> char \<Rightarrow> string" where
  "escape_char mode c =
     (if mode_has mode escape_mode_html then
        if c = quot_char \<and> mode_has mode escape_mode_html_quote then ''&quot;''
        else if c = apos_char \<and> mode_has mode escape_mode_html_apos then ''&apos;''
        else if c = CHR ''&'' \<and> mode_has mode escape_mode_html_amp then ''&amp;''
        else if c = CHR ''<'' \<and> mode_has mode escape_mode_html_lt then ''&lt;''
        else if c = CHR ''>'' \<and> mode_has mode escape_mode_html_gt then ''&gt;''
        else [c]
      else (if (c = quot_char \<or> c = bslash) \<and> mode_has mode (escape_mode_string OR escape_mode_quote)
            then [bslash] else []) @ [c])"

text \<open>The buffer has room for the counted length and a NUL; the NUL of a \<open>strcpy\<close> is overwritten
  by what follows it, so the buffer overflows exactly when more than the counted length is written.\<close>

definition str_escape :: "32 word \<Rightarrow> string \<Rightarrow> string option" where
  "str_escape mode src =
     (let len = (if mode_has mode escape_mode_string then 2 else 0) + sum_list (map (escape_len mode) src);
          q = (if mode_has mode escape_mode_string then [quot_char] else []);
          out = q @ concat (map (escape_char mode) src) @ q
      in if length out \<le> len then Some out else None)"

text \<open>The characters \<open>strncpy_unescape\<close> writes, up to \<open>n\<close> of them.\<close>

fun strncpy_unescape :: "string \<Rightarrow> nat \<Rightarrow> string" where
  "strncpy_unescape [] n = []"
| "strncpy_unescape src 0 = []"
| "strncpy_unescape (c # src) (Suc n) =
     (if c = bslash then case src of [] \<Rightarrow> [] | d # src' \<Rightarrow> d # strncpy_unescape src' n
      else c # strncpy_unescape src n)"

section \<open>Reading an attribute\<close>

text \<open>The loop over the value: the text passed, the number of escapes in it and the rest of the line.\<close>

fun scan_value :: "string \<Rightarrow> bool \<Rightarrow> string \<times> nat \<times> string" where
  "scan_value [] quoted = ([], 0, [])"
| "scan_value (c # s) quoted =
     (if c = spc \<and> \<not> quoted then ([], 0, c # s)
      else let quoted = (if c = quot_char then \<not> quoted else quoted)
        in if c = bslash then (case s of
             [] \<Rightarrow> ([c], 1, [])
           | d # s' \<Rightarrow> (let (v, n, r) = scan_value s' quoted in (c # d # v, n + 1, r)))
           else (let (v, n, r) = scan_value s quoted in (c # v, n, r)))"

text \<open>
  The value that is returned, from the text after the equals sign, the length of the part that was
  passed and the number of escapes. A negative length is a write outside the buffer.
\<close>

definition value_text :: "string \<Rightarrow> int \<Rightarrow> nat \<Rightarrow> string option" where
  "value_text e len escaped =
     (let (e, len) = (if hd_opt e = Some quot_char then (tl e, len - 2) else (e, len))
      in if len - int escaped < 0 then None
         else Some (if escaped > 0 then strncpy_unescape e (nat (len - int escaped)) else take (nat len) e))"

datatype line_attr = No_attr | Line_attr (la_pos: nat) (la_value: string) (la_name: string)

lemma scan_value_length: "length (fst (scan_value s q)) + length (snd (snd (scan_value s q))) = length s"
proof (induction s q rule: scan_value.induct)
  case (2 c s q)
  show ?case
  proof (cases "c = spc \<and> \<not> q \<or> c = bslash")
    case True
    then show ?thesis using 2(1) by (cases s) (auto simp: Let_def case_prod_beta)
  next
    case False
    then show ?thesis using 2(2) by (auto simp: Let_def case_prod_beta)
  qed
qed simp

lemma scan_rest:
  assumes "dropWhile P (dropWhile Q s) \<noteq> []" "(v, n, r) = scan_value (tl (dropWhile P (dropWhile Q s))) q"
  shows "length r < length s"
proof -
  let ?e = "dropWhile P (dropWhile Q s)"
  have "length r \<le> length (tl ?e)"
    using scan_value_length [of "tl ?e" q] unfolding assms(2) [symmetric] by simp
  moreover have "length (tl ?e) < length ?e" using assms(1) by simp
  moreover have "length ?e \<le> length s"
    by (meson length_dropWhile_le order_trans)
  ultimately show ?thesis by linarith
qed

function attr_scan :: "string \<Rightarrow> string option \<Rightarrow> nat \<Rightarrow> line_attr option" where
  "attr_scan s name p =
     (let n = dropWhile (\<lambda>c. c = spc) s; p = p + (length s - length n)
      in if n = [] then Some No_attr
         else let nm = takeWhile (\<lambda>c. c \<noteq> eq_char) n; e = dropWhile (\<lambda>c. c \<noteq> eq_char) n
         in if e = [] then Some No_attr
            else let (v, escaped, r) = scan_value (tl e) False; p' = p + length nm + 1 + length v
            in if name = None \<or> name = Some nm then
                 map_option (\<lambda>t. Line_attr p' t nm) (value_text (tl e) (int (length v)) escaped)
               else attr_scan r name p')"
  by pat_completeness auto
termination
proof (relation "measure (\<lambda>(s, _, _). length s)", goal_cases)
  case (2 s name p x xa xb xc xd xe y xf ya xg)
  then have "length ya < length s" using scan_rest by blast
  then show ?case by simp
qed simp

declare attr_scan.simps [simp del]

definition attr_from_line :: "string \<Rightarrow> string option \<Rightarrow> nat option \<Rightarrow> line_attr option" where
  "attr_from_line line name pos = (let p = (case pos of Some p \<Rightarrow> p | None \<Rightarrow> 0)
     in if length line < p then None else attr_scan (drop p line) name p)"

end
