(* ===== verification/Text_Line_Spec.thy ===== *)
theory Text_Line_Spec
  imports Text_Line
begin

text \<open>
  What is written with the escaping of strings is read back by \<open>attr_from_line\<close>; the buffer of
  \<open>str_escape\<close> is large enough for that mode, and too small for the combined HTML mode.
\<close>

section \<open>Quoted values\<close>

definition esc :: "string \<Rightarrow> string" where
  "esc v = concat (map (escape_char escape_mode_string) v)"

definition escapes :: "string \<Rightarrow> nat" where
  "escapes v = length (filter (\<lambda>c. c = quot_char \<or> c = bslash) v)"

lemma mode_string [simp]:
  "mode_has escape_mode_string escape_mode_string" "\<not> mode_has escape_mode_string escape_mode_html"
  "mode_has escape_mode_string (escape_mode_string OR escape_mode_quote)"
  by (simp_all add: mode_has_def escape_modes)

lemma escape_char_string: "escape_char escape_mode_string c = (if c = quot_char \<or> c = bslash then [bslash, c] else [c])"
  by (simp add: escape_char_def)

lemma esc_simps [simp]:
  "esc [] = []" "esc (c # v) = (if c = quot_char \<or> c = bslash then bslash # c # esc v else c # esc v)"
  by (auto simp: esc_def escape_char_string)

lemma escapes_simps [simp]:
  "escapes [] = 0" "escapes (c # v) = (if c = quot_char \<or> c = bslash then Suc (escapes v) else escapes v)"
  by (auto simp: escapes_def)

lemma length_esc: "length (esc v) = length v + escapes v"
  by (induction v) auto

lemma esc_id: "escapes v = 0 \<Longrightarrow> esc v = v"
  by (induction v) (auto split: if_splits)

lemma escape_len_string: "escape_len escape_mode_string c = (if c = quot_char \<or> c = bslash then 2 else 1)"
proof -
  have "escape_mode_string \<noteq> escape_mode_html_quote" "escape_mode_string \<noteq> escape_mode_html_apos"
    "escape_mode_string \<noteq> escape_mode_html_amp" "escape_mode_string \<noteq> escape_mode_html_lt"
    "escape_mode_string \<noteq> escape_mode_html_gt"
    by (simp_all add: escape_modes)
  then show ?thesis by (simp add: escape_len_def)
qed

lemma str_escape_string: "str_escape escape_mode_string v = Some (quot_char # esc v @ [quot_char])"
proof -
  have "sum_list (map (escape_len escape_mode_string) v) = length (esc v)"
    by (induction v) (auto simp: escape_len_string)
  then show ?thesis by (simp add: str_escape_def esc_def Let_def)
qed

lemma unescape_esc: "strncpy_unescape (esc v @ r) (length v) = v"
  by (induction v) (auto simp: Let_def, (cases r; simp))

definition attr_end :: "string \<Rightarrow> bool" where
  "attr_end r \<longleftrightarrow> r = [] \<or> hd r = spc"

lemma scan_end: "attr_end r \<Longrightarrow> scan_value r False = ([], 0, r)"
  by (cases r) (auto simp: attr_end_def)

lemma scan_quoted: "attr_end r \<Longrightarrow> scan_value (esc v @ quot_char # r) True = (esc v @ [quot_char], escapes v, r)"
  by (induction v) (auto simp: scan_end)

lemma scan_string:
  "attr_end r \<Longrightarrow> scan_value (quot_char # esc v @ quot_char # r) False
    = (quot_char # esc v @ [quot_char], escapes v, r)"
  by (simp add: scan_quoted)

lemma value_text_string:
  "value_text (quot_char # esc v @ quot_char # r) (int (length (quot_char # esc v @ [quot_char]))) (escapes v) = Some v"
  by (auto simp: value_text_def length_esc unescape_esc esc_id)

section \<open>Lines of attributes\<close>

definition attr_name :: "string \<Rightarrow> bool" where
  "attr_name k \<longleftrightarrow> eq_char \<notin> set k \<and> hd_opt k \<noteq> Some spc"

definition attr_text :: "string \<times> string \<Rightarrow> string" where
  "attr_text kv = spc # fst kv @ eq_char # the (str_escape escape_mode_string (snd kv))"

definition attr_line :: "(string \<times> string) list \<Rightarrow> string" where
  "attr_line kvs = concat (map attr_text kvs)"

lemma attr_line_simps [simp]: "attr_line [] = []" "attr_line (kv # kvs) = attr_text kv @ attr_line kvs"
  by (simp_all add: attr_line_def)

lemma attr_line_end: "attr_end (attr_line kvs)"
  by (cases kvs) (auto simp: attr_end_def attr_text_def)

lemma attr_scan_step:
  assumes "attr_name k" "attr_end r"
  shows "attr_scan (attr_text (k, v) @ r) name p =
    (if name = None \<or> name = Some k then Some (Line_attr (p + length (attr_text (k, v))) v k)
     else attr_scan r name (p + length (attr_text (k, v))))"
proof -
  let ?q = "quot_char # esc v @ [quot_char]"
  obtain X where X: "X = ?q @ r" by simp
  have t: "attr_text (k, v) @ r = spc # k @ eq_char # X" by (simp add: attr_text_def str_escape_string X)
  have len: "length (attr_text (k, v)) = length k + length ?q + 2" by (simp add: attr_text_def str_escape_string)
  have k: "dropWhile (\<lambda>c. c = spc) (k @ eq_char # X) = k @ eq_char # X"
    using assms(1) by (cases k) (auto simp: attr_name_def)
  have nm: "takeWhile (\<lambda>c. c \<noteq> eq_char) (k @ eq_char # X) = k"
    "dropWhile (\<lambda>c. c \<noteq> eq_char) (k @ eq_char # X) = eq_char # X"
    using assms(1) by (auto simp: attr_name_def takeWhile_tail dropWhile_append)
  have s: "scan_value X False = (?q, escapes v, r)" using scan_string [OF assms(2), of v] by (simp add: X)
  have w: "value_text X (int (length ?q)) (escapes v) = Some v" using value_text_string [of v r] by (simp add: X)
  show ?thesis unfolding t len
    by (subst attr_scan.simps) (simp add: k nm s w [simplified] Let_def add.assoc)
qed

lemma attr_scan_line:
  assumes "\<forall>(k, v) \<in> set kvs. attr_name k"
  shows "\<exists>q. attr_scan (attr_line kvs) (Some k) p =
    Some (case map_of kvs k of None \<Rightarrow> No_attr | Some v \<Rightarrow> Line_attr q v k)"
  using assms
proof (induction kvs arbitrary: p)
  case Nil
  show ?case by (subst attr_scan.simps) simp
next
  case (Cons kv kvs)
  obtain k' v' where kv: "kv = (k', v')" by force
  have n: "attr_name k'" using Cons.prems kv by simp
  show ?case
  proof (cases "k' = k")
    case True
    then show ?thesis using attr_scan_step [OF n attr_line_end, of v' kvs "Some k" p] kv by auto
  next
    case False
    then show ?thesis using attr_scan_step [OF n attr_line_end, of v' kvs "Some k" p] kv Cons by auto
  qed
qed

text \<open>All attributes of a line, as a caller reads them that passes the position on.\<close>

fun read_attrs :: "nat \<Rightarrow> string \<Rightarrow> nat \<Rightarrow> (string \<times> string) list option" where
  "read_attrs 0 line p = None"
| "read_attrs (Suc n) line p = (case attr_from_line line None (Some p) of
     None \<Rightarrow> None
   | Some No_attr \<Rightarrow> Some []
   | Some (Line_attr q v k) \<Rightarrow> map_option (Cons (k, v)) (read_attrs n line q))"

lemma read_attrs_line:
  assumes "\<forall>(k, v) \<in> set kvs. attr_name k" "length kvs < n"
  shows "read_attrs n (pre @ attr_line kvs) (length pre) = Some kvs"
  using assms
proof (induction kvs arbitrary: pre n)
  case Nil
  then obtain m where "n = Suc m" by (cases n) auto
  then show ?case by (simp add: attr_from_line_def) (subst attr_scan.simps, simp)
next
  case (Cons kv kvs)
  obtain k v where kv: "kv = (k, v)" by force
  obtain m where m: "n = Suc m" using Cons.prems by (cases n) auto
  have k: "attr_name k" using Cons.prems kv by simp
  have "attr_from_line (pre @ attr_line (kv # kvs)) None (Some (length pre))
      = Some (Line_attr (length (pre @ attr_text kv)) v k)"
    using attr_scan_step [OF k attr_line_end] kv by (simp add: attr_from_line_def)
  moreover have "read_attrs m ((pre @ attr_text kv) @ attr_line kvs) (length (pre @ attr_text kv)) = Some kvs"
    using Cons.prems m by (intro Cons.IH) auto
  ultimately show ?case using m kv by simp
qed

text \<open>C23: attributes written as name and escaped string are read back, one by name and all in
  order, whatever characters the values have.\<close>

theorem text_attr_roundtrip:
  assumes "\<forall>(k, v) \<in> set kvs. attr_name k"
  shows "(\<exists>q. attr_from_line (attr_line kvs) (Some k) None =
      Some (case map_of kvs k of None \<Rightarrow> No_attr | Some v \<Rightarrow> Line_attr q v k))
    \<and> read_attrs (Suc (length kvs)) (attr_line kvs) 0 = Some kvs"
  using attr_scan_line [OF assms] read_attrs_line [OF assms, of "Suc (length kvs)" "[]"]
  by (simp add: attr_from_line_def)

lemma text_attr_roundtrip_witness:
  "let kvs = [(''type'', ''poi''), (''label'', [CHR ''a'', quot_char, spc, bslash, CHR ''b''])]
   in read_attrs (Suc (length kvs)) (attr_line kvs) 0 = Some kvs"
proof -
  have "\<forall>(k, v) \<in> set [(''type'', ''poi''), (''label'', [CHR ''a'', quot_char, spc, bslash, CHR ''b''])]. attr_name k"
    by (simp add: attr_name_def char_defs)
  from text_attr_roundtrip [OF this] show ?thesis by (simp only: Let_def)
qed

section \<open>Where memory is overwritten\<close>

definition html_special :: "char set" where
  "html_special = {quot_char, apos_char, CHR ''&'', CHR ''<'', CHR ''>''}"

lemma mode_html [simp]:
  "mode_has escape_mode_html escape_mode_html" "\<not> mode_has escape_mode_html escape_mode_string"
  "\<not> mode_has escape_mode_html (escape_mode_string OR escape_mode_quote)"
  "mode_has escape_mode_html escape_mode_html_quote" "mode_has escape_mode_html escape_mode_html_apos"
  "mode_has escape_mode_html escape_mode_html_amp" "mode_has escape_mode_html escape_mode_html_lt"
  "mode_has escape_mode_html escape_mode_html_gt"
  by (simp_all add: mode_has_def escape_modes)

lemma escape_len_html: "escape_len escape_mode_html c = 1"
  by (simp add: escape_len_def escape_modes mode_has_def)

lemma escape_char_html:
  "1 \<le> length (escape_char escape_mode_html c)"
  "length (escape_char escape_mode_html c) = 1 \<longleftrightarrow> c \<notin> html_special"
  "c \<notin> html_special \<Longrightarrow> escape_char escape_mode_html c = [c]"
  by (auto simp: escape_char_def html_special_def)

lemma str_escape_html: "str_escape escape_mode_html s = (if set s \<inter> html_special = {} then Some s else None)"
proof -
  have a: "sum_list (map (escape_len escape_mode_html) s) = length s"
    by (induction s) (auto simp: escape_len_html)
  have b: "length s \<le> length (concat (map (escape_char escape_mode_html) s))
      \<and> (length (concat (map (escape_char escape_mode_html) s)) = length s \<longleftrightarrow> set s \<inter> html_special = {})
      \<and> (set s \<inter> html_special = {} \<longrightarrow> concat (map (escape_char escape_mode_html) s) = s)"
  proof (induction s)
    case (Cons c s)
    then show ?case using escape_char_html [of c] by (cases "c \<in> html_special") auto
  qed simp
  show ?thesis unfolding str_escape_def Let_def using a b by auto
qed

text \<open>With the combined HTML mode the buffer overflows for every string that has a character to
  escape; in the modes of a single entity and without HTML escapes it never does.\<close>

theorem str_escape_overflow:
  "str_escape escape_mode_html s = (if set s \<inter> html_special = {} then Some s else None)
   \<and> str_escape (escape_mode_string OR escape_mode_html) ''a&b'' = None
   \<and> str_escape escape_mode_string s = Some (quot_char # esc s @ [quot_char])
   \<and> (\<exists>t. str_escape escape_mode_html_apos s = Some t)"
proof (intro conjI)
  show "str_escape (escape_mode_string OR escape_mode_html) ''a&b'' = None" by code_simp
  have "escape_len escape_mode_html_apos c = length (escape_char escape_mode_html_apos c)" for c
    by (auto simp: escape_len_def escape_char_def mode_has_def escape_modes)
  then have "escape_len escape_mode_html_apos = (\<lambda>c. length (escape_char escape_mode_html_apos c))" by (rule ext)
  then have "sum_list (map (escape_len escape_mode_html_apos) s)
      = length (concat (map (escape_char escape_mode_html_apos) s))" by (simp add: length_concat comp_def)
  then show "\<exists>t. str_escape escape_mode_html_apos s = Some t"
    by (simp add: str_escape_def Let_def mode_has_def escape_modes)
qed (rule str_escape_html, rule str_escape_string)

text \<open>A value that is a single quote character, or one that ends in an escaped end of the line after a
  quote, makes the length negative.\<close>

lemma attr_from_line_lone_quote:
  "attr_from_line (''a='' @ [quot_char]) None None = None"
  "attr_from_line (''a='' @ [quot_char, bslash]) None None = None"
  by (simp_all add: attr_from_line_def attr_scan.simps Let_def value_text_def char_defs)

end
