(* ===== verification/Attr_List.thy ===== *)
theory Attr_List
  imports C_String
begin

text \<open>
  Attributes and NULL-terminated attribute lists of \<open>attr.c\<close>. The memory maps the address of a
  \<open>struct attr\<close> to its type and the machine word of its union, and the address of a block the word
  can point to to the bytes of the block. A list of the code is the list of the addresses it holds.
  Reading an attribute or a block that is not allocated, for instance one that was freed before, is the
  result \<open>None\<close>.
\<close>

section \<open>Attribute types\<close>

definition attr_none :: int where "attr_none = 0"
definition attr_any :: int where "attr_any = 1"
definition attr_any_xml :: int where "attr_any_xml = 2"
definition attr_type_item_begin :: int where "attr_type_item_begin = 0x10000"
definition attr_type_item_end :: int where "attr_type_item_end = 0x1ffff"
definition attr_type_int_begin :: int where "attr_type_int_begin = 0x20000"
definition attr_flags :: int where "attr_flags = 0x20003"
definition attr_maxspeed :: int where "attr_maxspeed = 0x20045"
definition attr_delay :: int where "attr_delay = 0x20052"
definition attr_type_int_end :: int where "attr_type_int_end = 0x2ffff"
definition attr_type_string_begin :: int where "attr_type_string_begin = 0x30000"
definition attr_label :: int where "attr_label = 0x30002"
definition attr_type_string_end :: int where "attr_type_string_end = 0x3ffff"
definition attr_type_special_begin :: int where "attr_type_special_begin = 0x40000"
definition attr_order :: int where "attr_order = 0x40001"
definition attr_item_type :: int where "attr_item_type = 0x40002"
definition attr_item_types :: int where "attr_item_types = 0x40003"
definition attr_sequence_range :: int where "attr_sequence_range = 0x40005"
definition attr_angle_range :: int where "attr_angle_range = 0x40006"
definition attr_speed_range :: int where "attr_speed_range = 0x40007"
definition attr_attr_types :: int where "attr_attr_types = 0x40008"
definition attr_poly_hole :: int where "attr_poly_hole = 0x4000d"
definition attr_type_double_begin :: int where "attr_type_double_begin = 0x50000"
definition attr_type_double_end :: int where "attr_type_double_end = 0x5ffff"
definition attr_type_coord_geo_begin :: int where "attr_type_coord_geo_begin = 0x60000"
definition attr_type_coord_geo_end :: int where "attr_type_coord_geo_end = 0x6ffff"
definition attr_type_color_begin :: int where "attr_type_color_begin = 0x70000"
definition attr_type_color_end :: int where "attr_type_color_end = 0x7ffff"
definition attr_type_object_begin :: int where "attr_type_object_begin = 0x80000"
definition attr_callback :: int where "attr_callback = 0x80003"
definition attr_type_object_end :: int where "attr_type_object_end = 0x8ffff"
definition attr_type_coord_begin :: int where "attr_type_coord_begin = 0x90000"
definition attr_type_pcoord_begin :: int where "attr_type_pcoord_begin = 0xa0000"
definition attr_type_callback_begin :: int where "attr_type_callback_begin = 0xb0000"
definition attr_type_int64_begin :: int where "attr_type_int64_begin = 0xc0000"
definition attr_type_int64_end :: int where "attr_type_int64_end = 0xcffff"
definition attr_type_item_type_begin :: int where "attr_type_item_type_begin = 0xe0000"
definition attr_type_item_type_end :: int where "attr_type_item_type_end = 0xeffff"

lemmas attr_types = attr_none_def attr_any_def attr_any_xml_def attr_type_item_begin_def attr_type_item_end_def
  attr_type_int_begin_def attr_flags_def attr_maxspeed_def attr_delay_def attr_type_int_end_def
  attr_type_string_begin_def attr_label_def attr_type_string_end_def attr_type_special_begin_def attr_order_def
  attr_item_type_def attr_item_types_def attr_sequence_range_def attr_angle_range_def attr_speed_range_def
  attr_attr_types_def attr_poly_hole_def attr_type_double_begin_def attr_type_double_end_def
  attr_type_coord_geo_begin_def attr_type_coord_geo_end_def attr_type_color_begin_def attr_type_color_end_def
  attr_type_object_begin_def attr_callback_def attr_type_object_end_def attr_type_coord_begin_def
  attr_type_pcoord_begin_def attr_type_callback_begin_def attr_type_int64_begin_def attr_type_int64_end_def
  attr_type_item_type_begin_def attr_type_item_type_end_def

definition attr_type_begin :: "int \<Rightarrow> int" where
  "attr_type_begin t =
     (if t < attr_type_item_begin then attr_none
      else if t < attr_type_int_begin then attr_type_item_begin
      else if t < attr_type_string_begin then attr_type_int_begin
      else if t < attr_type_special_begin then attr_type_string_begin
      else if t < attr_type_double_begin then attr_type_special_begin
      else if t < attr_type_coord_geo_begin then attr_type_double_begin
      else if t < attr_type_color_begin then attr_type_coord_geo_begin
      else if t < attr_type_object_begin then attr_type_color_begin
      else if t < attr_type_coord_begin then attr_type_object_begin
      else if t < attr_type_pcoord_begin then attr_type_coord_begin
      else if t < attr_type_callback_begin then attr_type_pcoord_begin
      else if t < attr_type_int64_begin then attr_type_callback_begin
      else if t \<le> attr_type_int64_end then attr_type_int64_begin
      else attr_none)"

section \<open>Memory\<close>

record attr =
  at_type :: int
  at_u :: int

record attr_heap =
  ah_attr :: "nat \<rightharpoonup> attr"
  ah_block :: "int \<rightharpoonup> int list"

text \<open>\<open>g_new0\<close> and \<open>g_malloc\<close> return an address that is not in use; which one is a parameter.\<close>

record allocator =
  al_attr :: "attr_heap \<Rightarrow> nat"
  al_block :: "attr_heap \<Rightarrow> int"

definition fresh_allocator :: "allocator \<Rightarrow> attr_heap \<Rightarrow> bool" where
  "fresh_allocator al h \<longleftrightarrow> ah_attr h (al_attr al h) = None \<and> ah_block h (al_block al h) = None \<and> al_block al h \<noteq> 0"

section \<open>Copying and freeing\<close>

text \<open>The bytes of a string with its NUL, and of an array of words that ends with a zero word.\<close>

fun c_strlen :: "int list \<Rightarrow> nat option" where
  "c_strlen [] = None"
| "c_strlen (b # bs) = (if b = 0 then Some 0 else map_option Suc (c_strlen bs))"

fun words_to_zero :: "int list \<Rightarrow> nat option" where
  "words_to_zero (a # b # c # d # bs) =
     (if a = 0 \<and> b = 0 \<and> c = 0 \<and> d = 0 then Some 1 else map_option Suc (words_to_zero bs))"
| "words_to_zero bs = None"

definition le_int :: "int list \<Rightarrow> int option" where
  "le_int bs = (case bs of a # b # c # d # _ \<Rightarrow> Some (i32 (a + 256 * b + 65536 * c + 16777216 * d)) | _ \<Rightarrow> None)"

text \<open>Sizes of a 64 bit machine: \<open>long\<close>, pointers and \<open>double\<close> have 8 bytes, \<open>struct item\<close> 40.\<close>

definition attr_data_size :: "attr_heap \<Rightarrow> attr \<Rightarrow> nat option" where
  "attr_data_size h a = (let t = at_type a; block = ah_block h (at_u a) in
     if t = attr_none then Some 0
     else if attr_type_string_begin \<le> t \<and> t \<le> attr_type_string_end then
       (if at_u a = 0 then Some 0 else do { bs \<leftarrow> block; n \<leftarrow> c_strlen bs; Some (n + 1) })
     else if attr_type_int_begin \<le> t \<and> t \<le> attr_type_int_end then Some 8
     else if attr_type_coord_geo_begin \<le> t \<and> t \<le> attr_type_coord_geo_end then Some 16
     else if attr_type_color_begin \<le> t \<and> t \<le> attr_type_color_end then Some 16
     else if attr_type_object_begin \<le> t \<and> t \<le> attr_type_object_end then Some 8
     else if attr_type_item_begin \<le> t \<and> t \<le> attr_type_item_end then Some 40
     else if attr_type_int64_begin \<le> t \<and> t \<le> attr_type_int64_end then Some 8
     else if t = attr_order \<or> t = attr_sequence_range \<or> t = attr_angle_range \<or> t = attr_speed_range then Some 4
     else if attr_type_double_begin \<le> t \<and> t \<le> attr_type_double_end then Some 8
     else if t = attr_item_types then do { bs \<leftarrow> block; n \<leftarrow> words_to_zero bs; Some (4 * n) }
     else if attr_type_item_type_begin \<le> t \<and> t \<le> attr_type_item_type_end then Some 4
     else if t = attr_attr_types then do { bs \<leftarrow> block; n \<leftarrow> words_to_zero bs; Some (4 * n) }
     else if t = attr_poly_hole then do { bs \<leftarrow> block; n \<leftarrow> le_int bs; Some (nat (4 + n * 8)) }
     else Some 0)"

definition attr_type_is_inline :: "int \<Rightarrow> bool" where
  "attr_type_is_inline t \<longleftrightarrow>
     attr_type_int_begin \<le> t \<and> t \<le> attr_type_int_end
     \<or> attr_type_object_begin \<le> t \<and> t \<le> attr_type_object_end
     \<or> t = attr_item_type
     \<or> t = attr_order \<or> t = attr_sequence_range \<or> t = attr_angle_range \<or> t = attr_speed_range"

text \<open>Reference counts of objects are not part of the memory; \<open>ref\<close> returns its argument.\<close>

definition attr_dup_content :: "allocator \<Rightarrow> attr_heap \<Rightarrow> attr \<Rightarrow> (attr \<times> attr_heap) option" where
  "attr_dup_content al h src = (let t = at_type src; dst = \<lparr>at_type = t, at_u = 0\<rparr> in
     if attr_type_int_begin \<le> t \<and> t \<le> attr_type_int_end then Some (dst\<lparr>at_u := at_u src\<rparr>, h)
     else if t = attr_item_type then Some (dst\<lparr>at_u := at_u src\<rparr>, h)
     else if attr_type_object_begin \<le> t \<and> t \<le> attr_type_object_end then Some (dst\<lparr>at_u := at_u src\<rparr>, h)
     else do {
       n \<leftarrow> attr_data_size h src;
       if n \<noteq> 0 then do {
         bs \<leftarrow> ah_block h (at_u src);
         u \<leftarrow> (if n \<le> length bs then Some () else None);
         let b = al_block al h;
         Some (dst\<lparr>at_u := b\<rparr>, h\<lparr>ah_block := (ah_block h)(b \<mapsto> take n bs)\<rparr>)
       } else Some (dst, h)
     })"

definition attr_dup :: "allocator \<Rightarrow> attr_heap \<Rightarrow> attr \<Rightarrow> (nat \<times> attr_heap) option" where
  "attr_dup al h a = do {
     let p = al_attr al h;
     (d, h) \<leftarrow> attr_dup_content al h a;
     Some (p, h\<lparr>ah_attr := (ah_attr h)(p \<mapsto> d)\<rparr>)
   }"

definition attr_free_content_do :: "attr_heap \<Rightarrow> attr \<Rightarrow> attr_heap option" where
  "attr_free_content_do h a =
     (if attr_type_is_inline (at_type a) \<or> at_u a = 0 then Some h
      else if ah_block h (at_u a) = None then None
      else Some (h\<lparr>ah_block := (ah_block h)(at_u a := None)\<rparr>))"

definition attr_free :: "attr_heap \<Rightarrow> nat \<Rightarrow> attr_heap option" where
  "attr_free h p = do {
     a \<leftarrow> ah_attr h p;
     h \<leftarrow> attr_free_content_do h a;
     Some (h\<lparr>ah_attr := (ah_attr h)(p := None)\<rparr>)
   }"

section \<open>Lists\<close>

fun attr_search :: "attr_heap \<Rightarrow> nat list \<Rightarrow> int \<Rightarrow> nat option option" where
  "attr_search h [] t = Some None"
| "attr_search h (p # ps) t = do {
     a \<leftarrow> ah_attr h p;
     if at_type a = t then Some (Some p) else attr_search h ps t
   }"

definition attr_match :: "int \<Rightarrow> int \<Rightarrow> bool" where
  "attr_match search found =
     (if search = attr_any then True
      else if search = attr_any_xml then found \<noteq> attr_callback
      else search = found)"

text \<open>
  The iterator of \<open>attr_generic_get_attr\<close> holds the address of the list cell returned last; here
  the number of cells up to it, 0 for the NULL it starts with. \<open>k\<close> counts the cells passed.
\<close>

fun get_attr_scan :: "attr_heap \<Rightarrow> nat list \<Rightarrow> int \<Rightarrow> nat option \<Rightarrow> nat \<Rightarrow> (attr option \<times> nat option) option" where
  "get_attr_scan h [] t iter k = Some (None, iter)"
| "get_attr_scan h (p # ps) t iter k = do {
     a \<leftarrow> ah_attr h p;
     if attr_match t (at_type a) then (case iter of
         None \<Rightarrow> Some (Some a, None)
       | Some i \<Rightarrow> if i < Suc k then Some (Some a, Some (Suc k)) else get_attr_scan h ps t iter (Suc k))
     else get_attr_scan h ps t iter (Suc k)
   }"

definition attr_generic_get_attr ::
  "attr_heap \<Rightarrow> nat list option \<Rightarrow> nat list option \<Rightarrow> int \<Rightarrow> nat option \<Rightarrow> (attr option \<times> nat option) option" where
  "attr_generic_get_attr h attrs def_attrs t iter = do {
     (r, iter) \<leftarrow> get_attr_scan h (case attrs of None \<Rightarrow> [] | Some ps \<Rightarrow> ps) t iter 0;
     case r of Some a \<Rightarrow> Some (Some a, iter)
     | None \<Rightarrow>
       if t = attr_any \<or> t = attr_any_xml then Some (None, iter)
       else do {
         d \<leftarrow> attr_search h (case def_attrs of None \<Rightarrow> [] | Some ps \<Rightarrow> ps) t;
         Some (case d of Some p \<Rightarrow> ah_attr h p | None \<Rightarrow> None, iter)
       }
   }"

definition attr_generic_add_attr ::
  "allocator \<Rightarrow> attr_heap \<Rightarrow> nat list option \<Rightarrow> attr \<Rightarrow> (nat list \<times> attr_heap) option" where
  "attr_generic_add_attr al h attrs a = do {
     (p, h) \<leftarrow> attr_dup al h a;
     Some ((case attrs of None \<Rightarrow> [] | Some ps \<Rightarrow> ps) @ [p], h)
   }"

fun attr_generic_add_attr_list ::
  "allocator \<Rightarrow> attr_heap \<Rightarrow> nat list option \<Rightarrow> nat list \<Rightarrow> (nat list option \<times> attr_heap) option" where
  "attr_generic_add_attr_list al h attrs [] = Some (attrs, h)"
| "attr_generic_add_attr_list al h attrs (q # qs) = do {
     a \<leftarrow> ah_attr h q;
     (ps, h) \<leftarrow> attr_generic_add_attr al h attrs a;
     attr_generic_add_attr_list al h (Some ps) qs
   }"

definition attr_generic_prepend_attr ::
  "allocator \<Rightarrow> attr_heap \<Rightarrow> nat list option \<Rightarrow> attr \<Rightarrow> (nat list \<times> attr_heap) option" where
  "attr_generic_prepend_attr al h attrs a = do {
     (p, h) \<leftarrow> attr_dup al h a;
     Some (p # (case attrs of None \<Rightarrow> [] | Some ps \<Rightarrow> ps), h)
   }"

text \<open>The first attribute of the type is replaced; without one the attribute is appended.\<close>

fun set_attr_scan :: "allocator \<Rightarrow> attr_heap \<Rightarrow> nat list \<Rightarrow> attr \<Rightarrow> (nat list \<times> attr_heap) option" where
  "set_attr_scan al h [] a = attr_generic_add_attr al h None a"
| "set_attr_scan al h (p # ps) a = do {
     b \<leftarrow> ah_attr h p;
     if at_type b = at_type a then do {
       (q, h) \<leftarrow> attr_dup al h a;
       h \<leftarrow> attr_free h p;
       Some (q # ps, h)
     } else do {
       (qs, h) \<leftarrow> set_attr_scan al h ps a;
       Some (p # qs, h)
     }
   }"

definition attr_generic_set_attr ::
  "allocator \<Rightarrow> attr_heap \<Rightarrow> nat list option \<Rightarrow> attr \<Rightarrow> (nat list \<times> attr_heap) option" where
  "attr_generic_set_attr al h attrs a = set_attr_scan al h (case attrs of None \<Rightarrow> [] | Some ps \<Rightarrow> ps) a"

text \<open>
  \<open>attr_generic_remove_attr\<close>: the first loop looks for the attribute, the second copies the others
  and frees each match. Both read the attribute to remove through its address \<open>q\<close> at every step.
\<close>

definition attr_same :: "attr_heap \<Rightarrow> nat \<Rightarrow> nat \<Rightarrow> bool option" where
  "attr_same h p q = do {
     a \<leftarrow> ah_attr h p;
     b \<leftarrow> ah_attr h q;
     Some (at_type a = at_type b \<and> at_u a = at_u b)
   }"

fun remove_found :: "attr_heap \<Rightarrow> nat list \<Rightarrow> nat \<Rightarrow> bool option" where
  "remove_found h [] q = Some False"
| "remove_found h (p # ps) q = do {
     s \<leftarrow> attr_same h p q;
     f \<leftarrow> remove_found h ps q;
     Some (s \<or> f)
   }"

fun remove_copy :: "attr_heap \<Rightarrow> nat list \<Rightarrow> nat \<Rightarrow> (nat list \<times> attr_heap) option" where
  "remove_copy h [] q = Some ([], h)"
| "remove_copy h (p # ps) q = do {
     s \<leftarrow> attr_same h p q;
     if \<not> s then do {
       (rs, h) \<leftarrow> remove_copy h ps q;
       Some (p # rs, h)
     } else do {
       h \<leftarrow> attr_free h p;
       remove_copy h ps q
     }
   }"

definition attr_generic_remove_attr ::
  "attr_heap \<Rightarrow> nat list option \<Rightarrow> nat \<Rightarrow> (nat list option \<times> attr_heap) option" where
  "attr_generic_remove_attr h attrs q = (let ps = (case attrs of None \<Rightarrow> [] | Some ps \<Rightarrow> ps) in do {
     f \<leftarrow> remove_found h ps q;
     if \<not> f then Some (attrs, h)
     else do {
       (rs, h) \<leftarrow> remove_copy h ps q;
       Some (Some rs, h)
     }
   })"

fun list_free :: "attr_heap \<Rightarrow> nat list \<Rightarrow> attr_heap option" where
  "list_free h [] = Some h"
| "list_free h (p # ps) = do { h \<leftarrow> attr_free h p; list_free h ps }"

definition attr_list_free :: "attr_heap \<Rightarrow> nat list option \<Rightarrow> attr_heap option" where
  "attr_list_free h attrs = list_free h (case attrs of None \<Rightarrow> [] | Some ps \<Rightarrow> ps)"

fun list_dup :: "allocator \<Rightarrow> attr_heap \<Rightarrow> nat list \<Rightarrow> (nat list \<times> attr_heap) option" where
  "list_dup al h [] = Some ([], h)"
| "list_dup al h (p # ps) = do {
     a \<leftarrow> ah_attr h p;
     (q, h) \<leftarrow> attr_dup al h a;
     (qs, h) \<leftarrow> list_dup al h ps;
     Some (q # qs, h)
   }"

definition attr_list_dup :: "allocator \<Rightarrow> attr_heap \<Rightarrow> nat list option \<Rightarrow> (nat list option \<times> attr_heap) option" where
  "attr_list_dup al h attrs = (case attrs of
       None \<Rightarrow> Some (None, h)
     | Some ps \<Rightarrow> map_option (\<lambda>(qs, h). (Some qs, h)) (list_dup al h ps))"

section \<open>Lists of types and relative values\<close>

definition attr_types_contains :: "int list option \<Rightarrow> int \<Rightarrow> bool" where
  "attr_types_contains types t = (case types of
       None \<Rightarrow> False
     | Some ts \<Rightarrow> t \<in> set (takeWhile (\<lambda>u. u \<noteq> attr_none) ts))"

definition attr_types_contains_default :: "int list option \<Rightarrow> int \<Rightarrow> bool \<Rightarrow> bool" where
  "attr_types_contains_default types t deflt = (if types = None then deflt else attr_types_contains types t)"

definition ATTR_REL_MAXABS :: int where "ATTR_REL_MAXABS = 0x40000000"
definition ATTR_REL_RELSHIFT :: int where "ATTR_REL_RELSHIFT = 0x60000000"

definition attr_rel2real :: "int \<Rightarrow> int \<Rightarrow> bool \<Rightarrow> int" where
  "attr_rel2real attrval whole treat_neg_as_rel =
     (if ATTR_REL_MAXABS < attrval then cdiv (i32 (whole * (attrval - ATTR_REL_RELSHIFT))) 100
      else if treat_neg_as_rel \<and> attrval < 0 then i32 (whole + attrval)
      else attrval)"

end
