(* ===== verification/Attr_Spec.thy ===== *)
theory Attr_Spec
  imports Attr_List
begin

text \<open>
  What the operations on attribute lists do: copies, replacing and removing. Removing an attribute
  through its own cell of the list reads it after it was freed.
\<close>

section \<open>Lists whose attributes are allocated\<close>

definition attrs_ok :: "attr_heap \<Rightarrow> nat list \<Rightarrow> bool" where
  "attrs_ok h ps \<longleftrightarrow> distinct ps \<and> (\<forall>p \<in> set ps. \<exists>a. ah_attr h p = Some a \<and> attr_type_is_inline (at_type a))"

definition attr_at :: "attr_heap \<Rightarrow> nat \<Rightarrow> attr" where
  "attr_at h p = the (ah_attr h p)"

lemma attrs_ok_simps [simp]:
  "attrs_ok h []"
  "attrs_ok h (p # ps) \<longleftrightarrow> p \<notin> set ps \<and> attrs_ok h ps \<and> (\<exists>a. ah_attr h p = Some a \<and> attr_type_is_inline (at_type a))"
  by (auto simp: attrs_ok_def)

lemma attrs_ok_get: "attrs_ok h ps \<Longrightarrow> p \<in> set ps \<Longrightarrow> ah_attr h p = Some (attr_at h p)"
  by (force simp: attrs_ok_def attr_at_def)

lemma attrs_ok_cong:
  "(\<And>p. p \<in> set ps \<Longrightarrow> ah_attr h' p = ah_attr h p) \<Longrightarrow> attrs_ok h' ps = attrs_ok h ps"
  by (simp add: attrs_ok_def)

lemma attr_search_ok: "attrs_ok h ps \<Longrightarrow> attr_search h ps t = Some (find (\<lambda>p. at_type (attr_at h p) = t) ps)"
  by (induction ps) (auto simp: attr_at_def)

lemma attr_free_inline:
  "ah_attr h p = Some a \<Longrightarrow> attr_type_is_inline (at_type a)
    \<Longrightarrow> attr_free h p = Some (h\<lparr>ah_attr := (ah_attr h)(p := None)\<rparr>)"
  by (simp add: attr_free_def attr_free_content_do_def)

section \<open>Copies\<close>

definition is_range :: "int \<Rightarrow> bool" where
  "is_range t \<longleftrightarrow> t \<in> {attr_order, attr_sequence_range, attr_angle_range, attr_speed_range}"

lemma dup_inline:
  "attr_type_is_inline (at_type a) \<Longrightarrow> \<not> is_range (at_type a) \<Longrightarrow> attr_dup_content al h a = Some (a, h)"
  by (cases a) (auto simp: attr_type_is_inline_def is_range_def attr_dup_content_def Let_def)

lemma dup_string:
  assumes "attr_type_string_begin \<le> at_type a" "at_type a \<le> attr_type_string_end"
    and b: "at_u a \<noteq> 0" "ah_block h (at_u a) = Some bs" "c_strlen bs = Some n"
  shows "attr_dup_content al h a
    = Some (a\<lparr>at_u := al_block al h\<rparr>, h\<lparr>ah_block := (ah_block h)(al_block al h \<mapsto> take (Suc n) bs)\<rparr>)"
proof -
  have "n < length bs" using b(3) by (induction bs arbitrary: n) (auto split: if_splits)
  moreover have "attr_data_size h a = Some (n + 1)"
    using assms by (auto simp: attr_data_size_def attr_types Let_def)
  moreover have "\<not> at_type a \<le> attr_type_int_end" "at_type a \<noteq> attr_item_type" "\<not> attr_type_object_begin \<le> at_type a"
    using assms(1,2) by (simp_all add: attr_types)
  ultimately show ?thesis using b by (simp add: attr_dup_content_def Let_def)
qed

lemma dup_range: "is_range (at_type a) \<Longrightarrow> ah_block h (at_u a) = None \<Longrightarrow> attr_dup_content al h a = None"
proof -
  assume t: "is_range (at_type a)" and b: "ah_block h (at_u a) = None"
  have r: "at_type a \<in> {0x40001, 0x40005, 0x40006, 0x40007}" using t by (simp add: is_range_def attr_types)
  then have n: "attr_data_size h a = Some 4"
    unfolding attr_data_size_def Let_def attr_types by (elim insertE emptyE) simp_all
  have "\<not> at_type a \<le> attr_type_int_end" "at_type a \<noteq> attr_item_type" "\<not> attr_type_object_begin \<le> at_type a"
    using r by (auto simp: attr_types)
  then show ?thesis using n b by (simp add: attr_dup_content_def Let_def)
qed

text \<open>The copy of an attribute with a plain value has the same value and that of a string attribute
  its own copy of the text; an attribute that holds a range in place of an address is copied from the
  memory at that number, an invalid access unless the number happens to be an address.\<close>

theorem attr_dup_copies:
  assumes fresh: "fresh_allocator al h"
  shows "(attr_type_is_inline (at_type a) \<and> \<not> is_range (at_type a) \<longrightarrow>
      attr_dup al h a = Some (al_attr al h, h\<lparr>ah_attr := (ah_attr h)(al_attr al h \<mapsto> a)\<rparr>))
    \<and> (attr_type_string_begin \<le> at_type a \<and> at_type a \<le> attr_type_string_end \<and> at_u a \<noteq> 0
        \<and> ah_block h (at_u a) = Some (map (\<lambda>c. of_char c) s @ 0 # bs) \<and> c_string s \<longrightarrow>
      (\<exists>h'. attr_dup al h a = Some (al_attr al h, h') \<and> ah_block h' (at_u a) = ah_block h (at_u a)
         \<and> at_u (attr_at h' (al_attr al h)) \<noteq> at_u a
         \<and> ah_block h' (at_u (attr_at h' (al_attr al h))) = Some (map (\<lambda>c. of_char c) s @ [0])))
    \<and> (is_range (at_type a) \<and> ah_block h (at_u a) = None \<longrightarrow> attr_dup al h a = None)"
proof (intro conjI impI; (elim conjE)?)
  assume "attr_type_is_inline (at_type a)" "\<not> is_range (at_type a)"
  from dup_inline [OF this]
  show "attr_dup al h a = Some (al_attr al h, h\<lparr>ah_attr := (ah_attr h)(al_attr al h \<mapsto> a)\<rparr>)"
    by (simp add: attr_dup_def Let_def)
next
  assume a: "attr_type_string_begin \<le> at_type a" "at_type a \<le> attr_type_string_end" "at_u a \<noteq> 0"
    and b: "ah_block h (at_u a) = Some (map (\<lambda>c. of_char c) s @ 0 # bs)" "c_string s"
  have n: "c_strlen (map (\<lambda>c. of_char c) s @ 0 # bs) = Some (length s)"
    using b(2) by (induction s) auto
  have "at_u a \<noteq> al_block al h" using fresh b(1) by (auto simp: fresh_allocator_def)
  then show "\<exists>h'. attr_dup al h a = Some (al_attr al h, h') \<and> ah_block h' (at_u a) = ah_block h (at_u a)
      \<and> at_u (attr_at h' (al_attr al h)) \<noteq> at_u a
      \<and> ah_block h' (at_u (attr_at h' (al_attr al h))) = Some (map (\<lambda>c. of_char c) s @ [0])"
    by (simp add: attr_dup_def dup_string [OF a b(1) n] attr_at_def Let_def)
next
  assume "is_range (at_type a)" "ah_block h (at_u a) = None"
  from dup_range [OF this] show "attr_dup al h a = None" by (simp add: attr_dup_def Let_def)
qed

lemma attr_dup_copies_witness:
  "let h = \<lparr>ah_attr = Map.empty, ah_block = [5 \<mapsto> [97, 0]]\<rparr>; al = \<lparr>al_attr = \<lambda>_. 7, al_block = \<lambda>_. 9\<rparr>
   in (\<exists>h'. attr_dup al h \<lparr>at_type = attr_label, at_u = 5\<rparr> = Some (7, h')
        \<and> ah_block h' (at_u (attr_at h' 7)) = Some [97, 0])
    \<and> attr_dup al h \<lparr>at_type = attr_order, at_u = 65537\<rparr> = None"
proof -
  let ?h = "\<lparr>ah_attr = Map.empty, ah_block = [5 \<mapsto> [97, 0]]\<rparr>" and ?al = "\<lparr>al_attr = \<lambda>_. 7, al_block = \<lambda>_. 9\<rparr>"
  have f: "fresh_allocator ?al ?h" by (simp add: fresh_allocator_def)
  have c: "c_string ''a''" by code_simp
  show ?thesis
    using attr_dup_copies [OF f, of "\<lparr>at_type = attr_label, at_u = 5\<rparr>" "''a''" "[]"]
      attr_dup_copies [OF f, of "\<lparr>at_type = attr_order, at_u = 65537\<rparr>" "''a''" "[]"] c
    by (auto simp: Let_def attr_types is_range_def)
qed

section \<open>Removing\<close>

lemma remove_found_ok:
  "attrs_ok h ps \<Longrightarrow> ah_attr h q = Some b \<Longrightarrow> remove_found h ps q = Some (\<exists>p \<in> set ps. attr_at h p = b)"
proof (induction ps)
  case (Cons p ps)
  then show ?case by (cases "attr_at h p"; cases b) (auto simp: attr_same_def attr_at_def)
qed simp

lemma remove_copy_skip:
  assumes "attrs_ok h ps" "ah_attr h q = Some b" "\<forall>p \<in> set us. attr_at h p \<noteq> b" "ps = us @ vs"
  shows "remove_copy h ps q = map_option (\<lambda>(rs, h). (us @ rs, h)) (remove_copy h vs q)"
  using assms
proof (induction us arbitrary: ps)
  case Nil
  then show ?case by (simp add: option.map_ident case_prod_beta)
next
  case (Cons u us)
  obtain a where a: "ah_attr h u = Some a" using Cons.prems by auto
  have "attr_same h u q = Some False"
    using Cons.prems a by (cases a; cases b) (auto simp: attr_same_def attr_at_def)
  moreover have "remove_copy h (us @ vs) q = map_option (\<lambda>(rs, h). (us @ rs, h)) (remove_copy h vs q)"
    using Cons.prems by (intro Cons.IH) auto
  ultimately show ?case using Cons.prems
    by (cases "remove_copy h vs q") auto
qed

text \<open>Removing an attribute that is in the list under the address it is removed by, as all callers
  that found it with \<open>attr_search\<close> do, works only when it is the last one; otherwise the attribute is
  read again after it was freed.\<close>

theorem attr_remove_self:
  assumes ok: "attrs_ok h (us @ q # vs)"
    and only: "\<forall>p \<in> set (us @ vs). attr_at h p \<noteq> attr_at h q"
  shows "attr_generic_remove_attr h (Some (us @ q # vs)) q =
    (if vs = [] then Some (Some us, h\<lparr>ah_attr := (ah_attr h)(q := None)\<rparr>) else None)"
proof -
  obtain b where b: "ah_attr h q = Some b" "attr_type_is_inline (at_type b)"
    using ok by (auto simp: attrs_ok_def)
  then have bq: "attr_at h q = b" by (simp add: attr_at_def)
  let ?h = "h\<lparr>ah_attr := (ah_attr h)(q := None)\<rparr>"
  have "\<exists>p \<in> set (us @ q # vs). attr_at h p = b" using bq by auto
  then have f: "remove_found h (us @ q # vs) q = Some True" using remove_found_ok [OF ok b(1)] by simp
  have "attr_same h q q = Some True" using b by (simp add: attr_same_def)
  moreover have "remove_copy ?h vs q = (if vs = [] then Some ([], ?h) else None)"
    by (cases vs) (auto simp: attr_same_def split: option.splits bind_splits)
  ultimately have "remove_copy h (q # vs) q = (if vs = [] then Some ([], ?h) else None)"
    using attr_free_inline [OF b] by simp
  then show ?thesis
    using remove_copy_skip [OF ok b(1), of us "q # vs"] only bq f by (simp add: attr_generic_remove_attr_def)
qed

lemma attr_remove_self_witness:
  "let h = \<lparr>ah_attr = [1 \<mapsto> \<lparr>at_type = attr_maxspeed, at_u = 30\<rparr>, 2 \<mapsto> \<lparr>at_type = attr_delay, at_u = 600\<rparr>], ah_block = Map.empty\<rparr>
   in attr_search h [1, 2] attr_maxspeed = Some (Some 1) \<and> attr_generic_remove_attr h (Some [1, 2]) 1 = None"
proof -
  let ?h = "\<lparr>ah_attr = [1 \<mapsto> \<lparr>at_type = attr_maxspeed, at_u = 30\<rparr>, 2 \<mapsto> \<lparr>at_type = attr_delay, at_u = 600\<rparr>], ah_block = Map.empty\<rparr>"
  have "attrs_ok ?h ([] @ 1 # [2])" "\<forall>p \<in> set ([] @ [2 :: nat]). attr_at ?h p \<noteq> attr_at ?h 1"
    by (auto simp: attr_type_is_inline_def attr_types attr_at_def)
  from attr_remove_self [OF this] show ?thesis by (simp add: attr_types)
qed

end
