(* ===== verification/Item_Types.thy ===== *)
theory Item_Types
  imports C_String "HOL-Library.Multiset"
begin

text \<open>
  The item types of \<open>item_def.h\<close>, in the order of the file, the enumeration the compiler makes
  of them (\<open>enum item_type\<close>), the table of names of \<open>item.c\<close> and the conversions between
  both.
\<close>

datatype item_def = ITEM2 int string | ITEM string

text \<open>\<open>enum item_type\<close>: an entry without a value gets the value after the entry before.\<close>

fun enum_items :: "int \<Rightarrow> item_def list \<Rightarrow> (string \<times> int) list" where
  "enum_items n [] = []"
| "enum_items n (ITEM2 x y # ds) = (y, x) # enum_items (x + 1) ds"
| "enum_items n (ITEM y # ds) = (y, n) # enum_items (n + 1) ds"

section \<open>The types of item-def.h\<close>

definition item_def_1 :: "item_def list" where
  "item_def_1 = [
    ITEM2 0x00000000 ''none'', ITEM2 0x00000001 ''point_unspecified'', ITEM ''town_streets'',
    ITEM ''street_name'', ITEM ''street_name_numbers'', ITEM ''street_number'', ITEM ''position_sat'',
    ITEM2 0x00010000 ''town_label'', ITEM2 0x00010001 ''town_label_0e0'', ITEM2 0x00010002 ''town_label_1e0'',
    ITEM2 0x00010003 ''town_label_2e0'', ITEM2 0x00010004 ''town_label_5e0'',
    ITEM2 0x00010005 ''town_label_1e1'', ITEM2 0x00010006 ''town_label_2e1'',
    ITEM2 0x00010007 ''town_label_5e1'', ITEM2 0x00010008 ''town_label_1e2'',
    ITEM2 0x00010009 ''town_label_2e2'', ITEM2 0x0001000a ''town_label_5e2'',
    ITEM2 0x0001000b ''town_label_1e3'', ITEM2 0x0001000c ''town_label_2e3'',
    ITEM2 0x0001000d ''town_label_5e3'', ITEM2 0x0001000e ''town_label_1e4'',
    ITEM2 0x0001000f ''town_label_2e4'', ITEM2 0x00010010 ''town_label_5e4'',
    ITEM2 0x00010011 ''town_label_1e5'', ITEM2 0x00010012 ''town_label_2e5'',
    ITEM2 0x00010013 ''town_label_5e5'', ITEM2 0x00010014 ''town_label_1e6'',
    ITEM2 0x00010015 ''town_label_2e6'', ITEM2 0x00010016 ''town_label_5e6'',
    ITEM2 0x00010017 ''town_label_1e7'', ITEM2 0x00010100 ''district_label'',
    ITEM2 0x00010101 ''district_label_0e0'', ITEM2 0x00010102 ''district_label_1e0'',
    ITEM2 0x00010103 ''district_label_2e0'', ITEM2 0x00010104 ''district_label_5e0'',
    ITEM2 0x00010105 ''district_label_1e1'', ITEM2 0x00010106 ''district_label_2e1'',
    ITEM2 0x00010107 ''district_label_5e1'', ITEM2 0x00010108 ''district_label_1e2'',
    ITEM2 0x00010109 ''district_label_2e2'', ITEM2 0x0001010a ''district_label_5e2'',
    ITEM2 0x0001010b ''district_label_1e3'', ITEM2 0x0001010c ''district_label_2e3'',
    ITEM2 0x0001010d ''district_label_5e3'', ITEM2 0x0001010e ''district_label_1e4'',
    ITEM2 0x0001010f ''district_label_2e4'', ITEM2 0x00010110 ''district_label_5e4'',
    ITEM2 0x00010111 ''district_label_1e5'', ITEM2 0x00010112 ''district_label_2e5'',
    ITEM2 0x00010113 ''district_label_5e5'', ITEM2 0x00010114 ''district_label_1e6'',
    ITEM2 0x00010115 ''district_label_2e6'', ITEM2 0x00010116 ''district_label_5e6'',
    ITEM2 0x00010117 ''district_label_1e7'', ITEM ''country_label'', ITEM ''town_ghost'',
    ITEM ''highway_exit_label'', ITEM ''port_label'', ITEM ''label_unkn'', ITEM ''highway_exit'',
    ITEM ''poi_lake'', ITEM ''poi_island'', ITEM ''poi'', ITEM ''waypoint'', ITEM ''trackpoint'',
    ITEM ''bookmark'', ITEM ''former_destination'', ITEM ''poi_land_feature'', ITEM ''poi_cape'',
    ITEM ''poi_rock'', ITEM ''poi_airport'', ITEM ''poi_toll_booth'', ITEM ''poi_fuel'', ITEM ''poi_hotel'',
    ITEM ''poi_camp_rv'', ITEM ''poi_marina'', ITEM ''poi_attraction'', ITEM ''poi_museum_history'',
    ITEM ''poi_shopping'', ITEM ''poi_car_dealer_parts'', ITEM ''poi_car_parking'', ITEM ''poi_wreck'',
    ITEM ''poi_building'', ITEM ''poi_bridge'', ITEM ''poi_park'', ITEM ''poi_water_feature'',
    ITEM ''poi_bar'', ITEM ''poi_picnic'', ITEM ''poi_hospital'', ITEM ''poi_camping'',
    ITEM ''poi_public_utilities'', ITEM ''poi_burgerking'', ITEM ''poi_kfc'', ITEM ''poi_mcdonalds'',
    ITEM ''poi_wienerwald'', ITEM ''poi_dining'', ITEM ''poi_fastfood'', ITEM ''poi_police'',
    ITEM ''poi_auto_club'', ITEM ''poi_autoservice'', ITEM ''poi_bank'', ITEM ''poi_bay'', ITEM ''poi_bend'',
    ITEM ''poi_boat_ramp'', ITEM ''poi_border_station'', ITEM ''poi_bowling'', ITEM ''poi_bus_station'',
    ITEM ''poi_bus_stop'', ITEM ''poi_business_service'', ITEM ''poi_car_rent'', ITEM ''poi_car_wash'',
    ITEM ''poi_casino'', ITEM ''poi_cemetery'', ITEM ''poi_church'', ITEM ''poi_cinema'',
    ITEM ''poi_civil_removeme'', ITEM ''poi_communication'', ITEM ''poi_concert'', ITEM ''poi_cove'',
    ITEM ''poi_crossing'', ITEM ''poi_dam'', ITEM ''poi_danger_area'', ITEM ''poi_danger_sea_wreck'',
    ITEM ''poi_daymark'', ITEM ''poi_diving'', ITEM ''poi_drinking_water'', ITEM ''poi_emergency'',
    ITEM ''poi_fair'', ITEM ''poi_firebrigade'', ITEM ''poi_fish'', ITEM ''poi_forbidden_area'',
    ITEM ''poi_shop_gps'', ITEM ''poi_golf'', ITEM ''poi_government_building'', ITEM ''poi_height'',
    ITEM ''poi_heliport'', ITEM ''poi_hotspring'', ITEM ''poi_icesport'', ITEM ''poi_information'',
    ITEM ''poi_justice'', ITEM ''poi_landmark'', ITEM ''poi_levee'', ITEM ''poi_library'', ITEM ''poi_locale'',
    ITEM ''poi_loudspeaker'', ITEM ''poi_mall'']"

definition item_def_2 :: "item_def list" where
  "item_def_2 = [
    ITEM ''poi_manmade_feature'', ITEM ''poi_marine'', ITEM ''poi_marine_type'', ITEM ''poi_mark'',
    ITEM ''poi_military'', ITEM ''poi_mine'', ITEM ''poi_nondangerous'', ITEM ''poi_oil_field'',
    ITEM ''poi_personal_service'', ITEM ''poi_pharmacy'', ITEM ''poi_post_removeme'',
    ITEM ''poi_public_office'', ITEM ''poi_repair_service'', ITEM ''poi_resort'',
    ITEM ''poi_rest_room_removeme'', ITEM ''poi_restaurant'', ITEM ''poi_restricted_area'',
    ITEM ''poi_restroom'', ITEM ''poi_sailing'', ITEM ''poi_scenic_area'', ITEM ''poi_school'',
    ITEM ''poi_service'', ITEM ''poi_shop_apparel'', ITEM ''poi_shop_computer'', ITEM ''poi_shop_department'',
    ITEM ''poi_shop_furnish_removeme'', ITEM ''poi_shop_grocery'', ITEM ''poi_shop_handg'',
    ITEM ''poi_shop_merchandise'', ITEM ''poi_shop_retail'', ITEM ''poi_shower'', ITEM ''poi_skiing'',
    ITEM ''poi_social_service'', ITEM ''poi_sounding'', ITEM ''poi_sport'', ITEM ''poi_stadium'',
    ITEM ''poi_subdivision_removeme'', ITEM ''poi_swimming'', ITEM ''poi_telephone'', ITEM ''poi_theater'',
    ITEM ''poi_tide'', ITEM ''poi_tower'', ITEM ''poi_trail'', ITEM ''poi_truck_stop'', ITEM ''poi_tunnel'',
    ITEM ''poi_wine'', ITEM ''poi_worship'', ITEM ''poi_wrecker'', ITEM ''poi_zoo'', ITEM ''rg_point'',
    ITEM ''point_unkn'', ITEM ''traffic_signals'', ITEM ''poi_gc_multi'', ITEM ''poi_gc_tradi'',
    ITEM ''poi_gc_event'', ITEM ''poi_gc_mystery'', ITEM ''poi_gc_question'', ITEM ''poi_gc_stages'',
    ITEM ''poi_gc_reference'', ITEM ''poi_gc_webcam'', ITEM ''poi_cafe'', ITEM ''nav_straight'',
    ITEM ''nav_turnaround'', ITEM ''nav_right_1'', ITEM ''nav_right_2'', ITEM ''nav_right_3'',
    ITEM ''nav_left_1'', ITEM ''nav_left_2'', ITEM ''nav_left_3'', ITEM ''nav_roundabout_r1'',
    ITEM ''nav_roundabout_r2'', ITEM ''nav_roundabout_r3'', ITEM ''nav_roundabout_r4'',
    ITEM ''nav_roundabout_r5'', ITEM ''nav_roundabout_r6'', ITEM ''nav_roundabout_r7'',
    ITEM ''nav_roundabout_r8'', ITEM ''nav_roundabout_l1'', ITEM ''nav_roundabout_l2'',
    ITEM ''nav_roundabout_l3'', ITEM ''nav_roundabout_l4'', ITEM ''nav_roundabout_l5'',
    ITEM ''nav_roundabout_l6'', ITEM ''nav_roundabout_l7'', ITEM ''nav_roundabout_l8'', ITEM ''poi_peak'',
    ITEM ''poi_rail_station'', ITEM ''poi_image'', ITEM ''mini_roundabout'', ITEM ''turning_circle'',
    ITEM ''poi_townhall'', ITEM ''poi_level_crossing'', ITEM ''poi_rail_halt'', ITEM ''poi_rail_tram_stop'',
    ITEM ''poi_wifi'', ITEM ''poi_bench'', ITEM ''poi_biergarten'', ITEM ''poi_boundary_stone'',
    ITEM ''poi_castle'', ITEM ''poi_hunting_stand'', ITEM ''poi_memorial'', ITEM ''poi_monument'',
    ITEM ''poi_shelter'', ITEM ''poi_fountain'', ITEM ''poi_potable_water'', ITEM ''poi_toilets'',
    ITEM ''poi_viewpoint'', ITEM ''poi_ruins'', ITEM ''nav_none'', ITEM ''nav_position'',
    ITEM ''nav_destination'', ITEM ''tec_common'', ITEM ''trackpoint_tracked'', ITEM ''announcement'',
    ITEM ''poi_post_box'', ITEM ''poi_post_office'', ITEM ''poi_school_university'',
    ITEM ''poi_school_college'', ITEM ''poi_motel'', ITEM ''poi_guesthouse'', ITEM ''poi_hostel'',
    ITEM ''poi_taxi'', ITEM ''poi_prison'', ITEM ''poi_kindergarten'', ITEM ''poi_shop_butcher'',
    ITEM ''poi_shop_baker'', ITEM ''poi_shop_kiosk'', ITEM ''poi_soccer'', ITEM ''poi_basketball'',
    ITEM ''poi_baseball'', ITEM ''poi_climbing'', ITEM ''poi_motor_sport'', ITEM ''poi_tennis'',
    ITEM ''house_number'', ITEM ''route_start'', ITEM ''route_end'', ITEM ''selected_point'',
    ITEM ''power_tower'', ITEM ''route_start_reverse'', ITEM ''log_entry'', ITEM ''poi_playground'',
    ITEM ''barrier_cycle'', ITEM ''barrier_bollard'', ITEM ''poi_vending_machine'', ITEM ''poi_recycling'',
    ITEM ''poi_hairdresser'', ITEM ''poi_shop_fruit'', ITEM ''poi_shop_bicycle'']"

definition item_def_3 :: "item_def list" where
  "item_def_3 = [
    ITEM ''poi_shop_florist'', ITEM ''poi_shop_optician'', ITEM ''poi_shop_beverages'', ITEM ''poi_nightclub'',
    ITEM ''poi_shop_shoes'', ITEM ''power_substation'', ITEM ''barrier_lift_gate'', ITEM ''traffic_sign_stop'',
    ITEM ''traffic_sign_city_limit'', ITEM ''poi_tree'', ITEM ''poi_shop_furniture'', ITEM ''poi_shop_parfum'',
    ITEM ''poi_bicycle_rental'', ITEM ''poi_bicycle_parking'', ITEM ''poi_car_sharing'',
    ITEM ''poi_shop_drugstore'', ITEM ''poi_shop_photo'', ITEM ''ch_node'', ITEM ''place_label'',
    ITEM ''vehicle'', ITEM ''vehicle_pedestrian'', ITEM ''bookmark_folder'', ITEM ''poi_pub'',
    ITEM ''poi_atm'', ITEM ''poi_taoist'', ITEM ''poi_sikh'', ITEM ''poi_shinto'', ITEM ''poi_pastafarian'',
    ITEM ''poi_pagan'', ITEM ''poi_jewish'', ITEM ''poi_jain'', ITEM ''poi_islamic'', ITEM ''poi_hindu'',
    ITEM ''poi_buddhist'', ITEM ''poi_bahai'', ITEM ''found_item'', ITEM ''nav_merge_left'',
    ITEM ''nav_merge_right'', ITEM ''nav_turnaround_left'', ITEM ''nav_turnaround_right'',
    ITEM ''nav_exit_left'', ITEM ''nav_exit_right'', ITEM ''nav_keep_left'', ITEM ''nav_keep_right'',
    ITEM ''poi_cave'', ITEM ''poi_archaeological_site'', ITEM ''poi_charging_station'',
    ITEM2 0x7fffffe0 ''poi_customg'', ITEM ''poi_customh'', ITEM ''poi_customi'', ITEM ''poi_customj'',
    ITEM ''poi_customk'', ITEM ''poi_customl'', ITEM ''poi_customm'', ITEM ''poi_customn'',
    ITEM ''poi_customo'', ITEM ''poi_customp'', ITEM ''poi_customq'', ITEM ''poi_customr'',
    ITEM ''poi_customs'', ITEM ''poi_customt'', ITEM ''poi_customu'', ITEM ''poi_customv'',
    ITEM ''poi_custom0'', ITEM ''poi_custom1'', ITEM ''poi_custom2'', ITEM ''poi_custom3'',
    ITEM ''poi_custom4'', ITEM ''poi_custom5'', ITEM ''poi_custom6'', ITEM ''poi_custom7'',
    ITEM ''poi_custom8'', ITEM ''poi_custom9'', ITEM ''poi_customa'', ITEM ''poi_customb'',
    ITEM ''poi_customc'', ITEM ''poi_customd'', ITEM ''poi_custome'', ITEM ''poi_customf'',
    ITEM2 0x80000000 ''line'', ITEM2 0x80000001 ''line_unspecified'', ITEM ''border_country'',
    ITEM ''border_state'', ITEM ''rail'', ITEM ''water_line'', ITEM ''street_nopass'', ITEM ''street_0'',
    ITEM ''street_1_city'', ITEM ''street_2_city'', ITEM ''street_3_city'', ITEM ''street_4_city'',
    ITEM ''highway_city'', ITEM ''street_1_land'', ITEM ''street_2_land'', ITEM ''street_3_land'',
    ITEM ''street_4_land'', ITEM ''street_n_lanes'', ITEM ''highway_land'', ITEM ''ramp'', ITEM ''roundabout'',
    ITEM ''ferry'', ITEM ''roadbook'', ITEM ''street_unkn'', ITEM ''street_route'', ITEM ''height_line_1'',
    ITEM ''height_line_2'', ITEM ''track'', ITEM ''height_line_3'', ITEM ''depth_line_1'',
    ITEM ''depth_line_2'', ITEM ''depth_line_3'', ITEM ''powerline'', ITEM ''pipeline'', ITEM ''time_zone'',
    ITEM ''marine_boundary'', ITEM ''marine_hazard'', ITEM ''rg_segment'', ITEM ''aeroway_runway'',
    ITEM ''aeroway_taxiway'', ITEM ''street_service'', ITEM ''coverage'', ITEM ''street_pedestrian'',
    ITEM ''bridge'', ITEM ''tunnel'', ITEM ''bridleway'', ITEM ''cycleway'', ITEM ''footway'', ITEM ''steps'',
    ITEM ''track_paved'', ITEM ''track_gravelled'', ITEM ''track_unpaved'', ITEM ''track_ground'',
    ITEM ''track_grass'', ITEM ''rail_narrow_gauge'', ITEM ''rail_light'', ITEM ''rail_subway'',
    ITEM ''rail_mono'', ITEM ''rail_tram'', ITEM ''rail_preserved'', ITEM ''rail_disused'',
    ITEM ''rail_abandoned'', ITEM ''lift_cable_car'', ITEM ''lift_chair'', ITEM ''lift_drag'',
    ITEM ''living_street'', ITEM ''bus_guideway'', ITEM ''street_construction'']"

definition item_def_4 :: "item_def list" where
  "item_def_4 = [
    ITEM ''border_civil'', ITEM ''border_political'', ITEM ''border_national_park'', ITEM ''water_river'',
    ITEM ''water_canal'', ITEM ''water_stream'', ITEM ''water_drain'', ITEM ''path'', ITEM ''hiking'',
    ITEM ''hiking_mountain'', ITEM ''hiking_mountain_demanding'', ITEM ''hiking_alpine'',
    ITEM ''hiking_alpine_demanding'', ITEM ''hiking_alpine_difficult'', ITEM ''street_parking_lane'',
    ITEM ''piste_nordic'', ITEM ''piste_downhill_novice'', ITEM ''piste_downhill_easy'',
    ITEM ''piste_downhill_intermediate'', ITEM ''piste_downhill_advanced'', ITEM ''piste_downhill_expert'',
    ITEM ''piste_downhill_freeride'', ITEM ''footway_and_piste_nordic'', ITEM ''tracking_0'',
    ITEM ''tracking_10'', ITEM ''tracking_20'', ITEM ''tracking_30'', ITEM ''tracking_40'',
    ITEM ''tracking_50'', ITEM ''tracking_60'', ITEM ''tracking_70'', ITEM ''tracking_80'',
    ITEM ''tracking_90'', ITEM ''tracking_100'', ITEM ''track_tracked'',
    ITEM ''house_number_interpolation_even'', ITEM ''house_number_interpolation_odd'',
    ITEM ''house_number_interpolation_all'', ITEM ''house_number_interpolation_alphabetic'', ITEM ''ditch'',
    ITEM ''hedge'', ITEM ''fence'', ITEM ''wall'', ITEM ''retaining_wall'', ITEM ''city_wall'',
    ITEM ''street_turn_restriction_no'', ITEM ''street_turn_restriction_only'', ITEM ''border_city'',
    ITEM ''border_county'', ITEM ''selected_line'', ITEM ''traffic_distortion'',
    ITEM ''street_route_occluded'', ITEM ''forest_way_1'', ITEM ''forest_way_2'', ITEM ''forest_way_3'',
    ITEM ''forest_way_4'', ITEM ''former_itinerary'', ITEM ''former_itinerary_part'', ITEM ''cliff'',
    ITEM ''sports_track'', ITEM ''archaeological_site'', ITEM ''embankment'', ITEM2 0xc0000000 ''area'',
    ITEM2 0xc0000001 ''area_unspecified'', ITEM ''poly_wood'', ITEM ''poly_water'', ITEM ''poly_town'',
    ITEM ''poly_cemetery'', ITEM ''poly_car_parking'', ITEM ''poly_industry'', ITEM ''poly_airport'',
    ITEM ''poly_hospital'', ITEM ''poly_park'', ITEM ''poly_sport'', ITEM ''poly_museum'', ITEM ''image'',
    ITEM ''image_path'', ITEM ''poly_commercial_center'', ITEM ''poly_golf_course'', ITEM ''poly_university'',
    ITEM ''poly_national_park'', ITEM ''poly_nature_park'', ITEM ''poly_flats'', ITEM ''poly_scrub'',
    ITEM ''poly_military_zone'', ITEM ''poly_marine'', ITEM ''plantation'', ITEM ''tundra'', ITEM ''tile'',
    ITEM ''submap'', ITEM ''poly_building'', ITEM ''poly_place'', ITEM ''poly_station'', ITEM ''poly_farm'',
    ITEM ''poly_sport_tennis'', ITEM ''poly_apron'', ITEM ''poly_terminal'', ITEM ''countryindex'',
    ITEM ''poly_sports_centre'', ITEM ''poly_sports_stadium'', ITEM ''poly_sports_track'',
    ITEM ''poly_sports_pitch'', ITEM ''poly_water_park'', ITEM ''poly_marina'', ITEM ''poly_fishing'',
    ITEM ''poly_theme_park'', ITEM ''poly_attraction'', ITEM ''poly_ruins'', ITEM ''poly_archaeological_site'',
    ITEM ''poly_artwork'', ITEM ''poly_zoo'', ITEM ''poly_camp_site'', ITEM ''poly_caravan_site'',
    ITEM ''poly_picnic_site'', ITEM ''poly_playground'', ITEM ''poly_allotments'', ITEM ''poly_village_green'',
    ITEM ''poly_recreation_ground'', ITEM ''poly_common'', ITEM ''poly_garden'', ITEM ''poly_nature_reserve'',
    ITEM ''poly_glacier'', ITEM ''poly_scree'', ITEM ''poly_fell'', ITEM ''poly_heath'', ITEM ''poly_marsh'',
    ITEM ''poly_mud'', ITEM ''poly_land'', ITEM ''poly_beach'', ITEM ''poly_quarry'', ITEM ''poly_landfill'',
    ITEM ''poly_retail'', ITEM ''poly_commercial'', ITEM ''poly_brownfield'', ITEM ''poly_greenfield'',
    ITEM ''poly_construction'', ITEM ''poly_railway'', ITEM ''poly_military'', ITEM ''poly_airfield'',
    ITEM ''poly_barracks'', ITEM ''poly_danger_area'', ITEM ''poly_range'', ITEM ''poly_naval_base'',
    ITEM ''poly_basin'', ITEM ''poly_reservoir'', ITEM ''poly_college'', ITEM ''poly_battlefield'']"

definition item_def_5 :: "item_def list" where
  "item_def_5 = [
    ITEM ''poly_pedestrian'', ITEM ''poly_plaza'', ITEM ''poly_service'', ITEM ''poly_street_1'',
    ITEM ''poly_street_2'', ITEM ''poly_street_3'', ITEM ''poly_wetland'', ITEM ''poly_aeroway_runway'',
    ITEM ''map_information'', ITEM ''selected_area'', ITEM ''poly_place1'', ITEM ''poly_place2'',
    ITEM ''poly_place3'', ITEM ''poly_place4'', ITEM ''poly_place5'', ITEM ''poly_place6'',
    ITEM ''poly_water_tiled'', ITEM ''poly_meadow'', ITEM ''poly_depot'', ITEM ''poly_garages'',
    ITEM ''poly_greenhouse'', ITEM ''poly_orchard'', ITEM ''poly_plantnursery'', ITEM ''poly_port'',
    ITEM ''poly_saltpond'', ITEM ''poly_dam'', ITEM ''poly_swimming_pool'', ITEM2 0xffffffff ''last'']"


definition item_names :: "(string \<times> int) list" where
  "item_names = enum_items 0 (item_def_1 @ item_def_2 @ item_def_3 @ item_def_4 @ item_def_5)"

section \<open>Names\<close>

definition item_create_hash :: "string \<rightharpoonup> int" where
  "item_create_hash = fold (\<lambda>(name, t) h. h(name \<mapsto> t)) item_names (\<lambda>_. None)"

definition item_from_name :: "(string \<rightharpoonup> int) option \<Rightarrow> string \<Rightarrow> int" where
  "item_from_name item_hash name = (case item_hash of
       Some h \<Rightarrow> (case h name of Some t \<Rightarrow> t | None \<Rightarrow> 0)
     | None \<Rightarrow> (case find (\<lambda>(n, _). n = name) item_names of Some (_, t) \<Rightarrow> t | None \<Rightarrow> 0))"

definition item_to_name :: "int \<Rightarrow> string option" where
  "item_to_name item = map_option fst (find (\<lambda>(_, t). t = item) item_names)"

section \<open>The table has no duplicates\<close>

text \<open>A merge sort and a checksum of the names, to evaluate that they are distinct.\<close>

fun merge_ints :: "int list \<Rightarrow> int list \<Rightarrow> int list" where
  "merge_ints [] ys = ys"
| "merge_ints xs [] = xs"
| "merge_ints (x # xs) (y # ys) = (if x \<le> y then x # merge_ints xs (y # ys) else y # merge_ints (x # xs) ys)"

fun merge_pairs :: "int list list \<Rightarrow> int list list" where
  "merge_pairs (xs # ys # zss) = merge_ints xs ys # merge_pairs zss"
| "merge_pairs xss = xss"

fun merge_rounds :: "nat \<Rightarrow> int list list \<Rightarrow> int list" where
  "merge_rounds 0 xss = concat xss"
| "merge_rounds (Suc n) xss = merge_rounds n (merge_pairs xss)"

fun ascending :: "int list \<Rightarrow> bool" where
  "ascending (x # y # xs) \<longleftrightarrow> x < y \<and> ascending (y # xs)"
| "ascending xs \<longleftrightarrow> True"

lemma mset_merge_ints [simp]: "mset (merge_ints xs ys) = mset xs + mset ys"
  by (induction xs ys rule: merge_ints.induct) auto

lemma mset_merge_pairs [simp]: "mset (concat (merge_pairs xss)) = mset (concat xss)"
  by (induction xss rule: merge_pairs.induct) (simp_all add: add.assoc)

lemma mset_merge_rounds [simp]: "mset (merge_rounds n xss) = mset (concat xss)"
  by (induction n xss rule: merge_rounds.induct) (simp_all del: mset_concat)

lemma ascending_distinct: "ascending xs \<Longrightarrow> distinct xs"
proof -
  have *: "ascending (x # xs) \<Longrightarrow> y \<in> set xs \<Longrightarrow> x < y" for x y xs
    by (induction xs arbitrary: x) (auto, fastforce)
  show "ascending xs \<Longrightarrow> distinct xs"
    by (induction xs rule: ascending.induct) (use * in fastforce)+
qed

fun checksum :: "int \<Rightarrow> string \<Rightarrow> int" where
  "checksum k [] = k"
| "checksum k (c # s) = checksum ((21 * k + of_char c) mod 131072) s"

definition sort_names :: "int list" where
  "sort_names = merge_rounds 10 (map (\<lambda>(n, _). [checksum 0 n]) item_names)"

lemma item_values_ascending: "ascending (map snd item_names)"
  by code_simp

lemma sort_names_ascending: "ascending sort_names"
  by code_simp

lemma item_values_distinct: "distinct (map snd item_names)"
  by (rule ascending_distinct [OF item_values_ascending])

lemma concat_singletons: "concat (map (\<lambda>(n, _). [f n]) xs) = map (\<lambda>x. f (fst x)) xs"
  by (induction xs) auto

lemma item_names_distinct: "distinct (map fst item_names)"
proof -
  have "mset sort_names = mset (map (checksum 0) (map fst item_names))"
    unfolding sort_names_def mset_merge_rounds by (simp only: concat_singletons map_map comp_def)
  from mset_eq_imp_distinct_iff [OF this] have "distinct (map (checksum 0) (map fst item_names))"
    using ascending_distinct [OF sort_names_ascending] by blast
  then show ?thesis by (simp only: distinct_map)
qed

section \<open>The conversions are inverse\<close>

lemma item_names_none: "item_names = (''none'', 0) # tl item_names"
  by (simp add: item_names_def item_def_1_def)

lemma find_assoc: "distinct (map fst xs) \<Longrightarrow> find (\<lambda>(n, _). n = k) xs = map_option (Pair k) (map_of xs k)"
  by (induction xs) auto

lemma find_value:
  "distinct (map snd xs) \<Longrightarrow> map_option fst (find (\<lambda>(_, t). t = v) xs) = Some n \<longleftrightarrow> (n, v) \<in> set xs"
  by (induction xs) (auto intro: rev_image_eqI)

lemma fold_upd_map_of:
  "distinct (map fst xs) \<Longrightarrow> fold (\<lambda>(n, t) h. h(n \<mapsto> t)) xs m = m ++ map_of xs"
proof (induction xs arbitrary: m)
  case (Cons x xs)
  obtain n t where x: "x = (n, t)" by force
  then have "map_of xs n = None" using Cons.prems by (simp add: map_of_eq_None_iff)
  then show ?case using Cons x by (auto simp: map_add_def fun_eq_iff split: option.splits)
qed simp

lemma item_create_hash_eq: "item_create_hash = map_of item_names"
  using fold_upd_map_of [OF item_names_distinct, of "\<lambda>_. None"] by (simp add: item_create_hash_def)

text \<open>Both lookups, through the hash table and through the list, give the same type.\<close>

lemma item_from_name_eq:
  assumes "h = None \<or> h = Some item_create_hash"
  shows "item_from_name h name = (case map_of item_names name of Some t \<Rightarrow> t | None \<Rightarrow> 0)"
  using assms by (auto simp: item_from_name_def item_create_hash_eq find_assoc [OF item_names_distinct]
      split: option.splits)

lemma item_to_name_eq: "item_to_name t = Some n \<longleftrightarrow> (n, t) \<in> set item_names"
  unfolding item_to_name_def by (rule find_value [OF item_values_distinct])

lemma item_from_name_mem:
  assumes "h = None \<or> h = Some item_create_hash" "(n, t) \<in> set item_names"
  shows "item_from_name h n = t"
  using assms item_names_distinct by (simp add: item_from_name_eq)

text \<open>Every item type has one name and is found again under it, with and without the hash table
  of the names; a name that no type has is read as \<open>type_none\<close>.\<close>

theorem item_names_roundtrip:
  "item_to_name (item_from_name None n) = Some (if n \<in> fst ` set item_names then n else ''none'')
   \<and> item_from_name (Some item_create_hash) n = item_from_name None n
   \<and> (item_to_name t = Some n \<longleftrightarrow> (n, t) \<in> set item_names)
   \<and> (item_from_name None n = t \<longleftrightarrow> (n, t) \<in> set item_names \<or> t = 0 \<and> n \<notin> fst ` set item_names)"
proof -
  let ?ns = "item_names"
  have none: "(''none'', 0) \<in> set ?ns" by (subst item_names_none) simp
  have eq: "item_from_name None n = (case map_of ?ns n of Some u \<Rightarrow> u | None \<Rightarrow> 0)"
    "item_from_name (Some item_create_hash) n = item_from_name None n"
    by (simp_all add: item_from_name_eq)
  show ?thesis
  proof (cases "map_of ?ns n")
    case None
    then have n: "n \<notin> fst ` set ?ns" by (simp add: map_of_eq_None_iff)
    then have nt: "(n, t) \<notin> set ?ns" by force
    have z: "item_from_name None n = 0" using None eq(1) by simp
    have "item_to_name 0 = Some ''none''" using none by (simp only: item_to_name_eq)
    then show ?thesis using n nt by (auto simp: eq(2) z item_to_name_eq)
  next
    case (Some u)
    then have m: "(n, u) \<in> set ?ns" by (rule map_of_SomeD)
    then have n: "n \<in> fst ` set ?ns" by force
    have nt: "(n, t) \<in> set ?ns \<longleftrightarrow> t = u"
      using m eq_key_imp_eq_value [OF item_names_distinct, of n t u] by blast
    have z: "item_from_name None n = u" using Some eq(1) by simp
    have "item_to_name u = Some n" using m by (simp only: item_to_name_eq)
    then show ?thesis using n nt by (auto simp: eq(2) z item_to_name_eq)
  qed
qed

end
