(* ===== verification/Traffic_Names.thy ===== *)
theory Traffic_Names
  imports Item_Types Route_Graph
begin

text \<open>
  The enumerations of \<open>traffic.h\<close> and their conversion from and to the names used in TraFF
  feeds (\<open>traffic.c\<close>). An enumeration is a datatype with the constructors of the source; the
  code compares event types by their numbers, so \<open>event_type\<close> is given the order of the header.
\<close>

section \<open>Enumerations\<close>

datatype event_class =
    event_class_invalid | event_class_congestion | event_class_delay | event_class_restriction

datatype event_type =
    event_invalid | event_congestion_cleared | event_congestion_forecast_withdrawn
    | event_congestion_heavy_traffic | event_congestion_long_queue | event_congestion_none
    | event_congestion_normal_traffic | event_congestion_queue | event_congestion_queue_likely
    | event_congestion_slow_traffic | event_congestion_stationary_traffic
    | event_congestion_stationary_traffic_likely | event_congestion_traffic_building_up
    | event_congestion_traffic_congestion | event_congestion_traffic_easing
    | event_congestion_traffic_flowing_freely | event_congestion_traffic_heavier_than_normal
    | event_congestion_traffic_lighter_than_normal | event_congestion_traffic_much_heavier_than_normal
    | event_congestion_traffic_problem | event_delay_clearance | event_delay_delay
    | event_delay_delay_possible | event_delay_forecast_withdrawn | event_delay_long_delay
    | event_delay_several_hours | event_delay_uncertain_duration | event_delay_very_long_delay
    | event_restriction_access_restrictions_lifted | event_restriction_all_carriageways_cleared
    | event_restriction_all_carriageways_reopened | event_restriction_batch_service
    | event_restriction_blocked | event_restriction_blocked_ahead
    | event_restriction_carriageway_blocked | event_restriction_carriageway_closed
    | event_restriction_contraflow | event_restriction_closed | event_restriction_closed_ahead
    | event_restriction_entry_blocked | event_restriction_entry_reopened
    | event_restriction_exit_blocked | event_restriction_exit_reopened
    | event_restriction_intermittent_closures | event_restriction_lane_blocked
    | event_restriction_lane_closed | event_restriction_open | event_restriction_ramp_blocked
    | event_restriction_ramp_closed | event_restriction_ramp_reopened | event_restriction_reduced_lanes
    | event_restriction_reopened | event_restriction_road_cleared
    | event_restriction_single_alternate_line_traffic | event_restriction_speed_limit
    | event_restriction_speed_limit_lifted

datatype location_dir =
    location_dir_one | location_dir_both

datatype location_fuzziness =
    location_fuzziness_none | location_fuzziness_low_res | location_fuzziness_end_unknown
    | location_fuzziness_start_unknown | location_fuzziness_extent_unknown

datatype location_ramps =
    location_ramps_none | location_ramps_all | location_ramps_entry | location_ramps_exit

datatype si_class =
    si_class_invalid | si_class_place | si_class_tendency | si_class_vehicle

datatype si_type =
    si_invalid | si_place_bridge | si_place_ramp | si_place_roadworks | si_place_tunnel
    | si_tendency_queue_decreasing | si_tendency_queue_increasing | si_vehicle_all | si_vehicle_bus
    | si_vehicle_car | si_vehicle_car_with_caravan | si_vehicle_car_with_trailer | si_vehicle_hazmat
    | si_vehicle_hgv | si_vehicle_motor | si_vehicle_with_trailer

text \<open>The numbers the compiler gives the event types.\<close>

primrec event_code :: "event_type \<Rightarrow> int" where
  "event_code event_invalid = 0"
| "event_code event_congestion_cleared = 1"
| "event_code event_congestion_forecast_withdrawn = 2"
| "event_code event_congestion_heavy_traffic = 3"
| "event_code event_congestion_long_queue = 4"
| "event_code event_congestion_none = 5"
| "event_code event_congestion_normal_traffic = 6"
| "event_code event_congestion_queue = 7"
| "event_code event_congestion_queue_likely = 8"
| "event_code event_congestion_slow_traffic = 9"
| "event_code event_congestion_stationary_traffic = 10"
| "event_code event_congestion_stationary_traffic_likely = 11"
| "event_code event_congestion_traffic_building_up = 12"
| "event_code event_congestion_traffic_congestion = 13"
| "event_code event_congestion_traffic_easing = 14"
| "event_code event_congestion_traffic_flowing_freely = 15"
| "event_code event_congestion_traffic_heavier_than_normal = 16"
| "event_code event_congestion_traffic_lighter_than_normal = 17"
| "event_code event_congestion_traffic_much_heavier_than_normal = 18"
| "event_code event_congestion_traffic_problem = 19"
| "event_code event_delay_clearance = 20"
| "event_code event_delay_delay = 21"
| "event_code event_delay_delay_possible = 22"
| "event_code event_delay_forecast_withdrawn = 23"
| "event_code event_delay_long_delay = 24"
| "event_code event_delay_several_hours = 25"
| "event_code event_delay_uncertain_duration = 26"
| "event_code event_delay_very_long_delay = 27"
| "event_code event_restriction_access_restrictions_lifted = 28"
| "event_code event_restriction_all_carriageways_cleared = 29"
| "event_code event_restriction_all_carriageways_reopened = 30"
| "event_code event_restriction_batch_service = 31"
| "event_code event_restriction_blocked = 32"
| "event_code event_restriction_blocked_ahead = 33"
| "event_code event_restriction_carriageway_blocked = 34"
| "event_code event_restriction_carriageway_closed = 35"
| "event_code event_restriction_contraflow = 36"
| "event_code event_restriction_closed = 37"
| "event_code event_restriction_closed_ahead = 38"
| "event_code event_restriction_entry_blocked = 39"
| "event_code event_restriction_entry_reopened = 40"
| "event_code event_restriction_exit_blocked = 41"
| "event_code event_restriction_exit_reopened = 42"
| "event_code event_restriction_intermittent_closures = 43"
| "event_code event_restriction_lane_blocked = 44"
| "event_code event_restriction_lane_closed = 45"
| "event_code event_restriction_open = 46"
| "event_code event_restriction_ramp_blocked = 47"
| "event_code event_restriction_ramp_closed = 48"
| "event_code event_restriction_ramp_reopened = 49"
| "event_code event_restriction_reduced_lanes = 50"
| "event_code event_restriction_reopened = 51"
| "event_code event_restriction_road_cleared = 52"
| "event_code event_restriction_single_alternate_line_traffic = 53"
| "event_code event_restriction_speed_limit = 54"
| "event_code event_restriction_speed_limit_lifted = 55"

definition event_types :: "event_type list" where
  "event_types = [
    event_invalid, event_congestion_cleared, event_congestion_forecast_withdrawn,
    event_congestion_heavy_traffic, event_congestion_long_queue, event_congestion_none,
    event_congestion_normal_traffic, event_congestion_queue, event_congestion_queue_likely,
    event_congestion_slow_traffic, event_congestion_stationary_traffic,
    event_congestion_stationary_traffic_likely, event_congestion_traffic_building_up,
    event_congestion_traffic_congestion, event_congestion_traffic_easing,
    event_congestion_traffic_flowing_freely, event_congestion_traffic_heavier_than_normal,
    event_congestion_traffic_lighter_than_normal, event_congestion_traffic_much_heavier_than_normal,
    event_congestion_traffic_problem, event_delay_clearance, event_delay_delay,
    event_delay_delay_possible, event_delay_forecast_withdrawn, event_delay_long_delay,
    event_delay_several_hours, event_delay_uncertain_duration, event_delay_very_long_delay,
    event_restriction_access_restrictions_lifted, event_restriction_all_carriageways_cleared,
    event_restriction_all_carriageways_reopened, event_restriction_batch_service,
    event_restriction_blocked, event_restriction_blocked_ahead, event_restriction_carriageway_blocked,
    event_restriction_carriageway_closed, event_restriction_contraflow, event_restriction_closed,
    event_restriction_closed_ahead, event_restriction_entry_blocked, event_restriction_entry_reopened,
    event_restriction_exit_blocked, event_restriction_exit_reopened,
    event_restriction_intermittent_closures, event_restriction_lane_blocked,
    event_restriction_lane_closed, event_restriction_open, event_restriction_ramp_blocked,
    event_restriction_ramp_closed, event_restriction_ramp_reopened, event_restriction_reduced_lanes,
    event_restriction_reopened, event_restriction_road_cleared,
    event_restriction_single_alternate_line_traffic, event_restriction_speed_limit,
    event_restriction_speed_limit_lifted]"

lemma event_types_nth: "event_types ! nat (event_code t) = t"
  by (cases t) (simp_all add: event_types_def)

lemma event_code_inj [simp]: "event_code s = event_code t \<longleftrightarrow> s = t"
  by (metis event_types_nth)

lemma event_code_range: "0 \<le> event_code t \<and> event_code t \<le> 55"
  by (cases t) simp_all

lemma in_event_types: "t \<in> set event_types"
  by (cases t) (simp_all add: event_types_def)

instantiation event_type :: linorder
begin

definition less_eq_event_type :: "event_type \<Rightarrow> event_type \<Rightarrow> bool" where
  "less_eq_event_type s t \<longleftrightarrow> event_code s \<le> event_code t"

definition less_event_type :: "event_type \<Rightarrow> event_type \<Rightarrow> bool" where
  "less_event_type s t \<longleftrightarrow> event_code s < event_code t"

instance
  by standard (auto simp: less_eq_event_type_def less_event_type_def)

end

section \<open>From names\<close>

definition event_class_new :: "string option \<Rightarrow> event_class" where
  "event_class_new string = (case string of None \<Rightarrow> event_class_invalid | Some s \<Rightarrow>
     if g_ascii_strcasecmp s ''CONGESTION'' = 0 then event_class_congestion else
     if g_ascii_strcasecmp s ''DELAY'' = 0 then event_class_delay else
     if g_ascii_strcasecmp s ''RESTRICTION'' = 0 then event_class_restriction else
     event_class_invalid)"

definition event_type_new :: "string option \<Rightarrow> event_type" where
  "event_type_new string = (case string of None \<Rightarrow> event_invalid | Some s \<Rightarrow>
     if g_ascii_strcasecmp s ''CONGESTION_CLEARED'' = 0 then event_congestion_cleared else
     if g_ascii_strcasecmp s ''CONGESTION_FORECAST_WITHDRAWN'' = 0 then event_congestion_forecast_withdrawn else
     if g_ascii_strcasecmp s ''CONGESTION_HEAVY_TRAFFIC'' = 0 then event_congestion_heavy_traffic else
     if g_ascii_strcasecmp s ''CONGESTION_LONG_QUEUE'' = 0 then event_congestion_long_queue else
     if g_ascii_strcasecmp s ''CONGESTION_NONE'' = 0 then event_congestion_none else
     if g_ascii_strcasecmp s ''CONGESTION_NORMAL_TRAFFIC'' = 0 then event_congestion_normal_traffic else
     if g_ascii_strcasecmp s ''CONGESTION_QUEUE'' = 0 then event_congestion_queue else
     if g_ascii_strcasecmp s ''CONGESTION_QUEKE_LIKELY'' = 0 then event_congestion_queue_likely else
     if g_ascii_strcasecmp s ''CONGESTION_SLOW_TRAFFIC'' = 0 then event_congestion_slow_traffic else
     if g_ascii_strcasecmp s ''CONGESTION_STATIONARY_TRAFFIC'' = 0 then event_congestion_stationary_traffic else
     if g_ascii_strcasecmp s ''CONGESTION_STATIONARY_TRAFFIC_LIKELY'' = 0 then event_congestion_stationary_traffic_likely else
     if g_ascii_strcasecmp s ''CONGESTION_TRAFFIC_BUILDING_UP'' = 0 then event_congestion_traffic_building_up else
     if g_ascii_strcasecmp s ''CONGESTION_TRAFFIC_CONGESTION'' = 0 then event_congestion_traffic_congestion else
     if g_ascii_strcasecmp s ''CONGESTION_TRAFFIC_EASING'' = 0 then event_congestion_traffic_easing else
     if g_ascii_strcasecmp s ''CONGESTION_TRAFFIC_FLOWING_FREELY'' = 0 then event_congestion_traffic_flowing_freely else
     if g_ascii_strcasecmp s ''CONGESTION_TRAFFIC_HEAVIER_THAN_NORMAL'' = 0 then event_congestion_traffic_heavier_than_normal else
     if g_ascii_strcasecmp s ''CONGESTION_TRAFFIC_LIGHTER_THAN_NORMAL'' = 0 then event_congestion_traffic_lighter_than_normal else
     if g_ascii_strcasecmp s ''CONGESTION_TRAFFIC_MUCH_HEAVIER_THAN_NORMAL'' = 0 then event_congestion_traffic_much_heavier_than_normal else
     if g_ascii_strcasecmp s ''CONGESTION_TRAFFIC_PROBLEM'' = 0 then event_congestion_traffic_problem else
     if g_ascii_strcasecmp s ''DELAY_CLEARANCE'' = 0 then event_delay_clearance else
     if g_ascii_strcasecmp s ''DELAY_DELAY'' = 0 then event_delay_delay else
     if g_ascii_strcasecmp s ''DELAY_DELAY_POSSIBLE'' = 0 then event_delay_delay_possible else
     if g_ascii_strcasecmp s ''DELAY_FORECAST_WITHDRAWN'' = 0 then event_delay_forecast_withdrawn else
     if g_ascii_strcasecmp s ''DELAY_LONG_DELAY'' = 0 then event_delay_long_delay else
     if g_ascii_strcasecmp s ''DELAY_SEVERAL_HOURS'' = 0 then event_delay_several_hours else
     if g_ascii_strcasecmp s ''DELAY_UNCERTAIN_DURATION'' = 0 then event_delay_uncertain_duration else
     if g_ascii_strcasecmp s ''DELAY_VERY_LONG_DELAY'' = 0 then event_delay_very_long_delay else
     if g_ascii_strcasecmp s ''RESTRICTION_ACCESS_RESTRICTIONS_LIFTED'' = 0 then event_restriction_access_restrictions_lifted else
     if g_ascii_strcasecmp s ''RESTRICTION_ALL_CARRIAGEWAYS_CLEARED'' = 0 then event_restriction_all_carriageways_cleared else
     if g_ascii_strcasecmp s ''RESTRICTION_ALL_CARRIAGEWAYS_REOPENED'' = 0 then event_restriction_all_carriageways_reopened else
     if g_ascii_strcasecmp s ''RESTRICTION_BATCH_SERVICE'' = 0 then event_restriction_batch_service else
     if g_ascii_strcasecmp s ''RESTRICTION_BLOCKED'' = 0 then event_restriction_blocked else
     if g_ascii_strcasecmp s ''RESTRICTION_BLOCKED_AHEAD'' = 0 then event_restriction_blocked_ahead else
     if g_ascii_strcasecmp s ''RESTRICTION_CARRIAGEWAY_BLOCKED'' = 0 then event_restriction_carriageway_blocked else
     if g_ascii_strcasecmp s ''RESTRICTION_CARRIAGEWAY_CLOSED'' = 0 then event_restriction_carriageway_closed else
     if g_ascii_strcasecmp s ''RESTRICTION_CONTRAFLOW'' = 0 then event_restriction_contraflow else
     if g_ascii_strcasecmp s ''RESTRICTION_CLOSED'' = 0 then event_restriction_closed else
     if g_ascii_strcasecmp s ''RESTRICTION_CLOSED_AHEAD'' = 0 then event_restriction_closed_ahead else
     if g_ascii_strcasecmp s ''RESTRICTION_ENTRY_BLOCKED'' = 0 then event_restriction_entry_blocked else
     if g_ascii_strcasecmp s ''RESTRICTION_ENTRY_REOPENED'' = 0 then event_restriction_entry_reopened else
     if g_ascii_strcasecmp s ''RESTRICTION_INTERMITTENT_CLOSURES'' = 0 then event_restriction_intermittent_closures else
     if g_ascii_strcasecmp s ''RESTRICTION_LANE_BLOCKED'' = 0 then event_restriction_lane_blocked else
     if g_ascii_strcasecmp s ''RESTRICTION_LANE_CLOSED'' = 0 then event_restriction_lane_closed else
     if g_ascii_strcasecmp s ''RESTRICTION_OPEN'' = 0 then event_restriction_open else
     if g_ascii_strcasecmp s ''RESTRICTION_RAMP_BLOCKED'' = 0 then event_restriction_ramp_blocked else
     if g_ascii_strcasecmp s ''RESTRICTION_RAMP_CLOSED'' = 0 then event_restriction_ramp_closed else
     if g_ascii_strcasecmp s ''RESTRICTION_RAMP_REOPENED'' = 0 then event_restriction_ramp_reopened else
     if g_ascii_strcasecmp s ''RESTRICTION_REDUCED_LANES'' = 0 then event_restriction_reduced_lanes else
     if g_ascii_strcasecmp s ''RESTRICTION_REOPENED'' = 0 then event_restriction_reopened else
     if g_ascii_strcasecmp s ''RESTRICTION_ROAD_CLEARED'' = 0 then event_restriction_road_cleared else
     if g_ascii_strcasecmp s ''RESTRICTION_SINGLE_ALTERNATE_LINE_TRAFFIC'' = 0 then event_restriction_single_alternate_line_traffic else
     if g_ascii_strcasecmp s ''RESTRICTION_SPEED_LIMIT'' = 0 then event_restriction_speed_limit else
     if g_ascii_strcasecmp s ''RESTRICTION_SPEED_LIMIT_LIFTED'' = 0 then event_restriction_speed_limit_lifted else
     event_invalid)"

definition location_dir_new :: "string option \<Rightarrow> location_dir" where
  "location_dir_new string = (case string of Some s \<Rightarrow>
       if g_ascii_strcasecmp s ''ONE_DIRECTION'' = 0 then location_dir_one else location_dir_both
     | None \<Rightarrow> location_dir_both)"

definition location_fuzziness_new :: "string option \<Rightarrow> location_fuzziness" where
  "location_fuzziness_new string = (case string of None \<Rightarrow> location_fuzziness_none | Some s \<Rightarrow>
     if g_ascii_strcasecmp s ''LOW_RES'' = 0 then location_fuzziness_low_res else
     if g_ascii_strcasecmp s ''END_UNKNOWN'' = 0 then location_fuzziness_end_unknown else
     if g_ascii_strcasecmp s ''START_UNKNOWN'' = 0 then location_fuzziness_start_unknown else
     if g_ascii_strcasecmp s ''EXTENT_UNKNOWN'' = 0 then location_fuzziness_extent_unknown else
     location_fuzziness_none)"

definition location_ramps_new :: "string option \<Rightarrow> location_ramps" where
  "location_ramps_new string = (case string of None \<Rightarrow> location_ramps_none | Some s \<Rightarrow>
     if g_ascii_strcasecmp s ''ALL_RAMPS'' = 0 then location_ramps_all else
     if g_ascii_strcasecmp s ''ENTRY_RAMP'' = 0 then location_ramps_entry else
     if g_ascii_strcasecmp s ''EXIT_RAMP'' = 0 then location_ramps_exit else
     location_ramps_none)"

definition si_class_new :: "string option \<Rightarrow> si_class" where
  "si_class_new string = (case string of None \<Rightarrow> si_class_invalid | Some s \<Rightarrow>
     if g_ascii_strcasecmp s ''PLACE'' = 0 then si_class_place else
     if g_ascii_strcasecmp s ''TENDENCY'' = 0 then si_class_tendency else
     if g_ascii_strcasecmp s ''VEHICLE'' = 0 then si_class_vehicle else
     si_class_invalid)"

definition si_type_new :: "string option \<Rightarrow> si_type" where
  "si_type_new string = (case string of None \<Rightarrow> si_invalid | Some s \<Rightarrow>
     if g_ascii_strcasecmp s ''S_PLACE_BRIDGE'' = 0 then si_place_bridge else
     if g_ascii_strcasecmp s ''S_PLACE_RAMP'' = 0 then si_place_ramp else
     if g_ascii_strcasecmp s ''S_PLACE_ROADWORKS'' = 0 then si_place_roadworks else
     if g_ascii_strcasecmp s ''S_PLACE_TUNNEL'' = 0 then si_place_tunnel else
     if g_ascii_strcasecmp s ''S_TENDENCY_QUEUE_DECREASING'' = 0 then si_tendency_queue_decreasing else
     if g_ascii_strcasecmp s ''S_TENDENCY_QUEUE_INCREASING'' = 0 then si_tendency_queue_increasing else
     if g_ascii_strcasecmp s ''S_VEHICLE_ALL'' = 0 then si_vehicle_all else
     if g_ascii_strcasecmp s ''S_VEHICLE_BUS'' = 0 then si_vehicle_bus else
     if g_ascii_strcasecmp s ''S_VEHICLE_CAR'' = 0 then si_vehicle_car else
     if g_ascii_strcasecmp s ''S_VEHICLE_CAR_WITH_CARAVAN'' = 0 then si_vehicle_car_with_caravan else
     if g_ascii_strcasecmp s ''S_VEHICLE_CAR_WITH_TRAILER'' = 0 then si_vehicle_car_with_trailer else
     if g_ascii_strcasecmp s ''S_VEHICLE_HAZMAT'' = 0 then si_vehicle_hazmat else
     if g_ascii_strcasecmp s ''S_VEHICLE_HGV'' = 0 then si_vehicle_hgv else
     if g_ascii_strcasecmp s ''S_VEHICLE_MOTOR'' = 0 then si_vehicle_motor else
     if g_ascii_strcasecmp s ''S_VEHICLE_WITH_TRAILER'' = 0 then si_vehicle_with_trailer else
     si_invalid)"

section \<open>To names\<close>

definition event_class_to_string :: "event_class \<Rightarrow> string" where
  "event_class_to_string this = (case this of
       event_class_congestion \<Rightarrow> ''CONGESTION''
     | event_class_delay \<Rightarrow> ''DELAY''
     | event_class_restriction \<Rightarrow> ''RESTRICTION''
     | _ \<Rightarrow> ''INVALID'')"

definition event_type_to_string :: "event_type \<Rightarrow> string" where
  "event_type_to_string this = (case this of
       event_congestion_cleared \<Rightarrow> ''CONGESTION_CLEARED''
     | event_congestion_forecast_withdrawn \<Rightarrow> ''CONGESTION_FORECAST_WITHDRAWN''
     | event_congestion_heavy_traffic \<Rightarrow> ''CONGESTION_HEAVY_TRAFFIC''
     | event_congestion_long_queue \<Rightarrow> ''CONGESTION_LONG_QUEUE''
     | event_congestion_none \<Rightarrow> ''CONGESTION_NONE''
     | event_congestion_normal_traffic \<Rightarrow> ''CONGESTION_NORMAL_TRAFFIC''
     | event_congestion_queue \<Rightarrow> ''CONGESTION_QUEUE''
     | event_congestion_queue_likely \<Rightarrow> ''CONGESTION_QUEUE_LIKELY''
     | event_congestion_slow_traffic \<Rightarrow> ''CONGESTION_SLOW_TRAFFIC''
     | event_congestion_stationary_traffic \<Rightarrow> ''CONGESTION_STATIONARY_TRAFFIC''
     | event_congestion_stationary_traffic_likely \<Rightarrow> ''CONGESTION_STATIONARY_TRAFFIC_LIKELY''
     | event_congestion_traffic_building_up \<Rightarrow> ''CONGESTION_TRAFFIC_BUILDING_UP''
     | event_congestion_traffic_congestion \<Rightarrow> ''CONGESTION_TRAFFIC_CONGESTION''
     | event_congestion_traffic_easing \<Rightarrow> ''CONGESTION_TRAFFIC_EASING''
     | event_congestion_traffic_flowing_freely \<Rightarrow> ''CONGESTION_TRAFFIC_FLOWING_FREELY''
     | event_congestion_traffic_heavier_than_normal \<Rightarrow> ''CONGESTION_TRAFFIC_HEAVIER_THAN_NORMAL''
     | event_congestion_traffic_lighter_than_normal \<Rightarrow> ''CONGESTION_TRAFFIC_LIGHTER_THAN_NORMAL''
     | event_congestion_traffic_much_heavier_than_normal \<Rightarrow> ''CONGESTION_TRAFFIC_MUCH_HEAVIER_THAN_NORMAL''
     | event_congestion_traffic_problem \<Rightarrow> ''CONGESTION_TRAFFIC_PROBLEM''
     | event_delay_clearance \<Rightarrow> ''DELAY_CLEARANCE''
     | event_delay_delay \<Rightarrow> ''DELAY_DELAY''
     | event_delay_delay_possible \<Rightarrow> ''DELAY_DELAY_POSSIBLE''
     | event_delay_forecast_withdrawn \<Rightarrow> ''DELAY_FORECAST_WITHDRAWN''
     | event_delay_long_delay \<Rightarrow> ''DELAY_LONG_DELAY''
     | event_delay_several_hours \<Rightarrow> ''DELAY_SEVERAL_HOURS''
     | event_delay_uncertain_duration \<Rightarrow> ''DELAY_UNCERTAIN_DURATION''
     | event_delay_very_long_delay \<Rightarrow> ''DELAY_VERY_LONG_DELAY''
     | event_restriction_access_restrictions_lifted \<Rightarrow> ''RESTRICTION_ACCESS_RESTRICTIONS_LIFTED''
     | event_restriction_all_carriageways_cleared \<Rightarrow> ''RESTRICTION_ALL_CARRIAGEWAYS_CLEARED''
     | event_restriction_all_carriageways_reopened \<Rightarrow> ''RESTRICTION_ALL_CARRIAGEWAYS_REOPENED''
     | event_restriction_batch_service \<Rightarrow> ''RESTRICTION_BATCH_SERVICE''
     | event_restriction_blocked \<Rightarrow> ''RESTRICTION_BLOCKED''
     | event_restriction_blocked_ahead \<Rightarrow> ''RESTRICTION_BLOCKED_AHEAD''
     | event_restriction_carriageway_blocked \<Rightarrow> ''RESTRICTION_CARRIAGEWAY_BLOCKED''
     | event_restriction_carriageway_closed \<Rightarrow> ''RESTRICTION_CARRIAGEWAY_CLOSED''
     | event_restriction_closed \<Rightarrow> ''RESTRICTION_CLOSED''
     | event_restriction_closed_ahead \<Rightarrow> ''RESTRICTION_CLOSED_AHEAD''
     | event_restriction_contraflow \<Rightarrow> ''RESTRICTION_CONTRAFLOW''
     | event_restriction_entry_blocked \<Rightarrow> ''RESTRICTION_ENTRY_BLOCKED''
     | event_restriction_entry_reopened \<Rightarrow> ''RESTRICTION_ENTRY_REOPENED''
     | event_restriction_exit_blocked \<Rightarrow> ''RESTRICTION_EXIT_BLOCKED''
     | event_restriction_exit_reopened \<Rightarrow> ''RESTRICTION_EXIT_REOPENED''
     | event_restriction_intermittent_closures \<Rightarrow> ''RESTRICTION_INTERMITTENT_CLOSURES''
     | event_restriction_lane_blocked \<Rightarrow> ''RESTRICTION_LANE_BLOCKED''
     | event_restriction_lane_closed \<Rightarrow> ''RESTRICTION_LANE_CLOSED''
     | event_restriction_open \<Rightarrow> ''RESTRICTION_OPEN''
     | event_restriction_ramp_blocked \<Rightarrow> ''RESTRICTION_RAMP_BLOCKED''
     | event_restriction_ramp_closed \<Rightarrow> ''RESTRICTION_RAMP_CLOSED''
     | event_restriction_ramp_reopened \<Rightarrow> ''RESTRICTION_RAMP_REOPENED''
     | event_restriction_reduced_lanes \<Rightarrow> ''RESTRICTION_REDUCED_LANES''
     | event_restriction_reopened \<Rightarrow> ''RESTRICTION_REOPENED''
     | event_restriction_road_cleared \<Rightarrow> ''RESTRICTION_ROAD_CLEARED''
     | event_restriction_single_alternate_line_traffic \<Rightarrow> ''RESTRICTION_SINGLE_ALTERNATE_LINE_TRAFFIC''
     | event_restriction_speed_limit \<Rightarrow> ''RESTRICTION_SPEED_LIMIT''
     | event_restriction_speed_limit_lifted \<Rightarrow> ''RESTRICTION_SPEED_LIMIT_LIFTED''
     | _ \<Rightarrow> ''INVALID'')"

definition location_fuzziness_to_string :: "location_fuzziness \<Rightarrow> string option" where
  "location_fuzziness_to_string this = (case this of
       location_fuzziness_low_res \<Rightarrow> Some ''LOW_RES''
     | location_fuzziness_end_unknown \<Rightarrow> Some ''END_UNKNOWN''
     | location_fuzziness_start_unknown \<Rightarrow> Some ''START_UNKNOWN''
     | location_fuzziness_extent_unknown \<Rightarrow> Some ''EXTENT_UNKNOWN''
     | _ \<Rightarrow> None)"

definition location_ramps_to_string :: "location_ramps \<Rightarrow> string option" where
  "location_ramps_to_string this = (case this of
       location_ramps_none \<Rightarrow> Some ''NONE''
     | location_ramps_all \<Rightarrow> Some ''ALL_RAMPS''
     | location_ramps_entry \<Rightarrow> Some ''ENTRY_RAMP''
     | location_ramps_exit \<Rightarrow> Some ''EXIT_RAMP'')"

definition si_class_to_string :: "si_class \<Rightarrow> string" where
  "si_class_to_string this = (case this of
       si_class_place \<Rightarrow> ''PLACE''
     | si_class_tendency \<Rightarrow> ''TENDENCY''
     | si_class_vehicle \<Rightarrow> ''VEHICLE''
     | _ \<Rightarrow> ''INVALID'')"

definition si_type_to_string :: "si_type \<Rightarrow> string" where
  "si_type_to_string this = (case this of
       si_place_bridge \<Rightarrow> ''S_PLACE_BRIDGE''
     | si_place_ramp \<Rightarrow> ''S_PLACE_RAMP''
     | si_place_roadworks \<Rightarrow> ''S_PLACE_ROADWORKS''
     | si_place_tunnel \<Rightarrow> ''S_PLACE_TUNNEL''
     | si_tendency_queue_decreasing \<Rightarrow> ''S_TENDENCY_QUEUE_DECREASING''
     | si_tendency_queue_increasing \<Rightarrow> ''S_TENDENCY_QUEUE_INCREASING''
     | si_vehicle_all \<Rightarrow> ''S_VEHICLE_ALL''
     | si_vehicle_bus \<Rightarrow> ''S_VEHICLE_BUS''
     | si_vehicle_car \<Rightarrow> ''S_VEHICLE_CAR''
     | si_vehicle_car_with_caravan \<Rightarrow> ''S_VEHICLE_CAR_WITH_CARAVAN''
     | si_vehicle_car_with_trailer \<Rightarrow> ''S_VEHICLE_CAR_WITH_TRAILER''
     | si_vehicle_hazmat \<Rightarrow> ''S_VEHICLE_HAZMAT''
     | si_vehicle_hgv \<Rightarrow> ''S_VEHICLE_HGV''
     | si_vehicle_motor \<Rightarrow> ''S_VEHICLE_MOTOR''
     | si_vehicle_with_trailer \<Rightarrow> ''S_VEHICLE_WITH_TRAILER''
     | _ \<Rightarrow> ''INVALID'')"

section \<open>Road types\<close>

text \<open>The item types of roads, with the values of \<open>enum item_type\<close>.\<close>

named_theorems road_types \<open>values of the item types of roads\<close>

definition type_line_unspecified :: int where [road_types]: "type_line_unspecified = 0x80000001"
definition type_street_0 :: int where [road_types]: "type_street_0 = 0x80000007"
definition type_street_1_city :: int where [road_types]: "type_street_1_city = 0x80000008"
definition type_street_2_city :: int where [road_types]: "type_street_2_city = 0x80000009"
definition type_street_3_city :: int where [road_types]: "type_street_3_city = 0x8000000a"
definition type_street_4_city :: int where [road_types]: "type_street_4_city = 0x8000000b"
definition type_highway_city :: int where [road_types]: "type_highway_city = 0x8000000c"
definition type_street_1_land :: int where [road_types]: "type_street_1_land = 0x8000000d"
definition type_street_2_land :: int where [road_types]: "type_street_2_land = 0x8000000e"
definition type_street_3_land :: int where [road_types]: "type_street_3_land = 0x8000000f"
definition type_street_4_land :: int where [road_types]: "type_street_4_land = 0x80000010"
definition type_street_n_lanes :: int where [road_types]: "type_street_n_lanes = 0x80000011"
definition type_highway_land :: int where [road_types]: "type_highway_land = 0x80000012"
definition type_ramp :: int where [road_types]: "type_ramp = 0x80000013"
definition type_roundabout :: int where [road_types]: "type_roundabout = 0x80000014"
definition type_street_unkn :: int where [road_types]: "type_street_unkn = 0x80000017"
definition type_track :: int where [road_types]: "type_track = 0x8000001b"
definition type_street_service :: int where [road_types]: "type_street_service = 0x80000028"
definition type_street_pedestrian :: int where [road_types]: "type_street_pedestrian = 0x8000002a"
definition type_bridleway :: int where [road_types]: "type_bridleway = 0x8000002d"
definition type_cycleway :: int where [road_types]: "type_cycleway = 0x8000002e"
definition type_footway :: int where [road_types]: "type_footway = 0x8000002f"
definition type_steps :: int where [road_types]: "type_steps = 0x80000030"
definition type_track_paved :: int where [road_types]: "type_track_paved = 0x80000031"
definition type_track_gravelled :: int where [road_types]: "type_track_gravelled = 0x80000032"
definition type_track_unpaved :: int where [road_types]: "type_track_unpaved = 0x80000033"
definition type_track_ground :: int where [road_types]: "type_track_ground = 0x80000034"
definition type_track_grass :: int where [road_types]: "type_track_grass = 0x80000035"
definition type_living_street :: int where [road_types]: "type_living_street = 0x80000041"
definition type_path :: int where [road_types]: "type_path = 0x8000004b"
definition type_street_parking_lane :: int where [road_types]: "type_street_parking_lane = 0x80000052"

definition item_type_from_road_type :: "(string \<rightharpoonup> int) option \<Rightarrow> string option \<Rightarrow> int \<Rightarrow> int" where
  "item_type_from_road_type item_hash string is_urban =
     (let clip = (\<lambda>ret. if ret < route_item_first \<or> route_item_last < ret then type_line_unspecified else ret)
      in case string of None \<Rightarrow> clip type_line_unspecified | Some s \<Rightarrow>
     if g_ascii_strcasecmp s ''MOTORWAY'' = 0 then (if is_urban \<noteq> 0 then type_highway_city else type_highway_land) else
     if g_ascii_strcasecmp s ''TRUNK'' = 0 then type_street_n_lanes else
     if g_ascii_strcasecmp s ''PRIMARY'' = 0 then (if is_urban \<noteq> 0 then type_street_4_city else type_street_4_land) else
     if g_ascii_strcasecmp s ''SECONDARY'' = 0 then (if is_urban \<noteq> 0 then type_street_3_city else type_street_3_land) else
     if g_ascii_strcasecmp s ''TERTIARY'' = 0 then (if is_urban \<noteq> 0 then type_street_2_city else type_street_2_land) else
     clip (item_from_name item_hash s))"

end
