(* ===== verification/Traffic_Names_Spec.thy ===== *)
theory Traffic_Names_Spec
  imports Traffic_Names
begin

text \<open>
  The names of the traffic module: printing a value and reading it back, reading without regard to
  case, and the item types a road class can be read as.
\<close>

text \<open>The event types whose name is not read back: one is misspelt, two are missing in the reader.\<close>

definition unread_events :: "event_type list" where
  "unread_events = [event_congestion_queue_likely, event_restriction_exit_blocked, event_restriction_exit_reopened]"

definition read_back :: "event_type \<Rightarrow> bool" where
  "read_back t \<longleftrightarrow> event_type_new (Some (event_type_to_string t)) = (if t \<in> set unread_events then event_invalid else t)"

lemma read_back_all: "list_all read_back event_types"
  by code_simp

lemma event_type_roundtrip: "read_back t"
  using read_back_all in_event_types [of t] by (auto simp: list_all_iff)

text \<open>A value written by the traffic module is read back as itself, for every enumeration and
  every value, except that three event types are read back as invalid.\<close>

theorem traffic_names_roundtrip:
  "event_type_new (Some (event_type_to_string t)) = (if t \<in> set unread_events then event_invalid else t)
   \<and> event_class_new (Some (event_class_to_string c)) = c
   \<and> location_fuzziness_new (location_fuzziness_to_string f) = f
   \<and> location_ramps_new (location_ramps_to_string r) = r
   \<and> si_class_new (Some (si_class_to_string k)) = k
   \<and> si_type_new (Some (si_type_to_string i)) = i"
proof (intro conjI)
  show "event_class_new (Some (event_class_to_string c)) = c" by (cases c; hypsubst; code_simp)
  show "location_fuzziness_new (location_fuzziness_to_string f) = f" by (cases f; hypsubst; code_simp)
  show "location_ramps_new (location_ramps_to_string r) = r" by (cases r; hypsubst; code_simp)
  show "si_class_new (Some (si_class_to_string k)) = k" by (cases k; hypsubst; code_simp)
  show "si_type_new (Some (si_type_to_string i)) = i" by (cases i; hypsubst; code_simp)
qed (use event_type_roundtrip [of t] in \<open>simp only: read_back_def\<close>)

lemma event_type_new_lower: "event_type_new (Some (map TOLOWER s)) = event_type_new (Some s)"
  by (simp only: event_type_new_def option.case strcasecmp_lower)

definition read_as :: "string \<Rightarrow> event_type \<Rightarrow> bool" where
  "read_as s t \<longleftrightarrow> t = event_invalid \<or> t = event_congestion_queue_likely
     \<or> g_ascii_strcasecmp s (event_type_to_string t) = 0"

lemma if_cases: "(b \<Longrightarrow> P x) \<Longrightarrow> (\<not> b \<Longrightarrow> P y) \<Longrightarrow> P (if b then x else y)"
  by simp

lemma event_type_new_name: "read_as s (event_type_new (Some s))"
  unfolding event_type_new_def option.case
  by ((rule if_cases [where P = "read_as s"],
       simp only: read_as_def event_type_to_string_def event_type.case simp_thms)+, simp add: read_as_def)

text \<open>The reader of event types ignores the case of the name; apart from the misspelt name it takes
  for a type only names that differ at most in case from the one that is written for the type.\<close>

theorem traffic_names_case:
  assumes "c_string s"
  shows "event_type_new (Some (map TOLOWER s)) = event_type_new (Some s)
   \<and> (event_type_new (Some s) = t \<longrightarrow> t = event_invalid \<or> t = event_congestion_queue_likely
       \<or> map TOLOWER s = map TOLOWER (event_type_to_string t))"
proof -
  have "c_string (event_type_to_string u)" for u
    by (cases u; hypsubst; code_simp)
  then show ?thesis
    using event_type_new_lower event_type_new_name [of s] strcasecmp_zero [OF assms] by (auto simp: read_as_def)
qed

lemma traffic_names_case_witness:
  "event_type_new (Some ''delay_CLEARANCE'') = event_delay_clearance
   \<and> map TOLOWER ''delay_CLEARANCE'' = map TOLOWER (event_type_to_string event_delay_clearance)"
proof -
  have *: "c_string ''delay_CLEARANCE''" "event_type_new (Some ''delay_CLEARANCE'') = event_delay_clearance" by code_simp+
  then show ?thesis using traffic_names_case [of "''delay_CLEARANCE''" event_delay_clearance] by blast
qed

text \<open>Whatever road class or item type a location names, the type of the road is one that routing
  uses, or unspecified.\<close>

theorem road_type_routable:
  "let t = item_type_from_road_type h string is_urban
   in t = type_line_unspecified \<or> route_item_first \<le> t \<and> t \<le> route_item_last"
  by (auto simp: item_type_from_road_type_def Let_def road_types af_defs split: option.split)

end
