(* ===== verification/Traffic_Model.thy ===== *)
theory Traffic_Model
  imports Traffic_Names
begin

text \<open>
  The data of the traffic module (\<open>traffic.h\<close>): points, locations, supplementary information,
  events and messages, their constructors and accessors, and the checks of \<open>traffic.c\<close> whether
  they are valid or equal. A pointer that can be NULL is an option. An array with a separate count is
  the pointer to the list of its elements together with the count field; reading more elements than
  the array has is a memory fault, the outer \<open>None\<close> of the operations that read arrays.
\<close>

section \<open>Arrays\<close>

text \<open>\<open>g_memdup2\<close> and \<open>memcpy\<close> of the first \<open>n\<close> elements.\<close>

definition memdup :: "'a list \<Rightarrow> int \<Rightarrow> 'a list option" where
  "memdup xs n = (if 0 \<le> n \<and> n \<le> int (length xs) then Some (take (nat n) xs) else None)"

definition array_at :: "'a list \<Rightarrow> int \<Rightarrow> 'a option" where
  "array_at xs i = (if 0 \<le> i \<and> i < int (length xs) then Some (xs ! nat i) else None)"

text \<open>The elements a loop over \<open>i < count\<close> reads.\<close>

definition read_array :: "'a list option \<Rightarrow> int \<Rightarrow> 'a list option" where
  "read_array xs n = (if n \<le> 0 then Some [] else case xs of None \<Rightarrow> None | Some ys \<Rightarrow> memdup ys n)"

fun non_null :: "'a option list \<Rightarrow> 'a list option" where
  "non_null [] = Some []"
| "non_null (None # xs) = None"
| "non_null (Some x # xs) = map_option (Cons x) (non_null xs)"

lemma non_null_Some [simp]: "non_null (map Some xs) = Some xs"
  by (induction xs) auto

lemma non_null_iff: "non_null xs = Some ys \<longleftrightarrow> xs = map Some ys"
  by (induction xs arbitrary: ys rule: non_null.induct) auto

lemma memdup_all [simp]: "memdup xs (int (length xs)) = Some xs"
  by (simp add: memdup_def)

lemma read_array_all [simp]: "read_array (Some xs) (int (length xs)) = Some xs"
  by (auto simp: read_array_def memdup_def)

section \<open>Coordinates\<close>

text \<open>A \<open>double\<close> with its special values; the comparison of the language is false on NaN.\<close>

datatype c_double = Finite rat | PosInf | NegInf | NaN

definition double_ne :: "c_double \<Rightarrow> c_double \<Rightarrow> bool" where
  "double_ne a b \<longleftrightarrow> a = NaN \<or> b = NaN \<or> a \<noteq> b"

lemma double_ne_sym: "double_ne a b = double_ne b a"
  by (auto simp: double_ne_def)

section \<open>Records\<close>

record traffic_point =
  tp_lat :: c_double
  tp_lng :: c_double
  tp_junction_name :: "string option"
  tp_junction_ref :: "string option"
  tp_tmc_id :: "string option"

record traffic_location =
  lo_at :: "traffic_point option"
  lo_from :: "traffic_point option"
  lo_to :: "traffic_point option"
  lo_via :: "traffic_point option"
  lo_not_via :: "traffic_point option"
  lo_destination :: "string option"
  lo_direction :: "string option"
  lo_directionality :: location_dir
  lo_fuzziness :: location_fuzziness
  lo_ramps :: location_ramps
  lo_road_type :: int
  lo_road_name :: "string option"
  lo_road_ref :: "string option"
  lo_tmc_table :: "string option"
  lo_tmc_direction :: int
  lo_txt_data :: "string option"
  lo_sw :: "(c_double \<times> c_double) option"
  lo_ne :: "(c_double \<times> c_double) option"

text \<open>The union \<open>u\<close> of a quantifier is one machine word.\<close>

record quantifier =
  q_u :: int

record traffic_suppl_info =
  su_si_class :: si_class
  su_type :: si_type
  su_quantifier :: "quantifier option"

record traffic_event =
  ev_event_class :: event_class
  ev_type :: event_type
  ev_length :: int
  ev_speed :: int
  ev_quantifier :: "quantifier option"
  ev_si_count :: int
  ev_si :: "traffic_suppl_info option list option"

record traffic_message =
  me_id :: "string option"
  me_receive_time :: int
  me_update_time :: int
  me_expiration_time :: int
  me_start_time :: int
  me_end_time :: int
  me_is_cancellation :: int
  me_is_forecast :: int
  me_replaced_count :: int
  me_replaces :: "string list option"
  me_location :: "traffic_location option"
  me_event_count :: int
  me_events :: "traffic_event option list option"
  me_items :: "nat list option"

section \<open>Constructors\<close>

definition traffic_point_new ::
  "c_double \<Rightarrow> c_double \<Rightarrow> string option \<Rightarrow> string option \<Rightarrow> string option \<Rightarrow> traffic_point" where
  "traffic_point_new lon lat junction_name junction_ref tmc_id =
     \<lparr>tp_lat = lat, tp_lng = lon, tp_junction_name = junction_name, tp_junction_ref = junction_ref,
      tp_tmc_id = tmc_id\<rparr>"

definition traffic_point_new_short :: "c_double \<Rightarrow> c_double \<Rightarrow> traffic_point" where
  "traffic_point_new_short lon lat = traffic_point_new lon lat None None None"

definition traffic_location_new ::
  "traffic_point option \<Rightarrow> traffic_point option \<Rightarrow> traffic_point option \<Rightarrow> traffic_point option \<Rightarrow> traffic_point option
   \<Rightarrow> string option \<Rightarrow> string option \<Rightarrow> location_dir \<Rightarrow> location_fuzziness \<Rightarrow> location_ramps \<Rightarrow> int \<Rightarrow> string option
   \<Rightarrow> string option \<Rightarrow> string option \<Rightarrow> int \<Rightarrow> traffic_location" where
  "traffic_location_new pat pfrom pto via not_via destination direction directionality fuzziness ramps road_type
     road_name road_ref tmc_table tmc_direction =
     \<lparr>lo_at = pat, lo_from = pfrom, lo_to = pto, lo_via = via, lo_not_via = not_via,
      lo_destination = destination, lo_direction = direction, lo_directionality = directionality,
      lo_fuzziness = fuzziness, lo_ramps = ramps, lo_road_type = road_type, lo_road_name = road_name,
      lo_road_ref = road_ref, lo_tmc_table = tmc_table, lo_tmc_direction = tmc_direction,
      lo_txt_data = None, lo_sw = None, lo_ne = None\<rparr>"

definition traffic_location_new_short ::
  "traffic_point option \<Rightarrow> traffic_point option \<Rightarrow> traffic_point option \<Rightarrow> traffic_point option \<Rightarrow> traffic_point option
   \<Rightarrow> location_dir \<Rightarrow> location_fuzziness \<Rightarrow> traffic_location" where
  "traffic_location_new_short pat pfrom pto via not_via directionality fuzziness =
     traffic_location_new pat pfrom pto via not_via None None directionality fuzziness location_ramps_none
       type_line_unspecified None None None 0"

definition traffic_suppl_info_new :: "si_class \<Rightarrow> si_type \<Rightarrow> quantifier option \<Rightarrow> traffic_suppl_info" where
  "traffic_suppl_info_new si_class typ quant = \<lparr>su_si_class = si_class, su_type = typ, su_quantifier = quant\<rparr>"

definition traffic_event_new ::
  "event_class \<Rightarrow> event_type \<Rightarrow> int \<Rightarrow> int \<Rightarrow> quantifier option \<Rightarrow> int \<Rightarrow> traffic_suppl_info option list option
   \<Rightarrow> traffic_event option" where
  "traffic_event_new event_class typ len speed quant si_count si =
     (let ret = \<lparr>ev_event_class = event_class, ev_type = typ, ev_length = len, ev_speed = speed,
        ev_quantifier = quant, ev_si_count = 0, ev_si = None\<rparr>
      in case si of
           Some xs \<Rightarrow> if si_count \<noteq> 0 then
               map_option (\<lambda>ys. ret\<lparr>ev_si_count := si_count, ev_si := Some ys\<rparr>) (memdup xs si_count)
             else Some ret
         | None \<Rightarrow> Some ret)"

definition traffic_event_new_short :: "event_class \<Rightarrow> event_type \<Rightarrow> traffic_event option" where
  "traffic_event_new_short event_class typ = traffic_event_new event_class typ (- 1) INT_MAX None 0 None"

definition traffic_event_add_suppl_info :: "traffic_event \<Rightarrow> traffic_suppl_info option \<Rightarrow> traffic_event option" where
  "traffic_event_add_suppl_info this si = (case ev_si this of
       Some xs \<Rightarrow> if ev_si_count this \<noteq> 0 then
           map_option (\<lambda>ys. this\<lparr>ev_si := Some (ys @ [si]), ev_si_count := ev_si_count this + 1\<rparr>)
             (memdup xs (ev_si_count this))
         else Some (this\<lparr>ev_si := Some [si], ev_si_count := 1\<rparr>)
     | None \<Rightarrow> Some (this\<lparr>ev_si := Some [si], ev_si_count := 1\<rparr>))"

definition traffic_event_get_suppl_info :: "traffic_event \<Rightarrow> int \<Rightarrow> traffic_suppl_info option option" where
  "traffic_event_get_suppl_info this index = (case ev_si this of
       Some xs \<Rightarrow> if index < ev_si_count this then array_at xs index else Some None
     | None \<Rightarrow> Some None)"

definition traffic_message_new ::
  "string option \<Rightarrow> int \<Rightarrow> int \<Rightarrow> int \<Rightarrow> int \<Rightarrow> int \<Rightarrow> int \<Rightarrow> int \<Rightarrow> int \<Rightarrow> string list option
   \<Rightarrow> traffic_location option \<Rightarrow> int \<Rightarrow> traffic_event option list option \<Rightarrow> traffic_message option" where
  "traffic_message_new mid receive_time update_time expiration_time start_time end_time is_cancellation is_forecast
     replaced_count replaces loc event_count events =
     (let ret = \<lparr>me_id = mid, me_receive_time = receive_time, me_update_time = update_time,
        me_expiration_time = expiration_time, me_start_time = start_time, me_end_time = end_time,
        me_is_cancellation = is_cancellation, me_is_forecast = is_forecast, me_replaced_count = 0,
        me_replaces = None, me_location = loc, me_event_count = 0, me_events = None, me_items = None\<rparr>
      in do {
        ret \<leftarrow> (case replaces of
            Some rs \<Rightarrow> if replaced_count \<noteq> 0 then
                map_option (\<lambda>ys. ret\<lparr>me_replaced_count := replaced_count, me_replaces := Some ys\<rparr>)
                  (memdup rs replaced_count)
              else Some ret
          | None \<Rightarrow> Some ret);
        (case events of
            Some es \<Rightarrow> if event_count \<noteq> 0 then
                map_option (\<lambda>ys. ret\<lparr>me_event_count := event_count, me_events := Some ys\<rparr>)
                  (memdup es event_count)
              else Some ret
          | None \<Rightarrow> Some ret)
      })"

definition traffic_message_new_short ::
  "string option \<Rightarrow> int \<Rightarrow> int \<Rightarrow> int \<Rightarrow> int \<Rightarrow> traffic_location option \<Rightarrow> int
   \<Rightarrow> traffic_event option list option \<Rightarrow> traffic_message option" where
  "traffic_message_new_short mid receive_time update_time expiration_time is_forecast loc event_count events =
     traffic_message_new mid receive_time update_time expiration_time 0 0 0 is_forecast 0 None loc event_count events"

definition traffic_message_new_single_event ::
  "string option \<Rightarrow> int \<Rightarrow> int \<Rightarrow> int \<Rightarrow> int \<Rightarrow> traffic_location option \<Rightarrow> event_class \<Rightarrow> event_type
   \<Rightarrow> traffic_message option" where
  "traffic_message_new_single_event mid receive_time update_time expiration_time is_forecast loc event_class typ = do {
     event \<leftarrow> traffic_event_new_short event_class typ;
     traffic_message_new_short mid receive_time update_time expiration_time is_forecast loc 1 (Some [Some event])
   }"

definition traffic_message_new_cancellation ::
  "string option \<Rightarrow> int \<Rightarrow> int \<Rightarrow> int \<Rightarrow> traffic_location option \<Rightarrow> traffic_message option" where
  "traffic_message_new_cancellation mid receive_time update_time expiration_time loc =
     traffic_message_new mid receive_time update_time expiration_time 0 0 1 0 0 None loc 0 None"

definition traffic_message_add_event :: "traffic_message \<Rightarrow> traffic_event option \<Rightarrow> traffic_message option" where
  "traffic_message_add_event this event =
     map_option (\<lambda>ys. this\<lparr>me_events := Some (ys @ [event]), me_event_count := me_event_count this + 1\<rparr>)
       (case me_events this of
          Some xs \<Rightarrow> memdup xs (me_event_count this)
        | None \<Rightarrow> if me_event_count this = 0 then Some [] else None)"

definition traffic_message_get_event :: "traffic_message \<Rightarrow> int \<Rightarrow> traffic_event option option" where
  "traffic_message_get_event this index = (case me_events this of
       Some xs \<Rightarrow> if index < me_event_count this then array_at xs index else Some None
     | None \<Rightarrow> Some None)"

definition traffic_message_get_items :: "traffic_message \<Rightarrow> nat list" where
  "traffic_message_get_items this = (case me_items this of None \<Rightarrow> [] | Some xs \<Rightarrow> xs)"

section \<open>Validity\<close>

definition traffic_event_is_valid :: "traffic_event \<Rightarrow> bool" where
  "traffic_event_is_valid this \<longleftrightarrow>
     \<not> (ev_event_class this = event_class_invalid \<or> ev_type this = event_invalid)
     \<and> (case ev_event_class this of
          event_class_congestion \<Rightarrow>
            \<not> (ev_type this < event_congestion_cleared \<or> event_delay_clearance \<le> ev_type this)
        | event_class_delay \<Rightarrow>
            \<not> (ev_type this < event_delay_clearance \<or> event_restriction_access_restrictions_lifted \<le> ev_type this)
        | event_class_restriction \<Rightarrow>
            \<not> (ev_type this < event_restriction_access_restrictions_lifted
               \<or> event_restriction_speed_limit_lifted < ev_type this)
        | _ \<Rightarrow> False)
     \<and> \<not> (ev_si_count this \<noteq> 0 \<and> ev_si this = None)"

definition traffic_location_is_valid :: "traffic_location \<Rightarrow> bool" where
  "traffic_location_is_valid this \<longleftrightarrow>
     \<not> (lo_at this = None \<and> \<not> (lo_from this \<noteq> None \<and> lo_to this \<noteq> None))"

definition traffic_message_is_valid :: "traffic_message \<Rightarrow> bool option" where
  "traffic_message_is_valid this =
     (if me_id this = None \<or> me_id this = Some [] then Some False
      else if me_receive_time this = 0 \<or> me_update_time this = 0 then Some False
      else if me_is_cancellation this = 0 then
        if me_expiration_time this = 0 \<and> me_end_time this = 0 then Some False
        else (case me_location this of None \<Rightarrow> Some False | Some loc \<Rightarrow>
          if \<not> traffic_location_is_valid loc then Some False
          else if me_event_count this = 0 \<or> me_events this = None then Some False
          else do {
            evs \<leftarrow> read_array (me_events this) (me_event_count this);
            Some (\<exists>e \<in> set evs. case e of Some ev \<Rightarrow> traffic_event_is_valid ev | None \<Rightarrow> False)
          })
      else Some True)"

section \<open>Equality\<close>

definition traffic_point_equals :: "traffic_point \<Rightarrow> traffic_point \<Rightarrow> bool" where
  "traffic_point_equals l r \<longleftrightarrow> \<not> double_ne (tp_lat l) (tp_lat r) \<and> \<not> double_ne (tp_lng l) (tp_lng r)"

text \<open>One of the five comparisons \<open>if (l->p && !traffic_point_equals(l->p, r->p))\<close>; it is reached
  only when the same points are set on both sides.\<close>

definition points_differ :: "traffic_point option \<Rightarrow> traffic_point option \<Rightarrow> bool" where
  "points_differ l r \<longleftrightarrow> (case l of None \<Rightarrow> False | Some p \<Rightarrow> \<not> traffic_point_equals p (the r))"

definition traffic_location_equals :: "traffic_location \<Rightarrow> traffic_location \<Rightarrow> bool" where
  "traffic_location_equals l r \<longleftrightarrow>
     (if lo_directionality l \<noteq> lo_directionality r then False
      else if lo_ramps l \<noteq> lo_ramps r then False
      else if (lo_from l = None) \<noteq> (lo_from r = None) then False
      else if (lo_to l = None) \<noteq> (lo_to r = None) then False
      else if (lo_at l = None) \<noteq> (lo_at r = None) then False
      else if (lo_via l = None) \<noteq> (lo_via r = None) then False
      else if (lo_not_via l = None) \<noteq> (lo_not_via r = None) then False
      else if points_differ (lo_from l) (lo_from r) then False
      else if points_differ (lo_to l) (lo_to r) then False
      else if points_differ (lo_at l) (lo_at r) then False
      else if points_differ (lo_via l) (lo_via r) then False
      else if points_differ (lo_not_via l) (lo_not_via r) then False
      else True)"

end
