(* ===== verification/Traffic_Events.thy ===== *)
theory Traffic_Events
  imports Traffic_Model Attr_List
begin

text \<open>
  What the events of a traffic message mean for the road: the data for the affected segments that
  \<open>traffic_message_parse_events\<close> derives, its comparison, and the speed and delay of a single
  segment. The outer \<open>None\<close> is a memory fault or a division by zero.
\<close>

unbundle bit_operations_syntax

definition AF_TRANSPORT_TRUCK :: "32 word" where [af_defs]: "AF_TRANSPORT_TRUCK = 0x200000"
definition AF_DELIVERY_TRUCK :: "32 word" where [af_defs]: "AF_DELIVERY_TRUCK = 0x400000"
definition AF_PUBLIC_BUS :: "32 word" where [af_defs]: "AF_PUBLIC_BUS = 0x800000"
definition AF_CAR :: "32 word" where [af_defs]: "AF_CAR = 0x4000000"
definition AF_MOPED :: "32 word" where [af_defs]: "AF_MOPED = 0x10000000"
definition AF_MOTORIZED_FAST :: "32 word" where [af_defs]: "AF_MOTORIZED_FAST = 0xFF00000"
definition AF_UNDERGROUND :: "32 word" where [af_defs]: "AF_UNDERGROUND = 0x4000"

section \<open>Small conversions\<close>

definition boolean_new :: "string option \<Rightarrow> int \<Rightarrow> int" where
  "boolean_new string deflt = (case string of None \<Rightarrow> deflt | Some s \<Rightarrow>
     if g_ascii_strcasecmp s ''yes'' = 0 \<or> g_ascii_strcasecmp s ''true'' = 0 \<or> atoi s \<noteq> 0 then 1
     else if g_ascii_strcasecmp s ''no'' = 0 \<or> g_ascii_strcasecmp s ''false'' = 0
         \<or> hd_opt s = Some (CHR ''0'') \<and> \<not> atoi s \<noteq> 0 then 0
     else deflt)"

definition order_to_min_road_class :: "int \<Rightarrow> string option" where
  "order_to_min_road_class x = (if x \<le> 8 then Some ''PRIMARY'' else if x \<le> 10 then Some ''SECONDARY''
     else if x \<le> 12 then Some ''TERTIARY'' else None)"

definition ROUTE_ORDER :: "int \<Rightarrow> int" where
  "ROUTE_ORDER x = (if x = type_highway_land \<or> x = type_highway_city \<or> x = type_street_n_lanes then 10
     else if x = type_street_4_land \<or> x = type_street_4_city then 12 else 18)"

section \<open>Segment data\<close>

text \<open>\<open>dir\<close> is zero, no direction, until the message has been read.\<close>

record seg_data =
  sgd_type :: int
  sgd_speed :: int
  sgd_speed_penalty :: int
  sgd_speed_factor :: int
  sgd_delay :: int
  sgd_dir :: "location_dir option"
  sgd_flags :: "32 word"
  sgd_attrs :: "nat list option"

definition seg_data_new :: seg_data where
  "seg_data_new = \<lparr>sgd_type = type_traffic_distortion, sgd_speed = INT_MAX, sgd_speed_penalty = 0,
     sgd_speed_factor = 100, sgd_delay = 0, sgd_dir = None, sgd_flags = 0, sgd_attrs = None\<rparr>"

text \<open>
  The loops over the attributes have no end: the test is on the address of the list cell, never NULL,
  so after the last attribute the NULL in the list is followed.
\<close>

fun attrs_loop :: "attr_heap \<Rightarrow> nat list \<Rightarrow> nat list \<Rightarrow> bool option" where
  "attrs_loop h [] other = None"
| "attrs_loop h (p # ps) other = do {
     a \<leftarrow> ah_attr h p;
     r \<leftarrow> attr_search h other (at_type a);
     case r of None \<Rightarrow> Some False
     | Some q \<Rightarrow> do {
         b \<leftarrow> ah_attr h q;
         if at_u b \<noteq> at_u a then Some False else attrs_loop h ps other
       }
   }"

definition seg_data_equals :: "attr_heap \<Rightarrow> seg_data option \<Rightarrow> seg_data option \<Rightarrow> bool option" where
  "seg_data_equals h l r = (case (l, r) of
       (None, None) \<Rightarrow> Some False
     | (None, Some _) \<Rightarrow> Some True
     | (Some _, None) \<Rightarrow> Some True
     | (Some l, Some r) \<Rightarrow>
         if sgd_type l \<noteq> sgd_type r then Some False
         else if sgd_speed l \<noteq> sgd_speed r then Some False
         else if sgd_speed_penalty l \<noteq> sgd_speed_penalty r then Some False
         else if sgd_speed_factor l \<noteq> sgd_speed_factor r then Some False
         else if sgd_delay l \<noteq> sgd_delay r then Some False
         else if sgd_dir l \<noteq> sgd_dir r then Some False
         else if sgd_flags l \<noteq> sgd_flags r then Some False
         else (case (sgd_attrs l, sgd_attrs r) of
             (None, None) \<Rightarrow> Some True
           | (None, Some _) \<Rightarrow> Some False
           | (Some _, None) \<Rightarrow> Some False
           | (Some ps, Some qs) \<Rightarrow> do {
               e \<leftarrow> attrs_loop h ps qs;
               if \<not> e then Some False else attrs_loop h qs ps
             }))"

section \<open>Parsing the events\<close>

text \<open>The local variables of \<open>traffic_message_parse_events\<close>.\<close>

record parse_state =
  pe_ret :: "seg_data option"
  pe_has_flags :: bool
  pe_flags :: "32 word"
  pe_speed :: int
  pe_speed_penalty :: int
  pe_speed_factor :: int
  pe_delay :: int

definition parse_start :: parse_state where
  "parse_start = \<lparr>pe_ret = None, pe_has_flags = False, pe_flags = 0, pe_speed = INT_MAX, pe_speed_penalty = 0,
     pe_speed_factor = 100, pe_delay = 0\<rparr>"

text \<open>\<open>if (!ret) ret = seg_data_new();\<close>\<close>

definition ret_data :: "parse_state \<Rightarrow> seg_data" where
  "ret_data s = (case pe_ret s of None \<Rightarrow> seg_data_new | Some d \<Rightarrow> d)"

definition parse_speed :: "traffic_event \<Rightarrow> parse_state \<Rightarrow> parse_state" where
  "parse_speed ev s = (if ev_speed ev \<noteq> INT_MAX then
       let d = ret_data s
       in s\<lparr>pe_ret := Some (if sgd_speed d > ev_speed ev then d\<lparr>sgd_speed := ev_speed ev\<rparr> else d)\<rparr>
     else s)"

definition parse_congestion :: "traffic_event \<Rightarrow> parse_state \<Rightarrow> parse_state" where
  "parse_congestion ev s =
     (if ev_type ev \<in> {event_congestion_heavy_traffic, event_congestion_traffic_building_up,
          event_congestion_traffic_heavier_than_normal, event_congestion_traffic_much_heavier_than_normal} then
        if ev_speed ev = INT_MAX \<and> pe_speed_penalty s < 10 then s\<lparr>pe_speed_penalty := 10\<rparr> else s
      else if ev_type ev \<in> {event_congestion_slow_traffic, event_congestion_traffic_congestion,
          event_congestion_traffic_problem} then
        if ev_speed ev = INT_MAX \<and> pe_speed_factor s > 50 then s\<lparr>pe_speed_factor := 50\<rparr> else s
      else if ev_type ev = event_congestion_queue then
        if ev_speed ev = INT_MAX \<and> pe_speed s > 20 then s\<lparr>pe_speed := 20\<rparr> else s
      else if ev_type ev \<in> {event_congestion_stationary_traffic, event_congestion_long_queue} then
        if ev_speed ev = INT_MAX \<and> pe_speed s > 5 then s\<lparr>pe_speed := 5\<rparr> else s
      else s)"

text \<open>A delay given with the event raises that of the result, otherwise a default is assumed.\<close>

definition parse_duration :: "traffic_event \<Rightarrow> int \<Rightarrow> parse_state \<Rightarrow> parse_state" where
  "parse_duration ev deflt s = (case ev_quantifier ev of
       Some q \<Rightarrow> let d = ret_data s
         in s\<lparr>pe_ret := Some (if sgd_delay d < q_u q then d\<lparr>sgd_delay := q_u q\<rparr> else d)\<rparr>
     | None \<Rightarrow> if pe_delay s < deflt then s\<lparr>pe_delay := deflt\<rparr> else s)"

definition parse_delay :: "traffic_event \<Rightarrow> parse_state \<Rightarrow> parse_state" where
  "parse_delay ev s =
     (if ev_type ev \<in> {event_delay_delay, event_delay_long_delay} then parse_duration ev 18000 s
      else if ev_type ev = event_delay_very_long_delay then parse_duration ev 36000 s
      else if ev_type ev \<in> {event_delay_several_hours, event_delay_uncertain_duration} then
        if pe_delay s < 108000 then s\<lparr>pe_delay := 108000\<rparr> else s
      else s)"

definition parse_restriction :: "traffic_event \<Rightarrow> parse_state \<Rightarrow> parse_state" where
  "parse_restriction ev s =
     (if ev_type ev \<in> {event_restriction_blocked, event_restriction_blocked_ahead,
          event_restriction_carriageway_blocked, event_restriction_carriageway_closed,
          event_restriction_closed, event_restriction_closed_ahead} then
        s\<lparr>pe_ret := Some ((ret_data s)\<lparr>sgd_speed := 0\<rparr>)\<rparr>
      else if ev_type ev \<in> {event_restriction_intermittent_closures, event_restriction_batch_service,
          event_restriction_single_alternate_line_traffic} then
        if pe_speed_factor s > 30 then s\<lparr>pe_speed_factor := 30\<rparr> else s
      else if ev_type ev \<in> {event_restriction_lane_blocked, event_restriction_lane_closed,
          event_restriction_reduced_lanes} then s\<lparr>pe_speed := 80, pe_speed_factor := 67\<rparr>
      else if ev_type ev = event_restriction_contraflow then s\<lparr>pe_speed := 80\<rparr>
      else s)"

definition parse_vehicle :: "traffic_suppl_info \<Rightarrow> parse_state \<Rightarrow> parse_state" where
  "parse_vehicle si s = (case su_type si of
       si_vehicle_all \<Rightarrow> s\<lparr>pe_flags := pe_flags s OR AF_ALL, pe_has_flags := True\<rparr>
     | si_vehicle_bus \<Rightarrow> s\<lparr>pe_flags := pe_flags s OR AF_PUBLIC_BUS, pe_has_flags := True\<rparr>
     | si_vehicle_car \<Rightarrow> s\<lparr>pe_flags := pe_flags s OR AF_CAR, pe_has_flags := True\<rparr>
     | si_vehicle_car_with_caravan \<Rightarrow> s\<lparr>pe_has_flags := True\<rparr>
     | si_vehicle_car_with_trailer \<Rightarrow> s\<lparr>pe_has_flags := True\<rparr>
     | si_vehicle_hazmat \<Rightarrow> s\<lparr>pe_flags := pe_flags s OR AF_DANGEROUS_GOODS, pe_has_flags := True\<rparr>
     | si_vehicle_hgv \<Rightarrow> s\<lparr>pe_flags := pe_flags s OR (AF_TRANSPORT_TRUCK OR AF_DELIVERY_TRUCK), pe_has_flags := True\<rparr>
     | si_vehicle_motor \<Rightarrow> s\<lparr>pe_flags := pe_flags s OR (AF_MOTORIZED_FAST OR AF_MOPED), pe_has_flags := True\<rparr>
     | si_vehicle_with_trailer \<Rightarrow> s\<lparr>pe_has_flags := True\<rparr>
     | _ \<Rightarrow> s)"

definition parse_event :: "traffic_event \<Rightarrow> parse_state \<Rightarrow> parse_state option" where
  "parse_event ev s = do {
     let s = parse_speed ev s;
     let s = (case ev_event_class ev of
         event_class_congestion \<Rightarrow> parse_congestion ev s
       | event_class_delay \<Rightarrow> parse_delay ev s
       | event_class_restriction \<Rightarrow> parse_restriction ev s
       | _ \<Rightarrow> s);
     sis \<leftarrow> read_array (ev_si ev) (ev_si_count ev);
     sis \<leftarrow> non_null sis;
     Some (fold parse_vehicle sis s)
   }"

fun parse_events :: "traffic_event list \<Rightarrow> parse_state \<Rightarrow> parse_state option" where
  "parse_events [] s = Some s"
| "parse_events (ev # evs) s = do { s \<leftarrow> parse_event ev s; parse_events evs s }"

definition parse_finish :: "traffic_location \<Rightarrow> parse_state \<Rightarrow> seg_data" where
  "parse_finish loc s =
     (let flags = (if \<not> pe_has_flags s then
          if lo_road_type loc = type_line_unspecified then AF_ALL else AF_MOTORIZED_FAST OR AF_MOPED
        else pe_flags s);
        ret = ret_data s;
        ret = (if pe_speed s \<noteq> INT_MAX \<or> pe_speed_penalty s \<noteq> 0 \<or> pe_speed_factor s \<noteq> 100 \<or> pe_delay s \<noteq> 0 then
            let ret = (if sgd_speed ret = INT_MAX then
                ret\<lparr>sgd_speed := pe_speed s, sgd_speed_penalty := pe_speed_penalty s,
                  sgd_speed_factor := pe_speed_factor s\<rparr> else ret)
            in if sgd_delay ret = 0 then ret\<lparr>sgd_delay := pe_delay s\<rparr> else ret
          else ret)
      in ret\<lparr>sgd_dir := Some (lo_directionality loc), sgd_flags := flags\<rparr>)"

definition traffic_message_parse_events :: "traffic_message \<Rightarrow> seg_data option" where
  "traffic_message_parse_events this = do {
     evs \<leftarrow> read_array (me_events this) (me_event_count this);
     evs \<leftarrow> non_null evs;
     s \<leftarrow> parse_events evs parse_start;
     loc \<leftarrow> me_location this;
     Some (parse_finish loc s)
   }"

section \<open>Speed and delay of a segment\<close>

definition default_maxspeed :: "int \<Rightarrow> int" where
  "default_maxspeed t =
     (if t \<in> {type_highway_land, type_street_n_lanes} then 100
      else if t \<in> {type_highway_city, type_street_4_land} then 80
      else if t = type_street_3_land then 70
      else if t = type_street_2_land then 65
      else if t = type_street_1_land then 60
      else if t = type_street_4_city then 50
      else if t \<in> {type_ramp, type_street_3_city, type_street_unkn} then 40
      else if t \<in> {type_street_2_city, type_track_paved} then 30
      else if t \<in> {type_track, type_cycleway} then 20
      else if t \<in> {type_roundabout, type_street_1_city, type_street_0, type_living_street, type_street_service,
          type_street_parking_lane, type_path, type_track_ground, type_track_gravelled, type_track_unpaved,
          type_track_grass, type_bridleway} then 10
      else if t \<in> {type_street_pedestrian, type_footway, type_steps} then 5
      else 50)"

definition traffic_get_item_speed :: "item \<Rightarrow> seg_data \<Rightarrow> int \<Rightarrow> int" where
  "traffic_get_item_speed item data item_maxspeed =
     (let speed = sgd_speed data
      in if sgd_speed data \<noteq> INT_MAX \<or> sgd_speed_penalty data \<noteq> 0 \<or> sgd_speed_factor data \<noteq> 100 then
        let maxspeed = (if item_maxspeed \<noteq> INT_MAX then item_maxspeed else default_maxspeed (it_type item));
            penalized_speed = i32 (maxspeed - sgd_speed_penalty data);
            penalized_speed = (if penalized_speed < 5 then 5 else penalized_speed);
            factor_speed = cdiv (i32 (maxspeed * sgd_speed_factor data)) 100;
            speed = (if speed > penalized_speed then penalized_speed else speed);
            speed = (if speed > factor_speed then factor_speed else speed)
        in speed
      else speed)"

definition traffic_get_item_delay :: "int \<Rightarrow> int \<Rightarrow> int \<Rightarrow> int option" where
  "traffic_get_item_delay delay item_len len =
     (if delay \<noteq> 0 then if len = 0 then None else Some (cdiv (i32 (delay * item_len)) len) else Some delay)"

section \<open>End points\<close>

text \<open>Whether a point of the route graph can be the end of a location with low resolution.\<close>

definition route_graph_point_is_endpoint_candidate :: "route_graph \<Rightarrow> nat \<Rightarrow> nat option \<Rightarrow> bool" where
  "route_graph_point_is_endpoint_candidate g this s_prev =
     (let s = pt_seg (g_pt g this);
          ret = (case (s_prev, s) of
              (Some sp, Some sn) \<Rightarrow> sd_flags (sg_data (g_seg g sn)) AND AF_UNDERGROUND
                \<noteq> sd_flags (sg_data (g_seg g sp)) AND AF_UNDERGROUND
            | _ \<Rightarrow> True)
      in if \<not> ret then
          let is_junction = (if s \<noteq> None \<and> s_prev \<noteq> None then 0 else - 1 :: int);
              count = (\<lambda>s_cmp n. if Some s_cmp \<noteq> s \<and> Some s_cmp \<noteq> s_prev then n + 1 else n);
              is_junction = fold count (pt_start (g_pt g this)) is_junction;
              is_junction = fold count (pt_end (g_pt g this)) is_junction
          in is_junction > 0
        else ret)"

end
