(* ===== verification/Traffic_Spec.thy ===== *)
theory Traffic_Spec
  imports Traffic_Events
begin

text \<open>
  Properties of messages and of the segment data derived from them.
\<close>

section \<open>Messages that can be used\<close>

definition event_intact :: "traffic_event \<Rightarrow> bool" where
  "event_intact ev \<longleftrightarrow> (\<exists>sis. read_array (ev_si ev) (ev_si_count ev) = Some (map Some sis))"

definition message_intact :: "traffic_message \<Rightarrow> bool" where
  "message_intact m \<longleftrightarrow> (\<exists>evs. read_array (me_events m) (me_event_count m) = Some (map Some evs)
     \<and> (\<forall>ev \<in> set evs. event_intact ev) \<and> (me_events m = None \<longrightarrow> me_event_count m = 0))"

lemma parse_event_intact: "event_intact ev \<Longrightarrow> \<exists>s'. parse_event ev s = Some s'"
  by (auto simp: event_intact_def parse_event_def Let_def)

lemma parse_events_intact: "\<forall>ev \<in> set evs. event_intact ev \<Longrightarrow> \<exists>s'. parse_events evs s = Some s'"
proof (induction evs arbitrary: s)
  case (Cons ev evs)
  obtain s1 where "parse_event ev s = Some s1" using parse_event_intact Cons.prems by fastforce
  then show ?case using Cons by auto
qed simp

lemma read_array_nonneg: "read_array xs n = Some ys \<Longrightarrow> int (length ys) = max 0 n"
  by (auto simp: read_array_def memdup_def split: option.splits if_splits)

lemma message_add_event:
  assumes "message_intact m" "0 \<le> me_event_count m" "event_intact ev"
  shows "\<exists>m'. traffic_message_add_event m (Some ev) = Some m' \<and> message_intact m'
    \<and> traffic_message_get_event m' (me_event_count m) = Some (Some ev)"
proof -
  obtain evs where evs: "read_array (me_events m) (me_event_count m) = Some (map Some evs)"
    "\<forall>ev \<in> set evs. event_intact ev" "me_events m = None \<longrightarrow> me_event_count m = 0"
    using assms(1) by (auto simp: message_intact_def)
  then have n: "me_event_count m = int (length evs)" using read_array_nonneg [OF evs(1)] assms(2) by simp
  have c: "(case me_events m of Some xs \<Rightarrow> memdup xs (me_event_count m)
       | None \<Rightarrow> if me_event_count m = 0 then Some [] else None) = Some (map Some evs)"
    using evs n by (auto simp: read_array_def memdup_def split: option.splits if_splits)
  let ?m = "m\<lparr>me_events := Some (map Some evs @ [Some ev]), me_event_count := me_event_count m + 1\<rparr>"
  have "traffic_message_add_event m (Some ev) = Some ?m" unfolding traffic_message_add_event_def c by simp
  moreover have "read_array (me_events ?m) (me_event_count ?m) = Some (map Some (evs @ [ev]))"
    using n by (simp add: read_array_def memdup_def)
  then have "message_intact ?m" unfolding message_intact_def
    using evs(2) assms(3) by (intro exI [of _ "evs @ [ev]"]) auto
  moreover have "traffic_message_get_event ?m (me_event_count m) = Some (Some ev)"
    by (simp add: traffic_message_get_event_def array_at_def n nth_append)
  ultimately show ?thesis by blast
qed


definition ex_location :: traffic_location where
  "ex_location = traffic_location_new_short (Some (traffic_point_new_short (Finite 11) (Finite 48))) None None None None
     location_dir_both location_fuzziness_none"

definition ex_message :: "traffic_event option list \<Rightarrow> traffic_message" where
  "ex_message evs = the (traffic_message_new (Some ''id'') 1 1 2 0 0 0 0 0 None (Some ex_location)
     (int (length evs)) (Some evs))"

definition ex_event :: "event_class \<Rightarrow> event_type \<Rightarrow> traffic_event" where
  "ex_event c t = the (traffic_event_new_short c t)"


text \<open>A message with a NULL among its events is valid, and is a memory fault when it is parsed.\<close>

lemma valid_message_null_event:
  "let m = ex_message [None, Some (ex_event event_class_delay event_delay_delay)]
   in traffic_message_is_valid m = Some True \<and> traffic_message_parse_events m = None"
  by code_simp

section \<open>Segment data of a message\<close>

definition closing :: "traffic_event \<Rightarrow> bool" where
  "closing ev \<longleftrightarrow> ev_event_class ev = event_class_restriction
     \<and> ev_type ev \<in> {event_restriction_blocked, event_restriction_blocked_ahead,
          event_restriction_carriageway_blocked, event_restriction_carriageway_closed,
          event_restriction_closed, event_restriction_closed_ahead}"

definition timed_delay :: "traffic_event \<Rightarrow> int option" where
  "timed_delay ev = (if ev_event_class ev = event_class_delay
       \<and> ev_type ev \<in> {event_delay_delay, event_delay_long_delay, event_delay_very_long_delay}
     then map_option q_u (ev_quantifier ev) else None)"

definition data_ok :: "seg_data \<Rightarrow> bool" where
  "data_ok d \<longleftrightarrow> 0 \<le> sgd_speed d \<and> sgd_speed d \<le> INT_MAX \<and> 0 \<le> sgd_delay d \<and> sgd_speed_penalty d = 0
     \<and> sgd_speed_factor d = 100 \<and> sgd_type d = type_traffic_distortion \<and> sgd_attrs d = None"

definition penalties :: "int set" where "penalties = {0, 10}"
definition factors :: "int set" where "factors = {30, 50, 67, 100}"
definition speeds :: "int set" where "speeds = {5, 20, 80, INT_MAX}"
definition delays :: "int set" where "delays = {0, 18000, 36000, 108000}"

lemma default_sets [simp]:
  "0 \<in> penalties" "10 \<in> penalties" "30 \<in> factors" "50 \<in> factors" "67 \<in> factors" "100 \<in> factors"
  "5 \<in> speeds" "20 \<in> speeds" "80 \<in> speeds" "INT_MAX \<in> speeds"
  "0 \<in> delays" "18000 \<in> delays" "36000 \<in> delays" "108000 \<in> delays"
  by (simp_all add: penalties_def factors_def speeds_def delays_def)

definition parse_inv :: "parse_state \<Rightarrow> bool" where
  "parse_inv s \<longleftrightarrow> data_ok (ret_data s) \<and> pe_speed_penalty s \<in> penalties \<and> pe_speed_factor s \<in> factors
     \<and> pe_speed s \<in> speeds \<and> pe_delay s \<in> delays"

text \<open>The result so far only gets slower.\<close>

definition slower :: "parse_state \<Rightarrow> parse_state \<Rightarrow> bool" where
  "slower s t \<longleftrightarrow> sgd_speed (ret_data t) \<le> sgd_speed (ret_data s) \<and> sgd_delay (ret_data s) \<le> sgd_delay (ret_data t)"

definition event_done :: "traffic_event \<Rightarrow> parse_state \<Rightarrow> bool" where
  "event_done ev s \<longleftrightarrow> sgd_speed (ret_data s) \<le> ev_speed ev
     \<and> (closing ev \<longrightarrow> sgd_speed (ret_data s) = 0)
     \<and> (\<forall>q. timed_delay ev = Some q \<longrightarrow> q \<le> sgd_delay (ret_data s))"

lemma ret_data_update [simp]:
  "ret_data (s\<lparr>pe_ret := Some d\<rparr>) = d" "ret_data (s\<lparr>pe_speed := a\<rparr>) = ret_data s"
  "ret_data (s\<lparr>pe_speed_penalty := a\<rparr>) = ret_data s" "ret_data (s\<lparr>pe_speed_factor := a\<rparr>) = ret_data s"
  "ret_data (s\<lparr>pe_delay := a\<rparr>) = ret_data s" "ret_data (s\<lparr>pe_flags := w, pe_has_flags := b\<rparr>) = ret_data s"
  "ret_data (s\<lparr>pe_has_flags := b\<rparr>) = ret_data s" "ret_data (s\<lparr>pe_flags := w\<rparr>) = ret_data s"
  by (simp_all add: ret_data_def)

lemma parse_start_inv: "parse_inv parse_start"
  by (simp add: parse_inv_def data_ok_def parse_start_def ret_data_def seg_data_new_def) (simp add: INT_MAX_def)

lemma slower_refl [simp]: "slower s s"
  by (simp add: slower_def)

lemma slower_trans: "slower s t \<Longrightarrow> slower t u \<Longrightarrow> slower s u"
  by (simp add: slower_def)

lemma slower_done: "event_done ev s \<Longrightarrow> slower s t \<Longrightarrow> parse_inv t \<Longrightarrow> event_done ev t"
  by (auto simp: event_done_def slower_def parse_inv_def data_ok_def)

lemma parse_speed_ok:
  assumes "parse_inv s" "0 \<le> ev_speed ev" "ev_speed ev \<le> INT_MAX"
  shows "parse_inv (parse_speed ev s) \<and> slower s (parse_speed ev s)
    \<and> sgd_speed (ret_data (parse_speed ev s)) \<le> ev_speed ev"
  using assms by (auto simp: parse_speed_def parse_inv_def data_ok_def slower_def Let_def)

lemma parse_congestion_ok:
  assumes "parse_inv s" shows "parse_inv (parse_congestion ev s) \<and> ret_data (parse_congestion ev s) = ret_data s"
  using assms by (auto simp: parse_congestion_def parse_inv_def)

lemma parse_duration_ok:
  assumes "parse_inv s" "deflt \<in> delays"
  shows "parse_inv (parse_duration ev deflt s) \<and> slower s (parse_duration ev deflt s)
    \<and> (\<forall>q. ev_quantifier ev = Some q \<longrightarrow> q_u q \<le> sgd_delay (ret_data (parse_duration ev deflt s)))"
  using assms by (auto simp: parse_duration_def parse_inv_def data_ok_def slower_def Let_def split: option.split)

lemma parse_delay_ok:
  assumes "parse_inv s"
  shows "parse_inv (parse_delay ev s) \<and> slower s (parse_delay ev s)
    \<and> (ev_type ev \<in> {event_delay_delay, event_delay_long_delay, event_delay_very_long_delay} \<longrightarrow>
        (\<forall>q. ev_quantifier ev = Some q \<longrightarrow> q_u q \<le> sgd_delay (ret_data (parse_delay ev s))))"
proof -
  have "parse_inv (s\<lparr>pe_delay := 108000\<rparr>)" using assms by (simp add: parse_inv_def)
  then show ?thesis
    using parse_duration_ok [OF assms, of 18000 ev] parse_duration_ok [OF assms, of 36000 ev] assms
    by (auto simp: parse_delay_def slower_def)
qed

lemma parse_restriction_ok:
  assumes "parse_inv s"
  shows "parse_inv (parse_restriction ev s) \<and> slower s (parse_restriction ev s)
    \<and> (ev_event_class ev = event_class_restriction \<and> closing ev \<longrightarrow> sgd_speed (ret_data (parse_restriction ev s)) = 0)"
proof -
  have "parse_inv (s\<lparr>pe_ret := Some ((ret_data s)\<lparr>sgd_speed := 0\<rparr>)\<rparr>)" "parse_inv (s\<lparr>pe_speed_factor := 30\<rparr>)"
    "parse_inv (s\<lparr>pe_speed := 80, pe_speed_factor := 67\<rparr>)" "parse_inv (s\<lparr>pe_speed := 80\<rparr>)"
    using assms by (auto simp: parse_inv_def data_ok_def INT_MAX_def)
  moreover have "ret_data (s\<lparr>pe_speed := 80, pe_speed_factor := 67\<rparr>) = ret_data s" by (simp add: ret_data_def)
  ultimately show ?thesis
    using assms by (auto simp: parse_restriction_def slower_def closing_def parse_inv_def data_ok_def)
qed

lemma parse_vehicle_ok: "ret_data (parse_vehicle si s) = ret_data s \<and> parse_inv (parse_vehicle si s) = parse_inv s"
  by (cases "su_type si") (auto simp: parse_vehicle_def parse_inv_def)

lemma parse_vehicles_ok: "ret_data (fold parse_vehicle sis s) = ret_data s \<and> parse_inv (fold parse_vehicle sis s) = parse_inv s"
  by (induction sis arbitrary: s) (simp_all add: parse_vehicle_ok)

lemma parse_event_ok:
  assumes "parse_inv s" "0 \<le> ev_speed ev" "ev_speed ev \<le> INT_MAX" "parse_event ev s = Some s'"
  shows "parse_inv s' \<and> slower s s' \<and> event_done ev s'"
proof -
  define s1 where "s1 = parse_speed ev s"
  have s1: "parse_inv s1" "slower s s1" "sgd_speed (ret_data s1) \<le> ev_speed ev"
    using parse_speed_ok [OF assms(1-3)] by (simp_all add: s1_def)
  define s2 where "s2 = (case ev_event_class ev of event_class_congestion \<Rightarrow> parse_congestion ev s1
       | event_class_delay \<Rightarrow> parse_delay ev s1 | event_class_restriction \<Rightarrow> parse_restriction ev s1 | _ \<Rightarrow> s1)"
  have s2: "parse_inv s2 \<and> slower s1 s2 \<and> event_done ev s2"
    using s1 parse_congestion_ok [OF s1(1), of ev] parse_delay_ok [OF s1(1), of ev] parse_restriction_ok [OF s1(1), of ev]
    by (cases "ev_event_class ev")
       (auto simp: s2_def slower_def event_done_def closing_def timed_delay_def split: if_splits)
  obtain sis where "s' = fold parse_vehicle sis s2"
    using assms(4) unfolding parse_event_def Let_def s1_def [symmetric] s2_def [symmetric]
    by (auto split: bind_splits)
  then show ?thesis using s2 s1(2) parse_vehicles_ok [of sis s2] by (auto simp: slower_def event_done_def)
qed

lemma parse_events_ok:
  assumes "parse_inv s" "\<forall>ev \<in> set evs. 0 \<le> ev_speed ev \<and> ev_speed ev \<le> INT_MAX" "parse_events evs s = Some s'"
  shows "parse_inv s' \<and> slower s s' \<and> (\<forall>ev \<in> set evs. event_done ev s')"
  using assms
proof (induction evs arbitrary: s)
  case (Cons ev evs)
  then obtain t where t: "parse_event ev s = Some t" "parse_events evs t = Some s'"
    by (auto split: bind_splits)
  have e: "parse_inv t" "slower s t" "event_done ev t"
    using parse_event_ok [OF Cons.prems(1) _ _ t(1)] Cons.prems(2) by auto
  have r: "parse_inv s'" "slower t s'" "\<forall>ev \<in> set evs. event_done ev s'"
    using Cons.IH [OF e(1) _ t(2)] Cons.prems(2) by auto
  show ?case using e r slower_trans slower_done by auto
qed simp

lemma parse_finish_fields:
  assumes "data_ok (ret_data s)"
  shows "sgd_speed (parse_finish loc s) = (if sgd_speed (ret_data s) = INT_MAX then pe_speed s else sgd_speed (ret_data s))"
    "sgd_speed_penalty (parse_finish loc s) = (if sgd_speed (ret_data s) = INT_MAX then pe_speed_penalty s else 0)"
    "sgd_speed_factor (parse_finish loc s) = (if sgd_speed (ret_data s) = INT_MAX then pe_speed_factor s else 100)"
    "sgd_delay (parse_finish loc s) = (if sgd_delay (ret_data s) = 0 then pe_delay s else sgd_delay (ret_data s))"
    "sgd_type (parse_finish loc s) = type_traffic_distortion" "sgd_attrs (parse_finish loc s) = None"
    "sgd_dir (parse_finish loc s) = Some (lo_directionality loc)"
  using assms unfolding data_ok_def parse_finish_def Let_def by simp_all

lemma default_bounds:
  "x \<in> speeds \<Longrightarrow> 0 \<le> x \<and> x \<le> INT_MAX" "x \<in> delays \<Longrightarrow> 0 \<le> x"
  by (auto simp: speeds_def delays_def INT_MAX_def)

text \<open>C26: the segment data of a message respects every event: not faster than any speed given, closed
  when an event closes the road, delayed at least as long as any duration given. Penalty and factor come
  from the fixed defaults and are used only when no speed is given.\<close>

theorem traffic_parse_bounds:
  assumes d: "traffic_message_parse_events m = Some d"
    and evs: "read_array (me_events m) (me_event_count m) = Some (map Some evs)"
    and speeds: "\<forall>ev \<in> set evs. 0 \<le> ev_speed ev \<and> ev_speed ev \<le> INT_MAX"
  shows "(\<forall>ev \<in> set evs. sgd_speed d \<le> ev_speed ev \<and> (closing ev \<longrightarrow> sgd_speed d = 0)
       \<and> (\<forall>q. timed_delay ev = Some q \<longrightarrow> q \<le> sgd_delay d))
    \<and> 0 \<le> sgd_speed d \<and> 0 \<le> sgd_delay d
    \<and> sgd_speed_penalty d \<in> {0, 10} \<and> sgd_speed_factor d \<in> {30, 50, 67, 100}
    \<and> ((\<exists>ev \<in> set evs. ev_speed ev \<noteq> INT_MAX \<or> closing ev) \<longrightarrow> sgd_speed_penalty d = 0 \<and> sgd_speed_factor d = 100)
    \<and> sgd_type d = type_traffic_distortion \<and> sgd_attrs d = None
    \<and> sgd_dir d = map_option lo_directionality (me_location m)"
proof -
  obtain s loc where s: "parse_events evs parse_start = Some s" "me_location m = Some loc" "d = parse_finish loc s"
    using d evs by (auto simp: traffic_message_parse_events_def split: bind_splits)
  have ok: "parse_inv s" "\<forall>ev \<in> set evs. event_done ev s"
    using parse_events_ok [OF parse_start_inv speeds s(1)] by auto
  define r where "r = ret_data s"
  have r: "data_ok r" using ok(1) by (simp add: parse_inv_def r_def)
  note f = parse_finish_fields [of s loc, folded s(3) r_def, OF r]
  have i: "pe_speed_penalty s \<in> penalties" "pe_speed_factor s \<in> factors" "pe_speed s \<in> speeds" "pe_delay s \<in> delays"
    using ok(1) by (simp_all add: parse_inv_def)
  have dr: "sgd_speed d \<le> sgd_speed r" "0 \<le> sgd_speed d" "sgd_delay r \<le> sgd_delay d" "0 \<le> sgd_delay d"
      "sgd_speed r < INT_MAX \<longrightarrow> sgd_speed_penalty d = 0 \<and> sgd_speed_factor d = 100"
      "sgd_speed_penalty d \<in> {0, 10}" "sgd_speed_factor d \<in> {30, 50, 67, 100}"
    using r default_bounds(1) [OF i(3)] default_bounds(2) [OF i(4)] i(1,2)
    by (auto simp: f data_ok_def penalties_def factors_def)
  have e: "sgd_speed d \<le> ev_speed ev \<and> (closing ev \<longrightarrow> sgd_speed d = 0)
       \<and> (\<forall>q. timed_delay ev = Some q \<longrightarrow> q \<le> sgd_delay d)" if "ev \<in> set evs" for ev
    using ok(2) that dr(1-3) unfolding event_done_def r_def [symmetric] by fastforce
  have c: "sgd_speed r < INT_MAX" if "ev \<in> set evs" "ev_speed ev \<noteq> INT_MAX \<or> closing ev" for ev
    using ok(2) that speeds unfolding event_done_def r_def [symmetric] by (fastforce simp: INT_MAX_def)
  show ?thesis using e c dr f(5-7) s(2) by auto
qed

definition ex_closed :: traffic_event where
  "ex_closed = (ex_event event_class_restriction event_restriction_closed)\<lparr>ev_speed := 30\<rparr>"

definition ex_delay :: traffic_event where
  "ex_delay = (ex_event event_class_delay event_delay_delay)\<lparr>ev_quantifier := Some \<lparr>q_u = 600\<rparr>\<rparr>"

lemma traffic_parse_bounds_witness:
  "\<exists>d. traffic_message_parse_events (ex_message [Some ex_closed, Some ex_delay]) = Some d
     \<and> sgd_speed d = 0 \<and> 600 \<le> sgd_delay d"
proof -
  let ?m = "ex_message [Some ex_closed, Some ex_delay]"
  have "traffic_message_parse_events ?m \<noteq> None" by code_simp
  then obtain d where d: "traffic_message_parse_events ?m = Some d" by auto
  have a: "read_array (me_events ?m) (me_event_count ?m) = Some (map Some [ex_closed, ex_delay])"
    by (simp add: ex_message_def traffic_message_new_def memdup_def read_array_def Let_def)
  have b: "ev_speed ex_closed = 30" "ev_speed ex_delay = INT_MAX" "closing ex_closed" "timed_delay ex_delay = Some 600"
    by code_simp+
  have "\<forall>ev \<in> set [ex_closed, ex_delay]. 0 \<le> ev_speed ev \<and> ev_speed ev \<le> INT_MAX" by (simp add: b) (simp add: INT_MAX_def)
  from traffic_parse_bounds [OF d a this] show ?thesis using d b by auto
qed

text \<open>The defaults depend on the order of the events: a closed lane after a queue raises the assumed
  speed from 20 to 80, in the other order it stays at 20; and contraflow replaces the 5 km/h of
  stationary traffic by 80.\<close>

theorem traffic_parse_order:
  "let speed = (\<lambda>evs. map_option sgd_speed (traffic_message_parse_events (ex_message (map Some evs))));
       queue = ex_event event_class_congestion event_congestion_queue;
       stationary = ex_event event_class_congestion event_congestion_stationary_traffic;
       lane = ex_event event_class_restriction event_restriction_lane_closed;
       contraflow = ex_event event_class_restriction event_restriction_contraflow
   in speed [lane, queue] = Some 20 \<and> speed [queue, lane] = Some 80
    \<and> speed [contraflow, stationary] = Some 5 \<and> speed [stationary, contraflow] = Some 80"
  by code_simp

section \<open>Equality of locations\<close>

definition point_key :: "traffic_point \<Rightarrow> c_double \<times> c_double" where
  "point_key p = (tp_lat p, tp_lng p)"

definition location_points :: "traffic_location \<Rightarrow> traffic_point option list" where
  "location_points l = [lo_from l, lo_to l, lo_at l, lo_via l, lo_not_via l]"

definition location_key :: "traffic_location \<Rightarrow> location_dir \<times> location_ramps \<times> (c_double \<times> c_double) option list" where
  "location_key l = (lo_directionality l, lo_ramps l, map (map_option point_key) (location_points l))"

definition point_numbers :: "traffic_point option \<Rightarrow> bool" where
  "point_numbers a = (case a of None \<Rightarrow> True | Some p \<Rightarrow> tp_lat p \<noteq> NaN \<and> tp_lng p \<noteq> NaN)"

definition location_numbers :: "traffic_location \<Rightarrow> bool" where
  "location_numbers l = list_all point_numbers (location_points l)"

lemma point_equals_iff: "traffic_point_equals p q \<longleftrightarrow> point_key p = point_key q \<and> tp_lat p \<noteq> NaN \<and> tp_lng p \<noteq> NaN"
  by (auto simp: traffic_point_equals_def double_ne_def point_key_def)

lemma points_differ_iff:
  "(a = None) = (b = None) \<Longrightarrow>
    points_differ a b \<longleftrightarrow> \<not> (map_option point_key a = map_option point_key b \<and> point_numbers a)"
  by (auto simp: points_differ_def point_equals_iff point_numbers_def split: option.splits)

lemma same_null: "map_option f a = map_option f b \<Longrightarrow> (a = None) = (b = None)"
  by (cases a; cases b) auto

text \<open>Two locations are equal exactly when direction, ramps and the coordinates of all five points
  agree and none of the coordinates is NaN: the comparison is symmetric and transitive, and reflexive
  on locations without NaN; names and road data never matter.\<close>

theorem traffic_location_equivalence:
  "traffic_location_equals l r \<longleftrightarrow> location_key l = location_key r \<and> location_numbers l"
proof (cases "(lo_from l = None) = (lo_from r = None) \<and> (lo_to l = None) = (lo_to r = None)
    \<and> (lo_at l = None) = (lo_at r = None) \<and> (lo_via l = None) = (lo_via r = None)
    \<and> (lo_not_via l = None) = (lo_not_via r = None)")
  case True
  then show ?thesis
    by (auto simp: traffic_location_equals_def location_key_def location_points_def location_numbers_def
        points_differ_iff)
next
  case False
  then have "\<not> traffic_location_equals l r" by (auto simp: traffic_location_equals_def)
  moreover have "location_key l \<noteq> location_key r"
  proof
    assume "location_key l = location_key r"
    then have k: "map_option point_key (lo_from l) = map_option point_key (lo_from r)"
      "map_option point_key (lo_to l) = map_option point_key (lo_to r)"
      "map_option point_key (lo_at l) = map_option point_key (lo_at r)"
      "map_option point_key (lo_via l) = map_option point_key (lo_via r)"
      "map_option point_key (lo_not_via l) = map_option point_key (lo_not_via r)"
      by (simp_all add: location_key_def location_points_def)
    show False using False k [THEN same_null] by blast
  qed
  ultimately show ?thesis by simp
qed

section \<open>Equality of segment data\<close>

lemma attrs_loop_not_true: "attrs_loop h ps qs \<noteq> Some True"
  by (induction ps) (auto split: bind_splits option.splits)

text \<open>Without attributes the comparison of segment data is equality; but two missing ones are
  called different and a missing one equal to any other, against the comment, and with attributes on
  both sides it never answers that they are equal: it answers no or runs past the end of the list.\<close>

theorem seg_data_equals_cases:
  "seg_data_equals h None None = Some False \<and> seg_data_equals h None (Some d) = Some True
   \<and> seg_data_equals h (Some d) None = Some True
   \<and> seg_data_equals h (Some (d\<lparr>sgd_attrs := None\<rparr>)) (Some (e\<lparr>sgd_attrs := None\<rparr>))
      = Some (d\<lparr>sgd_attrs := None\<rparr> = e\<lparr>sgd_attrs := None\<rparr>)
   \<and> seg_data_equals h (Some (d\<lparr>sgd_attrs := Some ps\<rparr>)) (Some (e\<lparr>sgd_attrs := Some qs\<rparr>)) \<noteq> Some True"
proof -
  have "attrs_loop h ps qs \<bind> (\<lambda>e. if \<not> e then Some False else attrs_loop h qs ps) \<noteq> Some True"
    using attrs_loop_not_true [of h ps qs] attrs_loop_not_true [of h qs ps]
    by (cases "attrs_loop h ps qs") auto
  then show ?thesis by (cases d; cases e) (simp add: seg_data_equals_def)
qed

section \<open>Speed of a segment\<close>

text \<open>The speed of a segment is the least of the speed of the message, the limit less the penalty
  but at least 5, and the given percentage of the limit, for values in a range where nothing
  overflows; without data it is unlimited.\<close>

theorem traffic_item_speed:
  fixes item :: item
  assumes "0 \<le> sgd_speed_penalty data" "sgd_speed_penalty data \<le> 100" "0 \<le> sgd_speed_factor data"
    "sgd_speed_factor data \<le> 100" "0 \<le> sgd_speed data"
    "0 \<le> item_maxspeed \<and> item_maxspeed \<le> 10000 \<or> item_maxspeed = INT_MAX"
  defines "m \<equiv> (if item_maxspeed = INT_MAX then default_maxspeed (it_type item) else item_maxspeed)"
  shows "traffic_get_item_speed item data item_maxspeed =
      (if sgd_speed data = INT_MAX \<and> sgd_speed_penalty data = 0 \<and> sgd_speed_factor data = 100 then INT_MAX
       else min (sgd_speed data) (min (max 5 (m - sgd_speed_penalty data)) (m * sgd_speed_factor data div 100)))
    \<and> 0 \<le> traffic_get_item_speed item data item_maxspeed
    \<and> traffic_get_item_speed item data item_maxspeed \<le> sgd_speed data"
proof -
  have both: "P a \<Longrightarrow> P b \<Longrightarrow> P (if c then a else b)" for P and a b :: int and c by simp
  have "default_maxspeed t \<in> {5..100}" for t
    unfolding default_maxspeed_def by (intro both [where P = "\<lambda>x. x \<in> {5..100}"]) simp_all
  then have "5 \<le> default_maxspeed (it_type item) \<and> default_maxspeed (it_type item) \<le> 100" by simp
  then have m: "0 \<le> m" "m \<le> 10000" using assms(6) by (auto simp: m_def INT_MAX_def)
  have f: "0 \<le> m * sgd_speed_factor data" "m * sgd_speed_factor data \<le> 10000 * 100"
    using m assms(3,4) by (simp, intro mult_mono) auto
  have "in_i32 (m - sgd_speed_penalty data)" "in_i32 (m * sgd_speed_factor data)"
    using m f assms(1,2) by (auto simp: in_i32_def)
  moreover have "0 \<le> m * sgd_speed_factor data div 100" using f by simp
  ultimately show ?thesis
    using f assms(5) unfolding traffic_get_item_speed_def m_def [symmetric] by (auto simp: Let_def m_def)
qed

lemma traffic_item_speed_witness:
  "traffic_get_item_speed \<lparr>it_type = type_street_2_city, it_id_hi = 0, it_id_lo = 1, it_map = 0\<rparr>
     (seg_data_new\<lparr>sgd_speed := 80, sgd_speed_factor := 67\<rparr>) INT_MAX = 20"
  using traffic_item_speed [of "seg_data_new\<lparr>sgd_speed := 80, sgd_speed_factor := 67\<rparr>" INT_MAX
      "\<lparr>it_type = type_street_2_city, it_id_hi = 0, it_id_lo = 1, it_map = 0\<rparr>"]
  by (simp add: seg_data_new_def default_maxspeed_def road_types)

section \<open>End points\<close>

text \<open>A point of a path is a candidate for its end exactly at the ends of the path, at a tunnel
  portal and where a further segment joins.\<close>

theorem endpoint_candidate_iff:
  "route_graph_point_is_endpoint_candidate g p s_prev \<longleftrightarrow>
     (case (s_prev, pt_seg (g_pt g p)) of
        (Some sp, Some sn) \<Rightarrow>
          has_flag (sd_flags (sg_data (g_seg g sn))) AF_UNDERGROUND \<noteq> has_flag (sd_flags (sg_data (g_seg g sp))) AF_UNDERGROUND
          \<or> (\<exists>s \<in> set (pt_start (g_pt g p)) \<union> set (pt_end (g_pt g p)). s \<noteq> sn \<and> s \<noteq> sp)
      | _ \<Rightarrow> True)"
proof -
  have c: "fold (\<lambda>s_cmp n. if s_cmp \<noteq> sn \<and> s_cmp \<noteq> sp then n + 1 else n) xs n
      = n + int (length (filter (\<lambda>s. s \<noteq> sn \<and> s \<noteq> sp) xs))" for xs :: "nat list" and n :: int and sn sp
    by (induction xs arbitrary: n) auto
  have pos: "0 < int (length (filter P xs)) + int (length (filter P ys)) \<longleftrightarrow> (\<exists>s \<in> set xs \<union> set ys. P s)"
    for P :: "nat \<Rightarrow> bool" and xs ys
    by (cases "filter P xs"; cases "filter P ys") (auto simp: filter_empty_conv dest: filter_eq_ConsD)
  have und: "w AND AF_UNDERGROUND = (if bit w 14 then AF_UNDERGROUND else 0)" for w :: "32 word"
  proof -
    have a: "AF_UNDERGROUND = (2 :: 32 word) ^ 14" by (simp add: AF_UNDERGROUND_def)
    show ?thesis unfolding a by (intro bit_word_eqI) (auto simp: bit_and_iff bit_exp_iff simp del: power_numeral)
  qed
  have flag: "w AND AF_UNDERGROUND \<noteq> v AND AF_UNDERGROUND \<longleftrightarrow> has_flag w AF_UNDERGROUND \<noteq> has_flag v AF_UNDERGROUND"
    for w v :: "32 word"
    by (simp add: und)
  show ?thesis
    unfolding route_graph_point_is_endpoint_candidate_def Let_def
    by (auto simp: c flag pos split: option.splits)
qed

end
