(* ===== verification/Traffic_Items.thy ===== *)
theory Traffic_Items
  imports Traffic_Model Attr_Spec
begin

text \<open>
  The items of the traffic map of \<open>traffic.c\<close>: their private data, the data every message stores
  with an item, the attributes derived from it, looking up, adding and releasing items. An item is
  named by its address; calls to the route are recorded in \<open>tm_calls\<close>.
\<close>

unbundle bit_operations_syntax

section \<open>Data\<close>

record item_msg_priv =
  mp_message_id :: string
  mp_speed :: int
  mp_delay :: int

text \<open>
  \<open>struct item_priv\<close> with the item it belongs to. The cursors are the number of coordinates read
  and the cells of the attribute list still to be read.
\<close>

record item_priv =
  ip_item :: item
  ip_attrs :: "nat list option"
  ip_coords :: "coord list"
  ip_refcount :: int
  ip_message_data :: "item_msg_priv list"
  ip_next_attr :: "nat list option"
  ip_next_coord :: nat
  ip_rt :: "nat option"

datatype route_call = Route_add nat nat | Route_change nat nat | Route_remove nat nat

record traffic_map =
  tm_items :: "nat list"
  tm_priv :: "nat \<rightharpoonup> item_priv"
  tm_heap :: attr_heap
  tm_calls :: "route_call list"

section \<open>Attributes of an item\<close>

text \<open>The fastest speed allowed and the longest delay over all messages.\<close>

definition message_speed :: "item_msg_priv list \<Rightarrow> int" where
  "message_speed ms = fold (\<lambda>m speed. if mp_speed m < speed then mp_speed m else speed) ms INT_MAX"

definition message_delay :: "item_msg_priv list \<Rightarrow> int" where
  "message_delay ms = fold (\<lambda>m delay. if mp_delay m > delay then mp_delay m else delay) ms 0"

text \<open>The attribute of the type gets the value; the flag tells whether anything changed.\<close>

definition put_num :: "allocator \<Rightarrow> attr_heap \<Rightarrow> nat list \<Rightarrow> int \<Rightarrow> int \<Rightarrow> (nat list \<times> attr_heap \<times> bool) option" where
  "put_num al h ps t v = do {
     r \<leftarrow> attr_search h ps t;
     case r of
       None \<Rightarrow> do {
         (ps, h) \<leftarrow> attr_generic_add_attr al h (Some ps) \<lparr>at_type = t, at_u = v\<rparr>;
         Some (ps, h, True)
       }
     | Some p \<Rightarrow> do {
         a \<leftarrow> ah_attr h p;
         if v < at_u a then Some (ps, h\<lparr>ah_attr := (ah_attr h)(p \<mapsto> a\<lparr>at_u := v\<rparr>)\<rparr>, True)
         else if v > at_u a then Some (ps, h\<lparr>ah_attr := (ah_attr h)(p \<mapsto> a\<lparr>at_u := v\<rparr>)\<rparr>, True)
         else Some (ps, h, False)
       }
   }"

partial_function (option) remove_type :: "attr_heap \<Rightarrow> nat list \<Rightarrow> int \<Rightarrow> (nat list \<times> attr_heap) option" where
  "remove_type h ps t = do {
     r \<leftarrow> attr_search h ps t;
     case r of
       None \<Rightarrow> Some (ps, h)
     | Some p \<Rightarrow> do {
         (qs, h) \<leftarrow> attr_generic_remove_attr h (Some ps) p;
         remove_type h (the qs) t
       }
   }"

definition tm_item_update_attrs :: "allocator \<Rightarrow> traffic_map \<Rightarrow> nat \<Rightarrow> nat \<Rightarrow> traffic_map option" where
  "tm_item_update_attrs al tm it route = do {
     ip \<leftarrow> tm_priv tm it;
     let speed = message_speed (ip_message_data ip);
     let delay = message_delay (ip_message_data ip);
     let ps = (case ip_attrs ip of None \<Rightarrow> [] | Some ps \<Rightarrow> ps);
     let h = tm_heap tm;
     (ps, h, changed) \<leftarrow> (if speed < INT_MAX then put_num al h ps attr_maxspeed speed
        else map_option (\<lambda>(ps, h). (ps, h, False)) (remove_type h ps attr_maxspeed));
     (ps, h, changed2) \<leftarrow> (if delay \<noteq> 0 then put_num al h ps attr_delay delay
        else map_option (\<lambda>(ps, h). (ps, h, False)) (remove_type h ps attr_delay));
     let ip = ip\<lparr>ip_attrs := Some ps\<rparr>;
     let tm = tm\<lparr>tm_heap := h\<rparr>;
     if changed \<or> changed2 then (case ip_rt ip of
         None \<Rightarrow> Some (tm\<lparr>tm_priv := (tm_priv tm)(it \<mapsto> ip\<lparr>ip_rt := Some route\<rparr>),
                          tm_calls := tm_calls tm @ [Route_add route it]\<rparr>)
       | Some rt \<Rightarrow> Some (tm\<lparr>tm_priv := (tm_priv tm)(it \<mapsto> ip), tm_calls := tm_calls tm @ [Route_change rt it]\<rparr>))
     else Some (tm\<lparr>tm_priv := (tm_priv tm)(it \<mapsto> ip)\<rparr>)
   }"

section \<open>Data of the messages\<close>

text \<open>The entry of the message is updated, or one is appended; whether anything changed.\<close>

fun put_message :: "item_msg_priv list \<Rightarrow> string \<Rightarrow> int \<Rightarrow> int \<Rightarrow> item_msg_priv list \<times> bool" where
  "put_message [] msgid speed delay = ([\<lparr>mp_message_id = msgid, mp_speed = speed, mp_delay = delay\<rparr>], True)"
| "put_message (m # ms) msgid speed delay =
     (if mp_message_id m = msgid then
        (m\<lparr>mp_speed := speed, mp_delay := delay\<rparr> # ms, mp_speed m \<noteq> speed \<or> mp_delay m \<noteq> delay)
      else (let (ns, r) = put_message ms msgid speed delay in (m # ns, r)))"

definition tm_item_add_message_data ::
  "allocator \<Rightarrow> traffic_map \<Rightarrow> nat \<Rightarrow> string \<Rightarrow> int \<Rightarrow> int \<Rightarrow> nat \<Rightarrow> (bool \<times> traffic_map) option" where
  "tm_item_add_message_data al tm it msgid speed delay route = do {
     ip \<leftarrow> tm_priv tm it;
     let (ms, ret) = put_message (ip_message_data ip) msgid speed delay;
     let tm = tm\<lparr>tm_priv := (tm_priv tm)(it \<mapsto> ip\<lparr>ip_message_data := ms\<rparr>)\<rparr>;
     if ret then do { tm \<leftarrow> tm_item_update_attrs al tm it route; Some (ret, tm) } else Some (ret, tm)
   }"

text \<open>One item of a message whose data is taken away.\<close>

definition remove_message :: "allocator \<Rightarrow> traffic_map \<Rightarrow> string \<Rightarrow> nat \<Rightarrow> nat \<Rightarrow> traffic_map option" where
  "remove_message al tm msgid route it = do {
     ip \<leftarrow> tm_priv tm it;
     let ms = filter (\<lambda>m. mp_message_id m \<noteq> msgid) (ip_message_data ip);
     tm_item_update_attrs al (tm\<lparr>tm_priv := (tm_priv tm)(it \<mapsto> ip\<lparr>ip_message_data := ms\<rparr>)\<rparr>) it route
   }"

fun remove_item_loop :: "allocator \<Rightarrow> traffic_map \<Rightarrow> string \<Rightarrow> nat list \<Rightarrow> nat \<Rightarrow> nat list \<Rightarrow> traffic_map option" where
  "remove_item_loop al tm msgid keep route [] = Some tm"
| "remove_item_loop al tm msgid keep route (it # its) =
     (if it \<in> set keep then remove_item_loop al tm msgid keep route its
      else do { tm \<leftarrow> remove_message al tm msgid route it; remove_item_loop al tm msgid keep route its })"

definition traffic_message_remove_item_data ::
  "allocator \<Rightarrow> traffic_map \<Rightarrow> traffic_message \<Rightarrow> traffic_message option \<Rightarrow> nat \<Rightarrow> traffic_map option" where
  "traffic_message_remove_item_data al tm old new route =
    (if new = None \<and> traffic_message_get_items old = [] then Some tm else do {
     oid \<leftarrow> me_id old;
     new \<leftarrow> (case new of None \<Rightarrow> Some None
       | Some m \<Rightarrow> do { nid \<leftarrow> me_id m; Some (if oid \<noteq> nid then None else Some m) });
     remove_item_loop al tm oid (case new of None \<Rightarrow> [] | Some m \<Rightarrow> traffic_message_get_items m) route
       (traffic_message_get_items old)
   })"

section \<open>References\<close>

definition tm_item_ref :: "traffic_map \<Rightarrow> nat option \<Rightarrow> (nat option \<times> traffic_map) option" where
  "tm_item_ref tm item = (case item of
       None \<Rightarrow> Some (None, tm)
     | Some it \<Rightarrow> do {
         ip \<leftarrow> tm_priv tm it;
         Some (Some it, tm\<lparr>tm_priv := (tm_priv tm)(it \<mapsto> ip\<lparr>ip_refcount := ip_refcount ip + 1\<rparr>)\<rparr>)
       })"

definition tm_item_destroy :: "traffic_map \<Rightarrow> nat \<Rightarrow> traffic_map option" where
  "tm_item_destroy tm it = do {
     ip \<leftarrow> tm_priv tm it;
     h \<leftarrow> attr_list_free (tm_heap tm) (ip_attrs ip);
     Some (tm\<lparr>tm_heap := h, tm_priv := (tm_priv tm)(it := None)\<rparr>)
   }"

text \<open>
  The last reference removes the item from its route, from the map, where the item is looked up in the
  list of items and its type set to \<open>type_none\<close> (\<open>tm_type_set\<close>), and from memory.
\<close>

definition tm_type_set_none :: "traffic_map \<Rightarrow> nat \<Rightarrow> traffic_map" where
  "tm_type_set_none tm it = (if it \<in> set (tm_items tm) then tm\<lparr>tm_items := removeAll it (tm_items tm)\<rparr> else tm)"

definition tm_item_unref :: "traffic_map \<Rightarrow> nat option \<Rightarrow> (nat option \<times> traffic_map) option" where
  "tm_item_unref tm item = (case item of
       None \<Rightarrow> Some (None, tm)
     | Some it \<Rightarrow> do {
         ip \<leftarrow> tm_priv tm it;
         let ip = ip\<lparr>ip_refcount := ip_refcount ip - 1\<rparr>;
         let tm = tm\<lparr>tm_priv := (tm_priv tm)(it \<mapsto> ip)\<rparr>;
         if ip_refcount ip \<le> 0 then do {
           let tm = (case ip_rt ip of None \<Rightarrow> tm | Some rt \<Rightarrow> tm\<lparr>tm_calls := tm_calls tm @ [Route_remove rt it]\<rparr>);
           tm \<leftarrow> tm_item_destroy (tm_type_set_none tm it) it;
           Some (None, tm)
         } else Some (None, tm)
       })"

section \<open>Cursors\<close>

definition tm_coord_rewind :: "item_priv \<Rightarrow> item_priv" where
  "tm_coord_rewind ip = ip\<lparr>ip_next_coord := 0\<rparr>"

definition tm_coord_get :: "item_priv option \<Rightarrow> nat \<Rightarrow> coord list \<times> item_priv option" where
  "tm_coord_get priv_data n = (case priv_data of
       None \<Rightarrow> ([], None)
     | Some ip \<Rightarrow>
         if ip_next_coord ip \<ge> length (ip_coords ip) then ([], Some ip)
         else let ret = (if ip_next_coord ip + n > length (ip_coords ip)
                 then length (ip_coords ip) - ip_next_coord ip else n)
           in (take ret (drop (ip_next_coord ip) (ip_coords ip)),
               Some (ip\<lparr>ip_next_coord := ip_next_coord ip + ret\<rparr>)))"

definition tm_attr_rewind :: "item_priv \<Rightarrow> item_priv" where
  "tm_attr_rewind ip = ip\<lparr>ip_next_attr := ip_attrs ip\<rparr>"

text \<open>The attribute is returned by value; the copy of its content is \<open>attr_dup_content\<close>.\<close>

fun next_attr :: "attr_heap \<Rightarrow> nat list \<Rightarrow> int \<Rightarrow> (attr option \<times> nat list) option" where
  "next_attr h [] t = Some (None, [])"
| "next_attr h (p # ps) t = do {
     a \<leftarrow> ah_attr h p;
     if t = attr_any \<or> t = at_type a then Some (Some a, ps) else next_attr h ps t
   }"

definition tm_attr_get ::
  "allocator \<Rightarrow> attr_heap \<Rightarrow> item_priv \<Rightarrow> int \<Rightarrow> (attr option \<times> item_priv \<times> attr_heap) option" where
  "tm_attr_get al h ip t = (case ip_next_attr ip of
       None \<Rightarrow> Some (None, ip, h)
     | Some ps \<Rightarrow> do {
         (r, ps) \<leftarrow> next_attr h ps t;
         let ip = ip\<lparr>ip_next_attr := Some ps\<rparr>;
         case r of None \<Rightarrow> Some (None, ip, h)
         | Some a \<Rightarrow> do { (b, h) \<leftarrow> attr_dup_content al h a; Some (Some b, ip, h) }
       })"

section \<open>Looking up and adding items\<close>

text \<open>\<open>wanted_flags_attr.u.num & curr_flags_attr.u.num & AF_ONEWAYMASK\<close> and the like are on a
  \<open>long\<close>; the flags are the low word.\<close>

definition flags_word :: "int \<Rightarrow> 32 word" where
  "flags_word u = word_of_int u"

text \<open>The comparison of the flags; \<open>True\<close> continues with the next item. The code behind it compares
  oneway flags only if flags are wanted, which is not the case there.\<close>

definition find_flags :: "allocator \<Rightarrow> attr_heap \<Rightarrow> item_priv \<Rightarrow> attr \<Rightarrow> bool option" where
  "find_flags al h ip wanted = do {
     (curr, ip, h) \<leftarrow> tm_attr_get al h (tm_attr_rewind ip) attr_flags;
     case curr of
       None \<Rightarrow> Some True
     | Some curr_flags \<Rightarrow>
         if flags_word (at_u wanted) AND AF_ALL \<noteq> flags_word (at_u curr_flags) AND AF_ALL then Some True
         else Some True
   }"

fun tm_find_item ::
  "allocator \<Rightarrow> traffic_map \<Rightarrow> nat list \<Rightarrow> int \<Rightarrow> nat list option \<Rightarrow> coord list \<Rightarrow> nat option option" where
  "tm_find_item al tm [] t attrs c = Some None"
| "tm_find_item al tm (it # its) t attrs c = do {
     ip \<leftarrow> tm_priv tm it;
     if it_type (ip_item ip) \<noteq> t then tm_find_item al tm its t attrs c
     else do {
       (w, _) \<leftarrow> attr_generic_get_attr (tm_heap tm) attrs None attr_flags None;
       skip \<leftarrow> (case w of Some wanted \<Rightarrow> find_flags al (tm_heap tm) ip wanted | None \<Rightarrow> Some False);
       if skip then tm_find_item al tm its t attrs c
       else do {
         f \<leftarrow> hd_opt (ip_coords ip);
         l \<leftarrow> last_opt (ip_coords ip);
         c0 \<leftarrow> hd_opt c;
         c1 \<leftarrow> last_opt c;
         if f = c0 \<and> l = c1 then Some (Some it)
         else if f = c1 \<and> l = c0 then Some (Some it)
         else tm_find_item al tm its t attrs c
       }
     }
   }"

definition tm_rect_create_item :: "traffic_map \<Rightarrow> nat \<Rightarrow> int \<Rightarrow> traffic_map" where
  "tm_rect_create_item tm it t =
     tm\<lparr>tm_priv := (tm_priv tm)(it \<mapsto> \<lparr>ip_item = \<lparr>it_type = t, it_id_hi = 0, it_id_lo = 0, it_map = 0\<rparr>,
          ip_attrs = None, ip_coords = [], ip_refcount = 0, ip_message_data = [], ip_next_attr = None,
          ip_next_coord = 0, ip_rt = None\<rparr>),
        tm_items := tm_items tm @ [it]\<rparr>"

text \<open>\<open>fresh\<close> is the address of the item if one is created, \<open>mp\<close> the traffic map.\<close>

definition tm_add_item ::
  "allocator \<Rightarrow> nat \<Rightarrow> traffic_map \<Rightarrow> nat \<Rightarrow> int \<Rightarrow> int \<Rightarrow> int \<Rightarrow> int \<Rightarrow> nat list option \<Rightarrow> coord list
   \<Rightarrow> (nat \<times> traffic_map) option" where
  "tm_add_item al fresh tm mp t id_hi id_lo flags attrs c = do {
     (dup, h) \<leftarrow> attr_list_dup al (tm_heap tm) attrs;
     (int_attrs, h) \<leftarrow> attr_generic_set_attr al h dup \<lparr>at_type = attr_flags, at_u = flags\<rparr>;
     let tm = tm\<lparr>tm_heap := h\<rparr>;
     ret \<leftarrow> tm_find_item al tm (tm_items tm) t (Some int_attrs) c;
     case ret of
       None \<Rightarrow> do {
         let tm = tm_rect_create_item tm fresh t;
         ip \<leftarrow> tm_priv tm fresh;
         Some (fresh, tm\<lparr>tm_priv := (tm_priv tm)(fresh \<mapsto>
           ip\<lparr>ip_item := (ip_item ip)\<lparr>it_id_hi := id_hi, it_id_lo := id_lo, it_map := mp\<rparr>,
              ip_attrs := Some int_attrs, ip_coords := c, ip_next_attr := Some int_attrs, ip_next_coord := 0\<rparr>)\<rparr>)
       }
     | Some it \<Rightarrow> do {
         h \<leftarrow> attr_list_free (tm_heap tm) (Some int_attrs);
         Some (it, tm\<lparr>tm_heap := h\<rparr>)
       }
   }"

end
