(* ===== verification/Traffic_Items_Spec.thy ===== *)
theory Traffic_Items_Spec
  imports Traffic_Items
begin

text \<open>
  Properties of the items of the traffic map: the attributes follow the messages while a limit is in
  force; when it is lifted the route is not told, or memory is read after it was freed; and items are
  never shared between messages.
\<close>

section \<open>Speeds and delays\<close>

lemma message_speed_le: "m \<in> set ms \<Longrightarrow> message_speed ms \<le> mp_speed m" "message_speed ms \<le> INT_MAX"
  and message_speed_mem: "message_speed ms = INT_MAX \<or> (\<exists>m \<in> set ms. message_speed ms = mp_speed m)"
proof -
  let ?f = "\<lambda>m speed. if mp_speed m < speed then mp_speed m else speed"
  have "fold ?f ms s \<le> s \<and> (\<forall>m \<in> set ms. fold ?f ms s \<le> mp_speed m)
      \<and> (fold ?f ms s = s \<or> (\<exists>m \<in> set ms. fold ?f ms s = mp_speed m))" for s
  proof (induction ms arbitrary: s)
    case (Cons m ms)
    have "?f m s \<le> s \<and> ?f m s \<le> mp_speed m" by simp
    then show ?case using Cons [of "?f m s"] by (auto intro: order_trans split: if_splits)
  qed simp
  then show "m \<in> set ms \<Longrightarrow> message_speed ms \<le> mp_speed m" "message_speed ms \<le> INT_MAX"
    "message_speed ms = INT_MAX \<or> (\<exists>m \<in> set ms. message_speed ms = mp_speed m)"
    by (simp_all add: message_speed_def)
qed

lemma message_delay_ge: "m \<in> set ms \<Longrightarrow> mp_delay m \<le> message_delay ms" "0 \<le> message_delay ms"
proof -
  let ?f = "\<lambda>m delay. if mp_delay m > delay then mp_delay m else delay"
  have "s \<le> fold ?f ms s \<and> (\<forall>m \<in> set ms. mp_delay m \<le> fold ?f ms s)" for s
  proof (induction ms arbitrary: s)
    case (Cons m ms)
    have "s \<le> ?f m s \<and> mp_delay m \<le> ?f m s" by simp
    then show ?case using Cons [of "?f m s"] by (auto intro: order_trans split: if_splits)
  qed simp
  then show "m \<in> set ms \<Longrightarrow> mp_delay m \<le> message_delay ms" "0 \<le> message_delay ms"
    by (simp_all add: message_delay_def)
qed

section \<open>Setting an attribute\<close>

definition num_of :: "attr_heap \<Rightarrow> nat list \<Rightarrow> int \<Rightarrow> int option" where
  "num_of h ps t = map_option (\<lambda>p. at_u (attr_at h p)) (find (\<lambda>p. at_type (attr_at h p) = t) ps)"

lemma num_of_append:
  "num_of h (ps @ qs) t = (case num_of h ps t of None \<Rightarrow> num_of h qs t | Some v \<Rightarrow> Some v)"
  by (induction ps) (auto simp: num_of_def)

lemma num_of_cong:
  "(\<And>p. p \<in> set ps \<Longrightarrow> ah_attr h' p = ah_attr h p) \<Longrightarrow> num_of h' ps t = num_of h ps t"
  by (induction ps) (auto simp: num_of_def attr_at_def)

lemma find_split: "find P xs = Some x \<Longrightarrow> \<exists>us vs. xs = us @ x # vs \<and> P x \<and> (\<forall>u \<in> set us. \<not> P u)"
proof (induction xs)
  case (Cons y xs)
  show ?case
  proof (cases "P y")
    case True
    then show ?thesis using Cons.prems by (intro exI [of _ "[]"] exI [of _ xs]) simp
  next
    case False
    then obtain us vs where "xs = us @ x # vs \<and> P x \<and> (\<forall>u \<in> set us. \<not> P u)" using Cons by auto
    then show ?thesis using False by (intro exI [of _ "y # us"] exI [of _ vs]) simp
  qed
qed simp

definition int_type :: "int \<Rightarrow> bool" where
  "int_type t \<longleftrightarrow> attr_type_int_begin \<le> t \<and> t \<le> attr_type_int_end"

lemma int_type_props [simp]:
  "int_type t \<Longrightarrow> attr_type_is_inline t" "int_type t \<Longrightarrow> \<not> is_range t" "int_type attr_maxspeed" "int_type attr_delay"
  "int_type attr_flags"
  by (auto simp: int_type_def attr_type_is_inline_def is_range_def attr_types)

text \<open>An allocator that finds a free address as long as finitely many are in use.\<close>

definition heap_finite :: "attr_heap \<Rightarrow> bool" where
  "heap_finite h \<longleftrightarrow> finite (dom (ah_attr h)) \<and> finite (dom (ah_block h))"

definition allocator_ok :: "allocator \<Rightarrow> bool" where
  "allocator_ok al \<longleftrightarrow> (\<forall>h. heap_finite h \<longrightarrow> fresh_allocator al h)"

definition next_allocator :: allocator where
  "next_allocator = \<lparr>al_attr = \<lambda>h. Suc (Max (insert 0 (dom (ah_attr h)))),
     al_block = \<lambda>h. 1 + Max (insert 0 (dom (ah_block h)))\<rparr>"

lemma next_allocator_ok: "allocator_ok next_allocator"
  unfolding allocator_ok_def
proof (intro allI impI)
  fix h assume "heap_finite h"
  then have a: "finite (insert 0 (dom (ah_attr h)))" and b: "finite (insert 0 (dom (ah_block h)))"
    by (simp_all add: heap_finite_def)
  have "Suc (Max (insert 0 (dom (ah_attr h)))) \<notin> dom (ah_attr h)"
    using Max_ge [OF a, of "Suc (Max (insert 0 (dom (ah_attr h))))"] by (meson insertCI not_less_eq_eq le_refl)
  moreover have "1 + Max (insert 0 (dom (ah_block h))) \<notin> dom (ah_block h)"
    using Max_ge [OF b, of "1 + Max (insert 0 (dom (ah_block h)))"] by (metis add.commute insertCI not_less zless_add1_eq)
  moreover have "0 \<le> Max (insert 0 (dom (ah_block h)))" using Max_ge [OF b, of 0] by simp
  ultimately show "fresh_allocator next_allocator h"
    unfolding fresh_allocator_def next_allocator_def by (simp only: allocator.simps domIff) linarith
qed

lemma put_num_ok:
  assumes ok: "attrs_ok h ps" and t: "int_type t" and al: "allocator_ok al" and fin: "heap_finite h"
  shows "\<exists>qs h' b. put_num al h ps t v = Some (qs, h', b) \<and> heap_finite h' \<and> attrs_ok h' qs \<and> num_of h' qs t = Some v
    \<and> (\<forall>u. u \<noteq> t \<longrightarrow> num_of h' qs u = num_of h ps u) \<and> (b \<longleftrightarrow> num_of h ps t \<noteq> Some v)"
proof (cases "find (\<lambda>p. at_type (attr_at h p) = t) ps")
  case None
  let ?p = "al_attr al h" and ?a = "\<lparr>at_type = t, at_u = v\<rparr>"
  let ?h = "h\<lparr>ah_attr := (ah_attr h)(?p \<mapsto> ?a)\<rparr>"
  have new: "ah_attr h ?p = None" using al fin by (simp add: fresh_allocator_def allocator_ok_def)
  have fin': "heap_finite ?h" using fin by (simp add: heap_finite_def)
  from new have p: "?p \<notin> set ps" using attrs_ok_get [OF ok] by fastforce
  have put: "put_num al h ps t v = Some (ps @ [?p], ?h, True)"
    using None t by (simp add: put_num_def attr_search_ok [OF ok] attr_generic_add_attr_def attr_dup_def dup_inline Let_def)
  have same: "q \<in> set ps \<Longrightarrow> ah_attr ?h q = ah_attr h q" for q using p by auto
  have "attrs_ok ?h ps" using attrs_ok_cong [of ps ?h h] same ok by simp
  then have ok': "attrs_ok ?h (ps @ [?p])" using p t by (auto simp: attrs_ok_def)
  have num: "num_of ?h (ps @ [?p]) u = (case num_of h ps u of None \<Rightarrow> if u = t then Some v else None | Some w \<Rightarrow> Some w)" for u
  proof -
    have "num_of ?h ps u = num_of h ps u" using same by (rule num_of_cong)
    moreover have "num_of ?h [?p] u = (if u = t then Some v else None)" by (auto simp: num_of_def attr_at_def)
    ultimately show ?thesis by (simp only: num_of_append)
  qed
  have "num_of h ps t = None" using None by (simp add: num_of_def)
  then show ?thesis using put ok' num fin' by (intro exI [of _ "ps @ [?p]"] exI [of _ ?h] exI [of _ True]) (auto split: option.split)
next
  case (Some p)
  from find_split [OF this] obtain us vs where ps: "ps = us @ p # vs" "at_type (attr_at h p) = t"
    "\<forall>u \<in> set us. at_type (attr_at h u) \<noteq> t" by auto
  have a: "ah_attr h p = Some (attr_at h p)" using attrs_ok_get [OF ok] ps by simp
  have cur: "num_of h ps t = Some (at_u (attr_at h p))" using Some by (simp add: num_of_def)
  show ?thesis
  proof (cases "at_u (attr_at h p) = v")
    case True
    then have "put_num al h ps t v = Some (ps, h, False)" using Some a by (simp add: put_num_def attr_search_ok [OF ok])
    then show ?thesis using ok cur True fin by (intro exI [of _ ps] exI [of _ h] exI [of _ False]) simp
  next
    case False
    let ?h = "h\<lparr>ah_attr := (ah_attr h)(p \<mapsto> (attr_at h p)\<lparr>at_u := v\<rparr>)\<rparr>"
    have put: "put_num al h ps t v = Some (ps, ?h, True)"
      using Some a False by (auto simp: put_num_def attr_search_ok [OF ok] linorder_neq_iff)
    have d: "p \<notin> set us" "p \<notin> set vs" using ok ps(1) by (auto simp: attrs_ok_def)
    have "\<exists>a. ah_attr ?h q = Some a \<and> attr_type_is_inline (at_type a)" if "q \<in> set ps" for q
      using ok that t ps(2) by (cases "q = p") (auto simp: attrs_ok_def)
    then have ok': "attrs_ok ?h ps" using ok unfolding attrs_ok_def by blast
    have at: "attr_at ?h q = (if q = p then (attr_at h p)\<lparr>at_u := v\<rparr> else attr_at h q)" for q
      by (simp add: attr_at_def)
    have us: "num_of ?h us u = num_of h us u" "num_of ?h vs u = num_of h vs u" for u
      using d by (auto intro!: num_of_cong)
    have "num_of h us t = None" using ps(3) by (auto simp: num_of_def find_None_iff)
    then have "num_of ?h ps t = Some v" using us ps(2)
      by (simp add: ps(1) num_of_append [of _ us]) (simp add: num_of_def at)
    moreover have "num_of ?h ps u = num_of h ps u" if "u \<noteq> t" for u
    proof -
      have "num_of ?h (p # vs) u = num_of h (p # vs) u"
        using us(2) [of u] that ps(2) by (simp add: num_of_def at)
      then show ?thesis using us(1) [of u] unfolding ps(1) num_of_append by metis
    qed
    ultimately show ?thesis
      using put ok' cur False fin
      by (intro exI [of _ ps] exI [of _ ?h] exI [of _ True]) (auto simp: heap_finite_def)
  qed
qed

section \<open>Items under a limit\<close>

definition route_calls :: "item_priv \<Rightarrow> nat \<Rightarrow> nat \<Rightarrow> route_call list" where
  "route_calls ip route it = [case ip_rt ip of None \<Rightarrow> Route_add route it | Some rt \<Rightarrow> Route_change rt it]"


definition ex_priv :: "nat list \<Rightarrow> item_msg_priv list \<Rightarrow> item_priv" where
  "ex_priv ps ms = \<lparr>ip_item = \<lparr>it_type = type_traffic_distortion, it_id_hi = 0, it_id_lo = 7, it_map = 1\<rparr>,
     ip_attrs = Some ps, ip_coords = [], ip_refcount = 1, ip_message_data = ms, ip_next_attr = Some ps,
     ip_next_coord = 0, ip_rt = Some 3\<rparr>"

definition ex_map :: "nat list \<Rightarrow> item_msg_priv list \<Rightarrow> traffic_map" where
  "ex_map ps ms = \<lparr>tm_items = [4], tm_priv = [4 \<mapsto> ex_priv ps ms],
     tm_heap = \<lparr>ah_attr = [1 \<mapsto> \<lparr>at_type = attr_maxspeed, at_u = 30\<rparr>, 2 \<mapsto> \<lparr>at_type = attr_delay, at_u = 600\<rparr>],
       ah_block = Map.empty\<rparr>, tm_calls = []\<rparr>"


section \<open>Lifting a limit\<close>

lemma remove_type_last:
  assumes "attrs_ok h (us @ [q])" "at_type (attr_at h q) = t" "\<forall>u \<in> set us. at_type (attr_at h u) \<noteq> t"
  shows "remove_type h (us @ [q]) t = Some (us, h\<lparr>ah_attr := (ah_attr h)(q := None)\<rparr>)"
proof -
  let ?h = "h\<lparr>ah_attr := (ah_attr h)(q := None)\<rparr>"
  have f: "find (\<lambda>p. at_type (attr_at h p) = t) (us @ [q]) = Some q"
    using assms(2,3) by (induction us) auto
  have r: "attr_generic_remove_attr h (Some (us @ [q])) q = Some (Some us, ?h)"
    using attr_remove_self [OF assms(1)] assms(2,3) by force
  have q: "q \<notin> set us" using assms(1) by (auto simp: attrs_ok_def)
  have "attrs_ok ?h us" using assms(1) q by (auto simp: attrs_ok_def)
  moreover have "find (\<lambda>p. at_type (attr_at ?h p) = t) us = None"
    using assms(3) q by (auto simp: find_None_iff attr_at_def)
  ultimately have "remove_type ?h us t = Some (us, ?h)"
    by (subst remove_type.simps) (simp add: attr_search_ok)
  then show ?thesis
    by (subst remove_type.simps) (simp add: attr_search_ok [OF assms(1)] f r)
qed

lemma remove_type_inner:
  assumes "attrs_ok h (us @ q # vs)" "vs \<noteq> []" "at_type (attr_at h q) = t"
    "\<forall>u \<in> set (us @ vs). at_type (attr_at h u) \<noteq> t"
  shows "remove_type h (us @ q # vs) t = None"
proof -
  have f: "find (\<lambda>p. at_type (attr_at h p) = t) (us @ q # vs) = Some q"
    using assms(3,4) by (induction us) auto
  have "\<forall>p \<in> set (us @ vs). attr_at h p \<noteq> attr_at h q" using assms(3,4) by metis
  then have "attr_generic_remove_attr h (Some (us @ q # vs)) q = None"
    using attr_remove_self [OF assms(1)] assms(2) by simp
  then show ?thesis by (subst remove_type.simps) (simp add: attr_search_ok [OF assms(1)] f)
qed

text \<open>When no message limits the speed any more the attribute is taken away, but the route, which still
  has the lower speed, is not told; and when the attribute is not the last of the list, as on an item
  that also has a delay, memory is read after it was freed.\<close>

theorem traffic_limit_lifted:
  assumes ip: "tm_priv tm it = Some ip" "ip_attrs ip = Some (us @ q # vs)" "attrs_ok (tm_heap tm) (us @ q # vs)"
    and q: "at_type (attr_at (tm_heap tm) q) = attr_maxspeed"
    and only: "\<forall>u \<in> set (us @ vs). at_type (attr_at (tm_heap tm) u) \<noteq> attr_maxspeed"
    and lim: "message_speed (ip_message_data ip) = INT_MAX" "message_delay (ip_message_data ip) = 0"
  shows "(vs \<noteq> [] \<longrightarrow> tm_item_update_attrs al tm it route = None)
    \<and> (vs = [] \<and> (\<forall>u \<in> set us. at_type (attr_at (tm_heap tm) u) \<noteq> attr_delay) \<longrightarrow>
        (\<exists>tm'. tm_item_update_attrs al tm it route = Some tm' \<and> tm_calls tm' = tm_calls tm
          \<and> tm_priv tm' it = Some (ip\<lparr>ip_attrs := Some us\<rparr>)
          \<and> num_of (tm_heap tm) (us @ [q]) attr_maxspeed \<noteq> None \<and> num_of (tm_heap tm') us attr_maxspeed = None))"
proof (intro conjI impI)
  assume "vs \<noteq> []"
  from remove_type_inner [OF ip(3) this q only]
  show "tm_item_update_attrs al tm it route = None" using ip lim by (simp add: tm_item_update_attrs_def)
next
  assume a: "vs = [] \<and> (\<forall>u \<in> set us. at_type (attr_at (tm_heap tm) u) \<noteq> attr_delay)"
  let ?h = "(tm_heap tm)\<lparr>ah_attr := (ah_attr (tm_heap tm))(q := None)\<rparr>"
  have ok: "attrs_ok (tm_heap tm) (us @ [q])" using ip(3) a by simp
  have qn: "q \<notin> set us" using ok by (auto simp: attrs_ok_def)
  have r: "remove_type (tm_heap tm) (us @ [q]) attr_maxspeed = Some (us, ?h)"
    using remove_type_last [OF ok q] only a by simp
  have ok': "attrs_ok ?h us" using ok qn by (auto simp: attrs_ok_def)
  have none: "find (\<lambda>p. at_type (attr_at ?h p) = t) us = None"
    if "\<forall>u \<in> set us. at_type (attr_at (tm_heap tm) u) \<noteq> t" for t
    using that qn by (auto simp: find_None_iff attr_at_def)
  have "remove_type ?h us attr_delay = Some (us, ?h)"
    using none [of attr_delay] a by (subst remove_type.simps) (simp add: attr_search_ok [OF ok'])
  then have "tm_item_update_attrs al tm it route
      = Some (tm\<lparr>tm_heap := ?h, tm_priv := (tm_priv tm)(it \<mapsto> ip\<lparr>ip_attrs := Some us\<rparr>)\<rparr>)"
    using ip lim r a by (simp add: tm_item_update_attrs_def)
  moreover have "num_of (tm_heap tm) (us @ [q]) attr_maxspeed \<noteq> None"
  proof -
    have "num_of (tm_heap tm) [q] attr_maxspeed \<noteq> None" using q by (simp add: num_of_def)
    then show ?thesis unfolding num_of_append by (auto split: option.split)
  qed
  moreover have "num_of ?h us attr_maxspeed = None" using none [of attr_maxspeed] only by (simp add: num_of_def)
  ultimately show "\<exists>tm'. tm_item_update_attrs al tm it route = Some tm' \<and> tm_calls tm' = tm_calls tm
          \<and> tm_priv tm' it = Some (ip\<lparr>ip_attrs := Some us\<rparr>)
          \<and> num_of (tm_heap tm) (us @ [q]) attr_maxspeed \<noteq> None \<and> num_of (tm_heap tm') us attr_maxspeed = None"
    by simp
qed

lemma traffic_limit_lifted_witness:
  "tm_item_update_attrs next_allocator (ex_map [1, 2] []) 4 3 = None
   \<and> (\<exists>tm'. tm_item_update_attrs next_allocator (ex_map [1] []) 4 3 = Some tm' \<and> tm_calls tm' = [])"
proof -
  have s: "message_speed [] = INT_MAX" "message_delay [] = 0" by (simp_all add: message_speed_def message_delay_def)
  note e = ex_map_def ex_priv_def attr_at_def attr_types attr_type_is_inline_def s
  have "tm_item_update_attrs next_allocator (ex_map [1, 2] []) 4 3 = None"
    using traffic_limit_lifted [of "ex_map [1, 2] []" 4 "ex_priv [1, 2] []" "[]" 1 "[2]" next_allocator 3] by (simp add: e)
  moreover have "\<exists>tm'. tm_item_update_attrs next_allocator (ex_map [1] []) 4 3 = Some tm' \<and> tm_calls tm' = []"
    using traffic_limit_lifted [of "ex_map [1] []" 4 "ex_priv [1] []" "[]" 1 "[]" next_allocator 3] by (simp add: e) blast
  ultimately show ?thesis by simp
qed

section \<open>No item is shared\<close>

lemma set_attr_scan_get:
  "set_attr_scan al h ps a = Some (qs, h') \<Longrightarrow> at_type a = t
    \<Longrightarrow> get_attr_scan h' qs t None k = Some (r, i) \<Longrightarrow> t \<noteq> attr_any \<Longrightarrow> t \<noteq> attr_any_xml \<Longrightarrow> r \<noteq> None"
proof (induction ps arbitrary: h qs k)
  case Nil
  then show ?case
    by (auto simp: attr_generic_add_attr_def attr_dup_def attr_dup_content_def attr_match_def Let_def
        split: if_splits bind_splits option.splits)
next
  case (Cons p ps)
  obtain b where b: "ah_attr h p = Some b" using Cons.prems(1) by (auto split: bind_splits)
  show ?case
  proof (cases "at_type b = at_type a")
    case True
    then obtain q h1 where q: "attr_dup al h a = Some (q, h1)" "attr_free h1 p = Some h'" "qs = q # ps"
      using Cons.prems(1) b by (auto split: bind_splits)
    have "ah_attr h' q = None \<or> (\<exists>d. ah_attr h' q = Some d \<and> at_type d = t)"
      using q(1,2) Cons.prems(2)
      by (auto simp: attr_dup_def attr_dup_content_def attr_free_def attr_free_content_do_def Let_def
          split: if_splits bind_splits)
    then show ?thesis using Cons.prems(3,4,5) unfolding q(3)
      by (elim disjE exE conjE) (simp_all add: attr_match_def, blast)
  next
    case False
    then obtain rs where rs: "set_attr_scan al h ps a = Some (rs, h')" "qs = p # rs"
      using Cons.prems(1) b by (auto split: bind_splits)
    show ?thesis
      using Cons.prems(2-5) Cons.IH [OF rs(1) Cons.prems(2)] rs(2)
      by (auto simp: attr_match_def split: bind_splits if_splits) metis
  qed
qed

lemma find_item_none:
  assumes "\<And>w i. attr_generic_get_attr (tm_heap tm) attrs None attr_flags None = Some (w, i) \<Longrightarrow> w \<noteq> None"
    and "tm_find_item al tm its t attrs c = Some r"
  shows "r = None"
  using assms(2)
proof (induction its)
  case (Cons it its)
  then show ?case using assms(1)
    by (auto simp: find_flags_def split: bind_splits if_splits option.splits)
qed simp

text \<open>Adding an item to the traffic map never finds an existing one, although it is meant to return
  an item for the same piece of road: the flags are always among the attributes, and with flags the
  search passes over every item. Every message makes items of its own.\<close>

theorem tm_add_item_never_shares:
  assumes "tm_add_item al fresh tm m t id_hi id_lo flags attrs c = Some (it, tm')"
  shows "it = fresh \<and> tm_items tm' = tm_items tm @ [fresh]"
proof -
  obtain dup h ps h' r where d: "attr_generic_set_attr al h dup \<lparr>at_type = attr_flags, at_u = flags\<rparr> = Some (ps, h')"
    "tm_find_item al (tm\<lparr>tm_heap := h'\<rparr>) (tm_items tm) t (Some ps) c = Some r"
    and a: "(case r of None \<Rightarrow> it = fresh \<and> tm_items tm' = tm_items tm @ [fresh] | Some _ \<Rightarrow> True)"
    using assms by (auto simp: tm_add_item_def tm_rect_create_item_def Let_def split: bind_splits option.splits)
  have "w \<noteq> None" if "attr_generic_get_attr h' (Some ps) None attr_flags None = Some (w, i)" for w i
    using that set_attr_scan_get [OF d(1) [unfolded attr_generic_set_attr_def], of attr_flags 0]
    by (auto simp: attr_generic_get_attr_def attr_types split: bind_splits option.splits)
  from find_item_none [OF _ d(2)] this have "r = None" by simp
  then show ?thesis using a by simp
qed

lemma tm_add_item_never_shares_witness:
  "let al = \<lparr>al_attr = \<lambda>_. 9, al_block = \<lambda>_. 9\<rparr>; c = [\<lparr>cx = 0, cy = 0\<rparr>, \<lparr>cx = 5, cy = 0\<rparr>];
       tm = (ex_map [1] [])\<lparr>tm_priv := [4 \<mapsto> (ex_priv [1] [])\<lparr>ip_coords := c\<rparr>]\<rparr>
   in \<exists>tm'. tm_add_item al 5 tm 1 type_traffic_distortion 0 7 0xFF00000 None c = Some (5, tm') \<and> tm_items tm' = [4, 5]"
proof -
  let ?al = "\<lparr>al_attr = \<lambda>_. 9, al_block = \<lambda>_. 9\<rparr>" and ?c = "[\<lparr>cx = 0, cy = 0\<rparr>, \<lparr>cx = 5, cy = 0\<rparr>]"
  let ?tm = "(ex_map [1] [])\<lparr>tm_priv := [4 \<mapsto> (ex_priv [1] [])\<lparr>ip_coords := ?c\<rparr>]\<rparr>"
  have "tm_add_item ?al 5 ?tm 1 type_traffic_distortion 0 7 0xFF00000 None ?c \<noteq> None"
    by (simp add: tm_add_item_def attr_list_dup_def attr_generic_set_attr_def attr_generic_add_attr_def attr_dup_def
        attr_dup_content_def ex_map_def ex_priv_def attr_types attr_generic_get_attr_def attr_match_def find_flags_def
        tm_attr_get_def tm_attr_rewind_def tm_rect_create_item_def Let_def)
  then obtain it tm' where e: "tm_add_item ?al 5 ?tm 1 type_traffic_distortion 0 7 0xFF00000 None ?c = Some (it, tm')"
    by auto
  from tm_add_item_never_shares [OF e] e show ?thesis by (auto simp: ex_map_def Let_def)
qed

section \<open>References\<close>

text \<open>Taking a reference and giving it back leaves the map as it was, as long as another reference remains.\<close>

lemma tm_item_ref_unref:
  assumes "tm_priv tm it = Some ip" "0 < ip_refcount ip"
  shows "\<exists>tm'. tm_item_ref tm (Some it) = Some (Some it, tm') \<and> tm_item_unref tm' (Some it) = Some (None, tm)"
  using assms by (simp add: tm_item_ref_def tm_item_unref_def fun_upd_idem)

end
