(* ===== verification/Tile_Name.thy ===== *)
theory Tile_Name
  imports Navit_Prelude
begin

text \<open>
  Bounding boxes (\<open>maptool/misc.c\<close>) and the names of the tiles of a map file (\<open>maptool/tile.c\<close>).
  A tile name is a path in a quad tree over the world: each letter selects a quadrant, and neighbouring
  quadrants overlap by a percentage of the size of the tile they divide.
\<close>

section \<open>Bounding boxes\<close>

record rect =
  r_l :: coord
  r_h :: coord

definition WORLD_BOUNDINGBOX_MIN_X :: int where "WORLD_BOUNDINGBOX_MIN_X = - 20000000"
definition WORLD_BOUNDINGBOX_MAX_X :: int where "WORLD_BOUNDINGBOX_MAX_X = 20000000"
definition WORLD_BOUNDINGBOX_MIN_Y :: int where "WORLD_BOUNDINGBOX_MIN_Y = - 20000000"
definition WORLD_BOUNDINGBOX_MAX_Y :: int where "WORLD_BOUNDINGBOX_MAX_Y = 20000000"

lemmas world_bounds = WORLD_BOUNDINGBOX_MIN_X_def WORLD_BOUNDINGBOX_MAX_X_def
  WORLD_BOUNDINGBOX_MIN_Y_def WORLD_BOUNDINGBOX_MAX_Y_def

definition world_bbox :: rect where
  "world_bbox =
     \<lparr>r_l = \<lparr>cx = WORLD_BOUNDINGBOX_MIN_X, cy = WORLD_BOUNDINGBOX_MIN_Y\<rparr>,
      r_h = \<lparr>cx = WORLD_BOUNDINGBOX_MAX_X, cy = WORLD_BOUNDINGBOX_MAX_Y\<rparr>\<rparr>"

definition bbox_extend :: "coord \<Rightarrow> rect \<Rightarrow> rect" where
  "bbox_extend c r =
     \<lparr>r_l = \<lparr>cx = if cx c < cx (r_l r) then cx c else cx (r_l r),
              cy = if cy c < cy (r_l r) then cy c else cy (r_l r)\<rparr>,
      r_h = \<lparr>cx = if cx c > cx (r_h r) then cx c else cx (r_h r),
              cy = if cy c > cy (r_h r) then cy c else cy (r_h r)\<rparr>\<rparr>"

text \<open>Without coordinates the rectangle is left as it was.\<close>

fun bbox :: "coord list \<Rightarrow> rect \<Rightarrow> rect" where
  "bbox [] r = r"
| "bbox (c # cs) r = fold bbox_extend cs \<lparr>r_l = c, r_h = c\<rparr>"

definition contains_bbox :: "int \<Rightarrow> int \<Rightarrow> int \<Rightarrow> int \<Rightarrow> rect \<Rightarrow> bool" where
  "contains_bbox xl yl xh yh r =
     (if cx (r_h r) < xl \<or> cx (r_h r) > xh then False
      else if cx (r_l r) > xh \<or> cx (r_l r) < xl then False
      else if cy (r_h r) < yl \<or> cy (r_h r) > yh then False
      else if cy (r_l r) > yh \<or> cy (r_l r) < yl then False
      else True)"

definition bbox_contains_coord :: "rect \<Rightarrow> coord \<Rightarrow> bool" where
  "bbox_contains_coord r c =
     (if cx (r_h r) < cx c then False
      else if cx (r_l r) > cx c then False
      else if cy (r_h r) < cy c then False
      else if cy (r_l r) > cy c then False
      else True)"

definition bbox_contains_bbox :: "rect \<Rightarrow> rect \<Rightarrow> bool" where
  "bbox_contains_bbox outer inner =
     (if cx (r_h outer) < cx (r_h inner) then False
      else if cx (r_l outer) > cx (r_l inner) then False
      else if cy (r_h outer) < cy (r_h inner) then False
      else if cy (r_l outer) > cy (r_l inner) then False
      else True)"

section \<open>Names\<close>

text \<open>The corners of an item are moved into the world first.\<close>

definition clamp_low :: "rect \<Rightarrow> int \<Rightarrow> int \<Rightarrow> rect" where
  "clamp_low rr x0 y0 =
     (let rr = (if cx (r_l rr) < x0 then rr\<lparr>r_l := (r_l rr)\<lparr>cx := x0\<rparr>\<rparr> else rr);
          rr = (if cx (r_h rr) < x0 then rr\<lparr>r_h := (r_h rr)\<lparr>cx := x0\<rparr>\<rparr> else rr);
          rr = (if cy (r_l rr) < y0 then rr\<lparr>r_l := (r_l rr)\<lparr>cy := y0\<rparr>\<rparr> else rr)
      in if cy (r_h rr) < y0 then rr\<lparr>r_h := (r_h rr)\<lparr>cy := y0\<rparr>\<rparr> else rr)"

definition clamp_high :: "rect \<Rightarrow> int \<Rightarrow> int \<Rightarrow> rect" where
  "clamp_high rr x4 y4 =
     (let rr = (if cx (r_l rr) > x4 then rr\<lparr>r_l := (r_l rr)\<lparr>cx := x4\<rparr>\<rparr> else rr);
          rr = (if cx (r_h rr) > x4 then rr\<lparr>r_h := (r_h rr)\<lparr>cx := x4\<rparr>\<rparr> else rr);
          rr = (if cy (r_l rr) > y4 then rr\<lparr>r_l := (r_l rr)\<lparr>cy := y4\<rparr>\<rparr> else rr)
      in if cy (r_h rr) > y4 then rr\<lparr>r_h := (r_h rr)\<lparr>cy := y4\<rparr>\<rparr> else rr)"

definition clamp_world :: "rect \<Rightarrow> rect" where
  "clamp_world r =
     clamp_high (clamp_low r (cx (r_l world_bbox)) (cy (r_l world_bbox))) (cx (r_h world_bbox)) (cy (r_h world_bbox))"

text \<open>One round of the loop of \<open>tile\<close>; the bounds are \<open>x0\<close>, \<open>y0\<close>, \<open>x4\<close> and \<open>y4\<close> of the code.\<close>

type_synonym bounds = "int \<times> int \<times> int \<times> int"

fun tile_step :: "int \<Rightarrow> rect \<Rightarrow> bounds \<Rightarrow> (char \<times> bounds) option" where
  "tile_step overlap rr (x0, y0, x4, y4) =
     (let x2 = cdiv (i32 (x0 + x4)) 2;
          y2 = cdiv (i32 (y0 + y4)) 2;
          xo = cdiv (i32 ((x4 - x0) * overlap)) 100;
          yo = cdiv (i32 ((y4 - y0) * overlap)) 100
      in if contains_bbox x0 y0 (x2 + xo) (y2 + yo) rr then Some (CHR ''d'', x0, y0, x2 + xo, y2 + yo)
         else if contains_bbox (x2 - xo) y0 x4 (y2 + yo) rr then Some (CHR ''c'', x2 - xo, y0, x4, y2 + yo)
         else if contains_bbox x0 (y2 - yo) (x2 + xo) y4 rr then Some (CHR ''b'', x0, y2 - yo, x2 + xo, y4)
         else if contains_bbox (x2 - xo) (y2 - yo) x4 y4 rr then Some (CHR ''a'', x2 - xo, y2 - yo, x4, y4)
         else None)"

fun tile_loop :: "nat \<Rightarrow> int \<Rightarrow> rect \<Rightarrow> bounds \<Rightarrow> string \<times> nat \<times> bounds" where
  "tile_loop 0 overlap rr b = ([], 0, b)"
| "tile_loop (Suc n) overlap rr b =
     (case tile_step overlap rr b of
        None \<Rightarrow> ([], 0, b)
      | Some (c, b') \<Rightarrow> (case tile_loop n overlap rr b' of (s, i, b'') \<Rightarrow> (c # s, Suc i, b'')))"

text \<open>The result is the buffer with the name appended, the number of letters and the box of the tile.\<close>

definition tile :: "rect \<Rightarrow> string option \<Rightarrow> string \<Rightarrow> nat \<Rightarrow> int \<Rightarrow> string \<times> nat \<times> rect" where
  "tile r suffix ret mx overlap =
     (case tile_loop mx overlap (clamp_world r)
             (cx (r_l world_bbox), cy (r_l world_bbox), cx (r_h world_bbox), cy (r_h world_bbox)) of
        (s, i, x0, y0, x4, y4) \<Rightarrow>
          (ret @ s @ (case suffix of None \<Rightarrow> [] | Some sx \<Rightarrow> sx), i,
           \<lparr>r_l = \<lparr>cx = x0, cy = y0\<rparr>, r_h = \<lparr>cx = x4, cy = y4\<rparr>\<rparr>))"

definition tile_bbox_step :: "int \<Rightarrow> char \<Rightarrow> rect \<Rightarrow> rect" where
  "tile_bbox_step overlap t r =
     (let c = \<lparr>cx = cdiv (i32 (cx (r_l r) + cx (r_h r))) 2, cy = cdiv (i32 (cy (r_l r) + cy (r_h r))) 2\<rparr>;
          xo = cdiv (i32 ((cx (r_h r) - cx (r_l r)) * overlap)) 100;
          yo = cdiv (i32 ((cy (r_h r) - cy (r_l r)) * overlap)) 100
      in if t = CHR ''a'' then r\<lparr>r_l := \<lparr>cx = cx c - xo, cy = cy c - yo\<rparr>\<rparr>
         else if t = CHR ''b'' then
           \<lparr>r_l = (r_l r)\<lparr>cy := cy c - yo\<rparr>, r_h = (r_h r)\<lparr>cx := cx c + xo\<rparr>\<rparr>
         else if t = CHR ''c'' then
           \<lparr>r_l = (r_l r)\<lparr>cx := cx c - xo\<rparr>, r_h = (r_h r)\<lparr>cy := cy c + yo\<rparr>\<rparr>
         else if t = CHR ''d'' then r\<lparr>r_h := \<lparr>cx = cx c + xo, cy = cy c + yo\<rparr>\<rparr>
         else r)"

fun tile_bbox_from :: "string \<Rightarrow> int \<Rightarrow> rect \<Rightarrow> rect" where
  "tile_bbox_from [] overlap r = r"
| "tile_bbox_from (t # ts) overlap r = tile_bbox_from ts overlap (tile_bbox_step overlap t r)"

definition tile_bbox :: "string \<Rightarrow> int \<Rightarrow> rect" where
  "tile_bbox name overlap = tile_bbox_from name overlap world_bbox"

fun tile_len :: "string \<Rightarrow> nat" where
  "tile_len [] = 0"
| "tile_len (t # ts) = (if of_char t \<ge> (97::nat) \<and> of_char t \<le> (100::nat) then Suc (tile_len ts) else 0)"

end
