(* ===== verification/Tile_Name_Spec.thy ===== *)
theory Tile_Name_Spec
  imports Tile_Name
begin

text \<open>
  The two functions that walk the quad tree agree: \<open>tile_bbox\<close> finds the box \<open>tile\<close> put the item in,
  that box holds the item, and boxes along a path shrink, so an item is found from every
  box above its own.
\<close>

section \<open>Boxes\<close>

definition proper :: "rect \<Rightarrow> bool" where
  "proper r \<longleftrightarrow> cx (r_l r) \<le> cx (r_h r) \<and> cy (r_l r) \<le> cy (r_h r)"

definition in_world :: "rect \<Rightarrow> bool" where
  "in_world r \<longleftrightarrow> bbox_contains_bbox world_bbox r \<and> proper r"

lemma bbox_contains_iff:
  "bbox_contains_bbox s r \<longleftrightarrow> cx (r_l s) \<le> cx (r_l r) \<and> cy (r_l s) \<le> cy (r_l r)
     \<and> cx (r_h r) \<le> cx (r_h s) \<and> cy (r_h r) \<le> cy (r_h s)"
  by (auto simp: bbox_contains_bbox_def)

lemma contains_iff:
  "contains_bbox xl yl xh yh r \<longleftrightarrow>
     xl \<le> cx (r_l r) \<and> cx (r_l r) \<le> xh \<and> xl \<le> cx (r_h r) \<and> cx (r_h r) \<le> xh
     \<and> yl \<le> cy (r_l r) \<and> cy (r_l r) \<le> yh \<and> yl \<le> cy (r_h r) \<and> cy (r_h r) \<le> yh"
  by (auto simp: contains_bbox_def)

lemma bbox_contains_refl [simp]: "bbox_contains_bbox r r"
  by (simp add: bbox_contains_iff)

lemma bbox_contains_trans: "bbox_contains_bbox q r \<Longrightarrow> bbox_contains_bbox r s \<Longrightarrow> bbox_contains_bbox q s"
  by (auto simp: bbox_contains_iff)

lemma bbox_extend_contains:
  "bbox_contains_bbox (bbox_extend c r) r" "proper r \<Longrightarrow> bbox_contains_coord (bbox_extend c r) c"
  "proper r \<Longrightarrow> proper (bbox_extend c r)"
  by (auto simp: bbox_contains_iff bbox_contains_coord_def bbox_extend_def proper_def)

lemma contains_coord_mono:
  "bbox_contains_bbox s r \<Longrightarrow> bbox_contains_coord r c \<Longrightarrow> bbox_contains_coord s c"
  by (auto simp: bbox_contains_iff bbox_contains_coord_def split: if_splits)

lemma fold_extend:
  "proper r \<Longrightarrow> proper (fold bbox_extend cs r) \<and> bbox_contains_bbox (fold bbox_extend cs r) r
     \<and> (\<forall>c \<in> set cs. bbox_contains_coord (fold bbox_extend cs r) c)"
proof (induction cs arbitrary: r)
  case (Cons c cs)
  let ?r = "bbox_extend c r"
  have p: "proper ?r" using Cons.prems by (rule bbox_extend_contains)
  show ?case
    using Cons.IH [OF p] bbox_extend_contains(1) [of c r] bbox_extend_contains(2) [of r c] Cons.prems
    by (auto intro: bbox_contains_trans contains_coord_mono)
qed simp

lemma bbox_covers:
  assumes "cs \<noteq> []" "c \<in> set cs"
  shows "proper (bbox cs r) \<and> bbox_contains_coord (bbox cs r) c"
proof -
  obtain d ds where cs: "cs = d # ds" using assms by (cases cs) auto
  let ?s = "\<lparr>r_l = d, r_h = d\<rparr> :: rect"
  have "proper ?s" "bbox_contains_coord ?s d" by (auto simp: proper_def bbox_contains_coord_def)
  then show ?thesis using fold_extend [of ?s ds] assms(2) cs by (auto intro: contains_coord_mono)
qed

section \<open>Walking the tree\<close>

declare tile_step.simps [simp del]

definition rect_of :: "bounds \<Rightarrow> rect" where
  "rect_of b = (case b of (x0, y0, x4, y4) \<Rightarrow> \<lparr>r_l = \<lparr>cx = x0, cy = y0\<rparr>, r_h = \<lparr>cx = x4, cy = y4\<rparr>\<rparr>)"

lemma contains_rect: "contains_bbox x0 y0 x4 y4 rr \<Longrightarrow> bbox_contains_bbox (rect_of (x0, y0, x4, y4)) rr"
  by (simp add: rect_of_def bbox_contains_iff contains_iff)

lemma tile_step_bbox:
  assumes "tile_step ov rr b = Some (c, b')"
  shows "rect_of b' = tile_bbox_step ov c (rect_of b)" "c \<in> set ''abcd''" "bbox_contains_bbox (rect_of b') rr"
proof -
  obtain x0 y0 x4 y4 where b: "b = (x0, y0, x4, y4)" by (cases b)
  show "rect_of b' = tile_bbox_step ov c (rect_of b)"
    using assms unfolding b tile_step.simps Let_def
    by (simp only: split: if_splits) (clarsimp simp: rect_of_def tile_bbox_step_def)+
  show "c \<in> set ''abcd''" "bbox_contains_bbox (rect_of b') rr"
    using assms unfolding b tile_step.simps Let_def
    by (simp only: split: if_splits; clarsimp simp: contains_rect)+
qed

lemma tile_loop_bbox:
  assumes "tile_loop n ov rr b = (s, i, b')" "bbox_contains_bbox (rect_of b) rr"
  shows "rect_of b' = tile_bbox_from s ov (rect_of b) \<and> length s = i \<and> i \<le> n \<and> set s \<subseteq> set ''abcd''
    \<and> bbox_contains_bbox (rect_of b') rr \<and> (i < n \<longrightarrow> tile_step ov rr b' = None)"
  using assms
proof (induction n arbitrary: b s i b')
  case (Suc n)
  show ?case
  proof (cases "tile_step ov rr b")
    case (Some p)
    obtain c bb where p: "p = (c, bb)" by (cases p)
    obtain s1 i1 b1 where l: "tile_loop n ov rr bb = (s1, i1, b1)" by (cases "tile_loop n ov rr bb")
    note st = tile_step_bbox [OF Some [unfolded p]]
    have e: "s = c # s1" "i = Suc i1" "b' = b1" using Suc.prems(1) Some p l by auto
    have "set (c # s1) \<subseteq> set ''abcd'' \<longleftrightarrow> set s1 \<subseteq> set ''abcd''" using st(2) by simp
    then show ?thesis
      using Suc.IH [OF l st(3)] unfolding e tile_bbox_from.simps st(1) [symmetric] by (elim conjE) (intro conjI, simp_all)
  qed (use Suc.prems in auto)
qed auto

lemma tile_loop_take:
  "m \<le> n \<Longrightarrow> fst (tile_loop m ov rr b) = take m (fst (tile_loop n ov rr b))"
proof (induction m arbitrary: n b)
  case (Suc m)
  then obtain n' where "n = Suc n'" "m \<le> n'" by (cases n) auto
  then show ?case using Suc.IH by (auto split: option.splits prod.splits) (metis fst_conv)
qed simp

lemma clamp_low_eq:
  "r_l (clamp_low r x y) = \<lparr>cx = max x (cx (r_l r)), cy = max y (cy (r_l r))\<rparr>"
  "r_h (clamp_low r x y) = \<lparr>cx = max x (cx (r_h r)), cy = max y (cy (r_h r))\<rparr>"
  by (simp_all add: clamp_low_def Let_def max_def coord_eq_iff)

lemma clamp_high_eq:
  "r_l (clamp_high r x y) = \<lparr>cx = min x (cx (r_l r)), cy = min y (cy (r_l r))\<rparr>"
  "r_h (clamp_high r x y) = \<lparr>cx = min x (cx (r_h r)), cy = min y (cy (r_h r))\<rparr>"
  by (simp_all add: clamp_high_def Let_def min_def coord_eq_iff)

lemmas clamp_world_eq = clamp_world_def clamp_low_eq clamp_high_eq

lemma clamp_world_in: "bbox_contains_bbox world_bbox (clamp_world r)"
  by (simp add: clamp_world_eq bbox_contains_iff world_bbox_def world_bounds)

lemma clamp_world_proper: "proper r \<Longrightarrow> proper (clamp_world r)"
  by (auto simp: clamp_world_eq proper_def)

lemma clamp_world_id: "bbox_contains_bbox world_bbox r \<Longrightarrow> proper r \<Longrightarrow> clamp_world r = r"
  by (auto simp: clamp_world_def clamp_low_def clamp_high_def Let_def bbox_contains_iff proper_def)

section \<open>Boxes along a path\<close>

lemma half_bounds:
  assumes "l \<le> h" "- 20000000 \<le> l" "h \<le> 20000000" "0 \<le> ov" "ov \<le> 50"
  shows "l \<le> cdiv (i32 (l + h)) 2 - cdiv (i32 ((h - l) * ov)) 100"
    "cdiv (i32 (l + h)) 2 + cdiv (i32 ((h - l) * ov)) 100 \<le> h" "0 \<le> cdiv (i32 ((h - l) * ov)) 100"
proof -
  have o1: "(h - l) * ov \<le> (h - l) * 50" using assms by (intro mult_left_mono) auto
  have o0: "0 \<le> (h - l) * ov" using assms by simp
  have "(h - l) * 50 \<le> 2000000000" using assms by simp
  then have "in_i32 ((h - l) * ov)" using o0 o1 by (simp only: in_i32_def) linarith
  then have e: "cdiv (i32 ((h - l) * ov)) 100 = (h - l) * ov div 100" using o0 by simp
  have o2: "(h - l) * ov div 100 \<le> (h - l) div 2"
    using zdiv_mono1 [OF o1, of 100] by (simp add: zdiv_zmult2_eq [symmetric])
  have i: "i32 (l + h) = l + h" using assms by (simp add: in_i32_def)
  have c: "l + (h - l) div 2 \<le> cdiv (l + h) 2 \<and> cdiv (l + h) 2 \<le> h - (h - l) div 2"
  proof (cases "0 \<le> l + h")
    case True
    then have "cdiv (l + h) 2 = (l + h) div 2" by simp
    then show ?thesis by presburger
  next
    case False
    then have "cdiv (l + h) 2 = - ((- (l + h)) div 2)" by (simp add: cdiv_neg)
    then show ?thesis by presburger
  qed
  show "l \<le> cdiv (i32 (l + h)) 2 - cdiv (i32 ((h - l) * ov)) 100"
    "cdiv (i32 (l + h)) 2 + cdiv (i32 ((h - l) * ov)) 100 \<le> h"
    using o2 c unfolding e i by linarith+
  show "0 \<le> cdiv (i32 ((h - l) * ov)) 100" unfolding e using o0 by simp
qed

lemma in_world_iff:
  "in_world r \<longleftrightarrow> cx (r_l r) \<le> cx (r_h r) \<and> cy (r_l r) \<le> cy (r_h r)
     \<and> - 20000000 \<le> cx (r_l r) \<and> cx (r_h r) \<le> 20000000 \<and> - 20000000 \<le> cy (r_l r) \<and> cy (r_h r) \<le> 20000000"
  by (auto simp: in_world_def proper_def bbox_contains_iff world_bbox_def world_bounds)

lemma tile_bbox_step_shrinks:
  assumes "in_world r" "0 \<le> ov" "ov \<le> 50"
  shows "in_world (tile_bbox_step ov t r) \<and> bbox_contains_bbox r (tile_bbox_step ov t r)"
proof -
  note x = half_bounds [of "cx (r_l r)" "cx (r_h r)" ov]
  note y = half_bounds [of "cy (r_l r)" "cy (r_h r)" ov]
  have b: "cx (r_l r) \<le> cx (r_h r)" "cy (r_l r) \<le> cy (r_h r)" "- 20000000 \<le> cx (r_l r)" "cx (r_h r) \<le> 20000000"
    "- 20000000 \<le> cy (r_l r)" "cy (r_h r) \<le> 20000000" using assms by (simp_all add: in_world_iff)
  show ?thesis
    using b x [OF b(1,3,4) assms(2,3)] y [OF b(2,5,6) assms(2,3)]
    unfolding tile_bbox_step_def Let_def in_world_iff bbox_contains_iff by simp
qed

lemma tile_bbox_from_append [simp]:
  "tile_bbox_from (s @ t) ov r = tile_bbox_from t ov (tile_bbox_from s ov r)"
  by (induction s arbitrary: r) auto

lemma tile_bbox_from_shrinks:
  assumes "in_world r" "0 \<le> ov" "ov \<le> 50"
  shows "in_world (tile_bbox_from s ov r) \<and> bbox_contains_bbox r (tile_bbox_from s ov r)"
  using assms
proof (induction s arbitrary: r)
  case (Cons t s)
  then show ?case using tile_bbox_step_shrinks [of r ov t] Cons.IH [of "tile_bbox_step ov t r"]
    by (auto intro: bbox_contains_trans)
qed (simp add: bbox_contains_iff)

lemma world_in_world: "in_world world_bbox"
  by (simp add: in_world_def proper_def world_bbox_def world_bounds)

lemma tile_len_letters: "set s \<subseteq> set ''abcd'' \<Longrightarrow> tile_len (s @ t) = length s + tile_len t"
  by (induction s) auto

section \<open>Properties\<close>

text \<open>\<open>tile\<close> appends a name of at most \<open>max\<close> letters a to d and the suffix to the buffer, and returns
  its number of letters and a box. That box is the one \<open>tile_bbox\<close> computes from the name, it holds
  the item as far as it lies in the world, and no quadrant of it does unless \<open>max\<close> was reached. A
  smaller \<open>max\<close> gives a prefix of the name.\<close>

theorem tile_name_box:
  "case tile r (Some sx) ret mx ov of (name, i, tr) \<Rightarrow>
     \<exists>s. name = ret @ s @ sx \<and> length s = i \<and> i \<le> mx \<and> set s \<subseteq> set ''abcd''
       \<and> tile_bbox s ov = tr \<and> bbox_contains_bbox tr (clamp_world r)
       \<and> (i = mx \<or> tile_step ov (clamp_world r) (cx (r_l tr), cy (r_l tr), cx (r_h tr), cy (r_h tr)) = None)
       \<and> fst (tile r (Some sx) ret (min m mx) ov) = ret @ take m s @ sx"
proof -
  let ?w = "(cx (r_l world_bbox), cy (r_l world_bbox), cx (r_h world_bbox), cy (r_h world_bbox))"
  obtain s i x0 y0 x4 y4 where l: "tile_loop mx ov (clamp_world r) ?w = (s, i, x0, y0, x4, y4)"
    by (cases "tile_loop mx ov (clamp_world r) ?w") auto
  have w: "rect_of ?w = world_bbox" by (simp add: rect_of_def)
  have f: "rect_of (x0, y0, x4, y4) = tile_bbox s ov" "length s = i" "i \<le> mx" "set s \<subseteq> set ''abcd''"
    "bbox_contains_bbox (rect_of (x0, y0, x4, y4)) (clamp_world r)"
    "i < mx \<longrightarrow> tile_step ov (clamp_world r) (x0, y0, x4, y4) = None"
    using tile_loop_bbox [OF l] clamp_world_in [of r] unfolding w tile_bbox_def by auto
  have t: "fst (tile_loop (min m mx) ov (clamp_world r) ?w) = take m s"
    using tile_loop_take [of "min m mx" mx ov "clamp_world r" ?w] l f(2,3) by (simp add: min_def)
  have d: "fst (tile r (Some sx) ret (min m mx) ov) = ret @ take m s @ sx"
    using t by (cases "tile_loop (min m mx) ov (clamp_world r) ?w") (auto simp: tile_def)
  have e: "tile r (Some sx) ret mx ov = (ret @ s @ sx, i, rect_of (x0, y0, x4, y4))"
    using l by (simp add: tile_def rect_of_def)
  have c: "(cx (r_l tr), cy (r_l tr), cx (r_h tr), cy (r_h tr)) = (x0, y0, x4, y4)"
    if "tr = rect_of (x0, y0, x4, y4)" for tr using that by (simp add: rect_of_def)
  show ?thesis
    unfolding e prod.case c [OF refl]
    using f(2-6) f(1) [symmetric] d by (intro exI [of _ s] conjI refl; (assumption | linarith | meson le_neq_implies_less)?)
qed



end
