(* ===== verification/Tile_Store.thy ===== *)
theory Tile_Store
  imports Tile_Name "HOL-Library.AList" "HOL-Library.List_Lexorder" "HOL-Library.Char_ord"
begin

text \<open>
  The tiles of a map file while it is written (\<open>maptool/tile.c\<close>, \<open>phase5\<close> of \<open>maptool/misc.c\<close>). The items
  are read twice: the first pass adds up the sizes of the tiles, then small tiles are merged into the tile
  above them, and the second pass copies the items into memory of the size found before.

  A \<open>struct tile_head\<close> lives at an address; both hash tables map names to addresses, the second one
  also the names of merged tiles. Addresses of new and of reallocated heads are parameters, as is the
  field \<open>process\<close>, which \<open>g_malloc\<close> leaves uninitialised. An item is the list of its 32 bit words.
\<close>

section \<open>State\<close>

record tile_head =
  th_subtiles :: "string list"
  th_total_size :: int
  th_name :: string
  th_zip_data :: "int list option"
  th_total_size_used :: int
  th_zipnum :: int
  th_process :: int

record tiles =
  ts_heads :: "nat \<rightharpoonup> tile_head"
  tile_hash :: "(string \<times> nat) list"
  tile_hash2 :: "(string \<times> nat) list option"

type_synonym addresses = "(nat \<rightharpoonup> tile_head) \<Rightarrow> nat"

definition hash2_lookup :: "tiles \<Rightarrow> string \<Rightarrow> nat option" where
  "hash2_lookup ts n = (case tile_hash2 ts of None \<Rightarrow> None | Some h \<Rightarrow> map_of h n)"

definition set_head :: "nat \<Rightarrow> tile_head \<Rightarrow> tiles \<Rightarrow> tiles" where
  "set_head p th ts = ts\<lparr>ts_heads := (ts_heads ts)(p \<mapsto> th)\<rparr>"

definition hash_insert :: "string \<Rightarrow> nat \<Rightarrow> tiles \<Rightarrow> tiles" where
  "hash_insert n p ts = ts\<lparr>tile_hash := AList.update n p (tile_hash ts)\<rparr>"

definition item_size :: "int list \<Rightarrow> int" where
  "item_size ib = 4 * int (length ib)"

section \<open>First pass\<close>

definition find_tile :: "tiles \<Rightarrow> string \<Rightarrow> nat option" where
  "find_tile ts n = (case hash2_lookup ts n of Some p \<Rightarrow> Some p | None \<Rightarrow> map_of (tile_hash ts) n)"

definition tile_extend :: "addresses \<Rightarrow> int \<Rightarrow> string \<Rightarrow> int list \<Rightarrow> tiles \<times> string list \<Rightarrow> (tiles \<times> string list) option" where
  "tile_extend al junk n ib = (\<lambda>(ts, tiles_list).
     let (p, ts, tiles_list) =
       (case find_tile ts n of
          Some p \<Rightarrow> (p, ts, tiles_list)
        | None \<Rightarrow>
            (let p = al (ts_heads ts);
                 th = \<lparr>th_subtiles = [n], th_total_size = 0, th_name = n, th_zip_data = None,
                       th_total_size_used = 0, th_zipnum = 0, th_process = junk\<rparr>;
                 ts = set_head p th ts;
                 ts = ts\<lparr>tile_hash2 := map_option (AList.update n p) (tile_hash2 ts)\<rparr>
             in (p, ts, tiles_list @ [n])))
     in do {
       th \<leftarrow> ts_heads ts p;
       let th = th\<lparr>th_total_size := th_total_size th + item_size ib\<rparr>;
       Some (hash_insert (th_name th) p (set_head p th ts), tiles_list)
     })"

definition tile_data_size :: "tiles \<Rightarrow> string \<Rightarrow> int option" where
  "tile_data_size ts n =
     (case map_of (tile_hash ts) n of None \<Rightarrow> Some 0 | Some p \<Rightarrow> map_option th_total_size (ts_heads ts p))"

section \<open>Merging\<close>

text \<open>\<open>re\<close> is the address \<open>g_realloc\<close> returns for the old address.\<close>

definition merge_tile :: "((nat \<rightharpoonup> tile_head) \<Rightarrow> nat \<Rightarrow> nat) \<Rightarrow> string \<Rightarrow> string \<Rightarrow> tiles \<Rightarrow> (nat \<times> tiles) option" where
  "merge_tile re base sub ts =
     (case map_of (tile_hash ts) sub of
        None \<Rightarrow> Some (0, ts)
      | Some ps \<Rightarrow> do {
          ths \<leftarrow> ts_heads ts ps;
          (case map_of (tile_hash ts) base of
             None \<Rightarrow>
               (let ts = ts\<lparr>tile_hash := AList.delete sub (tile_hash ts)\<rparr>;
                    ts = set_head ps (ths\<lparr>th_name := base\<rparr>) ts
                in Some (1, hash_insert base ps ts))
           | Some pb \<Rightarrow> do {
               thb \<leftarrow> ts_heads ts pb;
               let thb = thb\<lparr>th_subtiles := th_subtiles thb @ th_subtiles ths,
                             th_total_size := th_total_size thb + th_total_size ths\<rparr>;
               let p = re (ts_heads ts) pb;
               let ts = ts\<lparr>ts_heads := (ts_heads ts)(pb := None, p \<mapsto> thb)\<rparr>;
               let ts = hash_insert (th_name thb) p ts;
               let ts = ts\<lparr>tile_hash := AList.delete sub (tile_hash ts)\<rparr>;
               Some (1, ts\<lparr>ts_heads := (ts_heads ts)(ps := None)\<rparr>)
             })
        })"

definition get_tiles_list :: "tiles \<Rightarrow> string list" where
  "get_tiles_list ts = sort (map fst (tile_hash ts))"

text \<open>The letters of the four tiles below, and the names \<open>merge_tiles\<close> builds from a tile name.\<close>

definition basetile :: "string \<Rightarrow> string \<Rightarrow> string" where
  "basetile suffix n = take (tile_len n - 1) n @ suffix"

definition subtile :: "string \<Rightarrow> nat \<Rightarrow> string" where
  "subtile n i = n[tile_len n - 1 := char_of (97 + i)]"

fun merge_all :: "((nat \<rightharpoonup> tile_head) \<Rightarrow> nat \<Rightarrow> nat) \<Rightarrow> string \<Rightarrow> string list \<Rightarrow> nat \<times> tiles \<Rightarrow> (nat \<times> tiles) option" where
  "merge_all re base [] (w, ts) = Some (w, ts)"
| "merge_all re base (sub # subs) (w, ts) = do {
     (k, ts) \<leftarrow> merge_tile re base sub ts;
     merge_all re base subs (w + k, ts)
   }"

text \<open>The smallest size below \<open>size_all\<close> that is not zero, the first one of several.\<close>

definition find_min :: "int list \<Rightarrow> int \<Rightarrow> nat option" where
  "find_min sizes size_all =
     snd (fold (\<lambda>i (size_min, i_min).
            if sizes ! i \<noteq> 0 \<and> sizes ! i < size_min then (sizes ! i, Some i) else (size_min, i_min))
          [0..<4] (size_all, None))"

text \<open>Each round sets one of the sizes to zero, so that five rounds are enough.\<close>

fun merge_smallest :: "nat \<Rightarrow> ((nat \<rightharpoonup> tile_head) \<Rightarrow> nat \<Rightarrow> nat) \<Rightarrow> string \<Rightarrow> string \<Rightarrow> int \<Rightarrow> int list \<Rightarrow> int
    \<Rightarrow> nat \<times> tiles \<Rightarrow> (nat \<times> tiles) option" where
  "merge_smallest 0 re base n size_all sizes size4 r = None"
| "merge_smallest (Suc fuel) re base n size_all sizes size4 (w, ts) =
     (case find_min sizes size_all of
        None \<Rightarrow> Some (w, ts)
      | Some i \<Rightarrow>
          if size4 + sizes ! i \<ge> 65536 then Some (w, ts)
          else do {
            (k, ts) \<leftarrow> merge_tile re base (subtile n i) ts;
            merge_smallest fuel re base n size_all (sizes[i := 0]) (size4 + sizes ! i) (w + k, ts)
          })"

fun sizes_of :: "tiles \<Rightarrow> string list \<Rightarrow> int list option" where
  "sizes_of ts [] = Some []"
| "sizes_of ts (n # ns) = do {
     s \<leftarrow> tile_data_size ts n;
     ss \<leftarrow> sizes_of ts ns;
     Some (s # ss)
   }"

definition merge_name :: "((nat \<rightharpoonup> tile_head) \<Rightarrow> nat \<Rightarrow> nat) \<Rightarrow> string \<Rightarrow> string \<Rightarrow> nat \<times> tiles \<Rightarrow> (nat \<times> tiles) option" where
  "merge_name re suffix n = (\<lambda>(work, ts).
     if tile_len n \<ge> 1 then do {
       let base = basetile suffix n;
       let subs = map (subtile n) [0..<4];
       sizes \<leftarrow> sizes_of ts subs;
       size4 \<leftarrow> tile_data_size ts base;
       let size_all = sum_list sizes + size4;
       if size_all < 65536 \<and> size_all > 0 \<and> size_all \<noteq> size4
       then merge_all re base subs (work, ts)
       else merge_smallest 5 re base n size_all sizes size4 (work, ts)
     } else Some (work, ts))"

fun merge_pass :: "((nat \<rightharpoonup> tile_head) \<Rightarrow> nat \<Rightarrow> nat) \<Rightarrow> string \<Rightarrow> string list \<Rightarrow> nat \<times> tiles \<Rightarrow> (nat \<times> tiles) option" where
  "merge_pass re suffix [] r = Some r"
| "merge_pass re suffix (n # ns) r = do { r \<leftarrow> merge_name re suffix n r; merge_pass re suffix ns r }"

partial_function (option) merge_tiles :: "((nat \<rightharpoonup> tile_head) \<Rightarrow> nat \<Rightarrow> nat) \<Rightarrow> string \<Rightarrow> tiles \<Rightarrow> tiles option" where
  "merge_tiles re suffix ts = do {
     (work_done, ts) \<leftarrow> merge_pass re suffix (rev (get_tiles_list ts)) (0, ts);
     if work_done \<noteq> 0 then merge_tiles re suffix ts else Some ts
   }"

section \<open>Second pass\<close>

fun add_tile_names :: "string list \<Rightarrow> nat \<Rightarrow> (string \<times> nat) list \<Rightarrow> (string \<times> nat) list" where
  "add_tile_names [] p h = h"
| "add_tile_names (n # ns) p h = add_tile_names ns p (AList.update n p h)"

definition add_tile_hash :: "nat \<Rightarrow> tiles \<Rightarrow> tiles option" where
  "add_tile_hash p ts = do {
     th \<leftarrow> ts_heads ts p;
     h \<leftarrow> tile_hash2 ts;
     Some (ts\<lparr>tile_hash2 := Some (add_tile_names (th_subtiles th) p h)\<rparr>)
   }"

fun add_tile_list :: "string list \<Rightarrow> tiles \<Rightarrow> tiles option" where
  "add_tile_list [] ts = Some ts"
| "add_tile_list (n # ns) ts = do {
     p \<leftarrow> map_of (tile_hash ts) n;
     ts \<leftarrow> add_tile_hash p ts;
     add_tile_list ns ts
   }"

definition create_tile_hash_list :: "string list \<Rightarrow> tiles \<Rightarrow> tiles option" where
  "create_tile_hash_list ns ts = add_tile_list ns (ts\<lparr>tile_hash2 := Some []\<rparr>)"

text \<open>The results of \<open>write_item\<close>: the references file gets an entry, an empty place, or the program ends.\<close>

datatype write_result =
  Written tiles "(int \<times> int) option"
| Skipped tiles
| Process_error
| Tile_overflow
| No_tile
| Fault

definition write_item :: "string \<Rightarrow> int list \<Rightarrow> bool \<Rightarrow> tiles \<Rightarrow> write_result" where
  "write_item n ib reference ts =
     (case find_tile ts n of
        None \<Rightarrow> No_tile
      | Some p \<Rightarrow>
          (case ts_heads ts p of
             None \<Rightarrow> Fault
           | Some th \<Rightarrow>
               if th_process th \<noteq> 0 \<and> th_process th \<noteq> 1 then Process_error
               else if th_process th = 0 then Skipped ts
               else
                 (let sz = item_size ib in
                  if th_total_size_used th + sz > th_total_size th then Tile_overflow
                  else
                    (let entry = (if reference then Some (th_zipnum th, cdiv (th_total_size_used th) 4) else None);
                         k = nat (th_total_size_used th div 4);
                         data = map_option (\<lambda>d. take k d @ ib @ drop (k + length ib) d) (th_zip_data th);
                         th = th\<lparr>th_zip_data := data, th_total_size_used := th_total_size_used th + sz\<rparr>
                     in Written (set_head p th ts) entry))))"

text \<open>\<open>phase5\<close> takes as many tiles as fit into a slice, given the sizes of the list \<open>tile_head_root\<close>.\<close>

fun take_slice :: "int \<Rightarrow> int \<Rightarrow> int list \<Rightarrow> int list \<times> int list" where
  "take_slice slice_size sz [] = ([], [])"
| "take_slice slice_size sz (t # ts) =
     (if sz + t < slice_size
      then (case take_slice slice_size (sz + t) ts of (xs, ys) \<Rightarrow> (t # xs, ys))
      else ([], t # ts))"

partial_function (option) slices :: "int \<Rightarrow> int list \<Rightarrow> int list list option" where
  "slices slice_size ts =
     (if ts = [] then Some []
      else case take_slice slice_size 0 ts of (xs, ys) \<Rightarrow> do {
        ss \<leftarrow> slices slice_size ys;
        Some (xs # ss)
      })"

text \<open>
  Before a slice is written, its tiles are marked and get a part of the slice's memory, whose former
  contents are a parameter; all other tiles are skipped.
\<close>

definition start_slice :: "string list \<Rightarrow> (string \<Rightarrow> nat \<Rightarrow> int list) \<Rightarrow> tiles \<Rightarrow> tiles" where
  "start_slice names memory ts = ts\<lparr>ts_heads := \<lambda>p. map_option (\<lambda>th.
     if th_name th \<in> set names
     then th\<lparr>th_process := 1, th_zip_data := Some (memory (th_name th) (nat (th_total_size th div 4)))\<rparr>
     else th\<lparr>th_process := 0\<rparr>) (ts_heads ts p)\<rparr>"

text \<open>The items of the input in order; the second pass ends when an item cannot be written.\<close>

fun extend_all :: "addresses \<Rightarrow> int \<Rightarrow> (string \<times> int list) list \<Rightarrow> tiles \<times> string list \<Rightarrow> (tiles \<times> string list) option" where
  "extend_all al junk [] r = Some r"
| "extend_all al junk ((n, ib) # xs) r = do { r \<leftarrow> tile_extend al junk n ib r; extend_all al junk xs r }"

fun write_all :: "(string \<times> int list) list \<Rightarrow> tiles \<Rightarrow> tiles option" where
  "write_all [] ts = Some ts"
| "write_all ((n, ib) # xs) ts =
     (case write_item n ib False ts of
        Written ts' _ \<Rightarrow> write_all xs ts'
      | Skipped ts' \<Rightarrow> write_all xs ts'
      | _ \<Rightarrow> None)"

definition no_tiles :: tiles where
  "no_tiles = \<lparr>ts_heads = Map.empty, tile_hash = [], tile_hash2 = None\<rparr>"

end
