(* ===== verification/Tile_Store_Spec.thy ===== *)
theory Tile_Store_Spec
  imports Tile_Store
begin

text \<open>
  The tables of addresses implement a map from tile names to heads. On that map the sizes of the first pass,
  merging and the copies of the second pass are accounted for: the second pass fits exactly.
\<close>

section \<open>Refinement to a map from names to heads\<close>

definition heads_of :: "tiles \<Rightarrow> string \<rightharpoonup> tile_head" where
  "heads_of ts n = do { p \<leftarrow> map_of (tile_hash ts) n; ts_heads ts p }"

definition tiles_wf :: "tiles \<Rightarrow> bool" where
  "tiles_wf ts \<longleftrightarrow> finite (dom (ts_heads ts)) \<and> distinct (map fst (tile_hash ts))
     \<and> (\<forall>n p. map_of (tile_hash ts) n = Some p \<longrightarrow> (\<exists>th. ts_heads ts p = Some th \<and> th_name th = n))
     \<and> (\<forall>h n p. tile_hash2 ts = Some h \<longrightarrow> map_of h n = Some p \<longrightarrow> p \<in> ran (map_of (tile_hash ts)))"

definition fresh_address :: "addresses \<Rightarrow> bool" where
  "fresh_address al \<longleftrightarrow> (\<forall>h. finite (dom h) \<longrightarrow> h (al h) = None)"

definition realloc_ok :: "((nat \<rightharpoonup> tile_head) \<Rightarrow> nat \<Rightarrow> nat) \<Rightarrow> bool" where
  "realloc_ok re \<longleftrightarrow> (\<forall>h p. re h p = p \<or> h (re h p) = None)"

lemma tiles_wfD:
  assumes "tiles_wf ts" "map_of (tile_hash ts) n = Some p"
  obtains th where "ts_heads ts p = Some th" "th_name th = n" "heads_of ts n = Some th"
  using assms unfolding tiles_wf_def heads_of_def by (metis Option.bind.bind_lunit)

lemma hash_inj:
  "tiles_wf ts \<Longrightarrow> map_of (tile_hash ts) n = Some p \<Longrightarrow> map_of (tile_hash ts) m = Some p \<Longrightarrow> m = n"
  by (metis tiles_wfD option.inject)

lemma heads_ofE:
  assumes "heads_of ts n = Some th"
  obtains p where "map_of (tile_hash ts) n = Some p" "ts_heads ts p = Some th"
  using assms by (auto simp: heads_of_def bind_eq_Some_conv)

lemma heads_of_None: "tiles_wf ts \<Longrightarrow> heads_of ts n = None \<longleftrightarrow> map_of (tile_hash ts) n = None"
  by (metis heads_of_def Option.bind.bind_lzero option.exhaust option.simps(3) tiles_wfD)

lemma heads_of_name: "tiles_wf ts \<Longrightarrow> heads_of ts n = Some th \<Longrightarrow> th_name th = n"
  by (metis heads_ofE option.inject tiles_wfD)

text \<open>Writing the head of a listed tile, keeping its name.\<close>

lemma set_head_heads:
  assumes "tiles_wf ts" "map_of (tile_hash ts) n = Some p" "th_name th = n"
  shows "heads_of (set_head p th ts) = (heads_of ts)(n \<mapsto> th)" "tiles_wf (set_head p th ts)"
proof -
  show "heads_of (set_head p th ts) = (heads_of ts)(n \<mapsto> th)"
  proof (rule ext)
    fix m show "heads_of (set_head p th ts) m = ((heads_of ts)(n \<mapsto> th)) m"
      using assms hash_inj [OF assms(1,2), of m]
      by (cases "map_of (tile_hash ts) m") (auto simp: heads_of_def set_head_def)
  qed
  have "\<exists>t. ((ts_heads ts)(p \<mapsto> th)) q = Some t \<and> th_name t = m" if "map_of (tile_hash ts) m = Some q" for m q
  proof (cases "q = p")
    case True
    then show ?thesis using hash_inj [OF assms(1,2)] that assms(3) by auto
  qed (use assms(1) that in \<open>auto simp: tiles_wf_def\<close>)
  then show "tiles_wf (set_head p th ts)"
    using assms(1) unfolding tiles_wf_def set_head_def by simp
qed

section \<open>Looking up a tile\<close>

definition find_name :: "tiles \<Rightarrow> string \<Rightarrow> string option" where
  "find_name ts m = do { p \<leftarrow> find_tile ts m; th \<leftarrow> ts_heads ts p; Some (th_name th) }"

lemma find_tile_listed:
  assumes "tiles_wf ts" "find_tile ts m = Some p"
  obtains n th where "map_of (tile_hash ts) n = Some p" "ts_heads ts p = Some th" "th_name th = n"
    "find_name ts m = Some n" "heads_of ts n = Some th"
proof -
  have "p \<in> ran (map_of (tile_hash ts))"
    using assms by (auto simp: find_tile_def hash2_lookup_def tiles_wf_def ran_def split: option.splits)
  then obtain n where n: "map_of (tile_hash ts) n = Some p" by (auto simp: ran_def)
  then obtain th where t: "ts_heads ts p = Some th" "th_name th = n" "heads_of ts n = Some th"
    by (rule tiles_wfD [OF assms(1)])
  have "find_name ts m = Some n" using assms(2) t by (simp add: find_name_def)
  then show thesis using that n t by blast
qed

lemma find_name_None: "tiles_wf ts \<Longrightarrow> find_name ts m = None \<longleftrightarrow> find_tile ts m = None"
  by (metis find_name_def Option.bind.bind_lzero find_tile_listed not_None_eq option.simps(3))

section \<open>Operations on the map\<close>

definition new_head :: "string \<Rightarrow> int \<Rightarrow> tile_head" where
  "new_head n junk = \<lparr>th_subtiles = [n], th_total_size = 0, th_name = n, th_zip_data = None,
     th_total_size_used = 0, th_zipnum = 0, th_process = junk\<rparr>"

lemma new_head_simps [simp]:
  "th_name (new_head n junk) = n" "th_subtiles (new_head n junk) = [n]" "th_total_size_used (new_head n junk) = 0"
  by (simp_all add: new_head_def)

lemma hash_insert_same:
  assumes "tiles_wf ts" "map_of (tile_hash ts) n = Some p"
  shows "heads_of (hash_insert n p ts) = heads_of ts" "tiles_wf (hash_insert n p ts)"
    "find_name (hash_insert n p ts) = find_name ts"
proof -
  have m: "map_of (AList.update n p (tile_hash ts)) = map_of (tile_hash ts)"
    using assms(2) by (auto simp: update_conv')
  show "heads_of (hash_insert n p ts) = heads_of ts" by (rule ext) (simp add: heads_of_def hash_insert_def m)
  show "tiles_wf (hash_insert n p ts)"
    using assms(1) by (simp add: tiles_wf_def hash_insert_def m distinct_update)
  show "find_name (hash_insert n p ts) = find_name ts"
    by (rule ext) (simp add: find_name_def find_tile_def hash2_lookup_def hash_insert_def m cong: option.case_cong)
qed

lemma find_name_set_head:
  assumes "tiles_wf ts" "ts_heads ts p = Some th0" "th_name th = th_name th0"
  shows "find_name (set_head p th ts) = find_name ts"
  using assms by (auto simp: find_name_def find_tile_def hash2_lookup_def set_head_def fun_eq_iff
      split: option.splits bind_splits)

lemma tile_extend_found:
  assumes "tiles_wf ts" "find_name ts m = Some n"
  obtains ts' th where "tile_extend al junk m ib (ts, l) = Some (ts', l)" "heads_of ts n = Some th"
    "heads_of ts' = (heads_of ts)(n \<mapsto> th\<lparr>th_total_size := th_total_size th + item_size ib\<rparr>)"
    "tiles_wf ts'" "find_name ts' = find_name ts" "tile_hash2 ts' = tile_hash2 ts"
proof -
  obtain p where p: "find_tile ts m = Some p" using assms find_name_None [OF assms(1), of m] by (cases "find_tile ts m") auto
  obtain th where t: "map_of (tile_hash ts) n = Some p" "ts_heads ts p = Some th" "th_name th = n" "heads_of ts n = Some th"
    using find_tile_listed [OF assms(1) p] assms(2) by (metis option.inject)
  let ?th = "th\<lparr>th_total_size := th_total_size th + item_size ib\<rparr>"
  let ?ts = "set_head p ?th ts"
  have n: "th_name ?th = n" using t by simp
  note s = set_head_heads [OF assms(1) t(1) n]
  have h: "map_of (tile_hash ?ts) n = Some p" using t by (simp add: set_head_def)
  note i = hash_insert_same [OF s(2) h]
  have e: "tile_extend al junk m ib (ts, l) = Some (hash_insert n p ?ts, l)"
    using p t by (simp add: tile_extend_def)
  have f: "find_name ?ts = find_name ts" by (rule find_name_set_head [OF assms(1) t(2)]) (simp add: t)
  show thesis
    by (rule that [OF e t(4)]) (use s i f in \<open>simp_all add: hash_insert_def set_head_def\<close>)
qed

lemma fresh_not_listed:
  assumes "tiles_wf ts" "fresh_address al"
  shows "ts_heads ts (al (ts_heads ts)) = None" "map_of (tile_hash ts) n \<noteq> Some (al (ts_heads ts))"
proof -
  show f: "ts_heads ts (al (ts_heads ts)) = None" using assms by (simp add: tiles_wf_def fresh_address_def)
  show "map_of (tile_hash ts) n \<noteq> Some (al (ts_heads ts))" using f tiles_wfD [OF assms(1), of n] by force
qed

lemma tile_extend_new:
  assumes wf: "tiles_wf ts" and none: "find_name ts m = None" and al: "fresh_address al"
  obtains ts' where "tile_extend al junk m ib (ts, l) = Some (ts', l @ [m])"
    "heads_of ts' = (heads_of ts)(m \<mapsto> (new_head m junk)\<lparr>th_total_size := item_size ib\<rparr>)"
    "tiles_wf ts'" "find_name ts' = (find_name ts)(m \<mapsto> m)" "tile_hash2 ts' = None \<longleftrightarrow> tile_hash2 ts = None"
proof -
  let ?p = "al (ts_heads ts)"
  let ?th = "(new_head m junk)\<lparr>th_total_size := item_size ib\<rparr>"
  note fr = fresh_not_listed [OF wf al]
  have ft: "find_tile ts m = None" using none find_name_None [OF wf] by simp
  then have hm: "map_of (tile_hash ts) m = None" by (simp add: find_tile_def split: option.splits)
  let ?ts = "ts\<lparr>ts_heads := (ts_heads ts)(?p \<mapsto> ?th), tile_hash := AList.update m ?p (tile_hash ts),
    tile_hash2 := map_option (AList.update m ?p) (tile_hash2 ts)\<rparr>"
  have h: "map_of (tile_hash ?ts) = (map_of (tile_hash ts))(m \<mapsto> ?p)" by (simp add: update_conv')
  have e: "tile_extend al junk m ib (ts, l) = Some (?ts, l @ [m])"
    using ft by (simp add: tile_extend_def set_head_def hash_insert_def new_head_def Let_def)
  have hd: "heads_of ?ts = (heads_of ts)(m \<mapsto> ?th)"
  proof (rule ext)
    fix n
    show "heads_of ?ts n = ((heads_of ts)(m \<mapsto> ?th)) n"
      using fr(2) [of n] by (cases "map_of (tile_hash ts) n") (auto simp: heads_of_def update_conv')
  qed
  have ran: "ran (map_of (tile_hash ?ts)) = insert ?p (ran (map_of (tile_hash ts)))"
    unfolding h using hm by (simp add: ran_map_upd)
  have w: "tiles_wf ?ts"
    unfolding tiles_wf_def
  proof (intro conjI allI impI)
    show "finite (dom (ts_heads ?ts))" using wf by (simp add: tiles_wf_def)
    show "distinct (map fst (tile_hash ?ts))" using wf by (simp add: tiles_wf_def distinct_update)
    show "\<exists>th. ts_heads ?ts q = Some th \<and> th_name th = n" if "map_of (tile_hash ?ts) n = Some q" for n q
      using that fr wf unfolding h tiles_wf_def by (cases "n = m") (auto simp: new_head_def)
    show "q \<in> ran (map_of (tile_hash ?ts))" if "tile_hash2 ?ts = Some g" "map_of g n = Some q" for g n q
      using that wf unfolding ran tiles_wf_def by (auto simp: update_conv' split: if_splits)
  qed
  have ne: "find_tile ts n \<noteq> Some ?p" for n using find_tile_listed [OF wf, of n ?p] fr(1) by force
  have t: "find_tile ?ts n = (if n = m then Some ?p else find_tile ts n)" for n
    using hm by (cases "tile_hash2 ts") (auto simp: find_tile_def hash2_lookup_def update_conv' split: option.split)
  have f: "find_name ?ts = (find_name ts)(m \<mapsto> m)"
  proof (rule ext)
    fix n
    show "find_name ?ts n = ((find_name ts)(m \<mapsto> m)) n"
    proof (cases "find_tile ts n")
      case (Some q)
      then have "q \<noteq> ?p" using ne by auto
      then show ?thesis using Some t by (simp add: find_name_def)
    qed (simp add: find_name_def t)
  qed
  show thesis by (rule that [OF e hd w f]) simp
qed

definition merged_head :: "tile_head \<Rightarrow> tile_head \<Rightarrow> tile_head" where
  "merged_head thb ths = thb\<lparr>th_subtiles := th_subtiles thb @ th_subtiles ths,
     th_total_size := th_total_size thb + th_total_size ths\<rparr>"

definition merge_heads :: "string \<Rightarrow> string \<Rightarrow> (string \<rightharpoonup> tile_head) \<Rightarrow> nat \<times> (string \<rightharpoonup> tile_head)" where
  "merge_heads base sub H =
     (case H sub of
        None \<Rightarrow> (0, H)
      | Some ths \<Rightarrow>
          (1, case H base of
                None \<Rightarrow> H(sub := None, base \<mapsto> ths\<lparr>th_name := base\<rparr>)
              | Some thb \<Rightarrow> H(sub := None, base \<mapsto> merged_head thb ths)))"

lemma map_of_delete: "map_of (AList.delete k xs) = (map_of xs)(k := None)"
  by (rule ext) (simp add: delete_conv')

lemma merge_tile_refines:
  assumes wf: "tiles_wf ts" and h2: "tile_hash2 ts = None" and ne: "base \<noteq> sub" and re: "realloc_ok re"
  obtains ts' where "merge_tile re base sub ts = Some (fst (merge_heads base sub (heads_of ts)), ts')"
    "heads_of ts' = snd (merge_heads base sub (heads_of ts))" "tiles_wf ts'" "tile_hash2 ts' = None"
proof (cases "map_of (tile_hash ts) sub")
  case None
  then have "heads_of ts sub = None" by (simp add: heads_of_def)
  then show thesis using None wf h2 by (intro that [of ts]) (simp_all add: merge_tile_def merge_heads_def)
next
  case (Some ps)
  obtain ths where s: "ts_heads ts ps = Some ths" "th_name ths = sub" "heads_of ts sub = Some ths"
    by (rule tiles_wfD [OF wf Some])
  have other: "q \<noteq> ps" if "map_of (tile_hash ts) n = Some q" "n \<noteq> sub" for n q
    using hash_inj [OF wf Some] that by blast
  show thesis
  proof (cases "map_of (tile_hash ts) base")
    case None
    let ?ts = "ts\<lparr>ts_heads := (ts_heads ts)(ps \<mapsto> ths\<lparr>th_name := base\<rparr>),
      tile_hash := AList.update base ps (AList.delete sub (tile_hash ts))\<rparr>"
    have hb: "heads_of ts base = None" using None by (simp add: heads_of_def)
    have m: "map_of (tile_hash ?ts) = (map_of (tile_hash ts))(sub := None, base \<mapsto> ps)"
      by (simp add: update_conv' map_of_delete)
    have e: "merge_tile re base sub ts = Some (1, ?ts)"
      using Some s None by (simp add: merge_tile_def set_head_def hash_insert_def Let_def)
    have "heads_of ?ts = (heads_of ts)(sub := None, base \<mapsto> ths\<lparr>th_name := base\<rparr>)"
    proof (rule ext)
      fix n
      show "heads_of ?ts n = ((heads_of ts)(sub := None, base \<mapsto> ths\<lparr>th_name := base\<rparr>)) n"
        using ne other [of n] by (cases "map_of (tile_hash ts) n") (auto simp: heads_of_def update_conv' map_of_delete)
    qed
    moreover have "tiles_wf ?ts"
      using wf h2 other unfolding tiles_wf_def m
      by (auto simp: distinct_update distinct_delete)
    ultimately show thesis using e s hb h2 by (intro that [of ?ts]) (simp_all add: merge_heads_def)
  next
    case (Some pb)
    obtain thb where b: "ts_heads ts pb = Some thb" "th_name thb = base" "heads_of ts base = Some thb"
      by (rule tiles_wfD [OF wf Some])
    have pp: "pb \<noteq> ps" using other [OF Some ne] .
    have otherb: "q \<noteq> pb" if "map_of (tile_hash ts) n = Some q" "n \<noteq> base" for n q
      using hash_inj [OF wf Some] that by blast
    let ?p = "re (ts_heads ts) pb"
    have rp: "?p = pb \<or> ts_heads ts ?p = None" using re [unfolded realloc_ok_def, rule_format] .
    have otherp: "q \<noteq> ?p" if q: "map_of (tile_hash ts) n = Some q" "n \<noteq> base" for n q
    proof (cases "?p = pb")
      case True then show ?thesis using otherb q by metis
    next
      case False
      obtain t where "ts_heads ts q = Some t" using tiles_wfD [OF wf q(1)] .
      then show ?thesis using rp False by auto
    qed
    have ps: "?p \<noteq> ps" using otherp [OF \<open>map_of (tile_hash ts) sub = Some ps\<close>] ne by metis
    let ?ts = "ts\<lparr>ts_heads := (ts_heads ts)(pb := None, ?p \<mapsto> merged_head thb ths, ps := None),
      tile_hash := AList.delete sub (AList.update base ?p (tile_hash ts))\<rparr>"
    have m: "map_of (tile_hash ?ts) = (map_of (tile_hash ts))(sub := None, base \<mapsto> ?p)"
      using ne by (auto simp: update_conv' map_of_delete fun_eq_iff)
    have e: "merge_tile re base sub ts = Some (1, ?ts)"
      using \<open>map_of (tile_hash ts) sub = Some ps\<close> s Some b
      by (simp add: merge_tile_def hash_insert_def merged_head_def Let_def)
    have "heads_of ?ts = (heads_of ts)(sub := None, base \<mapsto> merged_head thb ths)"
    proof (rule ext)
      fix n
      show "heads_of ?ts n = ((heads_of ts)(sub := None, base \<mapsto> merged_head thb ths)) n"
        using ne ps other [of n] otherb [of n] otherp [of n]
        by (cases "map_of (tile_hash ts) n") (auto simp: heads_of_def update_conv' map_of_delete)
    qed
    moreover have "\<exists>t. ts_heads ?ts q = Some t \<and> th_name t = n" if q: "map_of (tile_hash ?ts) n = Some q" for n q
    proof (cases "n = base")
      case True
      then show ?thesis using q ps b(2) unfolding m by (simp add: merged_head_def)
    next
      case False
      then have "n \<noteq> sub" "map_of (tile_hash ts) n = Some q" using q unfolding m by (auto split: if_splits)
      moreover from this obtain t where "ts_heads ts q = Some t" "th_name t = n" using tiles_wfD [OF wf] by metis
      ultimately show ?thesis using False other [of n q] otherb [of n q] otherp [of n q] by simp
    qed
    then have "tiles_wf ?ts"
      using wf h2 unfolding tiles_wf_def by (simp add: distinct_update distinct_delete)
    ultimately show thesis using e s b h2 by (intro that [of ?ts]) (simp_all add: merge_heads_def)
  qed
qed

section \<open>Accounting in the first pass\<close>

definition sized :: "(string \<Rightarrow> bool) \<Rightarrow> (string \<times> int list) list \<Rightarrow> int" where
  "sized P xs = sum_list (map (\<lambda>(m, ib). if P m then item_size ib else 0) xs)"

lemma sized_simps [simp]:
  "sized P [] = 0" "sized P (x # xs) = (if P (fst x) then item_size (snd x) else 0) + sized P xs"
  "sized P (xs @ ys) = sized P xs + sized P ys"
  by (auto simp: sized_def split: prod.split)

lemma sized_nonneg: "0 \<le> sized P xs"
  by (induction xs) (auto simp: item_size_def)

lemma sized_cong: "(\<And>m. m \<in> fst ` set xs \<Longrightarrow> P m = Q m) \<Longrightarrow> sized P xs = sized Q xs"
  by (induction xs) auto

lemma sized_disj: "(\<And>m. \<not> (P m \<and> Q m)) \<Longrightarrow> sized (\<lambda>m. P m \<or> Q m) xs = sized P xs + sized Q xs"
  by (induction xs) auto

lemma sized_none: "(\<And>m. m \<in> fst ` set xs \<Longrightarrow> \<not> P m) \<Longrightarrow> sized P xs = 0"
  by (induction xs) auto

definition holds :: "tile_head \<Rightarrow> string \<Rightarrow> bool" where
  "holds th m \<longleftrightarrow> m \<in> set (th_subtiles th)"

definition accounted :: "(string \<times> int list) list \<Rightarrow> (string \<rightharpoonup> tile_head) \<Rightarrow> bool" where
  "accounted xs H \<longleftrightarrow>
     (\<forall>n th. H n = Some th \<longrightarrow> th_total_size th = sized (holds th) xs \<and> th_total_size_used th = 0)
     \<and> (\<forall>n n' th th' m. H n = Some th \<longrightarrow> H n' = Some th' \<longrightarrow> holds th m \<longrightarrow> holds th' m \<longrightarrow> n = n')
     \<and> (\<forall>m \<in> fst ` set xs. \<exists>n th. H n = Some th \<and> holds th m)"

lemma accountedD:
  assumes "accounted xs H"
  shows "H n = Some th \<Longrightarrow> th_total_size th = sized (holds th) xs" "H n = Some th \<Longrightarrow> th_total_size_used th = 0"
    "H n = Some th \<Longrightarrow> H n' = Some th' \<Longrightarrow> holds th m \<Longrightarrow> holds th' m \<Longrightarrow> n = n'"
    "(m, ib) \<in> set xs \<Longrightarrow> \<exists>n th. H n = Some th \<and> holds th m"
  using assms unfolding accounted_def by (blast, blast, blast, force)

lemma merge_accounted:
  assumes a: "accounted xs H" and ne: "base \<noteq> sub"
  shows "accounted xs (snd (merge_heads base sub H))"
proof (cases "H sub")
  case (Some ths)
  note A = accountedD [OF a]
  show ?thesis
  proof (cases "H base")
    case None
    let ?H = "H(sub := None, base \<mapsto> ths\<lparr>th_name := base\<rparr>)"
    have g: "holds (ths\<lparr>th_name := base\<rparr>) = holds ths" by (simp add: holds_def fun_eq_iff)
    have "accounted xs ?H"
      unfolding accounted_def
    proof (intro conjI allI impI ballI)
      show "th_total_size th = sized (holds th) xs" if "?H n = Some th" for n th
        using that Some A(1) [of sub ths] A(1) [of n th] g by (auto split: if_splits)
      show "th_total_size_used th = 0" if "?H n = Some th" for n th
        using that Some A(2) [of sub ths] A(2) [of n th] by (auto split: if_splits)
      show "n = n'" if "?H n = Some th" "?H n' = Some th'" "holds th m" "holds th' m" for n n' th th' m
        using that Some A(3) [of sub ths n' th' m] A(3) [of n th sub ths m] A(3) [of n th n' th' m] g
        by (auto split: if_splits)
      show "\<exists>n th. ?H n = Some th \<and> holds th m" if m: "m \<in> fst ` set xs" for m
      proof -
        obtain n th where n: "H n = Some th" "holds th m" using m A(4) by force
        show ?thesis
        proof (cases "n = sub")
          case True
          then show ?thesis using n Some g by (intro exI [of _ base]) auto
        next
          case False
          then show ?thesis using n None by (intro exI [of _ n]) auto
        qed
      qed
    qed
    then show ?thesis using Some None by (simp add: merge_heads_def)
  next
    case (Some thb)
    let ?t = "merged_head thb ths"
    let ?H = "H(sub := None, base \<mapsto> ?t)"
    note S = \<open>H sub = Some ths\<close>
    have g: "holds ?t m \<longleftrightarrow> holds thb m \<or> holds ths m" for m by (auto simp: holds_def merged_head_def)
    have "sized (holds ?t) xs = sized (holds thb) xs + sized (holds ths) xs"
    proof -
      have "holds ?t = (\<lambda>m. holds thb m \<or> holds ths m)" by (rule ext) (rule g)
      moreover have "\<not> (holds thb m \<and> holds ths m)" for m using A(3) [OF Some S, of m] ne by blast
      ultimately show ?thesis using sized_disj [of "holds thb" "holds ths" xs] by simp
    qed
    then have t: "th_total_size ?t = sized (holds ?t) xs" "th_total_size_used ?t = 0"
      using A(1,2) [OF Some] A(1) [OF S] by (simp_all add: merged_head_def)
    have "accounted xs ?H"
      unfolding accounted_def
    proof (intro conjI allI impI ballI)
      show "th_total_size th = sized (holds th) xs" "th_total_size_used th = 0" if "?H n = Some th" for n th
        using that t A(1,2) [of n th] by (auto split: if_splits)
      show "n = n'" if "?H n = Some th" "?H n' = Some th'" "holds th m" "holds th' m" for n n' th th' m
      proof -
        have o: "H k = Some t \<Longrightarrow> holds t m \<Longrightarrow> holds ?t m \<Longrightarrow> k = base \<or> k = sub" for k t
          using g [of m] A(3) [OF Some, of k t m] A(3) [OF S, of k t m] by blast
        have r: "H k = Some t" "k \<noteq> sub" if "?H k = Some t" "k \<noteq> base" for k t
          using that by (auto split: if_splits)
        show ?thesis
        proof (cases "n = base")
          case True
          then have "th = ?t" using that by simp
          then show ?thesis using True that r [of n' th'] o [of n' th'] by metis
        next
          case False
          then show ?thesis using that r [of n th] r [of n' th'] o [of n th] A(3) [of n th n' th' m]
            by (cases "n' = base") (metis fun_upd_same option.inject, metis)
        qed
      qed
      show "\<exists>n th. ?H n = Some th \<and> holds th m" if m: "m \<in> fst ` set xs" for m
      proof -
        obtain n th where n: "H n = Some th" "holds th m" using m A(4) by force
        show ?thesis
        proof (cases "n = sub \<or> n = base")
          case True
          then show ?thesis using n Some S g by (intro exI [of _ base]) auto
        next
          case False
          then show ?thesis using n by (intro exI [of _ n]) auto
        qed
      qed
    qed
    then show ?thesis using S Some by (simp add: merge_heads_def)
  qed
qed (simp add: merge_heads_def assms)

section \<open>Merging ends\<close>

text \<open>Tile names are letters with the suffix of the map, which does not start with one of the letters.\<close>

definition named :: "string \<Rightarrow> string \<Rightarrow> bool" where
  "named suffix n \<longleftrightarrow> (\<exists>s. set s \<subseteq> set ''abcd'' \<and> n = s @ suffix)"

lemma tile_len_abcd: "tile_len suffix = 0 \<Longrightarrow> set s \<subseteq> set ''abcd'' \<Longrightarrow> tile_len (s @ suffix) = length s"
  by (induction s) auto

lemma letter:
  assumes "(i :: nat) < 4"
  shows "char_of (97 + i) \<in> set ''abcd''"
proof -
  from assms
  have "i = 0 \<or> i = 1 \<or> i = 2 \<or> i = 3" by arith
  then show ?thesis by (elim disjE; hypsubst; code_simp)
qed

lemma named_names:
  assumes "named suffix n" "tile_len suffix = 0" "1 \<le> tile_len n"
  shows "named suffix (basetile suffix n)" "Suc (length (basetile suffix n)) = length n"
    "i < 4 \<Longrightarrow> named suffix (subtile n i)" "length (subtile n i) = length n"
proof -
  obtain s where s: "set s \<subseteq> set ''abcd''" "n = s @ suffix" using assms(1) by (auto simp: named_def)
  have l: "tile_len n = length s" using tile_len_abcd [OF assms(2) s(1)] s(2) by simp
  then have ne: "s \<noteq> []" using assms(3) by auto
  have b: "basetile suffix n = take (length s - 1) s @ suffix" using l s(2) by (simp add: basetile_def)
  show "named suffix (basetile suffix n)"
    unfolding named_def b using s(1) by (intro exI [of _ "take (length s - 1) s"]) (auto dest: in_set_takeD)
  show "Suc (length (basetile suffix n)) = length n" unfolding b using s(2) ne by simp
  show "length (subtile n i) = length n" by (simp add: subtile_def)
  assume i: "i < 4"
  have "subtile n i = s[length s - 1 := char_of (97 + i)] @ suffix"
    unfolding subtile_def l unfolding s(2) using ne by (simp add: list_update_append)
  then show "named suffix (subtile n i)"
    unfolding named_def using s(1) letter [OF i] set_update_subset_insert [of s "length s - 1" "char_of (97 + i)"]
    by (intro exI [of _ "s[length s - 1 := char_of (97 + i)]"]) blast
qed

definition weight :: "(string \<rightharpoonup> tile_head) \<Rightarrow> nat" where
  "weight H = (\<Sum>n \<in> dom H. Suc (length n))"

lemma merge_weight:
  assumes "finite (dom H)" "Suc (length base) = length sub"
  shows "weight (snd (merge_heads base sub H)) + fst (merge_heads base sub H) \<le> weight H"
    "dom (snd (merge_heads base sub H)) \<subseteq> insert base (dom H)" "finite (dom (snd (merge_heads base sub H)))"
proof -
  have ne: "base \<noteq> sub" using assms(2) by auto
  have r: "(\<Sum>n \<in> dom H - {sub}. Suc (length n)) + Suc (length sub) = weight H" if "H sub \<noteq> None"
    using that assms(1) sum.remove [of "dom H" sub "\<lambda>n. Suc (length n)"] by (auto simp: weight_def dom_def)
  show "weight (snd (merge_heads base sub H)) + fst (merge_heads base sub H) \<le> weight H"
  proof (cases "H sub")
    case (Some ths)
    show ?thesis
    proof (cases "H base")
      case None
      then have "dom (snd (merge_heads base sub H)) = insert base (dom H - {sub})" "base \<notin> dom H - {sub}"
        using Some ne by (auto simp: merge_heads_def)
      then show ?thesis using r Some assms by (simp add: weight_def merge_heads_def None)
    next
      case b: (Some thb)
      then have "dom (snd (merge_heads base sub H)) = dom H - {sub}"
        using Some ne by (auto simp: merge_heads_def)
      then show ?thesis using r Some assms by (simp add: weight_def merge_heads_def b)
    qed
  qed (simp add: merge_heads_def)
  show "dom (snd (merge_heads base sub H)) \<subseteq> insert base (dom H)"
    by (auto simp: merge_heads_def split: option.splits if_splits)
  then show "finite (dom (snd (merge_heads base sub H)))" using assms(1) finite_subset by blast
qed

text \<open>What every part of \<open>merge_tiles\<close> does to the tiles and to the count of merges.\<close>

definition merging :: "(string \<times> int list) list \<Rightarrow> string \<Rightarrow> tiles \<Rightarrow> bool" where
  "merging xs suffix ts \<longleftrightarrow> tiles_wf ts \<and> tile_hash2 ts = None \<and> accounted xs (heads_of ts)
     \<and> finite (dom (heads_of ts)) \<and> (\<forall>n \<in> dom (heads_of ts). named suffix n)"

definition merges :: "(string \<times> int list) list \<Rightarrow> string \<Rightarrow> nat \<times> tiles \<Rightarrow> nat \<times> tiles \<Rightarrow> bool" where
  "merges xs suffix r r' \<longleftrightarrow> merging xs suffix (snd r') \<and> fst r \<le> fst r'
     \<and> weight (heads_of (snd r')) + fst r' \<le> weight (heads_of (snd r)) + fst r"

lemma merges_refl: "merging xs suffix ts \<Longrightarrow> merges xs suffix (w, ts) (w, ts)"
  by (simp add: merges_def)

lemma merges_trans: "merges xs suffix q r \<Longrightarrow> merges xs suffix r s \<Longrightarrow> merges xs suffix q s"
  by (auto simp: merges_def)

lemma merge_tile_merges:
  assumes "merging xs suffix ts" "realloc_ok re" "Suc (length base) = length sub" "named suffix base"
  obtains k ts' where "merge_tile re base sub ts = Some (k, ts')" "merges xs suffix (w, ts) (w + k, ts')"
proof -
  have ne: "base \<noteq> sub" using assms(3) by auto
  have m: "tiles_wf ts" "tile_hash2 ts = None" "accounted xs (heads_of ts)" "finite (dom (heads_of ts))"
    "\<forall>n \<in> dom (heads_of ts). named suffix n" using assms(1) by (auto simp: merging_def)
  obtain ts' where t: "merge_tile re base sub ts = Some (fst (merge_heads base sub (heads_of ts)), ts')"
    "heads_of ts' = snd (merge_heads base sub (heads_of ts))" "tiles_wf ts'" "tile_hash2 ts' = None"
    by (rule merge_tile_refines [OF m(1,2) ne assms(2)])
  note w = merge_weight [OF m(4) assms(3)]
  have "merging xs suffix ts'"
    unfolding merging_def t(2) using t(3,4) merge_accounted [OF m(3) ne] w(2,3) m(5) assms(4) by auto
  then show thesis using t(1) w(1) by (intro that [OF t(1)]) (simp add: merges_def t(2))
qed

lemma merge_all_merges:
  assumes "merging xs suffix ts" "realloc_ok re" "\<forall>n \<in> set subs. Suc (length base) = length n" "named suffix base"
  shows "\<exists>r. merge_all re base subs (w, ts) = Some r \<and> merges xs suffix (w, ts) r"
  using assms
proof (induction subs arbitrary: w ts)
  case (Cons n subs)
  obtain k ts' where t: "merge_tile re base n ts = Some (k, ts')" "merges xs suffix (w, ts) (w + k, ts')"
    using merge_tile_merges [OF Cons.prems(1,2) _ Cons.prems(4), of n w] Cons.prems(3) by auto
  then have "merging xs suffix ts'" by (simp add: merges_def)
  from Cons.IH [OF this Cons.prems(2) _ Cons.prems(4), of "w + k"] Cons.prems(3)
  show ?case using t merges_trans [OF t(2)] by auto
qed (auto intro: merges_refl)

lemma find_min_Some:
  assumes "find_min sizes size_all = Some i"
  shows "i < 4" "sizes ! i \<noteq> 0"
  using assms by (simp_all add: find_min_def upt_rec split: if_splits)

lemma merge_smallest_merges:
  assumes "merging xs suffix ts" "realloc_ok re" "1 \<le> tile_len n" "named suffix n" "tile_len suffix = 0"
    "length sizes = 4" "card {i. i < 4 \<and> sizes ! i \<noteq> 0} < fuel"
  shows "\<exists>r. merge_smallest fuel re (basetile suffix n) n size_all sizes size4 (w, ts) = Some r
    \<and> merges xs suffix (w, ts) r"
  using assms
proof (induction fuel arbitrary: sizes size4 w ts)
  case (Suc fuel)
  note nm = named_names [OF Suc.prems(4,5,3)]
  show ?case
  proof (cases "find_min sizes size_all")
    case None
    then show ?thesis using Suc.prems(1) by (auto intro: merges_refl)
  next
    case (Some i)
    note i = find_min_Some [OF Some]
    have len: "Suc (length (basetile suffix n)) = length (subtile n i)" using nm(2) nm(4) [of i] by simp
    obtain k ts' where t: "merge_tile re (basetile suffix n) (subtile n i) ts = Some (k, ts')"
      "merges xs suffix (w, ts) (w + k, ts')" by (rule merge_tile_merges [OF Suc.prems(1,2) len nm(1)])
    then have m: "merging xs suffix ts'" by (simp add: merges_def)
    have "{j. j < 4 \<and> sizes[i := 0] ! j \<noteq> 0} = {j. j < 4 \<and> sizes ! j \<noteq> 0} - {i}"
      using Suc.prems(6) i(1) by (auto simp: nth_list_update split: if_splits)
    moreover have "i \<in> {j. j < 4 \<and> sizes ! j \<noteq> 0}" using i by simp
    ultimately have c: "card {j. j < 4 \<and> sizes[i := 0] ! j \<noteq> 0} < fuel"
      using Suc.prems(7) card_Diff1_less [of "{j. j < 4 \<and> sizes ! j \<noteq> 0}" i] by simp
    have l: "length (sizes[i := 0]) = 4" using Suc.prems(6) by simp
    obtain r where "merge_smallest fuel re (basetile suffix n) n size_all (sizes[i := 0]) (size4 + sizes ! i) (w + k, ts') = Some r"
      "merges xs suffix (w + k, ts') r"
      using Suc.IH [OF m Suc.prems(2-5) l c] by blast
    then show ?thesis using Some t merges_trans [OF t(2)] merges_refl [OF Suc.prems(1)] by (cases r) auto
  qed
qed simp

lemma data_size_Some: "merging xs suffix ts \<Longrightarrow> \<exists>k. tile_data_size ts n = Some k"
  by (auto simp: tile_data_size_def merging_def split: option.split) (metis tiles_wfD option.simps(3))

lemma sizes_of_Some: "merging xs suffix ts \<Longrightarrow> \<exists>ss. sizes_of ts ns = Some ss \<and> length ss = length ns"
proof (induction ns)
  case (Cons n ns)
  then show ?case using data_size_Some [OF Cons.prems, of n] by auto
qed simp

lemma merge_name_merges:
  assumes "merging xs suffix ts" "realloc_ok re" "named suffix n" "tile_len suffix = 0"
  shows "\<exists>r. merge_name re suffix n (w, ts) = Some r \<and> merges xs suffix (w, ts) r"
proof (cases "1 \<le> tile_len n")
  case True
  note nm = named_names [OF assms(3,4) True]
  let ?subs = "map (subtile n) [0..<4]"
  obtain sizes where s: "sizes_of ts ?subs = Some sizes" "length sizes = 4"
    using sizes_of_Some [OF assms(1), of ?subs] by auto
  obtain size4 where z: "tile_data_size ts (basetile suffix n) = Some size4" using data_size_Some [OF assms(1)] by blast
  have all: "\<exists>r. merge_all re (basetile suffix n) ?subs (w, ts) = Some r \<and> merges xs suffix (w, ts) r"
    by (rule merge_all_merges [OF assms(1,2) _ nm(1)]) (use nm(2,4) in auto)
  have "card {i. i < 4 \<and> sizes ! i \<noteq> 0} \<le> card {..<4::nat}" by (intro card_mono) auto
  then have "card {i. i < 4 \<and> sizes ! i \<noteq> 0} < 5" by simp
  then have small: "\<exists>r. merge_smallest 5 re (basetile suffix n) n (sum_list sizes + size4) sizes size4 (w, ts) = Some r
      \<and> merges xs suffix (w, ts) r"
    by (rule merge_smallest_merges [OF assms(1,2) True assms(3,4) s(2)])
  show ?thesis using True s z all small by (simp add: merge_name_def Let_def)
qed (use assms(1) in \<open>auto simp: merge_name_def intro: merges_refl\<close>)

lemma merge_pass_merges:
  assumes "merging xs suffix ts" "realloc_ok re" "\<forall>n \<in> set ns. named suffix n" "tile_len suffix = 0"
  shows "\<exists>r. merge_pass re suffix ns (w, ts) = Some r \<and> merges xs suffix (w, ts) r"
  using assms
proof (induction ns arbitrary: w ts)
  case (Cons n ns)
  obtain w' ts' where t: "merge_name re suffix n (w, ts) = Some (w', ts')" "merges xs suffix (w, ts) (w', ts')"
    using merge_name_merges [OF Cons.prems(1,2) _ Cons.prems(4), of n w] Cons.prems(3) by auto
  then have "merging xs suffix ts'" by (simp add: merges_def)
  from Cons.IH [OF this Cons.prems(2) _ Cons.prems(4), of w'] Cons.prems(3)
  show ?case using t merges_trans [OF t(2)] by auto
qed (auto intro: merges_refl)

text \<open>A pass that merged something made the names lighter, so \<open>merge_tiles\<close> comes to an end.\<close>

lemma merge_tiles_returns:
  assumes "merging xs suffix ts" "realloc_ok re" "tile_len suffix = 0"
  shows "\<exists>ts'. merge_tiles re suffix ts = Some ts' \<and> merging xs suffix ts'"
  using assms(1)
proof (induction "weight (heads_of ts)" arbitrary: ts rule: less_induct)
  case less
  have "\<forall>n \<in> set (rev (get_tiles_list ts)). named suffix n"
  proof
    fix n assume "n \<in> set (rev (get_tiles_list ts))"
    then have "map_of (tile_hash ts) n \<noteq> None" by (simp add: get_tiles_list_def map_of_eq_None_iff)
    then have "n \<in> dom (heads_of ts)" using less.prems heads_of_None [of ts n] by (auto simp: merging_def)
    then show "named suffix n" using less.prems by (simp add: merging_def)
  qed
  from merge_pass_merges [OF less.prems assms(2) this assms(3), of 0]
  obtain w ts' where t: "merge_pass re suffix (rev (get_tiles_list ts)) (0, ts) = Some (w, ts')"
    "merges xs suffix (0, ts) (w, ts')" by auto
  have m: "merging xs suffix ts'" "weight (heads_of ts') + w \<le> weight (heads_of ts)"
    using t(2) by (auto simp: merges_def)
  show ?case
  proof (cases "w = 0")
    case True
    then show ?thesis using t m by (subst merge_tiles.simps) simp
  next
    case False
    then show ?thesis using less.hyps [OF _ m(1)] t m(2) by (subst merge_tiles.simps) simp
  qed
qed

section \<open>The first pass\<close>

definition unmerged :: "tiles \<Rightarrow> bool" where
  "unmerged ts \<longleftrightarrow> (\<forall>n th. heads_of ts n = Some th \<longrightarrow> th_subtiles th = [n])"

lemma unmerged_find: "tiles_wf ts \<Longrightarrow> tile_hash2 ts = None \<Longrightarrow> find_name ts m = (if heads_of ts m = None then None else Some m)"
  using heads_of_None [of ts m]
  by (auto simp: find_name_def find_tile_def hash2_lookup_def heads_of_def split: option.splits bind_splits)
    (metis tiles_wfD option.inject)

lemma extend_merging:
  assumes m: "merging xs suffix ts" and u: "unmerged ts" and n: "named suffix n" and al: "fresh_address al"
  shows "\<exists>ts' l'. tile_extend al junk n ib (ts, l) = Some (ts', l') \<and> merging (xs @ [(n, ib)]) suffix ts' \<and> unmerged ts'"
proof -
  have wf: "tiles_wf ts" "tile_hash2 ts = None" "accounted xs (heads_of ts)" "finite (dom (heads_of ts))"
    "\<forall>n \<in> dom (heads_of ts). named suffix n" using m by (auto simp: merging_def)
  note A = accountedD [OF wf(3)]
  have own: "holds th k \<longleftrightarrow> k = j" if "heads_of ts j = Some th" for j k th
    using u that by (simp add: unmerged_def holds_def)
  obtain ts' l' th where t: "tile_extend al junk n ib (ts, l) = Some (ts', l')" "tiles_wf ts'" "tile_hash2 ts' = None"
    "heads_of ts' = (heads_of ts)(n \<mapsto> th)" "th_subtiles th = [n]" "th_total_size_used th = 0"
    "th_total_size th = sized (\<lambda>k. k = n) (xs @ [(n, ib)])"
  proof (cases "heads_of ts n")
    case None
    have f: "find_name ts n = None" using unmerged_find [OF wf(1,2)] None by simp
    have z: "sized (\<lambda>k. k = n) xs = 0"
    proof (rule sized_none)
      fix k assume "k \<in> fst ` set xs"
      then obtain j th where "heads_of ts j = Some th" "holds th k" using A(4) by force
      then show "k \<noteq> n" using own None by auto
    qed
    show thesis
      by (rule tile_extend_new [OF wf(1) f al, where junk = junk and ib = ib and l = l], rule that)
        (use z wf(2) in auto)
  next
    case (Some th0)
    have f: "find_name ts n = Some n" using unmerged_find [OF wf(1,2)] Some by simp
    have z: "sized (holds th0) xs = sized (\<lambda>k. k = n) xs" using own [OF Some] by (intro sized_cong) simp
    have sub: "th_subtiles th0 = [n]" using u Some by (simp add: unmerged_def)
    obtain ts1 where e: "tile_extend al junk n ib (ts, l) = Some (ts1, l)"
      "heads_of ts1 = (heads_of ts)(n \<mapsto> th0\<lparr>th_total_size := th_total_size th0 + item_size ib\<rparr>)"
      "tiles_wf ts1" "tile_hash2 ts1 = None"
      using tile_extend_found [OF wf(1) f, where al = al and junk = junk and ib = ib and l = l] Some wf(2)
      by (metis option.inject)
    show thesis by (rule that [OF e(1,3,4,2)]) (use z sub A(1,2) [OF Some] in auto)
  qed
  have u': "unmerged ts'" using u t(4,5) by (simp add: unmerged_def)
  have h: "holds th' k \<longleftrightarrow> k = j" if "heads_of ts' j = Some th'" for j k th'
    using u' that by (simp add: unmerged_def holds_def)
  have s: "sized (holds th') (xs @ [(n, ib)]) = sized (\<lambda>k. k = j) (xs @ [(n, ib)])" if "heads_of ts' j = Some th'" for j th'
    using h [OF that] by (intro sized_cong) simp
  have "accounted (xs @ [(n, ib)]) (heads_of ts')"
    unfolding accounted_def
  proof (intro conjI allI impI ballI)
    show "th_total_size th' = sized (holds th') (xs @ [(n, ib)])" if "heads_of ts' j = Some th'" for j th'
    proof (cases "j = n")
      case True
      then have "th' = th" using that t(4) by simp
      then show ?thesis unfolding s [OF that] using t(7) True by simp
    next
      case False
      then have "heads_of ts j = Some th'" using that t(4) by simp
      then show ?thesis using A(1) s [OF that] h [OF that] False by simp
    qed
    show "th_total_size_used th' = 0" if "heads_of ts' j = Some th'" for j th'
      using that t(4,6) A(2) [of j th'] by (auto split: if_splits)
    show "j = j'" if "heads_of ts' j = Some th1" "heads_of ts' j' = Some th2" "holds th1 k" "holds th2 k" for j j' th1 th2 k
      using that h by metis
    show "\<exists>j th. heads_of ts' j = Some th \<and> holds th k" if k: "k \<in> fst ` set (xs @ [(n, ib)])" for k
    proof (cases "k = n")
      case True
      then show ?thesis using t(4,5) by (intro exI [of _ n] exI [of _ th]) (simp add: holds_def)
    next
      case False
      then obtain j th1 where "heads_of ts j = Some th1" "holds th1 k" using k A(4) by force
      moreover from this have "j \<noteq> n" using own False by blast
      ultimately show ?thesis using t(4) by (intro exI [of _ j] exI [of _ th1]) simp
    qed
  qed
  then show ?thesis using t u' wf n by (auto simp: merging_def)
qed

lemma extend_all_merging:
  assumes "merging xs suffix ts" "unmerged ts" "\<forall>n \<in> fst ` set ys. named suffix n" "fresh_address al"
  shows "\<exists>ts' l'. extend_all al junk ys (ts, l) = Some (ts', l') \<and> merging (xs @ ys) suffix ts'"
  using assms
proof (induction ys arbitrary: xs ts l)
  case (Cons y ys)
  obtain n ib where y: "y = (n, ib)" by (cases y)
  obtain ts' l' where t: "tile_extend al junk n ib (ts, l) = Some (ts', l')" "merging (xs @ [(n, ib)]) suffix ts'" "unmerged ts'"
    using extend_merging [OF Cons.prems(1,2) _ Cons.prems(4), of n junk ib l] Cons.prems(3) y by auto
  from Cons.IH [OF t(2,3) _ Cons.prems(4), of l'] Cons.prems(3) t(1) y show ?case by simp
qed simp

lemma no_tiles_merging: "merging [] suffix no_tiles" "unmerged no_tiles"
  by (simp_all add: merging_def no_tiles_def tiles_wf_def accounted_def heads_of_def unmerged_def dom_def)

end
