(* ===== verification/Tile_Write_Spec.thy ===== *)
theory Tile_Write_Spec
  imports Tile_Store_Spec
begin

text \<open>
  The second pass over the items: names of merged tiles are found through the second hash table, every
  tile gets exactly the bytes counted before, and the slices of \<open>phase5\<close>.
\<close>

section \<open>The table of merged names\<close>

definition owns :: "tiles \<Rightarrow> string \<Rightarrow> string \<Rightarrow> bool" where
  "owns ts n m \<longleftrightarrow> (\<exists>th. heads_of ts n = Some th \<and> holds th m)"

lemma map_of_add_tile_names:
  "map_of (add_tile_names ns p h) m = (if m \<in> set ns then Some p else map_of h m)"
  by (induction ns arbitrary: h) (auto simp: update_conv')

lemma heads_of_hash2 [simp]: "heads_of (ts\<lparr>tile_hash2 := h\<rparr>) = heads_of ts"
  by (rule ext) (simp add: heads_of_def)

lemma add_tile_list_owned:
  assumes "tiles_wf ts" "\<And>n n' m. owns ts n m \<Longrightarrow> owns ts n' m \<Longrightarrow> n = n'"
    "\<forall>n \<in> set ns. heads_of ts n \<noteq> None"
  shows "\<exists>h'. add_tile_list ns (ts\<lparr>tile_hash2 := Some h\<rparr>) = Some (ts\<lparr>tile_hash2 := Some h'\<rparr>)
    \<and> (\<forall>m. (\<forall>n \<in> set ns. owns ts n m \<longrightarrow> map_of h' m = map_of (tile_hash ts) n)
         \<and> ((\<forall>n \<in> set ns. \<not> owns ts n m) \<longrightarrow> map_of h' m = map_of h m))"
  using assms
proof (induction ns arbitrary: h)
  case (Cons n ns)
  then obtain th p where p: "map_of (tile_hash ts) n = Some p" "ts_heads ts p = Some th" "heads_of ts n = Some th"
    by (metis heads_ofE list.set_intros(1) not_None_eq)
  let ?h = "add_tile_names (th_subtiles th) p h"
  have own: "owns ts n m \<longleftrightarrow> m \<in> set (th_subtiles th)" for m using p by (simp add: owns_def holds_def)
  obtain h' where h': "add_tile_list ns (ts\<lparr>tile_hash2 := Some ?h\<rparr>) = Some (ts\<lparr>tile_hash2 := Some h'\<rparr>)"
    "\<And>k m. k \<in> set ns \<Longrightarrow> owns ts k m \<Longrightarrow> map_of h' m = map_of (tile_hash ts) k"
    "\<And>m. \<forall>k \<in> set ns. \<not> owns ts k m \<Longrightarrow> map_of h' m = map_of ?h m"
    using Cons.IH [of ?h] Cons.prems by auto
  have e: "add_tile_list (n # ns) (ts\<lparr>tile_hash2 := Some h\<rparr>) = Some (ts\<lparr>tile_hash2 := Some h'\<rparr>)"
    using p h'(1) by (simp add: add_tile_hash_def)
  have "map_of h' m = map_of (tile_hash ts) k" if "k \<in> set (n # ns)" "owns ts k m" for k m
  proof (cases "\<exists>j \<in> set ns. owns ts j m")
    case True
    then obtain j where j: "j \<in> set ns" "owns ts j m" by blast
    then have "j = k" using Cons.prems(2) that(2) by blast
    then show ?thesis using h'(2) j by blast
  next
    case False
    then have "k = n" using that by auto
    then show ?thesis using h'(3) [of m] False own that(2) p by (simp add: map_of_add_tile_names)
  qed
  moreover have "map_of h' m = map_of h m" if "\<forall>k \<in> set (n # ns). \<not> owns ts k m" for m
    using that h'(3) [of m] own by (simp add: map_of_add_tile_names)
  ultimately show ?case using e by blast
qed (use exI in auto)

definition located :: "(string \<times> int list) list \<Rightarrow> tiles \<Rightarrow> bool" where
  "located xs ts \<longleftrightarrow> tiles_wf ts \<and> (\<forall>m \<in> fst ` set xs. find_name ts m \<noteq> None)
     \<and> (\<forall>n th. heads_of ts n = Some th \<longrightarrow>
          th_total_size th = sized (\<lambda>m. find_name ts m = Some n) xs \<and> th_total_size_used th = 0)"

lemma create_located:
  assumes m: "merging xs suffix ts"
  shows "\<exists>ts'. create_tile_hash_list (get_tiles_list ts) ts = Some ts' \<and> located xs ts'"
proof -
  have wf: "tiles_wf ts" "accounted xs (heads_of ts)" using m by (auto simp: merging_def)
  note A = accountedD [OF wf(2)]
  have dom: "n \<in> set (get_tiles_list ts) \<longleftrightarrow> heads_of ts n \<noteq> None" for n
    by (simp add: get_tiles_list_def heads_of_None [OF wf(1)] map_of_eq_None_iff)
  have uniq: "n = n'" if "owns ts n k" "owns ts n' k" for n n' k
    using that A(3) unfolding owns_def by blast
  have hn: "\<forall>n \<in> set (get_tiles_list ts). heads_of ts n \<noteq> None" using dom by blast
  have ol: "n \<in> set (get_tiles_list ts)" if "owns ts n k" for n k
    using that unfolding owns_def dom by auto
  obtain h where h: "add_tile_list (get_tiles_list ts) (ts\<lparr>tile_hash2 := Some []\<rparr>) = Some (ts\<lparr>tile_hash2 := Some h\<rparr>)"
    and hk: "\<forall>k. (\<forall>n \<in> set (get_tiles_list ts). owns ts n k \<longrightarrow> map_of h k = map_of (tile_hash ts) n)
         \<and> ((\<forall>n \<in> set (get_tiles_list ts). \<not> owns ts n k) \<longrightarrow> map_of h k = map_of [] k)"
    using add_tile_list_owned [OF wf(1) _ hn, where h = "[]"] uniq by metis
  have own: "map_of h k = map_of (tile_hash ts) n" if "owns ts n k" for n k
    using hk that ol [OF that] by blast
  have none: "map_of h k = None" if "\<forall>n. \<not> owns ts n k" for k
    using hk that by auto
  let ?ts = "ts\<lparr>tile_hash2 := Some h\<rparr>"
  have ran: "p \<in> ran (map_of (tile_hash ts))" if p: "map_of h k = Some p" for k p
  proof -
    obtain n where "owns ts n k" using none [of k] p by auto
    then have "map_of (tile_hash ts) n = Some p" using own p by metis
    then show ?thesis by (auto simp: ran_def)
  qed
  have w: "tiles_wf ?ts" using wf(1) ran by (auto simp: tiles_wf_def)
  have f: "find_name ?ts k = Some n" if "owns ts n k" for n k
  proof -
    obtain th where t: "heads_of ts n = Some th" using \<open>owns ts n k\<close> by (auto simp: owns_def)
    then obtain p where "map_of (tile_hash ts) n = Some p" "ts_heads ts p = Some th" by (rule heads_ofE)
    then show ?thesis
      using own [OF \<open>owns ts n k\<close>] heads_of_name [OF wf(1) t]
      by (simp add: find_name_def find_tile_def hash2_lookup_def)
  qed
  have x: "\<exists>n. owns ts n k" if "k \<in> fst ` set xs" for k using that A(4) unfolding owns_def by force
  have c: "sized (\<lambda>k. find_name ?ts k = Some n) xs = sized (holds th) xs" if t: "heads_of ts n = Some th" for n th
  proof (rule sized_cong)
    fix k assume "k \<in> fst ` set xs"
    then obtain j where j: "owns ts j k" using x by blast
    then have "find_name ?ts k = Some n \<longleftrightarrow> j = n" using f by simp
    also have "\<dots> \<longleftrightarrow> holds th k" using j uniq t unfolding owns_def by (metis option.inject)
    finally show "(find_name ?ts k = Some n) = holds th k" .
  qed
  have "located xs ?ts"
    unfolding located_def heads_of_hash2 using w x f A(1,2) c by (metis option.distinct(1))
  then show ?thesis using h by (simp add: create_tile_hash_list_def)
qed

lemma extend_located:
  assumes l: "located xs ts" and al: "fresh_address al"
  shows "\<exists>ts' l'. tile_extend al junk m ib (ts, l) = Some (ts', l') \<and> located (xs @ [(m, ib)]) ts'"
proof -
  have wf: "tiles_wf ts" "\<And>k. k \<in> fst ` set xs \<Longrightarrow> find_name ts k \<noteq> None"
    "\<And>n th. heads_of ts n = Some th \<Longrightarrow> th_total_size th = sized (\<lambda>k. find_name ts k = Some n) xs"
    "\<And>n th. heads_of ts n = Some th \<Longrightarrow> th_total_size_used th = 0"
    using l unfolding located_def by blast+
  show ?thesis
  proof (cases "find_name ts m")
    case None
    obtain ts' where t: "tile_extend al junk m ib (ts, l) = Some (ts', l @ [m])"
      "heads_of ts' = (heads_of ts)(m \<mapsto> (new_head m junk)\<lparr>th_total_size := item_size ib\<rparr>)"
      "tiles_wf ts'" "find_name ts' = (find_name ts)(m \<mapsto> m)" by (rule tile_extend_new [OF wf(1) None al])
    have nm: "k \<noteq> m" if "k \<in> fst ` set xs" for k using wf(2) [OF that] None by auto
    have old: "sized (\<lambda>k. find_name ts' k = Some n) xs = sized (\<lambda>k. find_name ts k = Some n) xs" for n
      using nm t(4) by (intro sized_cong) auto
    have hm: "heads_of ts m = None"
      using None find_name_None [OF wf(1)] heads_of_None [OF wf(1)] by (simp add: find_tile_def split: option.splits)
    have fm: "find_name ts k \<noteq> Some m" for k
    proof
      assume k: "find_name ts k = Some m"
      then obtain p where "find_tile ts k = Some p" using find_name_None [OF wf(1), of k] by (cases "find_tile ts k") auto
      then show False using k hm find_tile_listed [OF wf(1), of k p] by (metis option.distinct(1) option.inject)
    qed
    have z: "sized (\<lambda>k. find_name ts k = Some m) xs = 0" using fm by (intro sized_none) simp
    have "located (xs @ [(m, ib)]) ts'"
      unfolding located_def
    proof (intro conjI allI impI ballI)
      show "find_name ts' k \<noteq> None" if "k \<in> fst ` set (xs @ [(m, ib)])" for k
        using that wf(2) [of k] t(4) by auto
      show "th_total_size th = sized (\<lambda>k. find_name ts' k = Some n) (xs @ [(m, ib)])" if "heads_of ts' n = Some th" for n th
      proof (cases "n = m")
        case True
        then have "th_total_size th = item_size ib" using that t(2) by auto
        then show ?thesis using True old [of m] z t(4) by simp
      next
        case False
        then show ?thesis using that t(2,4) wf(3) [of n th] old [of n] by auto
      qed
      show "th_total_size_used th = 0" if "heads_of ts' n = Some th" for n th
        using that t(2) wf(4) [of n th] by (auto split: if_splits)
    qed (rule t(3))
    then show ?thesis using t(1) by blast
  next
    case (Some j)
    obtain ts' th where t: "tile_extend al junk m ib (ts, l) = Some (ts', l)" "heads_of ts j = Some th"
      "heads_of ts' = (heads_of ts)(j \<mapsto> th\<lparr>th_total_size := th_total_size th + item_size ib\<rparr>)"
      "tiles_wf ts'" "find_name ts' = find_name ts"
      by (rule tile_extend_found [OF wf(1) Some])
    have "located (xs @ [(m, ib)]) ts'"
      unfolding located_def t(5)
    proof (intro conjI allI impI ballI)
      show "find_name ts k \<noteq> None" if "k \<in> fst ` set (xs @ [(m, ib)])" for k
        using that wf(2) [of k] Some by auto
      show "th_total_size th' = sized (\<lambda>k. find_name ts k = Some n) (xs @ [(m, ib)])" if "heads_of ts' n = Some th'" for n th'
        using that t(2,3) wf(3) [of n] Some by (cases "n = j") auto
      show "th_total_size_used th' = 0" if "heads_of ts' n = Some th'" for n th'
        using that t(2,3) wf(4) [of n] by (cases "n = j") auto
    qed (rule t(4))
    then show ?thesis using t(1) by blast
  qed
qed

lemma extend_all_located:
  assumes "located xs ts" "fresh_address al"
  shows "\<exists>ts' l'. extend_all al junk ys (ts, l) = Some (ts', l') \<and> located (xs @ ys) ts'"
  using assms(1)
proof (induction ys arbitrary: xs ts l)
  case (Cons y ys)
  obtain n ib where y: "y = (n, ib)" by (cases y)
  obtain ts' l' where t: "tile_extend al junk n ib (ts, l) = Some (ts', l')" "located (xs @ [(n, ib)]) ts'"
    using extend_located [OF Cons.prems assms(2)] by blast
  from Cons.IH [OF t(2), of l'] t(1) y show ?case by simp
qed simp

section \<open>Writing\<close>

lemma heads_of_start: "heads_of (start_slice S memory ts) n = map_option (\<lambda>th.
     if th_name th \<in> set S then th\<lparr>th_process := 1, th_zip_data := Some (memory (th_name th) (nat (th_total_size th div 4)))\<rparr>
     else th\<lparr>th_process := 0\<rparr>) (heads_of ts n)"
  by (cases "map_of (tile_hash ts) n") (simp_all add: heads_of_def start_slice_def)

lemma find_name_start: "find_name (start_slice S memory ts) = find_name ts"
proof (rule ext)
  fix m
  have f: "find_tile (start_slice S memory ts) m = find_tile ts m"
    by (simp add: find_tile_def hash2_lookup_def start_slice_def cong: option.case_cong)
  show "find_name (start_slice S memory ts) m = find_name ts m"
  proof (cases "find_tile ts m")
    case (Some p)
    then show ?thesis by (cases "ts_heads ts p") (simp_all add: find_name_def f, simp_all add: start_slice_def)
  qed (simp add: find_name_def f)
qed

lemma start_slice_wf: "tiles_wf ts \<Longrightarrow> tiles_wf (start_slice S memory ts)"
proof -
  assume w: "tiles_wf ts"
  have h: "\<exists>th. ts_heads (start_slice S memory ts) p = Some th \<and> th_name th = n" if "map_of (tile_hash ts) n = Some p" for n p
  proof -
    note m = that
    obtain th where "ts_heads ts p = Some th" "th_name th = n" by (rule tiles_wfD [OF w m])
    then show ?thesis by (simp add: start_slice_def)
  qed
  have d: "dom (ts_heads (start_slice S memory ts)) = dom (ts_heads ts)" by (auto simp: start_slice_def dom_def)
  have e: "tile_hash (start_slice S memory ts) = tile_hash ts" "tile_hash2 (start_slice S memory ts) = tile_hash2 ts"
    by (simp_all add: start_slice_def)
  show ?thesis using w h unfolding tiles_wf_def d e by blast
qed

definition contents :: "(string \<Rightarrow> bool) \<Rightarrow> (string \<times> int list) list \<Rightarrow> int list" where
  "contents P xs = concat (map snd (filter (P \<circ> fst) xs))"

lemma contents_simps [simp]:
  "contents P [] = []" "contents P (xs @ ys) = contents P xs @ contents P ys"
  "contents P [x] = (if P (fst x) then snd x else [])"
  by (simp_all add: contents_def)

lemma contents_size: "item_size (contents P xs) = sized P xs"
  by (induction xs) (auto simp: contents_def item_size_def)

text \<open>After \<open>ys\<close> of the items \<open>xs\<close> have been written.\<close>

definition writing :: "string list \<Rightarrow> (string \<times> int list) list \<Rightarrow> (string \<times> int list) list \<Rightarrow> (string \<Rightarrow> string option)
    \<Rightarrow> tiles \<Rightarrow> bool" where
  "writing S xs ys fnd ts \<longleftrightarrow> tiles_wf ts \<and> find_name ts = fnd \<and> (\<forall>m \<in> fst ` set xs. fnd m \<noteq> None)
     \<and> (\<forall>n th. heads_of ts n = Some th \<longrightarrow> th_total_size th = sized (\<lambda>m. fnd m = Some n) xs
          \<and> (if n \<in> set S
             then th_process th = 1 \<and> th_total_size_used th = sized (\<lambda>m. fnd m = Some n) ys
               \<and> (\<exists>d. th_zip_data th = Some d \<and> 4 * int (length d) = th_total_size th
                    \<and> take (nat (th_total_size_used th div 4)) d = contents (\<lambda>m. fnd m = Some n) ys)
             else th_process th = 0))"

lemma start_writing:
  assumes "located xs ts" "\<And>n k. length (memory n k) = k"
  shows "writing S xs [] (find_name ts) (start_slice S memory ts)"
proof -
  have l: "tiles_wf ts" "\<forall>m \<in> fst ` set xs. find_name ts m \<noteq> None"
    "\<And>n th. heads_of ts n = Some th \<Longrightarrow> th_total_size th = sized (\<lambda>m. find_name ts m = Some n) xs \<and> th_total_size_used th = 0"
    using assms(1) unfolding located_def by blast+
  have d: "4 * (sized P xs div 4) = sized P xs" for P
    using contents_size [of P xs] by (simp add: item_size_def flip: contents_size)
  show ?thesis
    unfolding writing_def find_name_start
  proof (intro conjI allI impI)
    fix n th assume "heads_of (start_slice S memory ts) n = Some th"
    then obtain t where t: "heads_of ts n = Some t" "th = (if th_name t \<in> set S
        then t\<lparr>th_process := 1, th_zip_data := Some (memory (th_name t) (nat (th_total_size t div 4)))\<rparr>
        else t\<lparr>th_process := 0\<rparr>)" by (auto simp: heads_of_start)
    let ?z = "sized (\<lambda>m. find_name ts m = Some n) xs"
    have n: "th_name t = n" "th_total_size t = ?z" "th_total_size_used t = 0" "0 \<le> ?z div 4" "4 * (?z div 4) = ?z"
      using heads_of_name [OF l(1) t(1)] l(3) [OF t(1)] d sized_nonneg [of "\<lambda>m. find_name ts m = Some n" xs]
      by (simp_all add: pos_imp_zdiv_nonneg_iff)
    show "th_total_size th = ?z" using t(2) n by simp
    show "if n \<in> set S
       then th_process th = 1 \<and> th_total_size_used th = sized (\<lambda>m. find_name ts m = Some n) []
         \<and> (\<exists>d. th_zip_data th = Some d \<and> 4 * int (length d) = th_total_size th
              \<and> take (nat (th_total_size_used th div 4)) d = contents (\<lambda>m. find_name ts m = Some n) [])
       else th_process th = 0"
      using t(2) n assms(2) by simp
  qed (use l start_slice_wf in auto)
qed

lemma write_step:
  assumes w: "writing S xs ys fnd ts" and xs: "xs = ys @ (m, ib) # zs"
  shows "\<exists>ts'. write_item m ib False ts \<in> {Written ts' None, Skipped ts'} \<and> writing S xs (ys @ [(m, ib)]) fnd ts'"
proof -
  have W: "tiles_wf ts" "find_name ts = fnd" "\<forall>m \<in> fst ` set xs. fnd m \<noteq> None" using w by (auto simp: writing_def)
  have H: "th_total_size th = sized (\<lambda>m. fnd m = Some n) xs
      \<and> (if n \<in> set S
         then th_process th = 1 \<and> th_total_size_used th = sized (\<lambda>m. fnd m = Some n) ys
           \<and> (\<exists>d. th_zip_data th = Some d \<and> 4 * int (length d) = th_total_size th
                \<and> take (nat (th_total_size_used th div 4)) d = contents (\<lambda>m. fnd m = Some n) ys)
         else th_process th = 0)" if "heads_of ts n = Some th" for n th
    using w that unfolding writing_def by blast
  obtain n where fn: "fnd m = Some n" using W(3) xs by fastforce
  then obtain p where p: "find_tile ts m = Some p" using W(2) find_name_None [OF W(1), of m] by (cases "find_tile ts m") auto
  obtain th where t: "map_of (tile_hash ts) n = Some p" "ts_heads ts p = Some th" "th_name th = n" "heads_of ts n = Some th"
    using find_tile_listed [OF W(1) p] fn W(2) by (metis option.inject)
  show ?thesis
  proof (cases "n \<in> set S")
    case False
    then have "write_item m ib False ts = Skipped ts" using p t H [OF t(4)] by (simp add: write_item_def)
    moreover have "writing S xs (ys @ [(m, ib)]) fnd ts"
      unfolding writing_def
    proof (intro conjI allI impI)
      fix k th' assume k: "heads_of ts k = Some th'"
      then show "th_total_size th' = sized (\<lambda>m. fnd m = Some k) xs" using H by blast
      show "if k \<in> set S
         then th_process th' = 1 \<and> th_total_size_used th' = sized (\<lambda>m. fnd m = Some k) (ys @ [(m, ib)])
           \<and> (\<exists>d. th_zip_data th' = Some d \<and> 4 * int (length d) = th_total_size th'
                \<and> take (nat (th_total_size_used th' div 4)) d = contents (\<lambda>m. fnd m = Some k) (ys @ [(m, ib)]))
         else th_process th' = 0"
        using H [OF k] False fn by (cases "k = n") auto
    qed (use W in auto)
    ultimately show ?thesis by blast
  next
    case True
    let ?P = "\<lambda>m. fnd m = Some n"
    obtain d where d: "th_zip_data th = Some d" "4 * int (length d) = th_total_size th"
      "take (nat (th_total_size_used th div 4)) d = contents ?P ys" and
      u: "th_process th = 1" "th_total_size_used th = sized ?P ys" "th_total_size th = sized ?P xs"
      using H [OF t(4)] True by auto
    let ?k = "nat (th_total_size_used th div 4)"
    let ?d = "take ?k d @ ib @ drop (?k + length ib) d"
    let ?th = "th\<lparr>th_zip_data := Some ?d, th_total_size_used := th_total_size_used th + item_size ib\<rparr>"
    have le: "th_total_size_used th + item_size ib \<le> th_total_size th"
      using u xs fn sized_nonneg [of ?P zs] by simp
    have k: "?k = length (contents ?P ys)" using u(2) contents_size [of ?P ys] by (simp add: item_size_def)
    have l: "?k + length ib \<le> length d" using le d(2) u(2) contents_size [of ?P ys] k by (simp add: item_size_def)
    have "write_item m ib False ts = Written (set_head p ?th ts) None"
      using p t u le d(1) by (simp add: write_item_def Let_def)
    moreover have "writing S xs (ys @ [(m, ib)]) fnd (set_head p ?th ts)"
    proof -
      have nm: "th_name ?th = n" using t(3) by simp
      note s = set_head_heads [OF W(1) t(1) nm]
      have k2: "nat ((th_total_size_used th + item_size ib) div 4) = ?k + length ib"
        using u(2) contents_size [of ?P ys] by (simp add: item_size_def)
      have tk: "take (?k + length ib) ?d = contents ?P ys @ ib" using l unfolding d(3) [symmetric] by simp
      show ?thesis
        unfolding writing_def
      proof (intro conjI allI impI)
        show "find_name (set_head p ?th ts) = fnd"
          using find_name_set_head [OF W(1) t(2), of ?th] W(2) by simp
        fix j th' assume j: "heads_of (set_head p ?th ts) j = Some th'"
        show "th_total_size th' = sized (\<lambda>m. fnd m = Some j) xs"
          using j H [of j] s(1) u(3) by (cases "j = n") auto
        show "if j \<in> set S
           then th_process th' = 1 \<and> th_total_size_used th' = sized (\<lambda>m. fnd m = Some j) (ys @ [(m, ib)])
             \<and> (\<exists>d. th_zip_data th' = Some d \<and> 4 * int (length d) = th_total_size th'
                  \<and> take (nat (th_total_size_used th' div 4)) d = contents (\<lambda>m. fnd m = Some j) (ys @ [(m, ib)]))
           else th_process th' = 0"
        proof (cases "j = n")
          case True
          then have e: "th' = ?th" using j s(1) by auto
          have us: "th_total_size_used ?th = th_total_size_used th + item_size ib" by simp
          have "th_zip_data ?th = Some ?d" "4 * int (length ?d) = th_total_size ?th" using l d(2) by simp_all
          moreover have "take (nat (th_total_size_used ?th div 4)) ?d = contents ?P (ys @ [(m, ib)])"
            unfolding us k2 tk using fn by simp
          moreover have "th_process ?th = 1" "th_total_size_used ?th = sized ?P (ys @ [(m, ib)])"
            unfolding us using u fn by simp_all
          ultimately show ?thesis unfolding e True using \<open>n \<in> set S\<close> by metis
        next
          case False
          then show ?thesis using j s(1) H [of j th'] fn by auto
        qed
      qed (use W s in auto)
    qed
    ultimately show ?thesis by blast
  qed
qed

lemma write_all_writing:
  assumes "writing S xs ys fnd ts" "xs = ys @ zs"
  shows "\<exists>ts'. write_all zs ts = Some ts' \<and> writing S xs xs fnd ts'"
  using assms
proof (induction zs arbitrary: ys ts)
  case (Cons z zs)
  obtain m ib where z: "z = (m, ib)" by (cases z)
  obtain ts' where t: "write_item m ib False ts \<in> {Written ts' None, Skipped ts'}" "writing S xs (ys @ [(m, ib)]) fnd ts'"
    using write_step [OF Cons.prems(1)] Cons.prems(2) z by blast
  have x: "xs = (ys @ [(m, ib)]) @ zs" using Cons.prems(2) z by simp
  have "write_all (z # zs) ts = write_all zs ts'" using t(1) z by (elim insertE) simp_all
  then show ?case using Cons.IH [OF t(2) x] by metis
next
  case Nil
  then have "xs = ys" by simp
  then show ?case using Nil.prems(1) by (intro exI [of _ ts]) simp
qed

section \<open>Properties\<close>

text \<open>C21: The two passes over the items agree. The first pass and the merging of small tiles end, and when the
  items (with the index items \<open>zs\<close> added after merging) are written again, no tile overflows and
  none is missing: every tile of the slice ends up filled exactly, with its items one after the other
  in the order of the input. Tile names are letters with a suffix that does not start with one of the letters.\<close>

theorem tile_two_passes:
  assumes "\<forall>n \<in> fst ` set xs. named suffix n" "tile_len suffix = 0" "fresh_address al" "realloc_ok re"
    "\<And>n k. length (memory n k) = k"
  shows "\<exists>ts1 l ts2 ts3 ts4 l4 ts5. extend_all al junk xs (no_tiles, []) = Some (ts1, l)
    \<and> merge_tiles re suffix ts1 = Some ts2
    \<and> create_tile_hash_list (get_tiles_list ts2) ts2 = Some ts3
    \<and> extend_all al junk zs (ts3, get_tiles_list ts2) = Some (ts4, l4)
    \<and> write_all (xs @ zs) (start_slice S memory ts4) = Some ts5
    \<and> (\<forall>m \<in> fst ` set (xs @ zs). \<exists>n. find_name ts4 m = Some n)
    \<and> (\<forall>n th. n \<in> set S \<longrightarrow> heads_of ts5 n = Some th \<longrightarrow> th_total_size_used th = th_total_size th
         \<and> th_zip_data th = Some (contents (\<lambda>m. find_name ts4 m = Some n) (xs @ zs)))"
proof -
  obtain ts1 l where 1: "extend_all al junk xs (no_tiles, []) = Some (ts1, l)" "merging xs suffix ts1"
    using extend_all_merging [OF no_tiles_merging(1,2) assms(1,3), of junk "[]"] by auto
  obtain ts2 where 2: "merge_tiles re suffix ts1 = Some ts2" "merging xs suffix ts2"
    using merge_tiles_returns [OF 1(2) assms(4,2)] by blast
  obtain ts3 where 3: "create_tile_hash_list (get_tiles_list ts2) ts2 = Some ts3" "located xs ts3"
    using create_located [OF 2(2)] by blast
  obtain ts4 l4 where 4: "extend_all al junk zs (ts3, get_tiles_list ts2) = Some (ts4, l4)" "located (xs @ zs) ts4"
    using extend_all_located [OF 3(2) assms(3)] by blast
  obtain ts5 where 5: "write_all (xs @ zs) (start_slice S memory ts4) = Some ts5"
    "writing S (xs @ zs) (xs @ zs) (find_name ts4) ts5"
    using write_all_writing [OF start_writing [OF 4(2) assms(5)]] by fastforce
  have f: "\<forall>m \<in> fst ` set (xs @ zs). \<exists>n. find_name ts4 m = Some n" using 4(2) unfolding located_def by blast
  have W: "if n \<in> set S
      then th_process th = 1 \<and> th_total_size_used th = sized (\<lambda>m. find_name ts4 m = Some n) (xs @ zs)
        \<and> (\<exists>d. th_zip_data th = Some d \<and> 4 * int (length d) = th_total_size th
             \<and> take (nat (th_total_size_used th div 4)) d = contents (\<lambda>m. find_name ts4 m = Some n) (xs @ zs))
      else th_process th = 0" "th_total_size th = sized (\<lambda>m. find_name ts4 m = Some n) (xs @ zs)"
    if "heads_of ts5 n = Some th" for n th
    using 5(2) that unfolding writing_def by blast+
  have g: "th_total_size_used th = th_total_size th
      \<and> th_zip_data th = Some (contents (\<lambda>m. find_name ts4 m = Some n) (xs @ zs))"
    if n: "n \<in> set S" "heads_of ts5 n = Some th" for n th
  proof -
    obtain d where d: "th_zip_data th = Some d" "4 * int (length d) = th_total_size th"
      "take (nat (th_total_size_used th div 4)) d = contents (\<lambda>m. find_name ts4 m = Some n) (xs @ zs)"
      "th_total_size_used th = th_total_size th"
      using W [OF n(2)] n(1) by auto
    have "nat (th_total_size th div 4) = length d" using d(2) by simp
    then show ?thesis using d by simp
  qed
  show ?thesis
    by (rule exI [of _ ts1], rule exI [of _ l], rule exI [of _ ts2], rule exI [of _ ts3], rule exI [of _ ts4],
        rule exI [of _ l4], rule exI [of _ ts5])
      (intro conjI allI impI 1(1) 2(1) 3(1) 4(1) 5(1) f g [THEN conjunct1] g [THEN conjunct2])
qed

lemma next_address_ok: "fresh_address (\<lambda>h. Suc (Max (insert 0 (dom h))))"
  unfolding fresh_address_def
proof (intro allI impI)
  fix h :: "nat \<rightharpoonup> tile_head" assume f: "finite (dom h)"
  show "h (Suc (Max (insert 0 (dom h)))) = None"
  proof (rule ccontr)
    assume "h (Suc (Max (insert 0 (dom h)))) \<noteq> None"
    then have "Suc (Max (insert 0 (dom h))) \<in> insert 0 (dom h)" by auto
    then have "Suc (Max (insert 0 (dom h))) \<le> Max (insert 0 (dom h))" by (intro Max_ge) (simp_all add: f)
    then show False by simp
  qed
qed

lemma tile_two_passes_witness:
  "let al = (\<lambda>h. Suc (Max (insert 0 (dom h)))); xs = [(''aab'', [2, 1, 0]), (''aac'', [2, 5, 0]), (''b'', [2, 7, 0])];
       zs = [('''', [2, 9, 0])]; mem = (\<lambda>n k. replicate k 0)
   in \<exists>ts1 l ts2 ts3 ts4 l4 ts5. extend_all al 0 xs (no_tiles, []) = Some (ts1, l)
    \<and> merge_tiles (\<lambda>h p. p) '''' ts1 = Some ts2
    \<and> create_tile_hash_list (get_tiles_list ts2) ts2 = Some ts3
    \<and> extend_all al 0 zs (ts3, get_tiles_list ts2) = Some (ts4, l4)
    \<and> write_all (xs @ zs) (start_slice [''''] mem ts4) = Some ts5
    \<and> find_name ts4 ''aab'' \<noteq> None"
proof -
  let ?xs = "[(''aab'', [2, 1, 0]), (''aac'', [2, 5, 0]), (''b'', [2, 7, 0])] :: (string \<times> int list) list"
  have n: "\<forall>n \<in> fst ` set ?xs. named '''' n" by (simp add: named_def)
  have r: "realloc_ok (\<lambda>h p. p)" by (simp add: realloc_ok_def)
  obtain ts1 l ts2 ts3 ts4 l4 ts5 where w:
    "extend_all (\<lambda>h. Suc (Max (insert 0 (dom h)))) 0 ?xs (no_tiles, []) = Some (ts1, l)"
    "merge_tiles (\<lambda>h p. p) '''' ts1 = Some ts2"
    "create_tile_hash_list (get_tiles_list ts2) ts2 = Some ts3"
    "extend_all (\<lambda>h. Suc (Max (insert 0 (dom h)))) 0 [('''', [2, 9, 0])] (ts3, get_tiles_list ts2) = Some (ts4, l4)"
    "write_all (?xs @ [('''', [2, 9, 0])]) (start_slice [''''] (\<lambda>n k. replicate k 0) ts4) = Some ts5"
    "\<forall>m \<in> fst ` set (?xs @ [('''', [2, 9, 0])]). \<exists>n. find_name ts4 m = Some n"
    using tile_two_passes [OF n _ next_address_ok r, where memory = "\<lambda>n k. replicate k 0" and junk = 0
        and zs = "[('''', [2, 9, 0])]" and S = "['''']", OF tile_len.simps(1) length_replicate]
    by (elim exE conjE) (rule that)
  have g: "find_name ts4 ''aab'' \<noteq> None" using w(6) by auto
  show ?thesis
    unfolding Let_def
    by (rule exI [of _ ts1], rule exI [of _ l], rule exI [of _ ts2], rule exI [of _ ts3], rule exI [of _ ts4],
        rule exI [of _ l4], rule exI [of _ ts5]) (intro conjI w(1-5) g)
qed

lemma take_slice_parts:
  "take_slice k sz ts = (xs, ys) \<Longrightarrow> xs @ ys = ts \<and> (xs \<noteq> [] \<longrightarrow> sz + sum_list xs < k)
     \<and> (case ys of [] \<Rightarrow> True | y # _ \<Rightarrow> k \<le> sz + sum_list xs + y)"
proof (induction ts arbitrary: sz xs ys)
  case (Cons t ts)
  show ?case
  proof (cases "sz + t < k")
    case True
    obtain xs1 ys1 where p: "take_slice k (sz + t) ts = (xs1, ys1)" by (cases "take_slice k (sz + t) ts")
    have e: "xs = t # xs1" "ys = ys1" using Cons.prems True p by auto
    show ?thesis using Cons.IH [OF p] True unfolding e by (cases ys1) (auto simp: algebra_simps)
  next
    case False
    then have "xs = []" "ys = t # ts" using Cons.prems by auto
    then show ?thesis using False by simp
  qed
qed auto

text \<open>C37: The tiles are divided into slices of less than the slice size, each tile in one slice and in the order
  of the list; but as soon as a tile has the slice size or more, \<open>phase5\<close> takes empty slices for ever.\<close>

theorem tile_slices_end:
  assumes "\<forall>t \<in> set ts. 0 \<le> t"
  shows "if \<forall>t \<in> set ts. t < k
    then \<exists>ss. slices k ts = Some ss \<and> concat ss = ts \<and> (\<forall>s \<in> set ss. s \<noteq> [] \<and> sum_list s < k)
    else slices k ts = None"
  using assms
proof (induction ts rule: length_induct)
  case (1 ts)
  obtain xs ys where p: "take_slice k 0 ts = (xs, ys)" by (cases "take_slice k 0 ts")
  note t = take_slice_parts [OF p]
  show ?case
  proof (cases "ts = []")
    case True
    then show ?thesis by (subst slices.simps) auto
  next
    case False
    have e: "slices k ts = (case slices k ys of None \<Rightarrow> None | Some ss \<Rightarrow> Some (xs # ss))"
      using False p by (subst slices.simps) (simp split: option.split)
    show ?thesis
    proof (cases "xs = []")
      case True
      then have ys: "ys = ts" using t by simp
      then obtain y where "y \<in> set ts" "k \<le> y" using t True False by (cases ts) auto
      moreover have "slices k ts = None"
      proof (cases "slices k ts")
        case (Some ss)
        have "Some ss = Some ([] # ss)" using e [unfolded ys Some option.case True] .
        then show ?thesis by simp
      qed simp
      ultimately show ?thesis by (metis not_less)
    next
      case x: False
      have l: "length ys < length ts" "\<forall>t \<in> set ys. 0 \<le> t" using t x "1.prems" by auto
      have "\<forall>t \<in> set xs. t < k"
      proof
        fix u assume u: "u \<in> set xs"
        have "\<forall>t \<in> set xs. 0 \<le> t" using t "1.prems" by (metis UnCI set_append)
        then have "u \<le> sum_list xs" using u by (induction xs) (auto simp: add_increasing sum_list_nonneg)
        then show "u < k" using t x by simp
      qed
      then have all: "(\<forall>t \<in> set ts. t < k) \<longleftrightarrow> (\<forall>t \<in> set ys. t < k)" using t by auto
      show ?thesis
      proof (cases "\<forall>t \<in> set ys. t < k")
        case True
        then obtain ss where "slices k ys = Some ss" "concat ss = ys" "\<forall>s \<in> set ss. s \<noteq> [] \<and> sum_list s < k"
          using "1.IH" l by meson
        then show ?thesis using e all True t x by auto
      next
        case False
        then have "slices k ys = None" using "1.IH" l by meson
        then show ?thesis using e all False by auto
      qed
    qed
  qed
qed

lemma tile_slices_end_witness:
  "slices 5 [2, 5] = None \<and> (\<exists>ss. slices 5 [2, 2, 4] = Some ss \<and> concat ss = [2, 2, 4])"
  using tile_slices_end [of "[2, 5]" 5] tile_slices_end [of "[2, 2, 4]" 5] by auto

end
