(* ===== verification/Bin_Item.thy ===== *)
theory Bin_Item
  imports Attr_List Tile_Name
begin

text \<open>
  Items as maptool builds them (\<open>maptool/itembin.c\<close>): a \<open>struct item_bin\<close> is the start of a buffer of
  32 bit words that holds the header (length, type, number of coordinate words), the coordinates and the
  attributes. The model is the whole buffer, as long as it was allocated; reading or writing outside of it is
  the result \<open>None\<close>. Pointers into the buffer are word indices, the null pointer is \<open>0\<close>.
\<close>

section \<open>Words and bytes\<close>

text \<open>Little endian, as the files are and as the supported machines store words.\<close>

definition word_of_bytes :: "int \<Rightarrow> int \<Rightarrow> int \<Rightarrow> int \<Rightarrow> int" where
  "word_of_bytes a b c d = i32 (a + 256 * b + 65536 * c + 16777216 * d)"

definition bytes_of_word :: "int \<Rightarrow> int list" where
  "bytes_of_word w = [w mod 256, w div 256 mod 256, w div 65536 mod 256, w div 16777216 mod 256]"

definition bytes_of_long :: "int \<Rightarrow> int list" where
  "bytes_of_long v = bytes_of_word v @ bytes_of_word (v div 4294967296)"

text \<open>The words of a block of bytes, padded with zero bytes to a whole word.\<close>

fun words_of_bytes :: "int list \<Rightarrow> int list" where
  "words_of_bytes (a # b # c # d # bs) = word_of_bytes a b c d # words_of_bytes bs"
| "words_of_bytes [a, b, c] = [word_of_bytes a b c 0]"
| "words_of_bytes [a, b] = [word_of_bytes a b 0 0]"
| "words_of_bytes [a] = [word_of_bytes a 0 0 0]"
| "words_of_bytes [] = []"

definition bytes_of_words :: "int list \<Rightarrow> int list" where
  "bytes_of_words ws = concat (map bytes_of_word ws)"

definition u32 :: "int \<Rightarrow> int" where
  "u32 w = w mod 4294967296"

section \<open>The buffer\<close>

definition buf_read :: "int list \<Rightarrow> int \<Rightarrow> int option" where
  "buf_read b i = (if 0 \<le> i \<and> i < int (length b) then Some (b ! nat i) else None)"

definition buf_write :: "int list \<Rightarrow> int \<Rightarrow> int list \<Rightarrow> int list option" where
  "buf_write b i ws =
     (if 0 \<le> i \<and> i + int (length ws) \<le> int (length b)
      then Some (take (nat i) b @ ws @ drop (nat i + length ws) b) else None)"

definition buf_slice :: "int list \<Rightarrow> int \<Rightarrow> int \<Rightarrow> int list option" where
  "buf_slice b i n =
     (if 0 \<le> i \<and> 0 \<le> n \<and> i + n \<le> int (length b) then Some (take (nat n) (drop (nat i) b)) else None)"

definition coord_words :: "coord list \<Rightarrow> int list" where
  "coord_words cs = concat (map (\<lambda>c. [cx c, cy c]) cs)"

fun coords_of_words :: "int list \<Rightarrow> coord list" where
  "coords_of_words (x # y # ws) = \<lparr>cx = x, cy = y\<rparr> # coords_of_words ws"
| "coords_of_words _ = []"

text \<open>The fields \<open>len\<close>, \<open>type\<close> and \<open>clen\<close>; a \<open>struct attr_bin\<close> has \<open>len\<close> and \<open>type\<close> alone.\<close>

definition ib_len :: "int list \<Rightarrow> int option" where "ib_len ib = buf_read ib 0"
definition ib_type :: "int list \<Rightarrow> int option" where "ib_type ib = map_option u32 (buf_read ib 1)"
definition ib_clen :: "int list \<Rightarrow> int option" where "ib_clen ib = buf_read ib 2"

definition item_bin_set_type :: "int list \<Rightarrow> int \<Rightarrow> int list option" where
  "item_bin_set_type ib t = buf_write ib 1 [i32 t]"

definition item_bin_init :: "int list \<Rightarrow> int \<Rightarrow> int list option" where
  "item_bin_init ib t = do {
     ib \<leftarrow> buf_write ib 2 [0];
     ib \<leftarrow> buf_write ib 0 [2];
     item_bin_set_type ib t
   }"

section \<open>Coordinates\<close>

definition item_bin_add_coord :: "int list \<Rightarrow> coord list \<Rightarrow> int list option" where
  "item_bin_add_coord ib cs = do {
     clen \<leftarrow> ib_clen ib;
     ib \<leftarrow> buf_write ib (3 + 2 * cdiv clen 2) (coord_words cs);
     let count = int (length cs);
     clen \<leftarrow> ib_clen ib;
     ib \<leftarrow> buf_write ib 2 [i32 (clen + count * 2)];
     len \<leftarrow> ib_len ib;
     buf_write ib 0 [i32 (len + count * 2)]
   }"

fun add_coords_one_by_one :: "int list \<Rightarrow> coord list \<Rightarrow> int list option" where
  "add_coords_one_by_one ib [] = Some ib"
| "add_coords_one_by_one ib (c # cs) = do { ib \<leftarrow> item_bin_add_coord ib [c]; add_coords_one_by_one ib cs }"

definition item_bin_add_coord_reverse :: "int list \<Rightarrow> coord list \<Rightarrow> int list option" where
  "item_bin_add_coord_reverse ib cs = add_coords_one_by_one ib (rev cs)"

definition item_bin_bbox :: "int list \<Rightarrow> rect \<Rightarrow> int list option" where
  "item_bin_bbox ib r = do {
     ib \<leftarrow> item_bin_add_coord ib [r_l r];
     ib \<leftarrow> item_bin_add_coord ib [\<lparr>cx = cx (r_h r), cy = cy (r_l r)\<rparr>];
     ib \<leftarrow> item_bin_add_coord ib [r_h r];
     ib \<leftarrow> item_bin_add_coord ib [\<lparr>cx = cx (r_l r), cy = cy (r_h r)\<rparr>];
     item_bin_add_coord ib [r_l r]
   }"

definition item_bin_add_coord_rect :: "int list \<Rightarrow> rect \<Rightarrow> int list option" where
  "item_bin_add_coord_rect ib r = do {
     ib \<leftarrow> item_bin_add_coord ib [r_l r];
     item_bin_add_coord ib [r_h r]
   }"

definition item_coords :: "int list \<Rightarrow> coord list option" where
  "item_coords ib = do {
     clen \<leftarrow> ib_clen ib;
     ws \<leftarrow> buf_slice ib 3 (2 * cdiv clen 2);
     Some (coords_of_words ws)
   }"

definition item_bin_copy_coord :: "int list \<Rightarrow> int list \<Rightarrow> int \<Rightarrow> int list option" where
  "item_bin_copy_coord ib src dir = do {
     cs \<leftarrow> item_coords src;
     if dir \<ge> 0 then item_bin_add_coord ib cs else add_coords_one_by_one ib (rev cs)
   }"

section \<open>Attributes\<close>

text \<open>The bytes \<open>attr_data_get\<close> points to, as many as \<open>attr_data_size\<close> says.\<close>

definition attr_data_bytes :: "attr_heap \<Rightarrow> attr \<Rightarrow> int list option" where
  "attr_data_bytes h a = do {
     n \<leftarrow> attr_data_size h a;
     let t = at_type a;
     bs \<leftarrow> (if (attr_type_int_begin \<le> t \<and> t \<le> attr_type_int_end)
              \<or> (attr_type_item_type_begin \<le> t \<and> t \<le> attr_type_item_type_end)
            then Some (bytes_of_long (at_u a))
            else if t = attr_order then Some (bytes_of_long (at_u a))
            else if n = 0 then Some [] else ah_block h (at_u a));
     if n \<le> length bs then Some (take n bs) else None
   }"

text \<open>The result is the buffer and the number of words written.\<close>

definition attr_bin_write_data :: "int list \<Rightarrow> int \<Rightarrow> int \<Rightarrow> int list \<Rightarrow> (int list \<times> int) option" where
  "attr_bin_write_data ib ab t data = (let ws = words_of_bytes data; len = int (length ws) + 1 in do {
     ib \<leftarrow> buf_write ib (ab + 1) (t # ws);
     ib \<leftarrow> buf_write ib ab [len];
     Some (ib, len + 1)
   })"

definition attr_bin_write_attr :: "attr_heap \<Rightarrow> int list \<Rightarrow> int \<Rightarrow> attr \<Rightarrow> (int list \<times> int) option" where
  "attr_bin_write_attr h ib ab a = do {
     data \<leftarrow> attr_data_bytes h a;
     attr_bin_write_data ib ab (at_type a) data
   }"

definition item_bin_add_attr_data :: "int list \<Rightarrow> int \<Rightarrow> int list \<Rightarrow> int list option" where
  "item_bin_add_attr_data ib t data = do {
     len \<leftarrow> ib_len ib;
     (ib, n) \<leftarrow> attr_bin_write_data ib (len + 1) t data;
     len \<leftarrow> ib_len ib;
     buf_write ib 0 [i32 (len + n)]
   }"

definition attr_type_group_begin :: int where "attr_type_group_begin = 0xd0000"
definition attr_type_group_end :: int where "attr_type_group_end = 0xdffff"

definition ATTR_IS_GROUP :: "int \<Rightarrow> bool" where
  "ATTR_IS_GROUP t \<longleftrightarrow> attr_type_group_begin \<le> t \<and> t \<le> attr_type_group_end"

text \<open>The attributes of a group are an array that ends with an attribute of type none.\<close>

fun add_group_attrs :: "attr_heap \<Rightarrow> int list \<Rightarrow> int \<Rightarrow> int \<Rightarrow> attr list \<Rightarrow> int list option" where
  "add_group_attrs h ib ab abptr [] = None"
| "add_group_attrs h ib ab abptr (a # as) =
     (if at_type a = attr_none then Some ib
      else do {
        (ib, n) \<leftarrow> attr_bin_write_attr h ib abptr a;
        len \<leftarrow> buf_read ib ab;
        ib \<leftarrow> buf_write ib ab [i32 (len + n)];
        add_group_attrs h ib ab (abptr + n) as
      })"

definition item_bin_add_attr_group :: "attr_heap \<Rightarrow> int list \<Rightarrow> int \<Rightarrow> attr list \<Rightarrow> int list option" where
  "item_bin_add_attr_group h ib t attrs = do {
     len \<leftarrow> ib_len ib;
     let ab = len + 1;
     ib \<leftarrow> buf_write ib (ab + 1) [t];
     ib \<leftarrow> buf_write ib ab [1];
     ib \<leftarrow> add_group_attrs h ib ab (ab + 2) attrs;
     alen \<leftarrow> buf_read ib ab;
     len \<leftarrow> ib_len ib;
     buf_write ib 0 [i32 (len + alen + 1)]
   }"

text \<open>\<open>attrs\<close> is the array \<open>u.attrs\<close> of a group and not used otherwise.\<close>

definition item_bin_add_attr :: "attr_heap \<Rightarrow> int list \<Rightarrow> attr \<Rightarrow> attr list \<Rightarrow> int list option" where
  "item_bin_add_attr h ib a attrs =
     (if ATTR_IS_GROUP (at_type a) then item_bin_add_attr_group h ib (at_type a) attrs
      else do {
        len \<leftarrow> ib_len ib;
        (ib, n) \<leftarrow> attr_bin_write_attr h ib (len + 1) a;
        len \<leftarrow> ib_len ib;
        buf_write ib 0 [i32 (len + n)]
      })"

text \<open>Values on the stack of the caller: the attribute is built there, 64 bit values are pointed to.\<close>

definition item_bin_add_attr_int :: "attr_heap \<Rightarrow> int list \<Rightarrow> int \<Rightarrow> int \<Rightarrow> int list option" where
  "item_bin_add_attr_int h ib t val = item_bin_add_attr h ib \<lparr>at_type = t, at_u = val\<rparr> []"

definition item_bin_add_attr_longlong :: "attr_heap \<Rightarrow> int \<Rightarrow> int list \<Rightarrow> int \<Rightarrow> int \<Rightarrow> int list option" where
  "item_bin_add_attr_longlong h stack ib t val =
     item_bin_add_attr (h\<lparr>ah_block := (ah_block h)(stack \<mapsto> bytes_of_long val)\<rparr>) ib \<lparr>at_type = t, at_u = stack\<rparr> []"

definition item_bin_add_attr_string :: "attr_heap \<Rightarrow> int list \<Rightarrow> int \<Rightarrow> int \<Rightarrow> int list option" where
  "item_bin_add_attr_string h ib t str =
     (if str = 0 then Some ib else item_bin_add_attr h ib \<lparr>at_type = t, at_u = str\<rparr> [])"

definition item_bin_add_attr_range :: "attr_heap \<Rightarrow> int list \<Rightarrow> int \<Rightarrow> int \<Rightarrow> int \<Rightarrow> int list option" where
  "item_bin_add_attr_range h ib t mn mx =
     item_bin_add_attr h ib \<lparr>at_type = t, at_u = mn mod 65536 + 65536 * (mx mod 65536)\<rparr> []"

definition item_bin_add_hole :: "int list \<Rightarrow> coord list \<Rightarrow> int list option" where
  "item_bin_add_hole ib cs = do {
     len \<leftarrow> ib_len ib;
     let ccount = int (length cs);
     let ab = len + 1;
     let alen = ccount * 2 + 2;
     ib \<leftarrow> buf_write ib ab [alen];
     ib \<leftarrow> buf_write ib (ab + 1) [attr_poly_hole];
     ib \<leftarrow> buf_write ib (ab + 2) [ccount];
     ib \<leftarrow> buf_write ib (ab + 3) (coord_words cs);
     len \<leftarrow> ib_len ib;
     buf_write ib 0 [i32 (len + (alen + 1))]
   }"

section \<open>Looking up and removing attributes\<close>

text \<open>The loops run from \<open>s\<close> to \<open>e\<close>; an attribute of length -1 would keep them at the same place.\<close>

partial_function (option) find_attr_bin :: "(int \<Rightarrow> int \<Rightarrow> bool) \<Rightarrow> int list \<Rightarrow> int \<Rightarrow> int \<Rightarrow> int option" where
  "find_attr_bin P ib s e =
     (if s < e then do {
        alen \<leftarrow> buf_read ib s;
        t \<leftarrow> buf_read ib (s + 1);
        if P s t then Some s else find_attr_bin P ib (s + alen + 1) e
      } else Some 0)"

definition attr_start :: "int list \<Rightarrow> int option" where
  "attr_start ib = map_option (\<lambda>clen. 3 + clen) (ib_clen ib)"

definition item_bin_get_attr_bin :: "int list \<Rightarrow> int \<Rightarrow> int \<Rightarrow> int option" where
  "item_bin_get_attr_bin ib t lst = do {
     len \<leftarrow> ib_len ib;
     s \<leftarrow> attr_start ib;
     find_attr_bin (\<lambda>ab u. u = t \<and> ab + 2 > lst) ib s (len + 1)
   }"

definition item_bin_get_attr :: "int list \<Rightarrow> int \<Rightarrow> int \<Rightarrow> int option" where
  "item_bin_get_attr ib t lst = do {
     len \<leftarrow> ib_len ib;
     s \<leftarrow> attr_start ib;
     ab \<leftarrow> find_attr_bin (\<lambda>ab u. u = t \<and> ab + 2 > lst) ib s (len + 1);
     Some (if ab = 0 then 0 else ab + 2)
   }"

partial_function (option) last_attr_bin :: "int list \<Rightarrow> int \<Rightarrow> int \<Rightarrow> int \<Rightarrow> int option" where
  "last_attr_bin ib ab s e =
     (if s < e then do {
        alen \<leftarrow> buf_read ib s;
        last_attr_bin ib s (s + alen + 1) e
      } else Some ab)"

definition item_bin_get_attr_bin_last :: "int list \<Rightarrow> int option" where
  "item_bin_get_attr_bin_last ib = do {
     len \<leftarrow> ib_len ib;
     s \<leftarrow> attr_start ib;
     last_attr_bin ib 0 s (len + 1)
   }"

definition item_bin_copy_attr :: "int list \<Rightarrow> int list \<Rightarrow> int \<Rightarrow> int list option" where
  "item_bin_copy_attr ib src t = do {
     ab \<leftarrow> item_bin_get_attr_bin src t 0;
     if ab = 0 then Some ib
     else do {
       alen \<leftarrow> buf_read src ab;
       u \<leftarrow> buf_read src (ab + 1);
       ws \<leftarrow> buf_slice src (ab + 2) (alen - 1);
       item_bin_add_attr_data ib u (bytes_of_words ws)
     }
   }"

partial_function (option) find_attr_data :: "int \<Rightarrow> int list \<Rightarrow> int \<Rightarrow> int \<Rightarrow> int option" where
  "find_attr_data ptr ib s e =
     (if s < e then do {
        alen \<leftarrow> buf_read ib s;
        if s + 2 = ptr then Some s else find_attr_data ptr ib (s + alen + 1) e
      } else Some 0)"

definition item_bin_remove_attr :: "int list \<Rightarrow> int \<Rightarrow> int list option" where
  "item_bin_remove_attr ib ptr = do {
     len \<leftarrow> ib_len ib;
     s \<leftarrow> attr_start ib;
     let e = len + 1;
     ab \<leftarrow> find_attr_data ptr ib s e;
     if ab = 0 then Some ib
     else do {
       alen \<leftarrow> buf_read ib ab;
       let s = ab + alen + 1;
       ib \<leftarrow> buf_write ib 0 [i32 (len - (alen + 1))];
       rest \<leftarrow> buf_slice ib s (e - s);
       buf_write ib ab rest
     }
   }"

section \<open>Copies and files\<close>

definition item_bin_dup :: "int list \<Rightarrow> int list option" where
  "item_bin_dup ib = do { len \<leftarrow> ib_len ib; buf_slice ib 0 (len + 1) }"

text \<open>A file as the list of its words.\<close>

definition item_bin_write :: "int list \<Rightarrow> int list \<Rightarrow> int list option" where
  "item_bin_write ib out = do { len \<leftarrow> ib_len ib; ws \<leftarrow> buf_slice ib 0 (len + 1); Some (out @ ws) }"

text \<open>
  \<open>fread\<close> of one block returns 0 when the file ends before; what is there was read nevertheless. A
  negative length is a huge size. The result is the result code, the buffer and the rest of the file.
\<close>

definition item_bin_read :: "int list \<Rightarrow> int list \<Rightarrow> (int \<times> int list \<times> int list) option" where
  "item_bin_read ib file =
     (case file of
        [] \<Rightarrow> Some (0, ib, file)
      | len # rest \<Rightarrow> do {
          ib \<leftarrow> buf_write ib 0 [len];
          if len = 0 then Some (1, ib, rest)
          else do {
            let n = (if len < 0 then length rest else nat len);
            ib \<leftarrow> buf_write ib 1 (take n rest);
            if 0 < len \<and> len \<le> int (length rest) then Some (2, ib, drop n rest) else Some (0, ib, [])
          }
        })"

section \<open>Population\<close>

definition type_town_label :: int where "type_town_label = 0x10000"
definition type_town_label_0e0 :: int where "type_town_label_0e0 = 0x10001"
definition type_town_label_1e7 :: int where "type_town_label_1e7 = 0x10017"
definition type_district_label :: int where "type_district_label = 0x10100"
definition type_district_label_0e0 :: int where "type_district_label_0e0 = 0x10101"
definition type_district_label_1e7 :: int where "type_district_label_1e7 = 0x10117"

definition item_is_district :: "int \<Rightarrow> bool" where
  "item_is_district t \<longleftrightarrow> type_district_label \<le> t \<and> t \<le> type_district_label_1e7"

definition item_is_town :: "int \<Rightarrow> bool" where
  "item_is_town t \<longleftrightarrow> type_town_label \<le> t \<and> t \<le> type_district_label_1e7"

text \<open>The item types of both tables are consecutive.\<close>

definition populations :: "int list" where
  "populations = [0, 1, 2, 5, 10, 20, 50, 100, 200, 500, 1000, 2000, 5000, 10000, 20000, 50000, 100000, 200000,
     500000, 1000000, 2000000, 5000000, 10000000]"

definition town_population :: "(int \<times> int) list" where
  "town_population = zip (map (\<lambda>i. type_town_label_0e0 + int i) [0..<23]) populations"

definition district_population :: "(int \<times> int) list" where
  "district_population = zip (map (\<lambda>i. type_district_label_0e0 + int i) [0..<23]) populations"

fun find_population :: "(int \<times> int) list \<Rightarrow> int \<Rightarrow> nat" where
  "find_population [] population = 0"
| "find_population ((t, p) # table) population =
     (if population < p then 0 else Suc (find_population table population))"

definition item_bin_set_type_by_population :: "int list \<Rightarrow> int \<Rightarrow> int list option" where
  "item_bin_set_type_by_population ib population = do {
     t \<leftarrow> ib_type ib;
     let population = (if population < 0 then 0 else population);
     let table = (if item_is_district t then district_population else town_population);
     let i = find_population table population;
     item_bin_set_type ib (fst (table ! (i - 1)))
   }"

end
