(* ===== verification/Bin_Encode.thy ===== *)
theory Bin_Encode
  imports Bin_Item
begin

text \<open>
  An item as its type, its coordinates and its attributes, and the words it is encoded by. The operations
  of \<open>itembin.c\<close> on a buffer that holds an encoded item implement the operations on lists.
\<close>

section \<open>Items and their encoding\<close>

record bitem =
  bi_type :: int
  bi_coords :: "coord list"
  bi_attrs :: "(int \<times> int list) list"

definition enc_attr :: "int \<times> int list \<Rightarrow> int list" where
  "enc_attr a = (int (length (snd a)) + 1) # fst a # snd a"

definition enc_attrs :: "(int \<times> int list) list \<Rightarrow> int list" where
  "enc_attrs as = concat (map enc_attr as)"

definition encode :: "bitem \<Rightarrow> int list" where
  "encode it = (let cw = coord_words (bi_coords it); aw = enc_attrs (bi_attrs it) in
     (2 + int (length cw) + int (length aw)) # i32 (bi_type it) # int (length cw) # cw @ aw)"

lemma enc_attrs_simps [simp]:
  "enc_attrs [] = []" "enc_attrs (a # as) = enc_attr a @ enc_attrs as" "enc_attrs (as @ bs) = enc_attrs as @ enc_attrs bs"
  by (simp_all add: enc_attrs_def)

lemma length_enc_attr [simp]: "length (enc_attr a) = length (snd a) + 2"
  by (simp add: enc_attr_def)

lemma coord_words_simps [simp]:
  "coord_words [] = []" "coord_words (c # cs) = cx c # cy c # coord_words cs"
  "coord_words (cs @ ds) = coord_words cs @ coord_words ds" "length (coord_words cs) = 2 * length cs"
  by (simp_all add: coord_words_def, induction cs) auto

lemma coords_of_coord_words [simp]: "coords_of_words (coord_words cs) = cs"
  by (induction cs) auto

lemma length_encode: "length (encode it) = 3 + 2 * length (bi_coords it) + length (enc_attrs (bi_attrs it))"
  by (simp add: encode_def Let_def)

section \<open>The buffer\<close>

lemma buf_read_at: "i = int (length xs) \<Longrightarrow> buf_read (xs @ y # zs) i = Some y"
  by (simp add: buf_read_def)

lemma buf_read_head [simp]:
  "buf_read (x # xs) 0 = Some x" "buf_read (x # y # xs) 1 = Some y" "buf_read (x # y # z # xs) 2 = Some z"
  by (simp_all add: buf_read_def nat_numeral eval_nat_numeral)

lemma buf_write_head [simp]:
  "buf_write (x # xs) 0 [a] = Some (a # xs)" "buf_write (x # y # xs) 1 [a] = Some (x # a # xs)"
  "buf_write (x # y # z # xs) 2 [a] = Some (x # y # a # xs)"
  by (simp_all add: buf_write_def nat_numeral eval_nat_numeral)

lemma buf_write_at:
  assumes "i = int (length xs)" "length ws \<le> length zs"
  shows "buf_write (xs @ zs) i ws = Some (xs @ ws @ drop (length ws) zs)"
  using assms by (simp add: buf_write_def)

lemma buf_slice_at:
  assumes "i = int (length xs)" "n = int (length ys)"
  shows "buf_slice (xs @ ys @ zs) i n = Some ys"
  using assms by (simp add: buf_slice_def)

lemma cdiv_even [simp]: "cdiv (2 * int n) 2 = int n"
  by simp

section \<open>Reading and writing an encoded item\<close>

definition small :: "int list \<Rightarrow> bool" where
  "small b \<longleftrightarrow> int (length b) \<le> INT_MAX"

lemma i32_in_range: "- 2147483648 \<le> x \<Longrightarrow> x \<le> 2147483647 \<Longrightarrow> i32 x = x"
  by (rule i32_id) (simp add: in_i32_def)

lemma encode_fields [simp]:
  "ib_len (encode it @ rest) = Some (int (length (encode it)) - 1)"
  "ib_type (encode it @ rest) = Some (u32 (bi_type it))"
  "ib_clen (encode it @ rest) = Some (2 * int (length (bi_coords it)))"
  "attr_start (encode it @ rest) = Some (3 + 2 * int (length (bi_coords it)))"
proof -
  have t: "u32 (i32 x) = u32 x" for x unfolding u32_def i32_def
    by (metis add_diff_cancel_right' mod_diff_left_eq)
  show "ib_len (encode it @ rest) = Some (int (length (encode it)) - 1)"
    "ib_type (encode it @ rest) = Some (u32 (bi_type it))"
    "ib_clen (encode it @ rest) = Some (2 * int (length (bi_coords it)))"
    "attr_start (encode it @ rest) = Some (3 + 2 * int (length (bi_coords it)))"
    by (simp_all add: ib_len_def ib_type_def ib_clen_def attr_start_def encode_def Let_def t)
qed

lemma init_encode:
  assumes "3 \<le> length b"
  shows "item_bin_init b t = Some (encode \<lparr>bi_type = t, bi_coords = [], bi_attrs = []\<rparr> @ drop 3 b)"
proof -
  obtain x y z r where "b = x # y # z # r" using assms by (metis Suc_le_length_iff numeral_3_eq_3)
  then show ?thesis by (simp add: item_bin_init_def item_bin_set_type_def encode_def Let_def)
qed

text \<open>Writing the words \<open>ws\<close> behind the item and raising its length by \<open>n\<close>.\<close>

lemma add_coord_encode:
  assumes "bi_attrs it = []" "2 * length cs \<le> length rest" "small (encode it @ rest)"
  shows "item_bin_add_coord (encode it @ rest) cs
    = Some (encode (it\<lparr>bi_coords := bi_coords it @ cs\<rparr>) @ drop (2 * length cs) rest)"
proof -
  let ?cw = "coord_words (bi_coords it)" and ?n = "2 * int (length (bi_coords it))"
  have e: "encode it @ rest = [2 + ?n, i32 (bi_type it), ?n] @ (?cw @ rest)" using assms(1) by (simp add: encode_def)
  have w: "buf_write (encode it @ rest) (3 + 2 * cdiv ?n 2) (coord_words cs)
    = Some (([2 + ?n, i32 (bi_type it), ?n] @ ?cw) @ coord_words cs @ drop (2 * length cs) rest)"
    using buf_write_at [of "3 + ?n" "[2 + ?n, i32 (bi_type it), ?n] @ ?cw" "coord_words cs" rest] assms(2)
    unfolding e by simp
  have b: "?n + 2 * int (length cs) \<le> INT_MAX - 3" using assms unfolding small_def by (simp add: length_encode)
  have i: "i32 (?n + int (length cs) * 2) = ?n + int (length cs) * 2"
    "i32 (2 + ?n + int (length cs) * 2) = 2 + ?n + int (length cs) * 2"
    using b by (intro i32_in_range; simp add: INT_MAX_def)+
  show ?thesis
    using w i by (simp add: item_bin_add_coord_def ib_clen_def ib_len_def encode_def Let_def assms(1) algebra_simps)
qed

lemma add_coords_encode:
  assumes "bi_attrs it = []" "2 * length cs \<le> length rest" "small (encode it @ rest)"
  shows "add_coords_one_by_one (encode it @ rest) cs
    = Some (encode (it\<lparr>bi_coords := bi_coords it @ cs\<rparr>) @ drop (2 * length cs) rest)"
  using assms
proof (induction cs arbitrary: it rest)
  case (Cons c cs)
  let ?it = "it\<lparr>bi_coords := bi_coords it @ [c]\<rparr>"
  have a: "item_bin_add_coord (encode it @ rest) [c] = Some (encode ?it @ drop 2 rest)"
    using add_coord_encode [of it "[c]" rest] Cons.prems by simp
  have "small (encode ?it @ drop 2 rest)" using Cons.prems unfolding small_def by (simp add: length_encode)
  then show ?case using a Cons.IH [of ?it "drop 2 rest"] Cons.prems by (simp add: add.commute)
qed simp

lemma add_attr_encode:
  assumes "length data = 2 + length ws" "length data \<le> length rest" "small (encode it @ rest)"
    "data = enc_attr (t, ws)"
  shows "buf_write (encode it @ rest) (int (length (encode it))) data = Some (encode it @ data @ drop (length data) rest)"
    "do { len \<leftarrow> ib_len (encode it @ data @ drop (length data) rest);
          buf_write (encode it @ data @ drop (length data) rest) 0 [i32 (len + (int (length ws) + 2))] }
     = Some (encode (it\<lparr>bi_attrs := bi_attrs it @ [(t, ws)]\<rparr>) @ drop (length data) rest)"
proof -
  show "buf_write (encode it @ rest) (int (length (encode it))) data = Some (encode it @ data @ drop (length data) rest)"
    using assms(2) by (intro buf_write_at) auto
  let ?l = "int (length (encode it)) - 1 + (int (length ws) + 2)"
  have "?l \<le> INT_MAX" using assms unfolding small_def by simp
  then have i: "i32 ?l = ?l" using assms by (intro i32_in_range) (simp_all add: INT_MAX_def length_encode)
  have "ib_len (encode it @ data @ drop (length data) rest) = Some (int (length (encode it)) - 1)"
    by (rule encode_fields)
  then show "do { len \<leftarrow> ib_len (encode it @ data @ drop (length data) rest);
          buf_write (encode it @ data @ drop (length data) rest) 0 [i32 (len + (int (length ws) + 2))] }
     = Some (encode (it\<lparr>bi_attrs := bi_attrs it @ [(t, ws)]\<rparr>) @ drop (length data) rest)"
    using i assms(4) by (simp add: encode_def Let_def length_encode)
qed

lemma write_data_encode:
  assumes "2 + length (words_of_bytes d) \<le> length rest" "ab = int (length xs)"
  shows "attr_bin_write_data (xs @ rest) ab t d
    = Some (xs @ enc_attr (t, words_of_bytes d) @ drop (2 + length (words_of_bytes d)) rest, int (length (words_of_bytes d)) + 2)"
proof -
  let ?ws = "words_of_bytes d"
  obtain r0 r where r: "rest = r0 # r" "length ?ws + 1 \<le> length r" using assms by (cases rest) auto
  have w: "buf_write (xs @ rest) (ab + 1) (t # ?ws) = Some ((xs @ [r0]) @ (t # ?ws) @ drop (length ?ws + 1) r)"
    using buf_write_at [of "ab + 1" "xs @ [r0]" "t # ?ws" r] assms(2) r by simp
  have "buf_write (xs @ r0 # (t # ?ws) @ drop (length ?ws + 1) r) ab [int (length ?ws) + 1]
    = Some (xs @ [int (length ?ws) + 1] @ drop 1 (r0 # (t # ?ws) @ drop (length ?ws + 1) r))"
    using buf_write_at [of ab xs "[int (length ?ws) + 1]" "r0 # (t # ?ws) @ drop (length ?ws + 1) r"] assms(2) by simp
  then show ?thesis using w r by (simp add: attr_bin_write_data_def Let_def enc_attr_def)
qed

lemma add_attr_data_encode:
  assumes "2 + length (words_of_bytes d) \<le> length rest" "small (encode it @ rest)"
  shows "item_bin_add_attr_data (encode it @ rest) t d
    = Some (encode (it\<lparr>bi_attrs := bi_attrs it @ [(t, words_of_bytes d)]\<rparr>) @ drop (2 + length (words_of_bytes d)) rest)"
proof -
  let ?ws = "words_of_bytes d"
  have w: "attr_bin_write_data (encode it @ rest) (int (length (encode it)) - 1 + 1) t d
    = Some (encode it @ enc_attr (t, ?ws) @ drop (2 + length ?ws) rest, int (length ?ws) + 2)"
    using assms(1) by (intro write_data_encode) auto
  show ?thesis
    using w add_attr_encode(2) [of "enc_attr (t, ?ws)" ?ws rest it t] assms
    by (simp add: item_bin_add_attr_data_def del: diff_add_cancel)
qed

lemma add_attr_encode_bytes:
  assumes "\<not> ATTR_IS_GROUP (at_type a)" "attr_data_bytes h a = Some d"
    "2 + length (words_of_bytes d) \<le> length rest" "small (encode it @ rest)"
  shows "item_bin_add_attr h (encode it @ rest) a as
    = Some (encode (it\<lparr>bi_attrs := bi_attrs it @ [(at_type a, words_of_bytes d)]\<rparr>) @ drop (2 + length (words_of_bytes d)) rest)"
  using add_attr_data_encode [OF assms(3,4), of "at_type a"] assms(1,2)
  by (simp add: item_bin_add_attr_def item_bin_add_attr_data_def attr_bin_write_attr_def)

section \<open>Bytes\<close>

definition is_byte :: "int \<Rightarrow> bool" where
  "is_byte b \<longleftrightarrow> 0 \<le> b \<and> b < 256"

lemma bytes_of_word_shift: "bytes_of_word (x + 4294967296 * q) = bytes_of_word x"
proof -
  have m: "(y + 256 * k) mod 256 = y mod 256" for y k :: int by simp
  have k: "4294967296 * q = 256 * (16777216 * q)" "4294967296 * q = 65536 * (65536 * q)"
    "4294967296 * q = 16777216 * (256 * q)" "16777216 * q = 256 * (65536 * q)" "65536 * q = 256 * (256 * q)" by simp_all
  have d: "(x + 4294967296 * q) div 256 = x div 256 + 16777216 * q"
    unfolding k(1) by (subst div_mult_self2) simp_all
  have d2: "(x + 4294967296 * q) div 65536 = x div 65536 + 65536 * q"
    unfolding k(2) by (subst div_mult_self2) simp_all
  have d3: "(x + 4294967296 * q) div 16777216 = x div 16777216 + 256 * q"
    unfolding k(3) by (subst div_mult_self2) simp_all
  have h: "(x + 4294967296 * q) mod 256 = x mod 256" unfolding k(1) by (rule m)
  have h2: "(x div 256 + 16777216 * q) mod 256 = x div 256 mod 256" unfolding k(4) by (rule m)
  have h3: "(x div 65536 + 65536 * q) mod 256 = x div 65536 mod 256" unfolding k(5) by (rule m)
  have h4: "(x div 16777216 + 256 * q) mod 256 = x div 16777216 mod 256" by (rule m)
  show ?thesis unfolding bytes_of_word_def d d2 d3 h h2 h3 h4 ..
qed

lemma bytes_of_word_i32: "bytes_of_word (i32 x) = bytes_of_word x"
proof -
  have "i32 x = x + 4294967296 * (- ((x + 2147483648) div 4294967296))"
    unfolding i32_def by (simp add: minus_mult_div_eq_mod [symmetric])
  then show ?thesis using bytes_of_word_shift by metis
qed

lemma bytes_of_word_of_bytes:
  assumes "is_byte a" "is_byte b" "is_byte c" "is_byte d"
  shows "bytes_of_word (word_of_bytes a b c d) = [a, b, c, d]"
proof -
  have step: "(u + 256 * v) mod 256 = u" "(u + 256 * v) div 256 = v" if "is_byte u" for u v
    using that by (simp_all add: is_byte_def)
  let ?x = "a + 256 * (b + 256 * (c + 256 * d))"
  have x: "a + 256 * b + 65536 * c + 16777216 * d = ?x" by simp
  have d2: "y div 65536 = y div 256 div 256" "y div 16777216 = y div 256 div 256 div 256" for y :: int
    using zdiv_zmult2_eq [of 256 y 256] zdiv_zmult2_eq [of 256 y 65536] zdiv_zmult2_eq [of 256 "y div 256" 256] by simp_all
  have "bytes_of_word ?x = [a, b, c, d]"
    unfolding bytes_of_word_def d2 step(2) [OF assms(1)] step(2) [OF assms(2)] step(2) [OF assms(3)]
      step(1) [OF assms(1)] step(1) [OF assms(2)] step(1) [OF assms(3)]
    using assms(4) by (simp add: is_byte_def)
  then show ?thesis unfolding word_of_bytes_def x bytes_of_word_i32 .
qed

text \<open>The padding of a block of bytes.\<close>

definition padding :: "int list \<Rightarrow> int list" where
  "padding bs = replicate ((4 - length bs mod 4) mod 4) 0"

lemma is_byte_0 [simp]: "is_byte 0"
  by (simp add: is_byte_def)

lemma padding_rest:
  "padding [a] = [0, 0, 0]" "padding [a, b] = [0, 0]" "padding [a, b, c] = [0]" "padding [] = []"
  "padding (a # b # c # d # bs) = padding bs"
proof -
  have r: "replicate 3 (0::int) = [0, 0, 0]" "replicate 2 (0::int) = [0, 0]"
    by (simp_all only: numeral_3_eq_3 numeral_2_eq_2 replicate.simps)
  have m: "length (a # b # c # d # bs) mod 4 = length bs mod 4" by (simp add: mod_Suc_eq flip: add_Suc_right) presburger
  show "padding [a] = [0, 0, 0]" "padding [a, b] = [0, 0]" "padding [a, b, c] = [0]" "padding [] = []"
    by (simp_all add: padding_def r)
  show "padding (a # b # c # d # bs) = padding bs" unfolding padding_def m ..
qed

lemma bytes_of_words_simps [simp]:
  "bytes_of_words [] = []" "bytes_of_words (w # ws) = bytes_of_word w @ bytes_of_words ws"
  by (simp_all add: bytes_of_words_def)

lemma bytes_words_padded:
  "\<forall>b \<in> set bs. is_byte b \<Longrightarrow> bytes_of_words (words_of_bytes bs) = bs @ padding bs"
proof (induction bs rule: words_of_bytes.induct)
  case (1 a b c d bs)
  then have "\<forall>b \<in> set bs. is_byte b" by simp
  then show ?case using 1 by (simp only: words_of_bytes.simps bytes_of_words_simps padding_rest bytes_of_word_of_bytes
    list.set ball_simps append.simps simp_thms)
qed (simp_all only: words_of_bytes.simps bytes_of_words_simps padding_rest bytes_of_word_of_bytes is_byte_0
    list.set ball_simps append.simps simp_thms)

lemma word_of_bytes_of_word:
  assumes "in_i32 w"
  shows "words_of_bytes (bytes_of_word w @ bs) = w # words_of_bytes bs"
proof -
  have d: "w div 65536 = w div 256 div 256" "w div 16777216 = w div 256 div 256 div 256"
    "w div 4294967296 = w div 256 div 256 div 256 div 256"
    by (simp_all flip: zdiv_zmult2_eq)
  have m: "y mod 256 = y - 256 * (y div 256)" for y :: int by (simp add: minus_mult_div_eq_mod)
  have t: "(x - 256 * x1) + 256 * (x1 - 256 * x2) + 65536 * (x2 - 256 * x3) + 16777216 * (x3 - 256 * x4) = x - 4294967296 * x4"
    for x x1 x2 x3 x4 :: int by simp
  have e: "w mod 256 + 256 * (w div 256 mod 256) + 65536 * (w div 65536 mod 256) + 16777216 * (w div 16777216 mod 256)
      = w - 4294967296 * (w div 4294967296)"
    unfolding d m by (rule t)
  have "i32 (w - 4294967296 * (w div 4294967296)) = i32 w"
    unfolding minus_mult_div_eq_mod i32_def by (simp add: mod_add_left_eq)
  then have "word_of_bytes (w mod 256) (w div 256 mod 256) (w div 65536 mod 256) (w div 16777216 mod 256) = w"
    unfolding word_of_bytes_def e using i32_id [OF assms] by simp
  then show ?thesis by (simp only: bytes_of_word_def append.simps words_of_bytes.simps)
qed

lemma words_bytes_words: "\<forall>w \<in> set ws. in_i32 w \<Longrightarrow> words_of_bytes (bytes_of_words ws) = ws"
  by (induction ws) (simp_all add: word_of_bytes_of_word)

lemma bytes_of_word_bytes: "\<forall>b \<in> set (bytes_of_word w). is_byte b"
  by (simp add: bytes_of_word_def is_byte_def)

section \<open>Finding attributes\<close>

text \<open>The index of the first attribute with the property, 0 for none.\<close>

fun attr_index :: "(int \<Rightarrow> int \<Rightarrow> bool) \<Rightarrow> (int \<times> int list) list \<Rightarrow> int \<Rightarrow> int" where
  "attr_index P [] i = 0"
| "attr_index P (a # as) i = (if P i (fst a) then i else attr_index P as (i + (int (length (snd a)) + 1) + 1))"

lemma find_attr_bin_index:
  "find_attr_bin P (xs @ enc_attrs as @ ys) (int (length xs)) (int (length (xs @ enc_attrs as)))
    = Some (attr_index P as (int (length xs)))"
proof (induction as arbitrary: xs)
  case Nil
  then show ?case by (subst find_attr_bin.simps) simp
next
  case (Cons a as)
  let ?b = "xs @ enc_attrs (a # as) @ ys"
  have r: "buf_read ?b (int (length xs)) = Some (int (length (snd a)) + 1)" "buf_read ?b (int (length xs) + 1) = Some (fst a)"
    using buf_read_at [of "int (length xs)" xs] buf_read_at [of "int (length xs) + 1" "xs @ [int (length (snd a)) + 1]"]
    by (simp_all add: enc_attr_def)
  have i: "find_attr_bin P ((xs @ enc_attr a) @ enc_attrs as @ ys) (int (length (xs @ enc_attr a)))
      (int (length ((xs @ enc_attr a) @ enc_attrs as))) = Some (attr_index P as (int (length (xs @ enc_attr a))))"
    by (rule Cons.IH)
  then show ?case using r by (subst find_attr_bin.simps) (simp add: algebra_simps)
qed

lemma find_attr_data_index:
  "find_attr_data p (xs @ enc_attrs as @ ys) (int (length xs)) (int (length (xs @ enc_attrs as)))
    = Some (attr_index (\<lambda>ab u. ab + 2 = p) as (int (length xs)))"
proof (induction as arbitrary: xs)
  case Nil
  then show ?case by (subst find_attr_data.simps) simp
next
  case (Cons a as)
  let ?b = "xs @ enc_attrs (a # as) @ ys"
  have r: "buf_read ?b (int (length xs)) = Some (int (length (snd a)) + 1)"
    using buf_read_at [of "int (length xs)" xs] by (simp add: enc_attr_def)
  have i: "find_attr_data p ((xs @ enc_attr a) @ enc_attrs as @ ys) (int (length (xs @ enc_attr a)))
      (int (length ((xs @ enc_attr a) @ enc_attrs as))) = Some (attr_index (\<lambda>ab u. ab + 2 = p) as (int (length (xs @ enc_attr a))))"
    by (rule Cons.IH)
  then show ?case using r by (subst find_attr_data.simps) (simp add: algebra_simps)
qed

lemma attr_index_split:
  assumes "\<forall>a \<in> set as. \<forall>i. \<not> P i (fst a)" "P (i + int (length (enc_attrs as))) (fst a)"
  shows "attr_index P (as @ a # bs) i = i + int (length (enc_attrs as))"
  using assms by (induction as arbitrary: i) (auto simp: algebra_simps)

lemma attr_index_none: "\<forall>a \<in> set as. \<forall>i. \<not> P i (fst a) \<Longrightarrow> attr_index P as i = 0"
  by (induction as arbitrary: i) auto

lemma attr_index_pointer:
  "attr_index (\<lambda>ab u. ab + 2 = i + int (length (enc_attrs as)) + 2) (as @ a # bs) i = i + int (length (enc_attrs as))"
proof (induction as arbitrary: i)
  case (Cons a' as)
  have "i + (int (length (snd a')) + 1) + 1 + int (length (enc_attrs as)) + 2 = i + int (length (enc_attrs (a' # as))) + 2"
    by simp
  then show ?case using Cons.IH [of "i + (int (length (snd a')) + 1) + 1"] by (simp add: algebra_simps)
qed simp

text \<open>The header of an encoded item, up to its attributes.\<close>

definition enc_head :: "bitem \<Rightarrow> int list" where
  "enc_head it = (2 + 2 * int (length (bi_coords it)) + int (length (enc_attrs (bi_attrs it)))) # i32 (bi_type it)
     # 2 * int (length (bi_coords it)) # coord_words (bi_coords it)"

lemma encode_head: "encode it = enc_head it @ enc_attrs (bi_attrs it)"
  by (simp add: encode_def enc_head_def Let_def)

lemma length_head [simp]: "length (enc_head it) = 3 + 2 * length (bi_coords it)"
  by (simp add: enc_head_def)

lemma find_in_item:
  "find_attr_bin P (encode it @ rest) (3 + 2 * int (length (bi_coords it))) (int (length (encode it)))
    = Some (attr_index P (bi_attrs it) (3 + 2 * int (length (bi_coords it))))"
  using find_attr_bin_index [of P "enc_head it" "bi_attrs it" rest] by (simp add: encode_head algebra_simps)

end
