(* ===== verification/Bin_Item_Spec.thy ===== *)
theory Bin_Item_Spec
  imports Bin_Encode
begin

text \<open>
  The operations on encoded items: building an item, enumerating and removing attributes, and the round
  trip through a file.
\<close>

section \<open>Building an item\<close>

text \<open>The attributes are added one after the other.\<close>

fun add_attrs :: "attr_heap \<Rightarrow> int list \<Rightarrow> attr list \<Rightarrow> int list option" where
  "add_attrs h ib [] = Some ib"
| "add_attrs h ib (a # as) = do { ib \<leftarrow> item_bin_add_attr h ib a []; add_attrs h ib as }"

definition words_of_attr :: "attr_heap \<Rightarrow> attr \<Rightarrow> int \<times> int list" where
  "words_of_attr h a = (at_type a, words_of_bytes (the (attr_data_bytes h a)))"

lemma small_add:
  assumes "small (encode it @ rest)" "length (enc_attr a) \<le> length rest"
  shows "small (encode (it\<lparr>bi_attrs := bi_attrs it @ [a]\<rparr>) @ drop (length (enc_attr a)) rest)"
  using assms unfolding small_def by (simp add: length_encode)

lemma add_attrs_encode:
  assumes "\<forall>a \<in> set as. \<not> ATTR_IS_GROUP (at_type a) \<and> attr_data_bytes h a \<noteq> None"
    "length (enc_attrs (map (words_of_attr h) as)) \<le> length rest" "small (encode it @ rest)"
  shows "add_attrs h (encode it @ rest) as
    = Some (encode (it\<lparr>bi_attrs := bi_attrs it @ map (words_of_attr h) as\<rparr>)
        @ drop (length (enc_attrs (map (words_of_attr h) as))) rest)"
  using assms
proof (induction as arbitrary: it rest)
  case (Cons a as)
  let ?w = "words_of_attr h a"
  obtain d where d: "attr_data_bytes h a = Some d" using Cons.prems(1) by auto
  have l: "2 + length (words_of_bytes d) \<le> length rest" using Cons.prems(2) d by (simp add: words_of_attr_def)
  have w: "?w = (at_type a, words_of_bytes d)" using d by (simp add: words_of_attr_def)
  have a: "item_bin_add_attr h (encode it @ rest) a []
    = Some (encode (it\<lparr>bi_attrs := bi_attrs it @ [?w]\<rparr>) @ drop (2 + length (words_of_bytes d)) rest)"
    using add_attr_encode_bytes [OF _ d l Cons.prems(3)] Cons.prems(1) unfolding w by simp
  have "small (encode (it\<lparr>bi_attrs := bi_attrs it @ [?w]\<rparr>) @ drop (2 + length (words_of_bytes d)) rest)"
    using small_add [OF Cons.prems(3), of ?w] l unfolding w by simp
  then show ?case
    using a Cons.IH [of "drop (2 + length (words_of_bytes d)) rest" "it\<lparr>bi_attrs := bi_attrs it @ [?w]\<rparr>"] Cons.prems w
    by (simp add: add.commute)
qed simp

text \<open>
  C29: a buffer that is long enough, filled by \<open>item_bin_init\<close>, \<open>item_bin_add_coord\<close> and then
  \<open>item_bin_add_attr\<close> for each attribute, holds the encoding of exactly the type, the coordinates and
  the attributes given, in order, and leaves the rest of the buffer alone.
\<close>

theorem itembin_build:
  assumes "\<forall>a \<in> set as. \<not> ATTR_IS_GROUP (at_type a) \<and> attr_data_bytes h a \<noteq> None"
    "it = \<lparr>bi_type = t, bi_coords = cs, bi_attrs = map (words_of_attr h) as\<rparr>"
    "length (encode it) \<le> length b" "small b"
  shows "do { ib \<leftarrow> item_bin_init b t; ib \<leftarrow> item_bin_add_coord ib cs; add_attrs h ib as }
    = Some (encode it @ drop (length (encode it)) b)"
proof -
  let ?i0 = "\<lparr>bi_type = t, bi_coords = [], bi_attrs = []\<rparr>" and ?i1 = "\<lparr>bi_type = t, bi_coords = cs, bi_attrs = []\<rparr>"
  have l: "length (encode it) = 3 + 2 * length cs + length (enc_attrs (map (words_of_attr h) as))"
    using assms(2) by (simp add: length_encode)
  have i: "item_bin_init b t = Some (encode ?i0 @ drop 3 b)" using l assms(3) by (intro init_encode) simp
  have s0: "small (encode ?i0 @ drop 3 b)" using l assms(3,4) unfolding small_def by (simp add: length_encode)
  have c: "item_bin_add_coord (encode ?i0 @ drop 3 b) cs = Some (encode ?i1 @ drop (2 * length cs) (drop 3 b))"
    using add_coord_encode [OF _ _ s0, of cs] l assms(3) by simp
  have s1: "small (encode ?i1 @ drop (2 * length cs) (drop 3 b))"
    using l assms(3,4) unfolding small_def by (simp add: length_encode)
  have "add_attrs h (encode ?i1 @ drop (2 * length cs) (drop 3 b)) as
    = Some (encode it @ drop (length (enc_attrs (map (words_of_attr h) as))) (drop (2 * length cs) (drop 3 b)))"
    using add_attrs_encode [OF assms(1) _ s1] l assms(2,3) by simp
  then show ?thesis using i c l by (simp add: add.assoc add.commute add.left_commute)
qed

theorem itembin_build_witness:
  "let h = \<lparr>ah_attr = Map.empty, ah_block = [100 \<mapsto> [72, 105, 0]]\<rparr>;
       as = [\<lparr>at_type = attr_type_string_begin, at_u = 100\<rparr>]; cs = [\<lparr>cx = 7, cy = -8\<rparr>];
       it = \<lparr>bi_type = 5, bi_coords = cs, bi_attrs = [(attr_type_string_begin, [26952])]\<rparr>
   in do { ib \<leftarrow> item_bin_init (replicate 10 9) 5; ib \<leftarrow> item_bin_add_coord ib cs; add_attrs h ib as }
      = Some (encode it @ [9, 9])"
proof -
  let ?h = "\<lparr>ah_attr = Map.empty, ah_block = [100 \<mapsto> [72, 105, 0]]\<rparr>"
  let ?as = "[\<lparr>at_type = attr_type_string_begin, at_u = 100\<rparr>]"
  have d: "map (words_of_attr ?h) ?as = [(attr_type_string_begin, [26952])]" by code_simp
  have a: "\<forall>a \<in> set ?as. \<not> ATTR_IS_GROUP (at_type a) \<and> attr_data_bytes ?h a \<noteq> None" by code_simp
  have l: "length (encode \<lparr>bi_type = 5, bi_coords = [\<lparr>cx = 7, cy = -8\<rparr>], bi_attrs = map (words_of_attr ?h) ?as\<rparr>) = 8"
    unfolding d by (simp add: length_encode)
  have "replicate 10 9 = replicate 8 9 @ [9, 9::int]" by code_simp
  then show ?thesis
    using itembin_build [OF a refl, of 5 "[\<lparr>cx = 7, cy = -8\<rparr>]" "replicate 10 9"] l
    unfolding Let_def d by (simp add: small_def INT_MAX_def)
qed

section \<open>Looking up and removing\<close>

text \<open>Callers ask for the next attribute of a type until there is none.\<close>

fun attrs_of_type :: "nat \<Rightarrow> int list \<Rightarrow> int \<Rightarrow> int \<Rightarrow> int list option" where
  "attrs_of_type 0 ib t lst = None"
| "attrs_of_type (Suc n) ib t lst = do {
     p \<leftarrow> item_bin_get_attr ib t lst;
     if p = 0 then Some [] else do { ps \<leftarrow> attrs_of_type n ib t p; Some (p # ps) }
   }"

definition data_at :: "int list \<Rightarrow> int \<Rightarrow> int list option" where
  "data_at ib p = do { n \<leftarrow> buf_read ib (p - 2); buf_slice ib p (n - 1) }"

text \<open>The attributes with the places where they start.\<close>

fun places :: "(int \<times> int list) list \<Rightarrow> int \<Rightarrow> (int \<times> int \<times> int list) list" where
  "places [] i = []"
| "places (a # as) i = (i, a) # places as (i + int (length (enc_attr a)))"

lemma map_snd_places [simp]: "map snd (places as i) = as"
  by (induction as arbitrary: i) auto

lemma places_ge: "p \<in> set (places as i) \<Longrightarrow> i \<le> fst p"
  by (induction as arbitrary: i) fastforce+

lemma places_sorted: "sorted_wrt (\<lambda>p q. fst p < fst q) (places as i)"
proof (induction as arbitrary: i)
  case (Cons a as)
  have "\<forall>q \<in> set (places as (i + int (length (enc_attr a)))). i < fst q" using places_ge by fastforce
  then show ?case using Cons.IH by simp
qed simp

lemma attr_index_places:
  "attr_index P as i = (case find (\<lambda>p. P (fst p) (fst (snd p))) (places as i) of None \<Rightarrow> 0 | Some p \<Rightarrow> fst p)"
  by (induction as arbitrary: i) (auto simp: algebra_simps)

lemma find_skip: "\<forall>q \<in> set qs. \<not> P q \<Longrightarrow> find P (qs @ rs) = find P rs"
  by (induction qs) auto

lemma data_at_place:
  "p \<in> set (places as (int (length xs))) \<Longrightarrow> data_at (xs @ enc_attrs as @ ys) (fst p + 2) = Some (snd (snd p))"
proof (induction as arbitrary: xs)
  case (Cons a as)
  show ?case
  proof (cases "p = (int (length xs), a)")
    case True
    have "buf_slice ((xs @ [int (length (snd a)) + 1, fst a]) @ snd a @ enc_attrs as @ ys) (int (length xs) + 2) (int (length (snd a)))
      = Some (snd a)" by (rule buf_slice_at) auto
    then show ?thesis using True buf_read_at [of "int (length xs)" xs] by (simp add: data_at_def enc_attr_def)
  next
    case False
    then have "p \<in> set (places as (int (length (xs @ enc_attr a))))" using Cons.prems by (simp add: ac_simps)
    then have "data_at ((xs @ enc_attr a) @ enc_attrs as @ ys) (fst p + 2) = Some (snd (snd p))" by (rule Cons.IH)
    then show ?thesis by simp
  qed
qed simp

lemma data_at_item:
  assumes "p \<in> set (places (bi_attrs it) (3 + 2 * int (length (bi_coords it))))"
  shows "data_at (encode it @ rest) (fst p + 2) = Some (snd (snd p))"
  using data_at_place [of p "bi_attrs it" "enc_head it" rest] assms by (simp add: encode_head)

lemma map_data_filter:
  "\<forall>p \<in> set ps. f (fst p + 2) = Some (snd (snd p))
    \<Longrightarrow> map f (map (\<lambda>r. fst r + 2) (filter (\<lambda>r. fst (snd r) = t) ps)) = map Some (map snd (filter (\<lambda>a. fst a = t) (map snd ps)))"
  by (induction ps) auto

lemma get_attr_next:
  assumes "places (bi_attrs it) (3 + 2 * int (length (bi_coords it))) = qs @ rs"
    "\<forall>q \<in> set qs. fst (snd q) = t \<longrightarrow> fst q + 2 \<le> lst" "\<forall>r \<in> set rs. lst < fst r + 2"
  shows "item_bin_get_attr (encode it @ rest) t lst
    = Some (case find (\<lambda>r. fst (snd r) = t) rs of None \<Rightarrow> 0 | Some r \<Rightarrow> fst r + 2)"
proof -
  let ?P = "\<lambda>ab u. u = t \<and> lst < ab + 2"
  have s: "find (\<lambda>p. ?P (fst p) (fst (snd p))) (qs @ rs) = find (\<lambda>p. ?P (fst p) (fst (snd p))) rs"
    using assms(2) by (intro find_skip) auto
  have r: "find (\<lambda>p. ?P (fst p) (fst (snd p))) rs = find (\<lambda>r. fst (snd r) = t) rs"
    using assms(3) by (intro find_cong) auto
  have pos: "fst r \<noteq> 0" if "find (\<lambda>r. fst (snd r) = t) rs = Some r" for r
  proof -
    have "r \<in> set (places (bi_attrs it) (3 + 2 * int (length (bi_coords it))))"
      using that assms(1) by (auto simp: find_Some_iff)
    then show ?thesis using places_ge by fastforce
  qed
  have "find_attr_bin ?P (encode it @ rest) (3 + 2 * int (length (bi_coords it))) (int (length (encode it)))
    = Some (case find (\<lambda>r. fst (snd r) = t) rs of None \<Rightarrow> 0 | Some r \<Rightarrow> fst r)"
    unfolding find_in_item attr_index_places assms(1) s r ..
  then show ?thesis using pos by (auto simp: item_bin_get_attr_def split: option.splits)
qed

lemma attrs_of_type_from:
  assumes "places (bi_attrs it) (3 + 2 * int (length (bi_coords it))) = qs @ rs"
    "\<forall>q \<in> set qs. fst (snd q) = t \<longrightarrow> fst q + 2 \<le> lst" "\<forall>r \<in> set rs. lst < fst r + 2" "length rs < n"
  shows "attrs_of_type n (encode it @ rest) t lst = Some (map (\<lambda>r. fst r + 2) (filter (\<lambda>r. fst (snd r) = t) rs))"
  using assms
proof (induction rs arbitrary: qs lst n)
  case Nil
  then show ?case using get_attr_next [OF Nil.prems(1-3)] by (cases n) auto
next
  case (Cons r rs)
  have sp: "places (bi_attrs it) (3 + 2 * int (length (bi_coords it))) = (qs @ [r]) @ rs" using Cons.prems(1) by simp
  obtain m where n: "n = Suc m" "length rs < m" using Cons.prems(4) by (cases n) auto
  have later: "\<forall>r' \<in> set rs. fst r < fst r'" "\<forall>q \<in> set qs. fst q < fst r"
    using places_sorted [of "bi_attrs it" "3 + 2 * int (length (bi_coords it))"]
    unfolding Cons.prems(1) by (auto simp: sorted_wrt_append)
  show ?case
  proof (cases "fst (snd r) = t")
    case True
    have g: "item_bin_get_attr (encode it @ rest) t lst = Some (fst r + 2)"
      using get_attr_next [OF Cons.prems(1-3)] True by simp
    have "r \<in> set (places (bi_attrs it) (3 + 2 * int (length (bi_coords it))))" using sp by simp
    then have "3 \<le> fst r" using places_ge by fastforce
    moreover have "attrs_of_type m (encode it @ rest) t (fst r + 2)
      = Some (map (\<lambda>r. fst r + 2) (filter (\<lambda>r. fst (snd r) = t) rs))"
      using later n(2) by (intro Cons.IH [OF sp]) auto
    ultimately show ?thesis using n(1) g True by simp
  next
    case False
    have "attrs_of_type n (encode it @ rest) t lst = Some (map (\<lambda>r. fst r + 2) (filter (\<lambda>r. fst (snd r) = t) rs))"
      using False Cons.prems(2-4) by (intro Cons.IH [OF sp]) auto
    then show ?thesis using False by simp
  qed
qed

text \<open>
  Asking \<open>item_bin_get_attr\<close> for the attributes of a type one after the other, each time with the
  address returned before, returns the null pointer after finitely many calls and has then returned the
  data of every attribute of this type, once and in order.
\<close>

theorem itembin_get_all:
  "\<exists>ps. attrs_of_type (Suc (length (bi_attrs it))) (encode it @ rest) t 0 = Some ps
    \<and> map (data_at (encode it @ rest)) ps = map Some (map snd (filter (\<lambda>a. fst a = t) (bi_attrs it)))"
proof -
  let ?pl = "places (bi_attrs it) (3 + 2 * int (length (bi_coords it)))"
  have l: "length ?pl = length (bi_attrs it)" by (metis length_map map_snd_places)
  have ge: "\<forall>r \<in> set ?pl. 0 < fst r + 2" using places_ge by fastforce
  have "attrs_of_type (Suc (length (bi_attrs it))) (encode it @ rest) t 0
    = Some (map (\<lambda>r. fst r + 2) (filter (\<lambda>r. fst (snd r) = t) ?pl))"
    using ge l by (intro attrs_of_type_from [of it "[]"]) auto
  moreover have "map (data_at (encode it @ rest)) (map (\<lambda>r. fst r + 2) (filter (\<lambda>r. fst (snd r) = t) ?pl))
    = map Some (map snd (filter (\<lambda>a. fst a = t) (map snd ?pl)))"
    by (rule map_data_filter) (simp add: data_at_item)
  ultimately show ?thesis unfolding map_snd_places by blast
qed

lemma remove_steps:
  assumes "ib_len ib = Some len" "attr_start ib = Some s" "find_attr_data ptr ib s (len + 1) = Some ab" "ab \<noteq> 0"
    "buf_read ib ab = Some alen" "buf_write ib 0 [i32 (len - (alen + 1))] = Some ib1"
    "buf_slice ib1 (ab + alen + 1) (len + 1 - (ab + alen + 1)) = Some rest" "buf_write ib1 ab rest = Some r"
  shows "item_bin_remove_attr ib ptr = Some r"
  using assms by (simp add: item_bin_remove_attr_def)

text \<open>
  C30: \<open>item_bin_remove_attr\<close> called with the data pointer of an attribute removes this attribute and
  nothing else: the buffer holds the encoding of the item without it, and as many stale words behind it
  as the attribute took.
\<close>

theorem itembin_remove:
  assumes "bi_attrs it = as @ a # bs" "small (encode it)"
    "ptr = 3 + 2 * int (length (bi_coords it)) + int (length (enc_attrs as)) + 2"
  shows "\<exists>stale. item_bin_remove_attr (encode it @ rest) ptr
      = Some (encode (it\<lparr>bi_attrs := as @ bs\<rparr>) @ stale @ rest) \<and> length stale = length (enc_attr a)"
proof -
  let ?i = "3 + 2 * int (length (bi_coords it))"
  let ?pre = "enc_head it @ enc_attrs as" and ?tl = "enc_attrs bs"
  let ?l = "int (length (encode it)) - 1 - (int (length (snd a)) + 1 + 1)"
  have e: "encode it @ rest = ?pre @ enc_attr a @ ?tl @ rest" using assms(1) by (simp add: encode_head)
  have pre: "int (length ?pre) = ?i + int (length (enc_attrs as))" by simp
  have f: "find_attr_data ptr (encode it @ rest) ?i (int (length (encode it))) = Some (int (length ?pre))"
    using find_attr_data_index [of ptr "enc_head it" "bi_attrs it" rest] attr_index_pointer [of ?i as a bs]
    unfolding assms(1,3) pre by (simp add: encode_head assms(1) algebra_simps)
  have alen: "buf_read (encode it @ rest) (int (length ?pre)) = Some (int (length (snd a)) + 1)"
    unfolding e using buf_read_at [of "int (length ?pre)" ?pre] by (simp add: enc_attr_def)
  have len: "int (length (encode it)) = int (length ?pre) + int (length (snd a)) + 2 + int (length ?tl)"
    using assms(1) by (simp add: length_encode)
  have "?l \<le> INT_MAX" "0 \<le> ?l" using assms(2) len unfolding small_def by auto
  then have i: "i32 ?l = ?l" by (intro i32_in_range) (simp_all add: INT_MAX_def)
  let ?h = "?l # tl ?pre"
  have h: "?pre = hd ?pre # tl ?pre" by (simp add: enc_head_def)
  have w: "buf_write (encode it @ rest) 0 [?l] = Some (?h @ enc_attr a @ ?tl @ rest)"
    unfolding e by (subst h) simp
  have lh: "length ?h = length ?pre" by (simp add: enc_head_def)
  have sl: "buf_slice (?h @ enc_attr a @ ?tl @ rest) (int (length ?pre) + (int (length (snd a)) + 1) + 1) (int (length ?tl)) = Some ?tl"
    using buf_slice_at [of _ "?h @ enc_attr a" _ ?tl rest] lh by simp
  have wr: "buf_write (?h @ enc_attr a @ ?tl @ rest) (int (length ?pre)) ?tl
    = Some (?h @ ?tl @ drop (length ?tl) (enc_attr a @ ?tl @ rest))"
    using lh by (intro buf_write_at) auto
  have enc: "?h @ ?tl = encode (it\<lparr>bi_attrs := as @ bs\<rparr>)"
    using assms(1) by (simp add: encode_head enc_head_def length_encode)
  let ?stale = "drop (length ?tl) (enc_attr a @ ?tl)"
  have d: "drop (length ?tl) (enc_attr a @ ?tl @ rest) = ?stale @ rest" by simp
  have e1: "int (length (encode it)) - (int (length ?pre) + (int (length (snd a)) + 1) + 1) = int (length ?tl)" using len by simp
  have z: "int (length ?pre) \<noteq> 0" by simp
  have "item_bin_remove_attr (encode it @ rest) ptr = Some (encode (it\<lparr>bi_attrs := as @ bs\<rparr>) @ ?stale @ rest)"
  proof (rule remove_steps)
    show "ib_len (encode it @ rest) = Some (int (length (encode it)) - 1)" "attr_start (encode it @ rest) = Some ?i"
      by (rule encode_fields)+
    show "find_attr_data ptr (encode it @ rest) ?i (int (length (encode it)) - 1 + 1) = Some (int (length ?pre))" using f by simp
    show "buf_read (encode it @ rest) (int (length ?pre)) = Some (int (length (snd a)) + 1)" by (rule alen)
    show "buf_write (encode it @ rest) 0 [i32 ?l] = Some (?h @ enc_attr a @ ?tl @ rest)" unfolding i by (rule w)
    show "buf_slice (?h @ enc_attr a @ ?tl @ rest) (int (length ?pre) + (int (length (snd a)) + 1) + 1)
      (int (length (encode it)) - 1 + 1 - (int (length ?pre) + (int (length (snd a)) + 1) + 1)) = Some ?tl"
      using sl e1 by (simp del: length_append)
    show "buf_write (?h @ enc_attr a @ ?tl @ rest) (int (length ?pre)) ?tl
      = Some (encode (it\<lparr>bi_attrs := as @ bs\<rparr>) @ ?stale @ rest)"
      using wr unfolding enc [symmetric] d by (simp only: append_assoc)
  qed (rule z)
  moreover have "length ?stale = length (enc_attr a)" by simp
  ultimately show ?thesis by blast
qed

theorem itembin_remove_witness:
  "\<exists>stale. item_bin_remove_attr (encode \<lparr>bi_type = 5, bi_coords = [\<lparr>cx = 7, cy = -8\<rparr>], bi_attrs = [(1, [2, 3]), (4, [5]), (6, [])]\<rparr> @ [9]) 11
      = Some (encode \<lparr>bi_type = 5, bi_coords = [\<lparr>cx = 7, cy = -8\<rparr>], bi_attrs = [(1, [2, 3]), (6, [])]\<rparr> @ stale @ [9])
    \<and> length stale = 3"
proof -
  let ?it = "\<lparr>bi_type = 5, bi_coords = [\<lparr>cx = 7, cy = -8\<rparr>], bi_attrs = [(1, [2, 3]), (4, [5]), (6, [])]\<rparr>"
  have a: "bi_attrs ?it = [(1, [2, 3])] @ (4, [5]) # [(6, [])]" by simp
  have s: "small (encode ?it)" by (simp add: small_def length_encode INT_MAX_def)
  have p: "11 = 3 + 2 * int (length (bi_coords ?it)) + int (length (enc_attrs [(1, [2, 3])])) + 2" by simp
  have l: "length (enc_attr (4, [5])) = 3" by simp
  have u: "?it\<lparr>bi_attrs := [(1, [2, 3])] @ [(6, [])]\<rparr> = \<lparr>bi_type = 5, bi_coords = [\<lparr>cx = 7, cy = -8\<rparr>], bi_attrs = [(1, [2, 3]), (6, [])]\<rparr>"
    by simp
  show ?thesis using itembin_remove [OF a s p, of "[9]"] unfolding l u .
qed

section \<open>Files\<close>

text \<open>Reading items until the end of the file or a broken item.\<close>

fun read_items :: "nat \<Rightarrow> int list \<Rightarrow> int list \<Rightarrow> (int list list \<times> int) option" where
  "read_items 0 b file = None"
| "read_items (Suc n) b file = do {
     (r, ib, file) \<leftarrow> item_bin_read b file;
     if r \<noteq> 2 then Some ([], r)
     else do {
       item \<leftarrow> item_bin_dup ib;
       (items, r) \<leftarrow> read_items n ib file;
       Some (item # items, r)
     }
   }"

fun write_items :: "int list list \<Rightarrow> int list \<Rightarrow> int list option" where
  "write_items [] out = Some out"
| "write_items (ib # ibs) out = do { out \<leftarrow> item_bin_write ib out; write_items ibs out }"

lemma encode_dup [simp]: "item_bin_dup (encode it @ rest) = Some (encode it)"
  using buf_slice_at [of 0 "[]" "int (length (encode it))" "encode it" rest] by (simp add: item_bin_dup_def)

lemma encode_write [simp]: "item_bin_write (encode it @ rest) out = Some (out @ encode it)"
  using buf_slice_at [of 0 "[]" "int (length (encode it))" "encode it" rest] by (simp add: item_bin_write_def)

lemma read_encode:
  assumes "length (encode it) \<le> length b"
  shows "item_bin_read b (encode it @ file) = Some (2, encode it @ drop (length (encode it)) b, file)"
proof -
  obtain ws where ws: "encode it = int (length ws) # ws" "ws \<noteq> []"
    unfolding encode_def Let_def by (simp add: coord_words_simps(4))
  obtain b0 br where b: "b = b0 # br" using assms ws by (cases b) auto
  have "buf_write (int (length ws) # br) 1 ws = Some ([int (length ws)] @ ws @ drop (length ws) br)"
    using buf_write_at [of 1 "[int (length ws)]" ws br] assms ws b by simp
  then show ?thesis using ws b by (simp add: item_bin_read_def Let_def)
qed

lemma read_items_step:
  assumes "item_bin_read b file = Some (2, encode it @ rest, file')" "read_items n (encode it @ rest) file' = Some (items, r)"
  shows "read_items (Suc n) b file = Some (encode it # items, r)"
  using assms by simp

lemma read_items_encode:
  "\<forall>it \<in> set its. length (encode it) \<le> length b
    \<Longrightarrow> read_items (Suc (length its)) b (concat (map encode its)) = Some (map encode its, 0)"
proof (induction its arbitrary: b)
  case Nil
  then show ?case by (simp add: item_bin_read_def)
next
  case (Cons it its)
  have r: "item_bin_read b (encode it @ concat (map encode its))
    = Some (2, encode it @ drop (length (encode it)) b, concat (map encode its))"
    using Cons.prems by (intro read_encode) simp
  have "read_items (Suc (length its)) (encode it @ drop (length (encode it)) b) (concat (map encode its)) = Some (map encode its, 0)"
    using Cons.prems by (intro Cons.IH) auto
  then show ?case using read_items_step [OF r] by simp
qed

lemma write_items_encode:
  "\<forall>x \<in> set xs. \<exists>rest. fst x = encode (snd x) @ rest
    \<Longrightarrow> write_items (map fst xs) out = Some (out @ concat (map encode (map snd xs)))"
  by (induction xs arbitrary: out) auto

text \<open>
  C36: a file written by \<open>item_bin_write\<close> from buffers that hold items is read back by
  \<open>item_bin_read\<close> item by item, the same ones in the same order, if the buffer they are read into is
  as long as each of them; the end of the file is reported as such.
\<close>

theorem itembin_file_roundtrip:
  assumes "\<forall>x \<in> set xs. \<exists>rest. fst x = encode (snd x) @ rest" "\<forall>x \<in> set xs. length (encode (snd x)) \<le> length b"
  shows "\<exists>file. write_items (map fst xs) [] = Some file
    \<and> read_items (Suc (length xs)) b file = Some (map (\<lambda>x. encode (snd x)) xs, 0)"
  using write_items_encode [OF assms(1), of "[]"] read_items_encode [of "map snd xs" b] assms(2) by (simp add: comp_def)

theorem itembin_file_roundtrip_witness:
  "let a = \<lparr>bi_type = 5, bi_coords = [\<lparr>cx = 7, cy = -8\<rparr>], bi_attrs = [(1, [2])]\<rparr>; c = \<lparr>bi_type = 6, bi_coords = [], bi_attrs = []\<rparr>
   in \<exists>file. write_items [encode a @ [8, 9], encode c] [] = Some file
     \<and> read_items 3 (replicate 20 0) file = Some ([encode a, encode c], 0)"
proof -
  let ?a = "\<lparr>bi_type = 5, bi_coords = [\<lparr>cx = 7, cy = -8\<rparr>], bi_attrs = [(1, [2])]\<rparr>"
  let ?c = "\<lparr>bi_type = 6, bi_coords = [], bi_attrs = []\<rparr>"
  have "\<forall>x \<in> set [(encode ?a @ [8, 9], ?a), (encode ?c, ?c)]. \<exists>rest. fst x = encode (snd x) @ rest" by auto
  moreover have "\<forall>x \<in> set [(encode ?a @ [8, 9], ?a), (encode ?c, ?c)]. length (encode (snd x)) \<le> length (replicate 20 (0::int))"
    by (simp add: length_encode)
  ultimately show ?thesis
    using itembin_file_roundtrip [of "[(encode ?a @ [8, 9], ?a), (encode ?c, ?c)]" "replicate 20 0"]
    by (simp add: Let_def numeral_3_eq_3)
qed

end
