(* ===== verification/Bin_Tile.thy ===== *)
theory Bin_Tile
  imports Bin_Item
begin

text \<open>
  The reader of map files (\<open>map/binfile/binfile.c\<close>): a rectangle of the map with its stack of tiles, the
  current item with its cursors for coordinates and attributes, and the changes of an item.

  A tile is a block of words; its pointers are indices into the block. A pointer returned to a caller is
  the list of words of the attribute it points to. The members of the zip archive are a parameter. A
  result \<open>None\<close> is an access outside of a block, a failed assertion, or a loop that does not end.
\<close>

section \<open>State\<close>

datatype bin_value =
  BNum int
| BRange int int
| BData "int list"
| BGroup "(int \<times> bin_value) list"

record btile =
  bt_data :: "int list"
  bt_end :: int
  bt_pos :: int
  bt_pos_coord_start :: int
  bt_pos_coord :: int
  bt_pos_attr_start :: int
  bt_pos_attr :: int
  bt_pos_next :: int
  bt_zipfile_num :: int
  bt_mode :: int

record crect =
  cr_lu :: coord
  cr_rl :: coord

record selection =
  sel_rect :: crect
  sel_order :: int

text \<open>The stack of tiles has the current tile first; its length is \<open>tile_depth\<close>.\<close>

record map_rect =
  mr_attr_last :: int
  mr_label :: bool
  mr_label_attr :: "int list option list"
  mr_sel :: "selection list"
  mr_item_type :: int
  mr_id_hi :: int
  mr_id_lo :: int
  mr_tiles :: "btile list"
  mr_country_id :: int
  mr_status :: int
  mr_search :: "(int \<times> (int list \<Rightarrow> int)) option"

text \<open>
  What a member of the archive gives: no directory entry or an empty one, an entry whose content cannot be
  read, or its words. \<open>bm_eoc\<close> tells whether the map is an archive at all.
\<close>

datatype zip_member = No_entry | No_content | Content "int list"

record bin_map =
  bm_eoc :: bool
  bm_zip_members :: int
  bm_zip :: "int \<Rightarrow> zip_member"
  bm_file :: "int list option"

definition cur_tile :: "map_rect \<Rightarrow> btile option" where
  "cur_tile mr = hd_opt (mr_tiles mr)"

definition set_tile :: "btile \<Rightarrow> map_rect \<Rightarrow> map_rect" where
  "set_tile t mr = mr\<lparr>mr_tiles := t # tl (mr_tiles mr)\<rparr>"

section \<open>Tiles\<close>

definition push_tile :: "map_rect \<Rightarrow> btile \<Rightarrow> int \<Rightarrow> int \<Rightarrow> map_rect option" where
  "push_tile mr t offset len =
     (if length (mr_tiles mr) < 8 then do {
        let t = t\<lparr>bt_pos := offset, bt_pos_next := offset\<rparr>;
        n \<leftarrow> (if len = -1 then map_option (\<lambda>w. w + 1) (buf_read (bt_data t) offset) else Some len);
        let t = (if n > 0 then t\<lparr>bt_end := offset + n\<rparr> else t);
        Some (mr\<lparr>mr_tiles := t # mr_tiles mr\<rparr>)
      } else None)"

definition pop_tile :: "map_rect \<Rightarrow> map_rect option" where
  "pop_tile mr = (if length (mr_tiles mr) \<le> 1 then None else Some (mr\<lparr>mr_tiles := tl (mr_tiles mr)\<rparr>))"

text \<open>\<open>t\<close> is the uninitialised structure the caller fills in. The result code tells of a failure.\<close>

definition push_zipfile_tile :: "bin_map \<Rightarrow> btile \<Rightarrow> map_rect \<Rightarrow> int \<Rightarrow> int \<Rightarrow> int \<Rightarrow> (bool \<times> map_rect) option" where
  "push_zipfile_tile m junk mr zipfile offset len =
     (case bm_zip m zipfile of
        No_entry \<Rightarrow> Some (True, mr)
      | No_content \<Rightarrow> Some (False, mr)
      | Content ws \<Rightarrow> do {
          mr \<leftarrow> push_tile mr (junk\<lparr>bt_data := ws, bt_end := int (length ws), bt_zipfile_num := zipfile,
            bt_mode := 1\<rparr>) offset len;
          Some (False, mr)
        })"

definition map_rect_new_binfile_int :: "selection list \<Rightarrow> map_rect" where
  "map_rect_new_binfile_int sel = \<lparr>mr_attr_last = 0, mr_label = False, mr_label_attr = replicate 5 None, mr_sel = sel,
     mr_item_type = 0, mr_id_hi = 0, mr_id_lo = 0, mr_tiles = [], mr_country_id = 0, mr_status = 0, mr_search = None\<rparr>"

definition map_rect_new_binfile :: "bin_map \<Rightarrow> btile \<Rightarrow> selection list \<Rightarrow> map_rect option" where
  "map_rect_new_binfile m junk sel = (let mr = map_rect_new_binfile_int sel in
     if bm_eoc m then Some (mr\<lparr>mr_status := 1\<rparr>)
     else do {
       ws \<leftarrow> bm_file m;
       push_tile mr (junk\<lparr>bt_data := ws, bt_end := int (length ws), bt_zipfile_num := 0, bt_mode := 0\<rparr>) 0 0
     })"

definition setup_pos :: "map_rect \<Rightarrow> map_rect option" where
  "setup_pos mr = do {
     t \<leftarrow> cur_tile mr;
     sz \<leftarrow> buf_read (bt_data t) (bt_pos t);
     ty \<leftarrow> buf_read (bt_data t) (bt_pos t + 1);
     coord_size \<leftarrow> buf_read (bt_data t) (bt_pos t + 2);
     let t = t\<lparr>bt_pos_next := bt_pos t + sz + 1, bt_pos_coord_start := bt_pos t + 3,
               bt_pos_attr_start := bt_pos t + 3 + coord_size\<rparr>;
     Some ((set_tile t mr)\<lparr>mr_item_type := u32 ty\<rparr>)
   }"

section \<open>Coordinates\<close>

definition binfile_coord_rewind :: "map_rect \<Rightarrow> map_rect option" where
  "binfile_coord_rewind mr = do {
     t \<leftarrow> cur_tile mr;
     Some (set_tile (t\<lparr>bt_pos_coord := bt_pos_coord_start t\<rparr>) mr)
   }"

definition binfile_coord_left :: "map_rect \<Rightarrow> int option" where
  "binfile_coord_left mr = do {
     t \<leftarrow> cur_tile mr;
     Some (cdiv (bt_pos_attr_start t - bt_pos_coord t) 2)
   }"

definition binfile_coord_get :: "map_rect \<Rightarrow> int \<Rightarrow> (coord list \<times> map_rect) option" where
  "binfile_coord_get mr count = do {
     t \<leftarrow> cur_tile mr;
     mx \<leftarrow> binfile_coord_left mr;
     let count = (if count > mx then mx else count);
     ws \<leftarrow> buf_slice (bt_data t) (bt_pos_coord t) (2 * count);
     Some (coords_of_words ws, set_tile (t\<lparr>bt_pos_coord := bt_pos_coord t + count * 2\<rparr>) mr)
   }"

section \<open>Attributes\<close>

definition attr_house_number :: int where "attr_house_number = 0x30036"
definition attr_street_name :: int where "attr_street_name = 0x3000d"
definition attr_street_name_systematic :: int where "attr_street_name_systematic = 0x3000e"
definition attr_district_name :: int where "attr_district_name = 0x3000c"
definition attr_town_name :: int where "attr_town_name = 0x3000a"
definition attr_town_or_district_name :: int where "attr_town_or_district_name = 0x30044"
definition attr_first_key :: int where "attr_first_key = 0x30078"
definition attr_last_key :: int where "attr_last_key = 0x30079"
definition attr_zipfile_ref :: int where "attr_zipfile_ref = 0x20009"
definition attr_country_id :: int where "attr_country_id = 0x2000a"
definition type_line :: int where "type_line = 0x80000000"
definition type_submap :: int where "type_submap = 0xc000001b"
definition type_countryindex :: int where "type_countryindex = 0xc0000023"

definition i16 :: "int \<Rightarrow> int" where
  "i16 x = (x + 32768) mod 65536 - 32768"

text \<open>\<open>attr_data_set_le\<close> with the address of the data as block and index, \<open>n\<close> its number of words.\<close>

definition attr_data_set_le :: "int \<Rightarrow> int list \<Rightarrow> int \<Rightarrow> int \<Rightarrow> bin_value option" where
  "attr_data_set_le t b i n =
     (if (attr_type_int_begin \<le> t \<and> t \<le> attr_type_int_end)
        \<or> (attr_type_item_type_begin \<le> t \<and> t \<le> attr_type_item_type_end)
      then map_option BNum (buf_read b i)
      else if t = attr_order then map_option (\<lambda>w. BRange (i16 w) (i16 (w div 65536))) (buf_read b i)
      else map_option BData (buf_slice b i n))"

definition binfile_attr_rewind :: "map_rect \<Rightarrow> map_rect option" where
  "binfile_attr_rewind mr = do {
     t \<leftarrow> cur_tile mr;
     Some ((set_tile (t\<lparr>bt_pos_attr := bt_pos_attr_start t\<rparr>) mr)\<lparr>mr_label := False, mr_label_attr := replicate 5 None\<rparr>)
   }"

text \<open>The place of an attribute that can serve as label.\<close>

definition label_slot :: "int \<Rightarrow> int \<Rightarrow> nat option" where
  "label_slot item_type t =
     (if t = attr_house_number then Some 0
      else if t = attr_street_name then Some 1
      else if t = attr_street_name_systematic then Some 2
      else if t = attr_district_name \<and> item_type < type_line then Some 3
      else if t = attr_town_name \<and> item_type < type_line then Some 4
      else None)"

text \<open>The attributes of a group, seven at most.\<close>

fun group_get :: "nat \<Rightarrow> int list \<Rightarrow> int \<Rightarrow> int \<Rightarrow> (int \<times> bin_value) list option" where
  "group_get 0 b subpos size_rem = Some []"
| "group_get (Suc n) b subpos size_rem =
     (if size_rem > 0 then do {
        subsize \<leftarrow> buf_read b subpos;
        subtype \<leftarrow> buf_read b (subpos + 1);
        v \<leftarrow> attr_data_set_le subtype b (subpos + 2) (subsize - 1);
        vs \<leftarrow> group_get n b (subpos + 1 + subsize) (size_rem - (subsize + 1));
        Some ((subtype, v) # vs)
      } else Some [])"

text \<open>Remembering a label, and the first remembered one at the end.\<close>

definition note_label :: "int \<Rightarrow> int list \<Rightarrow> map_rect \<Rightarrow> map_rect" where
  "note_label t ws mr =
     (let mr = (if t = attr_label then mr\<lparr>mr_label := True\<rparr> else mr)
      in case label_slot (mr_item_type mr) t of
           None \<Rightarrow> mr
         | Some k \<Rightarrow> mr\<lparr>mr_label_attr := (mr_label_attr mr)[k := Some ws]\<rparr>)"

definition get_label :: "map_rect \<Rightarrow> int \<Rightarrow> (int \<times> bin_value) option \<times> map_rect" where
  "get_label mr t =
     (if \<not> mr_label mr \<and> (t = attr_any \<or> t = attr_label)
      then case find (\<lambda>l. l \<noteq> None) (mr_label_attr mr) of
          Some (Some ws) \<Rightarrow> (Some (attr_label, BData ws), mr\<lparr>mr_label := True\<rparr>)
        | _ \<Rightarrow> (None, mr)
      else (None, mr))"

partial_function (option) attr_get_loop :: "map_rect \<Rightarrow> int \<Rightarrow> ((int \<times> bin_value) option \<times> map_rect) option" where
  "attr_get_loop mr attr_type = do {
     t \<leftarrow> cur_tile mr;
     if bt_pos_attr t < bt_pos_next t then do {
       sz \<leftarrow> buf_read (bt_data t) (bt_pos_attr t);
       let p = bt_pos_attr t + 1;
       ty \<leftarrow> buf_read (bt_data t) p;
       ws \<leftarrow> buf_slice (bt_data t) (p + 1) (sz - 1);
       let mr = note_label ty ws mr;
       let mr' = set_tile (t\<lparr>bt_pos_attr := p + sz\<rparr>) mr;
       if ty = attr_type \<or> attr_type = attr_any then do {
         v \<leftarrow> (if ATTR_IS_GROUP ty then map_option BGroup (group_get 7 (bt_data t) (p + 1) (sz - 1))
              else attr_data_set_le ty (bt_data t) (p + 1) (sz - 1));
         Some (Some (ty, v), mr')
       } else attr_get_loop mr' attr_type
     } else Some (get_label mr attr_type)
   }"

definition binfile_attr_get :: "map_rect \<Rightarrow> int \<Rightarrow> ((int \<times> bin_value) option \<times> map_rect) option" where
  "binfile_attr_get mr attr_type = do {
     t \<leftarrow> cur_tile mr;
     let mr = (if attr_type \<noteq> mr_attr_last mr
       then (set_tile (t\<lparr>bt_pos_attr := bt_pos_attr_start t\<rparr>) mr)\<lparr>mr_attr_last := attr_type\<rparr> else mr);
     attr_get_loop mr attr_type
   }"

section \<open>Changing an item\<close>

datatype change_mode = change_mode_delete | change_mode_modify | change_mode_append | change_mode_prepend

text \<open>The item is copied into a new block; the words added at its end hold whatever was in the memory.\<close>

definition binfile_item_dup :: "(nat \<Rightarrow> int list) \<Rightarrow> btile \<Rightarrow> int \<Rightarrow> int list option" where
  "binfile_item_dup memory t extra = do {
     sz \<leftarrow> buf_read (bt_data t) (bt_pos t);
     ws \<leftarrow> buf_slice (bt_data t) (bt_pos t) (sz + 1);
     Some (ws @ memory (nat extra))
   }"

definition buf_move :: "int list \<Rightarrow> int \<Rightarrow> int \<Rightarrow> int \<Rightarrow> int list option" where
  "buf_move b dst src n =
     (if n = 0 then Some b else do { ws \<leftarrow> buf_slice b src n; buf_write b dst ws })"

text \<open>
  The loops that print the words of an item. \<open>dbg\<close> is a macro that evaluates its arguments, and so steps
  the pointer, only when the debug level is high enough; \<open>verbose\<close> says whether it is. The last of the loops in
  \<open>binfile_attr_set\<close> prints the cursor and never steps.
\<close>

partial_function (option) dump_words :: "bool \<Rightarrow> int \<Rightarrow> int \<Rightarrow> unit option" where
  "dump_words verbose i e = (if i < e then dump_words verbose (if verbose then i + 1 else i) e else Some ())"

partial_function (option) dump_cursor :: "int \<Rightarrow> int \<Rightarrow> unit option" where
  "dump_cursor i e = (if i < e then dump_cursor i e else Some ())"

text \<open>
  What a change of the coordinates moves and writes, from the position \<open>coffset\<close> of the coordinate read last and the
  number \<open>clen\<close> of words from it on: the growth of the item, the start and the length of the words that are moved,
  and where the new coordinates go. \<open>alen\<close> and \<open>rest\<close> are the lengths of the coordinates and of the item behind its header.
\<close>

definition coord_set_plan :: "change_mode \<Rightarrow> int \<Rightarrow> int \<Rightarrow> int \<Rightarrow> int \<Rightarrow> int \<Rightarrow> int \<times> int \<times> int \<times> int" where
  "coord_set_plan mode count coffset clen alen rest =
     (case mode of
        change_mode_delete \<Rightarrow> (let move_offset = coffset + count * 2 in (- count * 2, move_offset, rest - move_offset, 0))
      | change_mode_modify \<Rightarrow>
          if count * 2 > clen then (count * 2 - clen, alen, rest - alen, coffset) else (0, 0, 0, coffset)
      | change_mode_prepend \<Rightarrow> (let move_offset = coffset - 2 in (count * 2, move_offset, rest - move_offset, coffset - 2))
      | change_mode_append \<Rightarrow> (let move_offset = coffset in (count * 2, move_offset, rest - move_offset, coffset)))"

text \<open>\<open>junk\<close> is the variable \<open>new\<close>, of which only the start, the zip file number and the mode are set.\<close>

definition coord_set_apply ::
  "bool \<Rightarrow> (nat \<Rightarrow> int list) \<Rightarrow> btile \<Rightarrow> map_rect \<Rightarrow> btile \<Rightarrow> change_mode \<Rightarrow> int \<Rightarrow> int \<Rightarrow> int \<Rightarrow> int \<Rightarrow> int \<Rightarrow> int \<Rightarrow> coord list
    \<Rightarrow> map_rect option" where
  "coord_set_apply verbose memory junk mr t mode aoffset coffset delta move_offset move_len write_offset c = do {
     data \<leftarrow> binfile_item_dup memory t (if delta > 0 then delta else 0);
     n \<leftarrow> buf_read data 0;
     data \<leftarrow> buf_write data 0 [i32 (n + delta)];
     n \<leftarrow> buf_read data 2;
     data \<leftarrow> buf_write data 2 [i32 (n + delta)];
     mr \<leftarrow> push_tile mr (junk\<lparr>bt_data := data, bt_pos := 0, bt_zipfile_num := bt_zipfile_num t, bt_mode := 2\<rparr>) 0 0;
     mr \<leftarrow> setup_pos mr;
     tn \<leftarrow> cur_tile mr;
     let tn = tn\<lparr>bt_pos_coord := bt_pos_coord_start tn + coffset, bt_pos_attr := bt_pos_attr_start tn + aoffset\<rparr>;
     data \<leftarrow> buf_move (bt_data tn) (bt_pos_coord_start tn + move_offset + delta) (bt_pos_coord_start tn + move_offset) move_len;
     dump_words verbose (bt_pos tn) (bt_pos_next tn);
     let tn = (if mode \<noteq> change_mode_append then tn\<lparr>bt_pos_coord := bt_pos_coord tn + move_offset\<rparr> else tn);
     data \<leftarrow> (if mode \<noteq> change_mode_delete then buf_write data (bt_pos_coord_start tn + write_offset) (coord_words c) else Some data);
     dump_words verbose (bt_pos tn) (bt_pos_next tn);
     Some (set_tile (tn\<lparr>bt_data := data\<rparr>) mr)
   }"

definition binfile_coord_set ::
  "bool \<Rightarrow> (nat \<Rightarrow> int list) \<Rightarrow> btile \<Rightarrow> map_rect \<Rightarrow> coord list \<Rightarrow> int \<Rightarrow> change_mode \<Rightarrow> map_rect option" where
  "binfile_coord_set verbose memory junk mr c count mode = do {
     t \<leftarrow> cur_tile mr;
     dump_words verbose (bt_pos t) (bt_pos_next t);
     let aoffset = bt_pos_attr t - bt_pos_attr_start t;
     let coffset = bt_pos_coord t - bt_pos_coord_start t - 2;
     let clen = bt_pos_attr_start t - bt_pos_coord t + 2;
     let count = (if mode = change_mode_delete \<and> count * 2 > clen then cdiv clen 2 else count);
     let (delta, move_offset, move_len, write_offset) =
       coord_set_plan mode count coffset clen (bt_pos_attr_start t - bt_pos_coord_start t) (bt_pos_next t - bt_pos_coord_start t);
     coord_set_apply verbose memory junk mr t mode aoffset coffset delta move_offset move_len write_offset (take (nat count) c)
   }"

text \<open>The attribute selected last starts at the second result and ends at the first; the third is its length.\<close>

partial_function (option) selected_attr :: "int list \<Rightarrow> int \<Rightarrow> int \<Rightarrow> int \<Rightarrow> int \<Rightarrow> int \<Rightarrow> (int \<times> int \<times> int) option" where
  "selected_attr b start naoffset offset write_offset oattr_len =
     (if offset < naoffset then do {
        n \<leftarrow> buf_read b (start + offset);
        selected_attr b start naoffset (offset + (n + 1)) offset (n + 1)
      } else Some (offset, write_offset, oattr_len))"

text \<open>
  The second half of \<open>binfile_attr_set\<close>: the item is copied, the words from \<open>move_offset\<close> on are moved by
  \<open>delta\<close>, the new attribute is written.
\<close>

definition attr_set_apply ::
  "bool \<Rightarrow> (nat \<Rightarrow> int list) \<Rightarrow> btile \<Rightarrow> map_rect \<Rightarrow> btile \<Rightarrow> change_mode \<Rightarrow> int \<Rightarrow> int \<Rightarrow> int \<Rightarrow> int \<Rightarrow> int \<Rightarrow> int \<Rightarrow> int list
    \<Rightarrow> map_rect option" where
  "attr_set_apply verbose memory junk mr t mode coffset offset move_offset move_len write_offset delta nattr = do {
     data \<leftarrow> binfile_item_dup memory t (if delta > 0 then delta else 0);
     n \<leftarrow> buf_read data 0;
     data \<leftarrow> buf_write data 0 [i32 (n + delta)];
     mr \<leftarrow> push_tile mr (junk\<lparr>bt_data := data, bt_pos := 0, bt_zipfile_num := bt_zipfile_num t, bt_mode := 2\<rparr>) 0 0;
     mr \<leftarrow> setup_pos mr;
     tn \<leftarrow> cur_tile mr;
     let tn = tn\<lparr>bt_pos_coord := bt_pos_coord_start tn + coffset, bt_pos_attr := bt_pos_attr_start tn + offset\<rparr>;
     data \<leftarrow> buf_move (bt_data tn) (bt_pos_attr_start tn + move_offset + delta) (bt_pos_attr_start tn + move_offset) move_len;
     let tn = (if mode \<noteq> change_mode_append then tn\<lparr>bt_pos_attr := bt_pos_attr tn + delta\<rparr> else tn);
     dump_words verbose (bt_pos tn) (bt_pos_next tn);
     data \<leftarrow> (if nattr \<noteq> [] then buf_write data (bt_pos_attr_start tn + write_offset) nattr else Some data);
     Some (set_tile (tn\<lparr>bt_data := data\<rparr>) mr)
   }"

text \<open>Everything before the last block of \<open>binfile_attr_set\<close>, which prints the result.\<close>

definition attr_set_edit ::
  "bool \<Rightarrow> (nat \<Rightarrow> int list) \<Rightarrow> btile \<Rightarrow> attr_heap \<Rightarrow> map_rect \<Rightarrow> attr \<Rightarrow> change_mode \<Rightarrow> (bool \<times> map_rect) option" where
  "attr_set_edit verbose memory junk h mr a mode = do {
     t \<leftarrow> cur_tile mr;
     dump_words verbose (bt_pos t) (bt_pos_next t);
     let naoffset = bt_pos_attr t - bt_pos_attr_start t;
     let coffset = bt_pos_coord t - bt_pos_coord_start t;
     if naoffset = 0 \<and> (mode = change_mode_delete \<or> mode = change_mode_modify) then Some (False, mr)
     else do {
       let naoffset = (if naoffset = 0 \<and> mode = change_mode_append then bt_pos_next t - bt_pos_attr_start t else naoffset);
       (offset, write_offset, oattr_len) \<leftarrow> selected_attr (bt_data t) (bt_pos_attr_start t) naoffset 0 0 0;
       let move_len = bt_pos_next t - bt_pos_attr_start t - offset;
       nattr \<leftarrow> (if mode = change_mode_delete then Some [] else do {
         bs \<leftarrow> attr_data_bytes h a;
         let ws = words_of_bytes bs;
         Some ((int (length ws) + 1) # at_type a # ws)
       });
       let nattr_len = int (length nattr);
       let (move_offset, move_len) =
         (if mode = change_mode_prepend then (write_offset, move_len + oattr_len) else (offset, move_len));
       let write_offset = (if mode = change_mode_append then move_offset else write_offset);
       let delta = (if mode = change_mode_delete \<or> mode = change_mode_modify then nattr_len - oattr_len else nattr_len);
       mr \<leftarrow> attr_set_apply verbose memory junk mr t mode coffset offset move_offset move_len write_offset delta nattr;
       Some (True, mr)
     }
   }"

definition binfile_attr_set ::
  "bool \<Rightarrow> (nat \<Rightarrow> int list) \<Rightarrow> btile \<Rightarrow> attr_heap \<Rightarrow> map_rect \<Rightarrow> attr \<Rightarrow> change_mode \<Rightarrow> (bool \<times> map_rect) option" where
  "binfile_attr_set verbose memory junk h mr a mode = do {
     (changed, mr) \<leftarrow> attr_set_edit verbose memory junk h mr a mode;
     if \<not> changed then Some (False, mr)
     else do {
       tn \<leftarrow> cur_tile mr;
       dump_cursor (bt_pos tn) (bt_pos_next tn);
       dump_words verbose (bt_pos tn) (bt_pos_next tn);
       Some (True, mr)
     }
   }"

section \<open>Selecting tiles\<close>

definition coord_rect_overlap :: "crect \<Rightarrow> crect \<Rightarrow> bool" where
  "coord_rect_overlap r1 r2 =
     (if cx (cr_lu r1) > cx (cr_rl r1) \<or> cy (cr_lu r1) < cy (cr_rl r1) then False
      else if cx (cr_lu r2) > cx (cr_rl r2) \<or> cy (cr_lu r2) < cy (cr_rl r2) then False
      else if cx (cr_lu r1) > cx (cr_rl r2) then False
      else if cx (cr_rl r1) < cx (cr_lu r2) then False
      else if cy (cr_lu r1) < cy (cr_rl r2) then False
      else if cy (cr_rl r1) > cy (cr_lu r2) then False
      else True)"

text \<open>A missing selection contains everything; it is the empty list.\<close>

fun selections_contain :: "selection list \<Rightarrow> crect \<Rightarrow> int \<Rightarrow> int \<Rightarrow> bool" where
  "selections_contain [] r mn mx = False"
| "selections_contain (s # ss) r mn mx =
     (if coord_rect_overlap r (sel_rect s) then
        (if mn = 0 \<and> mx = 0 then True
         else if sel_order s \<ge> mn \<and> sel_order s \<le> mx then True
         else selections_contain ss r mn mx)
      else selections_contain ss r mn mx)"

definition selection_contains :: "selection list \<Rightarrow> crect \<Rightarrow> int \<Rightarrow> int \<Rightarrow> bool" where
  "selection_contains ss r mn mx = (if ss = [] then True else selections_contain ss r mn mx)"

text \<open>The result tells whether the driver is busy; \<open>order\<close> and \<open>zipfile_ref\<close> are read as range and number.\<close>

definition map_parse_submap :: "bin_map \<Rightarrow> btile \<Rightarrow> map_rect \<Rightarrow> (bool \<times> map_rect) option" where
  "map_parse_submap m junk mr = do {
     (c, mr) \<leftarrow> binfile_coord_get mr 2;
     if length c \<noteq> 2 then Some (False, mr)
     else do {
       let r = \<lparr>cr_lu = \<lparr>cx = cx (c ! 0), cy = cy (c ! 1)\<rparr>, cr_rl = \<lparr>cx = cx (c ! 1), cy = cy (c ! 0)\<rparr>\<rparr>;
       (at, mr) \<leftarrow> binfile_attr_get mr attr_order;
       (case at of
          Some (_, BRange mn mx) \<Rightarrow>
            if \<not> bm_eoc m \<or> \<not> selection_contains (mr_sel mr) r mn mx then Some (False, mr)
            else do {
              (at, mr) \<leftarrow> binfile_attr_get mr attr_zipfile_ref;
              (case at of
                 Some (_, BNum n) \<Rightarrow> push_zipfile_tile m junk mr n 0 0
               | _ \<Rightarrow> Some (False, mr))
            }
        | _ \<Rightarrow> Some (False, mr))
     }
   }"

text \<open>
  A country index is entered when its country is the one searched for and the names between its keys
  can match; the comparison of a key with the name searched for is part of the rectangle.
\<close>

definition map_parse_country_binfile :: "bin_map \<Rightarrow> btile \<Rightarrow> map_rect \<Rightarrow> map_rect option" where
  "map_parse_country_binfile m junk mr = do {
     (at, mr) \<leftarrow> binfile_attr_get mr attr_country_id;
     (case at of
        Some (_, BNum c) \<Rightarrow>
          if c \<noteq> mr_country_id mr then Some mr
          else do {
            (at, mr) \<leftarrow> binfile_attr_get mr attr_zipfile_ref;
            (case at of
               Some (_, BNum z) \<Rightarrow> do {
                 (skip, mr) \<leftarrow>
                   (case mr_search mr of
                      Some (ty, compare) \<Rightarrow>
                        if ty = attr_town_name \<or> ty = attr_district_name \<or> ty = attr_town_or_district_name then do {
                          (af, mr) \<leftarrow> binfile_attr_get mr attr_first_key;
                          if (case af of Some (_, BData ws) \<Rightarrow> compare ws > 0 | _ \<Rightarrow> False) then Some (True, mr)
                          else do {
                            (al, mr) \<leftarrow> binfile_attr_get mr attr_last_key;
                            Some (case al of Some (_, BData ws) \<Rightarrow> compare ws < 0 | _ \<Rightarrow> False, mr)
                          }
                        } else Some (False, mr)
                    | None \<Rightarrow> Some (False, mr));
                 if skip then Some mr else map_option snd (push_zipfile_tile m junk mr z 0 0)
               }
             | _ \<Rightarrow> Some mr)
          }
      | _ \<Rightarrow> Some mr)
   }"

section \<open>Items of a rectangle\<close>

datatype got_item = Item_busy | Item_got | Item_end

partial_function (option) get_item_loop :: "bin_map \<Rightarrow> btile \<Rightarrow> map_rect \<Rightarrow> (got_item \<times> map_rect) option" where
  "get_item_loop m junk mr =
     (case cur_tile mr of
        None \<Rightarrow> Some (Item_end, mr)
      | Some t \<Rightarrow>
          (let mr = set_tile (t\<lparr>bt_pos := bt_pos_next t\<rparr>) mr in
           if bt_pos_next t \<ge> bt_end t then
             (case pop_tile mr of
                Some mr' \<Rightarrow> get_item_loop m junk mr'
              | None \<Rightarrow> Some (Item_end, mr))
           else do {
             mr \<leftarrow> setup_pos mr;
             mr \<leftarrow> binfile_coord_rewind mr;
             mr \<leftarrow> binfile_attr_rewind mr;
             if mr_item_type mr = type_submap \<and> mr_country_id mr = 0 then do {
               (busy, mr) \<leftarrow> map_parse_submap m junk mr;
               if busy then Some (Item_busy, mr) else get_item_loop m junk mr
             } else do {
               let mr = (if bt_mode t \<noteq> 2 then mr\<lparr>mr_id_hi := bt_zipfile_num t, mr_id_lo := bt_pos_next t\<rparr> else mr);
               if mr_country_id mr \<noteq> 0 then do {
                 mr \<leftarrow> (if mr_item_type mr = type_countryindex then map_parse_country_binfile m junk mr else Some mr);
                 if item_is_town (mr_item_type mr) then Some (Item_got, mr) else get_item_loop m junk mr
               } else Some (Item_got, mr)
             }
           }))"

definition map_rect_get_item_binfile :: "bin_map \<Rightarrow> btile \<Rightarrow> map_rect \<Rightarrow> (got_item \<times> map_rect) option" where
  "map_rect_get_item_binfile m junk mr =
     (if mr_status mr = 1 then do {
        (busy, mr) \<leftarrow> push_zipfile_tile m junk (mr\<lparr>mr_status := 0\<rparr>) (bm_zip_members m - 1) 0 0;
        if busy then Some (Item_busy, mr) else get_item_loop m junk mr
      } else get_item_loop m junk mr)"

text \<open>The archive is entered from the first tile of the stack.\<close>

definition map_rect_get_item_byid_binfile :: "bin_map \<Rightarrow> btile \<Rightarrow> map_rect \<Rightarrow> int \<Rightarrow> int \<Rightarrow> (got_item \<times> map_rect) option" where
  "map_rect_get_item_byid_binfile m junk mr id_hi id_lo = do {
     (failed, mr) \<leftarrow>
       (if bm_eoc m then push_zipfile_tile m junk (mr\<lparr>mr_tiles := drop (length (mr_tiles mr) - 1) (mr_tiles mr)\<rparr>) id_hi 0 0
        else Some (False, mr));
     if failed then Some (Item_end, mr)
     else do {
       t \<leftarrow> cur_tile mr;
       let mr = (set_tile (t\<lparr>bt_pos := id_lo\<rparr>) mr)\<lparr>mr_id_hi := id_hi, mr_id_lo := id_lo\<rparr>;
       mr \<leftarrow> setup_pos mr;
       mr \<leftarrow> binfile_coord_rewind mr;
       mr \<leftarrow> binfile_attr_rewind mr;
       Some (Item_got, mr)
     }
   }"

end
