(* ===== verification/Bin_Reader.thy ===== *)
theory Bin_Reader
  imports Bin_Encode Bin_Tile
begin

text \<open>
  Reading a tile of encoded items: the cursors for coordinates and attributes, the label, and the traversal of
  the tiles of an archive.
\<close>

section \<open>The current item\<close>

definition is_number :: "int \<Rightarrow> bool" where
  "is_number t \<longleftrightarrow> (attr_type_int_begin \<le> t \<and> t \<le> attr_type_int_end)
     \<or> (attr_type_item_type_begin \<le> t \<and> t \<le> attr_type_item_type_end)"

definition decode :: "int \<times> int list \<Rightarrow> int \<times> bin_value" where
  "decode a = (fst a, if is_number (fst a) then BNum (hd (snd a))
     else if fst a = attr_order then BRange (i16 (hd (snd a))) (i16 (hd (snd a) div 65536))
     else BData (snd a))"

text \<open>Numbers need their word; groups are left aside.\<close>

definition plain_attr :: "int \<times> int list \<Rightarrow> bool" where
  "plain_attr a \<longleftrightarrow> \<not> ATTR_IS_GROUP (fst a) \<and> (is_number (fst a) \<or> fst a = attr_order \<longrightarrow> snd a \<noteq> [])"

text \<open>The tile \<open>t\<close> has \<open>it\<close> as its current item, behind the words \<open>pre\<close>.\<close>

definition item_at :: "btile \<Rightarrow> int list \<Rightarrow> bitem \<Rightarrow> int list \<Rightarrow> bool" where
  "item_at t pre it post \<longleftrightarrow> bt_data t = pre @ encode it @ post \<and> bt_pos t = int (length pre)
     \<and> bt_pos_next t = int (length (pre @ encode it)) \<and> bt_pos_coord_start t = int (length pre) + 3
     \<and> bt_pos_attr_start t = int (length (pre @ enc_head it))"

lemma item_at_update [simp]:
  "item_at (t\<lparr>bt_pos_attr := i\<rparr>) pre it post = item_at t pre it post"
  "item_at (t\<lparr>bt_pos_coord := i\<rparr>) pre it post = item_at t pre it post"
  by (simp_all add: item_at_def)

lemma cur_set_tile [simp]: "mr_tiles mr \<noteq> [] \<Longrightarrow> cur_tile (set_tile t mr) = Some t" "set_tile t (set_tile u mr) = set_tile t mr"
  by (simp_all add: cur_tile_def set_tile_def)

lemma cur_tile_cons [simp]: "mr_tiles mr = t # ts \<Longrightarrow> cur_tile mr = Some t"
  by (simp add: cur_tile_def)

lemma data_set_le_plain:
  assumes "plain_attr (t, ws)" "b = xs @ ws @ ys" "i = int (length xs)"
  shows "attr_data_set_le t b i (int (length ws)) = Some (snd (decode (t, ws)))"
proof (cases "is_number t \<or> t = attr_order")
  case True
  then obtain w ws' where "ws = w # ws'" using assms(1) by (cases ws) (auto simp: plain_attr_def)
  then show ?thesis
    using True buf_read_at [OF assms(3)] assms(2) by (auto simp: attr_data_set_le_def decode_def is_number_def)
next
  case False
  then show ?thesis
    using buf_slice_at [OF assms(3) refl] assms(2) by (auto simp: attr_data_set_le_def decode_def is_number_def)
qed

section \<open>Attributes\<close>

definition noted :: "int \<times> int list \<Rightarrow> map_rect \<Rightarrow> map_rect" where
  "noted a mr = note_label (fst a) (snd a) mr"

lemma note_label_tiles [simp]:
  "mr_tiles (note_label t ws mr) = mr_tiles mr" "mr_item_type (note_label t ws mr) = mr_item_type mr"
  "mr_attr_last (note_label t ws mr) = mr_attr_last mr"
  by (simp_all add: note_label_def Let_def split: option.splits)

lemma note_label_set_tile: "note_label t ws (set_tile u mr) = set_tile u (note_label t ws mr)"
  by (simp add: note_label_def set_tile_def Let_def split: option.splits)

text \<open>One attribute is read, and either returned or skipped.\<close>

lemma attr_get_loop_step:
  assumes "mr_tiles mr = t # ts" "item_at t pre it post" "bi_attrs it = ds @ a # as"
    "bt_pos_attr t = bt_pos_attr_start t + int (length (enc_attrs ds))" "plain_attr a"
  shows "attr_get_loop mr ty =
    (let mr' = noted a (set_tile (t\<lparr>bt_pos_attr := bt_pos_attr_start t + int (length (enc_attrs (ds @ [a])))\<rparr>) mr)
     in if fst a = ty \<or> ty = attr_any then Some (Some (decode a), mr') else attr_get_loop mr' ty)"
proof -
  let ?xs = "pre @ enc_head it @ enc_attrs ds" and ?ys = "enc_attrs as @ post"
  have d: "bt_data t = ?xs @ enc_attr a @ ?ys" using assms(2,3) by (simp add: item_at_def encode_head)
  have p: "bt_pos_attr t = int (length ?xs)" using assms(2,4) by (simp add: item_at_def)
  have n: "bt_pos_attr t < bt_pos_next t" using assms(2,3) p by (simp add: item_at_def encode_head)
  have sz: "buf_read (bt_data t) (bt_pos_attr t) = Some (int (length (snd a)) + 1)"
    unfolding d p using buf_read_at [OF refl, of ?xs] by (simp add: enc_attr_def)
  have d3: "bt_data t = (?xs @ [int (length (snd a)) + 1]) @ fst a # snd a @ ?ys" unfolding d by (simp add: enc_attr_def)
  have ty: "buf_read (bt_data t) (bt_pos_attr t + 1) = Some (fst a)"
    unfolding d3 by (rule buf_read_at) (simp add: p)
  let ?zs = "?xs @ [int (length (snd a)) + 1, fst a]"
  have d2: "bt_data t = ?zs @ snd a @ ?ys" unfolding d by (simp add: enc_attr_def)
  have p2: "bt_pos_attr t + 1 + 1 = int (length ?zs)" unfolding p by simp
  have l: "int (length (snd a)) + 1 - 1 = int (length (snd a))" by simp
  have ws: "buf_slice (bt_data t) (bt_pos_attr t + 1 + 1) (int (length (snd a)) + 1 - 1) = Some (snd a)"
    unfolding l unfolding d2 by (intro buf_slice_at p2 refl)
  have v: "attr_data_set_le (fst a) (bt_data t) (bt_pos_attr t + 1 + 1) (int (length (snd a)) + 1 - 1) = Some (snd (decode a))"
    unfolding l using data_set_le_plain [OF _ d2 p2] assms(5) by simp
  have g: "\<not> ATTR_IS_GROUP (fst a)" using assms(5) by (simp add: plain_attr_def)
  have q: "bt_pos_attr t + 1 + (int (length (snd a)) + 1) = bt_pos_attr_start t + int (length (enc_attrs (ds @ [a])))"
    using assms(4) by simp
  have e: "(fst a, snd (decode a)) = decode a" by (simp add: decode_def)
  show ?thesis
    by (subst attr_get_loop.simps)
      (simp only: assms(1) cur_tile_cons bind.bind_lunit n if_True sz ty ws v g if_False q e Let_def noted_def note_label_set_tile simp_thms
        cong: if_cong)
qed

lemma attr_get_loop_end:
  assumes "mr_tiles mr = t # ts" "item_at t pre it post" "bt_pos_attr t = bt_pos_next t"
  shows "attr_get_loop mr ty = Some (get_label mr ty)"
  using assms by (subst attr_get_loop.simps) simp

lemma noted_set_tile [simp]: "noted a (set_tile u mr) = set_tile u (noted a mr)"
  by (simp add: noted_def note_label_set_tile)

lemma noted_simps [simp]:
  "mr_tiles (noted a mr) = mr_tiles mr" "mr_item_type (noted a mr) = mr_item_type mr" "mr_attr_last (noted a mr) = mr_attr_last mr"
  by (simp_all add: noted_def)

lemma tiles_set_tile [simp]: "mr_tiles mr = t # ts \<Longrightarrow> mr_tiles (set_tile u mr) = u # ts"
  by (simp add: set_tile_def)

lemma set_tile_other [simp]:
  "mr_item_type (set_tile u mr) = mr_item_type mr" "mr_attr_last (set_tile u mr) = mr_attr_last mr"
  "mr_label (set_tile u mr) = mr_label mr" "mr_label_attr (set_tile u mr) = mr_label_attr mr"
  by (simp_all add: set_tile_def)

lemma fold_noted_set_tile: "fold noted as (set_tile u mr) = set_tile u (fold noted as mr)"
  by (induction as arbitrary: mr) simp_all

text \<open>Attributes of other types are skipped.\<close>

lemma attr_get_loop_skip:
  assumes "mr_tiles mr = t # ts" "item_at t pre it post" "bi_attrs it = ds @ bs @ cs"
    "bt_pos_attr t = bt_pos_attr_start t + int (length (enc_attrs ds))" "\<forall>a \<in> set bs. plain_attr a \<and> fst a \<noteq> ty" "ty \<noteq> attr_any"
  shows "attr_get_loop mr ty = attr_get_loop (fold noted bs
    (set_tile (t\<lparr>bt_pos_attr := bt_pos_attr_start t + int (length (enc_attrs (ds @ bs)))\<rparr>) mr)) ty"
  using assms
proof (induction bs arbitrary: ds t mr)
  case Nil
  have "set_tile (t\<lparr>bt_pos_attr := bt_pos_attr_start t + int (length (enc_attrs (ds @ [])))\<rparr>) mr = mr"
    using Nil.prems(1,4) by (simp add: set_tile_def)
  then show ?case by simp
next
  case (Cons b bs)
  let ?t = "t\<lparr>bt_pos_attr := bt_pos_attr_start t + int (length (enc_attrs (ds @ [b])))\<rparr>"
  let ?mr = "noted b (set_tile ?t mr)"
  have "attr_get_loop mr ty = attr_get_loop ?mr ty"
    using attr_get_loop_step [OF Cons.prems(1,2), of ds b "bs @ cs" ty] Cons.prems by (simp add: Let_def)
  also have "\<dots> = attr_get_loop (fold noted bs
    (set_tile (?t\<lparr>bt_pos_attr := bt_pos_attr_start ?t + int (length (enc_attrs ((ds @ [b]) @ bs)))\<rparr>) ?mr)) ty"
    using Cons.prems by (intro Cons.IH) auto
  finally show ?case by simp
qed

lemma fold_noted_simps [simp]:
  "mr_tiles (fold noted as mr) = mr_tiles mr" "mr_item_type (fold noted as mr) = mr_item_type mr"
  "mr_attr_last (fold noted as mr) = mr_attr_last mr"
  by (induction as arbitrary: mr) auto

text \<open>The first attribute of the type wanted is returned, whatever is before it is skipped.\<close>

lemma attr_get_loop_found:
  assumes "mr_tiles mr = t # ts" "item_at t pre it post" "bi_attrs it = ds @ bs @ a # cs"
    "bt_pos_attr t = bt_pos_attr_start t + int (length (enc_attrs ds))" "\<forall>a \<in> set (bi_attrs it). plain_attr a"
    "\<forall>a \<in> set bs. fst a \<noteq> ty" "fst a = ty" "ty \<noteq> attr_any"
  shows "attr_get_loop mr ty = Some (Some (decode a), fold noted (bs @ [a])
    (set_tile (t\<lparr>bt_pos_attr := bt_pos_attr_start t + int (length (enc_attrs (ds @ bs @ [a])))\<rparr>) mr))"
proof -
  let ?t = "t\<lparr>bt_pos_attr := bt_pos_attr_start t + int (length (enc_attrs (ds @ bs)))\<rparr>"
  let ?mr = "fold noted bs (set_tile ?t mr)"
  have "attr_get_loop mr ty = attr_get_loop ?mr ty"
    using assms by (intro attr_get_loop_skip [of _ _ _ _ _ _ _ _ "a # cs"]) auto
  also have "\<dots> = Some (Some (decode a), noted a
      (set_tile (?t\<lparr>bt_pos_attr := bt_pos_attr_start ?t + int (length (enc_attrs ((ds @ bs) @ [a])))\<rparr>) ?mr))"
    using attr_get_loop_step [of ?mr ?t ts pre it post "ds @ bs" a cs ty] assms by (simp add: Let_def)
  finally show ?thesis by (simp add: fold_noted_set_tile)
qed

lemma attr_get_loop_missing:
  assumes "mr_tiles mr = t # ts" "item_at t pre it post" "bi_attrs it = ds @ bs"
    "bt_pos_attr t = bt_pos_attr_start t + int (length (enc_attrs ds))" "\<forall>a \<in> set (bi_attrs it). plain_attr a"
    "\<forall>a \<in> set bs. fst a \<noteq> ty" "ty \<noteq> attr_any"
  shows "attr_get_loop mr ty = Some (get_label (fold noted bs (set_tile (t\<lparr>bt_pos_attr := bt_pos_next t\<rparr>) mr)) ty)"
proof -
  have n: "bt_pos_attr_start t + int (length (enc_attrs (ds @ bs))) = bt_pos_next t"
    using assms(2,3) by (simp add: item_at_def encode_head)
  let ?t = "t\<lparr>bt_pos_attr := bt_pos_next t\<rparr>"
  have "attr_get_loop mr ty = attr_get_loop (fold noted bs (set_tile ?t mr)) ty"
    using assms n attr_get_loop_skip [of mr t ts pre it post ds bs "[]" ty] by simp
  also have "\<dots> = Some (get_label (fold noted bs (set_tile ?t mr)) ty)"
    using assms by (intro attr_get_loop_end [of _ ?t ts pre it post]) auto
  finally show ?thesis .
qed

section \<open>All attributes of an item\<close>

text \<open>The client's loop over the attributes.\<close>

fun read_attrs :: "nat \<Rightarrow> map_rect \<Rightarrow> ((int \<times> bin_value) list \<times> map_rect) option" where
  "read_attrs 0 mr = None"
| "read_attrs (Suc n) mr = do {
     (a, mr) \<leftarrow> binfile_attr_get mr attr_any;
     case a of None \<Rightarrow> Some ([], mr)
     | Some v \<Rightarrow> do { (vs, mr) \<leftarrow> read_attrs n mr; Some (v # vs, mr) }
   }"

text \<open>
  The label the reader makes up for an item without one: the last attribute of the first kind there is
  in the order house number, street name, systematic street name, and for points district and town name.
\<close>

definition slot_attr :: "int \<Rightarrow> (int \<times> int list) list \<Rightarrow> nat \<Rightarrow> int list option" where
  "slot_attr ty as k = map_option snd (find (\<lambda>a. label_slot ty (fst a) = Some k) (rev as))"

definition label_of :: "int \<Rightarrow> (int \<times> int list) list \<Rightarrow> (int \<times> bin_value) list" where
  "label_of ty as = (if \<exists>a \<in> set as. fst a = attr_label then []
     else case find (\<lambda>l. l \<noteq> None) (map (slot_attr ty as) [0..<5]) of Some (Some ws) \<Rightarrow> [(attr_label, BData ws)] | _ \<Rightarrow> [])"

lemma label_slot_less: "label_slot ty t = Some k \<Longrightarrow> k < 5"
  by (auto simp: label_slot_def split: if_splits)

lemma slot_attr_snoc:
  "slot_attr ty (as @ [a]) k = (if label_slot ty (fst a) = Some k then Some (snd a) else slot_attr ty as k)"
  by (simp add: slot_attr_def)

definition labels_noted :: "(int \<times> int list) list \<Rightarrow> map_rect \<Rightarrow> bool" where
  "labels_noted as mr \<longleftrightarrow> (mr_label mr \<longleftrightarrow> (\<exists>a \<in> set as. fst a = attr_label))
     \<and> mr_label_attr mr = map (slot_attr (mr_item_type mr) as) [0..<5]"

lemma labels_noted_step: "labels_noted as mr \<Longrightarrow> labels_noted (as @ [a]) (noted a mr)"
proof -
  assume l: "labels_noted as mr"
  have lab: "mr_label (noted a mr) \<longleftrightarrow> mr_label mr \<or> fst a = attr_label"
    by (simp add: noted_def note_label_def Let_def split: option.splits)
  have m: "mr_label_attr (noted a mr) = (case label_slot (mr_item_type mr) (fst a) of None \<Rightarrow> mr_label_attr mr
      | Some k \<Rightarrow> (mr_label_attr mr)[k := Some (snd a)])"
    by (simp add: noted_def note_label_def Let_def split: option.splits)
  have "mr_label_attr (noted a mr) = map (slot_attr (mr_item_type mr) (as @ [a])) [0..<5]"
  proof (cases "label_slot (mr_item_type mr) (fst a)")
    case None
    then show ?thesis using l m by (simp add: labels_noted_def slot_attr_snoc)
  next
    case (Some k)
    have "k < 5" using Some by (rule label_slot_less)
    then show ?thesis using l m Some
      by (intro nth_equalityI) (auto simp: labels_noted_def slot_attr_snoc nth_list_update simp del: upt_Suc)
  qed
  then show ?thesis using l lab by (auto simp: labels_noted_def)
qed

lemma labels_noted_label:
  assumes "labels_noted as mr"
  shows "fst (get_label mr attr_any) = (case label_of (mr_item_type mr) as of [] \<Rightarrow> None | v # _ \<Rightarrow> Some v)"
    "mr_label (snd (get_label mr attr_any)) \<or> label_of (mr_item_type mr) as = []"
proof -
  have l: "mr_label mr \<longleftrightarrow> (\<exists>a \<in> set as. fst a = attr_label)" "mr_label_attr mr = map (slot_attr (mr_item_type mr) as) [0..<5]"
    using assms by (simp_all add: labels_noted_def)
  show "fst (get_label mr attr_any) = (case label_of (mr_item_type mr) as of [] \<Rightarrow> None | v # _ \<Rightarrow> Some v)"
    unfolding get_label_def label_of_def l by (simp split: option.splits del: upt_Suc)
  show "mr_label (snd (get_label mr attr_any)) \<or> label_of (mr_item_type mr) as = []"
    unfolding get_label_def label_of_def l by (simp split: option.splits del: upt_Suc)
qed

text \<open>Reading moves the cursors of the current tile and changes what is noted of labels, nothing else.\<close>

definition moved :: "map_rect \<Rightarrow> map_rect \<Rightarrow> bool" where
  "moved mr mr' \<longleftrightarrow> mr_sel mr' = mr_sel mr \<and> mr_item_type mr' = mr_item_type mr \<and> mr_country_id mr' = mr_country_id mr
     \<and> mr_status mr' = mr_status mr
     \<and> (\<exists>t ts i j. mr_tiles mr = t # ts \<and> mr_tiles mr' = t\<lparr>bt_pos_attr := i, bt_pos_coord := j\<rparr> # ts)"

lemma movedI:
  assumes "mr_tiles mr = t # ts" "mr_tiles mr' = t\<lparr>bt_pos_attr := i, bt_pos_coord := j\<rparr> # ts"
    "mr_sel mr' = mr_sel mr" "mr_item_type mr' = mr_item_type mr" "mr_country_id mr' = mr_country_id mr" "mr_status mr' = mr_status mr"
  shows "moved mr mr'"
  using assms unfolding moved_def by blast

lemma moved_refl: "mr_tiles mr = t # ts \<Longrightarrow> moved mr mr"
  by (rule movedI [of mr t ts mr "bt_pos_coord t" "bt_pos_attr t"]) simp_all

lemma moved_trans: "moved mr mr1 \<Longrightarrow> moved mr1 mr2 \<Longrightarrow> moved mr mr2"
  unfolding moved_def by force

lemma moved_tiles: "moved mr mr' \<Longrightarrow> mr_tiles mr = t # ts \<Longrightarrow> \<exists>t'. mr_tiles mr' = t' # ts"
  by (auto simp: moved_def)

lemma moved_noted: "mr_tiles mr = t # ts \<Longrightarrow> moved mr (noted a (set_tile (t\<lparr>bt_pos_attr := i\<rparr>) mr))"
  by (rule movedI [of mr t ts _ "bt_pos_coord t" i])
    (simp_all add: noted_def note_label_def Let_def set_tile_def split: option.splits)

lemma moved_label: "mr_tiles mr = t # ts \<Longrightarrow> moved mr (snd (get_label mr ty))"
  using moved_refl [of mr t ts] by (auto simp: get_label_def moved_def split: option.splits)

lemma get_label_simps [simp]:
  "mr_tiles (snd (get_label mr ty)) = mr_tiles mr" "mr_attr_last (snd (get_label mr ty)) = mr_attr_last mr"
  by (auto simp: get_label_def split: option.splits)

lemma attr_get_same: "mr_attr_last mr = ty \<Longrightarrow> mr_tiles mr = t # ts \<Longrightarrow> binfile_attr_get mr ty = attr_get_loop mr ty"
  by (simp add: binfile_attr_get_def)

lemma read_attrs_step:
  assumes "binfile_attr_get mr attr_any = Some (Some v, mr1)" "read_attrs n mr1 = Some (vs, mr2)"
  shows "read_attrs (Suc n) mr = Some (v # vs, mr2)"
  using assms by simp

lemma read_attrs_end:
  assumes "mr_tiles mr = t # ts" "item_at t pre it post" "bt_pos_attr t = bt_pos_next t"
    "mr_attr_last mr = attr_any" "labels_noted (bi_attrs it) mr"
  shows "\<exists>mr'. read_attrs (n + 2) mr = Some (label_of (mr_item_type mr) (bi_attrs it), mr') \<and> moved mr mr'"
proof -
  let ?ls = "label_of (mr_item_type mr) (bi_attrs it)" and ?mr = "snd (get_label mr attr_any)"
  have g: "binfile_attr_get mr attr_any = Some (get_label mr attr_any)"
    using attr_get_same [OF assms(4,1)] attr_get_loop_end [OF assms(1-3)] by simp
  have g': "binfile_attr_get ?mr attr_any = Some (get_label ?mr attr_any)"
    using attr_get_same [of ?mr attr_any t ts] attr_get_loop_end [of ?mr t ts, OF _ assms(2,3)] assms(1,4) by simp
  note lab = labels_noted_label [OF assms(5)]
  have m: "moved mr ?mr" using assms(1) by (rule moved_label)
  have gp: "get_label mr attr_any = (fst (get_label mr attr_any), ?mr)" by simp
  show ?thesis
  proof (cases "?ls")
    case Nil
    then have "read_attrs (n + 2) mr = Some ([], ?mr)" using lab(1) g gp by (simp add: case_prod_unfold)
    then show ?thesis using m Nil by auto
  next
    case (Cons v vs)
    have vs: "vs = []" using Cons by (auto simp: label_of_def split: if_splits option.splits)
    have "mr_label ?mr" using lab(2) Cons by simp
    then have g2: "get_label ?mr attr_any = (None, ?mr)" by (simp add: get_label_def)
    have f: "fst (get_label mr attr_any) = Some v" using lab(1) Cons by simp
    have "read_attrs (Suc n) ?mr = Some ([], ?mr)" using g' g2 by simp
    then have "read_attrs (n + 2) mr = Some ([v], ?mr)"
      using g f by (simp add: case_prod_unfold del: read_attrs.simps(2) add: read_attrs.simps(2) [of "Suc n"])
    then show ?thesis using m Cons vs by auto
  qed
qed

lemma read_attrs_from:
  assumes "mr_tiles mr = t # ts" "item_at t pre it post" "bi_attrs it = ds @ as"
    "bt_pos_attr t = bt_pos_attr_start t + int (length (enc_attrs ds))" "\<forall>a \<in> set (bi_attrs it). plain_attr a"
    "mr_attr_last mr = attr_any" "labels_noted ds mr"
  shows "\<exists>mr'. read_attrs (n + length as + 2) mr = Some (map decode as @ label_of (mr_item_type mr) (bi_attrs it), mr') \<and> moved mr mr'"
  using assms
proof (induction as arbitrary: ds t mr)
  case Nil
  have n: "bt_pos_attr t = bt_pos_next t" using Nil.prems(2-4) by (simp add: item_at_def encode_head)
  show ?case using read_attrs_end [OF Nil.prems(1,2) n Nil.prems(6)] Nil.prems(3,7) by simp
next
  case (Cons a as)
  let ?t = "t\<lparr>bt_pos_attr := bt_pos_attr_start t + int (length (enc_attrs (ds @ [a])))\<rparr>"
  let ?mr = "noted a (set_tile ?t mr)"
  have pa: "plain_attr a" using Cons.prems(3,5) by simp
  have g: "binfile_attr_get mr attr_any = Some (Some (decode a), ?mr)"
    using attr_get_same [OF Cons.prems(6,1)] attr_get_loop_step [OF Cons.prems(1-4) pa] by (simp add: Let_def)
  have ln: "labels_noted ds (set_tile ?t mr)" using Cons.prems(7) by (simp add: labels_noted_def)
  have "\<exists>mr'. read_attrs (n + length as + 2) ?mr
      = Some (map decode as @ label_of (mr_item_type ?mr) (bi_attrs it), mr') \<and> moved ?mr mr'"
    by (rule Cons.IH [of ?mr ?t "ds @ [a]"])
      (use Cons.prems labels_noted_step [OF ln, of a] in \<open>simp_all del: noted_set_tile\<close>)
  then obtain mr' where r: "read_attrs (n + length as + 2) ?mr = Some (map decode as @ label_of (mr_item_type mr) (bi_attrs it), mr')"
    and m: "moved ?mr mr'" by auto
  have "moved mr mr'" using moved_trans [OF moved_noted [OF Cons.prems(1)] m] .
  moreover have "read_attrs (n + length (a # as) + 2) mr = Some (map decode (a # as) @ label_of (mr_item_type mr) (bi_attrs it), mr')"
    using read_attrs_step [OF g r] by simp
  ultimately show ?case by blast
qed

section \<open>Coordinates\<close>

lemma coord_words_take [simp]: "take (2 * n) (coord_words cs) = coord_words (take n cs)"
proof (induction cs arbitrary: n)
  case (Cons c cs)
  then show ?case by (cases n) simp_all
qed simp

lemma coord_words_drop [simp]: "drop (2 * n) (coord_words cs) = coord_words (drop n cs)"
proof (induction cs arbitrary: n)
  case (Cons c cs)
  then show ?case by (cases n) simp_all
qed simp

text \<open>The cursor is behind the first \<open>k\<close> coordinates.\<close>

lemma coord_get_at:
  assumes "mr_tiles mr = t # ts" "item_at t pre it post" "k \<le> length (bi_coords it)"
    "bt_pos_coord t = bt_pos_coord_start t + 2 * int k"
  shows "binfile_coord_left mr = Some (int (length (bi_coords it)) - int k)"
    "binfile_coord_get mr (int n) = Some (take n (drop k (bi_coords it)),
      set_tile (t\<lparr>bt_pos_coord := bt_pos_coord_start t + 2 * int (min (k + n) (length (bi_coords it)))\<rparr>) mr)"
proof -
  let ?cs = "bi_coords it"
  have d: "bt_pos_attr_start t - bt_pos_coord t = 2 * int (length ?cs - k)"
    using assms(2-4) by (simp add: item_at_def of_nat_diff)
  show left: "binfile_coord_left mr = Some (int (length ?cs) - int k)"
    using assms(1,3) unfolding binfile_coord_left_def by (simp add: d of_nat_diff)
  let ?m = "min n (length ?cs - k)"
  have m: "(if int n > int (length ?cs) - int k then int (length ?cs) - int k else int n) = int ?m"
    using assms(3) by auto
  let ?pre = "pre @ [2 + 2 * int (length ?cs) + int (length (enc_attrs (bi_attrs it))), i32 (bi_type it), 2 * int (length ?cs)]
    @ coord_words (take k ?cs)"
  let ?post = "coord_words (drop ?m (drop k ?cs)) @ enc_attrs (bi_attrs it) @ post"
  have "coord_words ?cs = coord_words (take k ?cs) @ coord_words (take ?m (drop k ?cs)) @ coord_words (drop ?m (drop k ?cs))"
    by (simp only: coord_words_simps(3) [symmetric] append_take_drop_id)
  then have b: "bt_data t = ?pre @ coord_words (take ?m (drop k ?cs)) @ ?post"
    using assms(2) by (simp add: item_at_def encode_head enc_head_def)
  have sl: "buf_slice (bt_data t) (bt_pos_coord t) (2 * int ?m) = Some (coord_words (take ?m (drop k ?cs)))"
    unfolding b using assms(2-4) by (intro buf_slice_at) (simp_all add: item_at_def)
  have tk: "take ?m (drop k ?cs) = take n (drop k ?cs)"
    by (metis length_drop min.commute take_all_iff take_take min_def nle_le)
  have mn: "bt_pos_coord t + int ?m * 2 = bt_pos_coord_start t + 2 * int (min (k + n) (length ?cs))"
    using assms(3,4) by (auto simp: min_def)
  show "binfile_coord_get mr (int n) = Some (take n (drop k ?cs),
      set_tile (t\<lparr>bt_pos_coord := bt_pos_coord_start t + 2 * int (min (k + n) (length ?cs))\<rparr>) mr)"
    using assms(1) left m sl tk mn unfolding binfile_coord_get_def by (simp add: Let_def)
qed

lemma moved_coord: "mr_tiles mr = t # ts \<Longrightarrow> moved mr (set_tile (t\<lparr>bt_pos_coord := i\<rparr>) mr)"
  by (rule movedI [of mr t ts _ i "bt_pos_attr t"]) (simp_all add: set_tile_def)

text \<open>A client that asks for the coordinates in several pieces.\<close>

fun read_coords :: "map_rect \<Rightarrow> nat list \<Rightarrow> (coord list \<times> map_rect) option" where
  "read_coords mr [] = Some ([], mr)"
| "read_coords mr (n # ns) = do {
     (cs, mr) \<leftarrow> binfile_coord_get mr (int n);
     (ds, mr) \<leftarrow> read_coords mr ns;
     Some (cs @ ds, mr)
   }"

lemma read_coords_from:
  assumes "mr_tiles mr = t # ts" "item_at t pre it post" "k \<le> length (bi_coords it)"
    "bt_pos_coord t = bt_pos_coord_start t + 2 * int k"
  shows "\<exists>mr'. read_coords mr ns = Some (take (sum_list ns) (drop k (bi_coords it)), mr') \<and> moved mr mr'"
  using assms
proof (induction ns arbitrary: mr t k)
  case Nil
  then show ?case using moved_refl by auto
next
  case (Cons n ns)
  let ?k = "min (k + n) (length (bi_coords it))"
  let ?t = "t\<lparr>bt_pos_coord := bt_pos_coord_start t + 2 * int ?k\<rparr>"
  have g: "binfile_coord_get mr (int n) = Some (take n (drop k (bi_coords it)), set_tile ?t mr)"
    by (rule coord_get_at(2) [OF Cons.prems])
  have "\<exists>mr'. read_coords (set_tile ?t mr) ns = Some (take (sum_list ns) (drop ?k (bi_coords it)), mr')
      \<and> moved (set_tile ?t mr) mr'"
    using Cons.prems by (intro Cons.IH [of _ ?t]) auto
  then obtain mr' where r: "read_coords (set_tile ?t mr) ns = Some (take (sum_list ns) (drop ?k (bi_coords it)), mr')"
    and m: "moved (set_tile ?t mr) mr'" by blast
  have c: "take n (drop k (bi_coords it)) @ take (sum_list ns) (drop ?k (bi_coords it))
      = take (n + sum_list ns) (drop k (bi_coords it))"
    by (simp add: take_add min_def add.commute)
  have "moved mr mr'" using moved_trans [OF moved_coord [OF Cons.prems(1)] m] .
  moreover have "read_coords mr (n # ns) = Some (take (sum_list (n # ns)) (drop k (bi_coords it)), mr')"
    using g r c by simp
  ultimately show ?case by blast
qed

text \<open>
  The coordinates of an item do not depend on the sizes of the pieces a client asks for: after a
  rewind, pieces of any sizes put together are the coordinates of the item, up to the number asked for.
\<close>

theorem binfile_coord_pieces:
  assumes "mr_tiles mr = t # ts" "item_at t pre it post"
  shows "\<exists>mr'. do { mr \<leftarrow> binfile_coord_rewind mr; read_coords mr ns } = Some (take (sum_list ns) (bi_coords it), mr')"
proof -
  let ?t = "t\<lparr>bt_pos_coord := bt_pos_coord_start t\<rparr>"
  have r: "binfile_coord_rewind mr = Some (set_tile ?t mr)" using assms(1) by (simp add: binfile_coord_rewind_def)
  show ?thesis using read_coords_from [of "set_tile ?t mr" ?t ts pre it post 0 ns] assms r by auto
qed

theorem binfile_coord_pieces_witness:
  "let it = \<lparr>bi_type = 5, bi_coords = [\<lparr>cx = 1, cy = 2\<rparr>, \<lparr>cx = 3, cy = 4\<rparr>, \<lparr>cx = 5, cy = 6\<rparr>], bi_attrs = [(1, [2])]\<rparr>;
       t = \<lparr>bt_data = 9 # encode it, bt_end = 13, bt_pos = 1, bt_pos_coord_start = 4, bt_pos_coord = 8, bt_pos_attr_start = 10,
         bt_pos_attr = 10, bt_pos_next = 13, bt_zipfile_num = 0, bt_mode = 1\<rparr>
   in \<exists>mr'. do { mr \<leftarrow> binfile_coord_rewind ((map_rect_new_binfile_int [])\<lparr>mr_tiles := [t]\<rparr>); read_coords mr [1, 0, 7] }
     = Some (bi_coords it, mr')"
proof -
  let ?it = "\<lparr>bi_type = 5, bi_coords = [\<lparr>cx = 1, cy = 2\<rparr>, \<lparr>cx = 3, cy = 4\<rparr>, \<lparr>cx = 5, cy = 6\<rparr>], bi_attrs = [(1, [2])]\<rparr>"
  let ?t = "\<lparr>bt_data = 9 # encode ?it, bt_end = 13, bt_pos = 1, bt_pos_coord_start = 4, bt_pos_coord = 8, bt_pos_attr_start = 10,
    bt_pos_attr = 10, bt_pos_next = 13, bt_zipfile_num = 0, bt_mode = 1\<rparr>"
  have t: "mr_tiles ((map_rect_new_binfile_int [])\<lparr>mr_tiles := [?t]\<rparr>) = ?t # []" by simp
  have i: "item_at ?t [9] ?it []" by (simp add: item_at_def length_encode)
  show ?thesis using binfile_coord_pieces [OF t i, of "[1, 0, 7]"] by (simp add: Let_def)
qed

section \<open>Observing an item\<close>

text \<open>An item as a client sees it that reads its coordinates and attributes.\<close>

definition observe :: "nat \<Rightarrow> map_rect \<Rightarrow> ((int \<times> coord list \<times> (int \<times> bin_value) list) \<times> map_rect) option" where
  "observe n mr = do {
     left \<leftarrow> binfile_coord_left mr;
     (cs, mr) \<leftarrow> binfile_coord_get mr left;
     (as, mr) \<leftarrow> read_attrs n mr;
     Some ((mr_item_type mr, cs, as), mr)
   }"

definition item_view :: "bitem \<Rightarrow> int \<times> coord list \<times> (int \<times> bin_value) list" where
  "item_view it = (u32 (bi_type it), bi_coords it,
     map decode (bi_attrs it) @ label_of (u32 (bi_type it)) (bi_attrs it))"

text \<open>The item was just entered: both cursors at their starts, no label noted.\<close>

definition fresh :: "map_rect \<Rightarrow> bitem \<Rightarrow> bool" where
  "fresh mr it \<longleftrightarrow> mr_item_type mr = u32 (bi_type it) \<and> mr_label mr = False \<and> mr_label_attr mr = replicate 5 None
     \<and> (\<exists>t ts pre post. mr_tiles mr = t # ts \<and> item_at t pre it post \<and> bt_pos_coord t = bt_pos_coord_start t
        \<and> bt_pos_attr t = bt_pos_attr_start t)"

lemma labels_noted_Nil: "mr_label mr = False \<Longrightarrow> mr_label_attr mr = replicate 5 None \<Longrightarrow> labels_noted [] mr"
  by (intro labels_noted_def [THEN iffD2] conjI nth_equalityI) (simp_all add: slot_attr_def del: upt_Suc)

lemma attr_get_other:
  assumes "mr_tiles mr = t # ts" "bt_pos_attr t = bt_pos_attr_start t"
  shows "binfile_attr_get mr ty = attr_get_loop (mr\<lparr>mr_attr_last := ty\<rparr>) ty"
proof -
  have "set_tile (t\<lparr>bt_pos_attr := bt_pos_attr_start t\<rparr>) mr = mr"
    using assms by (simp add: set_tile_def flip: assms(2))
  then show ?thesis using assms(1) by (auto simp: binfile_attr_get_def)
qed

lemma moved_last: "mr_tiles mr = t # ts \<Longrightarrow> moved mr (mr\<lparr>mr_attr_last := ty\<rparr>)"
  by (rule movedI [of mr t ts _ "bt_pos_coord t" "bt_pos_attr t"]) simp_all

lemma read_attrs_fresh:
  assumes "mr_tiles mr = t # ts" "item_at t pre it post" "bt_pos_attr t = bt_pos_attr_start t"
    "\<forall>a \<in> set (bi_attrs it). plain_attr a" "labels_noted [] mr" "length (bi_attrs it) + 2 \<le> n"
  shows "\<exists>mr'. read_attrs n mr = Some (map decode (bi_attrs it) @ label_of (mr_item_type mr) (bi_attrs it), mr') \<and> moved mr mr'"
proof -
  let ?mr = "mr\<lparr>mr_attr_last := attr_any\<rparr>"
  obtain k where k: "n = k + length (bi_attrs it) + 2" using assms(6) by (metis add.assoc add.commute le_Suc_ex)
  have "binfile_attr_get ?mr attr_any = attr_get_loop ?mr attr_any" using assms(1) by (simp add: attr_get_same)
  then have "read_attrs n mr = read_attrs n ?mr" using attr_get_other [OF assms(1,3), of attr_any] k by simp
  moreover have "\<exists>mr'. read_attrs n ?mr = Some (map decode (bi_attrs it) @ label_of (mr_item_type ?mr) (bi_attrs it), mr') \<and> moved ?mr mr'"
    unfolding k using assms by (intro read_attrs_from [of _ t ts pre it post "[]"]) (simp_all add: labels_noted_def)
  ultimately show ?thesis using moved_trans [OF moved_last [OF assms(1), of attr_any]] by auto
qed

lemma observe_fresh:
  assumes "fresh mr it" "\<forall>a \<in> set (bi_attrs it). plain_attr a" "length (bi_attrs it) + 2 \<le> n"
  shows "\<exists>mr'. observe n mr = Some (item_view it, mr') \<and> moved mr mr'"
proof -
  obtain t ts pre post where f: "mr_tiles mr = t # ts" "item_at t pre it post" "bt_pos_coord t = bt_pos_coord_start t"
      "bt_pos_attr t = bt_pos_attr_start t"
    and ty: "mr_item_type mr = u32 (bi_type it)" and l: "mr_label mr = False" "mr_label_attr mr = replicate 5 None"
    using assms(1) unfolding fresh_def by blast
  let ?cs = "bi_coords it"
  let ?t = "t\<lparr>bt_pos_coord := bt_pos_coord_start t + 2 * int (min (0 + length ?cs) (length ?cs))\<rparr>"
  have k: "bt_pos_coord t = bt_pos_coord_start t + 2 * int 0" using f(3) by simp
  have left: "binfile_coord_left mr = Some (int (length ?cs))" using coord_get_at(1) [OF f(1,2) _ k] by simp
  have get: "binfile_coord_get mr (int (length ?cs)) = Some (?cs, set_tile ?t mr)"
    using coord_get_at(2) [OF f(1,2) _ k, of "length ?cs"] by simp
  have "\<exists>mr'. read_attrs n (set_tile ?t mr)
      = Some (map decode (bi_attrs it) @ label_of (mr_item_type (set_tile ?t mr)) (bi_attrs it), mr') \<and> moved (set_tile ?t mr) mr'"
    using f l assms(2,3) labels_noted_Nil [of "set_tile ?t mr"] by (intro read_attrs_fresh [of _ ?t ts pre it post]) auto
  then obtain mr' where r: "read_attrs n (set_tile ?t mr) = Some (map decode (bi_attrs it) @ label_of (u32 (bi_type it)) (bi_attrs it), mr')"
    and m: "moved (set_tile ?t mr) mr'" using ty by auto
  have mm: "moved mr mr'" using moved_trans [OF moved_coord [OF f(1)] m] .
  have "mr_item_type mr' = u32 (bi_type it)" using mm ty by (simp add: moved_def)
  then have "observe n mr = Some (item_view it, mr')" using left get r by (simp add: observe_def item_view_def)
  then show ?thesis using mm by blast
qed

section \<open>The stack of tiles\<close>

text \<open>The items of a tile that are still to come.\<close>

definition frame :: "btile \<Rightarrow> bitem list \<Rightarrow> bool" where
  "frame t its \<longleftrightarrow> (\<exists>pre. bt_data t = pre @ concat (map encode its) \<and> bt_pos_next t = int (length pre)
     \<and> bt_end t = int (length (bt_data t)))"

definition stack_ok :: "selection list \<Rightarrow> map_rect \<Rightarrow> bitem list list \<Rightarrow> bool" where
  "stack_ok sel mr fs \<longleftrightarrow> list_all2 frame (mr_tiles mr) fs \<and> mr_sel mr = sel \<and> mr_country_id mr = 0 \<and> mr_status mr = 0"

lemma stack_ok_moved:
  assumes "stack_ok sel mr fs" "moved mr mr'"
  shows "stack_ok sel mr' fs"
  using assms unfolding stack_ok_def moved_def frame_def by (force simp: list_all2_Cons1)

lemma stack_ok_push:
  assumes "stack_ok sel mr fs" "bm_zip m z = Content (concat (map encode its))" "length fs < 8"
  shows "\<exists>mr'. push_zipfile_tile m junk mr z 0 0 = Some (False, mr') \<and> stack_ok sel mr' (its # fs)"
proof -
  have l: "length (mr_tiles mr) < 8" using assms(1,3) list_all2_lengthD unfolding stack_ok_def by fastforce
  show ?thesis using assms(1,2) l unfolding push_zipfile_tile_def push_tile_def stack_ok_def
    by (auto simp: Let_def frame_def)
qed

text \<open>Entering the next item.\<close>

lemma next_item:
  assumes "stack_ok sel mr ((it # its) # fs)"
  obtains t ts mr1 where "mr_tiles mr = t # ts" "bt_pos_next t < bt_end t" "fresh mr1 it" "stack_ok sel mr1 (its # fs)"
    "do { mr \<leftarrow> setup_pos (set_tile (t\<lparr>bt_pos := bt_pos_next t\<rparr>) mr); mr \<leftarrow> binfile_coord_rewind mr; binfile_attr_rewind mr } = Some mr1"
proof -
  obtain t ts where tt: "mr_tiles mr = t # ts" and fr: "frame t (it # its)" and fs: "list_all2 frame ts fs"
    and o: "mr_sel mr = sel" "mr_country_id mr = 0" "mr_status mr = 0"
    using assms unfolding stack_ok_def by (auto simp: list_all2_Cons2)
  obtain pre where d: "bt_data t = pre @ encode it @ concat (map encode its)" and p: "bt_pos_next t = int (length pre)"
    and e: "bt_end t = int (length (bt_data t))" using fr by (auto simp: frame_def)
  let ?cl = "2 * int (length (bi_coords it))"
  have r: "buf_read (bt_data t) (int (length pre)) = Some (int (length (encode it)) - 1)"
      "buf_read (bt_data t) (int (length pre) + 1) = Some (i32 (bi_type it))"
      "buf_read (bt_data t) (int (length pre) + 2) = Some ?cl"
    unfolding d using buf_read_at [of "int (length pre)" pre] buf_read_at [of "int (length pre) + 1" "pre @ [_]"]
      buf_read_at [of "int (length pre) + 2" "pre @ [_, _]"]
    by (simp_all add: encode_def Let_def)
  let ?t = "t\<lparr>bt_pos := bt_pos_next t, bt_pos_next := int (length pre) + (int (length (encode it)) - 1) + 1,
    bt_pos_coord_start := int (length pre) + 3, bt_pos_attr_start := int (length pre) + 3 + ?cl\<rparr>"
  let ?mr = "(set_tile ?t mr)\<lparr>mr_item_type := u32 (i32 (bi_type it))\<rparr>"
  have s: "setup_pos (set_tile (t\<lparr>bt_pos := bt_pos_next t\<rparr>) mr) = Some ?mr"
    using tt r by (simp add: setup_pos_def p set_tile_def)
  let ?t2 = "?t\<lparr>bt_pos_coord := bt_pos_coord_start ?t, bt_pos_attr := bt_pos_attr_start ?t\<rparr>"
  let ?mr2 = "?mr\<lparr>mr_tiles := ?t2 # ts, mr_label := False, mr_label_attr := replicate 5 None\<rparr>"
  have rw: "do { mr \<leftarrow> setup_pos (set_tile (t\<lparr>bt_pos := bt_pos_next t\<rparr>) mr); mr \<leftarrow> binfile_coord_rewind mr; binfile_attr_rewind mr } = Some ?mr2"
    unfolding s using tt by (simp add: binfile_coord_rewind_def binfile_attr_rewind_def set_tile_def)
  have it: "item_at ?t2 pre it (concat (map encode its))"
    using d p by (simp add: item_at_def)
  have "u32 (i32 (bi_type it)) = u32 (bi_type it)"
    unfolding u32_def i32_def by (metis add_diff_cancel_right' mod_diff_left_eq)
  then have f: "fresh ?mr2 it" unfolding fresh_def
    by (intro conjI exI [of _ ?t2] exI [of _ ts] exI [of _ pre] exI [of _ "concat (map encode its)"] it) simp_all
  have "frame ?t2 its" unfolding frame_def using d e by (intro exI [of _ "pre @ encode it"]) simp
  then have "stack_ok sel ?mr2 (its # fs)" using fs o by (simp add: stack_ok_def set_tile_def)
  moreover have "bt_pos_next t < bt_end t" using d p e by (simp add: length_encode)
  ultimately show thesis using that tt f rw by blast
qed

section \<open>Submaps\<close>

lemma find_first_split:
  assumes "find P xs = Some a"
  obtains bs cs where "xs = bs @ a # cs" "\<forall>b \<in> set bs. \<not> P b" "P a"
proof -
  from assms obtain i where i: "i < length xs" "P (xs ! i)" "a = xs ! i" "\<forall>j < i. \<not> P (xs ! j)"
    unfolding find_Some_iff by blast
  have "xs = take i xs @ a # drop (Suc i) xs" using i(1,3) id_take_nth_drop by blast
  moreover have "\<forall>b \<in> set (take i xs). \<not> P b" using i(1,4) by (auto simp: in_set_conv_nth)
  ultimately show thesis using that i(2,3) by blast
qed

lemma moved_fold_noted:
  "mr_tiles mr = t # ts \<Longrightarrow> moved mr (fold noted as (set_tile (t\<lparr>bt_pos_attr := i\<rparr>) mr))"
proof (induction as arbitrary: mr t i)
  case Nil
  show ?case by (rule movedI [of mr t ts _ "bt_pos_coord t" i]) (use Nil in \<open>simp_all add: set_tile_def\<close>)
next
  case (Cons a as)
  let ?mr = "noted a (set_tile (t\<lparr>bt_pos_attr := i\<rparr>) mr)"
  have t: "mr_tiles ?mr = t\<lparr>bt_pos_attr := i\<rparr> # ts" using Cons.prems by simp
  have e: "set_tile ((t\<lparr>bt_pos_attr := i\<rparr>)\<lparr>bt_pos_attr := i\<rparr>) ?mr = ?mr" using Cons.prems by (simp add: set_tile_def noted_def note_label_def Let_def split: option.splits)
  have "moved ?mr (fold noted as ?mr)" using Cons.IH [OF t, of i] unfolding e .
  then show ?case using moved_trans [OF moved_noted [OF Cons.prems]] by (simp del: noted_set_tile)
qed

text \<open>Asking for an attribute of another type than before gives the first one of this type.\<close>

lemma attr_get_first:
  assumes "mr_tiles mr = t # ts" "item_at t pre it post" "\<forall>a \<in> set (bi_attrs it). plain_attr a"
    "mr_attr_last mr \<noteq> ty \<or> bt_pos_attr t = bt_pos_attr_start t" "ty \<noteq> attr_any" "ty \<noteq> attr_label"
  shows "\<exists>mr'. binfile_attr_get mr ty = Some (map_option decode (find (\<lambda>a. fst a = ty) (bi_attrs it)), mr')
    \<and> moved mr mr' \<and> mr_attr_last mr' = ty"
proof -
  let ?t = "t\<lparr>bt_pos_attr := bt_pos_attr_start t\<rparr>"
  let ?mr = "(set_tile ?t mr)\<lparr>mr_attr_last := ty\<rparr>"
  have "?mr = mr" if "mr_attr_last mr = ty" "bt_pos_attr t = bt_pos_attr_start t"
    using that assms(1) by (simp add: set_tile_def flip: that(2))
  then have g: "binfile_attr_get mr ty = attr_get_loop ?mr ty"
    using assms(1,4) by (auto simp: binfile_attr_get_def)
  have tt: "mr_tiles ?mr = ?t # ts" "item_at ?t pre it post" using assms(1,2) by (simp_all add: set_tile_def)
  have pos: "bt_pos_attr ?t = bt_pos_attr_start ?t + int (length (enc_attrs []))" by simp
  have mv: "moved mr ?mr"
    by (rule movedI [of mr t ts _ "bt_pos_coord t" "bt_pos_attr_start t"]) (use assms(1) in \<open>simp_all add: set_tile_def\<close>)
  show ?thesis
  proof (cases "find (\<lambda>a. fst a = ty) (bi_attrs it)")
    case None
    then have n: "\<forall>a \<in> set (bi_attrs it). fst a \<noteq> ty" by (auto simp: find_None_iff)
    let ?r = "fold noted (bi_attrs it) (set_tile (?t\<lparr>bt_pos_attr := bt_pos_next ?t\<rparr>) ?mr)"
    have "binfile_attr_get mr ty = Some (get_label ?r ty)"
      unfolding g using attr_get_loop_missing [OF tt, of "[]" "bi_attrs it" ty] assms(3,5) n by simp
    also have "get_label ?r ty = (None, ?r)" using assms(5,6) by (simp add: get_label_def)
    finally show ?thesis using moved_trans [OF mv moved_fold_noted [OF tt(1)]] None
      by (intro exI [of _ ?r]) simp
  next
    case (Some a)
    then obtain bs cs where sp: "bi_attrs it = bs @ a # cs" "\<forall>b \<in> set bs. fst b \<noteq> ty" "fst a = ty" by (rule find_first_split)
    let ?r = "fold noted (bs @ [a]) (set_tile (?t\<lparr>bt_pos_attr := bt_pos_attr_start ?t + int (length (enc_attrs ([] @ bs @ [a])))\<rparr>) ?mr)"
    have "binfile_attr_get mr ty = Some (Some (decode a), ?r)"
      unfolding g using attr_get_loop_found [OF tt, of "[]" bs a cs ty] assms(3,5) sp by simp
    moreover have "moved mr ?r" by (rule moved_trans [OF mv moved_fold_noted [OF tt(1)]])
    moreover have "mr_attr_last ?r = ty" by (simp only: fold_noted_simps set_tile_other) simp
    ultimately show ?thesis using Some by auto
  qed
qed

text \<open>The member of the archive a submap leads to, if it is selected.\<close>

definition submap_box :: "coord \<Rightarrow> coord \<Rightarrow> crect" where
  "submap_box c d = \<lparr>cr_lu = \<lparr>cx = cx c, cy = cy d\<rparr>, cr_rl = \<lparr>cx = cx d, cy = cy c\<rparr>\<rparr>"

definition submap_target :: "selection list \<Rightarrow> bitem \<Rightarrow> int option" where
  "submap_target sel it =
     (case (bi_coords it, find (\<lambda>a. fst a = attr_order) (bi_attrs it), find (\<lambda>a. fst a = attr_zipfile_ref) (bi_attrs it)) of
        (c # d # _, Some ord, Some z) \<Rightarrow>
          if selection_contains sel (submap_box c d) (i16 (hd (snd ord))) (i16 (hd (snd ord) div 65536)) then Some (hd (snd z)) else None
      | _ \<Rightarrow> None)"

definition is_submap :: "bitem \<Rightarrow> bool" where
  "is_submap it \<longleftrightarrow> u32 (bi_type it) = type_submap"

lemma decode_order: "fst a = attr_order \<Longrightarrow> decode a = (attr_order, BRange (i16 (hd (snd a))) (i16 (hd (snd a) div 65536)))"
  by (simp add: decode_def is_number_def attr_order_def attr_type_int_begin_def attr_type_int_end_def
    attr_type_item_type_begin_def attr_type_item_type_end_def)

lemma decode_zipfile: "fst a = attr_zipfile_ref \<Longrightarrow> decode a = (attr_zipfile_ref, BNum (hd (snd a)))"
  by (simp add: decode_def is_number_def attr_zipfile_ref_def attr_type_int_begin_def attr_type_int_end_def)

lemma find_fst: "find (\<lambda>a. fst a = ty) xs = Some a \<Longrightarrow> fst a = ty"
  by (auto simp: find_Some_iff)

lemma attr_names: "attr_order \<noteq> attr_any" "attr_order \<noteq> attr_label" "attr_zipfile_ref \<noteq> attr_any" "attr_zipfile_ref \<noteq> attr_label"
  "attr_order \<noteq> attr_zipfile_ref"
  by (simp_all add: attr_order_def attr_any_def attr_label_def attr_zipfile_ref_def)

text \<open>What parsing a submap does: nothing, or its target is entered.\<close>

lemma parse_submap:
  assumes "fresh mr it" "stack_ok sel mr fs" "\<forall>a \<in> set (bi_attrs it). plain_attr a" "bm_eoc m"
  shows "case submap_target sel it of
      None \<Rightarrow> \<exists>mr'. map_parse_submap m junk mr = Some (False, mr') \<and> stack_ok sel mr' fs
    | Some z \<Rightarrow> \<exists>mr'. map_parse_submap m junk mr = push_zipfile_tile m junk mr' z 0 0 \<and> stack_ok sel mr' fs"
proof -
  obtain t ts pre post where f: "mr_tiles mr = t # ts" "item_at t pre it post" "bt_pos_coord t = bt_pos_coord_start t"
      "bt_pos_attr t = bt_pos_attr_start t" using assms(1) unfolding fresh_def by blast
  let ?cs = "bi_coords it"
  let ?t = "t\<lparr>bt_pos_coord := bt_pos_coord_start t + 2 * int (min (0 + 2) (length ?cs))\<rparr>"
  let ?mr = "set_tile ?t mr"
  have c: "binfile_coord_get mr 2 = Some (take 2 ?cs, ?mr)"
    using coord_get_at(2) [OF f(1,2), of 0 2] f(3) by simp
  have mv: "moved mr ?mr" using moved_coord [OF f(1)] .
  have tt: "mr_tiles ?mr = ?t # ts" "item_at ?t pre it post" "bt_pos_attr ?t = bt_pos_attr_start ?t" using f by simp_all
  obtain mr1 where a1: "binfile_attr_get ?mr attr_order = Some (map_option decode (find (\<lambda>a. fst a = attr_order) (bi_attrs it)), mr1)"
    and m1: "moved ?mr mr1" and l1: "mr_attr_last mr1 = attr_order"
    using attr_get_first [OF tt(1,2) assms(3) _ attr_names(1,2)] tt(3) by blast
  obtain t1 i j where t1: "t1 = ?t\<lparr>bt_pos_attr := i, bt_pos_coord := j\<rparr>" "mr_tiles mr1 = t1 # ts"
    using m1 tt(1) by (auto simp: moved_def)
  have it1: "item_at t1 pre it post" using t1(1) tt(2) by simp
  have ne: "mr_attr_last mr1 \<noteq> attr_zipfile_ref" using l1 attr_names(5) by simp
  obtain mr2 where a2: "binfile_attr_get mr1 attr_zipfile_ref = Some (map_option decode (find (\<lambda>a. fst a = attr_zipfile_ref) (bi_attrs it)), mr2)"
    and m2: "moved mr1 mr2"
    using attr_get_first [OF t1(2) it1 assms(3) _ attr_names(3,4)] ne by blast
  have s0: "stack_ok sel ?mr fs" using stack_ok_moved [OF assms(2) mv] .
  have s1: "stack_ok sel mr1 fs" using stack_ok_moved [OF s0 m1] .
  have s2: "stack_ok sel mr2 fs" using stack_ok_moved [OF s1 m2] .
  have sel: "mr_sel mr1 = sel" using s1 by (simp add: stack_ok_def)
  show ?thesis
  proof (cases "length ?cs \<ge> 2")
    case False
    then have n: "length ?cs \<noteq> 2" "length (take 2 ?cs) \<noteq> 2" by simp_all
    have "submap_target sel it = None" using False by (auto simp: submap_target_def split: list.splits)
    then show ?thesis using c n s0 False by (simp add: map_parse_submap_def)
  next
    case True
    then obtain c0 c1 cr where cs: "?cs = c0 # c1 # cr" by (metis One_nat_def Suc_1 Suc_le_length_iff)
    then have tk: "take 2 ?cs = [c0, c1]" by (simp add: numeral_2_eq_2)
    show ?thesis
    proof (cases "find (\<lambda>a. fst a = attr_order) (bi_attrs it)")
      case None
      then show ?thesis using c a1 s1 cs by (simp add: map_parse_submap_def tk submap_target_def)
    next
      case (Some ord)
      let ?sel = "selection_contains sel (submap_box c0 c1) (i16 (hd (snd ord))) (i16 (hd (snd ord) div 65536))"
      have o: "map_option decode (find (\<lambda>a. fst a = attr_order) (bi_attrs it))
          = Some (attr_order, BRange (i16 (hd (snd ord))) (i16 (hd (snd ord) div 65536)))"
        using Some find_fst [OF Some] decode_order by simp
      have p: "map_parse_submap m junk mr = (if \<not> ?sel then Some (False, mr1)
          else do { (at, mr) \<leftarrow> binfile_attr_get mr1 attr_zipfile_ref;
              case at of Some (_, BNum n) \<Rightarrow> push_zipfile_tile m junk mr n 0 0 | _ \<Rightarrow> Some (False, mr) })"
        using c a1 assms(4) by (simp add: map_parse_submap_def tk o sel submap_box_def)
      show ?thesis
      proof (cases "find (\<lambda>a. fst a = attr_zipfile_ref) (bi_attrs it)")
        case None
        then show ?thesis using p a2 s1 s2 cs Some by (simp add: submap_target_def)
      next
        case (Some z)
        have "decode z = (attr_zipfile_ref, BNum (hd (snd z)))" using find_fst [OF Some] by (rule decode_zipfile)
        then show ?thesis using p a2 s1 s2 cs Some \<open>find (\<lambda>a. fst a = attr_order) (bi_attrs it) = Some ord\<close>
          by (auto simp: submap_target_def)
      qed
    qed
  qed
qed

end
