(* ===== verification/Bin_Tile_Spec.thy ===== *)
theory Bin_Tile_Spec
  imports Bin_Reader
begin

text \<open>
  The traversal of a map: \<open>map_rect_get_item_binfile\<close> gives the items of the tiles a selection needs, depth
  first, and each of them is what was encoded.
\<close>

section \<open>One step of the loop\<close>

lemma loop_item:
  assumes "stack_ok sel mr ((it # its) # fs)" "\<not> is_submap it"
  shows "\<exists>mr'. get_item_loop m junk mr = Some (Item_got, mr') \<and> fresh mr' it \<and> stack_ok sel mr' (its # fs)"
proof -
  obtain t ts mr1 where n: "mr_tiles mr = t # ts" "bt_pos_next t < bt_end t" "fresh mr1 it" "stack_ok sel mr1 (its # fs)"
    "do { mr \<leftarrow> setup_pos (set_tile (t\<lparr>bt_pos := bt_pos_next t\<rparr>) mr); mr \<leftarrow> binfile_coord_rewind mr; binfile_attr_rewind mr } = Some mr1"
    using next_item [OF assms(1)] .
  obtain m1 m2 where e: "setup_pos (set_tile (t\<lparr>bt_pos := bt_pos_next t\<rparr>) mr) = Some m1"
    "binfile_coord_rewind m1 = Some m2" "binfile_attr_rewind m2 = Some mr1"
    using n(5) by (auto simp: bind_eq_Some_conv)
  have ty: "mr_item_type mr1 \<noteq> type_submap" "mr_country_id mr1 = 0"
    using n(3,4) assms(2) by (simp_all add: fresh_def is_submap_def stack_ok_def)
  let ?mr = "if bt_mode t \<noteq> 2 then mr1\<lparr>mr_id_hi := bt_zipfile_num t, mr_id_lo := bt_pos_next t\<rparr> else mr1"
  have "fresh ?mr it" "stack_ok sel ?mr (its # fs)" using n(3,4) by (auto simp: fresh_def stack_ok_def)
  moreover have "get_item_loop m junk mr = Some (Item_got, ?mr)"
    using n(1,2) e ty by (subst get_item_loop.simps) (simp add: Let_def)
  ultimately show ?thesis by blast
qed

lemma loop_submap:
  assumes "stack_ok sel mr ((it # its) # fs)" "is_submap it" "\<forall>a \<in> set (bi_attrs it). plain_attr a" "bm_eoc m"
  shows "\<exists>mr'. stack_ok sel mr' (its # fs) \<and> get_item_loop m junk mr =
      (case submap_target sel it of
         None \<Rightarrow> get_item_loop m junk mr'
       | Some z \<Rightarrow> do { (busy, mr) \<leftarrow> push_zipfile_tile m junk mr' z 0 0;
           if busy then Some (Item_busy, mr) else get_item_loop m junk mr })"
proof -
  obtain t ts mr1 where n: "mr_tiles mr = t # ts" "bt_pos_next t < bt_end t" "fresh mr1 it" "stack_ok sel mr1 (its # fs)"
    "do { mr \<leftarrow> setup_pos (set_tile (t\<lparr>bt_pos := bt_pos_next t\<rparr>) mr); mr \<leftarrow> binfile_coord_rewind mr; binfile_attr_rewind mr } = Some mr1"
    using next_item [OF assms(1)] .
  obtain m1 m2 where e: "setup_pos (set_tile (t\<lparr>bt_pos := bt_pos_next t\<rparr>) mr) = Some m1"
    "binfile_coord_rewind m1 = Some m2" "binfile_attr_rewind m2 = Some mr1"
    using n(5) by (auto simp: bind_eq_Some_conv)
  have ty: "mr_item_type mr1 = type_submap" "mr_country_id mr1 = 0"
    using n(3,4) assms(2) by (simp_all add: fresh_def is_submap_def stack_ok_def)
  have g: "get_item_loop m junk mr = do { (busy, mr) \<leftarrow> map_parse_submap m junk mr1;
      if busy then Some (Item_busy, mr) else get_item_loop m junk mr }"
    using n(1,2) e ty by (subst get_item_loop.simps) (simp add: Let_def)
  show ?thesis
  proof (cases "submap_target sel it")
    case None
    then obtain mr' where "map_parse_submap m junk mr1 = Some (False, mr')" "stack_ok sel mr' (its # fs)"
      using parse_submap [OF n(3,4) assms(3,4), of junk] by auto
    then show ?thesis using g None by auto
  next
    case (Some z)
    then obtain mr' where "map_parse_submap m junk mr1 = push_zipfile_tile m junk mr' z 0 0" "stack_ok sel mr' (its # fs)"
      using parse_submap [OF n(3,4) assms(3,4), of junk] by auto
    then show ?thesis using g Some by auto
  qed
qed

lemma stack_end:
  assumes "stack_ok sel mr ([] # fs)"
  obtains t ts where "mr_tiles mr = t # ts" "bt_pos_next t \<ge> bt_end t" "list_all2 frame ts fs"
    "mr_sel mr = sel" "mr_country_id mr = 0" "mr_status mr = 0"
  using assms unfolding stack_ok_def by (auto simp: list_all2_Cons2 frame_def)

lemma loop_pop:
  assumes "stack_ok sel mr ([] # f # fs)"
  shows "\<exists>mr'. get_item_loop m junk mr = get_item_loop m junk mr' \<and> stack_ok sel mr' (f # fs)"
proof -
  obtain t ts where s: "mr_tiles mr = t # ts" "bt_pos_next t \<ge> bt_end t" "list_all2 frame ts (f # fs)"
    "mr_sel mr = sel" "mr_country_id mr = 0" "mr_status mr = 0" using stack_end [OF assms] .
  then have "ts \<noteq> []" by auto
  then have "pop_tile (set_tile (t\<lparr>bt_pos := bt_pos_next t\<rparr>) mr) = Some (mr\<lparr>mr_tiles := ts\<rparr>)"
    using s(1) by (simp add: pop_tile_def set_tile_def Suc_le_eq)
  then have "get_item_loop m junk mr = get_item_loop m junk (mr\<lparr>mr_tiles := ts\<rparr>)"
    using s(1,2) by (subst get_item_loop.simps) (simp add: Let_def)
  moreover have "stack_ok sel (mr\<lparr>mr_tiles := ts\<rparr>) (f # fs)" using s by (simp add: stack_ok_def)
  ultimately show ?thesis by blast
qed

lemma loop_end:
  assumes "stack_ok sel mr [[]]"
  shows "\<exists>mr'. get_item_loop m junk mr = Some (Item_end, mr')"
proof -
  obtain t ts where s: "mr_tiles mr = t # ts" "bt_pos_next t \<ge> bt_end t" "list_all2 frame ts []"
    "mr_sel mr = sel" "mr_country_id mr = 0" "mr_status mr = 0" using stack_end [OF assms] .
  have "pop_tile (set_tile (t\<lparr>bt_pos := bt_pos_next t\<rparr>) mr) = None" using s by (simp add: pop_tile_def)
  then show ?thesis using s(1,2) by (subst get_item_loop.simps) (simp add: Let_def)
qed

section \<open>Reading a whole map\<close>

text \<open>The client's loop: every item is observed. \<open>n\<close> bounds the number of items and of their attributes.\<close>

fun read_all :: "bin_map \<Rightarrow> btile \<Rightarrow> nat \<Rightarrow> nat \<Rightarrow> map_rect \<Rightarrow> (int \<times> coord list \<times> (int \<times> bin_value) list) list option" where
  "read_all m junk k 0 mr = None"
| "read_all m junk k (Suc n) mr = do {
     (r, mr) \<leftarrow> map_rect_get_item_binfile m junk mr;
     case r of
       Item_got \<Rightarrow> do { (v, mr) \<leftarrow> observe k mr; vs \<leftarrow> read_all m junk k n mr; Some (v # vs) }
     | Item_end \<Rightarrow> Some []
     | Item_busy \<Rightarrow> None
   }"

text \<open>
  What is to be read: the items of a tile in order, with the items of the member it leads to in the place of each selected
  submap. \<open>d\<close> is the number of tiles that may be open.
\<close>

fun tile_items :: "selection list \<Rightarrow> (int \<Rightarrow> bitem list) \<Rightarrow> nat \<Rightarrow> bitem list \<Rightarrow> bitem list" where
  "tile_items sel content 0 its = []"
| "tile_items sel content (Suc d) its = concat (map (\<lambda>it.
     if is_submap it then (case submap_target sel it of Some z \<Rightarrow> tile_items sel content d (content z) | None \<Rightarrow> []) else [it]) its)"

text \<open>The archive holds the contents, the submaps are nested at most \<open>d\<close> deep, the attributes are plain ones.\<close>

fun tile_fits :: "bin_map \<Rightarrow> selection list \<Rightarrow> (int \<Rightarrow> bitem list) \<Rightarrow> nat \<Rightarrow> nat \<Rightarrow> bitem list \<Rightarrow> bool" where
  "tile_fits m sel content k 0 its = False"
| "tile_fits m sel content k (Suc d) its = (\<forall>it \<in> set its.
     (\<forall>a \<in> set (bi_attrs it). plain_attr a) \<and> length (bi_attrs it) + 2 \<le> k
     \<and> (is_submap it \<longrightarrow> (case submap_target sel it of None \<Rightarrow> True
         | Some z \<Rightarrow> bm_zip m z = Content (concat (map encode (content z))) \<and> tile_fits m sel content k d (content z))))"

lemma read_all_same:
  assumes "map_rect_get_item_binfile m junk mr = map_rect_get_item_binfile m junk mr'"
  shows "read_all m junk k n mr = read_all m junk k n mr'"
  using assms by (cases n) simp_all

lemma get_item_loop_running: "stack_ok sel mr fs \<Longrightarrow> map_rect_get_item_binfile m junk mr = get_item_loop m junk mr"
  by (simp add: map_rect_get_item_binfile_def stack_ok_def)

text \<open>With what remains on the stack read by \<open>n\<close> steps, the items of the current tile take one more step each.\<close>

lemma read_all_tile:
  assumes "tile_fits m sel content k d its" "stack_ok sel mr (its # fs)" "length fs + d \<le> 8" "bm_eoc m"
    "\<And>mr'. stack_ok sel mr' ([] # fs) \<Longrightarrow> read_all m junk k n mr' = Some vs"
  shows "read_all m junk k (n + length (tile_items sel content d its)) mr
    = Some (map item_view (tile_items sel content d its) @ vs)"
  using assms
proof (induction d arbitrary: its mr fs n vs)
  case (Suc d)
  note outer = Suc.IH
  from Suc.prems show ?case
  proof (induction its arbitrary: mr)
    case Nil
    then show ?case by simp
  next
    case (Cons it its)
    have fit: "\<forall>a \<in> set (bi_attrs it). plain_attr a" "length (bi_attrs it) + 2 \<le> k" "tile_fits m sel content k (Suc d) its"
      using Cons.prems(1) by simp_all
    note run = get_item_loop_running
    have rest: "read_all m junk k (n + length (tile_items sel content (Suc d) its)) mr'
        = Some (map item_view (tile_items sel content (Suc d) its) @ vs)" if "stack_ok sel mr' (its # fs)" for mr'
      by (rule Cons.IH [OF fit(3) that Cons.prems(3,4)]) (rule Cons.prems(5))
    show ?case
    proof (cases "is_submap it")
      case False
      obtain mr1 where g: "get_item_loop m junk mr = Some (Item_got, mr1)" and f: "fresh mr1 it" and s1: "stack_ok sel mr1 (its # fs)"
        using loop_item [OF Cons.prems(2) False] by blast
      obtain mr2 where o: "observe k mr1 = Some (item_view it, mr2)" and mv: "moved mr1 mr2"
        using observe_fresh [OF f fit(1,2)] by blast
      have s2: "stack_ok sel mr2 (its # fs)" using stack_ok_moved [OF s1 mv] .
      show ?thesis using False g o rest [OF s2] run [OF Cons.prems(2)] by simp
    next
      case sub: True
      obtain mr1 where s1: "stack_ok sel mr1 (its # fs)" and g: "get_item_loop m junk mr =
          (case submap_target sel it of None \<Rightarrow> get_item_loop m junk mr1
           | Some z \<Rightarrow> do { (busy, mr) \<leftarrow> push_zipfile_tile m junk mr1 z 0 0;
               if busy then Some (Item_busy, mr) else get_item_loop m junk mr })"
        using loop_submap [OF Cons.prems(2) sub fit(1) Cons.prems(4)] by blast
      show ?thesis
      proof (cases "submap_target sel it")
        case None
        then have "read_all m junk k i mr = read_all m junk k i mr1" for i
          using g run [OF Cons.prems(2)] run [OF s1] by (intro read_all_same) simp
        then show ?thesis using rest [OF s1] sub None by simp
      next
        case (Some z)
        have z: "bm_zip m z = Content (concat (map encode (content z)))" "tile_fits m sel content k d (content z)"
          using Cons.prems(1) sub Some by simp_all
        then have d: "d \<noteq> 0" by (cases d) auto
        have l: "length (its # fs) < 8" using Cons.prems(3) d by simp
        obtain mr2 where p: "push_zipfile_tile m junk mr1 z 0 0 = Some (False, mr2)" and s2: "stack_ok sel mr2 (content z # its # fs)"
          using stack_ok_push [OF s1 z(1) l] by blast
        have "get_item_loop m junk mr = get_item_loop m junk mr2" using g Some p by simp
        then have same: "read_all m junk k i mr = read_all m junk k i mr2" for i
          using run [OF Cons.prems(2)] run [OF s2] by (intro read_all_same) simp
        let ?n = "n + length (tile_items sel content (Suc d) its)"
        let ?vs = "map item_view (tile_items sel content (Suc d) its) @ vs"
        have "read_all m junk k ?n mr' = Some ?vs" if st: "stack_ok sel mr' ([] # its # fs)" for mr'
        proof -
          obtain mr3 where "get_item_loop m junk mr' = get_item_loop m junk mr3" and s3: "stack_ok sel mr3 (its # fs)"
            using loop_pop [OF st] by blast
          then have "read_all m junk k ?n mr' = read_all m junk k ?n mr3"
            using run [OF st] run [OF s3] by (intro read_all_same) simp
          then show ?thesis using rest [OF s3] by simp
        qed
        then have "read_all m junk k (?n + length (tile_items sel content d (content z))) mr2
            = Some (map item_view (tile_items sel content d (content z)) @ ?vs)"
          using Cons.prems(3,4) by (intro outer [OF z(2) s2]) auto
        then show ?thesis using sub Some same by (simp add: ac_simps)
      qed
    qed
  qed
qed simp

text \<open>
  C18: reading an archive item by item until the end gives the items of its index and of the tiles that
  a selection needs, depth first: each item that was written, once, with its type, coordinates and
  attributes (and a label made up for items without one), and the submaps themselves never. The tiles are
  nested at most eight deep, as many as the stack holds.
\<close>

theorem binfile_reads_archive:
  assumes "bm_eoc m" "bm_zip m (bm_zip_members m - 1) = Content (concat (map encode root))"
    "tile_fits m sel content k 8 root"
  shows "do { mr \<leftarrow> map_rect_new_binfile m junk sel; read_all m junk k (Suc (length (tile_items sel content 8 root))) mr }
    = Some (map item_view (tile_items sel content 8 root))"
proof -
  let ?new = "(map_rect_new_binfile_int sel)\<lparr>mr_status := 1\<rparr>" and ?mr0 = "map_rect_new_binfile_int sel"
  let ?n = "length (tile_items sel content 8 root)"
  have new: "map_rect_new_binfile m junk sel = Some ?new" using assms(1) by (simp add: map_rect_new_binfile_def)
  have "stack_ok sel ?mr0 []" by (simp add: stack_ok_def map_rect_new_binfile_int_def)
  then obtain mr where p: "push_zipfile_tile m junk ?mr0 (bm_zip_members m - 1) 0 0 = Some (False, mr)" and s: "stack_ok sel mr [root]"
    using stack_ok_push [OF _ assms(2)] by fastforce
  have r: "?new\<lparr>mr_status := 0\<rparr> = ?mr0" by (simp add: map_rect_new_binfile_int_def)
  have "map_rect_get_item_binfile m junk ?new = get_item_loop m junk mr"
    using p r by (simp add: map_rect_get_item_binfile_def)
  then have "read_all m junk k (Suc ?n) ?new = read_all m junk k (Suc ?n) mr"
    using get_item_loop_running [OF s] by (intro read_all_same) simp
  moreover have "read_all m junk k (1 + ?n) mr = Some (map item_view (tile_items sel content 8 root) @ [])"
  proof (rule read_all_tile [OF assms(3) s])
    fix mr' assume e: "stack_ok sel mr' [[]]"
    then obtain mr'' where "get_item_loop m junk mr' = Some (Item_end, mr'')" using loop_end by blast
    then show "read_all m junk k 1 mr' = Some []" using get_item_loop_running [OF e] by simp
  qed (use assms(1) in simp_all)
  ultimately show ?thesis using new by simp
qed

definition example_street :: bitem where
  "example_street = \<lparr>bi_type = type_line, bi_coords = [\<lparr>cx = 5, cy = 6\<rparr>, \<lparr>cx = 7, cy = 8\<rparr>],
     bi_attrs = [(attr_street_name, [65]), (attr_zipfile_ref, [3])]\<rparr>"

definition example_submap :: "coord \<Rightarrow> coord \<Rightarrow> int \<Rightarrow> bitem" where
  "example_submap c d z = \<lparr>bi_type = type_submap, bi_coords = [c, d],
     bi_attrs = [(attr_order, [655360]), (attr_zipfile_ref, [z])]\<rparr>"

definition example_root :: "bitem list" where
  "example_root = [example_submap \<lparr>cx = 100, cy = 100\<rparr> \<lparr>cx = 200, cy = 200\<rparr> 7,
     example_submap \<lparr>cx = 0, cy = 0\<rparr> \<lparr>cx = 50, cy = 50\<rparr> 0, example_street]"

definition example_map :: bin_map where
  "example_map = \<lparr>bm_eoc = True, bm_zip_members = 2,
     bm_zip = (\<lambda>z. if z = 1 then Content (concat (map encode example_root)) else if z = 0 then Content (encode example_street) else No_entry),
     bm_file = None\<rparr>"

definition example_sel :: "selection list" where
  "example_sel = [\<lparr>sel_rect = \<lparr>cr_lu = \<lparr>cx = 1, cy = 9\<rparr>, cr_rl = \<lparr>cx = 9, cy = 1\<rparr>\<rparr>, sel_order = 4\<rparr>]"

theorem binfile_reads_archive_witness:
  "\<forall>junk. do { mr \<leftarrow> map_rect_new_binfile example_map junk example_sel; read_all example_map junk 9 3 mr }
    = Some [item_view example_street, item_view example_street]"
proof -
  let ?content = "\<lambda>z. if z = 0 then [example_street] else []"
  have i: "tile_items example_sel ?content 8 example_root = [example_street, example_street]" by code_simp
  have f: "tile_fits example_map example_sel ?content 9 8 example_root" by code_simp
  have e: "bm_eoc example_map" "bm_zip example_map (bm_zip_members example_map - 1) = Content (concat (map encode example_root))"
    by (simp_all add: example_map_def)
  show ?thesis using binfile_reads_archive [OF e f] unfolding i by (simp add: numeral_3_eq_3)
qed

end
