(* ===== verification/Bin_Edit_Spec.thy ===== *)
theory Bin_Edit_Spec
  imports Bin_Reader
begin

text \<open>
  Changing an item through the reader: the attribute selected last is deleted, replaced, or gets a new neighbour in a copy
  of the item; and where changing coordinates goes wrong.
\<close>

section \<open>Moving words\<close>

lemma move_write:
  assumes "int (length O') + delta = int (length N)" "delta \<le> int (length mem)" "i = int (length A)"
  shows "\<exists>stale. do {
      d \<leftarrow> buf_move (A @ O' @ M @ mem) (i + int (length O') + delta) (i + int (length O')) (int (length M));
      if N \<noteq> [] then buf_write d i N else Some d } = Some (A @ N @ M @ stale)"
proof -
  let ?D = "A @ O' @ M @ mem"
  have i2: "i + int (length O') + delta = int (length A + length N)" "i + int (length O') = int (length (A @ O'))"
    using assms by simp_all
  let ?k = "length A + length N"
  have fit: "?k + length M \<le> length ?D" using assms(1,2) by simp
  have sl: "buf_slice ?D (int (length (A @ O'))) (int (length M)) = Some M"
    using buf_slice_at [of _ "A @ O'" _ M mem] by simp
  have mv: "buf_move ?D (int ?k) (int (length (A @ O'))) (int (length M)) = Some (take ?k ?D @ M @ drop (?k + length M) ?D)"
  proof (cases "M = []")
    case True
    show ?thesis unfolding True buf_move_def list.size of_nat_0 add_0_right append_Nil append_take_drop_id by simp
  next
    case False
    have "buf_write ?D (int ?k) M = Some (take ?k ?D @ M @ drop (?k + length M) ?D)"
      using fit unfolding buf_write_def by (simp only: nat_int of_nat_add [symmetric] of_nat_le_iff of_nat_0_le_iff if_True simp_thms)
    then show ?thesis using sl False by (simp add: buf_move_def del: append_assoc length_append)
  qed
  obtain W where W: "take ?k ?D = A @ W" "length W = length N"
    using fit by (intro that [of "take (length N) (O' @ M @ mem)"]) simp_all
  let ?stale = "drop (?k + length M) ?D"
  have "buf_write ((A @ W) @ M @ ?stale) i N = Some (A @ N @ M @ ?stale)" if "N \<noteq> []"
  proof -
    have "length N \<le> length (W @ M @ ?stale)" unfolding length_append W(2) by (rule le_add1)
    then have "buf_write (A @ W @ M @ ?stale) i N = Some (A @ N @ drop (length N) (W @ M @ ?stale))"
      by (intro buf_write_at assms(3))
    also have "drop (length N) (W @ M @ ?stale) = M @ ?stale" using append_eq_conv_conj [of W "M @ ?stale" "W @ M @ ?stale"] W(2) by simp
    finally show ?thesis by (simp only: append_assoc)
  qed
  moreover have "W = []" if "N = []" using that W(2) by simp
  ultimately have "(if N \<noteq> [] then buf_write (take ?k ?D @ M @ ?stale) i N else Some (take ?k ?D @ M @ ?stale)) = Some (A @ N @ M @ ?stale)"
    unfolding W(1) by (cases "N = []") (simp_all only: append_Nil append_Nil2 append_assoc simp_thms if_True if_False)
  then show ?thesis unfolding i2(1) unfolding i2(2) mv bind.bind_lunit by blast
qed

section \<open>The attribute selected last\<close>

lemma selected_attr_from:
  "selected_attr (xs @ enc_attrs (ds @ as) @ ys) (int (length xs)) (int (length (enc_attrs (ds @ as)))) (int (length (enc_attrs ds))) w n
    = Some (if as = [] then (int (length (enc_attrs ds)), w, n)
       else (int (length (enc_attrs (ds @ as))), int (length (enc_attrs (ds @ butlast as))), int (length (enc_attr (last as)))))"
proof (induction as arbitrary: ds w n)
  case Nil
  then show ?case by (subst selected_attr.simps) simp
next
  case (Cons a as)
  let ?b = "xs @ enc_attrs (ds @ a # as) @ ys"
  have b: "?b = (xs @ enc_attrs ds) @ enc_attr a @ enc_attrs as @ ys" by simp
  have r: "buf_read ?b (int (length xs) + int (length (enc_attrs ds))) = Some (int (length (snd a)) + 1)"
    unfolding b by (subst enc_attr_def) (simp only: append.simps, rule buf_read_at, simp)
  have ds: "int (length (enc_attrs ds)) + (int (length (snd a)) + 1 + 1) = int (length (enc_attrs (ds @ [a])))"
    "int (length (snd a)) + 1 + 1 = int (length (enc_attr a))" by simp_all
  have "selected_attr ?b (int (length xs)) (int (length (enc_attrs (ds @ a # as)))) (int (length (enc_attrs ds))) w n
    = selected_attr ?b (int (length xs)) (int (length (enc_attrs (ds @ a # as)))) (int (length (enc_attrs (ds @ [a]))))
        (int (length (enc_attrs ds))) (int (length (enc_attr a)))"
    by (subst selected_attr.simps) (simp only: r bind.bind_lunit ds, simp add: ac_simps)
  also have "\<dots> = Some (if as = [] then (int (length (enc_attrs (ds @ [a]))), int (length (enc_attrs ds)), int (length (enc_attr a)))
       else (int (length (enc_attrs ((ds @ [a]) @ as))), int (length (enc_attrs ((ds @ [a]) @ butlast as))), int (length (enc_attr (last as)))))"
    using Cons.IH [of "ds @ [a]"] by simp
  finally show ?case by simp
qed

text \<open>The attributes after a change of the selected one.\<close>

fun edited :: "change_mode \<Rightarrow> 'a list \<Rightarrow> 'a \<Rightarrow> 'a list \<Rightarrow> 'a \<Rightarrow> 'a list" where
  "edited change_mode_delete as a bs x = as @ bs"
| "edited change_mode_modify as a bs x = as @ x # bs"
| "edited change_mode_append as a bs x = as @ a # x # bs"
| "edited change_mode_prepend as a bs x = as @ x # a # bs"

text \<open>The attributes before the cursor afterwards.\<close>

fun edited_before :: "change_mode \<Rightarrow> 'a list \<Rightarrow> 'a \<Rightarrow> 'a \<Rightarrow> 'a list" where
  "edited_before change_mode_delete as a x = as"
| "edited_before change_mode_modify as a x = as @ [x]"
| "edited_before change_mode_append as a x = as @ [a]"
| "edited_before change_mode_prepend as a x = as @ [x, a]"

text \<open>The copy of the current item.\<close>

lemma dup_item:
  assumes "item_at t pre it post"
  shows "binfile_item_dup memory t extra = Some (encode it @ memory (nat extra))"
proof -
  have b: "bt_data t = pre @ encode it @ post" "bt_pos t = int (length pre)" using assms by (simp_all add: item_at_def)
  have r: "buf_read (pre @ encode it @ post) (int (length pre)) = Some (int (length (encode it)) - 1)"
    unfolding encode_head enc_head_def append.simps by (subst buf_read_at [OF refl]) (simp add: length_encode)
  have "buf_slice (pre @ encode it @ post) (int (length pre)) (int (length (encode it)) - 1 + 1) = Some (encode it)"
    by (rule buf_slice_at) simp_all
  then show ?thesis unfolding binfile_item_dup_def b r by simp
qed

text \<open>Pushing a block that holds an item whose length field is changed.\<close>

definition with_len :: "int \<Rightarrow> bitem \<Rightarrow> int list" where
  "with_len n it = n # tl (encode it)"

lemma write_len:
  "buf_read (encode it @ mem) 0 = Some (int (length (encode it)) - 1)"
  "buf_write (encode it @ mem) 0 [n] = Some (with_len n it @ mem)"
  by (simp_all add: encode_head enc_head_def with_len_def)

lemma push_item:
  assumes "mr_tiles mr = t # ts" "length ts < 7"
  shows "\<exists>u. do { mr \<leftarrow> push_tile mr (junk\<lparr>bt_data := with_len n it @ mem, bt_pos := 0, bt_zipfile_num := z, bt_mode := 2\<rparr>) 0 0; setup_pos mr }
      = Some (mr\<lparr>mr_tiles := u # t # ts, mr_item_type := u32 (bi_type it)\<rparr>)
    \<and> bt_data u = with_len n it @ mem \<and> bt_pos u = 0 \<and> bt_pos_next u = n + 1 \<and> bt_pos_coord_start u = 3
    \<and> bt_pos_attr_start u = int (length (enc_head it)) \<and> bt_end u = bt_end junk"
proof -
  let ?d = "with_len n it @ mem"
  have u: "u32 (i32 x) = u32 x" for x unfolding u32_def i32_def by (metis add_diff_cancel_right' mod_diff_left_eq)
  have r: "buf_read ?d 0 = Some n" "buf_read ?d 1 = Some (i32 (bi_type it))" "buf_read ?d 2 = Some (2 * int (length (bi_coords it)))"
    by (simp_all add: with_len_def encode_head enc_head_def)
  have l: "length (mr_tiles mr) < 8" using assms by simp
  show ?thesis
    by (rule exI [of _ "junk\<lparr>bt_data := ?d, bt_zipfile_num := z, bt_mode := 2, bt_pos := 0, bt_pos_next := n + 1,
        bt_pos_coord_start := 3, bt_pos_attr_start := 3 + 2 * int (length (bi_coords it))\<rparr>"])
      (use r l assms(1) u in \<open>simp add: push_tile_def setup_pos_def cur_tile_def set_tile_def Let_def\<close>)
qed

section \<open>The printing loops\<close>

lemma dump_words_verbose: "dump_words True i e = Some ()"
proof (induction "nat (e - i)" arbitrary: i)
  case 0
  then show ?case by (subst dump_words.simps) simp
next
  case (Suc n)
  then show ?case by (subst dump_words.simps) simp
qed

text \<open>A loop that does not step is not left.\<close>

lemma dump_words_quiet: "i < e \<Longrightarrow> dump_words False i e = None"
proof -
  have "dump_words v i e = Some u \<Longrightarrow> \<not> v \<longrightarrow> e \<le> i" for v i e u
    by (erule dump_words.raw_induct [rotated, where P = "\<lambda>v i e u. \<not> v \<longrightarrow> e \<le> i"]) (fastforce split: if_splits)
  then show "i < e \<Longrightarrow> dump_words False i e = None" by (metis linorder_not_le not_None_eq)
qed

lemma dump_cursor_stuck: "i < e \<Longrightarrow> dump_cursor i e = None"
proof -
  have "dump_cursor i e = Some u \<Longrightarrow> e \<le> i" for i e u
    by (erule dump_cursor.raw_induct [rotated, where P = "\<lambda>i e u. e \<le> i"]) (auto split: if_splits)
  then show "i < e \<Longrightarrow> dump_cursor i e = None" by (metis linorder_not_le not_None_eq)
qed

section \<open>Changing an attribute\<close>

lemma apply_steps:
  assumes "binfile_item_dup memory t (if delta > 0 then delta else 0) = Some b0" "buf_read b0 0 = Some n"
    "buf_write b0 0 [i32 (n + delta)] = Some b1"
    "push_tile mr (junk\<lparr>bt_data := b1, bt_pos := 0, bt_zipfile_num := bt_zipfile_num t, bt_mode := 2\<rparr>) 0 0 = Some mr1"
    "setup_pos mr1 = Some mr2" "mr_tiles mr2 = u # us"
    "buf_move (bt_data u) (bt_pos_attr_start u + move_offset + delta) (bt_pos_attr_start u + move_offset) move_len = Some d1"
    "(if nattr \<noteq> [] then buf_write d1 (bt_pos_attr_start u + write_offset) nattr else Some d1) = Some d2"
  shows "attr_set_apply True memory junk mr t mode coffset offset move_offset move_len write_offset delta nattr
    = Some (set_tile (u\<lparr>bt_pos_coord := bt_pos_coord_start u + coffset,
        bt_pos_attr := bt_pos_attr_start u + offset + (if mode \<noteq> change_mode_append then delta else 0), bt_data := d2\<rparr>) mr2)"
  using assms unfolding attr_set_apply_def
  by (cases "mode = change_mode_append") (simp_all add: Let_def dump_words_verbose cong: if_cong)

text \<open>The attributes \<open>os\<close> behind \<open>us\<close> are replaced by \<open>ns\<close>, one attribute at most.\<close>

lemma apply_edit:
  assumes "item_at t pre it post" "mr_tiles mr = t # ts" "length ts < 7" "\<forall>n. length (memory n) = n"
    "bi_attrs it = us @ os @ vs" "small (encode it)" "small (encode (it\<lparr>bi_attrs := us @ ns @ vs\<rparr>))"
    "delta = int (length (enc_attrs ns)) - int (length (enc_attrs os))"
    "move_offset = int (length (enc_attrs (us @ os)))" "move_len = int (length (enc_attrs vs))"
    "enc_attrs ns \<noteq> [] \<Longrightarrow> write_offset = int (length (enc_attrs us))"
  shows "\<exists>mr' u stale. attr_set_apply True memory junk mr t mode coffset offset move_offset move_len write_offset delta (enc_attrs ns) = Some mr'
    \<and> mr_tiles mr' = u # t # ts \<and> item_at u [] (it\<lparr>bi_attrs := us @ ns @ vs\<rparr>) stale
    \<and> bt_pos_coord u = bt_pos_coord_start u + coffset
    \<and> bt_pos_attr u = bt_pos_attr_start u + offset + (if mode \<noteq> change_mode_append then delta else 0)"
proof -
  let ?it = "it\<lparr>bi_attrs := us @ ns @ vs\<rparr>"
  let ?mem = "memory (nat (if delta > 0 then delta else 0))"
  let ?n = "int (length (encode it)) - 1 + delta"
  have n: "?n = int (length (encode ?it)) - 1" using assms(5,8) by (simp add: length_encode)
  have "?n \<le> INT_MAX" "- 2147483648 \<le> ?n" using assms(7) unfolding n small_def by simp_all
  then have i: "i32 ?n = ?n" by (intro i32_in_range) (simp_all add: INT_MAX_def)
  obtain u where p: "do { mr \<leftarrow> push_tile mr (junk\<lparr>bt_data := with_len ?n it @ ?mem, bt_pos := 0, bt_zipfile_num := bt_zipfile_num t, bt_mode := 2\<rparr>) 0 0; setup_pos mr }
      = Some (mr\<lparr>mr_tiles := u # t # ts, mr_item_type := u32 (bi_type it)\<rparr>)"
    and u: "bt_data u = with_len ?n it @ ?mem" "bt_pos u = 0" "bt_pos_next u = ?n + 1" "bt_pos_coord_start u = 3"
      "bt_pos_attr_start u = int (length (enc_head it))"
    using push_item [OF assms(2,3)] by blast
  let ?A = "with_len ?n (it\<lparr>bi_attrs := []\<rparr>) @ enc_attrs us"
  have w: "with_len ?n it @ ?mem = ?A @ enc_attrs os @ enc_attrs vs @ ?mem"
    using assms(5) by (simp add: with_len_def encode_head enc_head_def)
  have lA: "int (length ?A) = int (length (enc_head it)) + int (length (enc_attrs us))"
    by (simp add: with_len_def encode_head enc_head_def)
  have mem: "delta \<le> int (length ?mem)" using assms(4) by simp
  obtain stale where st: "do {
      d \<leftarrow> buf_move (?A @ enc_attrs os @ enc_attrs vs @ ?mem) (int (length ?A) + int (length (enc_attrs os)) + delta)
        (int (length ?A) + int (length (enc_attrs os))) (int (length (enc_attrs vs)));
      if enc_attrs ns \<noteq> [] then buf_write d (int (length ?A)) (enc_attrs ns) else Some d } = Some (?A @ enc_attrs ns @ enc_attrs vs @ stale)"
    using move_write [of "enc_attrs os" delta "enc_attrs ns" ?mem "int (length ?A)" ?A "enc_attrs vs"] assms(8) mem by auto
  have enc: "?A @ enc_attrs ns @ enc_attrs vs = encode ?it"
    unfolding n by (simp add: with_len_def encode_head enc_head_def)
  have pos: "bt_pos_attr_start u + move_offset = int (length ?A) + int (length (enc_attrs os))" using assms(9) u(5) lA by simp
  have wo: "enc_attrs ns \<noteq> [] \<Longrightarrow> bt_pos_attr_start u + write_offset = int (length ?A)" using assms(11) u(5) lA by simp
  let ?tn = "u\<lparr>bt_pos_coord := bt_pos_coord_start u + coffset,
    bt_pos_attr := bt_pos_attr_start u + offset + (if mode \<noteq> change_mode_append then delta else 0)\<rparr>"
  let ?un = "?tn\<lparr>bt_data := ?A @ enc_attrs ns @ enc_attrs vs @ stale\<rparr>"
  let ?mr = "mr\<lparr>mr_tiles := ?un # t # ts, mr_item_type := u32 (bi_type it)\<rparr>"
  have at: "item_at ?un [] ?it stale"
  proof -
    have b: "?A @ enc_attrs ns @ enc_attrs vs @ stale = encode ?it @ stale" using enc by (metis append_assoc)
    show ?thesis using u(2-5) n unfolding item_at_def b by simp
  qed
  have d: "binfile_item_dup memory t (if delta > 0 then delta else 0) = Some (encode it @ ?mem)" by (rule dup_item [OF assms(1)])
  obtain mr1 where mr1: "push_tile mr (junk\<lparr>bt_data := with_len ?n it @ ?mem, bt_pos := 0, bt_zipfile_num := bt_zipfile_num t, bt_mode := 2\<rparr>) 0 0 = Some mr1"
    "setup_pos mr1 = Some (mr\<lparr>mr_tiles := u # t # ts, mr_item_type := u32 (bi_type it)\<rparr>)"
    using p by (auto simp: bind_eq_Some_conv)
  obtain d1 where d1: "buf_move (bt_data u) (bt_pos_attr_start u + move_offset + delta) (bt_pos_attr_start u + move_offset) move_len = Some d1"
    "(if enc_attrs ns \<noteq> [] then buf_write d1 (int (length ?A)) (enc_attrs ns) else Some d1) = Some (?A @ enc_attrs ns @ enc_attrs vs @ stale)"
    using st unfolding u(1) w pos assms(10) by (auto simp: bind_eq_Some_conv)
  have d2: "(if enc_attrs ns \<noteq> [] then buf_write d1 (bt_pos_attr_start u + write_offset) (enc_attrs ns) else Some d1) = Some (?A @ enc_attrs ns @ enc_attrs vs @ stale)"
  proof (cases "enc_attrs ns = []")
    case False
    show ?thesis using d1(2) unfolding wo [OF False] .
  qed (use d1(2) in simp)
  have "attr_set_apply True memory junk mr t mode coffset offset move_offset move_len write_offset delta (enc_attrs ns) = Some ?mr"
  proof -
    have w2: "buf_write (encode it @ ?mem) 0 [i32 ?n] = Some (with_len ?n it @ ?mem)" unfolding i by (rule write_len)
    have tt: "mr_tiles (mr\<lparr>mr_tiles := u # t # ts, mr_item_type := u32 (bi_type it)\<rparr>) = u # t # ts" by simp
    show ?thesis unfolding apply_steps [OF d write_len(1) w2 mr1 tt d1(1) d2] by (simp add: set_tile_def)
  qed
  then show ?thesis using at by auto
qed

text \<open>The attribute the words of which are written.\<close>

definition attr_words :: "attr_heap \<Rightarrow> attr \<Rightarrow> int \<times> int list" where
  "attr_words h x = (at_type x, words_of_bytes (the (attr_data_bytes h x)))"

lemma edit_params:
  assumes "item_at t pre it post" "bi_attrs it = as @ a # bs"
    "bt_pos_attr t = bt_pos_attr_start t + int (length (enc_attrs (as @ [a])))"
  shows "selected_attr (bt_data t) (bt_pos_attr_start t) (bt_pos_attr t - bt_pos_attr_start t) 0 0 0
      = Some (int (length (enc_attrs (as @ [a]))), int (length (enc_attrs as)), int (length (enc_attr a)))"
    "bt_pos_next t - bt_pos_attr_start t - int (length (enc_attrs (as @ [a]))) = int (length (enc_attrs bs))"
proof -
  have b: "bt_data t = (pre @ enc_head it) @ enc_attrs (as @ [a]) @ enc_attrs bs @ post" "bt_pos_attr_start t = int (length (pre @ enc_head it))"
    using assms(1,2) by (simp_all add: item_at_def encode_head)
  show "selected_attr (bt_data t) (bt_pos_attr_start t) (bt_pos_attr t - bt_pos_attr_start t) 0 0 0
      = Some (int (length (enc_attrs (as @ [a]))), int (length (enc_attrs as)), int (length (enc_attr a)))"
    using selected_attr_from [of "pre @ enc_head it" "[]" "as @ [a]" "enc_attrs bs @ post" 0 0] assms(3)
    unfolding b by simp
  show "bt_pos_next t - bt_pos_attr_start t - int (length (enc_attrs (as @ [a]))) = int (length (enc_attrs bs))"
    using assms(1,2) by (simp add: item_at_def encode_head)
qed

lemma edit_step:
  assumes "cur_tile mr = Some t" "bt_pos_attr t - bt_pos_attr_start t \<noteq> 0"
    "selected_attr (bt_data t) (bt_pos_attr_start t) (bt_pos_attr t - bt_pos_attr_start t) 0 0 0 = Some (off, wo, ol)"
    "bt_pos_next t - bt_pos_attr_start t - off = ml" "attr_data_bytes h x = Some d"
    "(if mode = change_mode_delete then [] else (int (length (words_of_bytes d)) + 1) # at_type x # words_of_bytes d) = nattr"
  shows "attr_set_edit True memory junk h mr x mode = map_option (\<lambda>mr. (True, mr))
    (attr_set_apply True memory junk mr t mode (bt_pos_coord t - bt_pos_coord_start t) off
      (if mode = change_mode_prepend then wo else off) (if mode = change_mode_prepend then ml + ol else ml)
      (if mode = change_mode_append then off else wo)
      (if mode = change_mode_delete \<or> mode = change_mode_modify then int (length nattr) - ol else int (length nattr)) nattr)"
  using assms unfolding attr_set_edit_def
  by (cases mode) (auto simp: Let_def dump_words_verbose map_conv_bind_option comp_def)

lemma edit_case:
  assumes "item_at t pre it post" "mr_tiles mr = t # ts" "length ts < 7" "\<forall>n. length (memory n) = n"
    "bi_attrs it = us @ os @ vs" "small (encode it)" "small (encode (it\<lparr>bi_attrs := us @ ns @ vs\<rparr>))"
    "bt_pos_attr t - bt_pos_attr_start t \<noteq> 0"
    "selected_attr (bt_data t) (bt_pos_attr_start t) (bt_pos_attr t - bt_pos_attr_start t) 0 0 0 = Some (off, wo, ol)"
    "bt_pos_next t - bt_pos_attr_start t - off = ml" "attr_data_bytes h x = Some d"
    "(if mode = change_mode_delete then [] else (int (length (words_of_bytes d)) + 1) # at_type x # words_of_bytes d) = enc_attrs ns"
    "(if mode = change_mode_prepend then wo else off) = int (length (enc_attrs (us @ os)))"
    "(if mode = change_mode_prepend then ml + ol else ml) = int (length (enc_attrs vs))"
    "enc_attrs ns \<noteq> [] \<Longrightarrow> (if mode = change_mode_append then off else wo) = int (length (enc_attrs us))"
    "(if mode = change_mode_delete \<or> mode = change_mode_modify then int (length (enc_attrs ns)) - ol else int (length (enc_attrs ns)))
      = int (length (enc_attrs ns)) - int (length (enc_attrs os))"
    "off + (if mode \<noteq> change_mode_append then int (length (enc_attrs ns)) - int (length (enc_attrs os)) else 0) = p"
  shows "\<exists>mr' u stale. attr_set_edit True memory junk h mr x mode = Some (True, mr')
    \<and> mr_tiles mr' = u # t # ts \<and> item_at u [] (it\<lparr>bi_attrs := us @ ns @ vs\<rparr>) stale
    \<and> bt_pos_coord u - bt_pos_coord_start u = bt_pos_coord t - bt_pos_coord_start t
    \<and> bt_pos_attr u = bt_pos_attr_start u + p"
proof -
  note ap = apply_edit [where write_offset = "if mode = change_mode_append then off else wo" and mode = mode
      and coffset = "bt_pos_coord t - bt_pos_coord_start t" and offset = off and junk = junk, OF assms(1-7) refl refl refl assms(15)]
  have c: "cur_tile mr = Some t" using assms(2) by simp
  note st = edit_step [OF c assms(8-12), unfolded assms(13,14,16)]
  obtain mr' u stale where r: "attr_set_apply True memory junk mr t mode (bt_pos_coord t - bt_pos_coord_start t) off
      (int (length (enc_attrs (us @ os)))) (int (length (enc_attrs vs))) (if mode = change_mode_append then off else wo)
      (int (length (enc_attrs ns)) - int (length (enc_attrs os))) (enc_attrs ns) = Some mr'"
    "mr_tiles mr' = u # t # ts" "item_at u [] (it\<lparr>bi_attrs := us @ ns @ vs\<rparr>) stale"
    "bt_pos_coord u = bt_pos_coord_start u + (bt_pos_coord t - bt_pos_coord_start t)"
    "bt_pos_attr u = bt_pos_attr_start u + off + (if mode \<noteq> change_mode_append then int (length (enc_attrs ns)) - int (length (enc_attrs os)) else 0)"
    using ap by blast
  have "attr_set_edit True memory junk h mr x mode = Some (True, mr')" using st [of memory junk] r(1) by simp
  moreover have "bt_pos_attr u = bt_pos_attr_start u + p" using r(5) assms(17) by simp
  moreover have "bt_pos_coord u - bt_pos_coord_start u = bt_pos_coord t - bt_pos_coord_start t" using r(4) by simp
  ultimately show ?thesis using r(2,3) by blast
qed

lemma attr_set_edits:
  assumes "item_at t pre it post" "mr_tiles mr = t # ts" "length ts < 7" "\<forall>n. length (memory n) = n"
    "bi_attrs it = as @ a # bs" "bt_pos_attr t = bt_pos_attr_start t + int (length (enc_attrs (as @ [a])))"
    "attr_data_bytes h x \<noteq> None" "it' = it\<lparr>bi_attrs := edited mode as a bs (attr_words h x)\<rparr>" "small (encode it)" "small (encode it')"
  shows "\<exists>mr' u stale. attr_set_edit True memory junk h mr x mode = Some (True, mr')
    \<and> mr_tiles mr' = u # t # ts \<and> item_at u [] it' stale
    \<and> bt_pos_coord u - bt_pos_coord_start u = bt_pos_coord t - bt_pos_coord_start t
    \<and> bt_pos_attr u = bt_pos_attr_start u + int (length (enc_attrs (edited_before mode as a (attr_words h x))))"
proof -
  obtain d where d: "attr_data_bytes h x = Some d" using assms(7) by blast
  let ?x = "attr_words h x"
  let ?na = "bt_pos_attr t - bt_pos_attr_start t"
  note ep = edit_params [OF assms(1,5,6)]
  have na: "?na \<noteq> 0" using assms(6) by simp
  have x: "(int (length (words_of_bytes d)) + 1) # at_type x # words_of_bytes d = enc_attrs [?x]"
    using d by (simp add: attr_words_def enc_attr_def)
  note ec = edit_case [OF assms(1-4) _ assms(9) _ na ep d, where junk = junk]
  show ?thesis
  proof (cases mode)
    case change_mode_delete
    then show ?thesis unfolding assms(8)
      using ec [of as "[a]" bs "[]" mode] assms(5,8,10) by simp
  next
    case change_mode_modify
    then show ?thesis unfolding assms(8)
      using ec [of as "[a]" bs "[?x]" mode] x assms(5,8,10) by simp
  next
    case change_mode_append
    then show ?thesis unfolding assms(8)
      using ec [of "as @ [a]" "[]" bs "[?x]" mode] x assms(5,8,10) by simp
  next
    case change_mode_prepend
    then show ?thesis unfolding assms(8)
      using ec [of as "[]" "a # bs" "[?x]" mode] x assms(5,8,10) by (simp add: ac_simps)
  qed
qed


definition edit_item :: bitem where
  "edit_item = \<lparr>bi_type = type_line, bi_coords = [\<lparr>cx = 1, cy = 2\<rparr>, \<lparr>cx = 3, cy = 4\<rparr>, \<lparr>cx = 5, cy = 6\<rparr>],
     bi_attrs = [(attr_type_int_begin, [7]), (attr_street_name, [65]), (attr_zipfile_ref, [3])]\<rparr>"

definition edit_heap :: attr_heap where
  "edit_heap = \<lparr>ah_attr = Map.empty, ah_block = [100 \<mapsto> [72, 105, 0]]\<rparr>"

text \<open>The second attribute was read last, and the second coordinate.\<close>

definition edit_tile :: btile where
  "edit_tile = \<lparr>bt_data = [9] @ encode edit_item @ [8], bt_end = 20, bt_pos = 1, bt_pos_coord_start = 4, bt_pos_coord = 8, bt_pos_attr_start = 10,
     bt_pos_attr = 16, bt_pos_next = 19, bt_zipfile_num = 4, bt_mode = 1\<rparr>"

definition edit_rect :: map_rect where
  "edit_rect = (map_rect_new_binfile_int [])\<lparr>mr_tiles := [edit_tile]\<rparr>"

lemma edit_example:
  "item_at edit_tile [9] edit_item [8]" "mr_tiles edit_rect = edit_tile # []" "length ([] :: btile list) < 7"
  "\<forall>n. length (replicate n (0::int)) = n"
  "bi_attrs edit_item = [(attr_type_int_begin, [7])] @ (attr_street_name, [65]) # [(attr_zipfile_ref, [3])]"
  "bt_pos_attr edit_tile = bt_pos_attr_start edit_tile + int (length (enc_attrs ([(attr_type_int_begin, [7])] @ [(attr_street_name, [65])])))"
  "attr_data_bytes edit_heap \<lparr>at_type = attr_type_string_begin, at_u = 100\<rparr> \<noteq> None"
  "small (encode edit_item)"
proof -
  have "attr_data_bytes edit_heap \<lparr>at_type = attr_type_string_begin, at_u = 100\<rparr> = Some [72, 105, 0]" by code_simp
  then show "attr_data_bytes edit_heap \<lparr>at_type = attr_type_string_begin, at_u = 100\<rparr> \<noteq> None" by simp
qed (simp_all add: item_at_def edit_tile_def edit_item_def edit_rect_def length_encode small_def INT_MAX_def)


section \<open>Neither operation returns\<close>

lemma item_at_before: "item_at t pre it post \<Longrightarrow> bt_pos t < bt_pos_next t"
  by (simp add: item_at_def length_encode)

text \<open>
  \<open>binfile_attr_set\<close> never returns from a change: its last loop prints the cursor without stepping. At
  a lower debug level, the default one included, already the first loops are not left, here and in
  \<open>binfile_coord_set\<close>: the step is an argument of the \<open>dbg\<close> macro, which is not evaluated.
\<close>

theorem binfile_set_hangs:
  assumes "item_at t pre it post" "mr_tiles mr = t # ts" "length ts < 7" "\<forall>n. length (memory n) = n"
    "bi_attrs it = as @ a # bs" "bt_pos_attr t = bt_pos_attr_start t + int (length (enc_attrs (as @ [a])))"
    "attr_data_bytes h x \<noteq> None" "small (encode it)" "small (encode (it\<lparr>bi_attrs := edited mode as a bs (attr_words h x)\<rparr>))"
  shows "binfile_attr_set verbose memory junk h mr x mode = None \<and> binfile_coord_set False memory junk mr c count mode = None"
proof -
  have cur: "cur_tile mr = Some t" using assms(2) by simp
  have q: "dump_words False (bt_pos t) (bt_pos_next t) = None" using item_at_before [OF assms(1)] by (rule dump_words_quiet)
  have "binfile_attr_set verbose memory junk h mr x mode = None"
  proof (cases verbose)
    case False
    then show ?thesis using cur q by (simp add: binfile_attr_set_def attr_set_edit_def)
  next
    case True
    obtain mr' u stale where e: "attr_set_edit True memory junk h mr x mode = Some (True, mr')" "mr_tiles mr' = u # t # ts"
        "item_at u [] (it\<lparr>bi_attrs := edited mode as a bs (attr_words h x)\<rparr>) stale"
      using attr_set_edits [OF assms(1-7) refl assms(8,9), of junk] by blast
    have "cur_tile mr' = Some u" using e(2) by simp
    moreover have "dump_cursor (bt_pos u) (bt_pos_next u) = None" using item_at_before [OF e(3)] by (rule dump_cursor_stuck)
    ultimately show ?thesis using True e(1) by (simp add: binfile_attr_set_def)
  qed
  moreover have "binfile_coord_set False memory junk mr c count mode = None" using cur q by (simp add: binfile_coord_set_def)
  ultimately show ?thesis ..
qed

theorem binfile_set_hangs_witness:
  "binfile_attr_set True (\<lambda>n. replicate n 0) edit_tile edit_heap edit_rect \<lparr>at_type = attr_type_string_begin, at_u = 100\<rparr> change_mode_delete = None
    \<and> binfile_coord_set False (\<lambda>n. replicate n 0) edit_tile edit_rect [] 1 change_mode_delete = None"
proof -
  let ?x = "\<lparr>at_type = attr_type_string_begin, at_u = 100\<rparr>"
  have s: "small (encode (edit_item\<lparr>bi_attrs := edited change_mode_delete [(attr_type_int_begin, [7])] (attr_street_name, [65]) [(attr_zipfile_ref, [3])] (attr_words edit_heap ?x)\<rparr>))"
    by (simp add: edit_item_def length_encode small_def INT_MAX_def)
  show ?thesis using binfile_set_hangs [OF edit_example s] .
qed

end
