(* ===== verification/Bin_Coord_Spec.thy ===== *)
theory Bin_Coord_Spec
  imports Bin_Edit_Spec
begin

text \<open>Changing the coordinates of an item through the reader, and where the new coordinates end up.\<close>

text \<open>The header of an item with other lengths.\<close>

definition with_lens :: "int \<Rightarrow> int \<Rightarrow> bitem \<Rightarrow> int list" where
  "with_lens n m it = n # i32 (bi_type it) # m # coord_words (bi_coords it) @ enc_attrs (bi_attrs it)"

lemma write_lens:
  "buf_read (with_len n it @ mem) 2 = Some (2 * int (length (bi_coords it)))"
  "buf_write (with_len n it @ mem) 2 [m] = Some (with_lens n m it @ mem)"
  by (simp_all add: with_len_def with_lens_def encode_head enc_head_def)

lemma push_coords:
  assumes "mr_tiles mr = t # ts" "length ts < 7"
  shows "\<exists>u. do { mr \<leftarrow> push_tile mr (junk\<lparr>bt_data := with_lens n m it @ mem, bt_pos := 0, bt_zipfile_num := z, bt_mode := 2\<rparr>) 0 0; setup_pos mr }
      = Some (mr\<lparr>mr_tiles := u # t # ts, mr_item_type := u32 (bi_type it)\<rparr>)
    \<and> bt_data u = with_lens n m it @ mem \<and> bt_pos u = 0 \<and> bt_pos_next u = n + 1 \<and> bt_pos_coord_start u = 3
    \<and> bt_pos_attr_start u = 3 + m"
proof -
  let ?d = "with_lens n m it @ mem"
  have u: "u32 (i32 x) = u32 x" for x unfolding u32_def i32_def by (metis add_diff_cancel_right' mod_diff_left_eq)
  have r: "buf_read ?d 0 = Some n" "buf_read ?d 1 = Some (i32 (bi_type it))" "buf_read ?d 2 = Some m"
    by (simp_all add: with_lens_def)
  show ?thesis
    by (rule exI [of _ "junk\<lparr>bt_data := ?d, bt_zipfile_num := z, bt_mode := 2, bt_pos := 0, bt_pos_next := n + 1,
        bt_pos_coord_start := 3, bt_pos_attr_start := 3 + m\<rparr>"])
      (use r assms u in \<open>simp add: push_tile_def setup_pos_def cur_tile_def set_tile_def Let_def\<close>)
qed

lemma coord_apply_steps:
  assumes "binfile_item_dup memory t (if delta > 0 then delta else 0) = Some b0" "buf_read b0 0 = Some l0"
    "buf_write b0 0 [i32 (l0 + delta)] = Some b1" "buf_read b1 2 = Some l2" "buf_write b1 2 [i32 (l2 + delta)] = Some b2"
    "push_tile mr (junk\<lparr>bt_data := b2, bt_pos := 0, bt_zipfile_num := bt_zipfile_num t, bt_mode := 2\<rparr>) 0 0 = Some mr1"
    "setup_pos mr1 = Some mr2" "mr_tiles mr2 = u # us"
    "buf_move (bt_data u) (bt_pos_coord_start u + move_offset + delta) (bt_pos_coord_start u + move_offset) move_len = Some d1"
    "(if mode \<noteq> change_mode_delete then buf_write d1 (bt_pos_coord_start u + write_offset) (coord_words c) else Some d1) = Some d2"
  shows "coord_set_apply True memory junk mr t mode aoffset coffset delta move_offset move_len write_offset c
    = Some (set_tile (u\<lparr>bt_pos_coord := bt_pos_coord_start u + coffset + (if mode \<noteq> change_mode_append then move_offset else 0),
        bt_pos_attr := bt_pos_attr_start u + aoffset, bt_data := d2\<rparr>) mr2)"
proof -
  have sw: "u\<lparr>bt_pos_attr := i, bt_pos_coord := j, bt_data := d\<rparr> = u\<lparr>bt_pos_coord := j, bt_pos_attr := i, bt_data := d\<rparr>"
    for u :: btile and i j d by simp
  show ?thesis using assms unfolding coord_set_apply_def
    by (cases "mode = change_mode_append", simp_all add: Let_def dump_words_verbose cong: if_cong) (simp only: sw)
qed

text \<open>The coordinates \<open>os\<close> behind \<open>us\<close> are replaced by \<open>ns\<close>.\<close>

lemma apply_coords:
  assumes "item_at t pre it post" "mr_tiles mr = t # ts" "length ts < 7" "\<forall>n. length (memory n) = n"
    "bi_coords it = us @ os @ vs" "small (encode it)" "small (encode (it\<lparr>bi_coords := us @ ns @ vs\<rparr>))"
    "delta = 2 * int (length ns) - 2 * int (length os)"
    "(move_offset = 2 * int (length (us @ os)) \<and> move_len = 2 * int (length vs) + int (length (enc_attrs (bi_attrs it))))
      \<or> (move_offset = 0 \<and> move_len = 0 \<and> delta = 0)"
    "mode = change_mode_delete \<Longrightarrow> ns = []"
    "mode \<noteq> change_mode_delete \<Longrightarrow> write_offset = 2 * int (length us)"
  shows "\<exists>mr' u stale. coord_set_apply True memory junk mr t mode aoffset coffset delta move_offset move_len write_offset ns = Some mr'
    \<and> mr_tiles mr' = u # t # ts \<and> item_at u [] (it\<lparr>bi_coords := us @ ns @ vs\<rparr>) stale
    \<and> bt_pos_coord u = bt_pos_coord_start u + coffset + (if mode \<noteq> change_mode_append then move_offset else 0)
    \<and> bt_pos_attr u = bt_pos_attr_start u + aoffset"
proof -
  let ?it = "it\<lparr>bi_coords := us @ ns @ vs\<rparr>"
  let ?mem = "memory (nat (if delta > 0 then delta else 0))"
  let ?n = "int (length (encode it)) - 1 + delta" and ?m = "2 * int (length (bi_coords it)) + delta"
  have n: "?n = int (length (encode ?it)) - 1" using assms(5,8) by (simp add: length_encode)
  have m: "?m = 2 * int (length (bi_coords ?it))" using assms(5,8) by simp
  have "?n \<le> INT_MAX" "- 2147483648 \<le> ?n" using assms(7) unfolding n small_def by simp_all
  then have i: "i32 ?n = ?n" by (intro i32_in_range) (simp_all add: INT_MAX_def)
  have "?m \<le> INT_MAX" "- 2147483648 \<le> ?m" using assms(7) unfolding m small_def by (simp_all add: length_encode)
  then have i2: "i32 ?m = ?m" by (intro i32_in_range) (simp_all add: INT_MAX_def)
  obtain u where p: "do { mr \<leftarrow> push_tile mr (junk\<lparr>bt_data := with_lens ?n ?m it @ ?mem, bt_pos := 0, bt_zipfile_num := bt_zipfile_num t, bt_mode := 2\<rparr>) 0 0; setup_pos mr }
      = Some (mr\<lparr>mr_tiles := u # t # ts, mr_item_type := u32 (bi_type it)\<rparr>)"
    and u: "bt_data u = with_lens ?n ?m it @ ?mem" "bt_pos u = 0" "bt_pos_next u = ?n + 1" "bt_pos_coord_start u = 3"
      "bt_pos_attr_start u = 3 + ?m"
    using push_coords [OF assms(2,3)] by blast
  let ?A = "[?n, i32 (bi_type it), ?m] @ coord_words us" and ?M = "coord_words vs @ enc_attrs (bi_attrs it)"
  have w: "with_lens ?n ?m it @ ?mem = ?A @ coord_words os @ ?M @ ?mem"
    using assms(5) by (simp add: with_lens_def)
  have lA: "int (length ?A) = 3 + 2 * int (length us)" by simp
  have mem: "delta \<le> int (length ?mem)" using assms(4) by simp
  have lo: "int (length (coord_words os)) + delta = int (length (coord_words ns))" using assms(8) by simp
  obtain stale where st: "do {
      d \<leftarrow> buf_move (with_lens ?n ?m it @ ?mem) (3 + move_offset + delta) (3 + move_offset) move_len;
      if mode \<noteq> change_mode_delete then buf_write d (3 + write_offset) (coord_words ns) else Some d } = Some (?A @ coord_words ns @ ?M @ stale)"
  proof (cases "move_offset = 2 * int (length (us @ os)) \<and> move_len = 2 * int (length vs) + int (length (enc_attrs (bi_attrs it)))")
    case True
    have e: "3 + move_offset = int (length ?A) + int (length (coord_words os))" "move_len = int (length ?M)" using True by simp_all
    obtain stale where "do {
        d \<leftarrow> buf_move (?A @ coord_words os @ ?M @ ?mem) (int (length ?A) + int (length (coord_words os)) + delta)
          (int (length ?A) + int (length (coord_words os))) (int (length ?M));
        if coord_words ns \<noteq> [] then buf_write d (int (length ?A)) (coord_words ns) else Some d } = Some (?A @ coord_words ns @ ?M @ stale)"
      using move_write [OF lo mem refl, of ?A ?M] by blast
    then obtain d where d: "buf_move (?A @ coord_words os @ ?M @ ?mem) (int (length ?A) + int (length (coord_words os)) + delta)
          (int (length ?A) + int (length (coord_words os))) (int (length ?M)) = Some d"
      "(if coord_words ns \<noteq> [] then buf_write d (int (length ?A)) (coord_words ns) else Some d) = Some (?A @ coord_words ns @ ?M @ stale)"
      by (auto simp: bind_eq_Some_conv)
    have wr: "(if mode \<noteq> change_mode_delete then buf_write d (3 + write_offset) (coord_words ns) else Some d) = Some (?A @ coord_words ns @ ?M @ stale)"
    proof (cases "mode = change_mode_delete")
      case True
      then show ?thesis using d(2) assms(10) by simp
    next
      case False
      then have wo: "3 + write_offset = int (length ?A)" using assms(11) by simp
      have nil: "buf_write d (int (length ?A)) [] = Some d" if "coord_words ns = []"
      proof -
        have "d = ?A @ ?M @ stale" using that d(2) by simp
        then show ?thesis using buf_write_at [OF refl, of "[]" "?M @ stale" ?A] by simp
      qed
      show ?thesis unfolding wo using False d(2) nil by (cases "coord_words ns = []") auto
    qed
    show ?thesis by (rule that) (use d(1) wr in \<open>simp only: w e bind.bind_lunit\<close>)
  next
    case False
    then have z: "move_offset = 0" "move_len = 0" "delta = 0" using assms(9) by auto
    have len: "length ns = length os" using assms(8) z(3) by simp
    show ?thesis
    proof (cases "mode = change_mode_delete")
      case True
      then have "ns = []" "os = []" using assms(10) len by auto
      then have "with_lens ?n ?m it @ ?mem = ?A @ ?M @ ?mem" unfolding w by simp
      then show ?thesis by (intro that [of ?mem]) (use True \<open>ns = []\<close> in \<open>simp only: buf_move_def z simp_thms if_True if_False bind.bind_lunit coord_words_simps append.simps append_assoc\<close>)
    next
      case False
      have "buf_write (?A @ coord_words os @ ?M @ ?mem) (3 + write_offset) (coord_words ns)
        = Some (?A @ coord_words ns @ drop (length (coord_words ns)) (coord_words os @ ?M @ ?mem))"
        using len assms(11) [OF False] by (intro buf_write_at) simp_all
      then have "buf_write (with_lens ?n ?m it @ ?mem) (3 + write_offset) (coord_words ns) = Some (?A @ coord_words ns @ ?M @ ?mem)"
        unfolding w using len by simp
      then show ?thesis by (intro that [of ?mem])
        (use False in \<open>simp only: buf_move_def z simp_thms if_True if_False bind.bind_lunit append.simps append_assoc add_0_right\<close>)
    qed
  qed
  let ?un = "u\<lparr>bt_pos_coord := bt_pos_coord_start u + coffset + (if mode \<noteq> change_mode_append then move_offset else 0),
    bt_pos_attr := bt_pos_attr_start u + aoffset, bt_data := ?A @ coord_words ns @ ?M @ stale\<rparr>"
  have at: "item_at ?un [] ?it stale"
  proof -
    have b: "?A @ coord_words ns @ ?M @ stale = encode ?it @ stale"
      unfolding n m by (simp add: encode_head enc_head_def length_encode)
    show ?thesis using u(2-5) n m unfolding item_at_def b by simp
  qed
  have d: "binfile_item_dup memory t (if delta > 0 then delta else 0) = Some (encode it @ ?mem)" by (rule dup_item [OF assms(1)])
  obtain mr1 where mr1: "push_tile mr (junk\<lparr>bt_data := with_lens ?n ?m it @ ?mem, bt_pos := 0, bt_zipfile_num := bt_zipfile_num t, bt_mode := 2\<rparr>) 0 0 = Some mr1"
    "setup_pos mr1 = Some (mr\<lparr>mr_tiles := u # t # ts, mr_item_type := u32 (bi_type it)\<rparr>)"
    using p by (auto simp: bind_eq_Some_conv)
  obtain d1 where d1: "buf_move (bt_data u) (bt_pos_coord_start u + move_offset + delta) (bt_pos_coord_start u + move_offset) move_len = Some d1"
    "(if mode \<noteq> change_mode_delete then buf_write d1 (bt_pos_coord_start u + write_offset) (coord_words ns) else Some d1) = Some (?A @ coord_words ns @ ?M @ stale)"
    using st unfolding u(1,4) by (auto simp: bind_eq_Some_conv)
  have w1: "buf_write (encode it @ ?mem) 0 [i32 ?n] = Some (with_len ?n it @ ?mem)" unfolding i by (rule write_len)
  have w2: "buf_write (with_len ?n it @ ?mem) 2 [i32 ?m] = Some (with_lens ?n ?m it @ ?mem)" unfolding i2 by (rule write_lens)
  have tt: "mr_tiles (mr\<lparr>mr_tiles := u # t # ts, mr_item_type := u32 (bi_type it)\<rparr>) = u # t # ts" by simp
  have "coord_set_apply True memory junk mr t mode aoffset coffset delta move_offset move_len write_offset ns
    = Some (mr\<lparr>mr_tiles := ?un # t # ts, mr_item_type := u32 (bi_type it)\<rparr>)"
    unfolding coord_apply_steps [OF d write_len(1) w1 write_lens(1) w2 mr1 tt d1(1) d1(2)] by (simp add: set_tile_def)
  then show ?thesis using at by auto
qed

section \<open>Where the coordinates are changed\<close>

text \<open>The coordinates afterwards, when \<open>k\<close> of them were read before. \<open>n\<close> of them are deleted.\<close>

fun coords_edited :: "change_mode \<Rightarrow> nat \<Rightarrow> nat \<Rightarrow> coord list \<Rightarrow> coord list \<Rightarrow> coord list" where
  "coords_edited change_mode_delete k n ds cs = take (k - 1) cs @ drop (k - 1 + n) cs"
| "coords_edited change_mode_modify k n ds cs = take (k - 1) cs @ ds @ drop (k - 1 + length ds) cs"
| "coords_edited change_mode_append k n ds cs = take (k - 1) cs @ ds @ drop (k - 1) cs"
| "coords_edited change_mode_prepend k n ds cs = take (k - 2) cs @ ds @ drop (k - 2) cs"

lemma split3: "i \<le> j \<Longrightarrow> cs = take i cs @ take (j - i) (drop i cs) @ drop j cs"
  by (metis append_take_drop_id drop_drop le_add_diff_inverse2)

lemma delete_ignores: "coord_set_apply v memory junk mr t change_mode_delete ao co delta mo ml wo cs
  = coord_set_apply v memory junk mr t change_mode_delete ao co delta mo ml wo []"
  by (simp add: coord_set_apply_def)

lemma coord_set_edits:
  assumes "item_at t pre it post" "mr_tiles mr = t # ts" "length ts < 7" "\<forall>n. length (memory n) = n"
    "bt_pos_coord t = bt_pos_coord_start t + 2 * int k" "1 \<le> k" "k \<le> length (bi_coords it)" "mode = change_mode_prepend \<Longrightarrow> 2 \<le> k"
    "mode \<noteq> change_mode_delete \<Longrightarrow> n = length ds" "it' = it\<lparr>bi_coords := coords_edited mode k n ds (bi_coords it)\<rparr>"
    "small (encode it)" "small (encode it')"
  shows "\<exists>mr' u stale. binfile_coord_set True memory junk mr ds (int n) mode = Some mr'
    \<and> mr_tiles mr' = u # t # ts \<and> item_at u [] it' stale"
proof -
  let ?cs = "bi_coords it" and ?alen = "2 * int (length (bi_coords it))"
  let ?rest = "?alen + int (length (enc_attrs (bi_attrs it)))"
  let ?co = "2 * int k - 2" and ?clen = "2 * (int (length ?cs) - int k) + 2"
  have c: "cur_tile mr = Some t" using assms(2) by simp
  have co: "bt_pos_coord t - bt_pos_coord_start t - 2 = ?co" using assms(5) by simp
  have cl: "bt_pos_attr_start t - bt_pos_coord t + 2 = ?clen" using assms(1,5) by (simp add: item_at_def)
  have al: "bt_pos_attr_start t - bt_pos_coord_start t = ?alen" "bt_pos_next t - bt_pos_coord_start t = ?rest"
    using assms(1) by (simp_all add: item_at_def encode_head)
  define m where "m = (if mode = change_mode_delete \<and> int n * 2 > ?clen then length ?cs - k + 1 else n)"
  have cd: "cdiv ?clen 2 = int (length ?cs - k + 1)" using assms(7) cdiv_even [of "length ?cs - k + 1"] by (simp add: of_nat_diff algebra_simps)
  have m: "(if mode = change_mode_delete \<and> int n * 2 > ?clen then cdiv ?clen 2 else int n) = int m"
    unfolding m_def cd by simp
  have set: "binfile_coord_set True memory junk mr ds (int n) mode = (case coord_set_plan mode (int m) ?co ?clen ?alen ?rest of
      (delta, mo, ml, wo) \<Rightarrow> coord_set_apply True memory junk mr t mode (bt_pos_attr t - bt_pos_attr_start t) ?co delta mo ml wo (take m ds))"
    unfolding binfile_coord_set_def c bind.bind_lunit dump_words_verbose Let_def co cl al m nat_int by (simp split: prod.splits)
  note ap = apply_coords [where junk = junk and memory = memory and mode = mode and coffset = ?co
      and aoffset = "bt_pos_attr t - bt_pos_attr_start t", OF assms(1-4) _ assms(11)]
  show ?thesis
  proof (cases mode)
    case md: change_mode_delete
    have dm: "drop (k - 1 + n) ?cs = drop (k - 1 + m) ?cs" "m \<le> length ?cs - (k - 1)"
      using assms(6,7) md by (auto simp: m_def)
    have sp: "?cs = take (k - 1) ?cs @ take m (drop (k - 1) ?cs) @ drop (k - 1 + m) ?cs" using split3 [of "k - 1" "k - 1 + m" ?cs] by simp
    have lv: "length (take m (drop (k - 1) ?cs)) = m" using dm(2) by simp
    have it': "it' = it\<lparr>bi_coords := take (k - 1) ?cs @ [] @ drop (k - 1 + m) ?cs\<rparr>" using assms(10) md dm(1) by simp
    show ?thesis
      unfolding set unfolding md coord_set_plan_def
      using delete_ignores [of True memory junk mr t _ _ _ _ _ _ "take m ds"]
        ap [OF sp, of "[]" "- 2 * int m" "2 * int (k - 1 + m)" "?rest - 2 * int (k - 1 + m)" 0] md assms(6,7,12) dm(2) lv
      unfolding it' by (simp add: Let_def of_nat_diff algebra_simps) blast
  next
    case md: change_mode_modify
    then have mn: "m = n" "n = length ds" using assms(9) by (simp_all add: m_def)
    show ?thesis
    proof (cases "int n * 2 > ?clen")
      case True
      have sp: "?cs = take (k - 1) ?cs @ drop (k - 1) ?cs @ []" by simp
      have d: "drop (k - 1 + length ds) ?cs = []" using True mn assms(6,7) by auto
      have it': "it' = it\<lparr>bi_coords := take (k - 1) ?cs @ ds @ []\<rparr>" using assms(10) md d by simp
      show ?thesis
        unfolding set unfolding md coord_set_plan_def
        using ap [OF sp, of ds "int n * 2 - ?clen" ?alen "?rest - ?alen" ?co] md mn True assms(6,7,12)
        unfolding it' by (simp add: Let_def of_nat_diff algebra_simps) blast
    next
      case False
      have l: "n \<le> length ?cs - (k - 1)" using False assms(6,7) by auto
      have sp: "?cs = take (k - 1) ?cs @ take n (drop (k - 1) ?cs) @ drop (k - 1 + n) ?cs" using split3 [of "k - 1" "k - 1 + n" ?cs] by simp
      have lv: "length (take n (drop (k - 1) ?cs)) = n" using l by simp
      have it': "it' = it\<lparr>bi_coords := take (k - 1) ?cs @ ds @ drop (k - 1 + n) ?cs\<rparr>" using assms(10) md mn by simp
      show ?thesis
        unfolding set unfolding md coord_set_plan_def
        using ap [OF sp, of ds 0 0 0 ?co] md mn False lv assms(6,7,12)
        unfolding it' by (simp add: Let_def of_nat_diff algebra_simps) blast
    qed
  next
    case md: change_mode_append
    then have mn: "m = n" "n = length ds" using assms(9) by (simp_all add: m_def)
    have sp: "?cs = take (k - 1) ?cs @ [] @ drop (k - 1) ?cs" by simp
    have it': "it' = it\<lparr>bi_coords := take (k - 1) ?cs @ ds @ drop (k - 1) ?cs\<rparr>" using assms(10) md by simp
    show ?thesis unfolding set unfolding md coord_set_plan_def 
      using ap [OF sp, of ds "2 * int (length ds)" ?co "?rest - ?co" ?co] md mn assms(6,7,12)
      unfolding it' by (simp add: Let_def of_nat_diff algebra_simps) blast
  next
    case md: change_mode_prepend
    then have mn: "m = n" "n = length ds" using assms(9) by (simp_all add: m_def)
    have k: "2 \<le> k" using assms(8) md .
    have sp: "?cs = take (k - 2) ?cs @ [] @ drop (k - 2) ?cs" by simp
    have it': "it' = it\<lparr>bi_coords := take (k - 2) ?cs @ ds @ drop (k - 2) ?cs\<rparr>" using assms(10) md by simp
    show ?thesis unfolding set unfolding md coord_set_plan_def 
      using ap [OF sp, of ds "2 * int (length ds)" "?co - 2" "?rest - (?co - 2)" "?co - 2"] md mn k assms(6,7,12)
      unfolding it' by (simp add: Let_def of_nat_diff algebra_simps) blast
  qed
qed

text \<open>
  With \<open>k\<close> coordinates read and the debug level high enough for \<open>binfile_coord_set\<close> to return, it
  prepares a copy of the item as the new current tile. Deleting and replacing start at the coordinate read last; no
  more coordinates are deleted than there are. Appended coordinates come before the coordinate read last, not behind it,
  and prepended ones before the one read before it. Type and attributes stay.
\<close>

theorem binfile_coord_set_edits:
  assumes "item_at t pre it post" "mr_tiles mr = t # ts" "length ts < 7" "\<forall>n. length (memory n) = n"
    "bt_pos_coord t = bt_pos_coord_start t + 2 * int k" "1 \<le> k" "k \<le> length (bi_coords it)" "mode = change_mode_prepend \<Longrightarrow> 2 \<le> k"
    "mode \<noteq> change_mode_delete \<Longrightarrow> n = length ds" "it' = it\<lparr>bi_coords := coords_edited mode k n ds (bi_coords it)\<rparr>"
    "small (encode it)" "small (encode it')"
  shows "\<exists>mr' u stale. binfile_coord_set True memory junk mr ds (int n) mode = Some mr'
    \<and> mr_tiles mr' = u # t # ts \<and> item_at u [] it' stale"
  using assms by (rule coord_set_edits)

theorem binfile_coord_set_edits_witness:
  "\<exists>mr' u stale. binfile_coord_set True (\<lambda>n. replicate n 0) edit_tile edit_rect [\<lparr>cx = 10, cy = 11\<rparr>] (int 1) change_mode_append = Some mr'
    \<and> mr_tiles mr' = u # edit_tile # []
    \<and> item_at u [] (edit_item\<lparr>bi_coords := [\<lparr>cx = 1, cy = 2\<rparr>, \<lparr>cx = 10, cy = 11\<rparr>, \<lparr>cx = 3, cy = 4\<rparr>, \<lparr>cx = 5, cy = 6\<rparr>]\<rparr>) stale"
proof -
  let ?it = "edit_item\<lparr>bi_coords := [\<lparr>cx = 1, cy = 2\<rparr>, \<lparr>cx = 10, cy = 11\<rparr>, \<lparr>cx = 3, cy = 4\<rparr>, \<lparr>cx = 5, cy = 6\<rparr>]\<rparr>"
  have p: "bt_pos_coord edit_tile = bt_pos_coord_start edit_tile + 2 * int 2" by (simp add: edit_tile_def)
  have k: "(1::nat) \<le> 2" "2 \<le> length (bi_coords edit_item)" by (simp_all add: edit_item_def)
  have it: "?it = edit_item\<lparr>bi_coords := coords_edited change_mode_append 2 1 [\<lparr>cx = 10, cy = 11\<rparr>] (bi_coords edit_item)\<rparr>"
    by (simp add: edit_item_def)
  have s: "small (encode ?it)" by (simp add: edit_item_def length_encode small_def INT_MAX_def)
  show ?thesis by (rule binfile_coord_set_edits [OF edit_example(1-4) p k _ _ it edit_example(8) s]) simp_all
qed

text \<open>
  After a deletion the cursor is behind the coordinates that follow: of the coordinates 0, 1, 2, 3, 4 the second one is
  deleted after it was read; the next coordinate read is not the third but the fifth one.
\<close>

definition skip_item :: bitem where
  "skip_item = \<lparr>bi_type = type_line, bi_coords = map (\<lambda>i. \<lparr>cx = i, cy = 0\<rparr>) [0, 1, 2, 3, 4], bi_attrs = []\<rparr>"

lemma coord_delete_skips:
  "map_option (\<lambda>r. map cx (fst r)) (do {
      mr \<leftarrow> push_tile (map_rect_new_binfile_int []) (edit_tile\<lparr>bt_data := encode skip_item\<rparr>) 0 0;
      mr \<leftarrow> setup_pos mr;
      mr \<leftarrow> binfile_coord_rewind mr;
      (cs, mr) \<leftarrow> binfile_coord_get mr 2;
      mr \<leftarrow> binfile_coord_set True (\<lambda>n. replicate n 0) edit_tile mr [] 1 change_mode_delete;
      binfile_coord_get mr 1 }) = Some [4]"
  unfolding binfile_coord_set_def coord_set_apply_def dump_words_verbose by code_simp

end
