(* ===== verification/Item_Cursor.thy ===== *)
theory Item_Cursor
  imports Bin_Reader Route_Path Traffic_Items
begin

text \<open>
  The coordinates of items as the users of maps read them (\<open>item.c\<close>): every map driver provides the methods
  to rewind and to get the next coordinates of its current item; the functions here are written on these methods. The
  interface is the locale \<open>coord_cursor\<close>; the drivers for map files and for the traffic map implement it.
\<close>

section \<open>The functions of item.c\<close>

text \<open>
  The methods of the driver are parameters: \<open>get s n\<close> gives at most \<open>n\<close> coordinates and the driver's new state. No
  coordinates are the end of the item.
\<close>

type_synonym 's coord_getter = "'s \<Rightarrow> nat \<Rightarrow> (coord list \<times> 's) option"

partial_function (option) range_seek :: "'s coord_getter \<Rightarrow> 's \<Rightarrow> coord \<Rightarrow> (coord option \<times> 's) option" where
  "range_seek get s a = do {
     (c, s) \<leftarrow> get s 1;
     (case hd_opt c of
        None \<Rightarrow> Some (None, s)
      | Some c1 \<Rightarrow> if same_coord c1 a then Some (Some c1, s) else range_seek get s a)
   }"

partial_function (option) range_take :: "'s coord_getter \<Rightarrow> 's \<Rightarrow> coord option \<Rightarrow> int \<Rightarrow> coord \<Rightarrow> coord list option" where
  "range_take get s c1 n b =
     (case c1 of
        None \<Rightarrow> Some []
      | Some c \<Rightarrow>
          if n \<le> 0 then Some []
          else if same_coord c b then Some [c]
          else do {
            (r, s) \<leftarrow> get s 1;
            cs \<leftarrow> range_take get s (hd_opt r) (n - 1) b;
            Some (c # cs)
          })"

definition get_within_range :: "'s coord_getter \<Rightarrow> 's \<Rightarrow> int \<Rightarrow> coord \<Rightarrow> coord \<Rightarrow> coord list option" where
  "get_within_range get s n a b = do {
     (c1, s) \<leftarrow> range_seek get s a;
     range_take get s c1 n b
   }"

text \<open>The box around the coordinates read so far, and whether it meets a selection.\<close>

definition box_add :: "coord \<Rightarrow> crect \<Rightarrow> crect" where
  "box_add c bb =
     \<lparr>cr_lu = \<lparr>cx = (if cx (cr_lu bb) > cx c then cx c else cx (cr_lu bb)), cy = (if cy (cr_lu bb) < cy c then cy c else cy (cr_lu bb))\<rparr>,
      cr_rl = \<lparr>cx = (if cx (cr_rl bb) < cx c then cx c else cx (cr_rl bb)), cy = (if cy (cr_rl bb) > cy c then cy c else cy (cr_rl bb))\<rparr>\<rparr>"

definition box_meets :: "crect \<Rightarrow> selection \<Rightarrow> bool" where
  "box_meets bb sel = (let sr = sel_rect sel in
     cx (cr_lu bb) \<le> cx (cr_rl sr) \<and> cx (cr_rl bb) \<ge> cx (cr_lu sr) \<and> cy (cr_lu bb) \<ge> cy (cr_rl sr) \<and> cy (cr_rl bb) \<le> cy (cr_lu sr))"

text \<open>
  \<open>buf\<close> is the buffer of the caller: a read overwrites its beginning. The result is the number of
  coordinates and the buffer.
\<close>

definition buf_put :: "coord list \<Rightarrow> coord list \<Rightarrow> coord list" where
  "buf_put c buf = c @ drop (length c) buf"

partial_function (option) selection_loop ::
  "'s coord_getter \<Rightarrow> nat \<Rightarrow> selection list \<Rightarrow> nat \<Rightarrow> crect \<Rightarrow> coord list \<Rightarrow> 's \<Rightarrow> (nat \<times> coord list) option" where
  "selection_loop get n sel ret bb buf s = do {
     (c, s) \<leftarrow> get s n;
     if c = [] then Some (0, buf)
     else let buf = buf_put c buf;
              (ret, bb) = (if ret = 0 then (length c, \<lparr>cr_lu = hd c, cr_rl = hd c\<rparr>) else (ret, bb));
              bb = fold box_add c bb
       in if list_ex (box_meets bb) sel then Some (ret, buf)
          else if n = 1 then Some (0, buf)
          else selection_loop get n sel ret bb buf s
   }"

text \<open>The box is not initialised before the first coordinates were read; \<open>junk\<close> is its former content.\<close>

definition get_within_selection ::
  "'s coord_getter \<Rightarrow> crect \<Rightarrow> 's \<Rightarrow> coord list \<Rightarrow> nat \<Rightarrow> selection list \<Rightarrow> (nat \<times> coord list) option" where
  "get_within_selection get junk s buf n sel = selection_loop get n sel 0 junk buf s"

text \<open>The box around a list of coordinates.\<close>

definition coord_box :: "coord list \<Rightarrow> crect" where
  "coord_box cs = fold box_add cs \<lparr>cr_lu = hd cs, cr_rl = hd cs\<rparr>"

lemma box_meets_mono: "box_meets bb sel \<Longrightarrow> box_meets (box_add c bb) sel"
  by (auto simp: box_meets_def box_add_def Let_def)

lemma box_meets_fold: "list_ex (box_meets bb) sel \<Longrightarrow> list_ex (box_meets (fold box_add cs bb)) sel"
proof (induction cs arbitrary: bb)
  case (Cons c cs)
  have "list_ex (box_meets (box_add c bb)) sel" using Cons.prems box_meets_mono by (fastforce simp: list_ex_iff)
  then show ?case using Cons.IH by simp
qed simp

section \<open>The interface of the drivers\<close>

text \<open>A client that asks for the coordinates in several pieces.\<close>

fun read_pieces :: "'s coord_getter \<Rightarrow> 's \<Rightarrow> nat list \<Rightarrow> (coord list \<times> 's) option" where
  "read_pieces get s [] = Some ([], s)"
| "read_pieces get s (n # ns) = do {
     (cs, s) \<leftarrow> get s n;
     (ds, s) \<leftarrow> read_pieces get s ns;
     Some (cs @ ds, s)
   }"

text \<open>\<open>at s cs k\<close>: the current item has the coordinates \<open>cs\<close>, \<open>k\<close> of which were read.\<close>

locale coord_cursor =
  fixes rewind :: "'s \<Rightarrow> 's option"
    and get :: "'s coord_getter"
    and pos :: "'s \<Rightarrow> coord list \<Rightarrow> nat \<Rightarrow> bool"
  assumes bound: "pos s cs k \<Longrightarrow> k \<le> length cs"
    and rewind: "pos s cs k \<Longrightarrow> \<exists>s'. rewind s = Some s' \<and> pos s' cs 0"
    and get: "pos s cs k \<Longrightarrow> \<exists>s'. get s n = Some (take n (drop k cs), s') \<and> pos s' cs (min (k + n) (length cs))"
begin

lemma pieces:
  "pos s cs k \<Longrightarrow> \<exists>s'. read_pieces get s ns = Some (take (sum_list ns) (drop k cs), s') \<and> pos s' cs (min (k + sum_list ns) (length cs))"
proof (induction ns arbitrary: s k)
  case Nil
  then show ?case using bound [OF Nil] by (auto simp: min_def)
next
  case (Cons n ns)
  obtain s1 where s1: "get s n = Some (take n (drop k cs), s1)" "pos s1 cs (min (k + n) (length cs))" using get [OF Cons.prems] by blast
  obtain s2 where s2: "read_pieces get s1 ns = Some (take (sum_list ns) (drop (min (k + n) (length cs)) cs), s2)"
      "pos s2 cs (min (min (k + n) (length cs) + sum_list ns) (length cs))"
    using Cons.IH [OF s1(2)] by auto
  have c: "take n (drop k cs) @ take (sum_list ns) (drop (min (k + n) (length cs)) cs) = take (n + sum_list ns) (drop k cs)"
    by (simp add: take_add min_def add.commute)
  have m: "min (min (k + n) (length cs) + sum_list ns) (length cs) = min (k + (n + sum_list ns)) (length cs)" by simp
  show ?case using s1(1) s2 c unfolding m by auto
qed

lemma rewind_pieces:
  assumes "pos s cs k"
  shows "\<exists>s'. do { s \<leftarrow> rewind s; read_pieces get s ns } = Some (take (sum_list ns) cs, s')"
proof -
  obtain s0 where "rewind s = Some s0" "pos s0 cs 0" using rewind [OF assms] by blast
  then show ?thesis using pieces [of s0 cs 0 ns] by auto
qed

text \<open>One coordinate at a time.\<close>

lemma get_one:
  assumes "pos s cs k"
  shows "\<exists>s'. get s 1 = Some ((case drop k cs of [] \<Rightarrow> [] | c # _ \<Rightarrow> [c]), s') \<and> pos s' cs (min (k + 1) (length cs))"
  using get [OF assms, of 1] by (cases "drop k cs") auto

lemma range_seek:
  assumes "pos s cs k"
  shows "\<exists>s' j. range_seek get s a = Some (hd_opt (dropWhile (\<lambda>c. \<not> same_coord c a) (drop k cs)), s')
    \<and> pos s' cs j \<and> (dropWhile (\<lambda>c. \<not> same_coord c a) (drop k cs) \<noteq> [] \<longrightarrow> drop j cs = tl (dropWhile (\<lambda>c. \<not> same_coord c a) (drop k cs)))"
  using assms
proof (induction "length cs - k" arbitrary: s k)
  case 0
  then have d: "drop k cs = []" by simp
  obtain s' where "get s 1 = Some ([], s')" "pos s' cs (min (k + 1) (length cs))" using get_one [OF 0(2)] d by auto
  then show ?case using d by (subst range_seek.simps) auto
next
  case (Suc n)
  then have k: "k < length cs" by simp
  then have d: "drop k cs = cs ! k # drop (Suc k) cs" by (rule Cons_nth_drop_Suc [symmetric])
  have mk: "min (k + 1) (length cs) = Suc k" using k by simp
  obtain s' where g: "get s 1 = Some ([cs ! k], s')" "pos s' cs (Suc k)" using get_one [OF Suc.prems] d unfolding mk by auto
  show ?case
  proof (cases "same_coord (cs ! k) a")
    case True
    then show ?thesis using g d by (subst range_seek.simps) auto
  next
    case False
    have "n = length cs - Suc k" using Suc.hyps(2) by simp
    note ih = Suc.hyps(1) [OF this g(2)]
    have "range_seek get s a = range_seek get s' a" using g(1) False by (subst range_seek.simps) simp
    then show ?thesis using ih False d by simp
  qed
qed

lemma range_take:
  assumes "pos s cs j"
  shows "range_take get s c1 n b = Some (case c1 of None \<Rightarrow> [] | Some c \<Rightarrow> take_upto n b (c # drop j cs))"
  using assms
proof (induction "length cs - j" arbitrary: s j c1 n)
  case 0
  then have d: "drop j cs = []" by simp
  obtain s' where g: "get s 1 = Some ([], s')" "pos s' cs (min (j + 1) (length cs))" using get_one [OF 0(2)] d by auto
  have r: "range_take get s' None m b = Some []" for m by (subst range_take.simps) simp
  show ?case using g(1) d r by (subst range_take.simps) (auto split: option.split)
next
  case (Suc m)
  then have j: "j < length cs" by simp
  then have d: "drop j cs = cs ! j # drop (Suc j) cs" by (rule Cons_nth_drop_Suc [symmetric])
  have mj: "min (j + 1) (length cs) = Suc j" using j by simp
  obtain s' where g: "get s 1 = Some ([cs ! j], s')" "pos s' cs (Suc j)" using get_one [OF Suc.prems] d unfolding mj by auto
  have "m = length cs - Suc j" using Suc.hyps(2) by simp
  note ih = Suc.hyps(1) [OF this g(2), of "Some (cs ! j)"]
  show ?case using g(1) ih d by (subst range_take.simps) (auto split: option.split)
qed

lemma within_range:
  assumes "pos s cs 0"
  shows "get_within_range get s n a b = Some (item_coord_get_within_range cs n a b)"
proof -
  define d where "d = dropWhile (\<lambda>c. \<not> same_coord c a) cs"
  obtain s' j where r: "range_seek get s a = Some (hd_opt d, s')" "pos s' cs j" "d \<noteq> [] \<longrightarrow> drop j cs = tl d"
    using range_seek [OF assms, of a] unfolding d_def by auto
  have t: "range_take get s' (hd_opt d) n b = Some (case hd_opt d of None \<Rightarrow> [] | Some c \<Rightarrow> take_upto n b (c # drop j cs))"
    by (rule range_take [OF r(2)])
  have i: "item_coord_get_within_range cs n a b = take_upto n b d" by (simp only: item_coord_get_within_range_def d_def)
  show ?thesis using r t by (cases d) (simp_all add: get_within_range_def i)
qed

text \<open>After the first read: \<open>ret\<close> is settled, the box covers what was read and does not meet the selection.\<close>

lemma selection_rest:
  assumes "pos s cs k" "0 < k" "2 \<le> n" "ret \<noteq> 0" "bb = coord_box (take k cs)" "cs \<noteq> []"
  shows "\<exists>buf'. selection_loop get n sel ret bb buf s
    = Some (if list_ex (box_meets (fold box_add (drop k cs) bb)) sel \<and> k < length cs then ret else 0, buf')"
  using assms
proof (induction "length cs - k" arbitrary: s k bb buf rule: less_induct)
  case less
  obtain s' where g: "get s n = Some (take n (drop k cs), s')" "pos s' cs (min (k + n) (length cs))" using get [OF less.prems(1)] by blast
  show ?case
  proof (cases "k < length cs")
    case False
    then show ?thesis using g by (subst selection_loop.simps) simp
  next
    case True
    let ?c = "take n (drop k cs)" and ?k = "min (k + n) (length cs)"
    let ?bb = "fold box_add ?c bb"
    have ne: "?c \<noteq> []" using True less.prems(3) by auto
    have "drop ?k cs = drop n (drop k cs)" by (simp add: min_def add.commute)
    then have split: "drop k cs = ?c @ drop ?k cs" by (simp only: append_take_drop_id)
    have full: "fold box_add (drop k cs) bb = fold box_add (drop ?k cs) ?bb" by (subst split) simp
    have step: "selection_loop get n sel ret bb buf s = (if list_ex (box_meets ?bb) sel then Some (ret, buf_put ?c buf)
        else selection_loop get n sel ret ?bb (buf_put ?c buf) s')"
      using g(1) ne less.prems(3,4) by (subst selection_loop.simps) (simp add: Let_def)
    show ?thesis
    proof (cases "list_ex (box_meets ?bb) sel")
      case m: True
      then have "list_ex (box_meets (fold box_add (drop k cs) bb)) sel" unfolding full by (rule box_meets_fold)
      then show ?thesis using step m True by simp
    next
      case m: False
      have tk: "take ?k cs = take k cs @ ?c" by (simp add: min_def take_add)
      have b: "?bb = coord_box (take ?k cs)" using less.prems(2,5,6) True by (simp add: tk coord_box_def hd_append)
      have lt: "length cs - ?k < length cs - k" "0 < ?k" using True less.prems(2,3) by auto
      obtain buf' where ih: "selection_loop get n sel ret ?bb (buf_put ?c buf) s'
          = Some (if list_ex (box_meets (fold box_add (drop ?k cs) ?bb)) sel \<and> ?k < length cs then ret else 0, buf')"
        using less.hyps [OF lt(1) g(2) lt(2) less.prems(3,4) b less.prems(6)] by blast
      have "list_ex (box_meets (fold box_add (drop ?k cs) ?bb)) sel \<Longrightarrow> ?k < length cs"
        using m by (cases "?k < length cs") auto
      then show ?thesis using step m ih True full by auto
    qed
  qed
qed

text \<open>
  The number is that of the first read, when the box of all coordinates meets the selection; the
  buffer holds the item when it has room for one coordinate more.
\<close>

lemma within_selection:
  assumes "pos s cs 0" "2 \<le> n"
  shows "\<exists>buf'. get_within_selection get junk s buf n sel
      = Some (if cs \<noteq> [] \<and> list_ex (box_meets (coord_box cs)) sel then min n (length cs) else 0, buf')
    \<and> (cs \<noteq> [] \<and> length cs < n \<longrightarrow> take (length cs) buf' = cs)"
proof -
  obtain s' where g: "get s n = Some (take n cs, s')" "pos s' cs (min n (length cs))" using get [OF assms(1), of n] by auto
  show ?thesis
  proof (cases "cs = []")
    case True
    then show ?thesis using g unfolding get_within_selection_def by (subst selection_loop.simps) simp
  next
    case False
    let ?c = "take n cs" and ?k = "min n (length cs)"
    have ne: "?c \<noteq> []" "0 < ?k" "hd ?c = hd cs" using False assms(2) by (auto simp: hd_take)
    have tk: "take ?k cs = ?c" by (simp add: min_def)
    have b: "fold box_add ?c \<lparr>cr_lu = hd cs, cr_rl = hd cs\<rparr> = coord_box (take ?k cs)" by (simp only: coord_box_def tk ne(3))
    have full: "coord_box cs = fold box_add (drop ?k cs) (coord_box (take ?k cs))"
      unfolding coord_box_def tk ne(3) by (metis append_take_drop_id comp_apply fold_append tk)
    have step: "get_within_selection get junk s buf n sel = (if list_ex (box_meets (coord_box (take ?k cs))) sel then Some (?k, buf_put ?c buf)
        else selection_loop get n sel ?k (coord_box (take ?k cs)) (buf_put ?c buf) s')"
      using g(1) ne(1) assms(2) unfolding get_within_selection_def
      by (subst selection_loop.simps) (simp add: Let_def b min.commute)
    have put: "length cs < n \<Longrightarrow> take (length cs) (buf_put ?c buf) = cs" by (simp add: buf_put_def)
    show ?thesis
    proof (cases "list_ex (box_meets (coord_box (take ?k cs))) sel")
      case True
      then have "list_ex (box_meets (coord_box cs)) sel" unfolding full by (rule box_meets_fold)
      then show ?thesis using step True put False by auto
    next
      case m: False
      show ?thesis
      proof (cases "?k < length cs")
        case True
        then show ?thesis using step m selection_rest [OF g(2) ne(2) assms(2) _ refl False, of ?k sel "buf_put ?c buf"] ne(2)
          unfolding full by fastforce
      next
        case f: False
        obtain s'' where g2: "get s' n = Some (take n (drop ?k cs), s'')" using get [OF g(2)] by blast
        have d: "drop ?k cs = []" using f by simp
        have "selection_loop get n sel ?k (coord_box (take ?k cs)) (buf_put ?c buf) s' = Some (0, buf_put ?c buf)"
          using g2 unfolding d by (subst selection_loop.simps) simp
        moreover have "coord_box cs = coord_box (take ?k cs)" using f by simp
        ultimately show ?thesis using step m put by auto
      qed
    qed
  qed
qed

text \<open>With room for one coordinate the rest of the item is not looked at.\<close>

lemma within_selection_one:
  assumes "pos s cs 0"
  shows "\<exists>buf'. get_within_selection get junk s buf 1 sel
    = Some (if cs \<noteq> [] \<and> list_ex (box_meets (coord_box [hd cs])) sel then 1 else 0, buf')"
proof -
  obtain s' where g: "get s 1 = Some (take 1 cs, s')" using get [OF assms, of 1] by auto
  show ?thesis using g unfolding get_within_selection_def
    by (subst selection_loop.simps) (cases cs; simp add: Let_def coord_box_def)
qed

end

section \<open>The drivers\<close>

text \<open>Map files: the cursor stands two words further for every coordinate that was read.\<close>

definition binfile_getter :: "map_rect coord_getter" where
  "binfile_getter mr n = binfile_coord_get mr (int n)"

definition binfile_pos :: "map_rect \<Rightarrow> coord list \<Rightarrow> nat \<Rightarrow> bool" where
  "binfile_pos mr cs k \<longleftrightarrow> (\<exists>t ts pre it post. mr_tiles mr = t # ts \<and> item_at t pre it post \<and> cs = bi_coords it
     \<and> k \<le> length cs \<and> bt_pos_coord t = bt_pos_coord_start t + 2 * int k)"

lemma binfile_posI:
  assumes "mr_tiles mr = t # ts" "item_at t pre it post" "k \<le> length (bi_coords it)"
    "bt_pos_coord t = bt_pos_coord_start t + 2 * int k"
  shows "binfile_pos mr (bi_coords it) k"
  using assms unfolding binfile_pos_def by blast

interpretation bc: coord_cursor binfile_coord_rewind binfile_getter binfile_pos
proof
  show "k \<le> length cs" if "binfile_pos s cs k" for s cs k using that by (auto simp: binfile_pos_def)
next
  fix s cs k assume "binfile_pos s cs k"
  then obtain t ts pre it post where t: "mr_tiles s = t # ts" "item_at t pre it post" "cs = bi_coords it"
    by (auto simp: binfile_pos_def)
  let ?t = "t\<lparr>bt_pos_coord := bt_pos_coord_start t\<rparr>"
  have "binfile_coord_rewind s = Some (set_tile ?t s)" using t(1) by (simp add: binfile_coord_rewind_def)
  moreover have "binfile_pos (set_tile ?t s) cs 0" unfolding t(3)
    by (rule binfile_posI [of _ ?t ts pre it post]) (use t in \<open>simp_all add: set_tile_def\<close>)
  ultimately show "\<exists>s'. binfile_coord_rewind s = Some s' \<and> binfile_pos s' cs 0" by blast
next
  fix s cs k n assume "binfile_pos s cs k"
  then obtain t ts pre it post where t: "mr_tiles s = t # ts" "item_at t pre it post" "cs = bi_coords it"
      "k \<le> length cs" "bt_pos_coord t = bt_pos_coord_start t + 2 * int k"
    by (auto simp: binfile_pos_def)
  let ?k = "min (k + n) (length cs)"
  let ?t = "t\<lparr>bt_pos_coord := bt_pos_coord_start t + 2 * int ?k\<rparr>"
  have "binfile_getter s n = Some (take n (drop k cs), set_tile ?t s)"
    using coord_get_at(2) [OF t(1,2) _ t(5), of n] t(3,4) by (simp add: binfile_getter_def)
  moreover have "binfile_pos (set_tile ?t s) (bi_coords it) ?k"
    by (rule binfile_posI [of _ ?t ts pre it post]) (use t in \<open>simp_all add: set_tile_def\<close>)
  ultimately show "\<exists>s'. binfile_getter s n = Some (take n (drop k cs), s') \<and> binfile_pos s' cs ?k" unfolding t(3) by blast
qed

text \<open>The traffic map.\<close>

definition tm_getter :: "item_priv option coord_getter" where
  "tm_getter ip n = Some (tm_coord_get ip n)"

definition tm_rewind :: "item_priv option \<Rightarrow> item_priv option option" where
  "tm_rewind ip = Some (map_option tm_coord_rewind ip)"

definition tm_pos :: "item_priv option \<Rightarrow> coord list \<Rightarrow> nat \<Rightarrow> bool" where
  "tm_pos ip cs k \<longleftrightarrow> (\<exists>i. ip = Some i \<and> ip_coords i = cs \<and> ip_next_coord i = k \<and> k \<le> length cs)"

interpretation tc: coord_cursor tm_rewind tm_getter tm_pos
  by unfold_locales
    (auto simp: tm_pos_def tm_getter_def tm_rewind_def tm_coord_rewind_def tm_coord_get_def min_def Let_def)

section \<open>Reading the items of a map file\<close>

text \<open>
  C14: the part of a street from one coordinate to another, as the route path asks for it, is read from
  the map file: the coordinates of the item from the first occurrence of the one to the next occurrence
  of the other, cut off after \<open>n\<close> of them, and none when the first does not occur.
\<close>

theorem binfile_within_range:
  assumes "mr_tiles mr = t # ts" "item_at t pre it post" "bt_pos_coord t = bt_pos_coord_start t"
  shows "get_within_range binfile_getter mr n a b = Some (item_coord_get_within_range (bi_coords it) n a b)"
  by (rule bc.within_range, rule binfile_posI) (use assms in simp_all)


definition cursor_item :: bitem where
  "cursor_item = \<lparr>bi_type = 5, bi_coords = [\<lparr>cx = 1, cy = 2\<rparr>, \<lparr>cx = 3, cy = 4\<rparr>, \<lparr>cx = 5, cy = 6\<rparr>], bi_attrs = [(1, [2])]\<rparr>"

definition cursor_tile :: btile where
  "cursor_tile = \<lparr>bt_data = 9 # encode cursor_item, bt_end = 13, bt_pos = 1, bt_pos_coord_start = 4, bt_pos_coord = 4,
     bt_pos_attr_start = 10, bt_pos_attr = 10, bt_pos_next = 13, bt_zipfile_num = 0, bt_mode = 1\<rparr>"

lemma cursor_tile_at: "item_at cursor_tile [9] cursor_item []"
  by (simp add: item_at_def cursor_tile_def cursor_item_def length_encode)

theorem binfile_within_range_witness:
  "get_within_range binfile_getter ((map_rect_new_binfile_int [])\<lparr>mr_tiles := [cursor_tile]\<rparr>) 9 \<lparr>cx = 3, cy = 4\<rparr> \<lparr>cx = 7, cy = 7\<rparr>
    = Some [\<lparr>cx = 3, cy = 4\<rparr>, \<lparr>cx = 5, cy = 6\<rparr>]"
proof -
  have "item_coord_get_within_range (bi_coords cursor_item) 9 \<lparr>cx = 3, cy = 4\<rparr> \<lparr>cx = 7, cy = 7\<rparr>
    = [\<lparr>cx = 3, cy = 4\<rparr>, \<lparr>cx = 5, cy = 6\<rparr>]" by code_simp
  then show ?thesis
    using binfile_within_range [OF _ cursor_tile_at, of "(map_rect_new_binfile_int [])\<lparr>mr_tiles := [cursor_tile]\<rparr>" "[]"
        9 "\<lparr>cx = 3, cy = 4\<rparr>" "\<lparr>cx = 7, cy = 7\<rparr>"]
    by (simp add: cursor_tile_def)
qed


end
