(* ===== verification/Geom_Transform.thy ===== *)
theory Geom_Transform
  imports C_Double "HOL-Library.Sublist"
begin

text \<open>
  The integer geometry of \<open>transform.c\<close>: squared distances to points, segments and polylines,
  the simplification of polylines, distance in meters and bearing in the builds without floating point.
  All arithmetic is that of 32 bit integers, so an overflow shows in the results.
\<close>

section \<open>Squared distances\<close>

definition c_abs :: "int \<Rightarrow> int" where
  "c_abs x = i32 \<bar>x\<bar>"

definition transform_overflow_possible_if_squared :: "int list \<Rightarrow> bool" where
  "transform_overflow_possible_if_squared values \<longleftrightarrow> list_ex (\<lambda>v. c_abs v > 32767) values"

definition transform_distance_sq :: "coord \<Rightarrow> coord \<Rightarrow> int" where
  "transform_distance_sq c1 c2 =
     (let dx = i32 (cx c1 - cx c2); dy = i32 (cy c1 - cy c2)
      in if transform_overflow_possible_if_squared [dx, dy] then INT_MAX
         else i32 (i32 (dx * dx) + i32 (dy * dy)))"

text \<open>The loop that makes the quotient of the projection small.\<close>

definition climit :: int where "climit = 1000000"

text \<open>A step of the division loops below makes one of two positive numbers smaller.\<close>

lemma cdiv_pair_less:
  assumes "1 < b" "0 < c1 \<or> 0 < c2"
  shows "nat (cdiv c1 b) + nat (cdiv c2 b) < nat c1 + nat c2"
proof -
  have less: "nat (cdiv c b) < nat c" if "0 < c" for c
    using that assms(1) by (simp add: int_div_less_self)
  have le: "nat (cdiv c b) \<le> nat c" for c
    using less [of c] assms(1) by (cases "0 < c") (simp_all add: cdiv_neg pos_imp_zdiv_nonneg_iff)
  show ?thesis using assms(2) le [of c1] le [of c2] less [of c1] less [of c2] by linarith
qed

function (sequential) scale_down :: "int \<Rightarrow> int \<Rightarrow> int \<times> int" where
  "scale_down c1 c2 = (if c1 > climit \<or> c2 > climit then scale_down (cdiv c1 256) (cdiv c2 256) else (c1, c2))"
  by pat_completeness auto

termination
  by (relation "measure (\<lambda>(c1, c2). nat c1 + nat c2)", simp) (auto simp: climit_def simp del: cdiv_nonneg intro!: cdiv_pair_less)

declare scale_down.simps [simp del]

text \<open>The squared distance, and the point written to \<open>lpnt\<close>, if any.\<close>

definition transform_distance_line_sq :: "coord \<Rightarrow> coord \<Rightarrow> coord \<Rightarrow> int \<times> coord option" where
  "transform_distance_line_sq l0 l1 ref =
     (let vx = i32 (cx l1 - cx l0); vy = i32 (cy l1 - cy l0); wx = i32 (cx ref - cx l0); wy = i32 (cy ref - cy l0)
      in if transform_overflow_possible_if_squared [vx, vy, wx, wy] then (INT_MAX, None)
         else (let c1 = i32 (i32 (vx * wx) + i32 (vy * wy))
           in if c1 \<le> 0 then (transform_distance_sq l0 ref, Some l0)
              else (let c2 = i32 (i32 (vx * vx) + i32 (vy * vy))
                in if c2 \<le> c1 then (transform_distance_sq l1 ref, Some l1)
                   else (let (c1, c2) = scale_down c1 c2;
                             l = \<lparr>cx = i32 (cx l0 + cdiv (i32 (vx * c1)) c2), cy = i32 (cy l0 + cdiv (i32 (vy * c1)) c2)\<rparr>
                     in (transform_distance_sq l ref, Some l)))))"

text \<open>The segments after the first: the best distance, point and position so far.\<close>

type_synonym line_best = "int \<times> coord option \<times> int option"

fun polyline_loop :: "coord \<Rightarrow> int \<Rightarrow> line_best \<Rightarrow> coord list \<Rightarrow> line_best" where
  "polyline_loop ref i (d, lpnt, pos) (a # b # cs) =
     (let (distn, lp) = transform_distance_line_sq a b ref
      in polyline_loop ref (i + 1) (if distn < d then (distn, lp, Some (i - 1)) else (d, lpnt, pos)) (b # cs))"
| "polyline_loop ref i best _ = best"

definition transform_distance_polyline_sq :: "coord list \<Rightarrow> coord \<Rightarrow> line_best" where
  "transform_distance_polyline_sq c ref = (case c of
       a # b # cs \<Rightarrow> (let (d, lpnt) = transform_distance_line_sq a b ref in polyline_loop ref 2 (d, lpnt, Some 0) (b # cs))
     | _ \<Rightarrow> (INT_MAX, None, None))"

section \<open>Simplifying a polyline\<close>

text \<open>The point farthest from the line between the ends: the points \<open>1 \<le> i < count - 2\<close> are looked at.\<close>

fun farthest :: "coord list \<Rightarrow> nat \<Rightarrow> nat \<Rightarrow> int \<Rightarrow> nat \<Rightarrow> int \<times> nat" where
  "farthest pts i 0 dmax idx = (dmax, idx)"
| "farthest pts i (Suc n) dmax idx =
     (let d = fst (transform_distance_line_sq (hd pts) (last pts) (pts ! i))
      in if d > dmax then farthest pts (Suc i) n d i else farthest pts (Suc i) n dmax idx)"

lemma farthest_idx: "snd (farthest pts i n dmax idx) = idx \<or> i \<le> snd (farthest pts i n dmax idx) \<and> snd (farthest pts i n dmax idx) < i + n"
  by (induction pts i n dmax idx rule: farthest.induct) (auto simp: Let_def)

lemma farthest_moved: "fst (farthest pts i n dmax idx) > dmax \<Longrightarrow>
    i \<le> snd (farthest pts i n dmax idx) \<and> snd (farthest pts i n dmax idx) < i + n"
proof (induction pts i n dmax idx rule: farthest.induct)
  case (2 pts i n dmax idx)
  let ?d = "fst (transform_distance_line_sq (hd pts) (last pts) (pts ! i))"
  show ?case
  proof (cases "?d > dmax")
    case True
    then show ?thesis using farthest_idx [of pts "Suc i" n ?d i] by (auto simp: Let_def)
  next
    case False
    then show ?thesis using 2 by (auto simp: Let_def)
  qed
qed simp

text \<open>
  The output array: the second call overwrites the last point of the first; the caller's arrays do not
  overlap. The tolerance is not negative; with a negative one the code would call itself without end.
\<close>

function (sequential) transform_douglas_peucker :: "nat \<Rightarrow> coord list \<Rightarrow> coord list" where
  "transform_douglas_peucker dist_sq pts =
     (let (dmax, idx) = farthest pts 1 (length pts - 3) 0 0
      in if dmax > int dist_sq then
           butlast (transform_douglas_peucker dist_sq (take idx pts)) @ transform_douglas_peucker dist_sq (drop idx pts)
         else (case pts of [] \<Rightarrow> [] | [p] \<Rightarrow> [p] | p # _ \<Rightarrow> [p, last pts]))"
  by pat_completeness auto

termination
proof (relation "measure (\<lambda>(_, pts). length pts)", simp)
  fix dist_sq pts x dmax idx
  assume "x = farthest pts 1 (length pts - 3) 0 0" "(dmax, idx) = x" "int dist_sq < dmax"
  then have f: "farthest pts 1 (length pts - 3) 0 0 = (dmax, idx)" "0 < dmax" by simp_all
  have "1 \<le> idx \<and> idx < 1 + (length pts - 3)"
    using farthest_moved [of 0 pts 1 "length pts - 3" 0] unfolding f(1) using f(2) by simp
  then show "((dist_sq, take idx pts), dist_sq, pts) \<in> measure (\<lambda>(_, pts). length pts)"
    "((dist_sq, drop idx pts), dist_sq, pts) \<in> measure (\<lambda>(_, pts). length pts)"
    by auto
qed

declare transform_douglas_peucker.simps [simp del]

section \<open>Bearing and distance without floating point\<close>

definition tab_atan :: "int list" where
  "tab_atan = [0, 262, 524, 787, 1051, 1317, 1584, 1853, 2126, 2401, 2679,
     2962, 3249, 3541, 3839, 4142, 4452, 4770, 5095, 5430, 5774, 6128,
     6494, 6873, 7265, 7673, 8098, 8541, 9004, 9490, 10000, 10538]"

text \<open>The binary search; \<open>None\<close> is a read outside the table.\<close>

definition tab_read :: "int list \<Rightarrow> int \<Rightarrow> int option" where
  "tab_read tab p = (if 0 \<le> p \<and> p < int (length tab) then Some (tab ! nat p) else None)"

partial_function (option) atan2_search :: "int \<Rightarrow> int \<Rightarrow> int \<Rightarrow> int option" where
  "atan2_search val i p = (let i = i div 2 in
     case tab_read tab_atan p of
       None \<Rightarrow> None
     | Some a \<Rightarrow>
         if val < a then atan2_search val i (p - i)
         else (case tab_read tab_atan (p + 1) of
             None \<Rightarrow> None
           | Some b \<Rightarrow> if val < b then Some (p + p div 2) else atan2_search val i (p + i)))"

definition atan2_int_lookup :: "int \<Rightarrow> int option" where
  "atan2_int_lookup val = (let i = int (length tab_atan) div 2; p = i - 1 in atan2_search val i p)"

function (sequential) shrink :: "int \<Rightarrow> int \<Rightarrow> int \<times> int" where
  "shrink dx dy = (if dx > 20000 \<or> dy > 20000 then shrink (cdiv dx 10) (cdiv dy 10) else (dx, dy))"
  by pat_completeness auto

termination
  by (relation "measure (\<lambda>(c1, c2). nat c1 + nat c2)", simp) (auto simp del: cdiv_nonneg intro!: cdiv_pair_less)

declare shrink.simps [simp del]

text \<open>The angle in the first quadrant, for positive differences.\<close>

definition atan2_quadrant :: "int \<Rightarrow> int \<Rightarrow> int option" where
  "atan2_quadrant dx dy = (let (dx, dy) = shrink dx dy
     in if dx > dy then map_option (\<lambda>r. 90 - r) (atan2_int_lookup (cdiv (i32 (dy * 10000)) dx))
        else atan2_int_lookup (cdiv (i32 (dx * 10000)) dy))"

definition atan2_int :: "int \<Rightarrow> int \<Rightarrow> int option" where
  "atan2_int dx dy =
     (if dx = 0 then Some (if dy < 0 then 180 else 0)
      else if dy = 0 then Some (if dx < 0 then -90 else 90)
      else (let (dx, mul) = (if dx < 0 then (i32 (- dx), -1) else (dx, 1 :: int));
                (dy, add, mul) = (if dy < 0 then (i32 (- dy), 180 * mul, - mul) else (dy, 0, mul))
        in map_option (\<lambda>ret. ret * mul + add) (atan2_quadrant dx dy)))"

text \<open>
  \<open>at2\<close> is the bearing in degrees of the difference of two points: \<open>atan2_int\<close>, or \<open>atan2\<close> of the
  C library scaled to degrees.
\<close>

definition transform_get_angle_delta :: "(int \<Rightarrow> int \<Rightarrow> rat) \<Rightarrow> coord \<Rightarrow> coord \<Rightarrow> int \<Rightarrow> int" where
  "transform_get_angle_delta at2 c1 c2 dir =
     (let dx = i32 (cx c2 - cx c1); dy = i32 (cy c2 - cy c1);
          angle = at2 dx dy;
          angle = (if dir = -1 then dround (angle - 180) else angle);
          angle = (if angle < 0 then dround (angle + 360) else angle)
      in d2i angle)"

definition atan2_table :: "int \<Rightarrow> int \<Rightarrow> rat" where
  "atan2_table dx dy = of_int (case atan2_int dx dy of Some a \<Rightarrow> a | None \<Rightarrow> 0)"

end
