(* ===== verification/Geom_Spec.thy ===== *)
theory Geom_Spec
  imports Geom_Transform
begin

text \<open>
  What the integer geometry of \<open>transform.c\<close> computes: the nearest segment of a polyline, the nearest
  point of a segment as long as the products fit, and where they do not; what the simplification keeps;
  bearings.
\<close>

section \<open>The nearest segment\<close>

fun seg_dists :: "coord \<Rightarrow> coord list \<Rightarrow> (int \<times> coord option) list" where
  "seg_dists ref (a # b # cs) = transform_distance_line_sq a b ref # seg_dists ref (b # cs)"
| "seg_dists ref _ = []"

lemma length_seg_dists [simp]: "length (seg_dists ref cs) = length cs - 1"
  by (induction ref cs rule: seg_dists.induct) auto

definition best_of :: "(int \<times> coord option) list \<Rightarrow> line_best \<Rightarrow> bool" where
  "best_of ds best \<longleftrightarrow> (\<exists>k < length ds. best = (fst (ds ! k), snd (ds ! k), Some (int k))
     \<and> (\<forall>j < length ds. fst (ds ! k) \<le> fst (ds ! j)) \<and> (\<forall>j < k. fst (ds ! k) < fst (ds ! j)))"

lemma best_of_step:
  assumes "best_of ds (d, lp, pos)"
  shows "best_of (ds @ [x]) (if fst x < d then (fst x, snd x, Some (int (length ds))) else (d, lp, pos))"
proof -
  obtain k where k: "k < length ds" "d = fst (ds ! k)" "lp = snd (ds ! k)" "pos = Some (int k)"
      "\<forall>j < length ds. fst (ds ! k) \<le> fst (ds ! j)" "\<forall>j < k. fst (ds ! k) < fst (ds ! j)"
    using assms unfolding best_of_def by auto
  show ?thesis
  proof (cases "fst x < d")
    case True
    have "\<forall>j < length ds. fst x < fst (ds ! j)" using True k(2,5) by fastforce
    then show ?thesis using True by (fastforce simp: best_of_def nth_append less_Suc_eq)
  next
    case False
    then show ?thesis using k by (auto simp: best_of_def nth_append less_Suc_eq intro!: exI [of _ k])
  qed
qed

lemma polyline_loop_best:
  "best_of ds (d, lp, pos) \<Longrightarrow> best_of (ds @ seg_dists ref cs) (polyline_loop ref (int (length ds) + 1) (d, lp, pos) cs)"
proof (induction cs arbitrary: ds d lp pos rule: seg_dists.induct [of _ ref])
  case (1 ref a b cs)
  obtain dn l where x: "transform_distance_line_sq a b ref = (dn, l)" by force
  let ?best = "if dn < d then (dn, l, Some (int (length ds))) else (d, lp, pos)"
  obtain d' lp' pos' where best: "?best = (d', lp', pos')" by (cases ?best) auto
  have s: "best_of (ds @ [(dn, l)]) (d', lp', pos')" using best_of_step [OF 1(2), of "(dn, l)"] unfolding fst_conv snd_conv best .
  have "best_of ((ds @ [(dn, l)]) @ seg_dists ref (b # cs)) (polyline_loop ref (int (length (ds @ [(dn, l)])) + 1) (d', lp', pos') (b # cs))"
    by (rule 1(1) [OF s])
  moreover have "polyline_loop ref (int (length ds) + 1) (d, lp, pos) (a # b # cs)
      = polyline_loop ref (int (length (ds @ [(dn, l)])) + 1) (d', lp', pos') (b # cs)"
    unfolding best [symmetric] by (simp add: x add.commute)
  ultimately show ?case using x by simp
qed auto

text \<open>
  C13: the distance of a point to a polyline is the least of its distances to the segments, and the point
  and position returned with it are those of the first segment at that distance.
\<close>

theorem polyline_nearest:
  assumes "2 \<le> length c"
  shows "\<exists>k < length c - 1. let s = (\<lambda>i. transform_distance_line_sq (c ! i) (c ! Suc i) ref) in
    transform_distance_polyline_sq c ref = (fst (s k), snd (s k), Some (int k))
    \<and> (\<forall>j < length c - 1. fst (s k) \<le> fst (s j)) \<and> (\<forall>j < k. fst (s k) < fst (s j))"
proof -
  obtain a b cs where c: "c = a # b # cs" using assms by (cases c; cases "tl c") auto
  have nth: "i < length xs - 1 \<Longrightarrow> seg_dists ref xs ! i = transform_distance_line_sq (xs ! i) (xs ! Suc i) ref" for i xs
  proof (induction xs arbitrary: i rule: seg_dists.induct [of _ ref])
    case (1 ref a b cs) then show ?case by (cases i) auto
  qed auto
  obtain d lp where x: "transform_distance_line_sq a b ref = (d, lp)" by force
  have "best_of [(d, lp)] (d, lp, Some 0)" by (simp add: best_of_def)
  from polyline_loop_best [OF this, of ref "b # cs"]
  have "best_of (seg_dists ref c) (transform_distance_polyline_sq c ref)"
    using x unfolding c by (simp add: transform_distance_polyline_sq_def)
  then show ?thesis unfolding best_of_def by (auto simp: nth Let_def)
qed

theorem polyline_nearest_witness:
  "let c = [\<lparr>cx = 0, cy = 0\<rparr>, \<lparr>cx = 100, cy = 0\<rparr>, \<lparr>cx = 100, cy = 100\<rparr>]; ref = \<lparr>cx = 90, cy = 50\<rparr>;
       s = (\<lambda>i. transform_distance_line_sq (c ! i) (c ! Suc i) ref)
   in transform_distance_polyline_sq c ref = (100, Some \<lparr>cx = 100, cy = 50\<rparr>, Some 1)
    \<and> (\<exists>k < 2. transform_distance_polyline_sq c ref = (fst (s k), snd (s k), Some (int k)) \<and> (\<forall>j < 2. fst (s k) \<le> fst (s j)))"
proof -
  let ?c = "[\<lparr>cx = 0, cy = 0\<rparr>, \<lparr>cx = 100, cy = 0\<rparr>, \<lparr>cx = 100, cy = 100\<rparr>]" and ?ref = "\<lparr>cx = 90, cy = 50\<rparr>"
  have v: "transform_distance_polyline_sq ?c ?ref = (100, Some \<lparr>cx = 100, cy = 50\<rparr>, Some 1)" by code_simp
  have l: "length ?c - 1 = 2" "2 \<le> length ?c" by simp_all
  show ?thesis using polyline_nearest [OF l(2), of ?ref] v unfolding l(1) Let_def by (intro conjI) (blast+)
qed

section \<open>Simplification\<close>

text \<open>
  Simplifying a polyline gives some of its points, in order, among them always the last.
\<close>

theorem douglas_peucker_subseq:
  "subseq (transform_douglas_peucker dist_sq pts) pts
   \<and> (pts \<noteq> [] \<longrightarrow> transform_douglas_peucker dist_sq pts \<noteq> [] \<and> last (transform_douglas_peucker dist_sq pts) = last pts)"
proof (induction dist_sq pts rule: transform_douglas_peucker.induct)
  case (1 dist_sq pts)
  obtain dmax idx where f: "farthest pts 1 (length pts - 3) 0 0 = (dmax, idx)" by force
  show ?case
  proof (cases "dmax > int dist_sq")
    case True
    have i: "1 \<le> idx \<and> idx < 1 + (length pts - 3)" using farthest_moved [of 0 pts 1 "length pts - 3" 0] f True by simp
    then have ne: "drop idx pts \<noteq> []" "last (drop idx pts) = last pts" by auto
    note ih = 1(1) [OF f [symmetric] refl True] 1(2) [OF f [symmetric] refl True]
    have e: "transform_douglas_peucker dist_sq pts
        = butlast (transform_douglas_peucker dist_sq (take idx pts)) @ transform_douglas_peucker dist_sq (drop idx pts)"
      by (subst transform_douglas_peucker.simps) (simp add: f [simplified] True)
    have "subseq (butlast (transform_douglas_peucker dist_sq (take idx pts))) (take idx pts)"
      using ih(1) by (meson prefixeq_butlast prefix_imp_subseq subseq_order.order_trans)
    then have "subseq (transform_douglas_peucker dist_sq pts) (take idx pts @ drop idx pts)"
      unfolding e using ih(2) by (intro list_emb_append_mono) auto
    then show ?thesis using ih(2) ne unfolding e by simp
  next
    case False
    have e: "transform_douglas_peucker dist_sq pts = (case pts of [] \<Rightarrow> [] | [p] \<Rightarrow> [p] | p # _ \<Rightarrow> [p, last pts])"
      by (subst transform_douglas_peucker.simps) (simp add: f [simplified] False)
    show ?thesis unfolding e by (auto split: list.splits simp: subseq_singleton_left)
  qed
qed

theorem douglas_peucker_subseq_witness:
  "last (transform_douglas_peucker 100 [\<lparr>cx = 0, cy = 0\<rparr>, \<lparr>cx = 10, cy = 50\<rparr>, \<lparr>cx = 40, cy = 0\<rparr>]) = \<lparr>cx = 40, cy = 0\<rparr>"
  using douglas_peucker_subseq [of 100 "[\<lparr>cx = 0, cy = 0\<rparr>, \<lparr>cx = 10, cy = 50\<rparr>, \<lparr>cx = 40, cy = 0\<rparr>]"] by simp

text \<open>
  C40: the last inner point is never looked at and the halves are split before the farthest point, not
  at it: of three points the middle one is dropped however far it is from the others, and of four points
  with the second farther than the tolerance the first is lost.
\<close>

theorem douglas_peucker_drops:
  assumes "int dist_sq < fst (transform_distance_line_sq a d b)"
  shows "transform_douglas_peucker dist_sq [a, c, d] = [a, d] \<and> transform_douglas_peucker dist_sq [a, b, c, d] = [b, d]"
proof -
  have two: "transform_douglas_peucker dist_sq [x, y, z] = [x, z]" "transform_douglas_peucker dist_sq [x] = [x]" for x y z
    by (subst transform_douglas_peucker.simps, simp)+
  have "farthest [a, b, c, d] 1 1 0 0 = (fst (transform_distance_line_sq a d b), 1)"
    using assms by (simp add: Let_def)
  then show ?thesis
    using assms two by (subst (2) transform_douglas_peucker.simps) simp
qed

theorem douglas_peucker_drops_witness:
  "transform_douglas_peucker 100 [\<lparr>cx = 0, cy = 0\<rparr>, \<lparr>cx = 10, cy = 50\<rparr>, \<lparr>cx = 20, cy = 0\<rparr>, \<lparr>cx = 40, cy = 0\<rparr>]
    = [\<lparr>cx = 10, cy = 50\<rparr>, \<lparr>cx = 40, cy = 0\<rparr>]"
proof -
  have "int 100 < fst (transform_distance_line_sq \<lparr>cx = 0, cy = 0\<rparr> \<lparr>cx = 40, cy = 0\<rparr> \<lparr>cx = 10, cy = 50\<rparr>)" by code_simp
  then show ?thesis using douglas_peucker_drops by blast
qed

section \<open>The nearest point of a segment\<close>

text \<open>The point of the segment at parameter \<open>t\<close>, and its squared distance to a point.\<close>

definition seg_dist :: "coord \<Rightarrow> coord \<Rightarrow> coord \<Rightarrow> rat \<Rightarrow> rat" where
  "seg_dist l0 l1 ref t =
     (of_int (cx l0) + t * of_int (cx l1 - cx l0) - of_int (cx ref)) ^ 2
     + (of_int (cy l0) + t * of_int (cy l1 - cy l0) - of_int (cy ref)) ^ 2"

definition seg_param :: "coord \<Rightarrow> coord \<Rightarrow> coord \<Rightarrow> rat" where
  "seg_param l0 l1 ref =
     (let vx = cx l1 - cx l0; vy = cy l1 - cy l0;
          c1 = vx * (cx ref - cx l0) + vy * (cy ref - cy l0); c2 = vx * vx + vy * vy
      in if c1 \<le> 0 then 0 else if c2 \<le> c1 then 1 else of_int c1 / of_int c2)"

definition rtrunc :: "rat \<Rightarrow> int" where
  "rtrunc x = (if 0 \<le> x then \<lfloor>x\<rfloor> else - \<lfloor>- x\<rfloor>)"

definition seg_point :: "coord \<Rightarrow> coord \<Rightarrow> coord \<Rightarrow> coord" where
  "seg_point l0 l1 ref = (let t = seg_param l0 l1 ref in
     \<lparr>cx = cx l0 + rtrunc (t * of_int (cx l1 - cx l0)), cy = cy l0 + rtrunc (t * of_int (cy l1 - cy l0))\<rparr>)"

lemma rtrunc_div: "0 < b \<Longrightarrow> rtrunc (of_int a / of_int b) = cdiv a b"
proof -
  assume b: "0 < b"
  show ?thesis
  proof (cases "0 \<le> a")
    case True
    then show ?thesis using b by (simp add: rtrunc_def floor_divide_of_int_eq)
  next
    case False
    have "\<lfloor>- (of_int a / of_int b :: rat)\<rfloor> = (- a) div b"
      using floor_divide_of_int_eq [of "- a" b, where ?'a = rat] by simp
    moreover have "\<not> (0 \<le> (of_int a / of_int b :: rat))" using False b by (simp add: zero_le_divide_iff)
    ultimately show ?thesis using False b by (simp add: rtrunc_def cdiv_neg)
  qed
qed

text \<open>The parameter is that of the nearest point.\<close>

lemma quadratic_min:
  fixes a b c t s :: rat
  assumes "0 \<le> c" "0 \<le> s" "s \<le> 1" "t = (if b \<le> 0 then 0 else if c \<le> b then 1 else b / c)"
  shows "t ^ 2 * c - 2 * t * b \<le> s ^ 2 * c - 2 * s * b"
proof -
  consider "b \<le> 0" | "0 < b" "c \<le> b" | "0 < b" "b < c" by linarith
  then show ?thesis
  proof cases
    case 1
    have "0 \<le> s ^ 2 * c" "s * b \<le> 0" using assms 1 by (simp_all add: mult_nonneg_nonpos)
    then show ?thesis using assms(4) 1 by simp
  next
    case 2
    have "0 \<le> (1 - s) * (2 * b - (1 + s) * c)"
    proof (rule mult_nonneg_nonneg)
      have "(1 + s) * c \<le> 2 * c" using assms by (intro mult_right_mono) auto
      then show "0 \<le> 2 * b - (1 + s) * c" using 2 by linarith
    qed (use assms in simp)
    then show ?thesis using assms(4) 2 by (simp add: algebra_simps power2_eq_square)
  next
    case 3
    have b: "b = t * c" using assms(4) 3 by simp
    have "s ^ 2 * c - 2 * s * b - (t ^ 2 * c - 2 * t * b) = c * (s - t) ^ 2"
      unfolding b by (simp add: power2_eq_square algebra_simps)
    moreover have "0 \<le> c * (s - t) ^ 2" using assms(1) by simp
    ultimately show ?thesis by linarith
  qed
qed

lemma seg_param_nearest:
  assumes "0 \<le> s" "s \<le> 1"
  shows "seg_dist l0 l1 ref (seg_param l0 l1 ref) \<le> seg_dist l0 l1 ref s"
proof -
  define vx vy wx wy where v: "vx = (of_int (cx l1 - cx l0) :: rat)" "vy = (of_int (cy l1 - cy l0) :: rat)"
    "wx = (of_int (cx ref - cx l0) :: rat)" "wy = (of_int (cy ref - cy l0) :: rat)"
  define b c where bc: "b = vx * wx + vy * wy" "c = vx * vx + vy * vy"
  have d: "seg_dist l0 l1 ref t = (t ^ 2 * c - 2 * t * b) + (wx ^ 2 + wy ^ 2)" for t
    unfolding seg_dist_def v bc by (simp add: power2_eq_square algebra_simps)
  let ?b = "(cx l1 - cx l0) * (cx ref - cx l0) + (cy l1 - cy l0) * (cy ref - cy l0)"
  let ?c = "(cx l1 - cx l0) * (cx l1 - cx l0) + (cy l1 - cy l0) * (cy l1 - cy l0)"
  have i: "b = of_int ?b" "c = of_int ?c" unfolding bc v by (simp_all only: of_int_mult of_int_add)
  have p: "seg_param l0 l1 ref = (if b \<le> 0 then 0 else if c \<le> b then 1 else b / c)"
    unfolding seg_param_def Let_def i by (simp only: of_int_le_iff of_int_le_0_iff)
  have "0 \<le> c" unfolding bc by simp
  then show ?thesis unfolding d using quadratic_min [OF _ assms p] by simp
qed

lemma abs_mult_le:
  fixes a b :: int
  assumes "\<bar>a\<bar> \<le> m" "\<bar>b\<bar> \<le> n"
  shows "\<bar>a * b\<bar> \<le> m * n"
  using assms unfolding abs_mult by (intro mult_mono) auto

lemma in_i32_abs: "\<bar>x\<bar> \<le> 2147483647 \<Longrightarrow> in_i32 x"
  by (auto simp: in_i32_def)

lemma transform_distance_sq_exact:
  assumes "\<bar>cx a - cx b\<bar> \<le> 30700" "\<bar>cy a - cy b\<bar> \<le> 30700"
  shows "transform_distance_sq a b = (cx a - cx b) ^ 2 + (cy a - cy b) ^ 2"
proof -
  let ?x = "cx a - cx b" and ?y = "cy a - cy b"
  have sq: "\<bar>?x * ?x\<bar> \<le> 30700 * 30700" "\<bar>?y * ?y\<bar> \<le> 30700 * 30700" using assms by (intro abs_mult_le; simp)+
  have i: "in_i32 ?x" "in_i32 ?y" "in_i32 (?x * ?x)" "in_i32 (?y * ?y)" "in_i32 (?x * ?x + ?y * ?y)" "in_i32 \<bar>?x\<bar>" "in_i32 \<bar>?y\<bar>"
    using assms sq by (intro in_i32_abs; linarith)+
  have "\<not> transform_overflow_possible_if_squared [?x, ?y]"
    using assms i by (simp add: transform_overflow_possible_if_squared_def c_abs_def)
  then show ?thesis using i by (simp add: transform_distance_sq_def Let_def power2_eq_square)
qed

lemma cdiv_abs_le:
  assumes "0 \<le> c" "c \<le> d" "0 < d"
  shows "\<bar>cdiv (v * c) d\<bar> \<le> \<bar>v\<bar>"
proof -
  have "\<bar>cdiv (v * c) d\<bar> = \<bar>v * c\<bar> div d" using assms(3)
    by (cases "0 \<le> v * c") (simp_all add: cdiv_neg pos_imp_zdiv_nonneg_iff)
  also have "\<dots> \<le> (\<bar>v\<bar> * d) div d" using assms by (intro zdiv_mono1) (simp_all add: abs_mult mult_left_mono)
  finally show ?thesis using assms(3) by simp
qed

text \<open>The value before an overflow: the parameter cuts the segment.\<close>

lemma line_sq_inner:
  assumes v: "\<bar>vx\<bar> \<le> 700" "\<bar>vy\<bar> \<le> 700" and c: "0 < c1" "c1 < c2" "c2 \<le> 980000"
    and l0: "\<bar>cx l0\<bar> \<le> 2000000000" "\<bar>cy l0\<bar> \<le> 2000000000"
  shows "(let (c1, c2) = scale_down c1 c2
      in \<lparr>cx = i32 (cx l0 + cdiv (i32 (vx * c1)) c2), cy = i32 (cy l0 + cdiv (i32 (vy * c1)) c2)\<rparr>)
    = \<lparr>cx = cx l0 + cdiv (vx * c1) c2, cy = cy l0 + cdiv (vy * c1) c2\<rparr>"
proof -
  have s: "scale_down c1 c2 = (c1, c2)" using c by (subst scale_down.simps) (simp add: climit_def)
  have "\<bar>vx * c1\<bar> \<le> 700 * 980000" "\<bar>vy * c1\<bar> \<le> 700 * 980000" using v c by (intro abs_mult_le; simp)+
  then have i: "in_i32 (vx * c1)" "in_i32 (vy * c1)" by (intro in_i32_abs; linarith)+
  have "\<bar>cdiv (vx * c1) c2\<bar> \<le> \<bar>vx\<bar>" "\<bar>cdiv (vy * c1) c2\<bar> \<le> \<bar>vy\<bar>" using c by (intro cdiv_abs_le; simp)+
  then have "in_i32 (cx l0 + cdiv (vx * c1) c2)" "in_i32 (cy l0 + cdiv (vy * c1) c2)"
    using v l0 by (intro in_i32_abs; linarith)+
  then show ?thesis using s i by simp
qed

lemma rtrunc_param: "0 < c2 \<Longrightarrow> rtrunc (of_int c1 * of_int v / of_int c2) = cdiv (v * c1) c2"
  using rtrunc_div [of c2 "v * c1"] by (simp add: mult.commute)

lemma rtrunc_int [simp]: "rtrunc (of_int k) = k"
  by (simp add: rtrunc_def flip: of_int_minus)

lemma seg_point_cases:
  assumes "c1 = (cx l1 - cx l0) * (cx ref - cx l0) + (cy l1 - cy l0) * (cy ref - cy l0)"
    "c2 = (cx l1 - cx l0) * (cx l1 - cx l0) + (cy l1 - cy l0) * (cy l1 - cy l0)"
  shows "c1 \<le> 0 \<Longrightarrow> seg_point l0 l1 ref = l0"
    "0 < c1 \<Longrightarrow> c2 \<le> c1 \<Longrightarrow> seg_point l0 l1 ref = l1"
    "0 < c1 \<Longrightarrow> c1 < c2 \<Longrightarrow> seg_point l0 l1 ref
      = \<lparr>cx = cx l0 + cdiv ((cx l1 - cx l0) * c1) c2, cy = cy l0 + cdiv ((cy l1 - cy l0) * c1) c2\<rparr>"
proof -
  have t: "seg_param l0 l1 ref = (if c1 \<le> 0 then 0 else if c2 \<le> c1 then 1 else of_int c1 / of_int c2)"
    unfolding seg_param_def Let_def assms ..
  show "c1 \<le> 0 \<Longrightarrow> seg_point l0 l1 ref = l0" by (simp add: seg_point_def t coord_eq_iff rtrunc_def)
  show "0 < c1 \<Longrightarrow> c2 \<le> c1 \<Longrightarrow> seg_point l0 l1 ref = l1" by (simp add: seg_point_def t coord_eq_iff flip: of_int_diff)
  show "0 < c1 \<Longrightarrow> c1 < c2 \<Longrightarrow> seg_point l0 l1 ref
      = \<lparr>cx = cx l0 + cdiv ((cx l1 - cx l0) * c1) c2, cy = cy l0 + cdiv ((cy l1 - cy l0) * c1) c2\<rparr>"
    by (simp add: seg_point_def t rtrunc_param flip: of_int_diff)
qed

lemma seg_point_close:
  "\<bar>cx (seg_point l0 l1 ref) - cx l0\<bar> \<le> \<bar>cx l1 - cx l0\<bar> \<and> \<bar>cy (seg_point l0 l1 ref) - cy l0\<bar> \<le> \<bar>cy l1 - cy l0\<bar>"
proof -
  define c1 c2 where c: "c1 = (cx l1 - cx l0) * (cx ref - cx l0) + (cy l1 - cy l0) * (cy ref - cy l0)"
    "c2 = (cx l1 - cx l0) * (cx l1 - cx l0) + (cy l1 - cy l0) * (cy l1 - cy l0)"
  consider "c1 \<le> 0" | "0 < c1" "c2 \<le> c1" | "0 < c1" "c1 < c2" by linarith
  then show ?thesis by cases (simp_all add: seg_point_cases [OF c] cdiv_abs_le)
qed

lemma line_sq_point:
  assumes "\<bar>cx l1 - cx l0\<bar> \<le> 700" "\<bar>cy l1 - cy l0\<bar> \<le> 700" "\<bar>cx ref - cx l0\<bar> \<le> 30000" "\<bar>cy ref - cy l0\<bar> \<le> 30000"
    "\<bar>cx l0\<bar> \<le> 2000000000" "\<bar>cy l0\<bar> \<le> 2000000000"
  shows "transform_distance_line_sq l0 l1 ref = (transform_distance_sq (seg_point l0 l1 ref) ref, Some (seg_point l0 l1 ref))"
proof -
  define vx vy wx wy where v: "vx = cx l1 - cx l0" "vy = cy l1 - cy l0" "wx = cx ref - cx l0" "wy = cy ref - cy l0"
  define c1 c2 where c: "c1 = vx * wx + vy * wy" "c2 = vx * vx + vy * vy"
  have b: "\<bar>vx\<bar> \<le> 700" "\<bar>vy\<bar> \<le> 700" "\<bar>wx\<bar> \<le> 30000" "\<bar>wy\<bar> \<le> 30000" using assms(1-4) unfolding v by auto
  have p: "\<bar>vx * wx\<bar> \<le> 700 * 30000" "\<bar>vy * wy\<bar> \<le> 700 * 30000" "\<bar>vx * vx\<bar> \<le> 700 * 700" "\<bar>vy * vy\<bar> \<le> 700 * 700"
    using b by (intro abs_mult_le; simp)+
  have i: "i32 (cx l1 - cx l0) = vx" "i32 (cy l1 - cy l0) = vy" "i32 (cx ref - cx l0) = wx" "i32 (cy ref - cy l0) = wy"
    "i32 (i32 (vx * wx) + i32 (vy * wy)) = c1" "i32 (i32 (vx * vx) + i32 (vy * vy)) = c2"
    using b p unfolding v [symmetric] c by (simp_all add: in_i32_abs)
  have ov: "\<not> transform_overflow_possible_if_squared [vx, vy, wx, wy]"
    using b by (simp add: transform_overflow_possible_if_squared_def c_abs_def in_i32_abs)
  note cases = seg_point_cases [OF c [unfolded v], folded v]
  consider "c1 \<le> 0" | "0 < c1" "c2 \<le> c1" | "0 < c1" "c1 < c2" by linarith
  then show ?thesis
  proof cases
    case 3
    have c2: "c2 \<le> 980000" using p unfolding c by linarith
    have "(let (c1, c2) = scale_down c1 c2 in \<lparr>cx = i32 (cx l0 + cdiv (i32 (vx * c1)) c2), cy = i32 (cy l0 + cdiv (i32 (vy * c1)) c2)\<rparr>)
        = seg_point l0 l1 ref"
      unfolding cases(3) [OF 3] by (rule line_sq_inner [OF b(1,2) 3 c2 assms(5,6)])
    then show ?thesis using 3 ov unfolding transform_distance_line_sq_def i Let_def by (auto split: prod.splits)
  qed (use ov cases in \<open>simp_all add: transform_distance_line_sq_def i Let_def\<close>)
qed




section \<open>Bearings\<close>

lemma atan2_search_hit:
  assumes "tab_read tab_atan p = Some a" "tab_read tab_atan (p + 1) = Some b"
  shows "val < a \<Longrightarrow> atan2_search val i p = atan2_search val (i div 2) (p - i div 2)"
    "\<not> val < a \<Longrightarrow> val < b \<Longrightarrow> atan2_search val i p = Some (p + p div 2)"
    "\<not> val < a \<Longrightarrow> \<not> val < b \<Longrightarrow> atan2_search val i p = atan2_search val (i div 2) (p + i div 2)"
  using assms by (subst atan2_search.simps, simp add: Let_def)+

text \<open>The interval of indices the search still has to look at is halved with every step.\<close>

definition tab_at :: "int \<Rightarrow> int" where "tab_at p = tab_atan ! nat p"

lemma tab_read_at: "0 \<le> p \<Longrightarrow> p < 32 \<Longrightarrow> tab_read tab_atan p = Some (tab_at p)"
  by (simp add: tab_read_def tab_at_def tab_atan_def)

lemma atan2_search_range:
  "n \<le> 5 \<Longrightarrow> 2 ^ n - 1 \<le> p \<Longrightarrow> p + 2 ^ n \<le> 31 \<Longrightarrow> tab_at (p + 1 - 2 ^ n) \<le> val \<Longrightarrow> val < tab_at (p + 2 ^ n)
    \<Longrightarrow> \<exists>r. atan2_search val (2 ^ n) p = Some r \<and> 0 \<le> r \<and> r \<le> 45"
proof (induction n arbitrary: p)
  case 0
  then have "atan2_search val 1 p = Some (p + p div 2)"
    using atan2_search_hit(2) [of p "tab_at p" "tab_at (p + 1)" val 1] by (simp add: tab_read_at)
  then show ?case using 0 by auto
next
  case (Suc n)
  let ?i = "2 ^ n :: int"
  have i: "2 ^ Suc n = 2 * ?i" "(2 * ?i) div 2 = ?i" "1 \<le> ?i" by simp_all
  have pr: "0 \<le> p" "p + 1 < 32" using Suc.prems i by linarith+
  note h = atan2_search_hit [OF tab_read_at tab_read_at, of p val "2 * ?i"]
  consider "val < tab_at p" | "\<not> val < tab_at p" "val < tab_at (p + 1)" | "\<not> val < tab_at p" "\<not> val < tab_at (p + 1)" by blast
  then show ?case
  proof cases
    case 1
    have "\<exists>r. atan2_search val ?i (p - ?i) = Some r \<and> 0 \<le> r \<and> r \<le> 45"
      by (rule Suc.IH) (use Suc.prems 1 i pr in \<open>simp_all add: algebra_simps\<close>)
    then show ?thesis using h(1) [OF _ _ _ _ 1] pr i by simp
  next
    case 2
    then show ?thesis using h(2) [OF _ _ _ _ 2] pr i by auto
  next
    case 3
    have "\<exists>r. atan2_search val ?i (p + ?i) = Some r \<and> 0 \<le> r \<and> r \<le> 45"
      by (rule Suc.IH) (use Suc.prems 3 i pr in \<open>simp_all add: algebra_simps\<close>)
    then show ?thesis using h(3) [OF _ _ _ _ 3] pr i by simp
  qed
qed

lemma atan2_lookup_range:
  assumes "0 \<le> val" "val \<le> 10000"
  shows "\<exists>r. atan2_int_lookup val = Some r \<and> 0 \<le> r \<and> r \<le> 45"
proof -
  have t: "tab_at 0 = 0" "tab_at 31 = 10538" by (simp_all add: tab_at_def tab_atan_def)
  have l: "int (length tab_atan) div 2 = 16" by (simp add: tab_atan_def)
  show ?thesis using atan2_search_range [of 4 15 val] assms t unfolding atan2_int_lookup_def l by simp
qed

lemma shrink_bounds:
  "0 \<le> x \<Longrightarrow> 0 \<le> y \<Longrightarrow> 0 < x \<or> 0 < y \<Longrightarrow> shrink x y = (x', y') \<Longrightarrow>
    0 \<le> x' \<and> 0 \<le> y' \<and> x' \<le> 20000 \<and> y' \<le> 20000 \<and> (0 < x' \<or> 0 < y')"
proof (induction x y rule: shrink.induct)
  case (1 x y)
  show ?case
  proof (cases "x > 20000 \<or> y > 20000")
    case True
    then have p: "0 < x div 10 \<or> 0 < y div 10" by linarith
    have "shrink (cdiv x 10) (cdiv y 10) = (x', y')" using 1(5) True by (subst (asm) shrink.simps) simp
    then show ?thesis using 1(1) [OF True] 1(2,3) p by simp
  next
    case False
    then show ?thesis using 1(2-5) by (subst (asm) shrink.simps) auto
  qed
qed

lemma atan2_quadrant_range:
  assumes "0 < x" "0 < y"
  shows "\<exists>r. atan2_quadrant x y = Some r \<and> 0 \<le> r \<and> r \<le> 90"
proof -
  obtain x' y' where s: "shrink x y = (x', y')" by force
  note b = shrink_bounds [OF _ _ _ s]
  have i: "in_i32 (y' * 10000)" "in_i32 (x' * 10000)" using b assms by (auto simp: in_i32_def)
  have v: "\<exists>r. atan2_int_lookup (cdiv (i32 (a * 10000)) c) = Some r \<and> 0 \<le> r \<and> r \<le> 45"
    if "0 \<le> a" "a \<le> c" "0 < c" "in_i32 (a * 10000)" for a c
  proof -
    have "a * 10000 div c \<le> (c * 10000) div c" using that by (intro zdiv_mono1) auto
    then show ?thesis using that by (intro atan2_lookup_range) (simp_all add: pos_imp_zdiv_nonneg_iff)
  qed
  show ?thesis
  proof (cases "x' > y'")
    case True
    then show ?thesis using v [of y' x'] b assms i s by (auto simp: atan2_quadrant_def)
  next
    case False
    then have "\<exists>r. atan2_int_lookup (cdiv (i32 (x' * 10000)) y') = Some r \<and> 0 \<le> r \<and> r \<le> 45" using v [of x' y'] b assms i by auto
    then show ?thesis using False s by (auto simp: atan2_quadrant_def)
  qed
qed

text \<open>The four quadrants.\<close>

lemma atan2_int_cases:
  assumes "\<bar>dx\<bar> \<le> 2147483647" "\<bar>dy\<bar> \<le> 2147483647" "dx \<noteq> 0" "dy \<noteq> 0" "atan2_quadrant \<bar>dx\<bar> \<bar>dy\<bar> = Some r"
  shows "atan2_int dx dy = Some (if dx < 0 then if dy < 0 then r - 180 else - r else if dy < 0 then 180 - r else r)"
proof -
  have "in_i32 (- dx)" "in_i32 (- dy)" using assms(1,2) by (auto simp: in_i32_def)
  then show ?thesis using assms(3-5) by (auto simp: atan2_int_def Let_def)
qed

lemma atan2_int_range:
  assumes "\<bar>dx\<bar> \<le> 2147483647" "\<bar>dy\<bar> \<le> 2147483647"
  shows "\<exists>a b. atan2_int dx dy = Some a \<and> atan2_int (- dx) (- dy) = Some b \<and> -180 \<le> a \<and> a \<le> 180 \<and> -180 \<le> b \<and> b \<le> 180
    \<and> (dx = 0 \<and> dy = 0 \<or> b = a + 180 \<or> b = a - 180)"
proof (cases "dx = 0 \<or> dy = 0")
  case True
  then show ?thesis by (auto simp: atan2_int_def)
next
  case False
  then obtain r where r: "atan2_quadrant \<bar>dx\<bar> \<bar>dy\<bar> = Some r" "0 \<le> r" "r \<le> 90"
    using atan2_quadrant_range [of "\<bar>dx\<bar>" "\<bar>dy\<bar>"] by auto
  show ?thesis
    using atan2_int_cases [of dx dy r] atan2_int_cases [of "- dx" "- dy" r] assms False r by auto
qed

section \<open>Rounding of negative numbers\<close>

lemma rne_minus: "rne (- y) = - rne y"
proof (cases "y = of_int \<lfloor>y\<rfloor>")
  case True
  then show ?thesis by (metis of_int_minus rne_int)
next
  case False
  then have f: "\<lfloor>- y\<rfloor> = - \<lfloor>y\<rfloor> - 1" by (simp add: floor_eq_iff) linarith
  show ?thesis unfolding rne_def f Let_def by (auto simp: algebra_simps)
qed

lemma dround_minus: "dround (- x) = - dround x"
  by (simp add: dround_def Let_def rne_minus)

lemma dround_int [simp]:
  assumes "\<bar>k\<bar> < 2 ^ 53"
  shows "dround (of_int k) = of_int k"
proof (cases "0 \<le> k")
  case True
  then show ?thesis using assms by (intro dround_int_exact) simp_all
next
  case False
  then have "dround (of_int (- k)) = of_int (- k)" using assms by (intro dround_int_exact) simp_all
  then show ?thesis by (simp add: dround_minus)
qed

section \<open>Bearings of two points\<close>

lemma d2i_of_int: "in_i32 k \<Longrightarrow> d2i (of_int k) = k"
  by (simp add: d2i_def Let_def flip: of_int_minus)

text \<open>The bearing from an angle in \<open>-180 .. 180\<close>.\<close>

definition bearing_of :: "int \<Rightarrow> int \<Rightarrow> int" where
  "bearing_of a dir = (let a = (if dir = -1 then a - 180 else a) in if a < 0 then a + 360 else a)"

lemma angle_delta_int:
  assumes "at2 (i32 (cx c2 - cx c1)) (i32 (cy c2 - cy c1)) = of_int a" "-180 \<le> a" "a \<le> 180"
  shows "transform_get_angle_delta at2 c1 c2 dir = bearing_of a dir"
proof -
  have d: "dround (of_int a - 180) = of_int (a - 180)" "dround (of_int a + 360) = of_int (a + 360)"
    "dround (of_int (a - 180) + 360) = of_int (a - 180 + 360)"
    using assms(2,3) dround_int [of "a - 180"] dround_int [of "a + 360"] dround_int [of "a - 180 + 360"] by simp_all
  have neg: "(of_int k < (0 :: rat)) = (k < 0)" for k by simp
  have i: "in_i32 a" "in_i32 (a - 180)" "in_i32 (a + 360)" "in_i32 (a - 180 + 360)" "in_i32 (180 + a)"
    using assms(2,3) by (simp_all add: in_i32_def)
  show ?thesis unfolding transform_get_angle_delta_def Let_def assms(1) bearing_of_def
    by (simp only: d neg if_distrib [of of_int] split: if_split) (auto simp: i d2i_of_int neg d simp del: of_int_diff of_int_add)
qed

text \<open>
  The bearing computed without floating point is at least 0 and less than 360 degrees; the bearing
  of the opposite direction differs by half a turn, and is what the direction -1 asks for.
\<close>

theorem bearing_opposite:
  assumes "\<bar>cx c2 - cx c1\<bar> \<le> 2147483647" "\<bar>cy c2 - cy c1\<bar> \<le> 2147483647" "c1 \<noteq> c2"
  shows "let b = transform_get_angle_delta atan2_table in
    0 \<le> b c1 c2 1 \<and> b c1 c2 1 < 360 \<and> (b c2 c1 1 = b c1 c2 1 + 180 \<or> b c2 c1 1 = b c1 c2 1 - 180)
    \<and> b c1 c2 (-1) = b c2 c1 1"
proof -
  let ?dx = "cx c2 - cx c1" and ?dy = "cy c2 - cy c1"
  obtain a b where ab: "atan2_int ?dx ?dy = Some a" "atan2_int (- ?dx) (- ?dy) = Some b" "-180 \<le> a" "a \<le> 180" "-180 \<le> b" "b \<le> 180"
      "b = a + 180 \<or> b = a - 180"
    using atan2_int_range [OF assms(1,2)] assms(3) by (auto simp: coord_eq_iff)
  have i: "i32 ?dx = ?dx" "i32 ?dy = ?dy" "i32 (cx c1 - cx c2) = - ?dx" "i32 (cy c1 - cy c2) = - ?dy"
    using assms(1,2) by (simp_all add: in_i32_def abs_le_iff)
  have f: "transform_get_angle_delta atan2_table c1 c2 dir = bearing_of a dir" for dir
    by (rule angle_delta_int) (use ab in \<open>simp_all add: i atan2_table_def\<close>)
  have r: "transform_get_angle_delta atan2_table c2 c1 dir = bearing_of b dir" for dir
  proof (rule angle_delta_int)
    show "atan2_table (i32 (cx c1 - cx c2)) (i32 (cy c1 - cy c2)) = of_int b" unfolding i atan2_table_def ab(2) by simp
  qed (use ab in simp_all)
  show ?thesis unfolding f r Let_def using ab by (auto simp: bearing_of_def)
qed

theorem bearing_opposite_witness:
  "let b = transform_get_angle_delta atan2_table; c1 = \<lparr>cx = 10, cy = 10\<rparr>; c2 = \<lparr>cx = 110, cy = -90\<rparr>
   in b c1 c2 1 = 135 \<and> b c2 c1 1 = 315 \<and> b c1 c2 (-1) = 315"
proof -
  let ?b = "transform_get_angle_delta atan2_table" and ?c1 = "\<lparr>cx = 10, cy = 10\<rparr>" and ?c2 = "\<lparr>cx = 110, cy = -90\<rparr>"
  have q: "atan2_quadrant 100 100 = Some 45"
  proof -
    have "shrink 100 100 = (100, 100)" by (subst shrink.simps) simp
    moreover have "atan2_int_lookup 10000 = Some 45"
      by (simp add: atan2_int_lookup_def tab_atan_def atan2_search_hit(2) atan2_search_hit(3) tab_read_def)
    ultimately show ?thesis by (simp add: atan2_quadrant_def in_i32_def)
  qed
  have "?b ?c1 ?c2 1 = bearing_of 135 1"
    by (rule angle_delta_int) (use q in \<open>simp_all add: atan2_table_def atan2_int_def in_i32_def\<close>)
  then have "?b ?c1 ?c2 1 = 135" by (simp add: bearing_of_def)
  then show ?thesis using bearing_opposite [of ?c2 ?c1] bearing_opposite [of ?c1 ?c2] by (auto simp: Let_def)
qed

end
