(* ===== verification/Nav_Data.thy ===== *)
theory Nav_Data
  imports Traffic_Names Route_Cost
begin

text \<open>
  Navigation instructions (\<open>navigation.c\<close>): the data the maneuvers are made from, and the small
  functions on angles, names, road categories and access the analysis of a maneuver is built of.

  The linked list \<open>first .. last\<close> of navigation items is a list; \<open>prev\<close> and \<open>next\<close> of an item are its
  neighbours there. A function that follows both pointers gets the items before the current one, nearest
  first, and the items after it.
\<close>

section \<open>Constants\<close>

named_theorems nav_types \<open>values of the item types of maneuvers\<close>

definition type_area :: int where [nav_types]: "type_area = 0xc0000000"
definition type_highway_exit :: int where [nav_types]: "type_highway_exit = 0x1011d"
definition type_rg_point :: int where [nav_types]: "type_rg_point = 0x101a5"
definition type_rg_segment :: int where [nav_types]: "type_rg_segment = 0x80000025"
definition type_street_route :: int where [nav_types]: "type_street_route = 0x80000018"
definition type_route_start :: int where [nav_types]: "type_route_start = 0x101fa"
definition type_route_start_reverse :: int where [nav_types]: "type_route_start_reverse = 0x101fe"
definition type_nav_none :: int where [nav_types]: "type_nav_none = 0x101e0"
definition type_nav_destination :: int where [nav_types]: "type_nav_destination = 0x101e2"
definition type_nav_straight :: int where [nav_types]: "type_nav_straight = 0x101b1"
definition type_nav_right_1 :: int where [nav_types]: "type_nav_right_1 = 0x101b3"
definition type_nav_right_2 :: int where [nav_types]: "type_nav_right_2 = 0x101b4"
definition type_nav_right_3 :: int where [nav_types]: "type_nav_right_3 = 0x101b5"
definition type_nav_left_1 :: int where [nav_types]: "type_nav_left_1 = 0x101b6"
definition type_nav_left_2 :: int where [nav_types]: "type_nav_left_2 = 0x101b7"
definition type_nav_left_3 :: int where [nav_types]: "type_nav_left_3 = 0x101b8"
definition type_nav_turnaround_left :: int where [nav_types]: "type_nav_turnaround_left = 0x1022e"
definition type_nav_turnaround_right :: int where [nav_types]: "type_nav_turnaround_right = 0x1022f"
definition type_nav_keep_left :: int where [nav_types]: "type_nav_keep_left = 0x10232"
definition type_nav_keep_right :: int where [nav_types]: "type_nav_keep_right = 0x10233"

text \<open>\<open>type_nav_roundabout_r1 .. r8\<close> and \<open>l1 .. l8\<close> are consecutive.\<close>

definition type_nav_roundabout_r :: "int \<Rightarrow> int" where [nav_types]: "type_nav_roundabout_r k = 0x101b8 + k"
definition type_nav_roundabout_l :: "int \<Rightarrow> int" where [nav_types]: "type_nav_roundabout_l k = 0x101c0 + k"

definition min_turn_limit :: int where "min_turn_limit = 25"
definition turn_2_limit :: int where "turn_2_limit = 45"
definition sharp_turn_limit :: int where "sharp_turn_limit = 110"
definition u_turn_limit :: int where "u_turn_limit = 165"
definition INVALID_ANGLE :: int where "INVALID_ANGLE = 361"

lemmas turn_limits = min_turn_limit_def turn_2_limit_def sharp_turn_limit_def u_turn_limit_def

definition mex_none :: int where "mex_none = 0"
definition mex_merge :: int where "mex_merge = 1"
definition mex_exit :: int where "mex_exit = 2"
definition mex_interchange :: int where "mex_interchange = 4"
definition mex_merge_right :: int where "mex_merge_right = 9"
definition mex_exit_right :: int where "mex_exit_right = 10"
definition mex_merge_left :: int where "mex_merge_left = 17"
definition mex_exit_left :: int where "mex_exit_left = 18"

lemmas mex_defs = mex_none_def mex_merge_def mex_exit_def mex_interchange_def mex_merge_right_def
  mex_exit_right_def mex_merge_left_def mex_exit_left_def

section \<open>Data\<close>

record street_destination =
  des_name :: string
  des_rank :: int

text \<open>A way one can drive; \<open>next\<close> of a way is the list it stands in.\<close>

record navigation_way =
  nw_dir :: int
  nw_angle2 :: int
  nw_flags :: "32 word"
  nw_item :: item
  nw_name :: "string option"
  nw_name_systematic :: "string option"
  nw_exit_ref :: "string option"
  nw_exit_label :: "string option"
  nw_destination :: "street_destination list"

text \<open>\<open>ni_addr\<close> is the address of the struct, \<open>ni_ways\<close> the chain \<open>way.next\<close>: the ways that leave its start.\<close>

record navigation_itm =
  ni_addr :: nat
  ni_way :: navigation_way
  ni_ways :: "navigation_way list"
  ni_angle_end :: int
  ni_start :: coord
  ni_end :: coord
  ni_time :: int
  ni_length :: int
  ni_speed :: int
  ni_dest_time :: int
  ni_dest_length :: int
  ni_told :: int
  ni_streetname_told :: int
  ni_dest_count :: int

record navigation_maneuver =
  nm_type :: int
  nm_delta :: int
  nm_merge_or_exit :: int
  nm_is_complex_t_junction :: bool
  nm_num_options :: nat
  nm_num_new_motorways :: nat
  nm_num_other_ways :: nat
  nm_old_cat :: int
  nm_new_cat :: int
  nm_max_cat :: int
  nm_num_similar_ways :: nat
  nm_left :: int
  nm_right :: int
  nm_is_unambiguous :: bool
  nm_is_same_street :: bool

text \<open>A command refers to the item after its maneuver by address.\<close>

record navigation_command =
  nc_itm :: nat
  nc_delta :: int
  nc_roundabout_delta :: int
  nc_length :: int
  nc_maneuver :: navigation_maneuver

abbreviation ni_type :: "navigation_itm \<Rightarrow> int" where "ni_type i \<equiv> it_type (nw_item (ni_way i))"
abbreviation ni_flags :: "navigation_itm \<Rightarrow> 32 word" where "ni_flags i \<equiv> nw_flags (ni_way i)"
abbreviation nw_type :: "navigation_way \<Rightarrow> int" where "nw_type w \<equiv> it_type (nw_item w)"

section \<open>Angles\<close>

definition angle_delta :: "int \<Rightarrow> int \<Rightarrow> int" where
  "angle_delta angle1 angle2 =
     (let delta = angle2 - angle1;
          delta = (if delta \<le> -180 then delta + 360 else delta);
          delta = (if delta > 180 then delta - 360 else delta)
      in delta)"

definition angle_median :: "int \<Rightarrow> int \<Rightarrow> int" where
  "angle_median angle1 angle2 =
     (let delta = angle_delta angle1 angle2;
          ret = angle1 + cdiv delta 2;
          ret = (if ret < 0 then ret + 360 else ret);
          ret = (if ret > 360 then ret - 360 else ret)
      in ret)"

definition angle_opposite :: "int \<Rightarrow> int" where
  "angle_opposite angle = Navit_Prelude.cmod (angle + 180) 360"

definition adjust_delta :: "int \<Rightarrow> int \<Rightarrow> int" where
  "adjust_delta delta reference =
     (if delta \<ge> 0 \<and> delta - reference > 180 then delta - 360
      else if delta \<le> 0 \<and> reference - delta > 180 then delta + 360
      else delta)"

section \<open>Names\<close>

text \<open>Both names are there and equal: a comparison of the C code that a null pointer ends.\<close>

definition same_name :: "string option \<Rightarrow> string option \<Rightarrow> bool" where
  "same_name a b \<longleftrightarrow> a \<noteq> None \<and> a = b"

definition is_same_street2 :: "string option \<Rightarrow> string option \<Rightarrow> string option \<Rightarrow> string option \<Rightarrow> bool" where
  "is_same_street2 old_name old_name_systematic new_name new_name_systematic \<longleftrightarrow>
     same_name old_name new_name \<or> same_name old_name_systematic new_name_systematic"

abbreviation same_street :: "navigation_way \<Rightarrow> navigation_way \<Rightarrow> bool" where
  "same_street a b \<equiv> is_same_street2 (nw_name a) (nw_name_systematic a) (nw_name b) (nw_name_systematic b)"

definition is_same_way :: "navigation_way \<Rightarrow> navigation_way \<Rightarrow> bool" where
  "is_same_way w1 w2 \<longleftrightarrow> same_street w1 w2 \<and> nw_angle2 w1 = nw_angle2 w2 \<and> nw_type w1 = nw_type w2"

section \<open>Categories and access\<close>

definition maneuver_category :: "int \<Rightarrow> int" where
  "maneuver_category t =
     (if t = type_street_0 then 1
      else if t = type_street_1_city then 2
      else if t = type_street_2_city then 3
      else if t = type_street_3_city then 4
      else if t = type_street_4_city then 5
      else if t = type_highway_city then 7
      else if t = type_street_1_land then 2
      else if t = type_street_2_land then 3
      else if t = type_street_3_land then 4
      else if t = type_street_4_land then 5
      else if t = type_street_n_lanes then 6
      else if t = type_highway_land then 7
      else 0)"

definition is_way_allowed :: "vehicleprofile option \<Rightarrow> navigation_way \<Rightarrow> int \<Rightarrow> bool" where
  "is_way_allowed vp way mode =
     (case vp of None \<Rightarrow> True
      | Some p \<Rightarrow>
          if nw_flags way = 0 then True
          else if mode \<noteq> 0 then
            nw_flags way AND (if nw_dir way \<ge> 0 then vp_flags_forward_mask p else vp_flags_reverse_mask p) = vp_flags p
          else nw_flags way AND vp_flags p = vp_flags p)"

definition is_motorway_like :: "navigation_way \<Rightarrow> bool \<Rightarrow> bool" where
  "is_motorway_like way extended =
     (if nw_type way = type_highway_land \<or> nw_type way = type_highway_city
         \<or> nw_type way = type_street_n_lanes \<and> has_flag (nw_flags way) AF_ONEWAYMASK then True
      else if extended \<and> (nw_type way = type_ramp \<or> nw_type way = type_street_service) then True
      else False)"

definition is_ramp :: "navigation_way \<Rightarrow> bool" where
  "is_ramp way \<longleftrightarrow> nw_type way = type_ramp"

section \<open>Facts\<close>

text \<open>The difference of two bearings is the turn between them, in \<open>-180 < delta \<le> 180\<close>.\<close>

lemma angle_delta_range:
  "\<bar>b - a\<bar> < 540 \<Longrightarrow> -180 < angle_delta a b \<and> angle_delta a b \<le> 180"
  by (auto simp: angle_delta_def Let_def)

lemma angle_delta_cong:
  "angle_delta a b = b - a \<or> angle_delta a b = b - a + 360 \<or> angle_delta a b = b - a - 360"
  by (auto simp: angle_delta_def Let_def)

lemma angle_delta_mod: "(a + angle_delta a b) mod 360 = b mod 360"
proof -
  have m: "(x - 360) mod 360 = x mod 360" "(x + 360) mod 360 = x mod 360" for x :: int
    using mod_add_self2 [of "x - 360" 360] by simp_all
  have "a + angle_delta a b = b \<or> a + angle_delta a b = b + 360 \<or> a + angle_delta a b = b - 360"
    using angle_delta_cong [of a b] by auto
  then show ?thesis by (auto simp: m)
qed

lemma angle_delta_self [simp]: "angle_delta a a = 0" by (simp add: angle_delta_def)

lemma angle_delta_swap:
  "\<bar>b - a\<bar> < 540 \<Longrightarrow> angle_delta a b \<noteq> 180 \<Longrightarrow> angle_delta b a = - angle_delta a b"
  by (auto simp: angle_delta_def Let_def split: if_splits)

lemma adjust_delta_near:
  assumes "\<bar>delta\<bar> \<le> 180" "\<bar>reference\<bar> \<le> 180"
  shows "\<bar>adjust_delta delta reference - reference\<bar> \<le> 180"
    and "adjust_delta delta reference \<in> {delta - 360, delta, delta + 360}"
  using assms by (auto simp: adjust_delta_def)

lemma same_name_sym: "same_name a b \<Longrightarrow> same_name b a" by (auto simp: same_name_def)

lemma same_street_sym: "same_street a b \<Longrightarrow> same_street b a"
  unfolding is_same_street2_def same_name_def by metis

lemma is_same_way_sym: "is_same_way a b \<Longrightarrow> is_same_way b a"
  using same_street_sym [of a b] by (auto simp: is_same_way_def)

lemma maneuver_category_range: "0 \<le> maneuver_category t \<and> maneuver_category t \<le> 7"
  by (simp add: maneuver_category_def)

lemma motorway_like_extended: "is_motorway_like w False \<Longrightarrow> is_motorway_like w True"
  by (auto simp: is_motorway_like_def split: if_splits)

end
