(* ===== verification/Nav_Maneuver.thy ===== *)
theory Nav_Maneuver
  imports Nav_Data
begin

text \<open>
  Whether the driver has to be told something at a junction: \<open>maneuver_required2\<close> of \<open>navigation.c\<close>,
  in the steps of its body. \<open>old\<close> is the item that leads to the junction, \<open>prevs\<close> the items before it;
  \<open>new\<close> the item that leaves it, \<open>nexts\<close> the items after that. A reason stands for the text the code
  keeps for its log; its being set ends the later tests.
\<close>

section \<open>State of the analysis\<close>

datatype man_reason =
  No_one_possibility | No_unallowed_ramp | Yes_leaving_roundabout | No_entering_roundabout | No_staying_in_roundabout
  | Yes_t_junction | Yes_delta_over_75 | Yes_similar_road | No_one_option | Yes_interchange_motorways
  | Yes_interchange_name | Yes_entering_ramp | Yes_different_street | Yes_other_candidates | No_unambiguous
  | Yes_merging | Yes_leaving_motorway

record man_scan =
  ms_m :: navigation_maneuver
  ms_dc :: int
  ms_motorways_left :: nat
  ms_motorways_right :: nat
  ms_through_segments :: nat
  ms_through_segment2 :: "navigation_way option"

definition junction_limit :: int where "junction_limit = 100"

definition man_start :: "navigation_itm \<Rightarrow> navigation_itm \<Rightarrow> navigation_maneuver" where
  "man_start old new =
     \<lparr>nm_type = type_nav_none, nm_delta = angle_delta (ni_angle_end old) (nw_angle2 (ni_way new)),
      nm_merge_or_exit = mex_none, nm_is_complex_t_junction = False, nm_num_options = 0, nm_num_new_motorways = 0,
      nm_num_other_ways = 0, nm_old_cat = maneuver_category (ni_type old), nm_new_cat = maneuver_category (ni_type new),
      nm_max_cat = -1, nm_num_similar_ways = 0, nm_left = -180, nm_right = 180, nm_is_unambiguous = True,
      nm_is_same_street = same_street (ni_way old) (ni_way new)\<rparr>"

section \<open>Cases without an analysis\<close>

definition man_only :: "vehicleprofile option \<Rightarrow> navigation_itm \<Rightarrow> man_reason option" where
  "man_only vp new =
     (case ni_ways new of
        [] \<Rightarrow> Some No_one_possibility
      | [w] \<Rightarrow>
          if nw_angle2 w = nw_angle2 (ni_way new) then Some No_one_possibility
          else if nw_type w = type_ramp \<and> \<not> is_way_allowed vp w 1 then Some No_unallowed_ramp
          else None
      | _ \<Rightarrow> None)"

definition man_roundabout :: "navigation_itm \<Rightarrow> navigation_itm \<Rightarrow> man_reason option" where
  "man_roundabout old new =
     (if has_flag (ni_flags old) AF_ROUNDABOUT \<and> \<not> has_flag (ni_flags new) AF_ROUNDABOUT then Some Yes_leaving_roundabout
      else if length (ni_ways new) = 1 \<and> \<not> has_flag (ni_flags old) AF_ROUNDABOUT \<and> has_flag (ni_flags new) AF_ROUNDABOUT
        \<and> has_flag (nw_flags (hd (ni_ways new))) AF_ROUNDABOUT then Some No_entering_roundabout
      else if has_flag (ni_flags old) AF_ROUNDABOUT \<and> has_flag (ni_flags new) AF_ROUNDABOUT then Some No_staying_in_roundabout
      else None)"

section \<open>The ways at the junction\<close>

text \<open>Another way the vehicle may take, \<open>dw\<close> its bend: nearest ways, near-straight ways, names, categories.\<close>

definition near_sides :: "int \<Rightarrow> navigation_maneuver \<Rightarrow> navigation_maneuver" where
  "near_sides dw m =
     (if dw < nm_delta m then if dw > nm_left m then m\<lparr>nm_left := dw\<rparr> else m
      else if dw < nm_right m then m\<lparr>nm_right := dw\<rparr> else m)"

definition near_straight :: "navigation_itm \<Rightarrow> navigation_way \<Rightarrow> int \<Rightarrow> navigation_maneuver \<Rightarrow> navigation_maneuver" where
  "near_straight new w dw m =
     (if dw > - min_turn_limit \<and> dw < min_turn_limit
        \<and> (maneuver_category (nw_type w) \<noteq> 0 \<or> maneuver_category (ni_type new) = 0)
      then m\<lparr>nm_is_unambiguous := False\<rparr> else m)"

definition same_street_lost :: "vehicleprofile option \<Rightarrow> navigation_itm \<Rightarrow> navigation_way \<Rightarrow> navigation_maneuver \<Rightarrow> navigation_maneuver" where
  "same_street_lost vp old w m =
     (if nm_is_same_street m \<and> same_street (ni_way old) w
        \<and> (\<not> is_motorway_like (ni_way old) False \<or> \<not> is_motorway_like w False \<and> nw_type w \<noteq> type_ramp)
        \<and> is_way_allowed vp w 2
      then m\<lparr>nm_is_same_street := False\<rparr> else m)"

definition highest_cat :: "navigation_way \<Rightarrow> navigation_maneuver \<Rightarrow> navigation_maneuver" where
  "highest_cat w m = (let wcat = maneuver_category (nw_type w) in if wcat > nm_max_cat m then m\<lparr>nm_max_cat := wcat\<rparr> else m)"

definition scan_other ::
  "vehicleprofile option \<Rightarrow> navigation_itm \<Rightarrow> navigation_itm \<Rightarrow> navigation_way \<Rightarrow> int \<Rightarrow> man_scan \<Rightarrow> man_scan" where
  "scan_other vp old new w dw st =
     (let m = ms_m st; delta = nm_delta m;
          st = (if is_motorway_like w False \<and> is_motorway_like (ni_way old) False \<and> ni_type new = type_ramp then
                  if dw < delta then st\<lparr>ms_motorways_left := ms_motorways_left st + 1\<rparr>
                  else st\<lparr>ms_motorways_right := ms_motorways_right st + 1\<rparr>
                else st);
          st = (if dw < 0 then
                  if dw > - min_turn_limit \<and> delta < 0 \<and> delta > - min_turn_limit then st\<lparr>ms_dc := dw\<rparr> else st
                else if dw < min_turn_limit \<and> delta > 0 \<and> delta < min_turn_limit then st\<lparr>ms_dc := dw\<rparr> else st)
      in st\<lparr>ms_m := highest_cat w (same_street_lost vp old w (near_straight new w dw (near_sides dw m)))\<rparr>)"

text \<open>Whether a motorway counts beside the others: not when all carry the same number and none is an exit.\<close>

definition counts_as_motorway :: "navigation_itm \<Rightarrow> navigation_itm \<Rightarrow> bool \<Rightarrow> navigation_way \<Rightarrow> bool" where
  "counts_as_motorway old new is_new w \<longleftrightarrow>
     is_new \<or> nw_exit_ref (ni_way new) \<noteq> None \<or> nw_exit_label (ni_way new) \<noteq> None \<or> nw_exit_ref w \<noteq> None
     \<or> nw_exit_label w \<noteq> None \<or> nw_name_systematic (ni_way old) = None \<or> nw_name_systematic (ni_way new) = None
     \<or> nw_name_systematic w = None \<or> nw_name_systematic (ni_way old) \<noteq> nw_name_systematic (ni_way new)
     \<or> nw_name_systematic (ni_way old) \<noteq> nw_name_systematic w"

definition count_similar :: "navigation_way \<Rightarrow> navigation_maneuver \<Rightarrow> navigation_maneuver" where
  "count_similar w m = (if maneuver_category (nw_type w) = nm_old_cat m
     then m\<lparr>nm_num_similar_ways := nm_num_similar_ways m + 1\<rparr> else m)"

definition count_motorways :: "navigation_itm \<Rightarrow> navigation_itm \<Rightarrow> bool \<Rightarrow> navigation_way \<Rightarrow> navigation_maneuver \<Rightarrow> navigation_maneuver" where
  "count_motorways old new is_new w m =
     (if nm_num_new_motorways m < 2 \<and> is_motorway_like w False then
        if counts_as_motorway old new is_new w then m\<lparr>nm_num_new_motorways := nm_num_new_motorways m + 1\<rparr> else m
      else if \<not> is_motorway_like w True then m\<lparr>nm_num_other_ways := nm_num_other_ways m + 1\<rparr> else m)"

definition scan_allowed ::
  "vehicleprofile option \<Rightarrow> navigation_itm \<Rightarrow> navigation_itm \<Rightarrow> bool \<Rightarrow> navigation_way \<Rightarrow> int \<Rightarrow> man_scan \<Rightarrow> man_scan" where
  "scan_allowed vp old new is_new w dw st =
     (let m = (ms_m st)\<lparr>nm_num_options := nm_num_options (ms_m st) + 1\<rparr>;
          st = st\<lparr>ms_m := count_motorways old new is_new w (count_similar w m)\<rparr>
      in if is_new then st else scan_other vp old new w dw st)"

text \<open>A way in the wrong direction: when merging it shows on which side the motorway is.\<close>

definition scan_blocked :: "navigation_itm \<Rightarrow> navigation_itm \<Rightarrow> navigation_way \<Rightarrow> int \<Rightarrow> man_scan \<Rightarrow> man_scan" where
  "scan_blocked old new w dw st =
     (if is_motorway_like w False \<and> is_motorway_like (ni_way new) False \<and> ni_type old = type_ramp then
        if dw < 0 then st\<lparr>ms_motorways_left := ms_motorways_left st + 1\<rparr>
        else st\<lparr>ms_motorways_right := ms_motorways_right st + 1\<rparr>
      else st)"

text \<open>One-way segments of the road the route turns into, for dual carriageways.\<close>

definition through_bend :: "navigation_itm \<Rightarrow> navigation_way \<Rightarrow> int" where
  "through_bend new w = \<bar>angle_delta (angle_opposite (nw_angle2 w)) (nw_angle2 (ni_way new))\<bar>"

definition scan_through :: "navigation_itm \<Rightarrow> navigation_way \<Rightarrow> man_scan \<Rightarrow> man_scan" where
  "scan_through new w st =
     (if has_flag (nw_flags w) AF_ONEWAYMASK then
        if same_street (ni_way new) w then st\<lparr>ms_through_segments := ms_through_segments st + 1\<rparr>
        else (case ms_through_segment2 st of
            None \<Rightarrow> if through_bend new w < min_turn_limit
              then st\<lparr>ms_through_segments := ms_through_segments st + 1, ms_through_segment2 := Some w\<rparr> else st
          | Some s \<Rightarrow> if through_bend new w < through_bend new s then st\<lparr>ms_through_segment2 := Some w\<rparr> else st)
      else st)"

definition scan_way ::
  "vehicleprofile option \<Rightarrow> navigation_itm \<Rightarrow> navigation_itm \<Rightarrow> bool \<Rightarrow> navigation_way \<Rightarrow> man_scan \<Rightarrow> man_scan" where
  "scan_way vp old new is_new w st =
     (if nw_angle2 w \<noteq> nw_angle2 (ni_way new) \<or> is_new then
        let dw = angle_delta (ni_angle_end old) (nw_angle2 w);
            st = (if is_way_allowed vp w 1 then scan_allowed vp old new is_new w dw st else scan_blocked old new w dw st)
        in scan_through new w st
      else st)"

definition scan_ways :: "vehicleprofile option \<Rightarrow> navigation_itm \<Rightarrow> navigation_itm \<Rightarrow> navigation_maneuver \<Rightarrow> man_scan" where
  "scan_ways vp old new m =
     fold (scan_way vp old new False) (ni_ways new)
       (scan_way vp old new True (ni_way new)
         \<lparr>ms_m = m, ms_dc = nm_delta m, ms_motorways_left = 0, ms_motorways_right = 0, ms_through_segments = 0,
          ms_through_segment2 = None\<rparr>)"

section \<open>T junctions with a dual carriageway\<close>

definition through_count :: "navigation_itm \<Rightarrow> navigation_way option \<Rightarrow> navigation_itm \<Rightarrow> nat" where
  "through_count new seg2 ni = length (filter (\<lambda>w. same_street (ni_way new) w
     \<or> (case seg2 of None \<Rightarrow> False | Some s \<Rightarrow> same_street s w)) (ni_ways ni))"

fun hist_through :: "navigation_itm \<Rightarrow> navigation_way option \<Rightarrow> int \<Rightarrow> nat \<Rightarrow> navigation_itm list \<Rightarrow> nat" where
  "hist_through new seg2 d hist [] = hist"
| "hist_through new seg2 d hist (ni # ps) =
     (if hist = 0 \<and> d \<le> junction_limit then
        hist_through new seg2 (case ps of [] \<Rightarrow> d | p # _ \<Rightarrow> d + ni_length p) (hist + through_count new seg2 ni) ps
      else hist)"

definition man_t_junction :: "navigation_itm \<Rightarrow> navigation_itm list \<Rightarrow> navigation_itm \<Rightarrow> man_scan \<Rightarrow> bool" where
  "man_t_junction old prevs new st \<longleftrightarrow> \<bar>nm_delta (ms_m st)\<bar> \<ge> min_turn_limit \<and> ms_through_segments st \<ge> 2
     \<and> hist_through new (ms_through_segment2 st) (ni_length old) 0 (old # prevs) \<ge> 2"

section \<open>The tests after the scan\<close>

text \<open>The part between the scan and the test of ambiguity: reason, whether to announce, and the maneuver.\<close>

type_synonym man_verdict = "man_reason option \<times> bool \<times> navigation_maneuver"

definition man_turn :: "man_verdict \<Rightarrow> man_verdict" where
  "man_turn v = (case v of (r, ret, m) \<Rightarrow>
     if r = None \<and> \<bar>nm_delta m\<bar> > 75 then (Some Yes_delta_over_75, True, m)
     else if r = None \<and> \<bar>nm_delta m\<bar> \<ge> min_turn_limit then
       if nm_new_cat m \<ge> maneuver_category type_street_2_city \<and> nm_num_similar_ways m > 1
       then (Some Yes_similar_road, True, m) else v
     else v)"

definition man_one_option :: "man_verdict \<Rightarrow> man_verdict" where
  "man_one_option v = (case v of (r, ret, m) \<Rightarrow>
     if r = None \<and> nm_num_options m \<le> 1 then (Some No_one_option, ret, m) else v)"

definition man_motorway :: "navigation_itm \<Rightarrow> navigation_itm \<Rightarrow> man_verdict \<Rightarrow> man_verdict" where
  "man_motorway old new v = (case v of (r, ret, m) \<Rightarrow>
     if r \<noteq> None then v
     else if is_motorway_like (ni_way old) False \<and> nm_num_other_ways m = 0 \<and> nm_num_new_motorways m > 1
        \<and> (nm_left m > -90 \<or> nm_right m < 90)
     then (Some Yes_interchange_motorways, True, m\<lparr>nm_merge_or_exit := mex_interchange\<rparr>)
     else if is_motorway_like (ni_way old) False \<and> is_motorway_like (ni_way new) False \<and> nm_num_other_ways m = 0
        \<and> \<not> nm_is_same_street m
     then (Some Yes_interchange_name, True, m\<lparr>nm_merge_or_exit := mex_interchange\<rparr>)
     else if ni_type new = type_ramp \<and> (nm_num_other_ways m = 0 \<or> \<bar>nm_delta m\<bar> \<ge> min_turn_limit)
        \<and> (nm_left m > -90 \<or> nm_right m < 90)
     then (Some Yes_entering_ramp, True, m)
     else v)"

definition man_dlim :: "navigation_maneuver \<Rightarrow> int" where
  "man_dlim m =
     (let dlim = (if nm_new_cat m < nm_old_cat m then 80 else 120);
          dlim = (if \<bar>nm_delta m\<bar> < 20 then dlim div 2 else dlim)
      in if nm_max_cat m = nm_new_cat m \<and> nm_max_cat m = nm_old_cat m \<or> nm_new_cat m = 0 \<and> nm_old_cat m = 0
         then \<bar>nm_delta m\<bar> * 620 div 256
         else if nm_max_cat m < nm_new_cat m \<and> nm_max_cat m < nm_old_cat m then \<bar>nm_delta m\<bar> * 128 div 256
         else dlim)"

definition man_ambiguous :: "int \<Rightarrow> man_verdict \<Rightarrow> man_verdict" where
  "man_ambiguous dc v = (case v of (r, ret, m) \<Rightarrow>
     if r \<noteq> None then v
     else (let m = (if nm_left m \<ge> - man_dlim m \<or> nm_right m \<le> man_dlim m then m\<lparr>nm_is_unambiguous := False\<rparr> else m);
               m = (if dc \<noteq> nm_delta m then m\<lparr>nm_is_unambiguous := False\<rparr> else m)
           in if \<not> nm_is_same_street m \<and> \<not> nm_is_unambiguous m then (Some Yes_different_street, True, m)
              else if nm_max_cat m \<ge> nm_new_cat m \<and> \<not> nm_is_unambiguous m then (Some Yes_other_candidates, True, m)
              else (Some No_unambiguous, ret, m)))"

section \<open>Merging and exits\<close>

text \<open>Back over the ramps: do all their junctions only connect motorways and ramps?\<close>

fun coming_loop :: "bool \<Rightarrow> navigation_itm list \<Rightarrow> bool \<times> navigation_itm list" where
  "coming_loop coming [] = (coming, [])"
| "coming_loop coming (ni # ps) =
     (if coming \<and> ni_type ni = type_ramp then coming_loop (list_all (\<lambda>w. is_motorway_like w True) (ni_way ni # ni_ways ni)) ps
      else (coming, ni # ps))"

definition coming_from_motorway :: "navigation_itm list \<Rightarrow> bool" where
  "coming_from_motorway olds = (case coming_loop True olds of
       (coming, ni # _) \<Rightarrow> if coming then is_motorway_like (ni_way ni) False else coming
     | (coming, []) \<Rightarrow> coming)"

fun leaves_loop :: "bool \<Rightarrow> navigation_itm list \<Rightarrow> bool \<times> navigation_itm list" where
  "leaves_loop leaves [] = (leaves, [])"
| "leaves_loop leaves (ni # ns) =
     (if \<not> leaves \<and> ni_type ni = type_ramp then leaves_loop (list_ex (\<lambda>w. \<not> is_motorway_like w True) (ni_way ni # ni_ways ni)) ns
      else (leaves, ni # ns))"

definition man_merge :: "navigation_itm \<Rightarrow> navigation_itm \<Rightarrow> nat \<Rightarrow> nat \<Rightarrow> man_verdict \<Rightarrow> man_verdict" where
  "man_merge old new lefts rights v = (case v of (r, ret, m) \<Rightarrow>
     let m = (if lefts > 0 then m\<lparr>nm_merge_or_exit := mex_merge_left\<rparr>
              else if rights > 0 then m\<lparr>nm_merge_or_exit := mex_merge_right\<rparr> else m)
     in if nm_merge_or_exit m \<noteq> mex_none then (if r = None then Some Yes_merging else r, True, m) else (r, ret, m))"

definition man_exit ::
  "navigation_itm \<Rightarrow> navigation_itm list \<Rightarrow> navigation_itm \<Rightarrow> navigation_itm list \<Rightarrow> nat \<Rightarrow> nat \<Rightarrow> man_verdict \<Rightarrow> man_verdict" where
  "man_exit old prevs new nexts lefts rights v = (case v of (r, ret, m) \<Rightarrow>
     let coming = coming_from_motorway (old # prevs);
         (leaves, rest) = leaves_loop (\<not> coming) nexts;
         m = (if rest \<noteq> [] \<and> \<not> leaves \<and> is_motorway_like (ni_way (hd rest)) False then m\<lparr>nm_merge_or_exit := mex_interchange\<rparr>
              else if is_motorway_like (ni_way old) False \<or> coming \<and> nw_exit_ref (ni_way new) \<noteq> None then
                if lefts > 0 \<and> nm_left m > -90 then m\<lparr>nm_merge_or_exit := mex_exit_right\<rparr>
                else if rights > 0 \<and> nm_right m < 90 then m\<lparr>nm_merge_or_exit := mex_exit_left\<rparr> else m
              else m)
     in if is_motorway_like (ni_way old) False \<and> nm_merge_or_exit m \<noteq> mex_none
        then (if r = None then Some Yes_leaving_motorway else r, True, m) else (r, ret, m))"

definition man_junction ::
  "navigation_itm \<Rightarrow> navigation_itm list \<Rightarrow> navigation_itm \<Rightarrow> navigation_itm list \<Rightarrow> nat \<Rightarrow> nat \<Rightarrow> man_verdict \<Rightarrow> man_verdict" where
  "man_junction old prevs new nexts lefts rights v =
     (if nm_merge_or_exit (snd (snd v)) = mex_none then
        if ni_type old = type_ramp \<and> is_motorway_like (ni_way new) False then man_merge old new lefts rights v
        else if is_motorway_like (ni_way old) True \<and> ni_type new = type_ramp then man_exit old prevs new nexts lefts rights v
        else v
      else v)"

section \<open>The function\<close>

definition man_scanned ::
  "vehicleprofile option \<Rightarrow> navigation_itm \<Rightarrow> navigation_itm list \<Rightarrow> navigation_itm \<Rightarrow> man_verdict \<times> man_scan" where
  "man_scanned vp old prevs new =
     (let m = man_start old new;
          idle = \<lparr>ms_m = m, ms_dc = nm_delta m, ms_motorways_left = 0, ms_motorways_right = 0, ms_through_segments = 0,
                  ms_through_segment2 = None\<rparr>
      in case man_only vp new of
           Some r \<Rightarrow> ((Some r, False, m), idle)
         | None \<Rightarrow> (case man_roundabout old new of
             Some r \<Rightarrow> ((Some r, r = Yes_leaving_roundabout, m), idle)
           | None \<Rightarrow> (let st = scan_ways vp old new m
               in if man_t_junction old prevs new st
                  then ((Some Yes_t_junction, True, (ms_m st)\<lparr>nm_is_complex_t_junction := True\<rparr>), st)
                  else ((None, False, ms_m st), st))))"

definition maneuver_verdict ::
  "vehicleprofile option \<Rightarrow> navigation_itm \<Rightarrow> navigation_itm list \<Rightarrow> navigation_itm \<Rightarrow> navigation_itm list \<Rightarrow> man_verdict" where
  "maneuver_verdict vp old prevs new nexts = (case man_scanned vp old prevs new of (v, st) \<Rightarrow>
     man_junction old prevs new nexts (ms_motorways_left st) (ms_motorways_right st)
       (man_ambiguous (ms_dc st) (man_motorway old new (man_one_option (man_turn v)))))"

definition maneuver_required2 ::
  "vehicleprofile option \<Rightarrow> navigation_itm \<Rightarrow> navigation_itm list \<Rightarrow> navigation_itm \<Rightarrow> navigation_itm list
    \<Rightarrow> navigation_maneuver option" where
  "maneuver_required2 vp old prevs new nexts = (case maneuver_verdict vp old prevs new nexts of
     (r, ret, m) \<Rightarrow> if ret then Some m else None)"

end
