(* ===== verification/Nav_Command.thy ===== *)
theory Nav_Command
  imports Nav_Maneuver Geom_Transform
begin

text \<open>
  Commands of \<open>navigation.c\<close>: the ways as the map has them, the analysis of a roundabout, and the type of
  a command. The map, the distance of two points and the bearing of a difference are parameters.
\<close>

section \<open>The surroundings\<close>

text \<open>
  What the map driver answers for an item: nothing when it is not found. Names are those after the
  conversion of the map's character set.
\<close>

record map_street =
  mst_type :: int
  mst_flags :: "32 word option"
  mst_name :: "string option"
  mst_name_systematic :: "string option"
  mst_destination :: "string option"
  mst_destination_forward :: "string option"
  mst_destination_backward :: "string option"
  mst_coords :: "coord list"

record nav_env =
  ne_at2 :: "int \<Rightarrow> int \<Rightarrow> rat"
  ne_distance :: "coord \<Rightarrow> coord \<Rightarrow> rat"
  ne_street :: "item \<Rightarrow> map_street option"
  ne_vehicleprofile :: "vehicleprofile option"

definition road_angle :: "nav_env \<Rightarrow> coord \<Rightarrow> coord \<Rightarrow> int \<Rightarrow> int" where
  "road_angle env c1 c2 d = transform_get_angle_delta (ne_at2 env) c1 c2 d"

definition is_line_type :: "int \<Rightarrow> bool" where
  "is_line_type t \<longleftrightarrow> 0x80000000 \<le> t \<and> t < type_area"

definition navigation_way_init :: "nav_env \<Rightarrow> navigation_way \<Rightarrow> navigation_way" where
  "navigation_way_init env w = (let w = w\<lparr>nw_angle2 := INVALID_ANGLE\<rparr> in
     case ne_street env (nw_item w) of
       None \<Rightarrow> w
     | Some s \<Rightarrow>
         if \<not> is_line_type (mst_type s) then w
         else (let w = w\<lparr>nw_flags := (case mst_flags s of Some f \<Rightarrow> f | None \<Rightarrow> 0), nw_name := mst_name s,
                         nw_name_systematic := mst_name_systematic s\<rparr>
           in case mst_coords s of
                a # b # cs \<Rightarrow>
                  if nw_dir w < 0 then
                    let r = rev (a # b # cs) in w\<lparr>nw_angle2 := road_angle env (r ! 0) (r ! 1) 0\<rparr>
                  else w\<lparr>nw_angle2 := road_angle env a b 0\<rparr>
              | _ \<Rightarrow> w))"

section \<open>The greatest bend of a way\<close>

fun way_length :: "nav_env \<Rightarrow> rat \<Rightarrow> coord \<Rightarrow> coord list \<Rightarrow> rat" where
  "way_length env d p [] = d"
| "way_length env d p (c # cs) = way_length env (dround (d + ne_distance env p c)) c cs"

fun max_delta_loop :: "nav_env \<Rightarrow> int \<Rightarrow> int \<Rightarrow> int \<Rightarrow> rat \<Rightarrow> int \<Rightarrow> coord \<Rightarrow> coord list \<Rightarrow> int" where
  "max_delta_loop env wdir angle eff_dir dist_left ret p [] = ret"
| "max_delta_loop env wdir angle eff_dir dist_left ret p (c # cs) =
     (if eff_dir > 0 \<and> dist_left \<le> 0 then ret
      else (let dist_left = dround (dist_left - ne_distance env p c)
        in if eff_dir < 0 \<and> dist_left > 0 then max_delta_loop env wdir angle eff_dir dist_left ret c cs
           else (let tmp_delta = angle_delta angle (road_angle env p c wdir);
                     ret = (if ret = INVALID_ANGLE \<or> \<bar>ret\<bar> < \<bar>tmp_delta\<bar> \<or> \<bar>ret\<bar> = \<bar>tmp_delta\<bar> \<and> eff_dir < 0
                            then tmp_delta else ret)
             in max_delta_loop env wdir angle eff_dir dist_left ret c cs)))"

definition navigation_way_get_max_delta :: "nav_env \<Rightarrow> navigation_way \<Rightarrow> int \<Rightarrow> int \<Rightarrow> int \<Rightarrow> int" where
  "navigation_way_get_max_delta env w angle d direction = (case ne_street env (nw_item w) of
       None \<Rightarrow> INVALID_ANGLE
     | Some s \<Rightarrow>
         if \<not> is_line_type (mst_type s) then INVALID_ANGLE
         else (case mst_coords s of
             [] \<Rightarrow> INVALID_ANGLE
           | c # cs \<Rightarrow>
               let eff_dir = direction * nw_dir w;
                   dist_left = (if eff_dir < 0 then
                       let l = way_length env 0 c cs in if l > of_int d then dround (l - of_int d) else 0
                     else of_int d)
               in max_delta_loop env (nw_dir w) angle eff_dir dist_left INVALID_ANGLE c cs))"

section \<open>Roundabouts\<close>

definition ROUNDABOUT_EXTRA_LENGTH :: int where "ROUNDABOUT_EXTRA_LENGTH = 50"

definition roundabout_way :: "navigation_itm \<Rightarrow> navigation_way option" where
  "roundabout_way itm = find (\<lambda>w. has_flag (nw_flags w) AF_ROUNDABOUT) (ni_ways itm)"

text \<open>Back to the item on which the roundabout is entered: it, the items before it, length and angle.\<close>

fun enter_roundabout ::
  "navigation_itm \<Rightarrow> navigation_itm list \<Rightarrow> int \<Rightarrow> int \<Rightarrow> navigation_itm \<times> navigation_itm list \<times> int \<times> int" where
  "enter_roundabout itm2 [] len angle = (itm2, [], len, angle)"
| "enter_roundabout itm2 (p # ps) len angle =
     (if has_flag (ni_flags p) AF_ROUNDABOUT then enter_roundabout p ps (i32 (len + ni_length p)) (ni_angle_end p)
      else (itm2, p # ps, len, angle))"

definition wider :: "int \<Rightarrow> int \<Rightarrow> int" where
  "wider d dmax = (if d \<noteq> INVALID_ANGLE \<and> \<bar>d\<bar> > \<bar>dmax\<bar> then d else dmax)"

text \<open>
  The approach before the roundabout: \<open>nx\<close> follows \<open>itm3\<close>, \<open>ref\<close> is the angle at its end. The
  result is the last item, the distance left and the greatest bend so far.
\<close>

fun approach_before ::
  "nav_env \<Rightarrow> int \<Rightarrow> navigation_itm \<Rightarrow> navigation_itm \<Rightarrow> navigation_itm list \<Rightarrow> int \<Rightarrow> int \<Rightarrow> navigation_itm \<times> int \<times> int" where
  "approach_before env ref nx itm3 [] dist_left dmax = (itm3, dist_left, dmax)"
| "approach_before env ref nx itm3 (p # ps) dist_left dmax =
     (if is_ramp (ni_way nx) \<and> \<not> is_ramp (ni_way itm3) \<or> \<not> has_flag (ni_flags itm3) AF_ONEWAYMASK then (itm3, 0, dmax)
      else if dist_left \<le> ni_length itm3 then (itm3, dist_left, dmax)
      else (let dmax = wider (navigation_way_get_max_delta env (ni_way itm3) ref dist_left (-1)) dmax
        in if list_ex (\<lambda>w2. is_way_allowed (ne_vehicleprofile env) w2 0
               \<and> \<bar>angle_delta (angle_opposite (nw_angle2 w2)) (nw_angle2 (ni_way itm3))\<bar>
                 \<le> \<bar>angle_delta (ni_angle_end p) (nw_angle2 (ni_way itm3))\<bar>) (ni_ways itm3)
           then (itm3, ni_length itm3, dmax)
           else approach_before env ref itm3 p ps (dist_left - ni_length itm3) dmax))"

fun approach_after ::
  "nav_env \<Rightarrow> int \<Rightarrow> navigation_itm \<Rightarrow> navigation_itm \<Rightarrow> navigation_itm list \<Rightarrow> int \<Rightarrow> int \<Rightarrow> navigation_itm \<times> int \<times> int" where
  "approach_after env ref pv itm3 [] dist_left dmax = (itm3, dist_left, dmax)"
| "approach_after env ref pv itm3 (n # ns) dist_left dmax =
     (if is_ramp (ni_way pv) \<and> \<not> is_ramp (ni_way itm3) \<or> \<not> has_flag (ni_flags itm3) AF_ONEWAYMASK then (itm3, 0, dmax)
      else if dist_left \<le> ni_length itm3 then (itm3, dist_left, dmax)
      else (let dmax = wider (navigation_way_get_max_delta env (ni_way itm3) ref dist_left 1) dmax
        in if list_ex (\<lambda>w2. is_way_allowed (ne_vehicleprofile env) w2 0
               \<and> \<bar>angle_delta (ni_angle_end itm3) (nw_angle2 w2)\<bar>
                 \<le> \<bar>angle_delta (ni_angle_end itm3) (nw_angle2 (ni_way n))\<bar>) (ni_ways n)
           then (itm3, ni_length itm3, dmax)
           else approach_after env ref itm3 n ns (dist_left - ni_length itm3) dmax))"

text \<open>The bend of the whole approach, and the angle of the road where it begins or ends.\<close>

definition entry_road_angle :: "nav_env \<Rightarrow> navigation_itm \<Rightarrow> navigation_itm \<Rightarrow> navigation_itm list \<Rightarrow> int \<Rightarrow> int" where
  "entry_road_angle env itm2 p ps dist_left =
     (let ref = ni_angle_end p;
          (itm3, dist_left, dmax) = approach_before env ref itm2 p ps dist_left 0;
          d = (if dist_left = 0 then angle_delta ref (ni_angle_end itm3)
               else if dist_left < ni_length itm3 then navigation_way_get_max_delta env (ni_way itm3) ref dist_left (-1)
               else angle_delta ref (nw_angle2 (ni_way itm3)))
      in Navit_Prelude.cmod (ref + wider d dmax) 360)"

definition exit_road_angle :: "nav_env \<Rightarrow> navigation_itm \<Rightarrow> navigation_itm \<Rightarrow> navigation_itm list \<Rightarrow> int \<Rightarrow> int" where
  "exit_road_angle env pv itm nexts dist_left =
     (let ref = nw_angle2 (ni_way itm);
          (itm3, dist_left, dmax) = approach_after env ref pv itm nexts dist_left 0;
          d = (if dist_left = 0 then angle_delta ref (nw_angle2 (ni_way itm3))
               else if dist_left < ni_length itm3 then navigation_way_get_max_delta env (ni_way itm3) ref dist_left 1
               else angle_delta ref (ni_angle_end itm3))
      in Navit_Prelude.cmod (ref + wider d dmax) 360)"

definition roundabout_types :: "int \<Rightarrow> int \<times> int" where
  "roundabout_types delta = (let k = cdiv (180 + 22 - delta) 45 in
     if k = 0 \<or> k = 1 then (type_nav_roundabout_r 1, type_nav_roundabout_l 7)
     else if 2 \<le> k \<and> k \<le> 7 then (type_nav_roundabout_r k, type_nav_roundabout_l (8 - k))
     else if k = 8 then (type_nav_roundabout_r 8, type_nav_roundabout_l 8)
     else (type_none, type_none))"

text \<open>Delta to stay in the roundabout, effective delta and length; \<open>pv\<close> is the last item on the roundabout.\<close>

definition roundabout_deltas ::
  "nav_env \<Rightarrow> int \<Rightarrow> navigation_itm \<Rightarrow> navigation_itm list \<Rightarrow> navigation_itm \<Rightarrow> navigation_itm list \<Rightarrow> int \<times> int \<times> int" where
  "roundabout_deltas env delta pv prevs itm nexts = (case roundabout_way itm of
       None \<Rightarrow> (0, 0, 0)
     | Some w \<Rightarrow>
         let dtsir = angle_delta (ni_angle_end pv) (nw_angle2 w);
             exit_tangent = angle_median (ni_angle_end pv) (nw_angle2 w);
             (itm2, before, len, angle) = enter_roundabout itm (pv # prevs) 0 0;
             entry_tangent = (case roundabout_way itm2 of
                 Some w2 \<Rightarrow> angle_median (angle_opposite (nw_angle2 (ni_way itm2))) (nw_angle2 w2)
               | None \<Rightarrow> angle_opposite angle);
             delta2 = angle_delta entry_tangent exit_tangent
         in case before of
              [] \<Rightarrow> (dtsir, delta2, i32 (len + ROUNDABOUT_EXTRA_LENGTH))
            | p # ps \<Rightarrow>
                let delta1 = adjust_delta (angle_delta (ni_angle_end p) (nw_angle2 (ni_way itm))) delta2;
                    central_angle = \<bar>cdiv (delta1 + delta2) 2 + (if delta < dtsir then 180 else -180)\<bar>;
                    roundabout_length = (if central_angle \<noteq> 0 then cdiv (i32 (len * 360)) central_angle else len);
                    entry = entry_road_angle env itm2 p ps (cdiv roundabout_length 2);
                    exit = exit_road_angle env pv itm nexts (cdiv roundabout_length 2)
                in (dtsir, adjust_delta (angle_delta entry exit) delta2, i32 (len + ROUNDABOUT_EXTRA_LENGTH)))"

definition navigation_analyze_roundabout ::
  "nav_env \<Rightarrow> navigation_command \<Rightarrow> navigation_itm \<Rightarrow> navigation_itm list \<Rightarrow> navigation_itm \<Rightarrow> navigation_itm list \<Rightarrow> navigation_command" where
  "navigation_analyze_roundabout env cmd pv prevs itm nexts =
     (let (dtsir, rd, len) = roundabout_deltas env (nc_delta cmd) pv prevs itm nexts;
          (r, l) = roundabout_types rd
      in cmd\<lparr>nc_roundabout_delta := rd, nc_length := len,
             nc_maneuver := (nc_maneuver cmd)\<lparr>nm_type := (if nc_delta cmd < dtsir then l else r)\<rparr>\<rparr>)"

section \<open>The type of a command\<close>

text \<open>The ways of the following junction: those that turn to the side, and those of them beyond the turn.\<close>

definition strength_counts :: "int \<Rightarrow> navigation_itm \<Rightarrow> navigation_itm \<Rightarrow> nat \<times> nat" where
  "strength_counts delta itm nx =
     (let d = (\<lambda>w. angle_delta (nw_angle2 w) (ni_angle_end itm));
          same = (if angle_delta (nw_angle2 (ni_way nx)) (ni_angle_end itm) < 0 then (\<lambda>w. d w < - min_turn_limit) else (\<lambda>w. d w > min_turn_limit));
          beyond = (if angle_delta (nw_angle2 (ni_way nx)) (ni_angle_end itm) < 0 then (\<lambda>w. d w < delta) else (\<lambda>w. d w > delta));
          ws = filter same (ni_ways nx)
      in (length ws, length (filter beyond ws)))"

definition turn_plain :: "int \<Rightarrow> int" where
  "turn_plain delta =
     (if delta < - sharp_turn_limit then type_nav_left_3
      else if delta \<le> 0 then type_nav_left_2
      else if delta \<le> sharp_turn_limit then type_nav_right_2
      else type_nav_right_3)"

definition turn_easy :: "int \<Rightarrow> int" where
  "turn_easy delta =
     (if delta < - turn_2_limit then type_nav_left_2
      else if delta \<le> 0 then type_nav_left_1
      else if delta \<le> turn_2_limit then type_nav_right_1
      else type_nav_right_2)"

definition turn_strong :: "int \<Rightarrow> int" where
  "turn_strong delta =
     (if delta < - u_turn_limit then type_nav_turnaround_left
      else if delta < - sharp_turn_limit then type_nav_left_3
      else if delta \<le> 0 then type_nav_left_2
      else if delta \<le> sharp_turn_limit then type_nav_right_2
      else if delta \<le> u_turn_limit then type_nav_right_3
      else type_nav_turnaround_right)"

definition turn_type :: "int \<Rightarrow> nat \<times> nat \<Rightarrow> int" where
  "turn_type delta counts = (case counts of (more_ways_for_strength, turn_no_of_route_way) \<Rightarrow>
     if more_ways_for_strength = 0 then turn_plain delta
     else if more_ways_for_strength = 1 then
       if turn_no_of_route_way = 0 then turn_easy delta else turn_plain delta
     else if turn_no_of_route_way = 0 then turn_easy delta
     else if turn_no_of_route_way = 1 then turn_plain delta
     else turn_strong delta)"

definition straight_type :: "navigation_maneuver \<Rightarrow> int" where
  "straight_type m =
     (let has_left_neighbor = nm_left m - nm_delta m > 2 * - min_turn_limit;
          has_right_neighbor = nm_right m - nm_delta m < 2 * min_turn_limit
      in if has_left_neighbor \<noteq> has_right_neighbor then
           if has_left_neighbor then type_nav_keep_right else type_nav_keep_left
         else type_nav_straight)"

text \<open>
  \<open>None\<close> is the read through \<open>itm->next\<close> where the list ends. The new command is put at the end of the
  list by the caller.
\<close>

definition command_new ::
  "nav_env \<Rightarrow> navigation_itm list \<Rightarrow> navigation_itm \<Rightarrow> navigation_itm list \<Rightarrow> navigation_maneuver \<Rightarrow> navigation_command option" where
  "command_new env prevs itm nexts maneuver =
     (let ret = \<lparr>nc_itm = ni_addr itm, nc_delta = nm_delta maneuver, nc_roundabout_delta = 0, nc_length = 0, nc_maneuver = maneuver\<rparr>
      in if nm_type maneuver = type_nav_destination then Some ret
         else if prevs \<noteq> [] \<and> \<not> has_flag (ni_flags itm) AF_ROUNDABOUT \<and> has_flag (ni_flags (hd prevs)) AF_ROUNDABOUT
         then Some (navigation_analyze_roundabout env ret (hd prevs) (tl prevs) itm nexts)
         else if \<bar>nm_delta maneuver\<bar> \<ge> min_turn_limit then
           (case nexts of
              [] \<Rightarrow> None
            | n # _ \<Rightarrow> Some (ret\<lparr>nc_maneuver := maneuver\<lparr>nm_type := turn_type (nm_delta maneuver) (strength_counts (nm_delta maneuver) itm n)\<rparr>\<rparr>))
         else Some (ret\<lparr>nc_maneuver := maneuver\<lparr>nm_type := straight_type maneuver\<rparr>\<rparr>))"

end
