(* ===== verification/Nav_Maneuver_Spec.thy ===== *)
theory Nav_Maneuver_Spec
  imports Nav_Command
begin

text \<open>
  When the driver is told about a junction and when not, and what the command is: the scan of the ways
  against its declarative reading, the cases in which a maneuver is always made, what silence means, and
  the types of turns and roundabout exits.
\<close>

named_theorems man_stage \<open>the stages of the analysis\<close>

lemmas [man_stage] = man_turn_def man_one_option_def man_motorway_def man_ambiguous_def man_junction_def man_merge_def
  man_exit_def

section \<open>The scan of the ways\<close>

definition way_delta :: "navigation_itm \<Rightarrow> navigation_way \<Rightarrow> int" where
  "way_delta old w = angle_delta (ni_angle_end old) (nw_angle2 w)"

text \<open>The other ways the vehicle may take, less those that lie on the route.\<close>

definition other_ways :: "vehicleprofile option \<Rightarrow> navigation_itm \<Rightarrow> navigation_way list" where
  "other_ways vp new = filter (\<lambda>w. nw_angle2 w \<noteq> nw_angle2 (ni_way new) \<and> is_way_allowed vp w 1) (ni_ways new)"

lemma ms_m_through [simp]: "ms_m (scan_through new w st) = ms_m st"
  by (simp add: scan_through_def split: option.split)

lemma ms_m_blocked [simp]: "ms_m (scan_blocked old new w dw st) = ms_m st"
  by (simp add: scan_blocked_def)

lemma near_sides_fields [simp]:
  "nm_delta (near_sides dw m) = nm_delta m" "nm_type (near_sides dw m) = nm_type m"
  "nm_merge_or_exit (near_sides dw m) = nm_merge_or_exit m" "nm_old_cat (near_sides dw m) = nm_old_cat m"
  "nm_new_cat (near_sides dw m) = nm_new_cat m" "nm_num_options (near_sides dw m) = nm_num_options m"
  "nm_left (near_sides dw m) = (if dw < nm_delta m then max (nm_left m) dw else nm_left m)"
  "nm_right (near_sides dw m) = (if dw < nm_delta m then nm_right m else min (nm_right m) dw)"
  "nm_max_cat (near_sides dw m) = nm_max_cat m"
  by (simp_all add: near_sides_def)

lemma near_straight_fields [simp]:
  "nm_delta (near_straight new w dw m) = nm_delta m" "nm_type (near_straight new w dw m) = nm_type m"
  "nm_merge_or_exit (near_straight new w dw m) = nm_merge_or_exit m" "nm_old_cat (near_straight new w dw m) = nm_old_cat m"
  "nm_new_cat (near_straight new w dw m) = nm_new_cat m" "nm_num_options (near_straight new w dw m) = nm_num_options m"
  "nm_left (near_straight new w dw m) = nm_left m" "nm_right (near_straight new w dw m) = nm_right m"
  "nm_max_cat (near_straight new w dw m) = nm_max_cat m"
  by (simp_all add: near_straight_def)

lemma same_street_lost_fields [simp]:
  "nm_delta (same_street_lost vp old w m) = nm_delta m" "nm_type (same_street_lost vp old w m) = nm_type m"
  "nm_merge_or_exit (same_street_lost vp old w m) = nm_merge_or_exit m" "nm_old_cat (same_street_lost vp old w m) = nm_old_cat m"
  "nm_new_cat (same_street_lost vp old w m) = nm_new_cat m" "nm_num_options (same_street_lost vp old w m) = nm_num_options m"
  "nm_left (same_street_lost vp old w m) = nm_left m" "nm_right (same_street_lost vp old w m) = nm_right m"
  "nm_max_cat (same_street_lost vp old w m) = nm_max_cat m"
  by (simp_all add: same_street_lost_def)

lemma highest_cat_fields [simp]:
  "nm_delta (highest_cat w m) = nm_delta m" "nm_type (highest_cat w m) = nm_type m"
  "nm_merge_or_exit (highest_cat w m) = nm_merge_or_exit m" "nm_old_cat (highest_cat w m) = nm_old_cat m"
  "nm_new_cat (highest_cat w m) = nm_new_cat m" "nm_num_options (highest_cat w m) = nm_num_options m"
  "nm_left (highest_cat w m) = nm_left m" "nm_right (highest_cat w m) = nm_right m"
  "nm_max_cat (highest_cat w m) = max (nm_max_cat m) (maneuver_category (nw_type w))"
  by (simp_all add: highest_cat_def Let_def)

lemma count_similar_fields [simp]:
  "nm_delta (count_similar w m) = nm_delta m" "nm_type (count_similar w m) = nm_type m"
  "nm_merge_or_exit (count_similar w m) = nm_merge_or_exit m" "nm_old_cat (count_similar w m) = nm_old_cat m"
  "nm_new_cat (count_similar w m) = nm_new_cat m" "nm_num_options (count_similar w m) = nm_num_options m"
  "nm_left (count_similar w m) = nm_left m" "nm_right (count_similar w m) = nm_right m"
  "nm_max_cat (count_similar w m) = nm_max_cat m"
  by (simp_all add: count_similar_def)

lemma count_motorways_fields [simp]:
  "nm_delta (count_motorways old new b w m) = nm_delta m" "nm_type (count_motorways old new b w m) = nm_type m"
  "nm_merge_or_exit (count_motorways old new b w m) = nm_merge_or_exit m" "nm_old_cat (count_motorways old new b w m) = nm_old_cat m"
  "nm_new_cat (count_motorways old new b w m) = nm_new_cat m" "nm_num_options (count_motorways old new b w m) = nm_num_options m"
  "nm_left (count_motorways old new b w m) = nm_left m" "nm_right (count_motorways old new b w m) = nm_right m"
  "nm_max_cat (count_motorways old new b w m) = nm_max_cat m"
  by (simp_all add: count_motorways_def)

lemma ms_m_other:
  "ms_m (scan_other vp old new w dw st) = highest_cat w (same_street_lost vp old w (near_straight new w dw (near_sides dw (ms_m st))))"
  by (simp add: scan_other_def Let_def split del: if_split)

text \<open>What one more way does to the result.\<close>

lemma scan_other_fields:
  fixes st vp old new w dw defines "m \<equiv> ms_m st" and "m' \<equiv> ms_m (scan_other vp old new w dw st)"
  shows "nm_delta m' = nm_delta m" "nm_type m' = nm_type m" "nm_merge_or_exit m' = nm_merge_or_exit m"
    "nm_old_cat m' = nm_old_cat m" "nm_new_cat m' = nm_new_cat m" "nm_num_options m' = nm_num_options m"
    "nm_left m' = (if dw < nm_delta m then max (nm_left m) dw else nm_left m)"
    "nm_right m' = (if dw < nm_delta m then nm_right m else min (nm_right m) dw)"
    "nm_max_cat m' = max (nm_max_cat m) (maneuver_category (nw_type w))"
  unfolding m_def m'_def ms_m_other by simp_all

lemma scan_allowed_fields:
  fixes st vp old new w dw is_new defines "m \<equiv> ms_m st" and "m' \<equiv> ms_m (scan_allowed vp old new is_new w dw st)"
  shows "nm_delta m' = nm_delta m" "nm_type m' = nm_type m" "nm_merge_or_exit m' = nm_merge_or_exit m"
    "nm_old_cat m' = nm_old_cat m" "nm_new_cat m' = nm_new_cat m" "nm_num_options m' = nm_num_options m + 1"
    "nm_left m' = (if \<not> is_new \<and> dw < nm_delta m then max (nm_left m) dw else nm_left m)"
    "nm_right m' = (if is_new \<or> dw < nm_delta m then nm_right m else min (nm_right m) dw)"
    "nm_max_cat m' = (if is_new then nm_max_cat m else max (nm_max_cat m) (maneuver_category (nw_type w)))"
  unfolding m_def m'_def by (simp_all add: scan_allowed_def Let_def scan_other_fields)

lemma scan_way_fields:
  fixes st vp old new w is_new defines "m \<equiv> ms_m st" and "m' \<equiv> ms_m (scan_way vp old new is_new w st)"
    and "ok \<equiv> (nw_angle2 w \<noteq> nw_angle2 (ni_way new) \<or> is_new) \<and> is_way_allowed vp w 1"
  shows "nm_delta m' = nm_delta m" "nm_type m' = nm_type m" "nm_merge_or_exit m' = nm_merge_or_exit m"
    "nm_old_cat m' = nm_old_cat m" "nm_new_cat m' = nm_new_cat m"
    "nm_num_options m' = (if ok then nm_num_options m + 1 else nm_num_options m)"
    "nm_left m' = (if ok \<and> \<not> is_new \<and> way_delta old w < nm_delta m then max (nm_left m) (way_delta old w) else nm_left m)"
    "nm_right m' = (if ok \<and> \<not> is_new \<and> \<not> way_delta old w < nm_delta m then min (nm_right m) (way_delta old w) else nm_right m)"
    "nm_max_cat m' = (if ok \<and> \<not> is_new then max (nm_max_cat m) (maneuver_category (nw_type w)) else nm_max_cat m)"
  unfolding m_def m'_def ok_def by (auto simp: scan_way_def Let_def way_delta_def scan_allowed_fields)

lemma scan_fold_fields:
  fixes st vp old new ws defines "m \<equiv> ms_m st" and "m' \<equiv> ms_m (fold (scan_way vp old new False) ws st)"
    and "os \<equiv> filter (\<lambda>w. nw_angle2 w \<noteq> nw_angle2 (ni_way new) \<and> is_way_allowed vp w 1) ws"
  shows "nm_delta m' = nm_delta m \<and> nm_type m' = nm_type m \<and> nm_merge_or_exit m' = nm_merge_or_exit m
    \<and> nm_old_cat m' = nm_old_cat m \<and> nm_new_cat m' = nm_new_cat m
    \<and> nm_num_options m' = nm_num_options m + length os
    \<and> nm_left m' = fold max (map (way_delta old) (filter (\<lambda>w. way_delta old w < nm_delta m) os)) (nm_left m)
    \<and> nm_right m' = fold min (map (way_delta old) (filter (\<lambda>w. \<not> way_delta old w < nm_delta m) os)) (nm_right m)
    \<and> nm_max_cat m' = fold max (map (\<lambda>w. maneuver_category (nw_type w)) os) (nm_max_cat m)"
  unfolding m_def m'_def os_def
  by (induction ws arbitrary: st) (simp_all add: scan_way_fields max.commute min.commute)

text \<open>
  The scan of a junction counts and measures the ways it should: the options are the ways the
  vehicle may take, each once, \<open>left\<close> is the nearest of the others on the left of the route and
  \<open>right\<close> the nearest on its right, and \<open>max_cat\<close> their highest category.
\<close>

lemma scan_ways_spec:
  fixes vp old new defines "m \<equiv> ms_m (scan_ways vp old new (man_start old new))" and "os \<equiv> other_ways vp new"
    and "delta \<equiv> way_delta old (ni_way new)"
  shows "nm_num_options m = (if is_way_allowed vp (ni_way new) 1 then 1 else 0) + length os
    \<and> nm_left m = Max (insert (-180) (way_delta old ` {w \<in> set os. way_delta old w < delta}))
    \<and> nm_right m = Min (insert 180 (way_delta old ` {w \<in> set os. delta \<le> way_delta old w}))
    \<and> nm_max_cat m = Max (insert (-1) ((\<lambda>w. maneuver_category (nw_type w)) ` set os))
    \<and> nm_delta m = delta"
proof -
  have mx: "fold max xs a = Max (insert a (set xs))" and mn: "fold min xs a = Min (insert a (set xs))" for xs and a :: int
    using Max.set_eq_fold [of a xs] Min.set_eq_fold [of a xs] by simp_all
  have le: "\<not> (a :: int) < b \<longleftrightarrow> b \<le> a" for a b by auto
  show ?thesis
    unfolding m_def os_def delta_def scan_ways_def
    by (simp add: scan_fold_fields scan_way_fields mx mn le other_ways_def man_start_def way_delta_def)
qed

lemma scan_ways_kept:
  "nm_delta (ms_m (scan_ways vp old new m)) = nm_delta m"
  "nm_type (ms_m (scan_ways vp old new m)) = nm_type m"
  "nm_merge_or_exit (ms_m (scan_ways vp old new m)) = nm_merge_or_exit m"
  "nm_old_cat (ms_m (scan_ways vp old new m)) = nm_old_cat m"
  "nm_new_cat (ms_m (scan_ways vp old new m)) = nm_new_cat m"
  unfolding scan_ways_def by (simp_all add: scan_fold_fields scan_way_fields)

section \<open>What is always told\<close>

lemma man_start_fields [simp]:
  "nm_delta (man_start old new) = way_delta old (ni_way new)" "nm_merge_or_exit (man_start old new) = mex_none"
  "nm_type (man_start old new) = type_nav_none"
  by (simp_all add: man_start_def way_delta_def)

text \<open>A verdict to speak is not taken back, and the angle of the turn stays what it is.\<close>

definition verdict_keeps :: "man_verdict \<Rightarrow> man_verdict \<Rightarrow> bool" where
  "verdict_keeps v v' \<longleftrightarrow> (fst (snd v) \<longrightarrow> fst (snd v')) \<and> (fst v \<noteq> None \<longrightarrow> fst v' = fst v)
     \<and> nm_delta (snd (snd v')) = nm_delta (snd (snd v)) \<and> nm_type (snd (snd v')) = nm_type (snd (snd v))
     \<and> nm_left (snd (snd v')) = nm_left (snd (snd v)) \<and> nm_right (snd (snd v')) = nm_right (snd (snd v))"

lemma verdict_keeps_trans: "verdict_keeps u v \<Longrightarrow> verdict_keeps v w \<Longrightarrow> verdict_keeps u w"
  by (auto simp: verdict_keeps_def)

lemma verdict_keeps_refl [simp]: "verdict_keeps v v" by (simp add: verdict_keeps_def)

lemma keeps_turn: "verdict_keeps v (man_turn v)"
  by (cases v) (auto simp: verdict_keeps_def man_turn_def)

lemma keeps_one_option: "verdict_keeps v (man_one_option v)"
  by (cases v) (auto simp: verdict_keeps_def man_one_option_def)

lemma keeps_motorway: "verdict_keeps v (man_motorway old new v)"
  by (cases v) (auto simp: verdict_keeps_def man_motorway_def)

lemma keeps_ambiguous: "verdict_keeps v (man_ambiguous dc v)"
  by (cases v) (auto simp: verdict_keeps_def man_ambiguous_def Let_def)

lemma keeps_merge: "verdict_keeps v (man_merge old new l r v)"
  by (cases v) (auto simp: verdict_keeps_def man_merge_def Let_def)

lemma keeps_exit: "verdict_keeps v (man_exit old prevs new nexts l r v)"
proof (cases v)
  case (fields rs ret m)
  obtain a b where ab: "leaves_loop (\<not> coming_from_motorway (old # prevs)) nexts = (a, b)" by force
  define m' where "m' = (if b \<noteq> [] \<and> \<not> a \<and> is_motorway_like (ni_way (hd b)) False then m\<lparr>nm_merge_or_exit := mex_interchange\<rparr>
      else if is_motorway_like (ni_way old) False \<or> coming_from_motorway (old # prevs) \<and> nw_exit_ref (ni_way new) \<noteq> None then
        if l > 0 \<and> nm_left m > -90 then m\<lparr>nm_merge_or_exit := mex_exit_right\<rparr>
        else if r > 0 \<and> nm_right m < 90 then m\<lparr>nm_merge_or_exit := mex_exit_left\<rparr> else m
      else m)"
  have "nm_delta m' = nm_delta m \<and> nm_type m' = nm_type m \<and> nm_left m' = nm_left m \<and> nm_right m' = nm_right m"
    by (simp add: m'_def)
  moreover have "man_exit old prevs new nexts l r v = (if is_motorway_like (ni_way old) False \<and> nm_merge_or_exit m' \<noteq> mex_none
      then (if rs = None then Some Yes_leaving_motorway else rs, True, m') else (rs, ret, m'))"
    unfolding fields man_exit_def m'_def by (simp only: Let_def ab prod.case)
  ultimately show ?thesis by (simp add: fields verdict_keeps_def)
qed

lemma keeps_junction: "verdict_keeps v (man_junction old prevs new nexts l r v)"
  by (simp add: man_junction_def keeps_merge keeps_exit)

lemmas keeps_stages = keeps_turn keeps_one_option keeps_motorway keeps_ambiguous keeps_junction

lemma keeps_turn_verdict:
  "verdict_keeps (man_turn (fst (man_scanned vp old prevs new))) (maneuver_verdict vp old prevs new nexts)"
  unfolding maneuver_verdict_def
  by (cases "man_scanned vp old prevs new")
    (simp add: verdict_keeps_trans [OF keeps_one_option verdict_keeps_trans [OF keeps_motorway verdict_keeps_trans [OF keeps_ambiguous keeps_junction]]])

lemma maneuver_required_told:
  assumes "verdict_keeps v (maneuver_verdict vp old prevs new nexts)" "fst (snd v)"
  shows "\<exists>m. maneuver_required2 vp old prevs new nexts = Some m \<and> nm_delta m = nm_delta (snd (snd v)) \<and> nm_type m = nm_type (snd (snd v))"
  using assms unfolding verdict_keeps_def maneuver_required2_def
  by (cases "maneuver_verdict vp old prevs new nexts") auto

lemma scanned_delta: "nm_delta (snd (snd (fst (man_scanned vp old prevs new)))) = way_delta old (ni_way new)"
  "nm_type (snd (snd (fst (man_scanned vp old prevs new)))) = type_nav_none"
  by (simp_all add: man_scanned_def Let_def scan_ways_kept split: option.split)

text \<open>
  C4: at a junction with another way and no roundabout, a turn of more than 75 degrees is always told;
  so is every exit from a roundabout at which another way is left. The command gets the angle of the turn.
\<close>

theorem nav_turn_told:
  assumes "man_only vp new = None"
    "man_roundabout old new = None \<and> \<bar>way_delta old (ni_way new)\<bar> > 75
     \<or> has_flag (ni_flags old) AF_ROUNDABOUT \<and> \<not> has_flag (ni_flags new) AF_ROUNDABOUT"
  shows "\<exists>m. maneuver_required2 vp old prevs new nexts = Some m \<and> nm_delta m = way_delta old (ni_way new) \<and> nm_type m = type_nav_none"
proof -
  let ?s = "fst (man_scanned vp old prevs new)"
  have "fst (snd (man_turn ?s))"
  proof (cases "man_roundabout old new")
    case (Some r)
    then have "r = Yes_leaving_roundabout" using assms(2) by (auto simp: man_roundabout_def split: if_splits)
    then have "fst (snd ?s)" using assms(1) Some by (simp add: man_scanned_def Let_def)
    then show ?thesis using keeps_turn [of ?s] by (simp add: verdict_keeps_def)
  next
    case None
    then have "\<bar>way_delta old (ni_way new)\<bar> > 75" using assms(2) by (auto simp: man_roundabout_def split: if_splits)
    then show ?thesis using assms(1) None
      by (auto simp: man_scanned_def Let_def man_turn_def scan_ways_kept)
  qed
  from maneuver_required_told [OF keeps_turn_verdict this] show ?thesis
    using keeps_turn [of ?s] scanned_delta [of vp old prevs new] by (auto simp: verdict_keeps_def)
qed

section \<open>What silence means\<close>

lemma scan_ways_bounds:
  assumes "w \<in> set (other_ways vp new)"
  shows "way_delta old w < way_delta old (ni_way new) \<Longrightarrow> way_delta old w \<le> nm_left (ms_m (scan_ways vp old new (man_start old new)))"
    "way_delta old (ni_way new) \<le> way_delta old w \<Longrightarrow> nm_right (ms_m (scan_ways vp old new (man_start old new))) \<le> way_delta old w"
    "maneuver_category (nw_type w) \<le> nm_max_cat (ms_m (scan_ways vp old new (man_start old new)))"
  using assms by (auto simp: scan_ways_spec intro!: Max_ge Min_le)

text \<open>Each stage, met without a reason, speaks or leaves everything as it is.\<close>

lemma turn_silent: "fst (snd (man_turn (None, False, m))) \<or> man_turn (None, False, m) = (None, False, m) \<and> \<bar>nm_delta m\<bar> \<le> 75"
  by (simp add: man_turn_def)

lemma motorway_silent:
  "fst (snd (man_motorway old new (None, False, m))) \<or> man_motorway old new (None, False, m) = (None, False, m)"
  by (simp add: man_motorway_def)

lemma ambiguous_silent:
  assumes "\<not> fst (snd (man_ambiguous dc (None, False, m)))"
  shows "nm_left m < - man_dlim m \<and> man_dlim m < nm_right m \<or> nm_is_same_street m \<and> nm_max_cat m < nm_new_cat m"
  using assms by (simp add: man_ambiguous_def Let_def split: if_splits)

lemma silent_stages:
  assumes "\<not> fst (snd (man_ambiguous dc (man_motorway old new (man_one_option (man_turn (None, False, m))))))"
  shows "\<bar>nm_delta m\<bar> \<le> 75 \<and> (nm_num_options m \<le> 1 \<or> nm_left m < - man_dlim m \<and> man_dlim m < nm_right m
    \<or> nm_is_same_street m \<and> nm_max_cat m < nm_new_cat m)"
proof -
  have told: "fst (snd v) \<Longrightarrow> verdict_keeps v v' \<Longrightarrow> fst (snd v')" for v v' by (simp add: verdict_keeps_def)
  have "\<not> fst (snd (man_turn (None, False, m)))"
    using assms told [OF _ verdict_keeps_trans [OF keeps_one_option verdict_keeps_trans [OF keeps_motorway keeps_ambiguous]]] by blast
  then have t: "man_turn (None, False, m) = (None, False, m)" "\<bar>nm_delta m\<bar> \<le> 75" using turn_silent by blast+
  show ?thesis
  proof (cases "nm_num_options m \<le> 1")
    case False
    then have o: "man_one_option (None, False, m) = (None, False, m)" by (simp add: man_one_option_def)
    have "\<not> fst (snd (man_motorway old new (None, False, m)))" using assms told [OF _ keeps_ambiguous] unfolding t(1) o by blast
    then have "man_motorway old new (None, False, m) = (None, False, m)" using motorway_silent by blast
    then show ?thesis using assms ambiguous_silent t(2) unfolding t(1) o by auto
  qed (use t(2) in simp)
qed

lemma silent_scan:
  assumes "man_only vp new = None" "man_roundabout old new = None" "maneuver_required2 vp old prevs new nexts = None"
  shows "\<not> fst (snd (man_ambiguous (ms_dc (scan_ways vp old new (man_start old new)))
    (man_motorway old new (man_one_option (man_turn (None, False, ms_m (scan_ways vp old new (man_start old new))))))))"
proof -
  let ?st = "scan_ways vp old new (man_start old new)"
  have ret: "\<not> fst (snd (maneuver_verdict vp old prevs new nexts))"
    using assms(3) by (cases "maneuver_verdict vp old prevs new nexts") (simp add: maneuver_required2_def split: if_splits)
  have t: "\<not> man_t_junction old prevs new ?st"
  proof
    assume "man_t_junction old prevs new ?st"
    then have "fst (snd (fst (man_scanned vp old prevs new)))" using assms(1,2) by (simp add: man_scanned_def Let_def)
    then show False
      using ret keeps_turn_verdict [of vp old prevs new nexts] keeps_turn [of "fst (man_scanned vp old prevs new)"]
      by (simp add: verdict_keeps_def)
  qed
  have "maneuver_verdict vp old prevs new nexts = man_junction old prevs new nexts (ms_motorways_left ?st) (ms_motorways_right ?st)
      (man_ambiguous (ms_dc ?st) (man_motorway old new (man_one_option (man_turn (None, False, ms_m ?st)))))"
    using assms(1,2) t by (simp add: maneuver_verdict_def man_scanned_def Let_def)
  then show ?thesis using ret keeps_junction unfolding verdict_keeps_def by metis
qed


section \<open>A junction\<close>

text \<open>Ways and items for examples: bearing, type, flags and name; a way that crosses.\<close>

definition ex_way :: "int \<Rightarrow> int \<Rightarrow> 32 word \<Rightarrow> string \<Rightarrow> navigation_way" where
  "ex_way angle t f n = \<lparr>nw_dir = 1, nw_angle2 = angle, nw_flags = f,
     nw_item = \<lparr>it_type = t, it_id_hi = 0, it_id_lo = angle, it_map = 1\<rparr>, nw_name = Some n, nw_name_systematic = None,
     nw_exit_ref = None, nw_exit_label = None, nw_destination = []\<rparr>"

definition ex_itm :: "nat \<Rightarrow> navigation_way \<Rightarrow> int \<Rightarrow> navigation_way list \<Rightarrow> navigation_itm" where
  "ex_itm a w angle_end ws = \<lparr>ni_addr = a, ni_way = w, ni_ways = ws, ni_angle_end = angle_end, ni_start = \<lparr>cx = 0, cy = 0\<rparr>,
     ni_end = \<lparr>cx = 0, cy = 0\<rparr>, ni_time = 10, ni_length = 100, ni_speed = 50, ni_dest_time = 0, ni_dest_length = 0, ni_told = 0,
     ni_streetname_told = 0, ni_dest_count = 0\<rparr>"

text \<open>North on the main street; the route turns right, the main street goes on.\<close>

definition ex_old :: navigation_itm where
  "ex_old = ex_itm 0 (ex_way 0 type_street_2_city 0 ''Main'') 0 []"

definition ex_right :: navigation_itm where
  "ex_right = ex_itm 1 (ex_way 90 type_street_1_city 0 ''Side'') 90 [ex_way 350 type_street_2_city 0 ''Main'']"

definition ex_on :: navigation_itm where
  "ex_on = ex_itm 1 (ex_way 350 type_street_2_city 0 ''Main'') 350 [ex_way 90 type_street_1_city 0 ''Side'']"

theorem nav_turn_told_witness:
  "\<exists>m. maneuver_required2 None ex_old [] ex_right [] = Some m \<and> nm_delta m = 90"
proof -
  have h: "man_only None ex_right = None" "man_roundabout ex_old ex_right = None" "way_delta ex_old (ni_way ex_right) = 90"
    by code_simp+
  show ?thesis using nav_turn_told [OF h(1), of ex_old "[]" "[]"] h(2,3) by auto
qed


section \<open>Types of commands\<close>

definition roundabout_exit :: "navigation_itm list \<Rightarrow> navigation_itm \<Rightarrow> bool" where
  "roundabout_exit prevs itm \<longleftrightarrow> prevs \<noteq> [] \<and> \<not> has_flag (ni_flags itm) AF_ROUNDABOUT \<and> has_flag (ni_flags (hd prevs)) AF_ROUNDABOUT"

lemma command_new_alt:
  "command_new env prevs itm nexts m =
    (let ret = \<lparr>nc_itm = ni_addr itm, nc_delta = nm_delta m, nc_roundabout_delta = 0, nc_length = 0, nc_maneuver = m\<rparr>
     in if nm_type m = type_nav_destination then Some ret
        else if roundabout_exit prevs itm then Some (navigation_analyze_roundabout env ret (hd prevs) (tl prevs) itm nexts)
        else if \<bar>nm_delta m\<bar> \<ge> min_turn_limit then
          (case nexts of [] \<Rightarrow> None
           | n # _ \<Rightarrow> Some (ret\<lparr>nc_maneuver := m\<lparr>nm_type := turn_type (nm_delta m) (strength_counts (nm_delta m) itm n)\<rparr>\<rparr>))
        else Some (ret\<lparr>nc_maneuver := m\<lparr>nm_type := straight_type m\<rparr>\<rparr>))"
  unfolding command_new_def roundabout_exit_def ..

lemma turn_type_side:
  "delta \<le> - min_turn_limit \<Longrightarrow> turn_type delta cs \<in> {type_nav_left_1, type_nav_left_2, type_nav_left_3, type_nav_turnaround_left}"
  "min_turn_limit \<le> delta \<Longrightarrow> turn_type delta cs \<in> {type_nav_right_1, type_nav_right_2, type_nav_right_3, type_nav_turnaround_right}"
  by (cases cs; simp add: turn_type_def turn_plain_def turn_easy_def turn_strong_def turn_limits)+

text \<open>
  C12: a command for a turn of 25 degrees or more is a turn to the side of its angle, one for less is
  straight on or a lane to keep: on the right when the nearest other way is on the left and none as near on
  the right. Only the read of the item after the turn can fail.
\<close>

theorem nav_turn_side:
  assumes "nm_type m \<noteq> type_nav_destination" "\<not> roundabout_exit prevs itm"
    "min_turn_limit \<le> \<bar>nm_delta m\<bar> \<Longrightarrow> nexts \<noteq> []"
  shows "\<exists>t. command_new env prevs itm nexts m = Some \<lparr>nc_itm = ni_addr itm, nc_delta = nm_delta m, nc_roundabout_delta = 0,
      nc_length = 0, nc_maneuver = m\<lparr>nm_type := t\<rparr>\<rparr>
    \<and> t \<in> (if nm_delta m \<le> - min_turn_limit then {type_nav_left_1, type_nav_left_2, type_nav_left_3, type_nav_turnaround_left}
          else if min_turn_limit \<le> nm_delta m then {type_nav_right_1, type_nav_right_2, type_nav_right_3, type_nav_turnaround_right}
          else if nm_left m - nm_delta m > -50 \<and> nm_right m - nm_delta m \<ge> 50 then {type_nav_keep_right}
          else if nm_right m - nm_delta m < 50 \<and> nm_left m - nm_delta m \<le> -50 then {type_nav_keep_left}
          else {type_nav_straight})"
    (is "\<exists>t. _ \<and> t \<in> ?T")
proof (cases "min_turn_limit \<le> \<bar>nm_delta m\<bar>")
  case True
  then obtain n ns where n: "nexts = n # ns" using assms(3) by (cases nexts) auto
  let ?t = "turn_type (nm_delta m) (strength_counts (nm_delta m) itm n)"
  have "command_new env prevs itm nexts m = Some \<lparr>nc_itm = ni_addr itm, nc_delta = nm_delta m, nc_roundabout_delta = 0,
      nc_length = 0, nc_maneuver = m\<lparr>nm_type := ?t\<rparr>\<rparr>"
    using True assms(1,2) by (simp add: command_new_alt n)
  moreover have "?t \<in> ?T" using True turn_type_side [of "nm_delta m" "strength_counts (nm_delta m) itm n"]
    by (simp add: abs_if turn_limits split: if_splits)
  ultimately show ?thesis by blast
next
  case False
  then have "command_new env prevs itm nexts m = Some \<lparr>nc_itm = ni_addr itm, nc_delta = nm_delta m, nc_roundabout_delta = 0,
      nc_length = 0, nc_maneuver = m\<lparr>nm_type := straight_type m\<rparr>\<rparr>"
    using assms(1,2) by (simp add: command_new_alt)
  moreover have "straight_type m \<in> ?T" using False by (auto simp: straight_type_def Let_def turn_limits)
  ultimately show ?thesis by blast
qed

theorem nav_turn_side_witness:
  "\<forall>env. \<exists>m c. maneuver_required2 None ex_old [] ex_right [ex_on] = Some m \<and> command_new env [ex_old] ex_right [ex_on] m = Some c
    \<and> nm_type (nc_maneuver c) \<in> {type_nav_right_1, type_nav_right_2, type_nav_right_3, type_nav_turnaround_right}"
proof
  fix env
  have e: "\<not> roundabout_exit [ex_old] ex_right" by code_simp
  have "map_option (\<lambda>m. (nm_delta m, nm_type m)) (maneuver_required2 None ex_old [] ex_right [ex_on]) = Some (90, type_nav_none)"
    by code_simp
  then obtain m where m: "maneuver_required2 None ex_old [] ex_right [ex_on] = Some m" "nm_delta m = 90" "nm_type m = type_nav_none"
    by auto
  have "nm_type m \<noteq> type_nav_destination" using m(3) by (simp add: nav_types)
  from nav_turn_side [OF this e, of "[ex_on]" env] m
  show "\<exists>m c. maneuver_required2 None ex_old [] ex_right [ex_on] = Some m \<and> command_new env [ex_old] ex_right [ex_on] m = Some c
      \<and> nm_type (nc_maneuver c) \<in> {type_nav_right_1, type_nav_right_2, type_nav_right_3, type_nav_turnaround_right}"
    by (auto simp: turn_limits)
qed

text \<open>
  How strongly a turn is worded depends on the ways of the following junction only: the ways at the
  junction of the turn itself, by which the comments of the code explain the choice, are never looked at.
\<close>

theorem nav_turn_ignores_junction:
  assumes "min_turn_limit \<le> \<bar>nm_delta m\<bar>" "\<not> roundabout_exit prevs itm"
  shows "command_new env prevs (itm\<lparr>ni_ways := ws\<rparr>) nexts m = command_new env prevs itm nexts m"
proof -
  have r: "roundabout_exit prevs (itm\<lparr>ni_ways := ws\<rparr>) = roundabout_exit prevs itm" by (simp add: roundabout_exit_def)
  have c: "strength_counts d (itm\<lparr>ni_ways := ws\<rparr>) n = strength_counts d itm n" for d n by (simp add: strength_counts_def)
  show ?thesis using assms by (cases nexts) (simp_all add: command_new_alt Let_def r c)
qed

theorem nav_turn_ignores_junction_witness:
  "\<forall>env (m :: navigation_maneuver) ws. nm_delta m = 60 \<longrightarrow> command_new env [ex_old] (ex_right\<lparr>ni_ways := ws\<rparr>) [ex_on] m = command_new env [ex_old] ex_right [ex_on] m"
proof (intro allI impI)
  fix env and m :: navigation_maneuver and ws assume "nm_delta m = 60"
  moreover have "\<not> roundabout_exit [ex_old] ex_right" by code_simp
  ultimately show "command_new env [ex_old] (ex_right\<lparr>ni_ways := ws\<rparr>) [ex_on] m = command_new env [ex_old] ex_right [ex_on] m"
    by (intro nav_turn_ignores_junction) (simp_all add: turn_limits)
qed

section \<open>Roundabouts\<close>



text \<open>Such an angle comes up: entered at a bearing of 0 and left at 100 degrees, on tangents 170 degrees apart the other way.\<close>

definition ex_ring :: navigation_itm where
  "ex_ring = ex_itm 1 (ex_way 0 type_street_1_city AF_ROUNDABOUT ''Ring'') 10 [ex_way 180 type_street_1_city AF_ROUNDABOUT ''Ring'']"

definition ex_leave :: navigation_itm where
  "ex_leave = ex_itm 2 (ex_way 100 type_street_1_city 0 ''East'') 100 [ex_way 10 type_street_1_city AF_ROUNDABOUT ''Ring'']"

definition ex_south :: navigation_itm where
  "ex_south = ex_itm 0 (ex_way 0 type_street_1_city 0 ''South'') 0 []"

definition ex_nowhere :: nav_env where
  "ex_nowhere = \<lparr>ne_at2 = (\<lambda>_ _. 0), ne_distance = (\<lambda>_ _. 0), ne_street = (\<lambda>_. None), ne_vehicleprofile = None\<rparr>"

theorem nav_roundabout_untyped:
  "roundabout_deltas ex_nowhere 90 ex_ring [ex_south] ex_leave [] = (0, -260, 150) \<and> roundabout_types (-260) = (type_none, type_none)"
proof -
  have w: "map_option nw_angle2 (roundabout_way ex_leave) = Some 10" "map_option nw_angle2 (roundabout_way ex_ring) = Some 180" by code_simp+
  have b: "ni_angle_end ex_ring = 10" "nw_angle2 (ni_way ex_ring) = 0" "ni_angle_end ex_south = 0" "nw_angle2 (ni_way ex_leave) = 100"
    by (simp_all add: ex_ring_def ex_south_def ex_leave_def ex_itm_def ex_way_def)
  have m: "angle_median 10 10 = 10" "angle_median 180 180 = 180" "angle_opposite 0 = 180" "angle_delta 180 10 = -170"
    "adjust_delta (angle_delta 0 100) (-170) = -260" by code_simp+
  have e: "enter_roundabout ex_leave [ex_ring, ex_south] 0 0 = (ex_ring, [ex_south], 100, 10)" by code_simp
  have c: "cdiv (- 430) 2 = -215" "cdiv (i32 36000) 395 = 91" "cdiv 91 2 = 45" "i32 (100 + ROUNDABOUT_EXTRA_LENGTH) = 150"
    by code_simp+
  have r: "entry_road_angle ex_nowhere ex_ring ex_south [] 45 = 0" "exit_road_angle ex_nowhere ex_ring ex_leave [] 45 = 100" by code_simp+
  show ?thesis
    using w unfolding roundabout_deltas_def by (auto simp: b m e c r Let_def roundabout_types_def simp del: enter_roundabout.simps)
qed

end
