(* ===== verification/Nav_List.thy ===== *)
theory Nav_List
  imports Nav_Command C_String
begin

text \<open>
  The lists of the navigation object of \<open>navigation.c\<close>: the items of the route, the commands, the hash
  table from map items to navigation items, and how they are built, cut and filled again when the route
  changes. The address of an item identifies it; \<open>None\<close> is an access to memory that was freed or never
  there. The maneuvers are only made after the item for the destination was appended.
\<close>

section \<open>Destinations of a way\<close>

function (sequential) split_loop :: "char \<Rightarrow> string \<Rightarrow> street_destination list \<Rightarrow> street_destination list" where
  "split_loop sep s acc =
     (if sep \<in> set s then
        let post = rev (takeWhile (\<lambda>c. c \<noteq> sep) (rev s)); pre = rev (tl (dropWhile (\<lambda>c. c \<noteq> sep) (rev s)))
        in split_loop sep pre (\<lparr>des_name = dropWhile c_isspace post, des_rank = 0\<rparr> # acc)
      else \<lparr>des_name = dropWhile c_isspace s, des_rank = 0\<rparr> # acc)"
  by pat_completeness auto

termination
proof (relation "measure (\<lambda>(_, s, _). length s)", simp)
  fix sep :: char and s post pre
  assume "sep \<in> set s" "pre = rev (tl (dropWhile (\<lambda>c. c \<noteq> sep) (rev s)))"
  moreover have "length (dropWhile (\<lambda>c. c \<noteq> sep) (rev s)) \<le> length s" by (metis length_dropWhile_le length_rev)
  moreover from \<open>sep \<in> set s\<close> have "dropWhile (\<lambda>c. c \<noteq> sep) (rev s) \<noteq> []" by (simp add: dropWhile_eq_Nil_conv)
  ultimately show "((sep, pre, acc), sep, s, acc') \<in> measure (\<lambda>(_, s, _). length s)" for acc acc' :: "street_destination list"
    by (cases "dropWhile (\<lambda>c. c \<noteq> sep) (rev s)") auto
qed

declare split_loop.simps [simp del]

text \<open>The old list is freed first; an empty string leaves the way pointing to it.\<close>

definition split_string_to_list :: "navigation_way \<Rightarrow> string \<Rightarrow> char \<Rightarrow> (nat \<times> navigation_way) option" where
  "split_string_to_list way raw_string sep =
     (if raw_string = [] then if nw_destination way = [] then Some (0, way) else None
      else let l = split_loop sep raw_string [] in Some (length l, way\<lparr>nw_destination := l\<rparr>))"

section \<open>What the maps answer\<close>

text \<open>An item of the map of the route graph at a coordinate.\<close>

record graph_item =
  gi_type :: int
  gi_street_item :: "item option"
  gi_direction :: "int option"

datatype exit_attr = Exit_label string | Exit_ref string | Exit_to string | Exit_other

record exit_item =
  ex_type :: int
  ex_coord :: "coord option"
  ex_attrs :: "exit_attr list"

text \<open>An item of the map of the route.\<close>

record route_item =
  rt_type :: int
  rt_street_item :: "item option"
  rt_direction :: "int option"
  rt_length :: "int option"
  rt_time :: "int option"
  rt_speed :: "int option"
  rt_coords :: "coord list"
  rt_graph :: bool

record nav_maps = nav_env +
  ne_graph :: "coord \<Rightarrow> graph_item list"
  ne_exits :: "coord \<Rightarrow> exit_item list"

section \<open>The ways at a junction\<close>

text \<open>
  Is the new way already in the list? After a hit the code goes on with the head of the list as the way;
  a second hit would free that.
\<close>

fun ways_dup :: "navigation_way list \<Rightarrow> navigation_way \<Rightarrow> navigation_way list \<Rightarrow> bool option" where
  "ways_dup l w [] = Some False"
| "ways_dup l w (h # hs) =
     (if is_same_way w h then if list_ex (is_same_way (hd l)) hs then None else Some True else ways_dup l w hs)"

fun ways_loop ::
  "nav_env \<Rightarrow> item \<Rightarrow> item option \<Rightarrow> graph_item list \<Rightarrow> navigation_way list \<Rightarrow> navigation_way list option" where
  "ways_loop env it prev [] l = Some l"
| "ways_loop env it prev (g # gs) l =
     (if gi_type g \<noteq> type_rg_segment then ways_loop env it prev gs l
      else case (gi_street_item g, gi_direction g) of
        (Some sitem, Some d) \<Rightarrow>
          if it_type sitem = type_street_turn_restriction_no \<or> it_type sitem = type_street_turn_restriction_only
          then ways_loop env it prev gs l
          else if item_is_equal it sitem \<or> (case prev of None \<Rightarrow> False | Some p \<Rightarrow> item_is_equal p sitem)
          then ways_loop env it prev gs l
          else do {
            let w = navigation_way_init env \<lparr>nw_dir = d, nw_angle2 = 0, nw_flags = 0, nw_item = sitem, nw_name = None,
              nw_name_systematic = None, nw_exit_ref = None, nw_exit_label = None, nw_destination = []\<rparr>;
            dup \<leftarrow> ways_dup l w l;
            ways_loop env it prev gs (if dup then l else w # l)
          }
      | _ \<Rightarrow> ways_loop env it prev gs l)"

definition navigation_itm_ways_update :: "nav_maps \<Rightarrow> item option \<Rightarrow> navigation_itm \<Rightarrow> navigation_itm option" where
  "navigation_itm_ways_update env prev itm = (case ne_graph env (ni_start itm) of
       [] \<Rightarrow> Some (itm\<lparr>ni_ways := []\<rparr>)
     | g # gs \<Rightarrow>
         if gi_type g \<noteq> type_rg_point then Some (itm\<lparr>ni_ways := []\<rparr>)
         else map_option (\<lambda>l. itm\<lparr>ni_ways := l\<rparr>) (ways_loop (nav_env.truncate env) (nw_item (ni_way itm)) prev gs []))"

section \<open>The navigation object\<close>

text \<open>
  \<open>nv_idle_ev\<close> is whether \<open>idle_ev\<close> points to an idle event, \<open>nv_events\<close> the number of idle events the
  event loop has for this object.
\<close>

datatype nav_event = Callback_maneuvers | Callback_speech

record navigation =
  nv_itms :: "navigation_itm list"
  nv_cmds :: "navigation_command list"
  nv_hash :: "(item \<times> nat) list"
  nv_next :: nat
  nv_level_last :: int
  nv_item_last :: item
  nv_turn_around :: int
  nv_turn_around_limit :: int
  nv_distance_turn :: int
  nv_announce :: "int \<Rightarrow> nat \<Rightarrow> int"
  nv_delay :: int
  nv_curr_delay :: int
  nv_turn_around_count :: int
  nv_busy :: bool
  nv_has_ritem :: bool
  nv_has_sitem :: bool
  nv_nav_status :: int
  nv_route_mr :: "route_item list option"
  nv_idle_ev :: bool
  nv_events :: nat
  nv_log :: "nav_event list"

definition nav_hash_insert :: "(item \<times> nat) list \<Rightarrow> item \<Rightarrow> nat \<Rightarrow> (item \<times> nat) list" where
  "nav_hash_insert h it v = (it, v) # filter (\<lambda>(k, _). \<not> item_is_equal k it) h"

definition nav_hash_remove :: "(item \<times> nat) list \<Rightarrow> item \<Rightarrow> (item \<times> nat) list" where
  "nav_hash_remove h it = filter (\<lambda>(k, _). \<not> item_is_equal k it) h"

definition nav_hash_lookup :: "(item \<times> nat) list \<Rightarrow> item \<Rightarrow> nat option" where
  "nav_hash_lookup h it = map_option snd (find (\<lambda>(k, _). item_is_equal k it) h)"

section \<open>Destroying items\<close>

fun destroy_loop ::
  "nat option \<Rightarrow> navigation_itm list \<Rightarrow> navigation_command list \<Rightarrow> (item \<times> nat) list
    \<Rightarrow> navigation_itm list \<times> navigation_command list \<times> (item \<times> nat) list" where
  "destroy_loop stop [] cmds h = ([], cmds, h)"
| "destroy_loop stop (itm # itms) cmds h =
     (if stop = Some (ni_addr itm) then (itm # itms, cmds, h)
      else destroy_loop stop itms
        (case (cmds, itms) of (c # cs, nx # _) \<Rightarrow> if nc_itm c = ni_addr nx then cs else cmds | _ \<Rightarrow> cmds)
        (nav_hash_remove h (nw_item (ni_way itm))))"

definition navigation_destroy_itms_cmds :: "navigation \<Rightarrow> nat option \<Rightarrow> navigation" where
  "navigation_destroy_itms_cmds this stop = (case destroy_loop stop (nv_itms this) (nv_cmds this) (nv_hash this) of
     (itms, cmds, h) \<Rightarrow> this\<lparr>nv_itms := itms, nv_cmds := cmds, nv_hash := h\<rparr>)"

definition navigation_flush :: "navigation \<Rightarrow> navigation" where
  "navigation_flush this = navigation_destroy_itms_cmds this None"

section \<open>New items\<close>

definition navigation_itm_update :: "navigation_itm \<Rightarrow> route_item \<Rightarrow> navigation_itm" where
  "navigation_itm_update itm ritem = (case (rt_length ritem, rt_time ritem, rt_speed ritem) of
     (Some l, Some t, Some s) \<Rightarrow> itm\<lparr>ni_length := i32 l, ni_time := i32 t, ni_speed := i32 s\<rparr>
   | _ \<Rightarrow> itm)"

text \<open>\<open>g_new0\<close>: the struct filled with zeros.\<close>

definition zero_coord :: coord where "zero_coord = \<lparr>cx = 0, cy = 0\<rparr>"

definition zero_way :: navigation_way where
  "zero_way = \<lparr>nw_dir = 0, nw_angle2 = 0, nw_flags = 0, nw_item = \<lparr>it_type = 0, it_id_hi = 0, it_id_lo = 0, it_map = 0\<rparr>,
     nw_name = None, nw_name_systematic = None, nw_exit_ref = None, nw_exit_label = None, nw_destination = []\<rparr>"

definition zero_itm :: "nat \<Rightarrow> navigation_itm" where
  "zero_itm a = \<lparr>ni_addr = a, ni_way = zero_way, ni_ways = [], ni_angle_end = 0, ni_start = zero_coord, ni_end = zero_coord,
     ni_time = 0, ni_length = 0, ni_speed = 0, ni_dest_time = 0, ni_dest_length = 0, ni_told = 0, ni_streetname_told = 0,
     ni_dest_count = 0\<rparr>"

text \<open>The destinations of the street in the direction of the route.\<close>

definition way_destination :: "navigation_way \<Rightarrow> map_street \<Rightarrow> navigation_way option" where
  "way_destination way s =
     (let raw = (if has_flag (nw_flags way) AF_ONEWAY then mst_destination s
                 else if nw_dir way = 1 then mst_destination_forward s
                 else if nw_dir way = -1 then mst_destination_backward s
                 else None)
      in case raw of None \<Rightarrow> Some way | Some r \<Rightarrow> map_option snd (split_string_to_list way r (CHR '';'')))"

text \<open>The five places for coordinates: the first two and the last two of the item remain.\<close>

fun coord_window :: "coord list \<Rightarrow> nat \<Rightarrow> coord list \<Rightarrow> coord list \<times> nat" where
  "coord_window c i [] = (c, i)"
| "coord_window c i (x # xs) = (let c = c[i := x] in
     if i < 4 then coord_window c (i + 1) xs else coord_window (c[2 := c ! 3, 3 := c ! 4]) i xs)"

text \<open>The exits of a motorway at the start of a ramp.\<close>

definition exit_attr :: "navigation_itm option \<Rightarrow> exit_attr \<Rightarrow> navigation_way \<Rightarrow> navigation_way option" where
  "exit_attr lst a way = (case a of
       Exit_label s \<Rightarrow> Some (way\<lparr>nw_exit_label := Some s\<rparr>)
     | Exit_ref s \<Rightarrow> Some (way\<lparr>nw_exit_ref := Some s\<rparr>)
     | Exit_to s \<Rightarrow>
         if nw_destination way = [] \<and> nw_type way = type_ramp
           \<and> (case lst of None \<Rightarrow> False | Some l \<Rightarrow> ni_type l \<noteq> type_ramp)
         then do {
           (n, way1) \<leftarrow> split_string_to_list way s (CHR '';'');
           if n < 2 then map_option snd (split_string_to_list way1 s (CHR '','')) else Some way1
         } else Some way
     | Exit_other \<Rightarrow> Some way)"

fun fold_option :: "('a \<Rightarrow> 'b \<Rightarrow> 'b option) \<Rightarrow> 'a list \<Rightarrow> 'b \<Rightarrow> 'b option" where
  "fold_option f [] b = Some b"
| "fold_option f (x # xs) b = do { b \<leftarrow> f x b; fold_option f xs b }"

definition way_exits :: "nav_maps \<Rightarrow> navigation_itm option \<Rightarrow> int \<Rightarrow> navigation_itm \<Rightarrow> navigation_itm option" where
  "way_exits env lst stype itm =
     (if ni_ways itm \<noteq> [] \<and> (stype = type_ramp \<or> stype = type_highway_land \<or> stype = type_highway_city \<or> stype = type_street_n_lanes)
      then map_option (\<lambda>w. itm\<lparr>ni_way := w\<rparr>)
        (fold_option (exit_attr lst)
          (concat (map ex_attrs (filter (\<lambda>x. ex_type x = type_highway_exit \<and> ex_coord x = Some (ni_start itm)) (ne_exits env (ni_start itm)))))
          (ni_way itm))
      else Some itm)"

text \<open>The item of a route item, \<open>None\<close> inside when it has no street or that is not on the map.\<close>

definition itm_of_route ::
  "nav_maps \<Rightarrow> nat \<Rightarrow> navigation_itm option \<Rightarrow> route_item \<Rightarrow> navigation_itm option option" where
  "itm_of_route env a lst r = (case rt_street_item r of
       None \<Rightarrow> Some None
     | Some sitem \<Rightarrow> (case ne_street env sitem of
           None \<Rightarrow> Some None
         | Some s \<Rightarrow> do {
             let way = zero_way\<lparr>nw_dir := (case rt_direction r of Some d \<Rightarrow> d | None \<Rightarrow> 0), nw_item := sitem\<rparr>;
             let way = way\<lparr>nw_flags := (case mst_flags s of Some f \<Rightarrow> f | None \<Rightarrow> 0), nw_name := mst_name s,
                           nw_name_systematic := mst_name_systematic s\<rparr>;
             way \<leftarrow> way_destination way s;
             let itm = navigation_itm_update ((zero_itm a)\<lparr>ni_way := way\<rparr>) r;
             let (c, n) = coord_window (replicate 5 zero_coord) 0 (rt_coords r);
             if n = 0 then None
             else do {
               let i = n - 1;
               let itm = (if i \<ge> 1 then itm\<lparr>ni_way := way\<lparr>nw_angle2 := road_angle (nav_env.truncate env) (c ! 0) (c ! 1) 0\<rparr>,
                                            ni_angle_end := road_angle (nav_env.truncate env) (c ! (i - 1)) (c ! i) 0\<rparr> else itm);
               let itm = itm\<lparr>ni_start := c ! 0, ni_end := c ! i\<rparr>;
               itm \<leftarrow> (if rt_graph r then navigation_itm_ways_update env (map_option (\<lambda>l. nw_item (ni_way l)) lst) itm else Some itm);
               map_option Some (way_exits env lst (mst_type s) itm)
             }
           }))"

definition nav_append :: "navigation_itm \<Rightarrow> navigation \<Rightarrow> navigation" where
  "nav_append itm this = this\<lparr>nv_itms := nv_itms this @ [itm], nv_next := Suc (nv_next this)\<rparr>"

text \<open>The hash table gets the item as the map returns it: id and map are those that were looked up.\<close>

definition navigation_itm_new :: "nav_maps \<Rightarrow> navigation \<Rightarrow> route_item option \<Rightarrow> navigation option" where
  "navigation_itm_new env this routeitem = (let lst = last_opt (nv_itms this); a = nv_next this in
     case routeitem of
       Some r \<Rightarrow> do {
         new \<leftarrow> itm_of_route env a lst r;
         (case new of
            None \<Rightarrow> Some this
          | Some itm \<Rightarrow> Some (nav_append itm (this\<lparr>nv_hash := nav_hash_insert (nv_hash this) (nw_item (ni_way itm)) a\<rparr>)))
       }
     | None \<Rightarrow> Some (nav_append (case lst of
           None \<Rightarrow> zero_itm a
         | Some l \<Rightarrow> (zero_itm a)\<lparr>ni_start := ni_end l, ni_end := ni_end l\<rparr>) this))"

section \<open>Distances to the destination\<close>

fun dest_loop :: "int \<Rightarrow> int \<Rightarrow> int \<Rightarrow> navigation_itm list \<Rightarrow> navigation_itm list" where
  "dest_loop len time n [] = []"
| "dest_loop len time n (itm # prevs) =
     (let len = i32 (len + ni_length itm); time = i32 (time + ni_time itm)
      in itm\<lparr>ni_dest_length := len, ni_dest_time := time, ni_dest_count := n\<rparr> # dest_loop len time (n + 1) prevs)"

definition calculate_dest_distance :: "navigation \<Rightarrow> bool \<Rightarrow> navigation option" where
  "calculate_dest_distance this incr =
     (if incr then (case nv_itms this of
          itm # nx # itms \<Rightarrow> Some (this\<lparr>nv_itms := itm\<lparr>ni_dest_length := i32 (ni_dest_length nx + ni_length itm),
              ni_dest_count := ni_dest_count nx + 1, ni_dest_time := i32 (ni_dest_time nx + ni_time itm)\<rparr> # nx # itms\<rparr>)
        | _ \<Rightarrow> None)
      else Some (this\<lparr>nv_itms := rev (dest_loop 0 0 0 (rev (nv_itms this)))\<rparr>))"

section \<open>Commands for the route\<close>

definition destination_maneuver :: navigation_maneuver where
  "destination_maneuver = \<lparr>nm_type = type_nav_destination, nm_delta = 0, nm_merge_or_exit = 0, nm_is_complex_t_junction = False,
     nm_num_options = 0, nm_num_new_motorways = 0, nm_num_other_ways = 0, nm_old_cat = 0, nm_new_cat = 0, nm_max_cat = 0,
     nm_num_similar_ways = 0, nm_left = 0, nm_right = 0, nm_is_unambiguous = False, nm_is_same_street = False\<rparr>"

fun maneuver_loop :: "nav_env \<Rightarrow> navigation_itm list \<Rightarrow> navigation_itm list \<Rightarrow> navigation_command list option" where
  "maneuver_loop env prevs [] = Some []"
| "maneuver_loop env [] (itm # itms) = maneuver_loop env [itm] itms"
| "maneuver_loop env (last_itm # prevs) (itm # itms) =
     (case maneuver_required2 (ne_vehicleprofile env) last_itm prevs itm itms of
        None \<Rightarrow> maneuver_loop env (itm # last_itm # prevs) itms
      | Some m \<Rightarrow> do {
          c \<leftarrow> command_new env (last_itm # prevs) itm itms m;
          cs \<leftarrow> maneuver_loop env (itm # last_itm # prevs) itms;
          Some (c # cs)
        })"

definition make_maneuvers :: "nav_maps \<Rightarrow> navigation \<Rightarrow> navigation option" where
  "make_maneuvers env this = do {
     cs \<leftarrow> maneuver_loop (nav_env.truncate env) [] (nv_itms this);
     last_itm \<leftarrow> last_opt (nv_itms this);
     c \<leftarrow> command_new (nav_env.truncate env) (tl (rev (nv_itms this))) last_itm [] destination_maneuver;
     Some (this\<lparr>nv_cmds := cs @ [c]\<rparr>)
   }"

end
