(* ===== verification/Nav_Update.thy ===== *)
theory Nav_Update
  imports Nav_List
begin

text \<open>
  How the navigation object of \<open>navigation.c\<close> follows the route: levels of announcement, the callbacks
  after an update, and the update itself, which reads the map of the route in pieces, either in one call or
  in the idle time of the event loop.
\<close>

section \<open>Levels of announcement\<close>

definition level_connect :: int where "level_connect = -2"
definition level_error :: int where "level_error = -1"
definition level_now :: int where "level_now = 0"
definition level_meters :: int where "level_meters = 1"
definition level_soon :: int where "level_soon = 2"
definition level_follow :: int where "level_follow = 3"

lemmas level_defs = level_connect_def level_error_def level_now_def level_meters_def level_soon_def level_follow_def

fun announce_level_loop :: "(nat \<Rightarrow> int) \<Rightarrow> int \<Rightarrow> nat \<Rightarrow> nat \<Rightarrow> int" where
  "announce_level_loop limits d level 0 = int level"
| "announce_level_loop limits d level (Suc n) = (if d \<le> limits level then int level else announce_level_loop limits d (Suc level) n)"

definition navigation_get_announce_level :: "navigation \<Rightarrow> int \<Rightarrow> int \<Rightarrow> int" where
  "navigation_get_announce_level this t d =
     (if t < route_item_first \<or> t > route_item_last then level_error
      else announce_level_loop (nv_announce this (t - route_item_first)) d 0 3)"

definition navigation_set_announce :: "navigation \<Rightarrow> int \<Rightarrow> (nat \<Rightarrow> int) \<Rightarrow> bool \<times> navigation" where
  "navigation_set_announce this t level =
     (if t < route_item_first \<or> t > route_item_last then (False, this)
      else (True, this\<lparr>nv_announce := (nv_announce this)(t - route_item_first :=
        (\<lambda>i. if i < 3 then level i else nv_announce this (t - route_item_first) i))\<rparr>))"

text \<open>The item at an address with the items before it, nearest first, and after it.\<close>

fun itm_split :: "nat \<Rightarrow> navigation_itm list \<Rightarrow> navigation_itm list \<Rightarrow> (navigation_itm list \<times> navigation_itm \<times> navigation_itm list) option" where
  "itm_split a prevs [] = None"
| "itm_split a prevs (i # itms) = (if ni_addr i = a then Some (prevs, i, itms) else itm_split a (i # prevs) itms)"

definition nav_itm :: "navigation \<Rightarrow> nat \<Rightarrow> (navigation_itm list \<times> navigation_itm \<times> navigation_itm list) option" where
  "nav_itm this a = itm_split a [] (nv_itms this)"

definition navigation_get_announce_level_cmd :: "navigation \<Rightarrow> navigation_itm \<Rightarrow> navigation_command \<Rightarrow> int \<Rightarrow> int option" where
  "navigation_get_announce_level_cmd this itm cmd distance = (let level = navigation_get_announce_level this (ni_type itm) distance
     in do {
       c \<leftarrow> hd_opt (nv_cmds this);
       (prevs, _, _) \<leftarrow> nav_itm this (nc_itm c);
       if prevs = [] then Some level
       else do {
         (prevs2, _, _) \<leftarrow> nav_itm this (nc_itm cmd);
         p \<leftarrow> hd_opt prevs2;
         let level2 = navigation_get_announce_level this (ni_type p) distance;
         Some (if level2 > level then level2 else level)
       }
     })"

section \<open>Callbacks\<close>

text \<open>The distance at which the driver is asked to turn around grows until it exceeds the distance.\<close>

partial_function (option) turn_distance :: "int \<Rightarrow> int \<Rightarrow> int option" where
  "turn_distance distance distance_turn =
     (if distance > distance_turn
      then turn_distance distance (if distance_turn \<ge> 500 then i32 (distance_turn * 2) else 500)
      else Some distance_turn)"

text \<open>The result of the announcement part: the object, the level and whether to speak.\<close>

definition announce_turn_around :: "navigation \<Rightarrow> int \<Rightarrow> bool \<Rightarrow> (navigation \<times> int \<times> bool) option" where
  "announce_turn_around this distance force_speech =
     (if distance > nv_distance_turn this then
        map_option (\<lambda>d. (this\<lparr>nv_level_last := 4, nv_distance_turn := d\<rparr>, 4, True)) (turn_distance distance (nv_distance_turn this))
      else Some (this, 0, force_speech))"

definition announce_level_change :: "navigation \<Rightarrow> navigation_itm \<Rightarrow> navigation_command \<Rightarrow> int \<Rightarrow> bool \<Rightarrow> (navigation \<times> int \<times> bool) option" where
  "announce_level_change this first cmd distance force_speech = do {
     level \<leftarrow> navigation_get_announce_level_cmd this first cmd distance;
     if level < nv_level_last this then do {
       let speed_distance = cdiv (i32 (ni_speed first * 30)) 36;
       level2 \<leftarrow> navigation_get_announce_level_cmd this first cmd (i32 (distance - speed_distance));
       if distance < speed_distance \<or> level2 = level then Some (this\<lparr>nv_level_last := level\<rparr>, level, True)
       else Some (this, level, force_speech)
     } else Some (this, level, force_speech)
   }"

definition announce_new_maneuver :: "navigation \<Rightarrow> item \<Rightarrow> bool \<Rightarrow> navigation \<times> bool" where
  "announce_new_maneuver this it force_speech =
     (if \<not> item_is_equal it (nv_item_last this) then
        (let this = this\<lparr>nv_item_last := it\<rparr>
         in if nv_delay this \<noteq> 0 then (this\<lparr>nv_curr_delay := nv_delay this\<rparr>, force_speech) else (this, True))
      else if nv_curr_delay this \<noteq> 0 then
        (let this = this\<lparr>nv_curr_delay := nv_curr_delay this - 1\<rparr>
         in (this, force_speech \<or> nv_curr_delay this = 0))
      else (this, force_speech))"

definition navigation_call_callbacks :: "navigation \<Rightarrow> bool \<Rightarrow> navigation option" where
  "navigation_call_callbacks this force_speech = (case nv_cmds this of
       [] \<Rightarrow> Some this
     | cmd # _ \<Rightarrow> do {
         let this = this\<lparr>nv_log := nv_log this @ [Callback_maneuvers]\<rparr>;
         first \<leftarrow> hd_opt (nv_itms this);
         (_, citm, _) \<leftarrow> nav_itm this (nc_itm cmd);
         let distance = i32 (ni_dest_length first - ni_dest_length citm);
         (this, level, force_speech) \<leftarrow>
           (if nv_turn_around_limit this \<noteq> 0 \<and> nv_turn_around this = nv_turn_around_limit this
            then announce_turn_around this distance force_speech
            else if nv_turn_around_limit this = 0 \<or> nv_turn_around this = - nv_turn_around_limit this + 1 then do {
              let this = this\<lparr>nv_distance_turn := 50\<rparr>;
              (this, level, force_speech) \<leftarrow> announce_level_change this first cmd (i32 (distance - nc_length cmd)) force_speech;
              let (this, force_speech) = announce_new_maneuver this (nw_item (ni_way citm)) force_speech;
              Some (this, level, force_speech)
            }
            else Some (this, 0, force_speech));
         Some (if force_speech then this\<lparr>nv_level_last := level, nv_curr_delay := 0, nv_log := nv_log this @ [Callback_speech]\<rparr>
               else this)
       })"

section \<open>Updates\<close>

definition status_invalid :: int where "status_invalid = -2"
definition status_no_route :: int where "status_no_route = -1"
definition status_no_destination :: int where "status_no_destination = 0"
definition status_position_wait :: int where "status_position_wait = 1"
definition status_calculating :: int where "status_calculating = 2"
definition status_recalculating :: int where "status_recalculating = 3"
definition status_routing :: int where "status_routing = 4"

lemmas nav_status_defs = status_invalid_def status_no_route_def status_no_destination_def status_position_wait_def
  status_calculating_def status_recalculating_def status_routing_def

text \<open>\<open>navigation_set_attr\<close> for the status.\<close>

definition set_nav_status :: "int \<Rightarrow> navigation \<Rightarrow> navigation" where
  "set_nav_status s this = this\<lparr>nv_nav_status := s\<rparr>"

definition drop_idle_event :: "navigation \<Rightarrow> navigation" where
  "drop_idle_event this = (if nv_idle_ev this then this\<lparr>nv_idle_ev := False, nv_events := nv_events this - 1\<rparr> else this)"

text \<open>No street at all, a route read to its end, or one whose first street the object knew.\<close>

definition update_commands :: "nav_maps \<Rightarrow> navigation \<Rightarrow> navigation option" where
  "update_commands env this =
     (if \<not> nv_has_sitem this then Some (navigation_destroy_itms_cmds this None)
      else do {
        this \<leftarrow> (if \<not> nv_has_ritem this then do {
            this \<leftarrow> navigation_itm_new env this None;
            make_maneuvers env this
          } else Some this);
        this \<leftarrow> calculate_dest_distance this False;
        navigation_call_callbacks this False
      })"

definition update_reset :: "navigation \<Rightarrow> navigation" where
  "update_reset this = this\<lparr>nv_busy := False, nv_has_ritem := False, nv_has_sitem := False, nv_route_mr := None\<rparr>"

definition navigation_update_done :: "nav_maps \<Rightarrow> navigation \<Rightarrow> bool \<Rightarrow> navigation option" where
  "navigation_update_done env this cancel = do {
     let this = drop_idle_event this;
     this \<leftarrow> (if \<not> cancel then map_option (set_nav_status status_routing) (update_commands env this) else Some this);
     Some (update_reset this)
   }"

definition idle_turn_around :: "int \<Rightarrow> navigation \<Rightarrow> navigation" where
  "idle_turn_around t this =
     (let this = (if t = type_route_start \<and> nv_turn_around this > - nv_turn_around_limit this + 1
                  then this\<lparr>nv_turn_around := nv_turn_around this - 1\<rparr> else this)
      in if t = type_route_start_reverse \<and> nv_turn_around this < nv_turn_around_limit this
         then this\<lparr>nv_turn_around := nv_turn_around this + 1\<rparr> else this)"

text \<open>Is there an item for the first street of the route, in the same direction?\<close>

definition known_street :: "navigation \<Rightarrow> item \<Rightarrow> int option \<Rightarrow> navigation_itm option option" where
  "known_street this sitem d = do {
     itm \<leftarrow> (case nav_hash_lookup (nv_hash this) sitem of
         None \<Rightarrow> Some None
       | Some a \<Rightarrow> do { (_, i, _) \<leftarrow> nav_itm this a; Some (Some i) });
     Some (case itm of
         Some i \<Rightarrow> if nw_dir (ni_way i) \<noteq> (case d of Some x \<Rightarrow> x | None \<Rightarrow> 0) then None else Some i
       | None \<Rightarrow> None)
   }"

text \<open>The items before it are destroyed, and all when there is none.\<close>

definition keep_from :: "navigation \<Rightarrow> navigation_itm option \<Rightarrow> route_item \<Rightarrow> (bool \<times> navigation) option" where
  "keep_from this itm ritem = (let this = navigation_destroy_itms_cmds this (map_option ni_addr itm) in
     case itm of
       None \<Rightarrow> Some (False, this)
     | Some i \<Rightarrow> (case nv_itms this of
         f # fs \<Rightarrow> Some (True, this\<lparr>nv_itms := navigation_itm_update f ritem # fs\<rparr>)
       | [] \<Rightarrow> None))"

definition idle_first_street :: "navigation \<Rightarrow> item \<Rightarrow> int option \<Rightarrow> route_item \<Rightarrow> (bool \<times> navigation) option" where
  "idle_first_street this sitem d ritem = do {
     itm \<leftarrow> known_street this sitem d;
     keep_from this itm ritem
   }"

text \<open>A street of the route: found among the items, or a new item.\<close>

definition idle_street :: "nav_maps \<Rightarrow> route_item \<Rightarrow> navigation \<Rightarrow> (bool \<times> navigation) option" where
  "idle_street env r this = do {
     (found, this) \<leftarrow> (case (nv_has_sitem this, rt_street_item r) of
         (False, Some sitem) \<Rightarrow> idle_first_street (this\<lparr>nv_has_sitem := True\<rparr>) sitem (rt_direction r) r
       | _ \<Rightarrow> Some (False, this));
     if found then Some (True, this)
     else do { this \<leftarrow> navigation_itm_new env this (Some r); Some (False, this) }
   }"

text \<open>The loop of \<open>navigation_update_idle\<close>: what is left of the count, of the route, and the object.\<close>

fun idle_loop :: "nav_maps \<Rightarrow> nat \<Rightarrow> route_item list \<Rightarrow> navigation \<Rightarrow> (nat \<times> route_item list \<times> navigation) option" where
  "idle_loop env n [] this = Some (n, [], if n > 0 then this\<lparr>nv_has_ritem := False\<rparr> else this)"
| "idle_loop env 0 (r # rs) this = Some (0, r # rs, this)"
| "idle_loop env (Suc n) (r # rs) this =
     (let this = idle_turn_around (rt_type r) (this\<lparr>nv_has_ritem := True\<rparr>)
      in if rt_type r \<noteq> type_street_route then idle_loop env (Suc n) rs this
         else do {
           (found, this) \<leftarrow> idle_street env r this;
           if found then Some (Suc n, rs, this) else idle_loop env n rs this
         })"

text \<open>\<open>route_has_graph\<close> is asked first; the map of the route is read where the last call stopped.\<close>

definition navigation_update_idle :: "nav_maps \<Rightarrow> bool \<Rightarrow> navigation \<Rightarrow> navigation option" where
  "navigation_update_idle env has_graph this =
     (if \<not> has_graph then navigation_update_done env this True
      else do {
        rs \<leftarrow> nv_route_mr this;
        (n, rs, this) \<leftarrow> idle_loop env 100 rs this;
        let this = this\<lparr>nv_route_mr := Some rs\<rparr>;
        if n > 0 then navigation_update_done env this False else Some this
      })"

partial_function (option) update_sync :: "nav_maps \<Rightarrow> bool \<Rightarrow> navigation \<Rightarrow> navigation option" where
  "update_sync env has_graph this =
     (if nv_busy this then do { this \<leftarrow> navigation_update_idle env has_graph this; update_sync env has_graph this }
      else Some this)"

definition route_status_no_destination :: int where "route_status_no_destination = 0"
definition route_status_destination_set :: int where "route_status_destination_set = 1"
definition route_status_not_found :: int where "route_status_not_found = 3"
definition route_status_building_path :: int where "route_status_building_path = 5"
definition route_status_building_graph :: int where "route_status_building_graph = 13"
definition route_status_path_done_new :: int where "route_status_path_done_new = 17"
definition route_status_path_done_incremental :: int where "route_status_path_done_incremental = 33"

lemmas route_status_defs = route_status_no_destination_def route_status_destination_set_def route_status_not_found_def
  route_status_building_path_def route_status_building_graph_def route_status_path_done_new_def
  route_status_path_done_incremental_def

text \<open>\<open>junk\<close> is the uninitialised status for a route status the switch does not name.\<close>

definition update_nav_status :: "int \<Rightarrow> int \<Rightarrow> int \<Rightarrow> int" where
  "update_nav_status junk old s =
     (if s = route_status_not_found then status_no_route
      else if s = route_status_no_destination then status_no_destination
      else if s = route_status_destination_set then status_position_wait
      else if s = route_status_building_path \<or> s = route_status_building_graph \<or> s = route_status_path_done_new
        \<or> s = route_status_path_done_incremental
      then if old \<ge> status_recalculating then status_recalculating else status_calculating
      else junk)"

text \<open>What the new status does to the object before the route is read.\<close>

definition update_flush :: "int \<Rightarrow> navigation \<Rightarrow> int \<Rightarrow> navigation" where
  "update_flush junk this s =
     (let this = set_nav_status (update_nav_status junk (nv_nav_status this) s) this
      in if s = route_status_no_destination \<or> s = route_status_not_found \<or> s = route_status_path_done_new
         then navigation_flush this else this)"

definition update_start :: "route_item list \<Rightarrow> navigation \<Rightarrow> navigation" where
  "update_start rs this = this\<lparr>nv_route_mr := Some rs, nv_busy := True, nv_has_ritem := False, nv_has_sitem := False\<rparr>"

text \<open>
  The route status changed to \<open>s\<close>. \<open>ritems\<close> are the items of the map of the route, if there is one;
  with \<open>async\<close> the rest is left to the idle callback.
\<close>

definition navigation_update ::
  "nav_maps \<Rightarrow> int \<Rightarrow> navigation \<Rightarrow> int \<Rightarrow> route_item list option \<Rightarrow> bool \<Rightarrow> bool \<Rightarrow> navigation option" where
  "navigation_update env junk this s ritems async has_graph =
     (let this = update_flush junk this s
      in if s \<noteq> route_status_path_done_new \<and> s \<noteq> route_status_path_done_incremental then
           if nv_busy this then navigation_update_done env this True else Some this
         else (case ritems of
             None \<Rightarrow> Some this
           | Some rs \<Rightarrow>
               let this = update_start rs this
               in if async then Some (this\<lparr>nv_idle_ev := True, nv_events := nv_events this + 1\<rparr>)
                  else update_sync env has_graph (this\<lparr>nv_idle_ev := False\<rparr>)))"

definition navigation_new :: "int \<Rightarrow> navigation" where
  "navigation_new delay =
     \<lparr>nv_itms = [], nv_cmds = [], nv_hash = [], nv_next = 0, nv_level_last = 4,
      nv_item_last = \<lparr>it_type = 0, it_id_hi = 0, it_id_lo = 0, it_map = 0\<rparr>, nv_turn_around = 0, nv_turn_around_limit = 3,
      nv_distance_turn = 50, nv_announce = (\<lambda>_ _. -1), nv_delay = delay, nv_curr_delay = 0, nv_turn_around_count = 0,
      nv_busy = False, nv_has_ritem = False, nv_has_sitem = False, nv_nav_status = 0, nv_route_mr = None, nv_idle_ev = False, nv_events = 0,
      nv_log = []\<rparr>"

section \<open>Life of a navigation object\<close>

text \<open>
  The route reports a status, or the event loop is idle and has an event of the object. The maps may answer
  differently every time, as \<open>good\<close> allows; the route has a map.
\<close>

inductive nav_reach :: "(nav_maps \<Rightarrow> bool) \<Rightarrow> navigation \<Rightarrow> bool" for good where
  new: "nav_reach good (navigation_new delay)"
| status: "nav_reach good nv \<Longrightarrow> good env \<Longrightarrow> navigation_update env junk nv s (Some rs) async has_graph = Some nv' \<Longrightarrow>
    nav_reach good nv'"
| idle: "nav_reach good nv \<Longrightarrow> good env \<Longrightarrow> nv_events nv > 0 \<Longrightarrow> navigation_update_idle env has_graph nv = Some nv' \<Longrightarrow>
    nav_reach good nv'"

end
