(* ===== verification/Nav_List_Spec.thy ===== *)
theory Nav_List_Spec
  imports Nav_Update "HOL-Library.Sublist"
begin

text \<open>
  The lists of the navigation object: what cutting them from the front does, that every command refers to
  a live item that is not the first, and that commands can always be made for a route that ends in its
  destination.
\<close>

section \<open>Items and the table\<close>

text \<open>What the list of items has to do with commands and table: addresses and map items.\<close>

definition nav_keys :: "navigation_itm list \<Rightarrow> (nat \<times> item) list" where
  "nav_keys itms = map (\<lambda>i. (ni_addr i, nw_item (ni_way i))) itms"

definition hash_live :: "(nat \<times> item) list \<Rightarrow> (item \<times> nat) list \<Rightarrow> bool" where
  "hash_live ks h \<longleftrightarrow> (\<forall>(k, a) \<in> set h. \<exists>it. (a, it) \<in> set ks \<and> item_is_equal k it)"

lemma nav_keys_simps [simp]:
  "nav_keys [] = []" "nav_keys (i # itms) = (ni_addr i, nw_item (ni_way i)) # nav_keys itms"
  "nav_keys (xs @ ys) = nav_keys xs @ nav_keys ys" "map fst (nav_keys itms) = map ni_addr itms"
  by (simp_all add: nav_keys_def comp_def)

lemma nav_keys_drop: "nav_keys (tl itms) = tl (nav_keys itms)"
  by (simp add: nav_keys_def map_tl)

lemma nav_keys_addrs: "nav_keys itms = nav_keys itms' \<Longrightarrow> map ni_addr itms = map ni_addr itms'"
  by (metis nav_keys_simps(4))

lemma hash_live_remove:
  "hash_live ((a, it) # ks) h \<Longrightarrow> hash_live ks (nav_hash_remove h it)"
  using item_is_equal_sym by (fastforce simp: hash_live_def nav_hash_remove_def)

lemma hash_live_insert:
  "hash_live ks h \<Longrightarrow> hash_live (ks @ [(a, it)]) (nav_hash_insert h it a)"
  by (fastforce simp: hash_live_def nav_hash_insert_def item_is_equal_def)

lemma hash_live_lookup:
  "hash_live ks h \<Longrightarrow> nav_hash_lookup h it = Some a \<Longrightarrow> a \<in> fst ` set ks"
proof -
  assume l: "hash_live ks h" and f: "nav_hash_lookup h it = Some a"
  then obtain k where "(k, a) \<in> set h" by (auto simp: nav_hash_lookup_def find_Some_iff) (metis nth_mem)
  then show ?thesis using l by (force simp: hash_live_def)
qed

section \<open>Cutting the front\<close>

lemma destroy_itms: "fst (destroy_loop stop itms cmds h) = dropWhile (\<lambda>i. stop \<noteq> Some (ni_addr i)) itms"
  by (induction stop itms cmds h rule: destroy_loop.induct) auto

lemma destroy_hash: "hash_live (nav_keys itms) h \<Longrightarrow>
    hash_live (nav_keys (fst (destroy_loop stop itms cmds h))) (snd (snd (destroy_loop stop itms cmds h)))"
  by (induction stop itms cmds h rule: destroy_loop.induct) (auto intro: hash_live_remove)

lemma subseq_set: "subseq xs ys \<Longrightarrow> set xs \<subseteq> set ys"
  by (induction rule: list_emb.induct) auto

text \<open>Exactly the commands for items behind the new first one remain.\<close>

lemma destroy_cmds:
  assumes "distinct (map ni_addr itms)" "subseq (map nc_itm cmds) (tl (map ni_addr itms))"
  shows "fst (snd (destroy_loop stop itms cmds h))
    = filter (\<lambda>c. nc_itm c \<in> ni_addr ` set (tl (dropWhile (\<lambda>i. stop \<noteq> Some (ni_addr i)) itms))) cmds"
  using assms
proof (induction stop itms cmds h rule: destroy_loop.induct)
  case (2 stop itm itms cmds h)
  show ?case
  proof (cases "stop = Some (ni_addr itm)")
    case True
    then show ?thesis using subseq_set [OF 2(3)] by (auto intro!: filter_True [symmetric])
  next
    case stop: False
    let ?rest = "dropWhile (\<lambda>i. stop \<noteq> Some (ni_addr i)) itms"
    show ?thesis
    proof (cases "\<exists>c cs nx nxs. cmds = c # cs \<and> itms = nx # nxs \<and> nc_itm c = ni_addr nx")
      case True
      then obtain c cs nx nxs where e: "cmds = c # cs" "itms = nx # nxs" "nc_itm c = ni_addr nx" by blast
      have "set (tl ?rest) \<subseteq> set nxs"
        unfolding e(2) dropWhile_eq_drop tl_drop list.sel(3) by (rule set_drop_subset)
      then have "nc_itm c \<notin> ni_addr ` set (tl ?rest)" using 2(2) e by auto
      moreover have "subseq (map nc_itm cs) (tl (map ni_addr itms))" using 2(3) e by simp
      ultimately show ?thesis using stop e 2(1) [OF stop] 2(2) by simp
    next
      case False
      have "(case (cmds, itms) of (c # cs, nx # _) \<Rightarrow> if nc_itm c = ni_addr nx then cs else cmds | _ \<Rightarrow> cmds) = cmds"
        using False by (auto split: list.split)
      moreover have "subseq (map nc_itm cmds) (tl (map ni_addr itms))"
        using 2(3) False by (cases cmds; cases itms) (auto simp: subseq_Cons2_iff)
      ultimately show ?thesis using stop 2(1) [OF stop] 2(2) by simp
    qed
  qed
qed (auto dest: list_emb_Nil2)

section \<open>The invariant of the lists\<close>

definition nav_inv :: "navigation \<Rightarrow> bool" where
  "nav_inv nv \<longleftrightarrow> distinct (map ni_addr (nv_itms nv)) \<and> (\<forall>a \<in> ni_addr ` set (nv_itms nv). a < nv_next nv)
     \<and> hash_live (nav_keys (nv_itms nv)) (nv_hash nv) \<and> subseq (map nc_itm (nv_cmds nv)) (tl (map ni_addr (nv_itms nv)))"

lemma destroy_fields:
  "nv_itms (navigation_destroy_itms_cmds nv stop) = fst (destroy_loop stop (nv_itms nv) (nv_cmds nv) (nv_hash nv))"
  "nv_cmds (navigation_destroy_itms_cmds nv stop) = fst (snd (destroy_loop stop (nv_itms nv) (nv_cmds nv) (nv_hash nv)))"
  "nv_hash (navigation_destroy_itms_cmds nv stop) = snd (snd (destroy_loop stop (nv_itms nv) (nv_cmds nv) (nv_hash nv)))"
  "nv_next (navigation_destroy_itms_cmds nv stop) = nv_next nv"
  by (simp_all add: navigation_destroy_itms_cmds_def case_prod_beta)

lemma filter_mem_append: "distinct (xs @ ys) \<Longrightarrow> filter (\<lambda>a. a \<in> set ys) (xs @ ys) = ys"
  by (simp add: disjoint_iff)

lemma filter_addr_drop:
  assumes "distinct (map f xs)"
  shows "filter (\<lambda>a. a \<in> f ` set (tl (drop k xs))) (tl (map f xs)) = tl (map f (drop k xs))"
proof (cases "k < length xs")
  case True
  have e: "tl (map f xs) = map f (take k (tl xs)) @ tl (map f (drop k xs))"
    by (metis append_take_drop_id drop_Suc drop_map map_append map_tl tl_drop)
  have d: "distinct (tl (map f xs))" using assms by (simp add: distinct_tl)
  have "tl (map f (drop k xs)) = map f (tl (drop k xs))" by (simp add: map_tl)
  then have t: "f ` set (tl (drop k xs)) = set (tl (map f (drop k xs)))" by simp
  show ?thesis using d unfolding t e by (rule filter_mem_append)
qed simp

lemma destroy_inv:
  assumes "nav_inv nv"
  shows "nav_inv (navigation_destroy_itms_cmds nv stop)"
    "nv_itms (navigation_destroy_itms_cmds nv stop) = dropWhile (\<lambda>i. stop \<noteq> Some (ni_addr i)) (nv_itms nv)"
    "nv_cmds (navigation_destroy_itms_cmds nv stop)
      = filter (\<lambda>c. nc_itm c \<in> ni_addr ` set (tl (dropWhile (\<lambda>i. stop \<noteq> Some (ni_addr i)) (nv_itms nv)))) (nv_cmds nv)"
proof -
  let ?r = "destroy_loop stop (nv_itms nv) (nv_cmds nv) (nv_hash nv)" and ?itms = "dropWhile (\<lambda>i. stop \<noteq> Some (ni_addr i)) (nv_itms nv)"
  note inv = assms [unfolded nav_inv_def]
  show i: "nv_itms (navigation_destroy_itms_cmds nv stop) = ?itms" by (simp add: destroy_fields destroy_itms)
  show c: "nv_cmds (navigation_destroy_itms_cmds nv stop)
      = filter (\<lambda>c. nc_itm c \<in> ni_addr ` set (tl ?itms)) (nv_cmds nv)"
    using destroy_cmds [of "nv_itms nv" "nv_cmds nv" stop "nv_hash nv"] inv by (simp add: destroy_fields)
  obtain k where k: "?itms = drop k (nv_itms nv)" by (metis dropWhile_eq_drop)
  have h: "hash_live (nav_keys ?itms) (nv_hash (navigation_destroy_itms_cmds nv stop))"
    using destroy_hash [of "nv_itms nv" "nv_hash nv" stop "nv_cmds nv"] inv by (simp add: destroy_fields destroy_itms)
  have d: "distinct (map ni_addr (nv_itms nv))" using inv by simp
  have s: "subseq (map nc_itm (nv_cmds nv)) (tl (map ni_addr (nv_itms nv)))" using inv by simp
  have n: "nv_next (navigation_destroy_itms_cmds nv stop) = nv_next nv" by (simp add: destroy_fields)
  let ?S = "ni_addr ` set (tl ?itms)"
  have f: "filter (\<lambda>a. a \<in> ?S) (tl (map ni_addr (nv_itms nv))) = tl (map ni_addr ?itms)"
    unfolding k using d by (rule filter_addr_drop)
  have "map nc_itm (filter (\<lambda>c. nc_itm c \<in> ?S) (nv_cmds nv)) = filter (\<lambda>a. a \<in> ?S) (map nc_itm (nv_cmds nv))"
    by (simp add: filter_map comp_def)
  then have "subseq (map nc_itm (filter (\<lambda>c. nc_itm c \<in> ?S) (nv_cmds nv))) (tl (map ni_addr ?itms))"
    using subseq_filter [OF s, of "\<lambda>a. a \<in> ?S"] f by simp
  then show "nav_inv (navigation_destroy_itms_cmds nv stop)"
    using inv h set_dropWhileD unfolding nav_inv_def i c n
    by (auto simp: k distinct_drop drop_map [symmetric] dest: in_set_dropD)
qed

section \<open>New items\<close>

lemma ways_update_fields:
  "navigation_itm_ways_update env p itm = Some itm' \<Longrightarrow> \<exists>ws. itm' = itm\<lparr>ni_ways := ws\<rparr>"
  by (auto simp: navigation_itm_ways_update_def split: list.splits if_splits)

lemma way_exits_fields: "way_exits env lst t itm = Some itm' \<Longrightarrow> \<exists>w. itm' = itm\<lparr>ni_way := w\<rparr>"
  by (auto simp: way_exits_def split: if_splits intro: exI [of _ "ni_way itm"])

lemma navigation_itm_update_keys [simp]:
  "ni_addr (navigation_itm_update itm r) = ni_addr itm" "ni_way (navigation_itm_update itm r) = ni_way itm"
  by (simp_all add: navigation_itm_update_def split: option.split)

lemma itm_of_route_addr: "itm_of_route env a lst r = Some (Some itm) \<Longrightarrow> ni_addr itm = a"
  by (auto simp: itm_of_route_def Let_def zero_itm_def split: option.splits prod.splits if_splits Option.bind_splits
      dest!: ways_update_fields way_exits_fields)

lemma append_inv:
  assumes "nav_inv nv" "ni_addr itm = nv_next nv" "hash_live (nav_keys (nv_itms nv @ [itm])) h"
  shows "nav_inv (nav_append itm (nv\<lparr>nv_hash := h\<rparr>))"
proof -
  have "subseq (map nc_itm (nv_cmds nv)) (tl (map ni_addr (nv_itms nv @ [itm])))"
    using assms(1) by (cases "nv_itms nv") (auto simp: nav_inv_def intro: subseq_order.trans dest: list_emb_Nil2)
  then show ?thesis using assms by (auto simp: nav_inv_def nav_append_def less_Suc_eq)
qed

lemma hash_live_mono: "hash_live ks h \<Longrightarrow> set ks \<subseteq> set ks' \<Longrightarrow> hash_live ks' h"
  by (fastforce simp: hash_live_def)

text \<open>The item that stands for the destination: nothing leads away from it.\<close>

definition terminal :: "navigation_itm \<Rightarrow> bool" where
  "terminal t \<longleftrightarrow> ni_ways t = [] \<and> ni_type t = 0"

lemma navigation_itm_new_inv:
  assumes "nav_inv nv" "navigation_itm_new env nv (Some r) = Some nv'"
  shows "nav_inv nv'" and "\<exists>xs h n. nv' = nv\<lparr>nv_itms := nv_itms nv @ xs, nv_hash := h, nv_next := n\<rparr>
    \<and> (xs = [] \<longrightarrow> rt_street_item r = None \<or> ne_street env (the (rt_street_item r)) = None)"
proof -
  let ?lst = "last_opt (nv_itms nv)" and ?a = "nv_next nv"
  have l: "hash_live (nav_keys (nv_itms nv)) (nv_hash nv)" using assms(1) by (simp add: nav_inv_def)
  from assms(2) obtain new where new: "itm_of_route env ?a ?lst r = Some new"
    "Some nv' = (case new of None \<Rightarrow> Some nv | Some itm \<Rightarrow> Some (nav_append itm (nv\<lparr>nv_hash := nav_hash_insert (nv_hash nv) (nw_item (ni_way itm)) ?a\<rparr>)))"
    by (auto simp: navigation_itm_new_def Let_def split: Option.bind_splits)
  show "nav_inv nv'"
  proof (cases new)
    case (Some itm)
    have a: "ni_addr itm = ?a" using itm_of_route_addr new(1) Some by blast
    have "nav_inv (nav_append itm (nv\<lparr>nv_hash := nav_hash_insert (nv_hash nv) (nw_item (ni_way itm)) ?a\<rparr>))"
      by (rule append_inv [OF assms(1) a]) (use hash_live_insert [OF l] a in simp)
    then show ?thesis using new(2) Some by simp
  qed (use new assms(1) in simp)
  have none: "new = None \<Longrightarrow> rt_street_item r = None \<or> ne_street env (the (rt_street_item r)) = None"
    using new(1) by (auto simp: itm_of_route_def Let_def split: option.splits prod.splits if_splits Option.bind_splits)
  show "\<exists>xs h n. nv' = nv\<lparr>nv_itms := nv_itms nv @ xs, nv_hash := h, nv_next := n\<rparr>
    \<and> (xs = [] \<longrightarrow> rt_street_item r = None \<or> ne_street env (the (rt_street_item r)) = None)"
  proof (cases new)
    case None
    then have "nv' = nv\<lparr>nv_itms := nv_itms nv @ [], nv_hash := nv_hash nv, nv_next := nv_next nv\<rparr>" using new(2) by simp
    then show ?thesis using none [OF None] by blast
  next
    case (Some itm)
    let ?h = "nav_hash_insert (nv_hash nv) (nw_item (ni_way itm)) ?a"
    have "nv' = nv\<lparr>nv_itms := nv_itms nv @ [itm], nv_hash := ?h, nv_next := Suc ?a\<rparr>" using new(2) Some by (simp add: nav_append_def)
    then show ?thesis by blast
  qed
qed

lemma navigation_itm_new_terminal:
  assumes "nav_inv nv"
  shows "\<exists>t. navigation_itm_new env nv None = Some (nav_append t nv) \<and> terminal t \<and> ni_addr t = nv_next nv
    \<and> ni_length t = 0 \<and> nav_inv (nav_append t nv)"
proof -
  obtain t where t: "navigation_itm_new env nv None = Some (nav_append t nv)" "terminal t" "ni_addr t = nv_next nv" "ni_length t = 0"
    by (simp add: navigation_itm_new_def Let_def terminal_def zero_itm_def zero_way_def split: option.split)
  have "hash_live (nav_keys (nv_itms nv @ [t])) (nv_hash nv)"
    using assms hash_live_mono [of "nav_keys (nv_itms nv)"] by (simp add: nav_inv_def subset_insertI)
  from append_inv [OF assms t(3) this] have "nav_inv (nav_append t nv)" by simp
  then show ?thesis using t by blast
qed

section \<open>Making the commands\<close>

lemma terminal_silent: "terminal t \<Longrightarrow> maneuver_required2 vp old prevs t nexts = None"
  by (simp add: terminal_def maneuver_required2_def maneuver_verdict_def man_scanned_def man_only_def man_turn_def man_one_option_def
      man_motorway_def man_ambiguous_def man_junction_def is_motorway_like_def road_types Let_def)

lemma command_new_itm: "command_new env prevs itm nexts m = Some c \<Longrightarrow> nc_itm c = ni_addr itm"
  by (auto simp: command_new_def navigation_analyze_roundabout_def Let_def split: if_splits list.splits prod.splits)

lemma command_new_total: "nexts \<noteq> [] \<or> nm_type m = type_nav_destination \<Longrightarrow> \<exists>c. command_new env prevs itm nexts m = Some c"
  by (cases nexts) (auto simp: command_new_def Let_def)

text \<open>Commands are only made for the items between the first one and the destination, in their order.\<close>

lemma maneuver_loop_spec:
  assumes "terminal t"
  shows "\<exists>cs. maneuver_loop env prevs (xs @ [t]) = Some cs \<and> subseq (map nc_itm cs) (map ni_addr (if prevs = [] then tl xs else xs))"
proof (induction xs arbitrary: prevs)
  case Nil
  show ?case using terminal_silent [OF assms] by (cases prevs) simp_all
next
  case (Cons x xs)
  show ?case
  proof (cases prevs)
    case Nil
    then show ?thesis using Cons.IH [of "[x]"] by simp
  next
    case p: (Cons l ps)
    obtain cs where cs: "maneuver_loop env (x # l # ps) (xs @ [t]) = Some cs" "subseq (map nc_itm cs) (map ni_addr xs)"
      using Cons.IH [of "x # l # ps"] by auto
    show ?thesis
    proof (cases "maneuver_required2 (ne_vehicleprofile env) l ps x (xs @ [t])")
      case None
      then show ?thesis using cs p by auto
    next
      case (Some m)
      obtain c where c: "command_new env (l # ps) x (xs @ [t]) m = Some c" using command_new_total [of "xs @ [t]"] by blast
      then show ?thesis using Some cs p command_new_itm [OF c] by auto
    qed
  qed
qed

text \<open>The last command is that for the destination.\<close>

definition ends_at_destination :: "navigation \<Rightarrow> bool" where
  "ends_at_destination nv \<longleftrightarrow> nv_itms nv \<noteq> [] \<and> nv_cmds nv \<noteq> []
     \<and> nm_type (nc_maneuver (last (nv_cmds nv))) = type_nav_destination \<and> nc_itm (last (nv_cmds nv)) = ni_addr (last (nv_itms nv))"

lemma make_maneuvers_spec:
  assumes "terminal t" "nv_itms nv = xs @ [t]" "xs \<noteq> []" "nav_inv nv"
  shows "\<exists>cs. make_maneuvers env nv = Some (nv\<lparr>nv_cmds := cs\<rparr>) \<and> nav_inv (nv\<lparr>nv_cmds := cs\<rparr>) \<and> ends_at_destination (nv\<lparr>nv_cmds := cs\<rparr>)"
proof -
  let ?env = "nav_env.truncate env"
  obtain cs where cs: "maneuver_loop ?env [] (xs @ [t]) = Some cs" "subseq (map nc_itm cs) (map ni_addr (tl xs))"
    using maneuver_loop_spec [OF assms(1), of ?env "[]" xs] by auto
  obtain c where c: "command_new ?env (tl (rev (nv_itms nv))) t [] destination_maneuver = Some c"
    "nm_type (nc_maneuver c) = type_nav_destination" "nc_itm c = ni_addr t"
    by (simp add: command_new_def destination_maneuver_def)
  have "subseq (map nc_itm (cs @ [c])) (tl (map ni_addr (xs @ [t])))"
    using cs(2) assms(3) c(3) by (simp add: map_tl list_emb_append_mono)
  then have "nav_inv (nv\<lparr>nv_cmds := cs @ [c]\<rparr>)" using assms(2,4) by (simp add: nav_inv_def)
  moreover have "make_maneuvers env nv = Some (nv\<lparr>nv_cmds := cs @ [c]\<rparr>)"
    using cs c by (simp add: make_maneuvers_def assms(2))
  ultimately show ?thesis using c assms(2) by (auto simp: ends_at_destination_def)
qed

end
