(* ===== verification/Nav_Item_Spec.thy ===== *)
theory Nav_Item_Spec
  imports Nav_List_Spec
begin

text \<open>
  Single items of the navigation object: their ways, coordinates, bearings and destinations.
\<close>

section \<open>Destinations\<close>

fun join :: "char \<Rightarrow> string list \<Rightarrow> string" where
  "join sep [] = []"
| "join sep [f] = f"
| "join sep (f # fs) = f @ sep # join sep fs"

lemma join_snoc: "fs \<noteq> [] \<Longrightarrow> join sep (fs @ [f]) = join sep fs @ sep # f"
  by (induction sep fs rule: join.induct) auto

lemma split_loop_join:
  assumes "fs \<noteq> []" "\<forall>f \<in> set fs. sep \<notin> set f"
  shows "split_loop sep (join sep fs) acc = map (\<lambda>f. \<lparr>des_name = dropWhile c_isspace f, des_rank = 0\<rparr>) fs @ acc"
  using assms
proof (induction fs arbitrary: acc rule: rev_induct)
  case (snoc f fs)
  show ?case
  proof (cases "fs = []")
    case True
    then show ?thesis using snoc.prems by (subst split_loop.simps) simp
  next
    case False
    have f: "\<forall>x \<in> set (rev f). x \<noteq> sep" using snoc.prems by auto
    have j: "rev (join sep (fs @ [f])) = rev f @ sep # rev (join sep fs)" using False by (simp add: join_snoc)
    have post: "rev (takeWhile (\<lambda>c. c \<noteq> sep) (rev (join sep (fs @ [f])))) = f"
      and pre: "rev (tl (dropWhile (\<lambda>c. c \<noteq> sep) (rev (join sep (fs @ [f]))))) = join sep fs"
      unfolding j using takeWhile_append2 [of "rev f" "\<lambda>c. c \<noteq> sep"] dropWhile_append2 [of "rev f" "\<lambda>c. c \<noteq> sep"] f by simp_all
    have "sep \<in> set (join sep (fs @ [f]))" using False by (simp add: join_snoc)
    then have "split_loop sep (join sep (fs @ [f])) acc = split_loop sep (join sep fs) (\<lparr>des_name = dropWhile c_isspace f, des_rank = 0\<rparr> # acc)"
      by (subst split_loop.simps) (simp add: post pre Let_def)
    then show ?thesis using snoc.IH [OF False] snoc.prems by simp
  qed
qed simp

text \<open>
  C11: the destinations of a signpost, written one after the other with a separator, are read back in their
  order, each with rank zero; blanks before a name are dropped.
\<close>

theorem nav_destinations_split:
  assumes "join sep ds \<noteq> []" "\<forall>d \<in> set ds. sep \<notin> set d"
  shows "split_string_to_list way (join sep ds) sep
    = Some (length ds, way\<lparr>nw_destination := map (\<lambda>d. \<lparr>des_name = dropWhile c_isspace d, des_rank = 0\<rparr>) ds\<rparr>)"
proof -
  have "ds \<noteq> []" using assms(1) by auto
  then show ?thesis using assms split_loop_join [of ds sep "[]"] by (simp add: split_string_to_list_def Let_def)
qed

theorem nav_destinations_split_witness:
  "\<forall>way. split_string_to_list way ''Ulm; Bonn'' (CHR '';'')
    = Some (2, way\<lparr>nw_destination := [\<lparr>des_name = ''Ulm'', des_rank = 0\<rparr>, \<lparr>des_name = ''Bonn'', des_rank = 0\<rparr>]\<rparr>)"
proof
  fix way
  have j: "join (CHR '';'') [''Ulm'', '' Bonn''] = ''Ulm; Bonn''"
    "dropWhile c_isspace ''Ulm'' = ''Ulm''" "dropWhile c_isspace '' Bonn'' = ''Bonn''" by code_simp+
  show "split_string_to_list way ''Ulm; Bonn'' (CHR '';'')
      = Some (2, way\<lparr>nw_destination := [\<lparr>des_name = ''Ulm'', des_rank = 0\<rparr>, \<lparr>des_name = ''Bonn'', des_rank = 0\<rparr>]\<rparr>)"
    using nav_destinations_split [of "CHR '';''" "[''Ulm'', '' Bonn'']" way] unfolding j(1) by (simp add: j(2,3) del: dropWhile.simps)
qed

section \<open>Coordinates\<close>

definition window_of :: "coord list \<Rightarrow> coord list \<Rightarrow> nat \<Rightarrow> bool" where
  "window_of ys c i \<longleftrightarrow> length c = 5 \<and> i = min 4 (length ys) \<and> (length ys \<le> 4 \<longrightarrow> take i c = ys)
     \<and> (4 \<le> length ys \<longrightarrow> c ! 0 = ys ! 0 \<and> c ! 1 = ys ! 1 \<and> c ! 2 = ys ! (length ys - 2) \<and> c ! 3 = ys ! (length ys - 1))"

lemma window_step:
  assumes "window_of ys c i"
  shows "if i < 4 then window_of (ys @ [x]) (c[i := x]) (i + 1)
    else window_of (ys @ [x]) (c[4 := x, 2 := c ! 3, 3 := x]) 4"
proof (cases "length ys < 4")
  case True
  then have i: "i = length ys" "take i c = ys" "length c = 5" using assms by (auto simp: window_of_def)
  have t: "take (Suc i) (c[i := x]) = ys @ [x]" using i True by (simp add: take_Suc_conv_app_nth)
  have n: "c[i := x] ! k = (ys @ [x]) ! k" if "k < Suc i" for k using t that by (metis nth_take)
  have "length ys = 3 \<Longrightarrow> i = 3" using i(1) by simp
  then show ?thesis using True i t n [of 0] n [of 1] n [of 2] n [of 3] by (cases "length ys = 3") (auto simp: window_of_def nth_append)
next
  case False
  then show ?thesis using assms by (auto simp: window_of_def nth_append nth_list_update)
qed

lemma coord_window_spec:
  "window_of ys c i \<Longrightarrow> window_of (ys @ xs) (fst (coord_window c i xs)) (snd (coord_window c i xs))"
proof (induction xs arbitrary: ys c i)
  case (Cons x xs)
  show ?case
  proof (cases "i < 4")
    case True
    then show ?thesis using Cons.IH [of "ys @ [x]" "c[i := x]" "i + 1"] window_step [OF Cons.prems, of x] by (simp add: Let_def)
  next
    case False
    then have i: "i = 4" "length c = 5" using Cons.prems by (auto simp: window_of_def)
    then show ?thesis
      using Cons.IH [of "ys @ [x]" "c[4 := x, 2 := c ! 3, 3 := x]" 4] window_step [OF Cons.prems, of x] by (simp add: Let_def)
  qed
qed simp

lemma coord_window_ends:
  assumes "coord_window (replicate 5 zero_coord) 0 cs = (c, n)"
  shows "n = min 4 (length cs)" "cs \<noteq> [] \<Longrightarrow> c ! 0 = hd cs" "cs \<noteq> [] \<Longrightarrow> c ! (n - 1) = last cs"
    "2 \<le> length cs \<Longrightarrow> c ! 1 = cs ! 1" "2 \<le> length cs \<Longrightarrow> c ! (n - 2) = cs ! (length cs - 2)"
proof -
  have "window_of [] (replicate 5 zero_coord) 0" by (simp add: window_of_def)
  then have w: "window_of cs c n" using coord_window_spec [of "[]" "replicate 5 zero_coord" 0 cs] assms by simp
  then show n: "n = min 4 (length cs)" by (simp add: window_of_def)
  have t: "length cs \<le> 4 \<Longrightarrow> take (length cs) c = cs" using w by (metis min.absorb2 window_of_def)
  have k: "c ! k = cs ! k" if "k < length cs" "length cs \<le> 4" for k
    using t [OF that(2)] that(1) by (metis nth_take)
  show "cs \<noteq> [] \<Longrightarrow> c ! 0 = hd cs" "cs \<noteq> [] \<Longrightarrow> c ! (n - 1) = last cs"
    "2 \<le> length cs \<Longrightarrow> c ! 1 = cs ! 1" "2 \<le> length cs \<Longrightarrow> c ! (n - 2) = cs ! (length cs - 2)"
    using w k by (cases "length cs \<le> 4"; force simp: window_of_def n hd_conv_nth last_conv_nth)+
qed

section \<open>An item of the route\<close>

lemma split_string_fields:
  "split_string_to_list w s sep = Some (n, w') \<Longrightarrow> \<exists>ds. w' = w\<lparr>nw_destination := ds\<rparr>"
  by (auto simp: split_string_to_list_def Let_def split: if_splits intro: exI [of _ "nw_destination w"])

lemma exit_attr_kept:
  "exit_attr lst a w = Some w' \<Longrightarrow> nw_angle2 w' = nw_angle2 w \<and> nw_item w' = nw_item w \<and> nw_dir w' = nw_dir w"
  by (auto simp: exit_attr_def split: exit_attr.splits if_splits prod.splits Option.bind_splits dest!: split_string_fields)

lemma exits_kept:
  "fold_option (exit_attr lst) as w = Some w' \<Longrightarrow> nw_angle2 w' = nw_angle2 w \<and> nw_item w' = nw_item w \<and> nw_dir w' = nw_dir w"
  by (induction "exit_attr lst" as w rule: fold_option.induct) (auto split: Option.bind_splits dest!: exit_attr_kept)

lemma way_exits_kept:
  "way_exits env lst t itm = Some itm' \<Longrightarrow> \<exists>w. itm' = itm\<lparr>ni_way := w\<rparr> \<and> nw_angle2 w = nw_angle2 (ni_way itm)
    \<and> nw_item w = nw_item (ni_way itm) \<and> nw_dir w = nw_dir (ni_way itm)"
  by (auto simp: way_exits_def split: if_splits dest!: exits_kept intro: exI [of _ "ni_way itm"])

lemma way_destination_kept:
  "way_destination w s = Some w' \<Longrightarrow> nw_item w' = nw_item w \<and> nw_dir w' = nw_dir w"
  by (auto simp: way_destination_def Let_def split: option.splits dest!: split_string_fields)

text \<open>
  C10: an item of the route becomes an item of the navigation with the street and direction it names, which
  begins at its first and ends at its last coordinate, and has the bearings of its first and last segment,
  however many coordinates lie between them.
\<close>

theorem nav_item_ends:
  assumes "itm_of_route env a lst r = Some (Some itm)" "2 \<le> length (rt_coords r)"
  shows "ni_addr itm = a \<and> Some (nw_item (ni_way itm)) = rt_street_item r
    \<and> ni_start itm = hd (rt_coords r) \<and> ni_end itm = last (rt_coords r)
    \<and> nw_angle2 (ni_way itm) = road_angle (nav_env.truncate env) (rt_coords r ! 0) (rt_coords r ! 1) 0
    \<and> ni_angle_end itm = road_angle (nav_env.truncate env) (rt_coords r ! (length (rt_coords r) - 2)) (last (rt_coords r)) 0"
proof -
  obtain c n where cn: "coord_window (replicate 5 zero_coord) 0 (rt_coords r) = (c, n)" by force
  have ne: "rt_coords r \<noteq> []" using assms(2) by auto
  note ends = coord_window_ends [OF cn]
  have n: "n \<noteq> 0" "1 \<le> n - 1" "n - 1 - 1 = n - 2" using ends(1) assms(2) by auto
  have u: "nw_item (ni_way (navigation_itm_update i r)) = nw_item (ni_way i)" for i by simp
  have "ni_start itm = c ! 0 \<and> ni_end itm = c ! (n - 1)
    \<and> nw_angle2 (ni_way itm) = road_angle (nav_env.truncate env) (c ! 0) (c ! 1) 0
    \<and> ni_angle_end itm = road_angle (nav_env.truncate env) (c ! (n - 2)) (c ! (n - 1)) 0
    \<and> Some (nw_item (ni_way itm)) = rt_street_item r"
    using assms(1) n
    by (auto simp: itm_of_route_def Let_def cn split: option.splits if_splits Option.bind_splits
        dest!: way_exits_kept ways_update_fields way_destination_kept)
  then show ?thesis using itm_of_route_addr [OF assms(1)] ends ne assms(2) by (simp add: hd_conv_nth)
qed

text \<open>A street of one map, and a route that bends on it.\<close>

definition ex_street :: item where
  "ex_street = \<lparr>it_type = type_street_2_city, it_id_hi = 0, it_id_lo = 7, it_map = 1\<rparr>"

definition ex_maps :: nav_maps where
  "ex_maps = \<lparr>ne_at2 = (\<lambda>dx dy. if dx = 0 then 0 else 90), ne_distance = (\<lambda>_ _. 0),
     ne_street = (\<lambda>_. Some \<lparr>mst_type = type_street_2_city, mst_flags = None, mst_name = Some ''Main'', mst_name_systematic = None,
       mst_destination = None, mst_destination_forward = None, mst_destination_backward = None,
       mst_coords = [\<lparr>cx = 0, cy = 0\<rparr>, \<lparr>cx = 0, cy = 9\<rparr>]\<rparr>),
     ne_vehicleprofile = None, ne_graph = (\<lambda>_. []), ne_exits = (\<lambda>_. [])\<rparr>"

definition ex_route :: route_item where
  "ex_route = \<lparr>rt_type = type_street_route, rt_street_item = Some ex_street, rt_direction = Some 1, rt_length = Some 100,
     rt_time = Some 10, rt_speed = Some 50, rt_coords = [\<lparr>cx = 0, cy = 0\<rparr>, \<lparr>cx = 0, cy = 5\<rparr>, \<lparr>cx = 4, cy = 5\<rparr>], rt_graph = True\<rparr>"

theorem nav_item_ends_witness:
  "\<exists>itm. itm_of_route ex_maps 0 None ex_route = Some (Some itm) \<and> ni_end itm = \<lparr>cx = 4, cy = 5\<rparr>"
proof -
  have "map_option (map_option ni_addr) (itm_of_route ex_maps 0 None ex_route) = Some (Some 0)" "2 \<le> length (rt_coords ex_route)"
    by code_simp+
  then obtain itm where itm: "itm_of_route ex_maps 0 None ex_route = Some (Some itm)" "2 \<le> length (rt_coords ex_route)" by auto
  from nav_item_ends [OF itm] show ?thesis using itm(1) by (auto simp: ex_route_def)
qed

section \<open>The ways at a junction\<close>

abbreviation ways_differ :: "navigation_way list \<Rightarrow> bool" where
  "ways_differ \<equiv> sorted_wrt (\<lambda>v w. \<not> is_same_way v w)"

lemma ways_dup_total:
  assumes "ways_differ l" "suffix hs l"
  shows "ways_dup l w hs = Some (list_ex (is_same_way w) hs)"
  using assms(2)
proof (induction hs)
  case (Cons h hs)
  have "\<not> is_same_way (hd l) x" if "x \<in> set hs" for x
  proof -
    obtain ps where l: "l = ps @ h # hs" using Cons.prems by (auto simp: suffix_def)
    then show ?thesis using assms(1) that by (cases ps) (auto simp: sorted_wrt_append)
  qed
  then have "\<not> list_ex (is_same_way (hd l)) hs" by (simp add: list_ex_iff)
  then show ?case using Cons by (auto dest: suffix_ConsD)
qed simp

lemma navigation_way_init_item [simp]: "nw_item (navigation_way_init env w) = nw_item w"
  by (simp add: navigation_way_init_def Let_def split: option.split list.split)

text \<open>The ways of a junction but those of the route: nothing is freed twice, and no way is listed twice.\<close>

definition off_route :: "item \<Rightarrow> item option \<Rightarrow> navigation_way \<Rightarrow> bool" where
  "off_route it prev w \<longleftrightarrow> \<not> item_is_equal it (nw_item w) \<and> (case prev of None \<Rightarrow> True | Some p \<Rightarrow> \<not> item_is_equal p (nw_item w))"

lemma ways_loop_spec:
  "ways_differ l \<Longrightarrow> list_all (off_route it prev) l \<Longrightarrow>
    \<exists>l'. ways_loop env it prev gs l = Some l' \<and> ways_differ l' \<and> list_all (off_route it prev) l'"
proof (induction gs arbitrary: l)
  case (Cons g gs)
  show ?case
  proof (cases "\<exists>sitem d. gi_type g = type_rg_segment \<and> gi_street_item g = Some sitem \<and> gi_direction g = Some d
      \<and> it_type sitem \<noteq> type_street_turn_restriction_no \<and> it_type sitem \<noteq> type_street_turn_restriction_only
      \<and> \<not> item_is_equal it sitem \<and> (case prev of None \<Rightarrow> True | Some p \<Rightarrow> \<not> item_is_equal p sitem)")
    case True
    then obtain sitem d where g: "gi_type g = type_rg_segment" "gi_street_item g = Some sitem" "gi_direction g = Some d"
      "it_type sitem \<noteq> type_street_turn_restriction_no" "it_type sitem \<noteq> type_street_turn_restriction_only"
      "\<not> item_is_equal it sitem" "case prev of None \<Rightarrow> True | Some p \<Rightarrow> \<not> item_is_equal p sitem" by blast
    let ?w = "navigation_way_init env \<lparr>nw_dir = d, nw_angle2 = 0, nw_flags = 0, nw_item = sitem, nw_name = None,
      nw_name_systematic = None, nw_exit_ref = None, nw_exit_label = None, nw_destination = []\<rparr>"
    let ?l = "if list_ex (is_same_way ?w) l then l else ?w # l"
    have d: "ways_dup l ?w l = Some (list_ex (is_same_way ?w) l)" by (rule ways_dup_total [OF Cons.prems(1)]) simp
    have w: "off_route it prev ?w" using g(6,7) by (simp add: off_route_def split: option.splits)
    have "ways_differ ?l" using Cons.prems(1) by (auto simp: list_ex_iff)
    moreover have "list_all (off_route it prev) ?l" using Cons.prems(2) w by simp
    moreover have "ways_loop env it prev (g # gs) l = ways_loop env it prev gs ?l"
      using g d by (auto simp: Let_def split: option.splits)
    ultimately show ?thesis using Cons.IH [of ?l] by simp
  next
    case False
    then have "ways_loop env it prev (g # gs) l = ways_loop env it prev gs l" by (auto split: option.split)
    then show ?thesis using Cons.IH [OF Cons.prems] by simp
  qed
qed simp


lemma ways_update_total: "\<exists>ws. navigation_itm_ways_update env prev itm = Some (itm\<lparr>ni_ways := ws\<rparr>)"
  using ways_loop_spec [of "[]" "nw_item (ni_way itm)" prev "nav_env.truncate env"]
  by (force simp: navigation_itm_ways_update_def split: list.split)

section \<open>Nothing but missing coordinates stops an item\<close>

lemma split_string_total: "nw_destination w = [] \<or> s \<noteq> [] \<Longrightarrow> \<exists>n w'. split_string_to_list w s sep = Some (n, w')"
  by (auto simp: split_string_to_list_def Let_def)

lemma exit_attr_total: "\<exists>w'. exit_attr lst a w = Some w'"
proof (cases a)
  case (Exit_to s)
  show ?thesis
  proof (cases "nw_destination w = [] \<and> nw_type w = type_ramp \<and> (case lst of None \<Rightarrow> False | Some l \<Rightarrow> ni_type l \<noteq> type_ramp)")
    case True
    obtain n w1 where w1: "split_string_to_list w s (CHR '';'') = Some (n, w1)" using split_string_total True by blast
    have "s = [] \<Longrightarrow> nw_destination w1 = []" using w1 True by (auto simp: split_string_to_list_def split: if_splits)
    then obtain n2 w2 where "split_string_to_list w1 s (CHR '','') = Some (n2, w2)" using split_string_total by blast
    then show ?thesis using w1 True Exit_to by (simp add: exit_attr_def)
  qed (auto simp: exit_attr_def Exit_to)
qed (auto simp: exit_attr_def)

lemma exits_total: "\<exists>w'. fold_option (exit_attr lst) as w = Some w'"
proof (induction as arbitrary: w)
  case (Cons a as)
  obtain w1 where "exit_attr lst a w = Some w1" using exit_attr_total by blast
  then show ?case using Cons by simp
qed simp

lemma way_exits_total: "\<exists>w. way_exits env lst t itm = Some (itm\<lparr>ni_way := w\<rparr>)"
proof (cases "way_exits env lst t itm = Some itm")
  case True
  then show ?thesis by (intro exI [of _ "ni_way itm"]) simp
next
  case False
  then show ?thesis
    using exits_total [of lst "concat (map ex_attrs (filter (\<lambda>x. ex_type x = type_highway_exit \<and> ex_coord x = Some (ni_start itm)) (ne_exits env (ni_start itm))))" "ni_way itm"]
    by (auto simp: way_exits_def split: if_splits)
qed

lemma way_destination_total: "nw_destination w = [] \<Longrightarrow> \<exists>w'. way_destination w s = Some w'"
  using split_string_total [of w] by (auto simp: way_destination_def Let_def split: option.split) (metis map_option_eq_Some)+

lemma itm_of_route_total:
  assumes "rt_coords r \<noteq> []"
  shows "\<exists>new. itm_of_route env a lst r = Some new"
proof (cases "rt_street_item r")
  case (Some sitem)
  show ?thesis
  proof (cases "ne_street env sitem")
    case s: (Some s)
    obtain c n where cn: "coord_window (replicate 5 zero_coord) 0 (rt_coords r) = (c, n)" by force
    have n: "n \<noteq> 0" using coord_window_ends(1) [OF cn] assms by simp
    let ?w = "zero_way\<lparr>nw_dir := (case rt_direction r of Some d \<Rightarrow> d | None \<Rightarrow> 0), nw_item := sitem,
      nw_flags := (case mst_flags s of Some f \<Rightarrow> f | None \<Rightarrow> 0), nw_name := mst_name s, nw_name_systematic := mst_name_systematic s\<rparr>"
    obtain w where w: "way_destination ?w s = Some w" using way_destination_total [of ?w s] by (auto simp: zero_way_def)
    have u: "\<exists>j. navigation_itm_ways_update env p i = Some j" for p i using ways_update_total [of env p i] by auto
    have x: "\<exists>j. map_option Some (way_exits env lst (mst_type s) i) = Some j" for i using way_exits_total [of env lst "mst_type s" i] by auto
    have b: "(\<exists>j. m = Some j) \<Longrightarrow> \<exists>j. m \<bind> (\<lambda>itm. map_option Some (way_exits env lst (mst_type s) itm)) = Some j" for m
      using x by auto
    show ?thesis using n w by (auto simp: itm_of_route_def Some s cn Let_def way_exits_total intro!: b u x [simplified])
  qed (simp add: itm_of_route_def Some)
qed (simp add: itm_of_route_def)

lemma navigation_itm_new_total: "rt_coords r \<noteq> [] \<Longrightarrow> \<exists>nv'. navigation_itm_new env nv (Some r) = Some nv'"
  using itm_of_route_total [of r env "nv_next nv" "last_opt (nv_itms nv)"] by (auto simp: navigation_itm_new_def Let_def split: option.split)

end
