(* ===== verification/Nav_Update_Spec.thy ===== *)
theory Nav_Update_Spec
  imports Nav_Item_Spec
begin

text \<open>
  What every step of an update keeps: addresses, table and commands stay in order while the route is read in pieces, an
  update is cancelled, or its end makes the commands.
\<close>

section \<open>What the steps keep\<close>

lemma nav_inv_keys:
  assumes "nav_keys (nv_itms nv') = nav_keys (nv_itms nv)" "nv_cmds nv' = nv_cmds nv" "nv_hash nv' = nv_hash nv" "nv_next nv' = nv_next nv"
  shows "nav_inv nv' = nav_inv nv"
proof -
  have m: "map ni_addr (nv_itms nv') = map ni_addr (nv_itms nv)" using nav_keys_addrs [OF assms(1)] .
  then have "ni_addr ` set (nv_itms nv') = ni_addr ` set (nv_itms nv)" by (metis set_map)
  then show ?thesis using assms m by (simp add: nav_inv_def)
qed

lemma dest_loop_keys: "nav_keys (dest_loop len time n itms) = nav_keys itms"
  by (induction len time n itms rule: dest_loop.induct) (simp_all add: Let_def)

lemma nav_keys_rev: "nav_keys (rev itms) = rev (nav_keys itms)"
  by (simp add: nav_keys_def rev_map)

lemma calculate_dest_distance_eq:
  "\<exists>itms. calculate_dest_distance nv False = Some (nv\<lparr>nv_itms := itms\<rparr>) \<and> nav_keys itms = nav_keys (nv_itms nv)"
  by (intro exI [of _ "rev (dest_loop 0 0 0 (rev (nv_itms nv)))"]) (simp add: calculate_dest_distance_def nav_keys_rev dest_loop_keys)

definition nav_core :: "navigation \<Rightarrow> (nat \<times> item) list \<times> navigation_command list \<times> (item \<times> nat) list \<times> nat \<times> bool \<times> bool \<times> route_item list option" where
  "nav_core nv = (nav_keys (nv_itms nv), nv_cmds nv, nv_hash nv, nv_next nv, nv_busy nv, nv_has_sitem nv, nv_route_mr nv)"

lemma announce_core:
  "announce_turn_around nv d f = Some (nv', r) \<Longrightarrow> nav_core nv' = nav_core nv \<and> nv_itms nv' = nv_itms nv"
  "announce_level_change nv i c d f = Some (nv', r) \<Longrightarrow> nav_core nv' = nav_core nv \<and> nv_itms nv' = nv_itms nv"
  "announce_new_maneuver nv it f = (nv', g) \<Longrightarrow> nav_core nv' = nav_core nv \<and> nv_itms nv' = nv_itms nv"
  by (auto simp: announce_turn_around_def announce_level_change_def announce_new_maneuver_def nav_core_def Let_def
      split: if_splits Option.bind_splits)

lemma callbacks_core:
  assumes "navigation_call_callbacks nv f = Some nv'"
  shows "nav_core nv' = nav_core nv" "nv_itms nv' = nv_itms nv"
proof -
  have c: "nav_core (x\<lparr>nv_log := l\<rparr>) = nav_core x" "nav_core (x\<lparr>nv_distance_turn := d\<rparr>) = nav_core x"
    "nav_core (x\<lparr>nv_level_last := k\<rparr>) = nav_core x" "nav_core (x\<lparr>nv_curr_delay := d\<rparr>) = nav_core x" for x l d k
    by (simp_all add: nav_core_def)
  show "nav_core nv' = nav_core nv" "nv_itms nv' = nv_itms nv"
    using assms
    by (auto simp: navigation_call_callbacks_def Let_def c split: list.splits if_splits Option.bind_splits prod.splits
        dest!: announce_core)
qed

text \<open>The invariant between the steps: a street seen means an item and an update under way.\<close>

definition nav_ok :: "navigation \<Rightarrow> bool" where
  "nav_ok nv \<longleftrightarrow> nav_inv nv \<and> (nv_has_sitem nv \<longrightarrow> nv_itms nv \<noteq> [] \<and> nv_busy nv) \<and> (nv_route_mr nv \<noteq> None \<longrightarrow> nv_busy nv)"

lemma nav_keys_empty: "nav_keys itms = [] \<longleftrightarrow> itms = []" by (simp add: nav_keys_def)

lemma nav_ok_core: "nav_core nv' = nav_core nv \<Longrightarrow> nav_ok nv' = nav_ok nv"
  using nav_inv_keys [of nv' nv] by (auto simp: nav_core_def nav_ok_def) (metis nav_keys_empty)+

lemma destroy_core [simp]:
  "nv_has_sitem (navigation_destroy_itms_cmds nv s) = nv_has_sitem nv" "nv_has_ritem (navigation_destroy_itms_cmds nv s) = nv_has_ritem nv"
  "nv_busy (navigation_destroy_itms_cmds nv s) = nv_busy nv" "nv_route_mr (navigation_destroy_itms_cmds nv s) = nv_route_mr nv"
  "nv_nav_status (navigation_destroy_itms_cmds nv s) = nv_nav_status nv" "nv_events (navigation_destroy_itms_cmds nv s) = nv_events nv"
  "nv_idle_ev (navigation_destroy_itms_cmds nv s) = nv_idle_ev nv" "nv_turn_around (navigation_destroy_itms_cmds nv s) = nv_turn_around nv"
  "nv_turn_around_limit (navigation_destroy_itms_cmds nv s) = nv_turn_around_limit nv"
  "nv_distance_turn (navigation_destroy_itms_cmds nv s) = nv_distance_turn nv"
  by (simp_all add: navigation_destroy_itms_cmds_def case_prod_beta)

lemma destroy_all:
  assumes "nav_inv nv"
  shows "nv_itms (navigation_destroy_itms_cmds nv None) = []" "nv_cmds (navigation_destroy_itms_cmds nv None) = []"
    "nv_hash (navigation_destroy_itms_cmds nv None) = []"
proof -
  show i: "nv_itms (navigation_destroy_itms_cmds nv None) = []" "nv_cmds (navigation_destroy_itms_cmds nv None) = []"
    using destroy_inv(2,3) [OF assms, of None] by (simp_all add: dropWhile_eq_Nil_conv [THEN iffD2])
  have "hash_live (nav_keys (nv_itms (navigation_destroy_itms_cmds nv None))) (nv_hash (navigation_destroy_itms_cmds nv None))"
    using destroy_inv(1) [OF assms, of None] by (simp add: nav_inv_def)
  then show "nv_hash (navigation_destroy_itms_cmds nv None) = []" unfolding i by (cases "nv_hash (navigation_destroy_itms_cmds nv None)") (auto simp: hash_live_def)
qed

section \<open>The end of an update\<close>

text \<open>The part that makes the commands, for an object that has read the whole route.\<close>

lemma finish_route:
  assumes "nav_inv nv" "nv_itms nv \<noteq> []"
  shows "\<exists>nv1 nv2. navigation_itm_new env nv None = Some nv1 \<and> make_maneuvers env nv1 = Some nv2
    \<and> nav_inv nv2 \<and> ends_at_destination nv2 \<and> (\<exists>t cs. nv2 = (nav_append t nv)\<lparr>nv_cmds := cs\<rparr> \<and> ni_length t = 0)"
proof -
  obtain t where t: "navigation_itm_new env nv None = Some (nav_append t nv)" "terminal t" "ni_length t = 0" "nav_inv (nav_append t nv)"
    using navigation_itm_new_terminal [OF assms(1), of env] by blast
  have "nv_itms (nav_append t nv) = nv_itms nv @ [t]" by (simp add: nav_append_def)
  from make_maneuvers_spec [OF t(2) this assms(2) t(4), of env] obtain cs where
    "make_maneuvers env (nav_append t nv) = Some ((nav_append t nv)\<lparr>nv_cmds := cs\<rparr>)"
    "nav_inv ((nav_append t nv)\<lparr>nv_cmds := cs\<rparr>)" "ends_at_destination ((nav_append t nv)\<lparr>nv_cmds := cs\<rparr>)" by blast
  then show ?thesis using t by blast
qed

lemma nav_ok_reset: "nav_inv nv \<Longrightarrow> nav_ok (update_reset nv)"
  using nav_inv_keys [of "update_reset nv" nv] by (simp add: nav_ok_def update_reset_def)

lemma nav_inv_status [simp]: "nav_inv (set_nav_status s nv) = nav_inv nv"
  using nav_inv_keys [of "set_nav_status s nv" nv] by (simp add: set_nav_status_def)

lemma nav_core_status [simp]: "nav_core (set_nav_status s nv) = nav_core nv"
  by (simp add: nav_core_def set_nav_status_def)

lemma drop_idle_core [simp]: "nav_core (drop_idle_event nv) = nav_core nv"
  by (simp add: nav_core_def drop_idle_event_def)

lemma distance_callbacks_inv:
  assumes "nav_inv x" "calculate_dest_distance x False = Some y" "navigation_call_callbacks y False = Some z"
  shows "nav_inv z"
proof -
  obtain itms where y: "y = x\<lparr>nv_itms := itms\<rparr>" "nav_keys itms = nav_keys (nv_itms x)"
    using calculate_dest_distance_eq [of x] assms(2) by auto
  have "nav_inv y" using nav_inv_keys [of y x] y assms(1) by simp
  moreover have "nav_inv z = nav_inv y" using callbacks_core [OF assms(3)] nav_inv_keys [of z y] by (simp add: nav_core_def)
  ultimately show ?thesis by simp
qed

lemma update_commands_inv:
  assumes "nav_ok nv" "update_commands env nv = Some nv'"
  shows "nav_inv nv'"
proof (cases "nv_has_sitem nv")
  case False
  then show ?thesis using assms destroy_inv(1) [of nv None] by (simp add: update_commands_def nav_ok_def)
next
  case True
  then have i: "nav_inv nv" "nv_itms nv \<noteq> []" using assms(1) by (simp_all add: nav_ok_def)
  obtain n1 n2 where n: "navigation_itm_new env nv None = Some n1" "make_maneuvers env n1 = Some n2" "nav_inv n2"
    using finish_route [OF i, of env] by blast
  define m where "m = (if \<not> nv_has_ritem nv then n2 else nv)"
  have "update_commands env nv = calculate_dest_distance m False \<bind> (\<lambda>y. navigation_call_callbacks y False)"
    using True n(1,2) by (simp add: update_commands_def m_def)
  then have "calculate_dest_distance m False \<bind> (\<lambda>y. navigation_call_callbacks y False) = Some nv'" using assms(2) by simp
  then obtain y where y: "calculate_dest_distance m False = Some y" "navigation_call_callbacks y False = Some nv'"
    by (auto simp: bind_eq_Some_conv)
  have "nav_inv m" using n(3) i(1) by (simp add: m_def)
  from distance_callbacks_inv [OF this y] show ?thesis .
qed

lemma update_done_ok:
  assumes "nav_ok nv" "navigation_update_done env nv cancel = Some nv'"
  shows "nav_ok nv' \<and> \<not> nv_busy nv'"
proof -
  have e: "nav_ok (drop_idle_event nv)" using assms(1) nav_ok_core [of "drop_idle_event nv" nv] by simp
  show ?thesis
  proof (cases cancel)
    case True
    then have "nv' = update_reset (drop_idle_event nv)" using assms(2) by (simp add: navigation_update_done_def)
    then show ?thesis using e nav_ok_reset by (simp add: nav_ok_def update_reset_def)
  next
    case False
    then obtain x where x: "update_commands env (drop_idle_event nv) = Some x" "nv' = update_reset (set_nav_status status_routing x)"
      using assms(2) by (cases "update_commands env (drop_idle_event nv)") (simp_all add: navigation_update_done_def)
    then show ?thesis using update_commands_inv [OF e x(1)] nav_ok_reset [of "set_nav_status status_routing x"] by (simp add: update_reset_def)
  qed
qed

text \<open>A cancelled update only needs the lists to be in order.\<close>

lemma update_cancel_ok: "nav_inv nv \<Longrightarrow> navigation_update_done env nv True = Some nv' \<Longrightarrow> nav_ok nv'"
  using nav_ok_reset [of "drop_idle_event nv"] nav_inv_keys [of "drop_idle_event nv" nv] drop_idle_core [of nv]
  by (simp add: navigation_update_done_def nav_core_def)

section \<open>Reading the route\<close>

text \<open>Every street of the route is on the map.\<close>

definition complete_maps :: "nav_maps \<Rightarrow> bool" where
  "complete_maps env \<longleftrightarrow> (\<forall>it. ne_street env it \<noteq> None)"

lemma idle_turn_core [simp]: "nav_core (idle_turn_around t nv) = nav_core nv" "nv_itms (idle_turn_around t nv) = nv_itms nv"
  by (simp_all add: nav_core_def idle_turn_around_def Let_def)

lemma nav_itm_mem: "nav_itm nv a = Some (ps, i, ns) \<Longrightarrow> i \<in> set (nv_itms nv) \<and> ni_addr i = a"
proof -
  have "itm_split a ps0 itms = Some (ps, i, ns) \<Longrightarrow> i \<in> set itms \<and> ni_addr i = a" for ps0 itms
    by (induction a ps0 itms rule: itm_split.induct) (auto split: if_splits)
  then show "nav_itm nv a = Some (ps, i, ns) \<Longrightarrow> i \<in> set (nv_itms nv) \<and> ni_addr i = a" by (simp add: nav_itm_def)
qed

text \<open>The first street: the items from the one found on remain; without one all are destroyed.\<close>

lemma idle_first_street_spec:
  assumes "nav_inv nv" "idle_first_street nv sitem d r = Some (found, nv')"
  shows "nav_inv nv'" "found \<longleftrightarrow> nv_itms nv' \<noteq> []" "nv_has_sitem nv' = nv_has_sitem nv" "nv_busy nv' = nv_busy nv" "nv_route_mr nv' = nv_route_mr nv"
proof -
  obtain itm where itm: "keep_from nv itm r = Some (found, nv')"
    using assms(2) by (auto simp: idle_first_street_def split: Option.bind_splits)
  let ?nv1 = "navigation_destroy_itms_cmds nv (map_option ni_addr itm)"
  have "nav_inv nv' \<and> (found \<longleftrightarrow> nv_itms nv' \<noteq> []) \<and> nv_has_sitem nv' = nv_has_sitem nv \<and> nv_busy nv' = nv_busy nv \<and> nv_route_mr nv' = nv_route_mr nv"
  proof (cases itm)
    case None
    then show ?thesis using itm destroy_inv(1) [OF assms(1)] destroy_all [OF assms(1)] by (auto simp: keep_from_def)
  next
    case (Some i)
    then obtain f fs where f: "nv_itms ?nv1 = f # fs" "nv' = ?nv1\<lparr>nv_itms := navigation_itm_update f r # fs\<rparr>" "found"
      using itm by (auto simp: keep_from_def Let_def split: list.splits)
    then have "nav_inv nv' = nav_inv ?nv1" by (intro nav_inv_keys) simp_all
    then show ?thesis using destroy_inv(1) [OF assms(1)] f by simp
  qed
  then show "nav_inv nv'" "found \<longleftrightarrow> nv_itms nv' \<noteq> []" "nv_has_sitem nv' = nv_has_sitem nv" "nv_busy nv' = nv_busy nv" "nv_route_mr nv' = nv_route_mr nv"
    by simp_all
qed

lemma idle_street_ok:
  assumes "complete_maps env" "nav_ok nv" "nv_busy nv" "idle_street env r nv = Some (found, nv')"
  shows "nav_ok nv' \<and> nv_busy nv'"
proof -
  have new: "nav_ok z \<and> nv_busy z" if y: "nav_inv y" "nv_busy y" "nv_itms y \<noteq> [] \<or> rt_street_item r \<noteq> None \<or> \<not> nv_has_sitem y"
    and z: "navigation_itm_new env y (Some r) = Some z" for y z
  proof -
    obtain xs h n where e: "z = y\<lparr>nv_itms := nv_itms y @ xs, nv_hash := h, nv_next := n\<rparr>"
      "xs = [] \<longrightarrow> rt_street_item r = None \<or> ne_street env (the (rt_street_item r)) = None"
      using navigation_itm_new_inv(2) [OF y(1) z] by blast
    have "xs \<noteq> [] \<or> nv_itms y \<noteq> [] \<or> \<not> nv_has_sitem y" using e(2) y(3) assms(1) unfolding complete_maps_def by blast
    then show ?thesis using navigation_itm_new_inv(1) [OF y(1) z] y(2) e(1) by (auto simp: nav_ok_def)
  qed
  have i: "nav_inv nv" "nv_has_sitem nv \<longrightarrow> nv_itms nv \<noteq> []" using assms(2) by (simp_all add: nav_ok_def)
  show ?thesis
  proof (cases "\<not> nv_has_sitem nv \<and> rt_street_item r \<noteq> None")
    case True
    then obtain sitem f y where s: "rt_street_item r = Some sitem"
      "idle_first_street (nv\<lparr>nv_has_sitem := True\<rparr>) sitem (rt_direction r) r = Some (f, y)"
      "(if f then Some (True, y) else navigation_itm_new env y (Some r) \<bind> (\<lambda>this. Some (False, this))) = Some (found, nv')"
      using assms(4) by (auto simp: idle_street_def bind_eq_Some_conv)
    have inv: "nav_inv (nv\<lparr>nv_has_sitem := True\<rparr>)" using nav_inv_keys [of "nv\<lparr>nv_has_sitem := True\<rparr>" nv] i(1) by simp
    note first = idle_first_street_spec [OF inv s(2), simplified]
    show ?thesis
    proof (cases f)
      case True
      then show ?thesis using s(3) first assms(2,3) by (simp add: nav_ok_def)
    next
      case False
      then obtain z where "navigation_itm_new env y (Some r) = Some z" "nv' = z" using s(3) by (auto simp: bind_eq_Some_conv)
      then show ?thesis using new [of y z] first assms(3) s(1) by simp
    qed
  next
    case False
    then have "idle_street env r nv = navigation_itm_new env nv (Some r) \<bind> (\<lambda>this. Some (False, this))"
      by (cases "nv_has_sitem nv") (auto simp: idle_street_def split: option.split)
    then have "navigation_itm_new env nv (Some r) \<bind> (\<lambda>this. Some (False, this)) = Some (found, nv')" using assms(4) by simp
    then obtain z where "navigation_itm_new env nv (Some r) = Some z" "nv' = z" by (auto simp: bind_eq_Some_conv)
    then show ?thesis using new [of nv z] i assms(3) by auto
  qed
qed

lemma idle_loop_ok:
  assumes "complete_maps env"
  shows "nav_ok nv \<Longrightarrow> nv_busy nv \<Longrightarrow> idle_loop env n rs nv = Some (n', rs', nv') \<Longrightarrow> nav_ok nv' \<and> nv_busy nv'"
proof (induction rs arbitrary: n nv)
  case Nil
  have "nav_core (nv\<lparr>nv_has_ritem := False\<rparr>) = nav_core nv" by (simp add: nav_core_def)
  then have "nav_ok (nv\<lparr>nv_has_ritem := False\<rparr>)" using nav_ok_core [of "nv\<lparr>nv_has_ritem := False\<rparr>" nv] Nil by simp
  then show ?case using Nil by (auto split: if_splits)
next
  case (Cons r rs)
  define x where "x = idle_turn_around (rt_type r) (nv\<lparr>nv_has_ritem := True\<rparr>)"
  have "nav_core x = nav_core nv" by (simp add: x_def) (simp add: nav_core_def)
  then have x: "nav_ok x" "nv_busy x" using nav_ok_core [of x nv] Cons.prems by (simp_all add: nav_core_def)
  show ?case
  proof (cases n)
    case 0
    then show ?thesis using Cons.prems by simp
  next
    case (Suc m)
    show ?thesis
    proof (cases "rt_type r = type_street_route")
      case False
      then show ?thesis using Cons.IH [OF x] Cons.prems(3) Suc by (simp add: x_def)
    next
      case True
      then obtain f y where y: "idle_street env r x = Some (f, y)"
        "(if f then Some (Suc m, rs, y) else idle_loop env m rs y) = Some (n', rs', nv')"
        using Cons.prems(3) Suc by (auto simp: x_def Let_def bind_eq_Some_conv)
      have "nav_ok y" "nv_busy y" using idle_street_ok [OF assms x y(1)] by simp_all
      then show ?thesis using y(2) Cons.IH by (cases f) auto
    qed
  qed
qed

lemma update_idle_ok:
  assumes "complete_maps env" "nav_ok nv" "navigation_update_idle env hg nv = Some nv'"
  shows "nav_ok nv'"
proof (cases hg)
  case False
  then show ?thesis using update_done_ok [OF assms(2)] assms(3) by (simp add: navigation_update_idle_def)
next
  case True
  then obtain rs n rs' x where x: "nv_route_mr nv = Some rs" "idle_loop env 100 rs nv = Some (n, rs', x)"
    "(if n > 0 then navigation_update_done env (x\<lparr>nv_route_mr := Some rs'\<rparr>) False else Some (x\<lparr>nv_route_mr := Some rs'\<rparr>)) = Some nv'"
    using assms(3) by (auto simp: navigation_update_idle_def Let_def bind_eq_Some_conv)
  have b: "nv_busy nv" using assms(2) x(1) by (simp add: nav_ok_def)
  have i: "nav_ok x \<and> nv_busy x" using idle_loop_ok [OF assms(1,2) b x(2)] .
  then have "nav_ok (x\<lparr>nv_route_mr := Some rs'\<rparr>)" using nav_inv_keys [of "x\<lparr>nv_route_mr := Some rs'\<rparr>" x] by (simp add: nav_ok_def)
  then show ?thesis using x(3) update_done_ok [of "x\<lparr>nv_route_mr := Some rs'\<rparr>"] by (cases "n > 0") auto
qed

lemma update_sync_ok:
  assumes "update_sync env hg nv = Some nv'"
  shows "complete_maps env \<longrightarrow> nav_ok nv \<longrightarrow> nav_ok nv'"
  using _ assms
proof (rule update_sync.raw_induct [where P = "\<lambda>env hg nv nv'. complete_maps env \<longrightarrow> nav_ok nv \<longrightarrow> nav_ok nv'"])
  fix f env hg nv nv'
  assume ih: "\<And>env hg nv nv'. f env hg nv = Some nv' \<Longrightarrow> complete_maps env \<longrightarrow> nav_ok nv \<longrightarrow> nav_ok nv'"
    and body: "(if nv_busy nv then navigation_update_idle env hg nv \<bind> (\<lambda>this. f env hg this) else Some nv) = Some nv'"
  show "complete_maps env \<longrightarrow> nav_ok nv \<longrightarrow> nav_ok nv'"
  proof (cases "nv_busy nv")
    case True
    then obtain x where x: "navigation_update_idle env hg nv = Some x" "f env hg x = Some nv'"
      using body by (auto simp: bind_eq_Some_conv)
    then show ?thesis using update_idle_ok [of env nv hg x] ih [OF x(2)] by blast
  qed (use body in simp)
qed

lemma update_flush_ok:
  assumes "nav_ok nv"
  shows "nav_inv (update_flush junk nv s)" "\<not> nv_busy (update_flush junk nv s) \<Longrightarrow> nav_ok (update_flush junk nv s)"
    "s = route_status_path_done_new \<Longrightarrow> nv_itms (update_flush junk nv s) = [] \<and> nv_cmds (update_flush junk nv s) = []
      \<and> nv_hash (update_flush junk nv s) = []"
proof -
  let ?s = "set_nav_status (update_nav_status junk (nv_nav_status nv) s) nv"
  have s: "nav_ok ?s" using assms nav_ok_core [of ?s nv] by simp
  then have i: "nav_inv ?s" by (simp add: nav_ok_def)
  show "nav_inv (update_flush junk nv s)" "\<not> nv_busy (update_flush junk nv s) \<Longrightarrow> nav_ok (update_flush junk nv s)"
    using s i destroy_inv(1) [OF i, of None] by (auto simp: update_flush_def navigation_flush_def nav_ok_def Let_def)
  show "s = route_status_path_done_new \<Longrightarrow> nv_itms (update_flush junk nv s) = [] \<and> nv_cmds (update_flush junk nv s) = []
      \<and> nv_hash (update_flush junk nv s) = []"
    using destroy_all [OF i] by (simp add: update_flush_def navigation_flush_def Let_def)
qed

lemma update_start_ok: "nav_inv nv \<Longrightarrow> nav_ok ((update_start rs nv)\<lparr>nv_idle_ev := b, nv_events := e\<rparr>)"
  using nav_inv_keys [of "(update_start rs nv)\<lparr>nv_idle_ev := b, nv_events := e\<rparr>" nv] by (simp add: nav_ok_def update_start_def)

lemma navigation_update_ok:
  assumes "complete_maps env" "nav_ok nv" "navigation_update env junk nv s (Some rs) async hg = Some nv'"
  shows "nav_ok nv'"
proof -
  let ?x = "update_flush junk nv s"
  note x = update_flush_ok(1,2) [OF assms(2), of junk s]
  consider "s \<noteq> route_status_path_done_new \<and> s \<noteq> route_status_path_done_incremental" "nv_busy ?x" "navigation_update_done env ?x True = Some nv'"
    | "\<not> nv_busy ?x" "nv' = ?x"
    | "nv' = (update_start rs ?x)\<lparr>nv_idle_ev := True, nv_events := nv_events (update_start rs ?x) + 1\<rparr>"
    | "update_sync env hg ((update_start rs ?x)\<lparr>nv_idle_ev := False\<rparr>) = Some nv'"
    using assms(3) unfolding navigation_update_def Let_def option.case by (metis option.inject)
  then show ?thesis
  proof cases
    case 4
    have "nav_ok ((update_start rs ?x)\<lparr>nv_idle_ev := False\<rparr>)"
      using update_start_ok [OF x(1), where b = False and e = "nv_events ?x" and rs = rs] by (simp add: update_start_def)
    then show ?thesis using update_sync_ok [OF 4] assms(1) by simp
  qed (use x update_cancel_ok update_start_ok in auto)
qed

end
