(* ===== verification/Nav_Life_Spec.thy ===== *)
theory Nav_Life_Spec
  imports Nav_Update_Spec
begin

text \<open>
  What holds for every navigation object the program can reach, that a synchronous update for a new route
  returns with commands up to the destination, how the commands behind the vehicle are dropped; and what
  goes wrong when streets are missing from the map or updates overlap.
\<close>

section \<open>Reachable objects\<close>

lemma nav_reach_ok: "nav_reach complete_maps nv \<Longrightarrow> nav_ok nv"
proof (induction rule: nav_reach.induct)
  case (new delay)
  then show ?case by (simp add: nav_ok_def nav_inv_def navigation_new_def hash_live_def)
next
  case (status nv env junk s rs async hg nv')
  then show ?case using navigation_update_ok by blast
next
  case (idle nv env hg nv')
  then show ?case using update_idle_ok by blast
qed


section \<open>Callbacks return\<close>

lemma turn_distance_500:
  assumes "distance \<le> 2097152000"
  shows "k \<le> 22 \<Longrightarrow> \<exists>d. turn_distance distance (500 * 2 ^ k) = Some d"
proof (induction "22 - k" arbitrary: k)
  case 0
  then have k: "k = 22" by simp
  have "\<not> distance > 500 * 2 ^ k" unfolding k using assms by simp
  then show ?case by (subst turn_distance.simps) simp
next
  case (Suc n)
  then have k: "Suc k \<le> 22" "n = 22 - Suc k" by auto
  have "(2::int) ^ Suc k \<le> 4194304" using power_increasing [OF k(1), of "2::int"] by simp
  moreover have "(0::int) \<le> 2 ^ Suc k" by simp
  ultimately have "in_i32 (500 * 2 ^ Suc k)" unfolding in_i32_def by linarith
  then have "i32 (500 * 2 ^ k * 2) = 500 * 2 ^ Suc k" by (simp add: mult.commute)
  moreover have "(500 :: int) \<le> 500 * 2 ^ k" by simp
  ultimately show ?case using Suc.hyps(1) [OF k(2) k(1)] by (subst turn_distance.simps) simp
qed

lemma turn_distance_returns:
  assumes "distance \<le> 2097152000"
  shows "\<exists>d. turn_distance distance d0 = Some d"
proof -
  have small: "\<exists>d. turn_distance distance x = Some d" if "x < 500" for x
    using turn_distance_500 [OF assms, of 0] that by (subst turn_distance.simps) simp
  show ?thesis
  proof (induction "nat (distance - d0)" arbitrary: d0 rule: less_induct)
    case less
    show ?case
    proof (cases "distance > d0 \<and> 500 \<le> d0")
      case True
      show ?thesis
      proof (cases "in_i32 (d0 * 2)")
        case i: True
        have "nat (distance - d0 * 2) < nat (distance - d0)" using True by simp
        then show ?thesis using less [of "d0 * 2"] True i by (subst turn_distance.simps) simp
      next
        case False
        then have "0 \<le> d0 * 2 - 2147483648" "d0 * 2 - 2147483648 < 4294967296" using True assms by (auto simp: in_i32_def)
        then have "(d0 * 2 - 2147483648) mod 4294967296 = d0 * 2 - 2147483648" by (rule mod_pos_pos_trivial)
        moreover have "(d0 * 2 + 2147483648) mod 4294967296 = (d0 * 2 - 2147483648) mod 4294967296"
          using minus_mod_self2 [of "d0 * 2 + 2147483648" 4294967296] by simp
        ultimately have "i32 (d0 * 2) = d0 * 2 - 4294967296" by (simp add: i32_def)
        then have "i32 (d0 * 2) < 500" using True assms by simp
        then show ?thesis using small True by (subst turn_distance.simps) simp
      qed
    next
      case False
      then show ?thesis using small [of d0] by (cases "d0 < 500") (simp, subst turn_distance.simps, simp)
    qed
  qed
qed

lemma itm_split_found:
  "a \<in> ni_addr ` set itms \<Longrightarrow> \<exists>ps i ns. itm_split a prevs itms = Some (ps, i, ns) \<and> i \<in> set itms \<and> ni_addr i = a
    \<and> (prevs \<noteq> [] \<or> a \<noteq> ni_addr (hd itms) \<longrightarrow> ps \<noteq> [])"
proof (induction itms arbitrary: prevs)
  case (Cons x xs)
  show ?case
  proof (cases "ni_addr x = a")
    case False
    then show ?thesis using Cons.IH [of "x # prevs"] Cons.prems by auto
  qed auto
qed simp

lemma nav_itm_command:
  assumes "nav_inv nv" "c \<in> set (nv_cmds nv)"
  shows "\<exists>ps i ns. nav_itm nv (nc_itm c) = Some (ps, i, ns) \<and> i \<in> set (nv_itms nv) \<and> ps \<noteq> []"
proof -
  have "nc_itm c \<in> set (tl (map ni_addr (nv_itms nv)))"
    using assms subseq_set [of "map nc_itm (nv_cmds nv)" "tl (map ni_addr (nv_itms nv))"] by (auto simp: nav_inv_def)
  then have "nc_itm c \<in> ni_addr ` set (nv_itms nv)" "nc_itm c \<noteq> ni_addr (hd (nv_itms nv))"
    using assms(1) by (cases "nv_itms nv"; force simp: nav_inv_def)+
  then show ?thesis using itm_split_found [of "nc_itm c" "nv_itms nv" "[]"] by (auto simp: nav_itm_def)
qed

lemma announce_level_cmd_total:
  assumes "nav_inv nv" "c \<in> set (nv_cmds nv)"
  shows "\<exists>l. navigation_get_announce_level_cmd nv i c d = Some l"
proof -
  obtain c0 cs where c0: "nv_cmds nv = c0 # cs" using assms(2) by (cases "nv_cmds nv") auto
  obtain ps j ns where n: "nav_itm nv (nc_itm c) = Some (ps, j, ns)" "ps \<noteq> []" using nav_itm_command [OF assms] by blast
  obtain ps0 j0 ns0 where n0: "nav_itm nv (nc_itm c0) = Some (ps0, j0, ns0)" using nav_itm_command [OF assms(1), of c0] c0 by auto
  show ?thesis using n n0 by (cases ps) (auto simp: navigation_get_announce_level_cmd_def c0 Let_def)
qed

lemma callbacks_total:
  assumes "nav_inv nv" "\<forall>i \<in> set (nv_itms nv). 0 \<le> ni_dest_length i \<and> ni_dest_length i \<le> 2000000000"
  shows "\<exists>nv'. navigation_call_callbacks nv f = Some nv'"
proof (cases "nv_cmds nv")
  case (Cons c cs)
  let ?l = "nv\<lparr>nv_log := nv_log nv @ [Callback_maneuvers]\<rparr>"
  have inv: "nav_inv ?l" "nav_inv (?l\<lparr>nv_distance_turn := 50\<rparr>)" using nav_inv_keys [of ?l nv] nav_inv_keys [of "?l\<lparr>nv_distance_turn := 50\<rparr>" nv] assms(1) by simp_all
  have c: "c \<in> set (nv_cmds (?l\<lparr>nv_distance_turn := 50\<rparr>))" using Cons by simp
  obtain ps i ns where i: "nav_itm ?l (nc_itm c) = Some (ps, i, ns)" "i \<in> set (nv_itms nv)"
    using nav_itm_command [OF inv(1), of c] Cons by auto
  then obtain x xs where x: "nv_itms nv = x # xs" by (cases "nv_itms nv") auto
  let ?d = "i32 (ni_dest_length x - ni_dest_length i)"
  have "0 \<le> ni_dest_length x" "ni_dest_length x \<le> 2000000000" "0 \<le> ni_dest_length i" "ni_dest_length i \<le> 2000000000"
    using assms(2) i(2) x by auto
  then have "?d \<le> 2097152000" by (simp add: in_i32_def)
  then obtain d where "turn_distance ?d (nv_distance_turn nv) = Some d" using turn_distance_returns by blast
  then have t: "\<exists>r. announce_turn_around ?l ?d f = Some r" by (auto simp: announce_turn_around_def)
  obtain g where "navigation_get_announce_level_cmd (?l\<lparr>nv_distance_turn := 50\<rparr>) x c e = Some (g e)" for e
    using announce_level_cmd_total [OF inv(2) c, of x] by metis
  then have a: "\<exists>r. announce_level_change (?l\<lparr>nv_distance_turn := 50\<rparr>) x c e f = Some r" for e
    by (auto simp: announce_level_change_def Let_def)
  show ?thesis using t a i(1) by (fastforce simp: navigation_call_callbacks_def Cons x Let_def bind_eq_Some_conv case_prod_beta)
qed (simp add: navigation_call_callbacks_def)

lemma dest_loop_bounds:
  assumes "\<forall>i \<in> set itms. 0 \<le> ni_length i" "0 \<le> l" "l + sum_list (map ni_length itms) \<le> 2000000000"
  shows "\<forall>i \<in> set (dest_loop l t n itms). 0 \<le> ni_dest_length i \<and> ni_dest_length i \<le> 2000000000"
  using assms
proof (induction l t n itms rule: dest_loop.induct)
  case (2 l t n itm itms)
  have "0 \<le> sum_list (map ni_length itms)" using 2(2) by (intro sum_list_nonneg) auto
  then have "i32 (l + ni_length itm) = l + ni_length itm" using 2 by (intro i32_id) (auto simp: in_i32_def)
  then show ?case using 2 \<open>0 \<le> sum_list _\<close> by (auto simp: Let_def)
qed simp

section \<open>A new route\<close>

text \<open>The length an item gets from the route.\<close>

definition route_len :: "route_item \<Rightarrow> int" where
  "route_len r = ni_length (navigation_itm_update (zero_itm 0) r)"

lemma itm_of_route_len: "itm_of_route env a lst r = Some (Some itm) \<Longrightarrow> ni_length itm = route_len r"
  by (auto simp: itm_of_route_def Let_def route_len_def navigation_itm_update_def zero_itm_def
      split: option.splits prod.splits if_splits Option.bind_splits dest!: ways_update_fields way_exits_fields)

lemma navigation_itm_new_len:
  assumes "navigation_itm_new env nv (Some r) = Some nv'"
  shows "\<exists>xs. nv_itms nv' = nv_itms nv @ xs \<and> (xs = [] \<or> (\<exists>i. xs = [i] \<and> ni_length i = route_len r))"
    and "rt_street_item r = None \<Longrightarrow> nv' = nv"
proof -
  obtain new where new: "itm_of_route env (nv_next nv) (last_opt (nv_itms nv)) r = Some new"
    "Some nv' = (case new of None \<Rightarrow> Some nv | Some itm \<Rightarrow> Some (nav_append itm (nv\<lparr>nv_hash := nav_hash_insert (nv_hash nv) (nw_item (ni_way itm)) (nv_next nv)\<rparr>)))"
    using assms by (auto simp: navigation_itm_new_def Let_def split: Option.bind_splits)
  show "\<exists>xs. nv_itms nv' = nv_itms nv @ xs \<and> (xs = [] \<or> (\<exists>i. xs = [i] \<and> ni_length i = route_len r))"
    using new itm_of_route_len by (cases new) (auto simp: nav_append_def)
  show "rt_street_item r = None \<Longrightarrow> nv' = nv" using assms by (simp add: navigation_itm_new_def itm_of_route_def Let_def)
qed

text \<open>An update that started without items; the lengths of the items made so far add up to at most \<open>c\<close>.\<close>

definition fresh :: "int \<Rightarrow> navigation \<Rightarrow> bool" where
  "fresh c nv \<longleftrightarrow> nav_ok nv \<and> nv_busy nv \<and> (\<not> nv_has_sitem nv \<longrightarrow> nv_itms nv = [] \<and> nv_hash nv = [])
     \<and> (\<forall>i \<in> set (nv_itms nv). 0 \<le> ni_length i) \<and> sum_list (map ni_length (nv_itms nv)) \<le> c"

definition has_street :: "route_item list \<Rightarrow> bool" where
  "has_street rs \<longleftrightarrow> list_ex (\<lambda>r. rt_type r = type_street_route \<and> rt_street_item r \<noteq> None) rs"

lemma destroy_empty: "nv_itms nv = [] \<Longrightarrow> navigation_destroy_itms_cmds nv s = nv"
  by (cases nv) (simp add: navigation_destroy_itms_cmds_def)

lemma idle_street_fresh:
  assumes "complete_maps env" "fresh c nv" "rt_coords r \<noteq> []" "0 \<le> route_len r"
  shows "\<exists>nv'. idle_street env r nv = Some (False, nv') \<and> fresh (c + route_len r) nv'
    \<and> (nv_has_sitem nv' \<longleftrightarrow> nv_has_sitem nv \<or> rt_street_item r \<noteq> None) \<and> nv_route_mr nv' = nv_route_mr nv"
proof -
  define y where "y = (if rt_street_item r = None then nv else nv\<lparr>nv_has_sitem := True\<rparr>)"
  have e: "\<not> nv_has_sitem nv \<Longrightarrow> nv_itms nv = [] \<and> nv_hash nv = []" using assms(2) by (simp add: fresh_def)
  have iy: "nav_inv y" using assms(2) nav_inv_keys [of y nv] by (simp add: fresh_def nav_ok_def y_def)
  have fs: "idle_first_street (nv\<lparr>nv_has_sitem := True\<rparr>) sitem d r = Some (False, nv\<lparr>nv_has_sitem := True\<rparr>)" if "\<not> nv_has_sitem nv" for sitem d
    using e [OF that] destroy_empty [of "nv\<lparr>nv_has_sitem := True\<rparr>"]
    by (simp add: idle_first_street_def known_street_def keep_from_def nav_hash_lookup_def Let_def)
  have yn: "nv_has_sitem nv \<Longrightarrow> y = nv" by (cases nv) (simp add: y_def)
  obtain z where z: "navigation_itm_new env y (Some r) = Some z" using navigation_itm_new_total [OF assms(3)] by blast
  have s: "idle_street env r nv = Some (False, z)"
  proof (cases "\<not> nv_has_sitem nv \<and> rt_street_item r \<noteq> None")
    case True
    then show ?thesis using fs z by (auto simp: idle_street_def y_def)
  next
    case False
    then have "y = nv" using yn by (cases "nv_has_sitem nv") (simp_all add: y_def)
    then show ?thesis using False z by (cases "nv_has_sitem nv") (auto simp: idle_street_def split: option.split)
  qed
  obtain xs where xs: "nv_itms z = nv_itms y @ xs" "xs = [] \<or> (\<exists>i. xs = [i] \<and> ni_length i = route_len r)"
    using navigation_itm_new_len(1) [OF z] by blast
  obtain xs' h n where zf: "z = y\<lparr>nv_itms := nv_itms y @ xs', nv_hash := h, nv_next := n\<rparr>"
    using navigation_itm_new_inv(2) [OF iy z] by blast
  have f: "nv_itms y = nv_itms nv" "nv_has_sitem y \<longleftrightarrow> nv_has_sitem nv \<or> rt_street_item r \<noteq> None" "nv_route_mr y = nv_route_mr nv"
    by (auto simp: y_def)
  have zk: "nv_has_sitem z = nv_has_sitem y" "nv_route_mr z = nv_route_mr y" unfolding zf by simp_all
  have ok: "nav_ok z \<and> nv_busy z" using idle_street_ok [OF assms(1) _ _ s] assms(2) by (simp add: fresh_def)
  have none: "\<not> nv_has_sitem z \<Longrightarrow> nv_itms z = [] \<and> nv_hash z = []"
    using navigation_itm_new_len(2) [OF z] zk f(2) e by (auto simp: y_def)
  have "fresh (c + route_len r) z"
    using ok none xs f(1) assms(2,4) by (auto simp: fresh_def)
  moreover have "nv_has_sitem z \<longleftrightarrow> nv_has_sitem nv \<or> rt_street_item r \<noteq> None" "nv_route_mr z = nv_route_mr nv" using zk f by simp_all
  ultimately show ?thesis using s by (intro exI [of _ z] conjI)
qed

lemma idle_loop_fresh:
  assumes "complete_maps env"
  shows "fresh c nv \<Longrightarrow> \<forall>r \<in> set rs. rt_coords r \<noteq> [] \<and> 0 \<le> route_len r \<Longrightarrow>
    \<exists>n' rs' nv' c'. idle_loop env n rs nv = Some (n', rs', nv') \<and> fresh c' nv' \<and> c' + sum_list (map route_len rs') \<le> c + sum_list (map route_len rs)
      \<and> (nv_has_sitem nv' \<or> has_street rs' \<longleftrightarrow> nv_has_sitem nv \<or> has_street rs) \<and> set rs' \<subseteq> set rs
      \<and> (n' = 0 \<or> rs' = [] \<and> \<not> nv_has_ritem nv') \<and> length rs' \<le> length rs \<and> (0 < n \<longrightarrow> n' = 0 \<longrightarrow> length rs' < length rs)
      \<and> nv_route_mr nv' = nv_route_mr nv"
proof (induction rs arbitrary: n nv c)
  case Nil
  define x where "x = nv\<lparr>nv_has_ritem := False\<rparr>"
  have "fresh c x" using Nil(1) nav_ok_core [of x nv] by (simp add: fresh_def x_def) (simp add: nav_core_def)
  then show ?case using Nil(1) by (cases n) (auto simp: x_def)
next
  case (Cons r rs)
  define x where "x = idle_turn_around (rt_type r) (nv\<lparr>nv_has_ritem := True\<rparr>)"
  have xf: "nv_itms x = nv_itms nv" "nv_hash x = nv_hash nv" "nv_has_sitem x = nv_has_sitem nv" "nv_busy x = nv_busy nv" "nv_route_mr x = nv_route_mr nv"
    "nav_core x = nav_core nv"
    by (simp_all add: x_def) (simp_all add: idle_turn_around_def Let_def nav_core_def)
  have x: "fresh c x" using Cons.prems(1) nav_ok_core [OF xf(6)] xf by (simp add: fresh_def)
  have r: "rt_coords r \<noteq> []" "0 \<le> route_len r" "\<forall>r \<in> set rs. rt_coords r \<noteq> [] \<and> 0 \<le> route_len r" using Cons.prems(2) by auto
  show ?case
  proof (cases n)
    case 0
    then show ?thesis using Cons.prems(1) by (intro exI [of _ 0] exI [of _ "r # rs"] exI [of _ nv] exI [of _ c]) simp
  next
    case (Suc m)
    have "\<exists>y k d. idle_loop env n (r # rs) nv = idle_loop env k rs y \<and> (k = m \<or> k = n) \<and> fresh d y \<and> d \<le> c + route_len r
      \<and> (nv_has_sitem y \<longleftrightarrow> nv_has_sitem nv \<or> has_street [r]) \<and> nv_route_mr y = nv_route_mr nv"
    proof (cases "rt_type r = type_street_route")
      case False
      then show ?thesis using Suc x xf r(2) by (intro exI [of _ x] exI [of _ n] exI [of _ c]) (simp add: x_def has_street_def)
    next
      case True
      obtain y where "idle_street env r x = Some (False, y)" "fresh (c + route_len r) y"
        "nv_has_sitem y \<longleftrightarrow> nv_has_sitem x \<or> rt_street_item r \<noteq> None" "nv_route_mr y = nv_route_mr x"
        using idle_street_fresh [OF assms x r(1,2)] by blast
      then show ?thesis using True Suc xf
        by (intro exI [of _ y] exI [of _ m] exI [of _ "c + route_len r"]) (simp add: x_def has_street_def)
    qed
    then obtain y k d where y: "idle_loop env n (r # rs) nv = idle_loop env k rs y" "fresh d y" "d \<le> c + route_len r"
      "nv_has_sitem y \<longleftrightarrow> nv_has_sitem nv \<or> has_street [r]" "nv_route_mr y = nv_route_mr nv" by blast
    obtain n' rs' nv' c' where ih: "idle_loop env k rs y = Some (n', rs', nv')" "fresh c' nv'"
      "c' + sum_list (map route_len rs') \<le> d + sum_list (map route_len rs)"
      "nv_has_sitem nv' \<or> has_street rs' \<longleftrightarrow> nv_has_sitem y \<or> has_street rs" "set rs' \<subseteq> set rs"
      "n' = 0 \<or> rs' = [] \<and> \<not> nv_has_ritem nv'" "nv_route_mr nv' = nv_route_mr y" "length rs' \<le> length rs"
      using Cons.IH [OF y(2) r(3), of k] by blast
    have "has_street (r # rs) \<longleftrightarrow> has_street [r] \<or> has_street rs" by (simp add: has_street_def)
    then show ?thesis using y ih by (intro exI [of _ n'] exI [of _ rs'] exI [of _ nv'] exI [of _ c']) auto
  qed
qed

lemma ends_keys:
  assumes "nav_keys (nv_itms nv') = nav_keys (nv_itms nv)" "nv_cmds nv' = nv_cmds nv"
  shows "ends_at_destination nv' = ends_at_destination nv"
proof -
  have "nv_itms nv' = [] \<longleftrightarrow> nv_itms nv = []" by (metis assms(1) nav_keys_empty)
  moreover have "nv_itms nv \<noteq> [] \<Longrightarrow> ni_addr (last (nv_itms nv')) = ni_addr (last (nv_itms nv))"
    using nav_keys_addrs [OF assms(1)] calculation by (metis last_map)
  ultimately show ?thesis using assms(2) by (auto simp: ends_at_destination_def)
qed

definition route_done :: "bool \<Rightarrow> navigation \<Rightarrow> bool" where
  "route_done street nv \<longleftrightarrow> \<not> nv_busy nv \<and> nv_nav_status nv = status_routing
     \<and> (if street then ends_at_destination nv else nv_itms nv = [] \<and> nv_cmds nv = [])"

lemma fresh_fields:
  assumes "fresh c nv" "nv_itms nv' = nv_itms nv" "nv_cmds nv' = nv_cmds nv" "nv_hash nv' = nv_hash nv" "nv_next nv' = nv_next nv"
    "nv_has_sitem nv' = nv_has_sitem nv" "nv_busy nv'"
  shows "fresh c nv'"
  using assms nav_inv_keys [of nv' nv] by (auto simp: fresh_def nav_ok_def)

lemma update_commands_fresh:
  assumes "fresh c nv" "c \<le> 2000000000" "\<not> nv_has_ritem nv"
  shows "\<exists>nv'. update_commands env nv = Some nv' \<and> (if nv_has_sitem nv then ends_at_destination nv' else nv_itms nv' = [] \<and> nv_cmds nv' = [])"
proof (cases "nv_has_sitem nv")
  case False
  then show ?thesis using destroy_all [of nv] assms(1) by (simp add: update_commands_def fresh_def nav_ok_def)
next
  case True
  then have i: "nav_inv nv" "nv_itms nv \<noteq> []" using assms(1) by (simp_all add: fresh_def nav_ok_def)
  obtain n1 n2 t cs where n: "navigation_itm_new env nv None = Some n1" "make_maneuvers env n1 = Some n2" "nav_inv n2"
    "ends_at_destination n2" "n2 = (nav_append t nv)\<lparr>nv_cmds := cs\<rparr>" "ni_length t = 0"
    using finish_route [OF i, of env] by blast
  have itms: "nv_itms n2 = nv_itms nv @ [t]" using n(5) by (simp add: nav_append_def)
  define m where "m = n2\<lparr>nv_itms := rev (dest_loop 0 0 0 (rev (nv_itms n2)))\<rparr>"
  have c: "calculate_dest_distance n2 False = Some m" by (simp add: calculate_dest_distance_def m_def)
  have k: "nav_keys (nv_itms m) = nav_keys (nv_itms n2)" "nv_cmds m = nv_cmds n2" "nv_hash m = nv_hash n2" "nv_next m = nv_next n2"
    by (simp_all add: m_def nav_keys_rev dest_loop_keys)
  have "\<forall>i \<in> set (rev (nv_itms n2)). 0 \<le> ni_length i" "0 + sum_list (map ni_length (rev (nv_itms n2))) \<le> 2000000000"
    using assms(1,2) n(6) unfolding itms by (auto simp: fresh_def rev_map [symmetric] sum_list_rev)
  from dest_loop_bounds [OF this(1) _ this(2)] have "\<forall>i \<in> set (nv_itms m). 0 \<le> ni_dest_length i \<and> ni_dest_length i \<le> 2000000000"
    by (simp add: m_def)
  then obtain z where z: "navigation_call_callbacks m False = Some z" using callbacks_total nav_inv_keys [OF k] n(3) by blast
  have "nav_keys (nv_itms z) = nav_keys (nv_itms n2)" "nv_cmds z = nv_cmds n2" using callbacks_core [OF z] k by (simp_all add: nav_core_def)
  then have "ends_at_destination z" using ends_keys n(4) by blast
  moreover have "update_commands env nv = Some z" using True assms(3) n(1,2) c z by (simp add: update_commands_def)
  ultimately show ?thesis using True by simp
qed

lemma update_done_fresh:
  assumes "fresh c nv" "c \<le> 2000000000" "\<not> nv_has_ritem nv"
  shows "\<exists>nv'. navigation_update_done env nv False = Some nv' \<and> route_done (nv_has_sitem nv) nv'"
proof -
  let ?d = "drop_idle_event nv"
  have d: "nv_itms ?d = nv_itms nv" "nv_cmds ?d = nv_cmds nv" "nv_hash ?d = nv_hash nv" "nv_next ?d = nv_next nv"
    "nv_has_sitem ?d = nv_has_sitem nv" "nv_busy ?d = nv_busy nv" "nv_has_ritem ?d = nv_has_ritem nv"
    by (simp_all add: drop_idle_event_def)
  have "fresh c ?d" using fresh_fields [OF assms(1) d(1-5)] d(6) assms(1) by (simp add: fresh_def)
  then obtain x where x: "update_commands env ?d = Some x"
    "if nv_has_sitem nv then ends_at_destination x else nv_itms x = [] \<and> nv_cmds x = []"
    using update_commands_fresh [of c ?d env] assms(2,3) d by auto
  let ?r = "update_reset (set_nav_status status_routing x)"
  have r: "nv_itms ?r = nv_itms x" "nv_cmds ?r = nv_cmds x" by (simp_all add: update_reset_def set_nav_status_def)
  have "navigation_update_done env nv False = Some ?r" using x(1) by (simp add: navigation_update_done_def Let_def)
  moreover have "route_done (nv_has_sitem nv) ?r"
    using x(2) r ends_keys [of ?r x] by (simp add: route_done_def) (simp add: update_reset_def set_nav_status_def)
  ultimately show ?thesis by blast
qed

lemma sync_fresh:
  assumes "complete_maps env"
  shows "fresh c nv \<Longrightarrow> nv_route_mr nv = Some rs \<Longrightarrow> c + sum_list (map route_len rs) \<le> 2000000000 \<Longrightarrow>
    \<forall>r \<in> set rs. rt_coords r \<noteq> [] \<and> 0 \<le> route_len r \<Longrightarrow>
    \<exists>nv'. update_sync env True nv = Some nv' \<and> route_done (nv_has_sitem nv \<or> has_street rs) nv'"
proof (induction "length rs" arbitrary: rs nv c rule: less_induct)
  case less
  have busy: "nv_busy nv" using less.prems(1) by (simp add: fresh_def)
  obtain n' rs' x c' where x: "idle_loop env 100 rs nv = Some (n', rs', x)" "fresh c' x"
    "c' + sum_list (map route_len rs') \<le> c + sum_list (map route_len rs)"
    "nv_has_sitem x \<or> has_street rs' \<longleftrightarrow> nv_has_sitem nv \<or> has_street rs" "set rs' \<subseteq> set rs"
    "n' = 0 \<or> rs' = [] \<and> \<not> nv_has_ritem x" "n' = 0 \<longrightarrow> length rs' < length rs"
    using idle_loop_fresh [OF assms less.prems(1,4), of 100] by (metis zero_less_numeral)
  let ?x = "x\<lparr>nv_route_mr := Some rs'\<rparr>"
  have f: "fresh c' ?x" using fresh_fields [OF x(2), of ?x] x(2) by (simp add: fresh_def)
  have idle: "navigation_update_idle env True nv = (if n' > 0 then navigation_update_done env ?x False else Some ?x)"
    using x(1) less.prems(2) by (simp add: navigation_update_idle_def)
  show ?case
  proof (cases "n' = 0")
    case True
    have "\<exists>nv'. update_sync env True ?x = Some nv' \<and> route_done (nv_has_sitem ?x \<or> has_street rs') nv'"
      using less.hyps [of rs' c' ?x] x f True less.prems(3,4) by fastforce
    then show ?thesis using x(4) busy idle True by (subst update_sync.simps) simp
  next
    case False
    then have rs': "rs' = []" "\<not> nv_has_ritem ?x" using x(6) by simp_all
    then have "c' \<le> 2000000000" using x(3) less.prems(3) by simp
    from update_done_fresh [OF f this rs'(2), of env] obtain nv' where
      nv': "navigation_update_done env ?x False = Some nv'" "route_done (nv_has_sitem x) nv'" by auto
    then have s: "update_sync env True nv' = Some nv'" by (subst update_sync.simps) (simp add: route_done_def)
    have "nv_has_sitem x \<longleftrightarrow> nv_has_sitem nv \<or> has_street rs" using x(4) rs'(1) by (simp add: has_street_def)
    then show ?thesis using nv' s busy idle False by (subst update_sync.simps) simp
  qed
qed


section \<open>A route in an example\<close>

lemma ex_complete: "complete_maps ex_maps" by (simp add: complete_maps_def ex_maps_def)

lemma ex_route_ok: "list_all (\<lambda>r. rt_coords r \<noteq> [] \<and> 0 \<le> route_len r) [ex_route]" "sum_list (map route_len [ex_route]) \<le> 2000000000"
  "list_ex (\<lambda>r. rt_type r = type_street_route \<and> rt_street_item r \<noteq> None) [ex_route]"
  by code_simp+


text \<open>An object that follows this route.\<close>

lemma ex_follows:
  "\<exists>nv. nav_reach complete_maps nv \<and> nv_cmds nv \<noteq> []"
proof -
  let ?s = "list_ex (\<lambda>r. rt_type r = type_street_route \<and> rt_street_item r \<noteq> None) [ex_route]"
  have f: "fresh 0 ((update_start [ex_route] (update_flush 0 (navigation_new 0) route_status_path_done_new))\<lparr>nv_idle_ev := False\<rparr>)" (is "fresh 0 ?y")
    by (simp add: fresh_def nav_ok_def nav_inv_def update_start_def update_flush_def navigation_flush_def navigation_destroy_itms_cmds_def
        navigation_new_def set_nav_status_def hash_live_def)
  have m: "nv_route_mr ?y = Some [ex_route]" "0 + sum_list (map route_len [ex_route]) \<le> 2000000000"
    "\<forall>r \<in> set [ex_route]. rt_coords r \<noteq> [] \<and> 0 \<le> route_len r"
    using ex_route_ok by (simp_all add: update_start_def)
  obtain nv where "update_sync ex_maps True ?y = Some nv" "route_done (nv_has_sitem ?y \<or> has_street [ex_route]) nv"
    using sync_fresh [OF ex_complete f m] by blast
  moreover have "has_street [ex_route]" using ex_route_ok(3) by (simp add: has_street_def)
  ultimately have "navigation_update ex_maps 0 (navigation_new 0) route_status_path_done_new (Some [ex_route]) False True = Some nv"
    "nv_cmds nv \<noteq> []"
    by (simp_all add: navigation_update_def Let_def route_done_def ends_at_destination_def)
  then show ?thesis using nav_reach.status [where good = complete_maps, OF nav_reach.new ex_complete] by blast
qed


section \<open>Going on along the route\<close>

lemma hash_lookup_equal: "nav_hash_lookup h it = Some a \<Longrightarrow> \<exists>k. (k, a) \<in> set h \<and> item_is_equal k it"
  by (auto simp: nav_hash_lookup_def find_Some_iff) (metis nth_mem)

lemma live_item:
  assumes "nav_inv nv" "nav_hash_lookup (nv_hash nv) it = Some a"
  shows "\<exists>k < length (nv_itms nv). ni_addr (nv_itms nv ! k) = a \<and> item_is_equal (nw_item (ni_way (nv_itms nv ! k))) it
    \<and> (\<exists>ps ns. nav_itm nv a = Some (ps, nv_itms nv ! k, ns))"
proof -
  obtain key where key: "(key, a) \<in> set (nv_hash nv)" "item_is_equal key it" using hash_lookup_equal assms(2) by blast
  then obtain i where i: "i \<in> set (nv_itms nv)" "ni_addr i = a" "item_is_equal key (nw_item (ni_way i))"
    using assms(1) by (fastforce simp: nav_inv_def hash_live_def nav_keys_def)
  then obtain k where k: "k < length (nv_itms nv)" "nv_itms nv ! k = i" by (metis in_set_conv_nth)
  obtain ps j ns where j: "nav_itm nv a = Some (ps, j, ns)" "j \<in> set (nv_itms nv)" "ni_addr j = a"
    using itm_split_found [of a "nv_itms nv" "[]"] i by (auto simp: nav_itm_def)
  have "j = i" using j i assms(1) by (auto simp: nav_inv_def distinct_map inj_on_def)
  moreover have "item_is_equal (nw_item (ni_way i)) it" using item_is_equal_trans [OF item_is_equal_sym [OF i(3)] key(2)] .
  ultimately show ?thesis using k j i(2) by blast
qed

lemma dropWhile_addr:
  assumes "distinct (map f xs)" "k < length xs"
  shows "dropWhile (\<lambda>x. Some (f (xs ! k)) \<noteq> Some (f x)) xs = xs ! k # drop (Suc k) xs"
  using assms
proof (induction xs arbitrary: k)
  case (Cons x xs)
  show ?case
  proof (cases k)
    case (Suc j)
    then have "f (xs ! j) \<in> f ` set xs" "f x \<notin> f ` set xs" using Cons.prems by auto
    then have "f (xs ! j) \<noteq> f x" by metis
    then show ?thesis using Cons Suc by simp
  qed simp
qed simp



section \<open>What goes wrong\<close>

text \<open>The update for a route whose only street is missing: no item is made before that of the destination.\<close>

lemma missing_street:
  assumes "ne_street env sitem = None" "rt_type r = type_street_route" "rt_street_item r = Some sitem"
    "nv_itms nv = []" "nv_hash nv = []" "\<not> nv_has_sitem nv"
  shows "idle_loop env 100 [r] nv = Some (99, [], nv\<lparr>nv_has_ritem := False, nv_has_sitem := True\<rparr>)"
proof -
  let ?x = "nv\<lparr>nv_has_ritem := True\<rparr>"
  have t: "idle_turn_around (rt_type r) ?x = ?x" using assms(2) by (simp add: idle_turn_around_def nav_types)
  have f: "idle_first_street (?x\<lparr>nv_has_sitem := True\<rparr>) sitem (rt_direction r) r = Some (False, ?x\<lparr>nv_has_sitem := True\<rparr>)"
    using assms(4,5) destroy_empty [of "?x\<lparr>nv_has_sitem := True\<rparr>"]
    by (simp add: idle_first_street_def known_street_def keep_from_def nav_hash_lookup_def)
  have n: "navigation_itm_new env y (Some r) = Some y" for y
    using assms(1,3) by (simp add: navigation_itm_new_def itm_of_route_def Let_def)
  have "idle_street env r ?x = Some (False, ?x\<lparr>nv_has_sitem := True\<rparr>)" using assms(3,6) f n by (simp add: idle_street_def)
  then have "idle_loop env (Suc 99) [r] nv = Some (99, [], nv\<lparr>nv_has_ritem := False, nv_has_sitem := True\<rparr>)"
    unfolding idle_loop.simps(3) using assms(2) t by (simp add: Let_def)
  then show ?thesis by simp
qed

lemma lone_destination:
  assumes "nv_itms nv = []" "nv_has_sitem nv" "\<not> nv_has_ritem nv" "nv_turn_around nv = 0" "nv_turn_around_limit nv = 3" "nv_next nv = 0"
  shows "\<exists>nv' t c. update_commands env nv = Some nv' \<and> nv_itms nv' = [t] \<and> nv_cmds nv' = [c] \<and> nc_itm c = 0 \<and> nv_busy nv' = nv_busy nv"
proof -
  obtain c where c: "command_new (nav_env.truncate env) [] (zero_itm 0) [] destination_maneuver = Some c" "nc_itm c = 0"
    by (simp add: command_new_def destination_maneuver_def zero_itm_def)
  let ?n = "nav_append (zero_itm 0) nv"
  have n: "navigation_itm_new env nv None = Some ?n" using assms(1,6) by (simp add: navigation_itm_new_def)
  have m: "make_maneuvers env ?n = Some (?n\<lparr>nv_cmds := [c]\<rparr>)" using assms(1) c(1) by (simp add: make_maneuvers_def nav_append_def)
  obtain t where t: "calculate_dest_distance (?n\<lparr>nv_cmds := [c]\<rparr>) False = Some (?n\<lparr>nv_cmds := [c], nv_itms := [t]\<rparr>)" "ni_addr t = 0"
    using assms(1) by (simp add: calculate_dest_distance_def nav_append_def zero_itm_def)
  let ?x = "?n\<lparr>nv_cmds := [c], nv_itms := [t]\<rparr>"
  have "navigation_call_callbacks ?x False = Some (?x\<lparr>nv_log := nv_log ?x @ [Callback_maneuvers]\<rparr>)"
    using assms(4,5) c(2) t(2) by (simp add: navigation_call_callbacks_def nav_itm_def nav_append_def Let_def)
  then have "update_commands env nv = Some (?x\<lparr>nv_log := nv_log ?x @ [Callback_maneuvers]\<rparr>)"
    using assms(2,3) n m t(1) by (simp add: update_commands_def)
  then show ?thesis using c(2) by (simp add: nav_append_def)
qed

text \<open>
  C7: when no street of a new route is on the map, the only item is that for the destination and the command
  for it refers to the first item: it survives the flush that frees the item, and then refers to freed memory.
\<close>

theorem nav_dangling_destination:
  assumes "ne_street env sitem = None" "rt_type r = type_street_route" "rt_street_item r = Some sitem"
  shows "\<exists>nv nv'. navigation_update env junk (navigation_new delay) route_status_path_done_new (Some [r]) False True = Some nv
    \<and> navigation_update env junk nv route_status_no_destination (Some rs) async hg = Some nv'
    \<and> nv_itms nv' = [] \<and> map nc_itm (nv_cmds nv') = [0]"
proof -
  define y where "y = (update_start [r] (update_flush junk (navigation_new delay) route_status_path_done_new))\<lparr>nv_idle_ev := False\<rparr>"
  have y: "nv_itms y = []" "nv_hash y = []" "\<not> nv_has_sitem y" "nv_busy y" "nv_turn_around y = 0" "nv_turn_around_limit y = 3" "nv_next y = 0"
    "nv_route_mr y = Some [r]" "\<not> nv_idle_ev y"
    by (simp_all add: y_def update_start_def update_flush_def navigation_flush_def navigation_destroy_itms_cmds_def navigation_new_def
        set_nav_status_def route_status_defs)
  define z where "z = y\<lparr>nv_has_ritem := False, nv_has_sitem := True, nv_route_mr := Some []\<rparr>"
  have z: "drop_idle_event z = z" using y by (simp add: z_def drop_idle_event_def)
  obtain w t c where w: "update_commands env z = Some w" "nv_itms w = [t]" "nv_cmds w = [c]" "nc_itm c = 0"
    using lone_destination [of z env] y by (auto simp: z_def)
  let ?nv = "update_reset (set_nav_status status_routing w)"
  have "navigation_update_idle env True y = Some ?nv"
    using missing_street [OF assms y(1-3)] y(8) z w(1) by (simp add: navigation_update_idle_def navigation_update_done_def z_def)
  then have "update_sync env True y = Some ?nv"
    using y(4) by (subst update_sync.simps, simp, subst update_sync.simps) (simp add: update_reset_def)
  then have u: "navigation_update env junk (navigation_new delay) route_status_path_done_new (Some [r]) False True = Some ?nv"
    by (simp add: navigation_update_def Let_def y_def)
  let ?nv' = "update_flush junk ?nv route_status_no_destination"
  have nv: "nv_itms ?nv = [t]" "nv_cmds ?nv = [c]" "\<not> nv_busy ?nv" using w by (simp_all add: update_reset_def set_nav_status_def)
  have "nv_itms ?nv' = []" "nv_cmds ?nv' = [c]" "\<not> nv_busy ?nv'"
    using nv by (simp_all add: update_flush_def navigation_flush_def navigation_destroy_itms_cmds_def set_nav_status_def route_status_defs)
  then show ?thesis using u w(4) by (intro exI [of _ ?nv] exI [of _ ?nv']) (simp add: navigation_update_def Let_def route_status_defs)
qed

theorem nav_dangling_destination_witness:
  "\<exists>nv nv'. navigation_update (ex_maps\<lparr>ne_street := \<lambda>_. None\<rparr>) 0 (navigation_new 0) route_status_path_done_new (Some [ex_route]) False True = Some nv
    \<and> navigation_update (ex_maps\<lparr>ne_street := \<lambda>_. None\<rparr>) 0 nv route_status_no_destination (Some []) False True = Some nv'
    \<and> nv_itms nv' = [] \<and> map nc_itm (nv_cmds nv') = [0]"
  by (rule nav_dangling_destination [of _ ex_street]) (simp_all add: ex_route_def)

text \<open>The event of the object and whether it is busy.\<close>

definition nav_ev :: "navigation \<Rightarrow> nat \<times> bool \<times> bool" where
  "nav_ev nv = (nv_events nv, nv_idle_ev nv, nv_busy nv)"

lemma itm_new_ev: "navigation_itm_new env nv r = Some nv' \<Longrightarrow> nav_ev nv' = nav_ev nv"
  by (auto simp: navigation_itm_new_def nav_append_def nav_ev_def Let_def split: option.splits Option.bind_splits)

lemma destroy_ev [simp]: "nav_ev (navigation_destroy_itms_cmds nv s) = nav_ev nv" by (simp add: nav_ev_def)

lemma first_street_ev: "idle_first_street nv sitem d r = Some (f, nv') \<Longrightarrow> nav_ev nv' = nav_ev nv"
proof -
  assume "idle_first_street nv sitem d r = Some (f, nv')"
  then obtain itm where "keep_from nv itm r = Some (f, nv')" by (auto simp: idle_first_street_def split: Option.bind_splits)
  then show ?thesis by (auto simp: keep_from_def nav_ev_def Let_def split: option.splits list.splits)
qed

lemma idle_street_ev: "idle_street env r nv = Some (f, nv') \<Longrightarrow> nav_ev nv' = nav_ev nv"
proof -
  assume "idle_street env r nv = Some (f, nv')"
  then obtain g y where y: "g = False \<and> y = nv \<or> (\<exists>s. idle_first_street (nv\<lparr>nv_has_sitem := True\<rparr>) s (rt_direction r) r = Some (g, y))"
    "(if g then Some (True, y) else navigation_itm_new env y (Some r) \<bind> (\<lambda>this. Some (False, this))) = Some (f, nv')"
    by (auto simp: idle_street_def bind_eq_Some_conv split: bool.splits option.splits)
  have "nav_ev y = nav_ev nv" using y(1) by (auto dest!: first_street_ev) (simp add: nav_ev_def)
  then show ?thesis using y(2) by (auto split: if_splits Option.bind_splits dest!: itm_new_ev)
qed

lemma idle_loop_ev: "idle_loop env n rs nv = Some (n', rs', nv') \<Longrightarrow> nav_ev nv' = nav_ev nv"
proof (induction rs arbitrary: n nv)
  case Nil
  then show ?case by (auto simp: nav_ev_def split: if_splits)
next
  case (Cons r rs)
  define x where "x = idle_turn_around (rt_type r) (nv\<lparr>nv_has_ritem := True\<rparr>)"
  have x: "nav_ev x = nav_ev nv" by (simp add: x_def nav_ev_def idle_turn_around_def Let_def)
  show ?case
  proof (cases n)
    case (Suc m)
    show ?thesis
    proof (cases "rt_type r = type_street_route")
      case True
      then obtain f y where y: "idle_street env r x = Some (f, y)" "(if f then Some (Suc m, rs, y) else idle_loop env m rs y) = Some (n', rs', nv')"
        using Cons.prems Suc by (auto simp: x_def Let_def bind_eq_Some_conv)
      have "nav_ev nv' = nav_ev y" using y(2) Cons.IH by (auto split: if_splits)
      then show ?thesis using idle_street_ev [OF y(1)] x by simp
    qed (use Cons x Suc x_def in \<open>simp add: Let_def\<close>)
  qed (use Cons in simp)
qed

lemma callbacks_ev: "navigation_call_callbacks nv f = Some nv' \<Longrightarrow> nav_ev nv' = nav_ev nv"
proof -
  have ann: "announce_turn_around nv d f = Some (nv', r) \<Longrightarrow> nav_ev nv' = nav_ev nv"
    "announce_level_change nv i c d f = Some (nv', r) \<Longrightarrow> nav_ev nv' = nav_ev nv"
    "announce_new_maneuver nv it f = (nv', g) \<Longrightarrow> nav_ev nv' = nav_ev nv" for nv d f nv' r i c it g
    by (auto simp: announce_turn_around_def announce_level_change_def announce_new_maneuver_def nav_ev_def Let_def
        split: if_splits Option.bind_splits)
  have c: "nav_ev (x\<lparr>nv_log := l\<rparr>) = nav_ev x" "nav_ev (x\<lparr>nv_distance_turn := d\<rparr>) = nav_ev x"
    "nav_ev (x\<lparr>nv_level_last := k\<rparr>) = nav_ev x" "nav_ev (x\<lparr>nv_curr_delay := d\<rparr>) = nav_ev x" for x l d k
    by (simp_all add: nav_ev_def)
  assume "navigation_call_callbacks nv f = Some nv'"
  then show ?thesis
    by (auto simp: navigation_call_callbacks_def Let_def c split: list.splits if_splits Option.bind_splits prod.splits dest!: ann)
qed

lemma update_commands_ev:
  assumes "update_commands env nv = Some nv'"
  shows "nav_ev nv' = nav_ev nv"
proof (cases "nv_has_sitem nv")
  case True
  then obtain m x where m: "(if \<not> nv_has_ritem nv then navigation_itm_new env nv None \<bind> make_maneuvers env else Some nv) = Some m"
    "calculate_dest_distance m False = Some x" "navigation_call_callbacks x False = Some nv'"
    using assms unfolding update_commands_def by (auto simp: bind_eq_Some_conv split: if_splits)
  have "nav_ev m = nav_ev nv"
    using m(1) by (auto simp: make_maneuvers_def bind_eq_Some_conv split: if_splits dest!: itm_new_ev) (simp add: nav_ev_def)
  moreover have "nav_ev x = nav_ev m" using calculate_dest_distance_eq [of m] m(2) by (auto simp: nav_ev_def)
  ultimately show ?thesis using callbacks_ev [OF m(3)] by simp
qed (use assms in \<open>auto simp: update_commands_def\<close>)

text \<open>
  C8: a second route that arrives while the first is still read in idle time starts a second idle event
  and forgets the first: when the update is through, the forgotten event is still there, and the next time it
  runs it reads the route through a null pointer.
\<close>

theorem nav_idle_event_leaks:
  assumes "navigation_update env junk nv route_status_path_done_incremental (Some rs) True hg = Some nv1"
    "navigation_update env junk nv1 route_status_path_done_incremental (Some rs') True hg = Some nv2"
    "navigation_update_idle env True nv2 = Some nv3" "\<not> nv_busy nv3"
  shows "nv_events nv3 = nv_events nv + 1 \<and> navigation_update_idle env' True nv3 = None"
proof -
  have f: "nav_ev (set_nav_status s x) = nav_ev x" for s x by (simp add: nav_ev_def set_nav_status_def)
  have two: "nv_events nv2 = nv_events nv + 2" "nv_idle_ev nv2" "nv_route_mr nv2 = Some rs'" "nv_busy nv2"
    using assms(1,2) by (auto simp: navigation_update_def update_flush_def update_start_def set_nav_status_def route_status_defs Let_def)
  obtain n rs'' x where x: "idle_loop env 100 rs' nv2 = Some (n, rs'', x)"
    "(if n > 0 then navigation_update_done env (x\<lparr>nv_route_mr := Some rs''\<rparr>) False else Some (x\<lparr>nv_route_mr := Some rs''\<rparr>)) = Some nv3"
    using assms(3) two(3) by (auto simp: navigation_update_idle_def Let_def bind_eq_Some_conv)
  let ?x = "x\<lparr>nv_route_mr := Some rs''\<rparr>"
  have e: "nav_ev ?x = nav_ev nv2" using idle_loop_ev [OF x(1)] by (simp add: nav_ev_def)
  have "n > 0" using x(2) assms(4) two(4) e by (auto simp: nav_ev_def split: if_splits)
  then obtain y where y: "update_commands env (drop_idle_event ?x) = Some y" "nv3 = update_reset (set_nav_status status_routing y)"
    using x(2) by (cases "update_commands env (drop_idle_event ?x)") (simp_all add: navigation_update_done_def Let_def)
  have "nv_events (drop_idle_event ?x) = nv_events nv + 1" using e two(1,2) by (simp add: nav_ev_def drop_idle_event_def)
  then have "nv_events nv3 = nv_events nv + 1"
    using update_commands_ev [OF y(1)] f [of status_routing y] y(2) by (simp add: nav_ev_def update_reset_def)
  moreover have "nv_route_mr nv3 = None" using y(2) by (simp add: update_reset_def)
  ultimately show ?thesis by (simp add: navigation_update_idle_def)
qed

theorem nav_idle_event_leaks_witness:
  "\<exists>nv1 nv2 nv3. navigation_update ex_maps 0 (navigation_new 0) route_status_path_done_incremental (Some []) True True = Some nv1
    \<and> navigation_update ex_maps 0 nv1 route_status_path_done_incremental (Some []) True True = Some nv2
    \<and> navigation_update_idle ex_maps True nv2 = Some nv3 \<and> nv_events nv3 = 1 \<and> navigation_update_idle ex_maps True nv3 = None"
proof -
  obtain nv1 where nv1: "navigation_update ex_maps 0 (navigation_new 0) route_status_path_done_incremental (Some []) True True = Some nv1"
    by (simp add: navigation_update_def Let_def route_status_defs)
  obtain nv2 where nv2: "navigation_update ex_maps 0 nv1 route_status_path_done_incremental (Some []) True True = Some nv2"
    by (simp add: navigation_update_def Let_def route_status_defs)
  have m: "nv_route_mr nv2 = Some []" "\<not> nv_has_sitem nv2"
    using nv2 by (auto simp: navigation_update_def update_start_def Let_def route_status_defs)
  let ?x = "drop_idle_event (nv2\<lparr>nv_has_ritem := False, nv_route_mr := Some []\<rparr>)"
  have "\<not> nv_has_sitem ?x" using m(2) by (simp add: drop_idle_event_def)
  then have "update_commands ex_maps ?x = Some (navigation_destroy_itms_cmds ?x None)" by (simp add: update_commands_def)
  then have "navigation_update_idle ex_maps True nv2 = Some (update_reset (set_nav_status status_routing (navigation_destroy_itms_cmds ?x None)))"
    using m(1) by (simp add: navigation_update_idle_def navigation_update_done_def Let_def)
  then obtain nv3 where nv3: "navigation_update_idle ex_maps True nv2 = Some nv3" "\<not> nv_busy nv3" by (simp add: update_reset_def)
  show ?thesis using nav_idle_event_leaks [OF nv1 nv2 nv3, of ex_maps] nv1 nv2 nv3(1) by (simp add: navigation_new_def)
qed

end
