(* ===== verification/Spec2Isabelle.thy ===== *)
theory Spec2Isabelle
  imports Cache_Spec Route_Build_Spec Route_Path_Spec Text_Line_Spec Attr_Spec Traffic_Names_Spec Traffic_Spec Traffic_Items_Spec
    Tile_Name_Spec Tile_Write_Spec Bin_Item_Spec Bin_Tile_Spec Bin_Coord_Spec Item_Cursor Geom_Spec Nav_Maneuver_Spec Nav_Life_Spec
begin

text \<open>
  A verification development for Navit, the car navigation program under \<open>src/navit\<close>. It models the data path
  from the map file to the instruction: maptool writes items into the tiles of a map file; the binfile driver reads
  them through the cache; the route module builds a graph from them, floods it from the destination and walks
  the cheapest path; traffic messages change the graph; the navigation module turns the path into
  maneuvers. Files are named relative to \<open>src/navit\<close>.

  \<^bold>\<open>How C is modelled.\<close> A struct is a record, an enum or tagged union a datatype, a list linked by pointers either an
  explicit memory (cache, attribute lists, route graph, path, traffic items) or the list of its cells where no other part
  of the program holds a pointer into it (tiles, navigation ways). An address is a natural number; allocation takes the next
  unused one. An \<open>int\<close> is an \<open>int\<close> with \<open>i32\<close> around every operation that can leave the type, flags are
  \<open>32 word\<close>, a \<open>double\<close> is a rational with \<open>dround\<close> after each operation (C_Double). A result of type
  \<open>option\<close> is \<open>None\<close> where the code reads freed or foreign memory, fails an assertion, or a loop does not end. Loops of unknown length are
  \<open>partial_function (option)\<close>; that they return is a theorem, with the conditions for it. The only fuel is that of \<open>merge_smallest\<close>, five rounds: one for each of the four
  subtiles and one to find none left, which Tile_Store_Spec shows to be enough. Calls into code that is not here are parameters: the memory a buffer had before (\<open>junk\<close>), the choice of the Fibonacci heap among equal
  keys (\<open>pick\<close>), what inflating a zip member gives, whether the debug output that walks over the words of an item is on
  (\<open>verbose\<close>), the distance and bearing functions of the C library, and for the navigation what the maps answer (\<open>nav_maps\<close>).

  \<^bold>\<open>Prelude.\<close> Navit_Prelude has the integer types, truncating division, coordinates and generic facts on lists;
  C_Double the arithmetic of \<open>double\<close>; C_String the strings of C.

  \<^bold>\<open>Cache (\<open>cache.c\<close>).\<close> Navit_Cache models the entries with their links, the four lists, the hash table and every operation.
  Cache_Lists reads the lists off the links; Cache_Refine has the invariant, an abstract cache of four lists without pointers
  and the refinement of \<open>cache_lookup\<close> and \<open>cache_insert\<close>; Cache_Spec the facts on reachable states: entries in use stay,
  inserted ids are found, flushing and destroying leave nothing.

  \<^bold>\<open>Route graph and search (\<open>route.c\<close>, \<open>route_protected.h\<close>).\<close> Route_Graph has points, segments, their hash table and optional fields;
  Route_Cost the costs from vehicle and road profile; Route_Heap the locale \<open>pqueue\<close>, what the search needs of its queue, and the locale
  \<open>heap_pick\<close> for any tie-breaking, interpreted as \<open>fm\<close> on the model of the heap; Route_LPA the lookahead, the expansion loop and
  initialisation; Route_Build the building from map items, traffic distortions and turn restrictions. Route_LPA_Heap,
  Route_Dijkstra and Route_Search show that the loop ends and every point gets the cost of a cheapest
  way; Route_Build_Inv the shape of the graph under every operation; Route_Graph_Spec, Route_Build_Spec and Route_Spec hold the properties.

  \<^bold>\<open>Route path (\<open>route.c\<close>).\<close> Route_Path models the roundabout check, the walk along the flooded graph, the segments of the path and the reuse
  of the old path; Route_Path_Inv and Route_Path_Spec show that the walk reaches the destination and that
  the coordinates fit into the memory allocated for them, and two defects on examples.

  \<^bold>\<open>Items, attributes and text (\<open>item_def.h\<close>, \<open>item.c\<close>, \<open>attr.c\<close>, \<open>util.c\<close>).\<close> Item_Types has the enumeration of item types as the compiler numbers it and
  the lookups of names; Attr_List and Attr_Spec the attribute lists with the memory of their cells; Text_Line and Text_Line_Spec
  escaping and \<open>attr_from_line\<close>, and that what is escaped is read back.

  \<^bold>\<open>Traffic (\<open>traffic.c\<close>, \<open>traffic.h\<close>).\<close> Traffic_Names has the enumerations and names, with \<open>event_type\<close> an instance of \<open>linorder\<close>, as the code compares event types;
  Traffic_Model the messages; Traffic_Events the data for segments derived from events; Traffic_Items the items of the
  traffic map with references from messages. Traffic_Names_Spec, Traffic_Spec and Traffic_Items_Spec hold the properties: names are
  read back, bounds of speeds and delays, attributes follow the messages, no item is shared.

  \<^bold>\<open>Tiles of a map file (\<open>maptool/tile.c\<close>, \<open>maptool/misc.c\<close>).\<close> Tile_Name has boxes and names of tiles, Tile_Store the sizes, the merging of small
  tiles and the slices. Tile_Name_Spec: the box of a name contains the item, and a reader that enters every
  overlapping tile finds it. Tile_Store_Spec and Tile_Write_Spec: both passes agree, no tile overflows.

  \<^bold>\<open>Items of a map file (\<open>maptool/itembin.c\<close>).\<close> Bin_Item works on the buffer, Bin_Encode is the abstract item with its encoding and the
  refinement, Bin_Item_Spec building, enumerating, removing and the file round trip.

  \<^bold>\<open>Reader (\<open>map/binfile/binfile.c\<close>).\<close> Bin_Tile has the rectangle with its stack of eight tiles as in the code, Bin_Reader the cursors and the
  iteration, Bin_Tile_Spec the traversal against a recursive specification, Bin_Edit_Spec and Bin_Coord_Spec changing attributes and coordinates.

  \<^bold>\<open>Users of coordinates (\<open>item.c\<close>).\<close> Item_Cursor has the reads of a range and within a selection on any driver. The locale \<open>coord_cursor\<close> is the contract
  of the drivers; \<open>bc\<close> interprets it on the binfile reader and \<open>tc\<close> on the traffic map.

  \<^bold>\<open>Geometry (\<open>transform.c\<close>).\<close> Geom_Transform has the integer distances, Douglas-Peucker and the bearing; Geom_Spec the nearest
  point and segment, the range in which no product overflows, and what is lost outside it.

  \<^bold>\<open>Navigation (\<open>navigation.c\<close>).\<close> Nav_Data has the structs and the functions on angles, names and categories. Nav_Maneuver is \<open>maneuver_required2\<close> in the
  steps of its body, from the cases without an analysis over the scan of the ways to merging and exits. Nav_Command has the ways as the map knows them,
  the analysis of roundabouts and \<open>command_new\<close>. Nav_List has the items of the route, the table and the
  commands: making, cutting and filling them. Nav_Update has the announcements and the update from the route, 100 items at a time as in the code,
  at once or in idle time, and the relation \<open>nav_reach\<close> of the objects the program can reach. Nav_Maneuver_Spec says when the driver is told and
  what silence means; Nav_List_Spec and Nav_Item_Spec the lists and single items; Nav_Update_Spec that every step keeps the invariant; Nav_Life_Spec
  the facts on reachable objects: nothing dangles, an update returns with commands up to the destination,
  and the cases in which it goes wrong.

  \<^bold>\<open>Not modelled.\<close> Of the parts above: the output for debugging; conversion of attributes from and to text; matching of traffic messages to the map, and
  the text dumps of the traffic map; the waypoints, listeners and the map of the route; opening files, downloads, the zip directory and the search of the binfile
  driver; the passes of maptool over its input, clipping, and the compression threads; the projection to the screen. Parts left
  out as a whole: the main object, menus and bookmarks, vehicles and tracking, search, the dispatch to map drivers, the other drivers, reading OpenStreetMap
  data, drawing and on-screen displays, graphics and speech back ends, configuration and the command interpreter, events and files, the sunrise tables and coordinate
  formats, the bindings: they are event plumbing, calls into toolkits and the operating system, external formats, or computations in
  floating point over data the model has no part of. The libraries kept in the tree under \<open>support\<close> are third-party code; where the
  modelled parts call one, its documented behaviour is a parameter.
\<close>

end
